(* ===== verification/Prelude.thy ===== *)
theory Prelude
  imports Main "HOL-Library.Word" "HOL-Library.Signed_Division" "HOL-Library.Monad_Syntax"
begin

unbundle bit_operations_syntax

text \<open>
  Shared base of the development: the C machine types the sources use, byte buffers
  addressed by an index, bit fields of a machine word, and the lemmas on them that the
  component theories rely on.

  Conventions used by every component.
  \<^item> A C function that may perform an access the language leaves undefined (a read or
    write outside the object a pointer points into, a signed overflow, a use of an
    uninitialised object) returns an option: \<^term>\<open>None\<close> is undefined behaviour.
  \<^item> A buffer is the list of its bytes, a pointer into it is an index.
  \<^item> Unsigned 32-bit quantities that are added and subtracted as addresses or sizes are
    natural numbers with the reduction modulo 2 to the 32 written out.
\<close>

section \<open>C types\<close>

type_synonym byte = "8 word"
type_synonym u16 = "16 word"
type_synonym u32 = "32 word"

named_theorems buf_simps \<open>reads and writes of byte buffers\<close>
named_theorems cint_simps \<open>arithmetic of the C type int\<close>
named_theorems field_simps_bits \<open>bit fields of a machine word\<close>

text \<open>A value computed in the C type int: overflow is undefined.\<close>

definition c_int :: "int \<Rightarrow> int option" where
  "c_int x = (if - (2 ^ 31) \<le> x \<and> x < 2 ^ 31 then Some x else None)"

lemma c_int_Some [cint_simps]: "- (2 ^ 31) \<le> x \<Longrightarrow> x < 2 ^ 31 \<Longrightarrow> c_int x = Some x"
  by (simp add: c_int_def)

lemma c_int_eq_Some_iff: "c_int x = Some y \<longleftrightarrow> y = x \<and> - (2 ^ 31) \<le> x \<and> x < 2 ^ 31"
  by (auto simp: c_int_def)

text \<open>C division and remainder agree with the mathematical ones on naturals.\<close>

lemma sdiv_nonneg [cint_simps]: "0 \<le> k \<Longrightarrow> 0 < l \<Longrightarrow> k sdiv l = k div l" for k l :: int
  by (simp add: signed_divide_int_def sgn_if)

lemma smod_nonneg [cint_simps]: "0 \<le> k \<Longrightarrow> 0 < l \<Longrightarrow> k smod l = k mod l" for k l :: int
  by (simp add: signed_modulo_int_def sgn_if)

text \<open>Unsigned 32-bit addition and subtraction on natural numbers.\<close>

definition add32 :: "nat \<Rightarrow> nat \<Rightarrow> nat" where
  "add32 a b = (a + b) mod 2 ^ 32"

definition sub32 :: "nat \<Rightarrow> nat \<Rightarrow> nat" where
  "sub32 a b = (a + (2 ^ 32 - b mod 2 ^ 32)) mod 2 ^ 32"

lemma add32_no_wrap [cint_simps]: "a + b < 2 ^ 32 \<Longrightarrow> add32 a b = a + b"
  by (simp add: add32_def)

lemma sub32_no_wrap [cint_simps]: "b \<le> a \<Longrightarrow> a < 2 ^ 32 \<Longrightarrow> sub32 a b = a - b"
proof -
  assume *: "b \<le> a" "a < 2 ^ 32"
  then have "a + (2 ^ 32 - b mod 2 ^ 32) = (a - b) + 2 ^ 32"
    by simp
  then have "sub32 a b = (a - b) mod 2 ^ 32"
    by (simp only: sub32_def mod_add_self2)
  with * show ?thesis
    by simp
qed

section \<open>Results of fallible functions\<close>

text \<open>
  \<open>holds P r\<close>: whatever a function that may be undefined returns satisfies \<open>P\<close>. The
  introduction rules follow the shape of the program; \<open>returns P r\<close> adds that it does return.
\<close>

definition holds :: "('a \<Rightarrow> bool) \<Rightarrow> 'a option \<Rightarrow> bool" where
  "holds P r \<longleftrightarrow> (\<forall>x. r = Some x \<longrightarrow> P x)"

definition returns :: "('a \<Rightarrow> bool) \<Rightarrow> 'a option \<Rightarrow> bool" where
  "returns P r \<longleftrightarrow> (\<exists>x. r = Some x \<and> P x)"

lemma holds_Some [simp]: "holds P (Some x) = P x"
  by (simp add: holds_def)

lemma holds_None [simp]: "holds P None"
  by (simp add: holds_def)

lemma holds_SomeI: "P x \<Longrightarrow> holds P (Some x)"
  by simp

lemma holds_bind: "(\<And>x. m = Some x \<Longrightarrow> holds P (f x)) \<Longrightarrow> holds P (m \<bind> f)"
  by (cases m) simp_all

lemma holds_if: "(b \<Longrightarrow> holds P x) \<Longrightarrow> (\<not> b \<Longrightarrow> holds P y) \<Longrightarrow> holds P (if b then x else y)"
  by simp

lemma holds_let: "(\<And>x. x = a \<Longrightarrow> holds P (f x)) \<Longrightarrow> holds P (let x = a in f x)"
  by (simp add: Let_def)

lemma holds_prod: "(\<And>a b. p = (a, b) \<Longrightarrow> holds P (f a b)) \<Longrightarrow> holds P (case p of (a, b) \<Rightarrow> f a b)"
  by (cases p) simp

lemma holds_option:
  "(r = None \<Longrightarrow> holds P x) \<Longrightarrow> (\<And>y. r = Some y \<Longrightarrow> holds P (f y)) \<Longrightarrow>
     holds P (case r of None \<Rightarrow> x | Some y \<Rightarrow> f y)"
  by (cases r) simp_all

lemmas holds_intros = holds_None holds_SomeI holds_bind holds_if holds_let holds_prod holds_option

lemma holdsD: "holds P r \<Longrightarrow> r = Some x \<Longrightarrow> P x"
  by (simp add: holds_def)

lemma holds_mono: "holds P r \<Longrightarrow> (\<And>x. P x \<Longrightarrow> Q x) \<Longrightarrow> holds Q r"
  by (simp add: holds_def)

section \<open>Byte buffers\<close>

definition read_at :: "'a list \<Rightarrow> nat \<Rightarrow> 'a option" where
  "read_at xs i = (if i < length xs then Some (xs ! i) else None)"

definition write_at :: "'a list \<Rightarrow> nat \<Rightarrow> 'a \<Rightarrow> 'a list option" where
  "write_at xs i x = (if i < length xs then Some (xs[i := x]) else None)"

text \<open>Copying a block: memcpy to the object at index \<open>i\<close>, and the block read back.\<close>

definition write_block :: "'a list \<Rightarrow> nat \<Rightarrow> 'a list \<Rightarrow> 'a list option" where
  "write_block xs i ys =
     (if i + length ys \<le> length xs
      then Some (take i xs @ ys @ drop (i + length ys) xs) else None)"

definition block_at :: "nat \<Rightarrow> nat \<Rightarrow> 'a list \<Rightarrow> 'a list" where
  "block_at i n xs = take n (drop i xs)"

text \<open>
  \<open>lay orig pre\<close> is the buffer \<open>orig\<close> with the bytes \<open>pre\<close> laid out at its start. A write
  right behind the laid out part extends it: serialisers are evaluated with these
  equations.
\<close>

definition lay :: "'a list \<Rightarrow> 'a list \<Rightarrow> 'a list" where
  "lay orig pre = pre @ drop (length pre) orig"

lemma lay_Nil [simp]: "lay orig [] = orig"
  by (simp add: lay_def)

lemma lay_length [simp]: "length pre \<le> length orig \<Longrightarrow> length (lay orig pre) = length orig"
  by (simp add: lay_def)

lemma lay_take [simp]: "take (length pre) (lay orig pre) = pre"
  by (simp add: lay_def)

lemma lay_drop [simp]: "drop (length pre) (lay orig pre) = drop (length pre) orig"
  by (simp add: lay_def)

lemma write_block_lay [buf_simps]:
  "length pre + length ys \<le> length orig \<Longrightarrow>
     write_block (lay orig pre) (length pre) ys = Some (lay orig (pre @ ys))"
  by (simp add: write_block_def lay_def add.commute)

lemma write_at_write_block: "write_at xs i x = write_block xs i [x]"
  by (simp add: write_at_def write_block_def upd_conv_take_nth_drop Suc_le_eq)

lemma write_at_lay [buf_simps]:
  "length pre < length orig \<Longrightarrow>
     write_at (lay orig pre) (length pre) y = Some (lay orig (pre @ [y]))"
  by (simp add: write_at_write_block write_block_lay)

lemma write_at_None [buf_simps]: "length xs \<le> i \<Longrightarrow> write_at xs i y = None"
  by (simp add: write_at_def)

lemma read_at_append [buf_simps]:
  "read_at (xs @ ys) i = (if i < length xs then read_at xs i else read_at ys (i - length xs))"
  by (auto simp: read_at_def nth_append)

lemma read_at_Cons_0 [simp]: "read_at (x # xs) 0 = Some x"
  by (simp add: read_at_def)

lemma read_at_Cons_Suc [simp]: "read_at (x # xs) (Suc i) = read_at xs i"
  by (simp add: read_at_def)

lemma read_at_eq_Some_iff: "read_at xs i = Some x \<longleftrightarrow> i < length xs \<and> xs ! i = x"
  by (auto simp: read_at_def)

lemma block_at_append [simp]: "block_at (length xs) (length ys) (xs @ ys @ zs) = ys"
  by (simp add: block_at_def)

lemma block_at_length: "a + n \<le> length m \<Longrightarrow> length (block_at a n m) = n"
  by (simp add: block_at_def)

lemma block_at_split: "block_at a (n + k) m = block_at a n m @ block_at (a + n) k m"
  by (simp add: block_at_def take_add add.commute [of n a])

section \<open>Bit fields\<close>

text \<open>
  A bit field of \<open>n\<close> bits at offset \<open>off\<close> of a machine word: reading it, and assigning
  a value to it, which keeps the \<open>n\<close> low bits of the value.
\<close>

definition bf_get :: "nat \<Rightarrow> nat \<Rightarrow> 'a::len word \<Rightarrow> 'a word" where
  "bf_get off n w = take_bit n (drop_bit off w)"

definition bf_set :: "nat \<Rightarrow> nat \<Rightarrow> 'a::len word \<Rightarrow> 'a word \<Rightarrow> 'a word" where
  "bf_set off n v w = (w AND NOT (push_bit off (mask n))) OR push_bit off (take_bit n v)"

lemma bf_get_set_same [field_simps_bits]:
  "off + n \<le> LENGTH('a) \<Longrightarrow> bf_get off n (bf_set off n v w) = take_bit n v"
  for v w :: "'a::len word"
  by (rule bit_word_eqI) (auto simp: bf_get_def bf_set_def bit_simps)

lemma bf_get_set_other [field_simps_bits]:
  "off + n \<le> off' \<or> off' + m \<le> off \<Longrightarrow> bf_get off n (bf_set off' m v w) = bf_get off n w"
  for v w :: "'a::len word"
  by (rule bit_word_eqI) (auto simp: bf_get_def bf_set_def bit_simps dest: bit_imp_le_length)

section \<open>The top bit of a byte\<close>

lemma unat_byte_less: "unat (w :: byte) < 256"
proof -
  have "unat w < 2 ^ LENGTH(8)"
    by (rule unsigned_less)
  then show ?thesis by simp
qed

lemma byte_and_127: "unat ((w :: byte) AND 127) = unat w mod 128"
proof -
  have "(127 :: byte) = mask 7" by (simp add: mask_eq_exp_minus_1)
  then have "w AND 127 = take_bit 7 w" by (simp add: take_bit_eq_mask)
  then show ?thesis by (simp add: take_bit_eq_mod unat_mod)
qed
lemma byte_and_128: "((w :: byte) AND 128 = 0) \<longleftrightarrow> unat w < 128"
proof -
  have "(128 :: byte) = 2 ^ 7" by simp
  then have "(w AND 128 = 0) \<longleftrightarrow> \<not> bit w 7"
    by (simp only: and_exp_eq_0_iff_not_bit)
  also have "\<dots> \<longleftrightarrow> \<not> bit (unat w) 7"
    by (simp add: bit_unsigned_iff)
  also have "\<dots> \<longleftrightarrow> even (unat w div 128)"
    by (simp add: bit_iff_odd)
  also have "\<dots> \<longleftrightarrow> unat w < 128"
  proof (cases "unat w < 128")
    case False
    with unat_byte_less [of w] have "unat w div 128 = 1"
      by (intro div_nat_eqI) simp_all
    with False show ?thesis by simp
  qed simp
  finally show ?thesis .
qed
lemma byte_or_128: "n < 128 \<Longrightarrow> unat ((of_nat n :: byte) OR 128) = n + 128"
proof -
  assume n: "n < 128"
  have "(of_nat n :: byte) AND 128 = 0"
    using n by (simp add: byte_and_128 unat_of_nat)
  then have "(of_nat n :: byte) OR 128 = of_nat n + 128"
    by (simp add: disjunctive_add_eq_or)
  then show ?thesis using n by (simp add: unat_word_ariths unat_of_nat)
qed


section \<open>Decimal output\<close>

text \<open>The digits \<^verbatim>\<open>printf\<close> writes for a number with the format \<^verbatim>\<open>%d\<close>.\<close>

fun show_nat :: "nat \<Rightarrow> byte list" where
  "show_nat n = (if n < 10 then [of_nat (48 + n)] else show_nat (n div 10) @ [of_nat (48 + n mod 10)])"

declare show_nat.simps [simp del]

lemma show_nat_digits: "c \<in> set (show_nat n) \<Longrightarrow> \<exists>k < 10. c = of_nat (48 + k)"
proof (induction n rule: show_nat.induct)
  case (1 n)
  show ?case
  proof (cases "n < 10")
    case True
    with 1(2) show ?thesis
      by (subst (asm) show_nat.simps) auto
  next
    case False
    from 1(2) have "c \<in> set (show_nat (n div 10)) \<or> c = of_nat (48 + n mod 10)"
      using False by (subst (asm) show_nat.simps) auto
    moreover have "n mod 10 < 10"
      by simp
    ultimately show ?thesis
      using 1(1) [OF False] by blast
  qed
qed

lemma unat_digit: "k < 10 \<Longrightarrow> unat (of_nat (48 + k) :: byte) = 48 + k"
  by (simp only: unat_of_nat) (simp add: take_bit_nat_eq_self)

lemma show_nat_nonzero: "0 \<notin> set (show_nat n)"
  using show_nat_digits [of 0 n] unat_digit by (metis add_is_0 unat_0 zero_neq_numeral)

end
