(* ===== verification/Mqtt_Packet.thy ===== *)
theory Mqtt_Packet
  imports Prelude
begin

text \<open>
  The MQTT packet layer of \<^verbatim>\<open>src/extras/paho_mqtt_c/MQTTPacket.c\<close>: the fixed header byte,
  the variable-length remaining-length field, the two-byte integers, the length-delimited
  strings, and the blocking and non-blocking packet readers. Output goes through a write
  cursor (the buffer and the index \<open>*pptr\<close> points at); input is read by index.
\<close>

section \<open>Constants and data\<close>

abbreviation (input) MQTTPACKET_BUFFER_TOO_SHORT :: int where "MQTTPACKET_BUFFER_TOO_SHORT \<equiv> - 2"
abbreviation (input) MQTTPACKET_READ_ERROR :: int where "MQTTPACKET_READ_ERROR \<equiv> - 1"

abbreviation (input) MQTTPACKET_CONNECT :: byte where "MQTTPACKET_CONNECT \<equiv> 1"
abbreviation (input) MQTTPACKET_CONNACK :: byte where "MQTTPACKET_CONNACK \<equiv> 2"
abbreviation (input) MQTTPACKET_PUBLISH :: byte where "MQTTPACKET_PUBLISH \<equiv> 3"
abbreviation (input) MQTTPACKET_PUBACK :: byte where "MQTTPACKET_PUBACK \<equiv> 4"
abbreviation (input) MQTTPACKET_PUBREC :: byte where "MQTTPACKET_PUBREC \<equiv> 5"
abbreviation (input) MQTTPACKET_PUBREL :: byte where "MQTTPACKET_PUBREL \<equiv> 6"
abbreviation (input) MQTTPACKET_PUBCOMP :: byte where "MQTTPACKET_PUBCOMP \<equiv> 7"
abbreviation (input) MQTTPACKET_SUBSCRIBE :: byte where "MQTTPACKET_SUBSCRIBE \<equiv> 8"
abbreviation (input) MQTTPACKET_SUBACK :: byte where "MQTTPACKET_SUBACK \<equiv> 9"
abbreviation (input) MQTTPACKET_UNSUBSCRIBE :: byte where "MQTTPACKET_UNSUBSCRIBE \<equiv> 10"
abbreviation (input) MQTTPACKET_UNSUBACK :: byte where "MQTTPACKET_UNSUBACK \<equiv> 11"
abbreviation (input) MQTTPACKET_PINGREQ :: byte where "MQTTPACKET_PINGREQ \<equiv> 12"
abbreviation (input) MQTTPACKET_PINGRESP :: byte where "MQTTPACKET_PINGRESP \<equiv> 13"
abbreviation (input) MQTTPACKET_DISCONNECT :: byte where "MQTTPACKET_DISCONNECT \<equiv> 14"

text \<open>
  The header union \<^verbatim>\<open>mqtt_header_t\<close>: a byte with the fields retain (bit 0), qos (bits 1
  and 2), dup (bit 3) and type (bits 4 to 7).
\<close>

definition hdr_retain :: "byte \<Rightarrow> byte" where "hdr_retain h = bf_get 0 1 h"
definition hdr_qos :: "byte \<Rightarrow> byte" where "hdr_qos h = bf_get 1 2 h"
definition hdr_dup :: "byte \<Rightarrow> byte" where "hdr_dup h = bf_get 3 1 h"
definition hdr_type :: "byte \<Rightarrow> byte" where "hdr_type h = bf_get 4 4 h"
definition hdr_set_retain :: "byte \<Rightarrow> byte \<Rightarrow> byte" where "hdr_set_retain v h = bf_set 0 1 v h"
definition hdr_set_qos :: "byte \<Rightarrow> byte \<Rightarrow> byte" where "hdr_set_qos v h = bf_set 1 2 v h"
definition hdr_set_dup :: "byte \<Rightarrow> byte \<Rightarrow> byte" where "hdr_set_dup v h = bf_set 3 1 v h"
definition hdr_set_type :: "byte \<Rightarrow> byte \<Rightarrow> byte" where "hdr_set_type v h = bf_set 4 4 v h"

lemmas hdr_defs = hdr_retain_def hdr_qos_def hdr_dup_def hdr_type_def
  hdr_set_retain_def hdr_set_qos_def hdr_set_dup_def hdr_set_type_def

lemma hdr_get_set [field_simps_bits]:
  "hdr_retain (hdr_set_retain v h) = take_bit 1 v"
  "hdr_qos (hdr_set_qos v h) = take_bit 2 v"
  "hdr_dup (hdr_set_dup v h) = take_bit 1 v"
  "hdr_type (hdr_set_type v h) = take_bit 4 v"
  by (simp_all only: hdr_defs, simp_all add: field_simps_bits)

lemma hdr_get_set_other [field_simps_bits]:
  "hdr_retain (hdr_set_qos v h) = hdr_retain h"
  "hdr_retain (hdr_set_dup v h) = hdr_retain h"
  "hdr_retain (hdr_set_type v h) = hdr_retain h"
  "hdr_qos (hdr_set_retain v h) = hdr_qos h"
  "hdr_qos (hdr_set_dup v h) = hdr_qos h"
  "hdr_qos (hdr_set_type v h) = hdr_qos h"
  "hdr_dup (hdr_set_retain v h) = hdr_dup h"
  "hdr_dup (hdr_set_qos v h) = hdr_dup h"
  "hdr_dup (hdr_set_type v h) = hdr_dup h"
  "hdr_type (hdr_set_retain v h) = hdr_type h"
  "hdr_type (hdr_set_qos v h) = hdr_type h"
  "hdr_type (hdr_set_dup v h) = hdr_type h"
  by (simp_all only: hdr_defs, simp_all add: field_simps_bits)

text \<open>
  \<^verbatim>\<open>mqtt_string_t\<close>: a C string, or a length and a pointer. The C string is the list of the
  bytes before its terminator, the data pointer the bytes of the object it points to;
  \<^term>\<open>None\<close> is the null pointer.
\<close>

record mqtt_string_t =
  cstring :: "byte list option"
  lenstring_len :: int
  lenstring_data :: "byte list option"

definition mqtt_string_initializer :: mqtt_string_t where
  "mqtt_string_initializer = \<lparr>cstring = None, lenstring_len = 0, lenstring_data = None\<rparr>"

text \<open>The write cursor: the output buffer and the index \<^verbatim>\<open>*pptr\<close>.\<close>

record wcur =
  wc_buf :: "byte list"
  wc_pos :: nat

definition strlen :: "byte list \<Rightarrow> int" where
  "strlen s = int (length s)"

section \<open>The remaining-length field\<close>

text \<open>\<^verbatim>\<open>mqtt_packet_encode\<close>: the do-while loop stores one base-128 digit per turn.\<close>

function mqtt_packet_encode_loop ::
  "byte list \<Rightarrow> nat \<Rightarrow> nat \<Rightarrow> int \<Rightarrow> (nat \<times> byte list) option" where
  "mqtt_packet_encode_loop buf pos rc n =
     (let d = word_of_int (n smod 128);
          length' = n sdiv 128;
          d' = (if length' > 0 then d OR 0x80 else d)
      in case write_at buf (pos + rc) d' of
           None \<Rightarrow> None
         | Some buf' \<Rightarrow>
             (if length' > 0 then mqtt_packet_encode_loop buf' pos (Suc rc) length'
              else Some (Suc rc, buf')))"
  by pat_completeness auto
termination
proof (relation "measure (\<lambda>(_, _, _, n). nat n)", simp)
  fix buf buf' :: "byte list" and pos rc and n x xa xb :: int
  show "\<And>x xa xb. x = word_of_int (n smod 128) \<Longrightarrow> xa = n sdiv 128 \<Longrightarrow>
     xb = (if 0 < xa then x OR 0x80 else x) \<Longrightarrow>
     write_at buf (pos + rc) xb = Some buf' \<Longrightarrow> 0 < xa \<Longrightarrow>
     ((buf', pos, Suc rc, xa), buf, pos, rc, n) \<in> measure (\<lambda>(_, _, _, n). nat n)"
    by (cases "n > 0") (auto simp: cint_simps signed_divide_int_def sgn_if split: if_splits)
qed

declare mqtt_packet_encode_loop.simps [simp del]

definition mqtt_packet_encode :: "byte list \<Rightarrow> nat \<Rightarrow> int \<Rightarrow> (nat \<times> byte list) option" where
  "mqtt_packet_encode buf pos n = mqtt_packet_encode_loop buf pos 0 n"

text \<open>
  A data source, the \<^verbatim>\<open>getfn\<close> callback: from a state and the number of bytes wanted, the
  return code, the bytes stored through the pointer argument and the next state.
\<close>

type_synonym 's getfn = "'s \<Rightarrow> int \<Rightarrow> (int \<times> byte list \<times> 's) option"

abbreviation (input) MAX_NO_OF_REMAINING_LENGTH_BYTES :: nat where
  "MAX_NO_OF_REMAINING_LENGTH_BYTES \<equiv> 4"

text \<open>\<^verbatim>\<open>mqtt_packet_decode\<close>: the result is the count returned, the value and the source.\<close>

function mqtt_packet_decode_loop ::
  "'s getfn \<Rightarrow> 's \<Rightarrow> nat \<Rightarrow> int \<Rightarrow> int \<Rightarrow> (nat \<times> int \<times> 's) option" where
  "mqtt_packet_decode_loop getcharfn s len multiplier value =
     (if Suc len > MAX_NO_OF_REMAINING_LENGTH_BYTES then Some (Suc len, value, s)
      else case getcharfn s 1 of
        None \<Rightarrow> None
      | Some (rc, cs, s') \<Rightarrow>
          (if rc \<noteq> 1 then Some (Suc len, value, s')
           else case cs of
             [] \<Rightarrow> None
           | c # _ \<Rightarrow>
               (let value' = value + uint (c AND 127) * multiplier
                in if c AND 128 \<noteq> 0
                   then mqtt_packet_decode_loop getcharfn s' (Suc len) (multiplier * 128) value'
                   else Some (Suc len, value', s'))))"
  by pat_completeness auto
termination
  by (relation "measure (\<lambda>(_, _, len, _, _). 5 - len)") auto

declare mqtt_packet_decode_loop.simps [simp del]

definition mqtt_packet_decode :: "'s getfn \<Rightarrow> 's \<Rightarrow> (nat \<times> int \<times> 's) option" where
  "mqtt_packet_decode getcharfn s = mqtt_packet_decode_loop getcharfn s 0 1 0"

definition mqtt_packet_len :: "int \<Rightarrow> int option" where
  "mqtt_packet_len rem_len =
     (let rem_len' = rem_len + 1
      in if rem_len' < 128 then c_int (rem_len' + 1)
         else if rem_len' < 16384 then c_int (rem_len' + 2)
         else if rem_len' < 2097151 then c_int (rem_len' + 3)
         else c_int (rem_len' + 4))"

text \<open>
  \<^verbatim>\<open>bufchar\<close> reads through the static \<^verbatim>\<open>bufptr\<close>: the state is the memory it points into
  and the index. Every byte is stored to the same \<^verbatim>\<open>*c\<close>, so the last one stays.
\<close>

fun bufchar_loop :: "byte list \<Rightarrow> nat \<Rightarrow> nat \<Rightarrow> byte list \<Rightarrow> (byte list \<times> nat) option" where
  "bufchar_loop mem bufptr 0 c = Some (c, bufptr)"
| "bufchar_loop mem bufptr (Suc n) c =
     (case read_at mem bufptr of
        None \<Rightarrow> None
      | Some b \<Rightarrow> bufchar_loop mem (Suc bufptr) n [b])"

definition bufchar :: "byte list \<Rightarrow> nat getfn" where
  "bufchar mem bufptr count =
     (case bufchar_loop mem bufptr (nat count) [] of
        None \<Rightarrow> None
      | Some (c, bufptr') \<Rightarrow> Some (count, c, bufptr'))"

definition mqtt_packet_decode_buf :: "byte list \<Rightarrow> nat \<Rightarrow> (nat \<times> int) option" where
  "mqtt_packet_decode_buf mem buf =
     map_option (\<lambda>(len, value, _). (len, value)) (mqtt_packet_decode (bufchar mem) buf)"

section \<open>Integers, characters and strings\<close>

definition mqtt_read_int :: "byte list \<Rightarrow> nat \<Rightarrow> (int \<times> nat) option" where
  "mqtt_read_int mem p =
     (case (read_at mem p, read_at mem (p + 1)) of
        (Some a, Some b) \<Rightarrow> Some (256 * uint a + uint b, p + 2)
      | _ \<Rightarrow> None)"

definition mqtt_read_char :: "byte list \<Rightarrow> nat \<Rightarrow> (byte \<times> nat) option" where
  "mqtt_read_char mem p = map_option (\<lambda>c. (c, p + 1)) (read_at mem p)"

definition mqtt_write_char :: "wcur \<Rightarrow> byte \<Rightarrow> wcur option" where
  "mqtt_write_char w c =
     (case write_at (wc_buf w) (wc_pos w) c of
        None \<Rightarrow> None
      | Some buf' \<Rightarrow> Some \<lparr>wc_buf = buf', wc_pos = wc_pos w + 1\<rparr>)"

definition mqtt_write_int :: "wcur \<Rightarrow> int \<Rightarrow> wcur option" where
  "mqtt_write_int w anInt =
     do { w1 \<leftarrow> mqtt_write_char w (word_of_int (anInt sdiv 256));
          mqtt_write_char w1 (word_of_int (anInt smod 256)) }"

text \<open>The copy \<^verbatim>\<open>memcpy(*pptr, src, n); *pptr += n\<close> of the string writers.\<close>

definition wc_memcpy :: "wcur \<Rightarrow> byte list \<Rightarrow> int \<Rightarrow> wcur option" where
  "wc_memcpy w src n =
     (if n < 0 \<or> int (length src) < n then None
      else case write_block (wc_buf w) (wc_pos w) (take (nat n) src) of
        None \<Rightarrow> None
      | Some buf' \<Rightarrow> Some \<lparr>wc_buf = buf', wc_pos = wc_pos w + nat n\<rparr>)"

text \<open>The statement \<^verbatim>\<open>ptr += mqtt_packet_encode(ptr, len)\<close> of the serialisers.\<close>

definition wc_encode :: "wcur \<Rightarrow> int \<Rightarrow> wcur option" where
  "wc_encode w len =
     (case mqtt_packet_encode (wc_buf w) (wc_pos w) len of
        None \<Rightarrow> None
      | Some (n, buf') \<Rightarrow> Some \<lparr>wc_buf = buf', wc_pos = wc_pos w + n\<rparr>)"

definition mqtt_write_cstr :: "wcur \<Rightarrow> byte list \<Rightarrow> wcur option" where
  "mqtt_write_cstr w str =
     do { let len = strlen str;
          w1 \<leftarrow> mqtt_write_int w len;
          wc_memcpy w1 str len }"

definition mqtt_write_mqqt_str :: "wcur \<Rightarrow> mqtt_string_t \<Rightarrow> wcur option" where
  "mqtt_write_mqqt_str w mqttstring =
     (if lenstring_len mqttstring > 0 then
        do { w1 \<leftarrow> mqtt_write_int w (lenstring_len mqttstring);
             data \<leftarrow> lenstring_data mqttstring;
             wc_memcpy w1 data (lenstring_len mqttstring) }
      else case cstring mqttstring of
        Some s \<Rightarrow> mqtt_write_cstr w s
      | None \<Rightarrow> mqtt_write_int w 0)"

text \<open>
  \<^verbatim>\<open>mqtt_read_str_len\<close>: the string read (its data pointer is an index into the buffer, so
  the bytes from it on), the pointer and the return code. A string whose length check
  fails keeps its data pointer and the pointer stays behind the length.
\<close>

definition mqtt_read_str_len ::
  "mqtt_string_t \<Rightarrow> byte list \<Rightarrow> nat \<Rightarrow> int \<Rightarrow> (int \<times> mqtt_string_t \<times> nat) option" where
  "mqtt_read_str_len mqttstring mem p enddata =
     (if enddata - int p > 1 then
        do { (len, p1) \<leftarrow> mqtt_read_int mem p;
             if int p1 + len \<le> enddata
             then Some (1, \<lparr>cstring = None, lenstring_len = len,
                            lenstring_data = Some (drop p1 mem)\<rparr>, p1 + nat len)
             else Some (0, mqttstring\<lparr>cstring := None, lenstring_len := len\<rparr>, p1) }
      else Some (0, mqttstring\<lparr>cstring := None\<rparr>, p))"

definition mqtt_strlen :: "mqtt_string_t \<Rightarrow> int" where
  "mqtt_strlen mqttstring =
     (case cstring mqttstring of
        Some s \<Rightarrow> strlen s
      | None \<Rightarrow> lenstring_len mqttstring)"

text \<open>
  \<^verbatim>\<open>strncmp(a, b, n) == 0\<close> on two memory blocks: it stops at the first difference, at a
  common terminator or after \<open>n\<close> bytes.
\<close>

fun strncmp_eq :: "nat \<Rightarrow> byte list \<Rightarrow> byte list \<Rightarrow> bool option" where
  "strncmp_eq 0 as bs = Some True"
| "strncmp_eq (Suc n) (a # as) (b # bs) =
     (if a \<noteq> b then Some False else if a = 0 then Some True else strncmp_eq n as bs)"
| "strncmp_eq (Suc n) _ _ = None"

definition mqtt_packet_equals :: "mqtt_string_t \<Rightarrow> byte list \<Rightarrow> bool option" where
  "mqtt_packet_equals a bptr =
     (let (aptr, alen) = (case cstring a of
            Some s \<Rightarrow> (s @ [0], strlen s)
          | None \<Rightarrow> (case lenstring_data a of None \<Rightarrow> [] | Some d \<Rightarrow> d, lenstring_len a));
          blen = strlen bptr
      in if alen = blen then strncmp_eq (nat alen) aptr (bptr @ [0]) else Some False)"

section \<open>Packet readers\<close>

text \<open>\<^verbatim>\<open>mqtt_packet_read\<close>: the return code, the buffer and the source afterwards.\<close>

definition mqtt_packet_read ::
  "byte list \<Rightarrow> int \<Rightarrow> 's getfn \<Rightarrow> 's \<Rightarrow> (int \<times> byte list \<times> 's) option" where
  "mqtt_packet_read buf buflen getfn s =
     do { (frc, cs, s1) \<leftarrow> getfn s 1;
          buf1 \<leftarrow> write_block buf 0 cs;
          if frc \<noteq> 1 then Some (- 1, buf1, s1)
          else do {
            (_, rem_len, s2) \<leftarrow> mqtt_packet_decode getfn s1;
            (n, buf2) \<leftarrow> mqtt_packet_encode buf1 1 rem_len;
            let len = 1 + n;
            if rem_len + int len > buflen then Some (- 1, buf2, s2)
            else do {
              (frc, bs, s3) \<leftarrow> getfn s2 rem_len;
              buf3 \<leftarrow> write_block buf2 len bs;
              if frc \<noteq> rem_len then Some (- 1, buf3, s3)
              else do {
                h \<leftarrow> read_at buf3 0;
                Some (uint (hdr_type h), buf3, s3) } } } }"

text \<open>The non-blocking transport \<^verbatim>\<open>mqtt_transport_t\<close>; the callback is an argument.\<close>

record 's mqtt_transport_t =
  trp_sck :: 's
  trp_multiplier :: int
  trp_rem_len :: int
  trp_len :: int
  trp_state :: nat

function decodenb_loop ::
  "'s getfn \<Rightarrow> 's mqtt_transport_t \<Rightarrow> (int \<times> 's mqtt_transport_t) option" where
  "decodenb_loop getfn trp =
     (let trp1 = trp\<lparr>trp_len := trp_len trp + 1\<rparr>
      in if trp_len trp1 > 4 then Some (MQTTPACKET_READ_ERROR, trp1)
         else case getfn (trp_sck trp1) 1 of
           None \<Rightarrow> None
         | Some (frc, cs, s') \<Rightarrow>
             (let trp2 = trp1\<lparr>trp_sck := s'\<rparr>
              in if frc = - 1 then Some (MQTTPACKET_READ_ERROR, trp2)
                 else if frc = 0 then Some (0, trp2)
                 else case cs of
                   [] \<Rightarrow> None
                 | c # _ \<Rightarrow>
                     (let trp3 = trp2\<lparr>trp_rem_len := trp_rem_len trp2 + uint (c AND 127) * trp_multiplier trp2,
                                      trp_multiplier := trp_multiplier trp2 * 128\<rparr>
                      in if c AND 128 \<noteq> 0 then decodenb_loop getfn trp3
                         else Some (trp_len trp3, trp3))))"
  by pat_completeness auto
termination
  by (relation "measure (\<lambda>(_, trp). nat (5 - trp_len trp))") auto

declare decodenb_loop.simps [simp del]

definition decodenb :: "'s getfn \<Rightarrow> 's mqtt_transport_t \<Rightarrow> (int \<times> 's mqtt_transport_t) option" where
  "decodenb getfn trp =
     decodenb_loop getfn
       (if trp_len trp = 0 then trp\<lparr>trp_multiplier := 1, trp_rem_len := 0\<rparr> else trp)"

text \<open>
  \<^verbatim>\<open>mqtt_packet_readnb\<close>: one definition per case label of the switch, each falling through
  to the next. The label \<^verbatim>\<open>exit\<close> resets the state.
\<close>

definition readnb_case2 ::
  "byte list \<Rightarrow> 's getfn \<Rightarrow> 's mqtt_transport_t \<Rightarrow> (int \<times> byte list \<times> 's mqtt_transport_t) option" where
  "readnb_case2 buf getfn trp =
     do { (frc, bs, s') \<leftarrow> getfn (trp_sck trp) (trp_rem_len trp);
          let trp1 = trp\<lparr>trp_sck := s'\<rparr>;
          buf1 \<leftarrow> (if trp_len trp < 0 then None else write_block buf (nat (trp_len trp)) bs);
          if frc = - 1 then Some (- 1, buf1, trp1\<lparr>trp_state := 0\<rparr>)
          else if frc = 0 then Some (0, buf1, trp1)
          else do {
            let trp2 = trp1\<lparr>trp_rem_len := trp_rem_len trp1 - frc, trp_len := trp_len trp1 + frc\<rparr>;
            if trp_rem_len trp2 \<noteq> 0 then Some (0, buf1, trp2)
            else do {
              h \<leftarrow> read_at buf1 0;
              Some (uint (hdr_type h), buf1, trp2\<lparr>trp_state := 0\<rparr>) } } }"

definition readnb_case1 ::
  "byte list \<Rightarrow> int \<Rightarrow> 's getfn \<Rightarrow> 's mqtt_transport_t
     \<Rightarrow> (int \<times> byte list \<times> 's mqtt_transport_t) option" where
  "readnb_case1 buf buflen getfn trp =
     do { (frc, trp1) \<leftarrow> decodenb getfn trp;
          if frc = MQTTPACKET_READ_ERROR then Some (- 1, buf, trp1\<lparr>trp_state := 0\<rparr>)
          else if frc = 0 then Some (0, buf, trp1)
          else do {
            (n, buf1) \<leftarrow> mqtt_packet_encode buf 1 (trp_rem_len trp1);
            let trp2 = trp1\<lparr>trp_len := 1 + int n\<rparr>;
            if trp_rem_len trp2 + trp_len trp2 > buflen then Some (- 1, buf1, trp2\<lparr>trp_state := 0\<rparr>)
            else readnb_case2 buf1 getfn (trp2\<lparr>trp_state := 2\<rparr>) } }"

definition readnb_case0 ::
  "byte list \<Rightarrow> int \<Rightarrow> 's getfn \<Rightarrow> 's mqtt_transport_t
     \<Rightarrow> (int \<times> byte list \<times> 's mqtt_transport_t) option" where
  "readnb_case0 buf buflen getfn trp =
     do { (frc, bs, s') \<leftarrow> getfn (trp_sck trp) 1;
          buf1 \<leftarrow> write_block buf 0 bs;
          let trp1 = trp\<lparr>trp_sck := s'\<rparr>;
          if frc = - 1 then Some (- 1, buf1, trp1\<lparr>trp_state := 0\<rparr>)
          else if frc = 0 then Some (0, buf1, trp1)
          else readnb_case1 buf1 buflen getfn (trp1\<lparr>trp_len := 0, trp_state := 1\<rparr>) }"

definition mqtt_packet_readnb ::
  "byte list \<Rightarrow> int \<Rightarrow> 's getfn \<Rightarrow> 's mqtt_transport_t
     \<Rightarrow> (int \<times> byte list \<times> 's mqtt_transport_t) option" where
  "mqtt_packet_readnb buf buflen getfn trp =
     (if trp_state trp = 1 then readnb_case1 buf buflen getfn trp
      else if trp_state trp = 2 then readnb_case2 buf getfn trp
      else readnb_case0 buf buflen getfn (trp\<lparr>trp_state := 0\<rparr>))"

section \<open>The remaining-length codec\<close>

text \<open>The digits the encoder emits, low digit first, as a function of the number.\<close>

fun rl_bytes :: "nat \<Rightarrow> byte list" where
  "rl_bytes n = (if n < 128 then [of_nat n] else (of_nat (n mod 128) OR 128) # rl_bytes (n div 128))"

declare rl_bytes.simps [simp del]

lemma rl_bytes_small: "n < 128 \<Longrightarrow> rl_bytes n = [of_nat n]"
  by (subst rl_bytes.simps) simp

lemma rl_bytes_big: "\<not> n < 128 \<Longrightarrow> rl_bytes n = (of_nat (n mod 128) OR 128) # rl_bytes (n div 128)"
  by (subst rl_bytes.simps) simp

lemma rl_bytes_length_pos: "0 < length (rl_bytes n)"
  by (subst rl_bytes.simps) simp

lemma rl_bytes_length_le: "n < 128 ^ k \<Longrightarrow> 0 < k \<Longrightarrow> length (rl_bytes n) \<le> k"
proof (induction k arbitrary: n)
  case (Suc k)
  show ?case
  proof (cases "n < 128")
    case True
    then show ?thesis by (simp add: rl_bytes_small)
  next
    case False
    with Suc.prems have "0 < k"
      by (cases k) auto
    moreover from Suc.prems have "n div 128 < 128 ^ k"
      by (simp add: less_mult_imp_div_less mult.commute)
    ultimately show ?thesis
      using Suc.IH False by (simp add: rl_bytes_big)
  qed
qed simp

lemma mqtt_packet_encode_loop_eq:
  assumes "length pre + length (rl_bytes n) \<le> length orig" and "length pre = pos + rc"
  shows "mqtt_packet_encode_loop (lay orig pre) pos rc (int n) =
     Some (rc + length (rl_bytes n), lay orig (pre @ rl_bytes n))"
  using assms
proof (induction n arbitrary: pre rc rule: rl_bytes.induct)
  case (1 n)
  have pos: "pos + rc = length pre"
    using "1.prems" by simp
  have room: "length pre < length orig"
    using "1.prems"(1) rl_bytes_length_pos [of n] by linarith
  show ?case
  proof (cases "n < 128")
    case True
    with room show ?thesis
      by (simp add: mqtt_packet_encode_loop.simps [of _ pos] pos cint_simps buf_simps rl_bytes_small)
  next
    case False
    let ?d = "of_nat (n mod 128) OR 128 :: byte"
    have rec: "mqtt_packet_encode_loop (lay orig (pre @ [?d])) pos (Suc rc) (int (n div 128)) =
        Some (Suc rc + length (rl_bytes (n div 128)), lay orig ((pre @ [?d]) @ rl_bytes (n div 128)))"
      using "1.prems" False by (intro "1.IH") (simp_all add: rl_bytes_big)
    have step: "int n sdiv 128 = int (n div 128)" "int n smod 128 = int (n mod 128)" "0 < int (n div 128)"
      using False by (simp_all add: cint_simps zdiv_int zmod_int)
    have more: "0 < n div 128"
      using False by (simp add: div_greater_zero_iff)
    show ?thesis
      using room False rec more
      by (simp add: mqtt_packet_encode_loop.simps [of "lay orig pre" pos] pos step buf_simps rl_bytes_big
          Let_def del: of_nat_mod of_nat_div)
  qed
qed

lemma mqtt_packet_encode_eq:
  "length pre + length (rl_bytes n) \<le> length orig \<Longrightarrow>
     mqtt_packet_encode (lay orig pre) (length pre) (int n) =
       Some (length (rl_bytes n), lay orig (pre @ rl_bytes n))"
  by (simp add: mqtt_packet_encode_def mqtt_packet_encode_loop_eq)

lemma bufchar_1 [simp]: "bufchar mem p 1 = map_option (\<lambda>b. (1, [b], Suc p)) (read_at mem p)"
  by (simp add: bufchar_def split: option.split)

text \<open>
  The contract between the decoders and the sources they read bytes from: asked for one byte,
  a source with bytes left returns 1 and the first of them and moves on.
\<close>

locale byte_source =
  fixes getfn :: "'s getfn" and left :: "'s \<Rightarrow> byte list"
  assumes get_one: "left s = b # bs \<Longrightarrow> \<exists>s'. getfn s 1 = Some (1, [b], s') \<and> left s' = bs"
begin

text \<open>
  The decoder started behind \<open>len\<close> digits on the encoding of \<open>n\<close>: it adds \<open>n\<close> times the
  multiplier and stops behind the encoding.
\<close>

lemma decode_loop:
  assumes "n < 128 ^ (4 - len)" and "len < 4" and "left s = rl_bytes n @ ys"
  shows "\<exists>s'. mqtt_packet_decode_loop getfn s len mult val =
     Some (len + length (rl_bytes n), val + int n * mult, s') \<and> left s' = ys"
  using assms
proof (induction n arbitrary: s len mult val rule: rl_bytes.induct)
  case (1 n)
  show ?case
  proof (cases "n < 128")
    case True
    then obtain s' where "getfn s 1 = Some (1, [of_nat n], s')" "left s' = ys"
      using "1.prems"(3) get_one [of s "of_nat n" ys] by (auto simp: rl_bytes_small)
    moreover from True have "unat (of_nat n :: byte) = n" by (simp add: unat_of_nat)
    ultimately show ?thesis
      using True "1.prems"
      by (simp add: mqtt_packet_decode_loop.simps [of _ s] rl_bytes_small byte_and_128 byte_and_127 uint_nat)
  next
    case False
    let ?d = "of_nat (n mod 128) OR 128 :: byte"
    have d: "unat ?d = n mod 128 + 128"
      by (rule byte_or_128) simp
    obtain s1 where s1: "getfn s 1 = Some (1, [?d], s1)" "left s1 = rl_bytes (n div 128) @ ys"
      using "1.prems"(3) get_one [of s ?d] False by (auto simp: rl_bytes_big)
    have len: "Suc len < 4" "n div 128 < 128 ^ (4 - Suc len)"
    proof -
      from "1.prems" False have "len \<noteq> 3" by auto
      with "1.prems"(2) show "Suc len < 4" by simp
      then have "4 - len = Suc (4 - Suc len)" by simp
      with "1.prems"(1) show "n div 128 < 128 ^ (4 - Suc len)"
        by (simp add: less_mult_imp_div_less mult.commute)
    qed
    obtain s' where "mqtt_packet_decode_loop getfn s1 (Suc len) (mult * 128) (val + int (n mod 128) * mult) =
          Some (Suc len + length (rl_bytes (n div 128)),
            val + int (n mod 128) * mult + int (n div 128) * (mult * 128), s')" "left s' = ys"
      using "1.IH" [OF False len(2,1) s1(2)] by blast
    moreover have "int (n mod 128) * mult + int (n div 128) * (mult * 128) = int n * mult"
    proof -
      have "int n = int (n mod 128) + int (n div 128) * 128"
        by (metis mod_div_mult_eq of_nat_add of_nat_mult of_nat_numeral)
      then show ?thesis by (simp add: algebra_simps)
    qed
    ultimately show ?thesis
      using False len "1.prems" s1
      by (simp add: mqtt_packet_decode_loop.simps [of _ s] rl_bytes_big
          byte_and_128 byte_and_127 uint_nat d add.assoc del: of_nat_mod of_nat_div)
  qed
qed

end

interpretation buf_source: byte_source "bufchar mem" "\<lambda>p. drop p mem" for mem
proof
  fix p b and bs :: "byte list"
  assume *: "drop p mem = b # bs"
  then have "p < length mem" "mem ! p = b" "drop (Suc p) mem = bs"
    by (metis drop_eq_Nil list.distinct(1) not_le_imp_less, metis hd_drop_conv_nth list.sel(1) *
        drop_eq_Nil list.distinct(1) not_le_imp_less, metis drop_Suc list.sel(3) tl_drop)
  then show "\<exists>s'. bufchar mem p 1 = Some (1, [b], s') \<and> drop s' mem = bs"
    by (simp add: read_at_def)
qed

lemma mqtt_packet_decode_buf_eq:
  assumes "n < 128 ^ 4"
  shows "mqtt_packet_decode_buf (xs @ rl_bytes n @ ys) (length xs) = Some (length (rl_bytes n), int n)"
  using buf_source.decode_loop [of n 0 "length xs" "xs @ rl_bytes n @ ys" ys 1 0] assms
  by (auto simp: mqtt_packet_decode_buf_def mqtt_packet_decode_def)

text \<open>
  The size estimate the serialisers check against the buffer covers the header byte, the
  remaining-length field and the body, so a packet that passes the check fits.
\<close>

lemma mqtt_packet_len_covers:
  assumes "n < 128 ^ 4"
  obtains m where "mqtt_packet_len (int n) = Some m" and "1 + int (length (rl_bytes n)) + int n \<le> m"
proof -
  have len: "n < 128 \<Longrightarrow> length (rl_bytes n) \<le> 1" "n < 16384 \<Longrightarrow> length (rl_bytes n) \<le> 2"
    "n < 2097152 \<Longrightarrow> length (rl_bytes n) \<le> 3" "length (rl_bytes n) \<le> 4"
    using rl_bytes_length_le [of n 1] rl_bytes_length_le [of n 2] rl_bytes_length_le [of n 3]
      rl_bytes_length_le [of n 4] assms by simp_all
  show ?thesis
  proof (rule that)
    show "mqtt_packet_len (int n) = Some (int n + 1 +
        (if n + 1 < 128 then 1 else if n + 1 < 16384 then 2 else if n + 1 < 2097151 then 3 else 4))"
      using assms by (simp add: mqtt_packet_len_def c_int_def Let_def)
    show "1 + int (length (rl_bytes n)) + int n \<le> int n + 1 +
        (if n + 1 < 128 then 1 else if n + 1 < 16384 then 2 else if n + 1 < 2097151 then 3 else 4)"
      using len by auto
  qed
qed

section \<open>Writers on laid out buffers\<close>

definition wcur_at :: "byte list \<Rightarrow> byte list \<Rightarrow> wcur" where
  "wcur_at orig pre = \<lparr>wc_buf = lay orig pre, wc_pos = length pre\<rparr>"

definition be16 :: "nat \<Rightarrow> byte list" where
  "be16 n = [of_nat (n div 256), of_nat (n mod 256)]"

lemma be16_length [simp]: "length (be16 n) = 2"
  by (simp add: be16_def)

lemma mqtt_write_char_at [buf_simps]:
  "length pre < length orig \<Longrightarrow>
     mqtt_write_char (wcur_at orig pre) c = Some (wcur_at orig (pre @ [c]))"
  by (simp add: mqtt_write_char_def wcur_at_def write_at_lay)

lemma mqtt_write_int_at [buf_simps]:
  assumes "length pre + 2 \<le> length orig"
  shows "mqtt_write_int (wcur_at orig pre) (int n) = Some (wcur_at orig (pre @ be16 n))"
proof -
  have "int n sdiv 256 = int (n div 256)" "int n smod 256 = int (n mod 256)"
    by (simp_all add: cint_simps zdiv_int zmod_int)
  with assms show ?thesis
    by (simp add: mqtt_write_int_def mqtt_write_char_at be16_def del: of_nat_mod of_nat_div)
qed

lemma wc_memcpy_at [buf_simps]:
  "n \<le> length src \<Longrightarrow> length pre + n \<le> length orig \<Longrightarrow>
     wc_memcpy (wcur_at orig pre) src (int n) = Some (wcur_at orig (pre @ take n src))"
  by (simp add: wc_memcpy_def wcur_at_def write_block_lay)

lemma wc_encode_at [buf_simps]:
  "length pre + length (rl_bytes n) \<le> length orig \<Longrightarrow>
     wc_encode (wcur_at orig pre) (int n) = Some (wcur_at orig (pre @ rl_bytes n))"
  by (simp add: wc_encode_def wcur_at_def mqtt_packet_encode_eq)

lemma mqtt_write_char_first [buf_simps]:
  "0 < length buf \<Longrightarrow> mqtt_write_char \<lparr>wc_buf = buf, wc_pos = 0\<rparr> c = Some (wcur_at buf [c])"
  using mqtt_write_char_at [of "[]" buf c] by (simp add: wcur_at_def)

lemma wcur_at_simps [simp]:
  "wc_buf (wcur_at orig pre) = lay orig pre" "wc_pos (wcur_at orig pre) = length pre"
  by (simp_all add: wcur_at_def)

text \<open>The bytes of a string that the writer puts on the wire, and when its memory is valid.\<close>

definition str_payload :: "mqtt_string_t \<Rightarrow> byte list" where
  "str_payload s =
     (if lenstring_len s > 0
      then take (nat (lenstring_len s)) (case lenstring_data s of None \<Rightarrow> [] | Some d \<Rightarrow> d)
      else case cstring s of None \<Rightarrow> [] | Some c \<Rightarrow> c)"

definition str_valid :: "mqtt_string_t \<Rightarrow> bool" where
  "str_valid s \<longleftrightarrow>
     (lenstring_len s > 0 \<longrightarrow>
        (case lenstring_data s of None \<Rightarrow> False | Some d \<Rightarrow> lenstring_len s \<le> int (length d)))"

lemma str_payload_read [simp]:
  "str_payload \<lparr>cstring = None, lenstring_len = int (length p), lenstring_data = Some (p @ ys)\<rparr> = p"
  by (simp add: str_payload_def)

text \<open>A string that does not carry both representations: then the two lengths agree.\<close>

definition str_single :: "mqtt_string_t \<Rightarrow> bool" where
  "str_single s \<longleftrightarrow>
     (case cstring s of None \<Rightarrow> 0 \<le> lenstring_len s | Some c \<Rightarrow> lenstring_len s \<le> 0)"

lemma mqtt_strlen_payload:
  "str_valid s \<Longrightarrow> str_single s \<Longrightarrow> mqtt_strlen s = int (length (str_payload s))"
  by (auto simp: str_valid_def str_single_def mqtt_strlen_def str_payload_def strlen_def
      split: option.splits)

definition str_wire :: "mqtt_string_t \<Rightarrow> byte list" where
  "str_wire s = be16 (length (str_payload s)) @ str_payload s"

section \<open>Emitters\<close>

text \<open>
  The contract between the serialisers and the writers they call: an emitter puts a fixed
  byte string at the cursor when it fits, and performs an access outside the buffer when it
  does not. A serialiser is a sequence of emitters, so its output is the concatenation of
  their strings and it stays inside the buffer exactly when that string fits.
\<close>

locale emitter =
  fixes f :: "wcur \<Rightarrow> wcur option" and bs :: "byte list"
  assumes emit_room: "length pre + length bs \<le> length orig \<Longrightarrow>
      f (wcur_at orig pre) = Some (wcur_at orig (pre @ bs))"
    and emit_overflow: "length pre \<le> length orig \<Longrightarrow> length orig < length pre + length bs \<Longrightarrow>
      f (wcur_at orig pre) = None"
begin

lemma emit_start:
  "f \<lparr>wc_buf = buf, wc_pos = 0\<rparr> =
     (if length bs \<le> length buf then Some (wcur_at buf bs) else None)"
proof -
  have start: "\<lparr>wc_buf = buf, wc_pos = 0\<rparr> = wcur_at buf []"
    by (simp add: wcur_at_def)
  show ?thesis
    unfolding start using emit_room [of "[]" buf] emit_overflow [of "[]" buf] by simp
qed

text \<open>The frame of every serialiser: emit from the start, return the length and the buffer.\<close>

lemma emit_packet:
  "f \<lparr>wc_buf = buf, wc_pos = 0\<rparr> \<bind> (\<lambda>p. Some (int (wc_pos p), wc_buf p)) =
     (if length bs \<le> length buf then Some (int (length bs), lay buf bs) else None)"
  by (simp add: emit_start)

end

lemma emitter_Some: "emitter Some []"
  by unfold_locales auto

lemma emitter_bind:
  assumes "emitter f as" and "emitter g bs"
  shows "emitter (\<lambda>w. f w \<bind> g) (as @ bs)"
proof
  fix pre orig :: "byte list"
  assume fit: "length pre + length (as @ bs) \<le> length orig"
  then show "f (wcur_at orig pre) \<bind> g = Some (wcur_at orig (pre @ as @ bs))"
    using emitter.emit_room [OF assms(1), of pre orig] emitter.emit_room [OF assms(2), of "pre @ as" orig]
    by simp
next
  fix pre orig :: "byte list"
  assume over: "length pre \<le> length orig" "length orig < length pre + length (as @ bs)"
  show "f (wcur_at orig pre) \<bind> g = None"
  proof (cases "length pre + length as \<le> length orig")
    case True
    with over show ?thesis
      using emitter.emit_room [OF assms(1) True] emitter.emit_overflow [OF assms(2), of "pre @ as" orig]
      by simp
  next
    case False
    with over show ?thesis
      using emitter.emit_overflow [OF assms(1), of pre orig] by simp
  qed
qed

lemma emitter_if:
  assumes "P \<Longrightarrow> emitter f as" and "\<not> P \<Longrightarrow> emitter g bs"
  shows "emitter (\<lambda>w. if P then f w else g w) (if P then as else bs)"
  using assms by simp

interpretation em_char: emitter "\<lambda>w. mqtt_write_char w c" "[c]" for c
  by unfold_locales
    (simp_all add: mqtt_write_char_at, simp add: mqtt_write_char_def wcur_at_def write_at_None)

lemma emitter_write_int: "emitter (\<lambda>w. mqtt_write_int w (int n)) (be16 n)"
proof -
  have "int n sdiv 256 = int (n div 256)" "int n smod 256 = int (n mod 256)"
    by (simp_all add: cint_simps zdiv_int zmod_int)
  then have "(\<lambda>w. mqtt_write_int w (int n)) =
      (\<lambda>w. mqtt_write_char w (of_nat (n div 256)) \<bind> (\<lambda>w1. mqtt_write_char w1 (of_nat (n mod 256))))"
    by (simp add: mqtt_write_int_def fun_eq_iff del: of_nat_mod of_nat_div)
  then show ?thesis
    using emitter_bind [OF em_char.emitter_axioms em_char.emitter_axioms,
        of "of_nat (n div 256)" "of_nat (n mod 256)"]
    by (simp add: be16_def)
qed

interpretation em_int: emitter "\<lambda>w. mqtt_write_int w (int n)" "be16 n" for n
  by (rule emitter_write_int)

lemma emitter_memcpy: "n \<le> length src \<Longrightarrow> emitter (\<lambda>w. wc_memcpy w src (int n)) (take n src)"
  by unfold_locales (simp_all add: wc_memcpy_at, simp add: wc_memcpy_def wcur_at_def write_block_def)

lemma mqtt_packet_encode_loop_overflow:
  assumes "length pre \<le> length orig" and "length orig < length pre + length (rl_bytes n)"
    and "length pre = pos + rc"
  shows "mqtt_packet_encode_loop (lay orig pre) pos rc (int n) = None"
  using assms
proof (induction n arbitrary: pre rc rule: rl_bytes.induct)
  case (1 n)
  have pos: "pos + rc = length pre"
    using "1.prems" by simp
  show ?case
  proof (cases "length pre < length orig")
    case False
    with "1.prems" have "write_at (lay orig pre) (length pre) x = None" for x
      by (intro write_at_None) simp
    then show ?thesis
      by (simp add: mqtt_packet_encode_loop.simps [of "lay orig pre" pos] pos Let_def)
  next
    case True
    with "1.prems" have big: "\<not> n < 128"
      by (auto simp: rl_bytes_small)
    let ?d = "of_nat (n mod 128) OR 128 :: byte"
    have rec: "mqtt_packet_encode_loop (lay orig (pre @ [?d])) pos (Suc rc) (int (n div 128)) = None"
      using "1.prems" True big by (intro "1.IH") (simp_all add: rl_bytes_big)
    have step: "int n sdiv 128 = int (n div 128)" "int n smod 128 = int (n mod 128)"
      by (simp_all add: cint_simps zdiv_int zmod_int)
    have more: "0 < n div 128"
      using big by (simp add: div_greater_zero_iff)
    show ?thesis
      using True rec more
      by (simp add: mqtt_packet_encode_loop.simps [of "lay orig pre" pos] pos step buf_simps
          Let_def del: of_nat_mod of_nat_div)
  qed
qed

interpretation em_encode: emitter "\<lambda>w. wc_encode w (int n)" "rl_bytes n" for n
  by unfold_locales
    (simp_all add: wc_encode_at, simp add: wc_encode_def wcur_at_def mqtt_packet_encode_def
      mqtt_packet_encode_loop_overflow)

lemma emitter_write_cstr: "emitter (\<lambda>w. mqtt_write_cstr w s) (be16 (length s) @ s)"
  using emitter_bind [OF em_int.emitter_axioms emitter_memcpy [OF order_refl, of s], of "length s"]
  by (simp add: mqtt_write_cstr_def strlen_def Let_def)

lemma emitter_write_str: "str_valid s \<Longrightarrow> emitter (\<lambda>w. mqtt_write_mqqt_str w s) (str_wire s)"
proof (cases "lenstring_len s > 0")
  case True
  assume "str_valid s"
  with True obtain d where d: "lenstring_data s = Some d" "lenstring_len s \<le> int (length d)"
    by (auto simp: str_valid_def split: option.splits)
  obtain n where n: "lenstring_len s = int n" "0 < n"
    using True by (metis of_nat_0_less_iff pos_int_cases)
  have "str_payload s = take n d" "n \<le> length d"
    using True d n by (simp_all add: str_payload_def)
  with True d n emitter_bind [OF em_int.emitter_axioms emitter_memcpy [of n d], of n] show ?thesis
    by (simp add: mqtt_write_mqqt_str_def str_wire_def)
next
  case False
  show ?thesis
  proof (cases "cstring s")
    case None
    with False em_int.emitter_axioms [of 0] show ?thesis
      by (simp add: mqtt_write_mqqt_str_def str_wire_def str_payload_def)
  next
    case (Some c)
    with False emitter_write_cstr [of c] show ?thesis
      by (simp add: mqtt_write_mqqt_str_def str_wire_def str_payload_def)
  qed
qed

section \<open>Readers on laid out buffers\<close>

lemma read_at_length_append [simp]: "read_at (xs @ y # ys) (length xs) = Some y"
  by (simp add: read_at_append)

lemma mqtt_read_char_at [buf_simps]:
  "mqtt_read_char (xs @ c # ys) (length xs) = Some (c, Suc (length xs))"
  by (simp add: mqtt_read_char_def)

lemma mqtt_read_int_at [buf_simps]:
  assumes "n < 65536"
  shows "mqtt_read_int (xs @ be16 n @ ys) (length xs) = Some (int n, length xs + 2)"
proof -
  have "n div 256 < 256"
    using assms by (simp add: less_mult_imp_div_less)
  then have "unat (of_nat (n div 256) :: byte) = n div 256"
    "unat (of_nat (n mod 256) :: byte) = n mod 256"
    by (simp_all add: unat_of_nat)
  moreover have "256 * int (n div 256) + int (n mod 256) = int n"
    by (metis mult_div_mod_eq of_nat_add of_nat_mult of_nat_numeral)
  ultimately show ?thesis
    by (simp add: mqtt_read_int_def be16_def read_at_append uint_nat del: of_nat_mod of_nat_div)
qed

text \<open>Reading back a string that fits before the end of the data.\<close>

lemma mqtt_read_str_len_at [buf_simps]:
  assumes "length p < 65536" and "int (length xs + 2 + length p) \<le> enddata"
  shows "mqtt_read_str_len s0 (xs @ (be16 (length p) @ p) @ ys) (length xs) enddata =
     Some (1, \<lparr>cstring = None, lenstring_len = int (length p), lenstring_data = Some (p @ ys)\<rparr>,
           length xs + 2 + length p)"
  using assms by (simp add: mqtt_read_str_len_def mqtt_read_int_at)

lemma mqtt_packet_len_lower: "mqtt_packet_len n = Some need \<Longrightarrow> n + 2 \<le> need"
  by (auto simp: mqtt_packet_len_def Let_def c_int_eq_Some_iff split: if_splits)

section \<open>Properties\<close>

text \<open>
  The remaining-length field round trips. Encoding any value the protocol allows (below
  128 to the 4) at any place of a buffer with room for it succeeds, changes only the bytes
  of the field, takes one to four bytes, and decoding from that place gives the value and
  the same byte count.
\<close>

theorem remaining_length_roundtrip:
  assumes "n < 128 ^ 4" and "length pre + length (rl_bytes n) \<le> length orig"
  shows "\<exists>k buf'. mqtt_packet_encode (lay orig pre) (length pre) (int n) = Some (k, buf') \<and>
     1 \<le> k \<and> k \<le> 4 \<and> length buf' = length orig \<and> take (length pre) buf' = pre \<and>
     drop (length pre + k) buf' = drop (length pre + k) orig \<and>
     mqtt_packet_decode_buf buf' (length pre) = Some (k, int n)"
proof -
  let ?k = "length (rl_bytes n)"
  have "lay orig (pre @ rl_bytes n) = pre @ rl_bytes n @ drop (length pre + ?k) orig"
    by (simp add: lay_def)
  moreover have "?k \<le> 4" "1 \<le> ?k"
    using rl_bytes_length_le [of n 4] rl_bytes_length_pos [of n] assms(1) by (simp_all add: Suc_le_eq)
  ultimately show ?thesis
    using assms by (simp add: mqtt_packet_encode_eq mqtt_packet_decode_buf_eq)
qed

theorem remaining_length_roundtrip_witness:
  "mqtt_packet_encode (lay [0, 0, 0, 0, 0, 0] [48]) 1 321 = Some (2, [48, 193, 2, 0, 0, 0]) \<and>
   mqtt_packet_decode_buf [48, 193, 2, 0, 0, 0] 1 = Some (2, 321)"
proof -
  have e: "mqtt_packet_encode (lay [0, 0, 0, 0, 0, 0] [48]) 1 321 = Some (2, [48, 193, 2, 0, 0, 0])"
    by code_simp
  have "length (rl_bytes 321) = 2"
    by code_simp
  then show ?thesis
    using remaining_length_roundtrip [of 321 "[48]" "[0, 0, 0, 0, 0, 0]"] e by simp
qed

end
