(* ===== verification/Mqtt_Publish.thy ===== *)
theory Mqtt_Publish
  imports Mqtt_Packet
begin

text \<open>
  Publish and acknowledgement packets: \<^verbatim>\<open>MQTTSerializePublish.c\<close> and
  \<^verbatim>\<open>MQTTDeserializePublish.c\<close> of \<^verbatim>\<open>src/extras/paho_mqtt_c\<close>. A serialiser takes the output
  buffer and returns the code and the buffer; a deserialiser takes the out parameters in a
  record and returns them updated, so that the fields an early exit leaves alone are seen.
\<close>

section \<open>Serialising\<close>

definition publish_length :: "int \<Rightarrow> mqtt_string_t \<Rightarrow> int \<Rightarrow> int option" where
  "publish_length qos topicName payloadlen =
     (let len = 2 + mqtt_strlen topicName + payloadlen
      in if qos > 0 then c_int (len + 2) else c_int len)"

definition mqtt_serialize_publish ::
  "byte list \<Rightarrow> int \<Rightarrow> byte \<Rightarrow> int \<Rightarrow> byte \<Rightarrow> u16 \<Rightarrow> mqtt_string_t \<Rightarrow> byte list \<Rightarrow> int
     \<Rightarrow> (int \<times> byte list) option" where
  "mqtt_serialize_publish buf buflen dup qos retained packetid topicName payload payloadlen =
     do { rem_len \<leftarrow> publish_length qos topicName payloadlen;
          need \<leftarrow> mqtt_packet_len rem_len;
          if need > buflen then Some (MQTTPACKET_BUFFER_TOO_SHORT, buf)
          else do {
            let header = hdr_set_retain retained (hdr_set_qos (word_of_int qos)
                           (hdr_set_dup dup (hdr_set_type MQTTPACKET_PUBLISH 0)));
            p1 \<leftarrow> mqtt_write_char \<lparr>wc_buf = buf, wc_pos = 0\<rparr> header;
            p2 \<leftarrow> wc_encode p1 rem_len;
            p3 \<leftarrow> mqtt_write_mqqt_str p2 topicName;
            p4 \<leftarrow> (if qos > 0 then mqtt_write_int p3 (uint packetid) else Some p3);
            p5 \<leftarrow> wc_memcpy p4 payload payloadlen;
            Some (int (wc_pos p5), wc_buf p5) } }"

definition mqtt_serialize_ack ::
  "byte list \<Rightarrow> int \<Rightarrow> byte \<Rightarrow> byte \<Rightarrow> u16 \<Rightarrow> (int \<times> byte list) option" where
  "mqtt_serialize_ack buf buflen packettype dup packetid =
     (if buflen < 4 then Some (MQTTPACKET_BUFFER_TOO_SHORT, buf)
      else do {
        let header = hdr_set_qos (if packettype = MQTTPACKET_PUBREL then 1 else 0)
                       (hdr_set_dup dup (hdr_set_type packettype 0));
        p1 \<leftarrow> mqtt_write_char \<lparr>wc_buf = buf, wc_pos = 0\<rparr> header;
        p2 \<leftarrow> wc_encode p1 2;
        p3 \<leftarrow> mqtt_write_int p2 (uint packetid);
        Some (int (wc_pos p3), wc_buf p3) })"

definition mqtt_serialize_puback :: "byte list \<Rightarrow> int \<Rightarrow> u16 \<Rightarrow> (int \<times> byte list) option" where
  "mqtt_serialize_puback buf buflen packetid =
     mqtt_serialize_ack buf buflen MQTTPACKET_PUBACK 0 packetid"

definition mqtt_serialize_pubrel ::
  "byte list \<Rightarrow> int \<Rightarrow> byte \<Rightarrow> u16 \<Rightarrow> (int \<times> byte list) option" where
  "mqtt_serialize_pubrel buf buflen dup packetid =
     mqtt_serialize_ack buf buflen MQTTPACKET_PUBREL dup packetid"

definition mqtt_serialize_pubcomp :: "byte list \<Rightarrow> int \<Rightarrow> u16 \<Rightarrow> (int \<times> byte list) option" where
  "mqtt_serialize_pubcomp buf buflen packetid =
     mqtt_serialize_ack buf buflen MQTTPACKET_PUBCOMP 0 packetid"

section \<open>Deserialising\<close>

text \<open>
  The out parameters of \<^verbatim>\<open>mqtt_deserialize_publish\<close>; the payload pointer is an index into
  the input buffer.
\<close>

record publish_out =
  po_dup :: byte
  po_qos :: int
  po_retained :: byte
  po_packetid :: u16
  po_topicName :: mqtt_string_t
  po_payload :: nat
  po_payloadlen :: int

definition mqtt_deserialize_publish ::
  "publish_out \<Rightarrow> byte list \<Rightarrow> int \<Rightarrow> (int \<times> publish_out) option" where
  "mqtt_deserialize_publish out buf buflen =
     do { (header, curdata) \<leftarrow> mqtt_read_char buf 0;
          if hdr_type header \<noteq> MQTTPACKET_PUBLISH then Some (0, out)
          else do {
            let out1 = out\<lparr>po_dup := hdr_dup header, po_qos := uint (hdr_qos header),
                           po_retained := hdr_retain header\<rparr>;
            (n, mylen) \<leftarrow> mqtt_packet_decode_buf buf curdata;
            let curdata1 = curdata + n;
            let enddata = int curdata1 + mylen;
            (ok, topic, curdata2) \<leftarrow> mqtt_read_str_len (po_topicName out1) buf curdata1 enddata;
            let out2 = out1\<lparr>po_topicName := topic\<rparr>;
            if ok = 0 \<or> enddata - int curdata2 < 0 then Some (int n, out2)
            else do {
              (out3, curdata3) \<leftarrow>
                (if po_qos out2 > 0
                 then do { (pid, p) \<leftarrow> mqtt_read_int buf curdata2;
                           Some (out2\<lparr>po_packetid := word_of_int pid\<rparr>, p) }
                 else Some (out2, curdata2));
              Some (1, out3\<lparr>po_payloadlen := enddata - int curdata3, po_payload := curdata3\<rparr>) } } }"

record ack_out =
  ao_packettype :: byte
  ao_dup :: byte
  ao_packetid :: u16

definition mqtt_deserialize_ack :: "ack_out \<Rightarrow> byte list \<Rightarrow> int \<Rightarrow> (int \<times> ack_out) option" where
  "mqtt_deserialize_ack out buf buflen =
     do { (header, curdata) \<leftarrow> mqtt_read_char buf 0;
          let out1 = out\<lparr>ao_dup := hdr_dup header, ao_packettype := hdr_type header\<rparr>;
          (n, mylen) \<leftarrow> mqtt_packet_decode_buf buf curdata;
          let curdata1 = curdata + n;
          let enddata = int curdata1 + mylen;
          if enddata - int curdata1 < 2 then Some (int n, out1)
          else do {
            (pid, _) \<leftarrow> mqtt_read_int buf curdata1;
            Some (1, out1\<lparr>ao_packetid := word_of_int pid\<rparr>) } }"

section \<open>Wire images\<close>

definition publish_header :: "byte \<Rightarrow> int \<Rightarrow> byte \<Rightarrow> byte" where
  "publish_header dup qos retained =
     hdr_set_retain retained (hdr_set_qos (word_of_int qos)
       (hdr_set_dup dup (hdr_set_type MQTTPACKET_PUBLISH 0)))"

definition publish_body :: "int \<Rightarrow> u16 \<Rightarrow> mqtt_string_t \<Rightarrow> byte list \<Rightarrow> byte list" where
  "publish_body qos packetid topicName payload =
     str_wire topicName @ (if qos > 0 then be16 (unat packetid) else []) @ payload"

definition publish_wire ::
  "byte \<Rightarrow> int \<Rightarrow> byte \<Rightarrow> u16 \<Rightarrow> mqtt_string_t \<Rightarrow> byte list \<Rightarrow> byte list" where
  "publish_wire dup qos retained packetid topicName payload =
     (let body = publish_body qos packetid topicName payload
      in publish_header dup qos retained # rl_bytes (length body) @ body)"

lemma publish_length_eq:
  assumes "str_valid topic" and "str_single topic"
    and "length (publish_body qos pid topic payload) < 128 ^ 4"
  shows "publish_length qos topic (int (length payload)) =
     Some (int (length (publish_body qos pid topic payload)))"
  using assms(3)
  by (simp add: publish_length_def mqtt_strlen_payload [OF assms(1,2)] publish_body_def
      str_wire_def c_int_def)

lemma emitter_publish:
  assumes "str_valid topic"
  shows "emitter (\<lambda>w. do {
            p1 \<leftarrow> mqtt_write_char w (publish_header dup qos retained);
            p2 \<leftarrow> wc_encode p1 (int (length (publish_body qos pid topic payload)));
            p3 \<leftarrow> mqtt_write_mqqt_str p2 topic;
            p4 \<leftarrow> (if qos > 0 then mqtt_write_int p3 (uint pid) else Some p3);
            wc_memcpy p4 payload (int (length payload)) })
          (publish_wire dup qos retained pid topic payload)"
proof -
  have "emitter (\<lambda>w. if qos > 0 then mqtt_write_int w (uint pid) else Some w)
      (if qos > 0 then be16 (unat pid) else [])"
    using em_int.emitter_axioms [of "unat pid"] by (intro emitter_if emitter_Some) simp
  note emitter_bind [OF em_char.emitter_axioms emitter_bind [OF em_encode.emitter_axioms
        emitter_bind [OF emitter_write_str [OF assms] emitter_bind [OF this
            emitter_memcpy [OF order_refl, of payload]]]],
      of "publish_header dup qos retained" "length (publish_body qos pid topic payload)"]
  then show ?thesis
    by (simp add: publish_wire_def Let_def) (simp add: publish_body_def)
qed

lemma mqtt_serialize_publish_eq:
  assumes "str_valid topic" and "str_single topic"
    and small: "length (publish_body qos pid topic payload) < 128 ^ 4"
    and need: "mqtt_packet_len (int (length (publish_body qos pid topic payload))) = Some need"
    and room: "length buf = nat buflen" "need \<le> buflen"
  shows "mqtt_serialize_publish buf buflen dup qos retained pid topic payload (int (length payload)) =
     Some (int (length (publish_wire dup qos retained pid topic payload)),
           lay buf (publish_wire dup qos retained pid topic payload))"
proof -
  let ?n = "length (publish_body qos pid topic payload)"
  obtain m where "mqtt_packet_len (int ?n) = Some m" "1 + int (length (rl_bytes ?n)) + int ?n \<le> m"
    using mqtt_packet_len_covers [OF small] by blast
  with need room have "length (publish_wire dup qos retained pid topic payload) \<le> length buf"
    by (simp add: publish_wire_def Let_def)
  with emitter.emit_packet [OF emitter_publish [OF assms(1),
      where dup = dup and qos = qos and retained = retained and pid = pid and payload = payload], of buf] room
  show ?thesis
    by (simp add: mqtt_serialize_publish_def publish_length_eq [OF assms(1,2) small]
        publish_header_def [symmetric] Let_def need split del: if_split)
qed

text \<open>A buffer too short for the packet is refused and left alone.\<close>

lemma mqtt_serialize_publish_short:
  assumes "str_valid topic" and "str_single topic"
    and "length (publish_body qos pid topic payload) < 128 ^ 4"
    and "mqtt_packet_len (int (length (publish_body qos pid topic payload))) = Some need"
    and "buflen < need"
  shows "mqtt_serialize_publish buf buflen dup qos retained pid topic payload (int (length payload)) =
     Some (MQTTPACKET_BUFFER_TOO_SHORT, buf)"
  using assms by (simp add: mqtt_serialize_publish_def publish_length_eq)

lemma uint_take_bit_2: "0 \<le> n \<Longrightarrow> n < 4 \<Longrightarrow> uint (take_bit 2 (word_of_int n :: byte)) = n"
  by (simp add: unsigned_take_bit_eq unsigned_of_int take_bit_int_eq_self)

lemma publish_header_fields [field_simps_bits]:
  "hdr_type (publish_header dup qos retained) = MQTTPACKET_PUBLISH"
  "hdr_dup (publish_header dup qos retained) = take_bit 1 dup"
  "hdr_qos (publish_header dup qos retained) = take_bit 2 (word_of_int qos)"
  "hdr_retain (publish_header dup qos retained) = take_bit 1 retained"
  by (simp_all add: publish_header_def field_simps_bits)

text \<open>
  Deserialising a wire image followed by anything: the out parameters hold the fields the
  image was made from, and the payload pointer and length delimit the payload.
\<close>

definition publish_out_ok ::
  "byte \<Rightarrow> int \<Rightarrow> byte \<Rightarrow> u16 \<Rightarrow> mqtt_string_t \<Rightarrow> byte list \<Rightarrow> byte list \<Rightarrow> publish_out \<Rightarrow> bool" where
  "publish_out_ok dup qos retained pid topic payload buf out \<longleftrightarrow>
     po_dup out = take_bit 1 dup \<and> po_qos out = qos \<and> po_retained out = take_bit 1 retained \<and>
     (qos > 0 \<longrightarrow> po_packetid out = pid) \<and>
     cstring (po_topicName out) = None \<and>
     lenstring_len (po_topicName out) = int (length (str_payload topic)) \<and>
     (case lenstring_data (po_topicName out) of None \<Rightarrow> False
      | Some d \<Rightarrow> take (length (str_payload topic)) d = str_payload topic) \<and>
     po_payloadlen out = int (length payload) \<and>
     block_at (po_payload out) (length payload) buf = payload"

lemma mqtt_deserialize_publish_eq:
  assumes qos: "0 \<le> qos" "qos < 4"
    and small: "length (publish_body qos pid topic payload) < 128 ^ 4"
    and topic: "length (str_payload topic) < 65536"
    and buf: "buf = publish_wire dup qos retained pid topic payload @ rest"
  obtains out' where "mqtt_deserialize_publish out buf buflen = Some (1, out')"
    and "publish_out_ok dup qos retained pid topic payload buf out'"
proof -
  let ?body = "publish_body qos pid topic payload"
  let ?h = "publish_header dup qos retained"
  let ?rl = "rl_bytes (length ?body)"
  define tail where "tail = (if qos > 0 then be16 (unat pid) else [])"
  define pos where "pos = length (?h # ?rl @ str_wire topic)"
  define tname where "tname = \<lparr>cstring = None, lenstring_len = int (length (str_payload topic)),
     lenstring_data = Some (str_payload topic @ tail @ payload @ rest)\<rparr>"
  have body: "?body = str_wire topic @ tail @ payload"
    by (simp add: publish_body_def tail_def)
  have buf': "buf = ?h # ?rl @ str_wire topic @ tail @ payload @ rest"
    by (simp add: buf publish_wire_def Let_def body)
  define enddata where "enddata = int pos + int (length tail) + int (length payload)"
  have e: "1 + int (length ?rl) + int (length ?body) = enddata"
    by (simp add: enddata_def pos_def body)
  have r1: "mqtt_read_char buf 0 = Some (?h, Suc 0)"
    by (simp add: buf' mqtt_read_char_def)
  have r2: "mqtt_packet_decode_buf buf (Suc 0) = Some (length ?rl, int (length ?body))"
    using mqtt_packet_decode_buf_eq [OF small, of "[?h]" "str_wire topic @ tail @ payload @ rest"]
    by (simp add: buf')
  have r3: "mqtt_read_str_len s0 buf (Suc (length ?rl)) enddata = Some (1, tname, pos)" for s0
    using mqtt_read_str_len_at [OF topic, of "?h # ?rl" enddata s0 "tail @ payload @ rest"]
    by (simp add: buf' enddata_def body pos_def tname_def str_wire_def)
  have r4: "mqtt_read_int buf pos = Some (uint pid, pos + 2)" if "qos > 0"
    using mqtt_read_int_at [of "unat pid" "?h # ?rl @ str_wire topic" "payload @ rest"]
      unsigned_less [of pid, where 'a = nat] that
    by (simp add: buf' pos_def tail_def)
  have blk: "block_at (pos + length tail) (length payload) buf = payload"
    by (simp add: block_at_def buf' pos_def)
  define out2 where "out2 = out\<lparr>po_dup := take_bit 1 dup, po_qos := qos,
     po_retained := take_bit 1 retained, po_topicName := tname\<rparr>"
  define out3 where "out3 = (if qos > 0 then out2\<lparr>po_packetid := pid\<rparr> else out2)"
  have "mqtt_deserialize_publish out buf buflen =
      Some (1, out3\<lparr>po_payloadlen := int (length payload), po_payload := pos + length tail\<rparr>)"
    using r4 qos
    by (simp add: mqtt_deserialize_publish_def r1 r2 publish_header_fields uint_take_bit_2
        e r3 out2_def out3_def Let_def) (simp add: enddata_def tail_def)
  then show ?thesis
    using that blk by (simp add: publish_out_ok_def out2_def out3_def tname_def)
qed

section \<open>Acknowledgements\<close>

definition ack_wire :: "byte \<Rightarrow> byte \<Rightarrow> u16 \<Rightarrow> byte list" where
  "ack_wire packettype dup packetid =
     hdr_set_qos (if packettype = MQTTPACKET_PUBREL then 1 else 0)
       (hdr_set_dup dup (hdr_set_type packettype 0)) # 2 # be16 (unat packetid)"

lemma rl_bytes_2: "rl_bytes 2 = [2]"
  by (simp add: rl_bytes_small)

lemma emitter_ack:
  "emitter (\<lambda>w. do {
        p1 \<leftarrow> mqtt_write_char w (hdr_set_qos (if packettype = MQTTPACKET_PUBREL then 1 else 0)
                (hdr_set_dup dup (hdr_set_type packettype 0)));
        p2 \<leftarrow> wc_encode p1 2;
        mqtt_write_int p2 (uint packetid) })
     (ack_wire packettype dup packetid)"
  using emitter_bind [OF em_char.emitter_axioms emitter_bind [OF em_encode.emitter_axioms
      em_int.emitter_axioms], of _ 2 "unat packetid"]
  by (simp add: ack_wire_def rl_bytes_2)

lemma ack_wire_length [simp]: "length (ack_wire packettype dup packetid) = 4"
  by (simp add: ack_wire_def)

lemma mqtt_serialize_ack_eq:
  assumes "4 \<le> buflen" and "length buf = nat buflen"
  shows "mqtt_serialize_ack buf buflen packettype dup packetid =
     Some (4, lay buf (ack_wire packettype dup packetid))"
  using emitter.emit_packet [OF emitter_ack [of packettype dup packetid], of buf] assms
  by (simp add: mqtt_serialize_ack_def Let_def split del: if_split) auto

lemma mqtt_deserialize_ack_eq:
  "mqtt_deserialize_ack out (ack_wire packettype dup packetid @ rest) buflen =
     Some (1, out\<lparr>ao_dup := take_bit 1 dup, ao_packettype := take_bit 4 packettype,
                  ao_packetid := packetid\<rparr>)"
proof -
  let ?h = "hdr_set_qos (if packettype = MQTTPACKET_PUBREL then 1 else 0)
       (hdr_set_dup dup (hdr_set_type packettype 0))"
  let ?buf = "ack_wire packettype dup packetid @ rest"
  have buf: "?buf = ?h # 2 # be16 (unat packetid) @ rest"
    by (simp add: ack_wire_def)
  have r1: "mqtt_read_char ?buf 0 = Some (?h, Suc 0)"
    by (simp add: buf mqtt_read_char_def)
  have r2: "mqtt_packet_decode_buf ?buf (Suc 0) = Some (1, 2)"
    using mqtt_packet_decode_buf_eq [of 2 "[?h]" "be16 (unat packetid) @ rest"]
    by (simp add: buf rl_bytes_2)
  have r3: "mqtt_read_int ?buf (Suc (Suc 0)) = Some (uint packetid, Suc (Suc (Suc (Suc 0))))"
    using mqtt_read_int_at [of "unat packetid" "[?h, 2]" rest]
      unsigned_less [of packetid, where 'a = nat]
    by (simp add: buf split del: if_split)
  have "hdr_dup ?h = take_bit 1 dup" "hdr_type ?h = take_bit 4 packettype"
    by (simp_all add: field_simps_bits)
  then show ?thesis
    by (simp add: mqtt_deserialize_ack_def r1 r2 r3 Let_def)
qed

section \<open>Properties\<close>

lemma publish_length_c_int:
  assumes "str_valid topic" and "str_single topic"
  shows "publish_length qos topic (int (length payload)) =
     c_int (int (length (publish_body qos pid topic payload)))"
  by (simp add: publish_length_def mqtt_strlen_payload [OF assms] publish_body_def str_wire_def
      ac_simps)

text \<open>A successful serialisation is the wire image at the start of the buffer.\<close>

lemma mqtt_serialize_publish_ok:
  assumes "str_valid topic" and "str_single topic" and "length buf = nat buflen" and "buflen < 2 ^ 28"
    and ok: "mqtt_serialize_publish buf buflen dup qos retained pid topic payload (int (length payload))
      = Some (rc, buf')" "0 < rc"
  shows "length (publish_body qos pid topic payload) < 128 ^ 4"
    and "rc = int (length (publish_wire dup qos retained pid topic payload))"
    and "buf' = lay buf (publish_wire dup qos retained pid topic payload)"
    and "rc \<le> buflen"
proof -
  let ?n = "int (length (publish_body qos pid topic payload))"
  from ok obtain need where c: "c_int ?n = Some ?n" and need: "mqtt_packet_len ?n = Some need" "need \<le> buflen"
    by (auto simp: mqtt_serialize_publish_def publish_length_c_int [OF assms(1,2), of _ _ pid]
        Option.bind_eq_Some_conv c_int_eq_Some_iff split: if_splits)
  from mqtt_packet_len_lower [OF need(1)] need(2) assms(4)
  show small: "length (publish_body qos pid topic payload) < 128 ^ 4"
    by simp
  from mqtt_serialize_publish_eq [OF assms(1,2) small need(1) assms(3) need(2), of dup retained] ok(1)
  show rc: "rc = int (length (publish_wire dup qos retained pid topic payload))"
    and "buf' = lay buf (publish_wire dup qos retained pid topic payload)"
    by simp_all
  obtain m where "mqtt_packet_len ?n = Some m"
    "1 + int (length (rl_bytes (length (publish_body qos pid topic payload)))) + ?n \<le> m"
    using mqtt_packet_len_covers [OF small] by blast
  with need rc show "rc \<le> buflen"
    by (simp add: publish_wire_def Let_def)
qed

text \<open>
  C38: serialising a publish packet never writes outside the buffer. For a topic in either
  representation and a payload of the stated length, the call either refuses with
  \<^verbatim>\<open>MQTTPACKET_BUFFER_TOO_SHORT\<close> and leaves the buffer alone, or returns the length of the
  packet, at most the buffer length, having written exactly the packet at its start.
\<close>

theorem publish_serialize_bounds:
  assumes "str_valid topic" and "str_single topic"
    and "length (publish_body qos pid topic payload) < 128 ^ 4" and "length buf = nat buflen"
  shows "\<exists>rc buf'. mqtt_serialize_publish buf buflen dup qos retained pid topic payload
        (int (length payload)) = Some (rc, buf') \<and>
     (rc = MQTTPACKET_BUFFER_TOO_SHORT \<and> buf' = buf \<or>
      0 < rc \<and> rc \<le> buflen \<and> length buf' = length buf \<and>
      take (nat rc) buf' = publish_wire dup qos retained pid topic payload \<and>
      drop (nat rc) buf' = drop (nat rc) buf)"
proof -
  let ?n = "length (publish_body qos pid topic payload)"
  let ?w = "publish_wire dup qos retained pid topic payload"
  obtain need where need: "mqtt_packet_len (int ?n) = Some need"
    "1 + int (length (rl_bytes ?n)) + int ?n \<le> need"
    using mqtt_packet_len_covers [OF assms(3)] by blast
  have w: "length ?w = 1 + length (rl_bytes ?n) + ?n"
    by (simp add: publish_wire_def Let_def)
  show ?thesis
  proof (cases "need \<le> buflen")
    case True
    with need w assms(4) have "int (length ?w) \<le> buflen" "length ?w \<le> length buf" "0 < length ?w"
      by simp_all
    with mqtt_serialize_publish_eq [OF assms(1-3) need(1) assms(4) True, of dup retained] show ?thesis
      by simp
  next
    case False
    with mqtt_serialize_publish_short [OF assms(1-3) need(1), of buflen buf dup retained] show ?thesis
      by simp
  qed
qed

text \<open>
  C39: publish round trip. Whenever serialising succeeds in a buffer below the protocol's
  limit, deserialising that buffer succeeds and yields the dup, QoS and retain bits, the
  packet identifier for QoS above 0, the topic bytes, and a payload pointer and length that
  delimit the payload.
\<close>

theorem publish_roundtrip:
  assumes "str_valid topic" and "str_single topic" and "length (str_payload topic) < 65536"
    and "0 \<le> qos" and "qos < 4" and "length buf = nat buflen" and "buflen < 2 ^ 28"
    and "mqtt_serialize_publish buf buflen dup qos retained pid topic payload (int (length payload))
      = Some (rc, buf')" and "0 < rc"
  shows "\<exists>out'. mqtt_deserialize_publish out buf' buflen = Some (1, out') \<and>
     publish_out_ok dup qos retained pid topic payload buf' out'"
proof -
  note ok = mqtt_serialize_publish_ok [OF assms(1,2,6-9)]
  let ?w = "publish_wire dup qos retained pid topic payload"
  have "buf' = ?w @ drop (length ?w) buf"
    by (simp add: ok(3) lay_def)
  from mqtt_deserialize_publish_eq [OF assms(4,5) ok(1) assms(3) this] show ?thesis
    by blast
qed

definition demo_topic :: mqtt_string_t where
  "demo_topic = \<lparr>cstring = Some [97, 47, 98], lenstring_len = 0, lenstring_data = None\<rparr>"

definition demo_out :: publish_out where
  "demo_out = \<lparr>po_dup = 9, po_qos = 9, po_retained = 9, po_packetid = 9,
     po_topicName = mqtt_string_initializer, po_payload = 0, po_payloadlen = 0\<rparr>"

theorem publish_serialize_bounds_witness:
  "\<exists>rc buf'. mqtt_serialize_publish (replicate 12 7) 12 0 1 1 258 demo_topic [1, 2] 2 = Some (rc, buf') \<and>
     (rc = MQTTPACKET_BUFFER_TOO_SHORT \<and> buf' = replicate 12 7 \<or>
      0 < rc \<and> rc \<le> 12 \<and> length buf' = length (replicate 12 (7 :: byte)) \<and>
      take (nat rc) buf' = publish_wire 0 1 1 258 demo_topic [1, 2] \<and>
      drop (nat rc) buf' = drop (nat rc) (replicate 12 7))"
proof -
  have "str_valid demo_topic" "str_single demo_topic"
    "length (publish_body 1 258 demo_topic [1, 2]) < 128 ^ 4" "length (replicate 12 (7 :: byte)) = nat 12"
    by (simp_all add: demo_topic_def str_valid_def str_single_def publish_body_def str_wire_def
        str_payload_def)
  from publish_serialize_bounds [OF this, of 0 1] show ?thesis by simp
qed

theorem publish_roundtrip_witness:
  "\<exists>out'. mqtt_deserialize_publish demo_out [51, 9, 0, 3, 97, 47, 98, 1, 2, 1, 2, 7] 12 = Some (1, out') \<and>
     publish_out_ok 0 1 1 258 demo_topic [1, 2] [51, 9, 0, 3, 97, 47, 98, 1, 2, 1, 2, 7] out'"
proof -
  have 1: "str_valid demo_topic" "str_single demo_topic" "length (str_payload demo_topic) < 65536"
    by (simp_all add: demo_topic_def str_valid_def str_single_def str_payload_def)
  have 2: "mqtt_serialize_publish (replicate 12 7) 12 0 1 1 258 demo_topic [1, 2] (int (length [1, 2 :: byte])) =
      Some (11, [51, 9, 0, 3, 97, 47, 98, 1, 2, 1, 2, 7])"
    by code_simp
  show ?thesis
    by (rule publish_roundtrip [OF 1 _ _ _ _ 2]) simp_all
qed

text \<open>
  Acknowledgement round trip. With fewer than four bytes the serialiser refuses and
  leaves the buffer alone; otherwise it writes four bytes, and deserialising them gives the
  packet type, the dup bit and the packet identifier, whatever the buffer held.
\<close>

theorem ack_roundtrip:
  assumes "length buf = nat buflen"
  shows "if buflen < 4
     then mqtt_serialize_ack buf buflen packettype dup packetid = Some (MQTTPACKET_BUFFER_TOO_SHORT, buf)
     else \<exists>buf'. mqtt_serialize_ack buf buflen packettype dup packetid = Some (4, buf') \<and>
       length buf' = length buf \<and> drop 4 buf' = drop 4 buf \<and>
       mqtt_deserialize_ack out buf' buflen =
         Some (1, out\<lparr>ao_dup := take_bit 1 dup, ao_packettype := take_bit 4 packettype,
                      ao_packetid := packetid\<rparr>)"
proof (cases "buflen < 4")
  case True
  then show ?thesis by (simp add: mqtt_serialize_ack_def)
next
  case False
  let ?w = "ack_wire packettype dup packetid"
  have "lay buf ?w = ?w @ drop 4 buf" by (simp add: lay_def)
  then show ?thesis
    using False assms mqtt_serialize_ack_eq [of buflen buf packettype dup packetid]
    by (simp add: mqtt_deserialize_ack_eq)
qed

theorem ack_roundtrip_witness:
  "\<exists>buf'. mqtt_serialize_ack [0, 0, 0, 0, 5] 5 MQTTPACKET_PUBREL 0 513 = Some (4, buf') \<and>
     length buf' = length [0, 0, 0, 0, 5 :: byte] \<and> drop 4 buf' = [5] \<and>
     mqtt_deserialize_ack \<lparr>ao_packettype = 0, ao_dup = 0, ao_packetid = 0\<rparr> buf' 5 =
       Some (1, \<lparr>ao_packettype = MQTTPACKET_PUBREL, ao_dup = 0, ao_packetid = 513\<rparr>)"
  using ack_roundtrip [of "[0, 0, 0, 0, 5]" 5 MQTTPACKET_PUBREL 0 513
      "\<lparr>ao_packettype = 0, ao_dup = 0, ao_packetid = 0\<rparr>"] by simp

text \<open>The decoder on a one-byte remaining length.\<close>

lemma mqtt_packet_decode_buf_1:
  "r < 128 \<Longrightarrow> mqtt_packet_decode_buf (h # of_nat r # rest) (Suc 0) = Some (1, int r)"
  using mqtt_packet_decode_buf_eq [of r "[h]" rest] by (simp add: rl_bytes_small)

text \<open>
  A publish packet whose remaining length leaves no room for the topic length is
  rejected by the topic check, but the function then returns the byte count of the
  remaining-length field, which is 1, the code documented as success; the payload pointer
  and length keep their previous values.
\<close>

theorem publish_without_topic_reports_success:
  assumes "hdr_type h = MQTTPACKET_PUBLISH" and "r < 2"
  shows "\<exists>out'. mqtt_deserialize_publish out (h # of_nat r # rest) buflen = Some (1, out') \<and>
     po_payload out' = po_payload out \<and> po_payloadlen out' = po_payloadlen out \<and>
     lenstring_data (po_topicName out') = lenstring_data (po_topicName out)"
  using assms
  by (simp add: mqtt_deserialize_publish_def mqtt_read_char_def mqtt_packet_decode_buf_1
      mqtt_read_str_len_def)

theorem publish_without_topic_reports_success_witness:
  "\<exists>out'. mqtt_deserialize_publish demo_out [48, 0] 2 = Some (1, out') \<and>
     po_payload out' = po_payload demo_out \<and> po_payloadlen out' = po_payloadlen demo_out \<and>
     lenstring_data (po_topicName out') = lenstring_data (po_topicName demo_out)"
proof -
  have "hdr_type 48 = MQTTPACKET_PUBLISH" by code_simp
  from publish_without_topic_reports_success [OF this, of 0 demo_out "[]" 2] show ?thesis by simp
qed

text \<open>
  For QoS above 0 the packet identifier is read without checking that the remaining
  length covers it. A packet whose remaining length ends right behind the topic yields
  success, an identifier taken from the bytes behind the packet and a payload length of
  \<^term>\<open>- 2 :: int\<close>.
\<close>

theorem publish_without_packetid_negative_length:
  assumes "hdr_type h = MQTTPACKET_PUBLISH" and "hdr_qos h \<noteq> 0" and "length t < 126"
  shows "\<exists>out'. mqtt_deserialize_publish out
       (h # of_nat (2 + length t) # be16 (length t) @ t @ a # b # rest) buflen = Some (1, out') \<and>
     po_payloadlen out' = - 2 \<and> po_packetid out' = word_of_int (256 * uint a + uint b)"
proof -
  define buf where "buf = h # of_nat (2 + length t) # be16 (length t) @ t @ a # b # rest"
  have r1: "mqtt_read_char buf 0 = Some (h, Suc 0)"
    by (simp add: buf_def mqtt_read_char_def)
  have r2: "mqtt_packet_decode_buf buf (Suc 0) = Some (1, int (2 + length t))"
    unfolding buf_def using assms(3) by (intro mqtt_packet_decode_buf_1) simp
  have r3: "mqtt_read_str_len s0 buf (Suc (Suc 0)) (4 + int (length t)) =
      Some (1, \<lparr>cstring = None, lenstring_len = int (length t), lenstring_data = Some (t @ a # b # rest)\<rparr>,
            4 + length t)" for s0
    using mqtt_read_str_len_at [of t "[h, of_nat (2 + length t)]" "4 + int (length t)" s0 "a # b # rest"]
      assms(3) by (simp add: buf_def)
  have "buf = (h # of_nat (2 + length t) # be16 (length t) @ t) @ [a, b] @ rest"
    by (simp add: buf_def)
  then have r4: "mqtt_read_int buf (4 + length t) = Some (256 * uint a + uint b, 6 + length t)"
    by (simp only: mqtt_read_int_def read_at_append) (simp add: be16_def)
  have "0 < uint (hdr_qos h)"
    using assms(2) by (simp add: word_neq_0_conv word_less_def)
  then show ?thesis
    unfolding buf_def [symmetric] using assms(1)
    by (simp add: mqtt_deserialize_publish_def r1 r2 r3 r4 Let_def)
qed

theorem publish_without_packetid_negative_length_witness:
  "\<exists>out'. mqtt_deserialize_publish demo_out [50, 3, 0, 1, 97, 1, 2] 5 = Some (1, out') \<and>
     po_payloadlen out' = - 2 \<and> po_packetid out' = 258"
proof -
  have "hdr_type 50 = MQTTPACKET_PUBLISH" "hdr_qos 50 \<noteq> 0" "length [97 :: byte] < 126"
    by code_simp+
  from publish_without_packetid_negative_length [OF this, of demo_out 1 2 "[]" 5] show ?thesis
    by (simp add: be16_def)
qed

end
