(* ===== verification/Mqtt_Control.thy ===== *)
theory Mqtt_Control
  imports Mqtt_Publish
begin

text \<open>
  The control packets of the MQTT client: \<^verbatim>\<open>MQTTConnectClient.c\<close>, \<^verbatim>\<open>MQTTSubscribeClient.c\<close>
  and \<^verbatim>\<open>MQTTUnsubscribeClient.c\<close> of \<^verbatim>\<open>src/extras/paho_mqtt_c\<close>, in the style of
  \<^verbatim>\<open>Mqtt_Publish\<close>.
\<close>

section \<open>Connect\<close>

record mqtt_packet_will_options_t =
  will_topicName :: mqtt_string_t
  will_message :: mqtt_string_t
  will_retained :: byte
  will_qos :: byte

record mqtt_packet_connect_data_t =
  MQTTVersion :: byte
  clientID :: mqtt_string_t
  keepAliveInterval :: u16
  cleansession :: byte
  willFlag :: byte
  will :: mqtt_packet_will_options_t
  username :: mqtt_string_t
  password :: mqtt_string_t

definition mqtt_packet_connect_data_initializer :: mqtt_packet_connect_data_t where
  "mqtt_packet_connect_data_initializer =
     \<lparr>MQTTVersion = 4, clientID = mqtt_string_initializer, keepAliveInterval = 60, cleansession = 1,
      willFlag = 0,
      will = \<lparr>will_topicName = mqtt_string_initializer, will_message = mqtt_string_initializer,
              will_retained = 0, will_qos = 0\<rparr>,
      username = mqtt_string_initializer, password = mqtt_string_initializer\<rparr>"

text \<open>The test \<^verbatim>\<open>s.cstring || s.lenstring.data\<close>: one of the two pointers is not null.\<close>

definition str_present :: "mqtt_string_t \<Rightarrow> bool" where
  "str_present s \<longleftrightarrow> cstring s \<noteq> None \<or> lenstring_data s \<noteq> None"

definition connect_length :: "mqtt_packet_connect_data_t \<Rightarrow> int option" where
  "connect_length options =
     (let len0 = (if MQTTVersion options = 3 then 12 else if MQTTVersion options = 4 then 10 else 0);
          len1 = len0 + 2;
          len2 = (if willFlag options \<noteq> 0
                  then len1 + (mqtt_strlen (will_topicName (will options)) + 2
                               + mqtt_strlen (will_message (will options)) + 2)
                  else len1);
          len3 = (if str_present (username options) then len2 + (mqtt_strlen (username options) + 2)
                  else len2);
          len4 = (if str_present (password options) then len3 + (mqtt_strlen (password options) + 2)
                  else len3)
      in c_int len4)"

text \<open>
  The union \<^verbatim>\<open>mqtt_connect_flags_t\<close>: clean session is bit 1, will bit 2, will QoS bits 3
  and 4, will retain bit 5, password bit 6, user name bit 7.
\<close>

definition connect_flags :: "mqtt_packet_connect_data_t \<Rightarrow> byte" where
  "connect_flags options =
     (let f1 = bf_set 1 1 (cleansession options) 0;
          f2 = bf_set 2 1 (if willFlag options \<noteq> 0 then 1 else 0) f1;
          f3 = (if bf_get 2 1 f2 \<noteq> 0
                then bf_set 5 1 (will_retained (will options)) (bf_set 3 2 (will_qos (will options)) f2)
                else f2);
          f4 = (if str_present (username options) then bf_set 7 1 1 f3 else f3)
      in if str_present (password options) then bf_set 6 1 1 f4 else f4)"

definition mqtt_serialize_connect ::
  "byte list \<Rightarrow> int \<Rightarrow> mqtt_packet_connect_data_t \<Rightarrow> (int \<times> byte list) option" where
  "mqtt_serialize_connect buf buflen options =
     do { len \<leftarrow> connect_length options;
          need \<leftarrow> mqtt_packet_len len;
          if need > buflen then Some (MQTTPACKET_BUFFER_TOO_SHORT, buf)
          else do {
            p1 \<leftarrow> mqtt_write_char \<lparr>wc_buf = buf, wc_pos = 0\<rparr> (hdr_set_type MQTTPACKET_CONNECT 0);
            p2 \<leftarrow> wc_encode p1 len;
            p3 \<leftarrow> (if MQTTVersion options = 4
                   then do { q \<leftarrow> mqtt_write_cstr p2 [77, 81, 84, 84]; mqtt_write_char q 4 }
                   else do { q \<leftarrow> mqtt_write_cstr p2 [77, 81, 73, 115, 100, 112]; mqtt_write_char q 3 });
            let flags = connect_flags options;
            p4 \<leftarrow> mqtt_write_char p3 flags;
            p5 \<leftarrow> mqtt_write_int p4 (uint (keepAliveInterval options));
            p6 \<leftarrow> mqtt_write_mqqt_str p5 (clientID options);
            p7 \<leftarrow> (if willFlag options \<noteq> 0
                   then do { q \<leftarrow> mqtt_write_mqqt_str p6 (will_topicName (will options));
                             mqtt_write_mqqt_str q (will_message (will options)) }
                   else Some p6);
            p8 \<leftarrow> (if bf_get 7 1 flags \<noteq> 0 then mqtt_write_mqqt_str p7 (username options) else Some p7);
            p9 \<leftarrow> (if bf_get 6 1 flags \<noteq> 0 then mqtt_write_mqqt_str p8 (password options) else Some p8);
            Some (int (wc_pos p9), wc_buf p9) } }"

record connack_out =
  co_sessionPresent :: byte
  co_connack_rc :: byte

definition mqtt_deserialize_connack :: "connack_out \<Rightarrow> byte list \<Rightarrow> int \<Rightarrow> (int \<times> connack_out) option" where
  "mqtt_deserialize_connack out buf buflen =
     do { (header, curdata) \<leftarrow> mqtt_read_char buf 0;
          if hdr_type header \<noteq> MQTTPACKET_CONNACK then Some (0, out)
          else do {
            (n, mylen) \<leftarrow> mqtt_packet_decode_buf buf curdata;
            let curdata1 = curdata + n;
            let enddata = int curdata1 + mylen;
            if enddata - int curdata1 < 2 then Some (int n, out)
            else do {
              (flags, curdata2) \<leftarrow> mqtt_read_char buf curdata1;
              (rc, _) \<leftarrow> mqtt_read_char buf curdata2;
              Some (1, \<lparr>co_sessionPresent = bf_get 7 1 flags, co_connack_rc = rc\<rparr>) } } }"

definition mqtt_serialize_zero :: "byte list \<Rightarrow> int \<Rightarrow> byte \<Rightarrow> (int \<times> byte list) option" where
  "mqtt_serialize_zero buf buflen packettype =
     (if buflen < 2 then Some (MQTTPACKET_BUFFER_TOO_SHORT, buf)
      else do {
        p1 \<leftarrow> mqtt_write_char \<lparr>wc_buf = buf, wc_pos = 0\<rparr> (hdr_set_type packettype 0);
        p2 \<leftarrow> wc_encode p1 0;
        Some (int (wc_pos p2), wc_buf p2) })"

definition mqtt_serialize_disconnect :: "byte list \<Rightarrow> int \<Rightarrow> (int \<times> byte list) option" where
  "mqtt_serialize_disconnect buf buflen = mqtt_serialize_zero buf buflen MQTTPACKET_DISCONNECT"

definition mqtt_serialize_pingreq :: "byte list \<Rightarrow> int \<Rightarrow> (int \<times> byte list) option" where
  "mqtt_serialize_pingreq buf buflen = mqtt_serialize_zero buf buflen MQTTPACKET_PINGREQ"

section \<open>Subscribe and unsubscribe\<close>

text \<open>
  The arrays \<^verbatim>\<open>topicFilters\<close> and \<^verbatim>\<open>requestedQoSs\<close> are lists; \<open>count\<close> elements are used, and
  a count beyond the array is a read outside it.
\<close>

fun subscribe_length_loop :: "mqtt_string_t list \<Rightarrow> nat \<Rightarrow> int \<Rightarrow> int option" where
  "subscribe_length_loop _ 0 len = c_int len"
| "subscribe_length_loop [] (Suc n) len = None"
| "subscribe_length_loop (t # ts) (Suc n) len = subscribe_length_loop ts n (len + (2 + mqtt_strlen t + 1))"

definition subscribe_length :: "int \<Rightarrow> mqtt_string_t list \<Rightarrow> int option" where
  "subscribe_length count topicFilters = subscribe_length_loop topicFilters (nat count) 2"

fun subscribe_write_loop :: "wcur \<Rightarrow> nat \<Rightarrow> mqtt_string_t list \<Rightarrow> int list \<Rightarrow> wcur option" where
  "subscribe_write_loop w 0 _ _ = Some w"
| "subscribe_write_loop w (Suc n) (t # ts) (q # qs) =
     do { w1 \<leftarrow> mqtt_write_mqqt_str w t;
          w2 \<leftarrow> mqtt_write_char w1 (word_of_int q);
          subscribe_write_loop w2 n ts qs }"
| "subscribe_write_loop w (Suc n) _ _ = None"

definition mqtt_serialize_subscribe ::
  "byte list \<Rightarrow> int \<Rightarrow> byte \<Rightarrow> u16 \<Rightarrow> int \<Rightarrow> mqtt_string_t list \<Rightarrow> int list \<Rightarrow> (int \<times> byte list) option" where
  "mqtt_serialize_subscribe buf buflen dup packetid count topicFilters requestedQoSs =
     do { rem_len \<leftarrow> subscribe_length count topicFilters;
          need \<leftarrow> mqtt_packet_len rem_len;
          if need > buflen then Some (MQTTPACKET_BUFFER_TOO_SHORT, buf)
          else do {
            let header = hdr_set_qos 1 (hdr_set_dup dup (hdr_set_type MQTTPACKET_SUBSCRIBE 0));
            p1 \<leftarrow> mqtt_write_char \<lparr>wc_buf = buf, wc_pos = 0\<rparr> header;
            p2 \<leftarrow> wc_encode p1 rem_len;
            p3 \<leftarrow> mqtt_write_int p2 (uint packetid);
            p4 \<leftarrow> subscribe_write_loop p3 (nat count) topicFilters requestedQoSs;
            Some (int (wc_pos p4), wc_buf p4) } }"

record suback_out =
  so_packetid :: u16
  so_count :: int
  so_grantedQoSs :: "int list"

text \<open>
  The loop of \<^verbatim>\<open>mqtt_deserialize_suback\<close>: it stores into \<^verbatim>\<open>grantedQoSs\<close>, an array the caller
  supplies; a store behind its end is undefined.
\<close>

function suback_loop ::
  "byte list \<Rightarrow> nat \<Rightarrow> int \<Rightarrow> int \<Rightarrow> suback_out \<Rightarrow> (int \<times> suback_out) option" where
  "suback_loop buf curdata enddata maxcount out =
     (if int curdata < enddata then
        (if so_count out > maxcount then Some (- 1, out)
         else case mqtt_read_char buf curdata of
           None \<Rightarrow> None
         | Some (c, curdata') \<Rightarrow>
             (case write_at (so_grantedQoSs out) (nat (so_count out)) (uint c) of
                None \<Rightarrow> None
              | Some g \<Rightarrow>
                  suback_loop buf (Suc curdata) enddata maxcount
                    (out\<lparr>so_grantedQoSs := g, so_count := so_count out + 1\<rparr>)))
      else Some (1, out))"
  by pat_completeness auto
termination
  by (relation "measure (\<lambda>(_, curdata, enddata, _, _). nat (enddata - int curdata))") auto

declare suback_loop.simps [simp del]

definition mqtt_deserialize_suback ::
  "suback_out \<Rightarrow> int \<Rightarrow> byte list \<Rightarrow> int \<Rightarrow> (int \<times> suback_out) option" where
  "mqtt_deserialize_suback out maxcount buf buflen =
     do { (header, curdata) \<leftarrow> mqtt_read_char buf 0;
          if hdr_type header \<noteq> MQTTPACKET_SUBACK then Some (0, out)
          else do {
            (n, mylen) \<leftarrow> mqtt_packet_decode_buf buf curdata;
            let curdata1 = curdata + n;
            let enddata = int curdata1 + mylen;
            if enddata - int curdata1 < 2 then Some (int n, out)
            else do {
              (pid, curdata2) \<leftarrow> mqtt_read_int buf curdata1;
              suback_loop buf curdata2 enddata maxcount
                (out\<lparr>so_packetid := word_of_int pid, so_count := 0\<rparr>) } } }"

fun unsubscribe_length_loop :: "mqtt_string_t list \<Rightarrow> nat \<Rightarrow> int \<Rightarrow> int option" where
  "unsubscribe_length_loop _ 0 len = c_int len"
| "unsubscribe_length_loop [] (Suc n) len = None"
| "unsubscribe_length_loop (t # ts) (Suc n) len = unsubscribe_length_loop ts n (len + (2 + mqtt_strlen t))"

definition unsubscribe_length :: "int \<Rightarrow> mqtt_string_t list \<Rightarrow> int option" where
  "unsubscribe_length count topicFilters = unsubscribe_length_loop topicFilters (nat count) 2"

fun unsubscribe_write_loop :: "wcur \<Rightarrow> nat \<Rightarrow> mqtt_string_t list \<Rightarrow> wcur option" where
  "unsubscribe_write_loop w 0 _ = Some w"
| "unsubscribe_write_loop w (Suc n) (t # ts) =
     do { w1 \<leftarrow> mqtt_write_mqqt_str w t; unsubscribe_write_loop w1 n ts }"
| "unsubscribe_write_loop w (Suc n) [] = None"

definition mqtt_serialize_unsubscribe ::
  "byte list \<Rightarrow> int \<Rightarrow> byte \<Rightarrow> u16 \<Rightarrow> int \<Rightarrow> mqtt_string_t list \<Rightarrow> (int \<times> byte list) option" where
  "mqtt_serialize_unsubscribe buf buflen dup packetid count topicFilters =
     do { rem_len \<leftarrow> unsubscribe_length count topicFilters;
          need \<leftarrow> mqtt_packet_len rem_len;
          if need > buflen then Some (MQTTPACKET_BUFFER_TOO_SHORT, buf)
          else do {
            let header = hdr_set_qos 1 (hdr_set_dup dup (hdr_set_type MQTTPACKET_UNSUBSCRIBE 0));
            p1 \<leftarrow> mqtt_write_char \<lparr>wc_buf = buf, wc_pos = 0\<rparr> header;
            p2 \<leftarrow> wc_encode p1 rem_len;
            p3 \<leftarrow> mqtt_write_int p2 (uint packetid);
            p4 \<leftarrow> unsubscribe_write_loop p3 (nat count) topicFilters;
            Some (int (wc_pos p4), wc_buf p4) } }"

definition mqtt_deserialize_unsuback :: "u16 \<Rightarrow> byte list \<Rightarrow> int \<Rightarrow> (int \<times> u16) option" where
  "mqtt_deserialize_unsuback packetid buf buflen =
     do { (rc, out) \<leftarrow> mqtt_deserialize_ack \<lparr>ao_packettype = 0, ao_dup = 0, ao_packetid = packetid\<rparr> buf buflen;
          Some (if ao_packettype out = MQTTPACKET_UNSUBACK then 1 else rc, ao_packetid out) }"

section \<open>The connect packet\<close>

definition connect_proto :: "mqtt_packet_connect_data_t \<Rightarrow> byte list" where
  "connect_proto o1 = (if MQTTVersion o1 = 4 then be16 (length [77, 81, 84, 84 :: byte]) @ [77, 81, 84, 84] @ [4]
                       else be16 (length [77, 81, 73, 115, 100, 112 :: byte]) @ [77, 81, 73, 115, 100, 112] @ [3])"

definition connect_tail :: "mqtt_packet_connect_data_t \<Rightarrow> byte list" where
  "connect_tail o1 =
     (if willFlag o1 \<noteq> 0 then str_wire (will_topicName (will o1)) @ str_wire (will_message (will o1)) else [])
     @ (if str_present (username o1) then str_wire (username o1) else [])
     @ (if str_present (password o1) then str_wire (password o1) else [])"

definition connect_body :: "mqtt_packet_connect_data_t \<Rightarrow> byte list" where
  "connect_body o1 = connect_proto o1 @ [connect_flags o1] @ be16 (unat (keepAliveInterval o1))
     @ str_wire (clientID o1) @ connect_tail o1"

text \<open>The remaining length the serialiser computes: the body without the client identifier.\<close>

definition connect_rem_len :: "mqtt_packet_connect_data_t \<Rightarrow> nat" where
  "connect_rem_len o1 = length (connect_body o1) - length (str_payload (clientID o1))"

definition connect_wire :: "mqtt_packet_connect_data_t \<Rightarrow> byte list" where
  "connect_wire o1 = hdr_set_type MQTTPACKET_CONNECT 0 # rl_bytes (connect_rem_len o1) @ connect_body o1"

text \<open>Every string the packet uses has valid memory and one representation.\<close>

definition connect_strings_ok :: "mqtt_packet_connect_data_t \<Rightarrow> bool" where
  "connect_strings_ok o1 \<longleftrightarrow>
     list_all (\<lambda>s. str_valid s \<and> str_single s)
       ([clientID o1]
        @ (if willFlag o1 \<noteq> 0 then [will_topicName (will o1), will_message (will o1)] else [])
        @ (if str_present (username o1) then [username o1] else [])
        @ (if str_present (password o1) then [password o1] else []))"

lemma bf_bit_set: "off < LENGTH('a) \<Longrightarrow> bf_get off 1 (bf_set off 1 1 w) = 1" for w :: "'a::len word"
  by (simp add: bf_get_set_same)

lemma connect_flags_credentials:
  "bf_get 7 1 (connect_flags o1) \<noteq> 0 \<longleftrightarrow> str_present (username o1)"
  "bf_get 6 1 (connect_flags o1) \<noteq> 0 \<longleftrightarrow> str_present (password o1)"
  by (simp_all add: connect_flags_def Let_def bf_get_set_same bf_get_set_other bf_get_def [of _ _ 0])

lemma connect_length_eq:
  assumes "connect_strings_ok o1" and "MQTTVersion o1 = 3 \<or> MQTTVersion o1 = 4"
  shows "connect_length o1 = c_int (int (connect_rem_len o1))"
  using assms
  by (auto simp: connect_length_def connect_rem_len_def connect_body_def connect_proto_def
      connect_tail_def connect_strings_ok_def str_wire_def mqtt_strlen_payload Let_def intro: arg_cong [of _ _ c_int])

lemma emitter_connect:
  assumes "connect_strings_ok o1"
  shows "emitter (\<lambda>w. do {
            p1 \<leftarrow> mqtt_write_char w (hdr_set_type MQTTPACKET_CONNECT 0);
            p2 \<leftarrow> wc_encode p1 (int (connect_rem_len o1));
            p3 \<leftarrow> (if MQTTVersion o1 = 4
                   then do { q \<leftarrow> mqtt_write_cstr p2 [77, 81, 84, 84]; mqtt_write_char q 4 }
                   else do { q \<leftarrow> mqtt_write_cstr p2 [77, 81, 73, 115, 100, 112]; mqtt_write_char q 3 });
            p4 \<leftarrow> mqtt_write_char p3 (connect_flags o1);
            p5 \<leftarrow> mqtt_write_int p4 (uint (keepAliveInterval o1));
            p6 \<leftarrow> mqtt_write_mqqt_str p5 (clientID o1);
            p7 \<leftarrow> (if willFlag o1 \<noteq> 0
                   then do { q \<leftarrow> mqtt_write_mqqt_str p6 (will_topicName (will o1));
                             mqtt_write_mqqt_str q (will_message (will o1)) }
                   else Some p6);
            p8 \<leftarrow> (if bf_get 7 1 (connect_flags o1) \<noteq> 0 then mqtt_write_mqqt_str p7 (username o1) else Some p7);
            if bf_get 6 1 (connect_flags o1) \<noteq> 0 then mqtt_write_mqqt_str p8 (password o1) else Some p8 })
     (connect_wire o1)"
proof -
  have proto: "emitter (\<lambda>w. if MQTTVersion o1 = 4
       then do { q \<leftarrow> mqtt_write_cstr w [77, 81, 84, 84]; mqtt_write_char q 4 }
       else do { q \<leftarrow> mqtt_write_cstr w [77, 81, 73, 115, 100, 112]; mqtt_write_char q 3 })
     (connect_proto o1)"
    unfolding connect_proto_def
    using emitter_bind [OF emitter_write_cstr em_char.emitter_axioms, of "[77, 81, 84, 84]" 4]
      emitter_bind [OF emitter_write_cstr em_char.emitter_axioms, of "[77, 81, 73, 115, 100, 112]" 3]
    by (intro emitter_if) simp_all
  have will: "emitter (\<lambda>w. if willFlag o1 \<noteq> 0
       then do { q \<leftarrow> mqtt_write_mqqt_str w (will_topicName (will o1));
                 mqtt_write_mqqt_str q (will_message (will o1)) }
       else Some w)
     (if willFlag o1 \<noteq> 0 then str_wire (will_topicName (will o1)) @ str_wire (will_message (will o1)) else [])"
    using assms by (intro emitter_if emitter_Some emitter_bind emitter_write_str)
      (simp_all add: connect_strings_ok_def)
  have user: "emitter (\<lambda>w. if bf_get 7 1 (connect_flags o1) \<noteq> 0 then mqtt_write_mqqt_str w (username o1) else Some w)
     (if str_present (username o1) then str_wire (username o1) else [])"
    using assms unfolding connect_flags_credentials
    by (intro emitter_if emitter_Some emitter_write_str) (simp_all add: connect_strings_ok_def)
  have pass: "emitter (\<lambda>w. if bf_get 6 1 (connect_flags o1) \<noteq> 0 then mqtt_write_mqqt_str w (password o1) else Some w)
     (if str_present (password o1) then str_wire (password o1) else [])"
    using assms unfolding connect_flags_credentials
    by (intro emitter_if emitter_Some emitter_write_str) (simp_all add: connect_strings_ok_def)
  have cid: "str_valid (clientID o1)"
    using assms by (simp add: connect_strings_ok_def)
  have keep: "emitter (\<lambda>w. mqtt_write_int w (uint (keepAliveInterval o1))) (be16 (unat (keepAliveInterval o1)))"
    using em_int.emitter_axioms [of "unat (keepAliveInterval o1)"] by simp
  have wire: "connect_wire o1 = [hdr_set_type MQTTPACKET_CONNECT 0] @ rl_bytes (connect_rem_len o1) @
      connect_proto o1 @ [connect_flags o1] @ be16 (unat (keepAliveInterval o1)) @ str_wire (clientID o1) @
      (if willFlag o1 \<noteq> 0 then str_wire (will_topicName (will o1)) @ str_wire (will_message (will o1)) else []) @
      (if str_present (username o1) then str_wire (username o1) else []) @
      (if str_present (password o1) then str_wire (password o1) else [])"
    by (simp add: connect_wire_def connect_body_def connect_tail_def)
  show ?thesis
    unfolding wire
    by (intro emitter_bind em_char.emitter_axioms em_encode.emitter_axioms proto keep
        emitter_write_str cid will user pass)
qed

lemma mqtt_serialize_connect_eq:
  assumes "connect_strings_ok o1" and "MQTTVersion o1 = 3 \<or> MQTTVersion o1 = 4"
    and small: "connect_rem_len o1 < 128 ^ 4"
    and need: "mqtt_packet_len (int (connect_rem_len o1)) = Some need"
  shows "mqtt_serialize_connect buf buflen o1 =
     (if need > buflen then Some (MQTTPACKET_BUFFER_TOO_SHORT, buf)
      else if length (connect_wire o1) \<le> length buf
      then Some (int (length (connect_wire o1)), lay buf (connect_wire o1)) else None)"
proof -
  have "connect_length o1 = Some (int (connect_rem_len o1))"
    using small by (simp add: connect_length_eq [OF assms(1,2)] c_int_def)
  with emitter.emit_packet [OF emitter_connect [OF assms(1)], of buf] need show ?thesis
    by (cases "need > buflen") (simp_all add: mqtt_serialize_connect_def Let_def split del: if_split)
qed

lemma connect_body_length:
  "length (connect_body o1) = connect_rem_len o1 + length (str_payload (clientID o1))"
  by (simp add: connect_rem_len_def connect_body_def str_wire_def)

section \<open>The subscribe and unsubscribe packets\<close>

definition subscribe_filters :: "mqtt_string_t list \<Rightarrow> int list \<Rightarrow> byte list" where
  "subscribe_filters ts qs = concat (map2 (\<lambda>t q. str_wire t @ [word_of_int q]) ts qs)"

lemma subscribe_filters_simps [simp]:
  "subscribe_filters [] qs = []"
  "subscribe_filters (t # ts) (q # qs) = str_wire t @ [word_of_int q] @ subscribe_filters ts qs"
  by (simp_all add: subscribe_filters_def)

lemma emitter_subscribe_loop:
  "length qs = length ts \<Longrightarrow> list_all str_valid ts \<Longrightarrow>
     emitter (\<lambda>w. subscribe_write_loop w (length ts) ts qs) (subscribe_filters ts qs)"
proof (induction ts arbitrary: qs)
  case Nil
  then show ?case by (simp add: emitter_Some)
next
  case (Cons t ts)
  then obtain q qs' where qs: "qs = q # qs'" "length qs' = length ts"
    by (cases qs) auto
  have "emitter (\<lambda>w. do { w1 \<leftarrow> mqtt_write_mqqt_str w t; w2 \<leftarrow> mqtt_write_char w1 (word_of_int q);
          subscribe_write_loop w2 (length ts) ts qs' })
      (str_wire t @ [word_of_int q] @ subscribe_filters ts qs')"
    using Cons.prems qs by (intro emitter_bind emitter_write_str em_char.emitter_axioms Cons.IH) simp_all
  with qs show ?case by simp
qed

lemma subscribe_length_eq:
  assumes "length qs = length ts" and "list_all (\<lambda>t. str_valid t \<and> str_single t) ts"
  shows "subscribe_length (int (length ts)) ts = c_int (2 + int (length (subscribe_filters ts qs)))"
proof -
  have "subscribe_length_loop ts (length ts) len = c_int (len + int (length (subscribe_filters ts qs)))" for len
    using assms
  proof (induction ts arbitrary: qs len)
    case (Cons t ts)
    then obtain q qs' where "qs = q # qs'" "length qs' = length ts"
      by (cases qs) auto
    with Cons show ?case
      by (simp add: mqtt_strlen_payload str_wire_def algebra_simps)
  qed simp
  then show ?thesis by (simp add: subscribe_length_def)
qed

definition subscribe_wire :: "byte \<Rightarrow> u16 \<Rightarrow> mqtt_string_t list \<Rightarrow> int list \<Rightarrow> byte list" where
  "subscribe_wire dup packetid ts qs =
     hdr_set_qos 1 (hdr_set_dup dup (hdr_set_type MQTTPACKET_SUBSCRIBE 0))
     # rl_bytes (2 + length (subscribe_filters ts qs)) @ be16 (unat packetid) @ subscribe_filters ts qs"

lemma mqtt_serialize_subscribe_eq:
  assumes len: "length qs = length ts" and ok: "list_all (\<lambda>t. str_valid t \<and> str_single t) ts"
    and small: "2 + length (subscribe_filters ts qs) < 128 ^ 4"
    and need: "mqtt_packet_len (int (2 + length (subscribe_filters ts qs))) = Some need"
  shows "mqtt_serialize_subscribe buf buflen dup packetid (int (length ts)) ts qs =
     (if need > buflen then Some (MQTTPACKET_BUFFER_TOO_SHORT, buf)
      else if length (subscribe_wire dup packetid ts qs) \<le> length buf
      then Some (int (length (subscribe_wire dup packetid ts qs)), lay buf (subscribe_wire dup packetid ts qs))
      else None)"
proof -
  let ?h = "hdr_set_qos 1 (hdr_set_dup dup (hdr_set_type MQTTPACKET_SUBSCRIBE 0))"
  have l: "subscribe_length (int (length ts)) ts = Some (int (2 + length (subscribe_filters ts qs)))"
    using small by (simp add: subscribe_length_eq [OF len ok] c_int_def)
  have v: "list_all str_valid ts"
    using ok by (simp add: list_all_iff)
  have wire: "subscribe_wire dup packetid ts qs =
      [?h] @ rl_bytes (2 + length (subscribe_filters ts qs)) @ be16 (unat packetid) @ subscribe_filters ts qs"
    by (simp add: subscribe_wire_def)
  have "emitter (\<lambda>w. do {
            p1 \<leftarrow> mqtt_write_char w ?h;
            p2 \<leftarrow> wc_encode p1 (int (2 + length (subscribe_filters ts qs)));
            p3 \<leftarrow> mqtt_write_int p2 (int (unat packetid));
            subscribe_write_loop p3 (length ts) ts qs })
      (subscribe_wire dup packetid ts qs)"
    unfolding wire by (intro emitter_bind em_char.emitter_axioms em_encode.emitter_axioms em_int.emitter_axioms
        emitter_subscribe_loop len v)
  from emitter.emit_packet [OF this, of buf] l need show ?thesis
    by (cases "need > buflen")
      (simp_all add: mqtt_serialize_subscribe_def Let_def split del: if_split)
qed

definition unsubscribe_filters :: "mqtt_string_t list \<Rightarrow> byte list" where
  "unsubscribe_filters ts = concat (map str_wire ts)"

lemma emitter_unsubscribe_loop:
  "list_all str_valid ts \<Longrightarrow>
     emitter (\<lambda>w. unsubscribe_write_loop w (length ts) ts) (unsubscribe_filters ts)"
proof (induction ts)
  case Nil
  then show ?case by (simp add: emitter_Some unsubscribe_filters_def)
next
  case (Cons t ts)
  then have "emitter (\<lambda>w. do { w1 \<leftarrow> mqtt_write_mqqt_str w t; unsubscribe_write_loop w1 (length ts) ts })
      (str_wire t @ unsubscribe_filters ts)"
    by (intro emitter_bind emitter_write_str) simp_all
  then show ?case by (simp add: unsubscribe_filters_def)
qed

lemma unsubscribe_length_eq:
  assumes "list_all (\<lambda>t. str_valid t \<and> str_single t) ts"
  shows "unsubscribe_length (int (length ts)) ts = c_int (2 + int (length (unsubscribe_filters ts)))"
proof -
  have "unsubscribe_length_loop ts (length ts) len = c_int (len + int (length (unsubscribe_filters ts)))" for len
    using assms
    by (induction ts arbitrary: len)
      (simp_all add: unsubscribe_filters_def mqtt_strlen_payload str_wire_def algebra_simps)
  then show ?thesis by (simp add: unsubscribe_length_def)
qed

definition unsubscribe_wire :: "byte \<Rightarrow> u16 \<Rightarrow> mqtt_string_t list \<Rightarrow> byte list" where
  "unsubscribe_wire dup packetid ts =
     hdr_set_qos 1 (hdr_set_dup dup (hdr_set_type MQTTPACKET_UNSUBSCRIBE 0))
     # rl_bytes (2 + length (unsubscribe_filters ts)) @ be16 (unat packetid) @ unsubscribe_filters ts"

lemma mqtt_serialize_unsubscribe_eq:
  assumes ok: "list_all (\<lambda>t. str_valid t \<and> str_single t) ts"
    and small: "2 + length (unsubscribe_filters ts) < 128 ^ 4"
    and need: "mqtt_packet_len (int (2 + length (unsubscribe_filters ts))) = Some need"
  shows "mqtt_serialize_unsubscribe buf buflen dup packetid (int (length ts)) ts =
     (if need > buflen then Some (MQTTPACKET_BUFFER_TOO_SHORT, buf)
      else if length (unsubscribe_wire dup packetid ts) \<le> length buf
      then Some (int (length (unsubscribe_wire dup packetid ts)), lay buf (unsubscribe_wire dup packetid ts))
      else None)"
proof -
  let ?h = "hdr_set_qos 1 (hdr_set_dup dup (hdr_set_type MQTTPACKET_UNSUBSCRIBE 0))"
  have l: "unsubscribe_length (int (length ts)) ts = Some (int (2 + length (unsubscribe_filters ts)))"
    using small by (simp add: unsubscribe_length_eq [OF ok] c_int_def)
  have v: "list_all str_valid ts"
    using ok by (simp add: list_all_iff)
  have wire: "unsubscribe_wire dup packetid ts =
      [?h] @ rl_bytes (2 + length (unsubscribe_filters ts)) @ be16 (unat packetid) @ unsubscribe_filters ts"
    by (simp add: unsubscribe_wire_def)
  have "emitter (\<lambda>w. do {
            p1 \<leftarrow> mqtt_write_char w ?h;
            p2 \<leftarrow> wc_encode p1 (int (2 + length (unsubscribe_filters ts)));
            p3 \<leftarrow> mqtt_write_int p2 (int (unat packetid));
            unsubscribe_write_loop p3 (length ts) ts })
      (unsubscribe_wire dup packetid ts)"
    unfolding wire by (intro emitter_bind em_char.emitter_axioms em_encode.emitter_axioms
        em_int.emitter_axioms emitter_unsubscribe_loop v)
  from emitter.emit_packet [OF this, of buf] l need show ?thesis
    by (cases "need > buflen")
      (simp_all add: mqtt_serialize_unsubscribe_def Let_def split del: if_split)
qed

section \<open>The subscribe acknowledgement\<close>

text \<open>
  Reading the granted QoS bytes \<open>qs\<close>: as long as the array and the limit allow, they are
  stored one after the other.
\<close>

lemma suback_loop_stores:
  assumes "so_count out = int k" and "int (k + length qs) \<le> maxcount + 1"
    and "k + length qs \<le> length (so_grantedQoSs out)"
  shows "suback_loop (xs @ qs @ ys) (length xs) (int (length xs + length qs)) maxcount out =
     Some (1, out\<lparr>so_count := int (k + length qs),
       so_grantedQoSs := take k (so_grantedQoSs out) @ map uint qs @ drop (k + length qs) (so_grantedQoSs out)\<rparr>)"
  using assms
proof (induction qs arbitrary: xs k out)
  case Nil
  then show ?case
    by (simp add: suback_loop.simps [of "xs @ ys"])
next
  case (Cons q qs)
  let ?g = "so_grantedQoSs out"
  let ?out = "out\<lparr>so_grantedQoSs := ?g[k := uint q], so_count := int (Suc k)\<rparr>"
  have k: "k < length ?g" using Cons.prems(3) by simp
  have "suback_loop ((xs @ [q]) @ qs @ ys) (length (xs @ [q])) (int (length (xs @ [q]) + length qs)) maxcount ?out =
      Some (1, ?out\<lparr>so_count := int (Suc k + length qs),
        so_grantedQoSs := take (Suc k) (?g[k := uint q]) @ map uint qs @ drop (Suc k + length qs) (?g[k := uint q])\<rparr>)"
    using Cons.prems by (subst Cons.IH [of ?out "Suc k" "xs @ [q]"]) simp_all
  with Cons.prems k show ?case
    by (simp add: suback_loop.simps [of "xs @ q # qs @ ys"] mqtt_read_char_def write_at_def
        take_Suc_conv_app_nth take_update_cancel drop_update_cancel add.commute)
qed

text \<open>One byte more than the array holds: the test lets it through and it is stored behind the end.\<close>

lemma suback_loop_overrun:
  assumes "so_count out = int k" and "length (so_grantedQoSs out) = nat maxcount" and "0 \<le> maxcount"
    and "int k \<le> maxcount" and "maxcount < int (k + length qs)"
  shows "suback_loop (xs @ qs @ ys) (length xs) (int (length xs + length qs)) maxcount out = None"
  using assms
proof (induction qs arbitrary: xs k out)
  case (Cons q qs)
  let ?g = "so_grantedQoSs out"
  show ?case
  proof (cases "int k = maxcount")
    case True
    with Cons.prems show ?thesis
      by (simp add: suback_loop.simps [of "xs @ q # qs @ ys"] mqtt_read_char_def write_at_def)
  next
    case False
    let ?out = "out\<lparr>so_grantedQoSs := ?g[k := uint q], so_count := int (Suc k)\<rparr>"
    have "suback_loop ((xs @ [q]) @ qs @ ys) (length (xs @ [q])) (int (length (xs @ [q]) + length qs)) maxcount ?out = None"
      using Cons.prems False by (intro Cons.IH [of _ "Suc k"]) simp_all
    with Cons.prems False show ?thesis
      by (simp add: suback_loop.simps [of "xs @ q # qs @ ys"] mqtt_read_char_def write_at_def add.commute)
  qed
qed simp

definition suback_head :: "u16 \<Rightarrow> nat \<Rightarrow> byte list" where
  "suback_head packetid n =
     hdr_set_type MQTTPACKET_SUBACK 0 # rl_bytes (2 + n) @ be16 (unat packetid)"

lemma mqtt_deserialize_suback_eq:
  assumes "2 + length qs < 128 ^ 4"
    and hd1_def: "hd1 = suback_head packetid (length qs)"
  shows "mqtt_deserialize_suback out maxcount (hd1 @ qs @ rest) buflen =
     suback_loop (hd1 @ qs @ rest) (length hd1) (int (length hd1 + length qs)) maxcount
       (out\<lparr>so_packetid := packetid, so_count := 0\<rparr>)"
proof -
  let ?h = "hdr_set_type MQTTPACKET_SUBACK 0"
  define rl where "rl = rl_bytes (2 + length qs)"
  define buf where "buf = hd1 @ qs @ rest"
  have hd1: "hd1 = ?h # rl @ be16 (unat packetid)"
    by (simp add: hd1_def suback_head_def rl_def)
  have buf: "buf = ?h # rl @ be16 (unat packetid) @ qs @ rest"
    by (simp add: hd1 buf_def)
  have t: "hdr_type ?h = MQTTPACKET_SUBACK"
    by (simp add: field_simps_bits take_bit_eq_mod)
  have r1: "mqtt_read_char buf 0 = Some (?h, Suc 0)"
    by (simp add: buf mqtt_read_char_def)
  have r2: "mqtt_packet_decode_buf buf (Suc 0) = Some (length rl, int (2 + length qs))"
    using mqtt_packet_decode_buf_eq [OF assms(1), of "[?h]" "be16 (unat packetid) @ qs @ rest"]
    by (simp add: buf rl_def)
  have r3: "mqtt_read_int buf (Suc (length rl)) = Some (uint packetid, length hd1)"
    using mqtt_read_int_at [of "unat packetid" "?h # rl" "qs @ rest"]
      unsigned_less [of packetid, where 'a = nat]
    by (simp add: buf hd1)
  have e: "3 + (int (length rl) + int (length qs)) = int (length hd1) + int (length qs)"
    by (simp add: hd1)
  show ?thesis
    unfolding buf_def [symmetric] mqtt_deserialize_suback_def
    using t by (simp add: r1 r2 r3 e)
qed

section \<open>Properties\<close>

text \<open>
  The connect packet. For protocol 3.1 or 3.1.1 and valid strings, the packet that is
  written is the header, the remaining length, the protocol name and level, the flags, the
  keep-alive time, the client identifier, the will and the credentials; the size check and
  the remaining length cover all of it but the bytes of the client identifier, so a packet
  that passes the check is written outside the buffer (no result) when those bytes do not
  fit.
\<close>

theorem connect_packet_layout:
  assumes "connect_strings_ok opts" and "MQTTVersion opts = 3 \<or> MQTTVersion opts = 4"
    and "connect_rem_len opts < 128 ^ 4"
  shows "\<exists>need. mqtt_packet_len (int (connect_rem_len opts)) = Some need \<and>
     length (connect_body opts) = connect_rem_len opts + length (str_payload (clientID opts)) \<and>
     mqtt_serialize_connect buf buflen opts =
     (if need > buflen then Some (MQTTPACKET_BUFFER_TOO_SHORT, buf)
      else if length (connect_wire opts) \<le> length buf
      then Some (int (length (connect_wire opts)), lay buf (connect_wire opts)) else None)"
proof -
  obtain need where need: "mqtt_packet_len (int (connect_rem_len opts)) = Some need"
    using mqtt_packet_len_covers [OF assms(3)] by blast
  with mqtt_serialize_connect_eq [OF assms need] show ?thesis
    by (simp add: connect_body_length)
qed

definition with_clientID :: "byte list \<Rightarrow> mqtt_packet_connect_data_t" where
  "with_clientID c = mqtt_packet_connect_data_initializer
     \<lparr>clientID := mqtt_string_initializer\<lparr>cstring := Some c\<rparr>\<rparr>"

lemma with_clientID_facts:
  "connect_strings_ok (with_clientID c)" "MQTTVersion (with_clientID c) = 4"
  "connect_rem_len (with_clientID c) = 12" "length (connect_wire (with_clientID c)) = 14 + length c"
proof -
  show ok: "connect_strings_ok (with_clientID c)" "MQTTVersion (with_clientID c) = 4"
    by (simp_all add: with_clientID_def mqtt_packet_connect_data_initializer_def connect_strings_ok_def
        mqtt_string_initializer_def str_valid_def str_single_def str_present_def)
  show r: "connect_rem_len (with_clientID c) = 12"
    by (simp add: connect_rem_len_def connect_body_def connect_proto_def connect_tail_def str_wire_def
        with_clientID_def mqtt_packet_connect_data_initializer_def mqtt_string_initializer_def str_present_def)
  have "str_payload (clientID (with_clientID c)) = c"
    by (simp add: with_clientID_def str_payload_def mqtt_string_initializer_def)
  with r show "length (connect_wire (with_clientID c)) = 14 + length c"
    by (simp add: connect_wire_def connect_body_length rl_bytes_small)
qed

theorem connect_packet_layout_witness:
  "\<exists>need. mqtt_packet_len (int (connect_rem_len (with_clientID [65]))) = Some need \<and>
     length (connect_body (with_clientID [65])) =
       connect_rem_len (with_clientID [65]) + length (str_payload (clientID (with_clientID [65]))) \<and>
     mqtt_serialize_connect (replicate 20 0) 20 (with_clientID [65]) =
     (if need > 20 then Some (MQTTPACKET_BUFFER_TOO_SHORT, replicate 20 0)
      else if length (connect_wire (with_clientID [65])) \<le> length (replicate 20 (0 :: byte))
      then Some (int (length (connect_wire (with_clientID [65]))), lay (replicate 20 0) (connect_wire (with_clientID [65])))
      else None)"
  by (rule connect_packet_layout) (simp_all add: with_clientID_facts)

text \<open>
  C40: with the default options and a client identifier of at least one byte, a buffer of
  14 bytes or more but too small for the identifier passes the size check, and the
  serialiser then writes outside it.
\<close>

theorem connect_clientid_overruns_buffer:
  assumes "14 \<le> buflen" and "buflen < 14 + int (length c)" and "length buf = nat buflen"
  shows "mqtt_packet_len (int (connect_rem_len (with_clientID c))) = Some 14 \<and>
     mqtt_serialize_connect buf buflen (with_clientID c) = None"
proof -
  have need: "mqtt_packet_len (int (connect_rem_len (with_clientID c))) = Some 14"
    by (simp add: with_clientID_facts mqtt_packet_len_def c_int_def)
  with assms show ?thesis
    by (simp add: mqtt_serialize_connect_eq [OF with_clientID_facts(1) _ _ need] with_clientID_facts)
qed

theorem connect_clientid_overruns_buffer_witness:
  "mqtt_packet_len (int (connect_rem_len (with_clientID [69, 83, 80]))) = Some 14 \<and>
     mqtt_serialize_connect (replicate 14 0) 14 (with_clientID [69, 83, 80]) = None"
  by (rule connect_clientid_overruns_buffer) simp_all

text \<open>
  Serialising a subscribe packet for any number of topics with valid strings either
  refuses a short buffer and leaves it alone, or writes exactly the packet, inside the
  buffer, and returns its length.
\<close>

theorem subscribe_serialize_bounds:
  assumes "length qs = length ts" and "list_all (\<lambda>t. str_valid t \<and> str_single t) ts"
    and "2 + length (subscribe_filters ts qs) < 128 ^ 4" and "length buf = nat buflen"
  shows "\<exists>rc buf'. mqtt_serialize_subscribe buf buflen dup packetid (int (length ts)) ts qs = Some (rc, buf') \<and>
     (rc = MQTTPACKET_BUFFER_TOO_SHORT \<and> buf' = buf \<or>
      0 < rc \<and> rc \<le> buflen \<and> length buf' = length buf \<and>
      take (nat rc) buf' = subscribe_wire dup packetid ts qs \<and> drop (nat rc) buf' = drop (nat rc) buf)"
proof -
  let ?w = "subscribe_wire dup packetid ts qs"
  obtain need where need: "mqtt_packet_len (int (2 + length (subscribe_filters ts qs))) = Some need"
    "1 + int (length (rl_bytes (2 + length (subscribe_filters ts qs)))) + int (2 + length (subscribe_filters ts qs)) \<le> need"
    using mqtt_packet_len_covers [OF assms(3)] by blast
  then have w: "int (length ?w) \<le> need" "0 < length ?w"
    by (simp_all add: subscribe_wire_def)
  note eq = mqtt_serialize_subscribe_eq [OF assms(1-3) need(1), of buf buflen dup packetid]
  show ?thesis
  proof (cases "need > buflen")
    case False
    with w assms(4) have "length ?w \<le> length buf" "int (length ?w) \<le> buflen"
      by linarith+
    with eq False w(2) show ?thesis by simp
  qed (simp add: eq)
qed

theorem subscribe_serialize_bounds_witness:
  "\<exists>rc buf'. mqtt_serialize_subscribe (replicate 10 0) 10 0 1 (int (length [demo_topic])) [demo_topic] [1] = Some (rc, buf') \<and>
     (rc = MQTTPACKET_BUFFER_TOO_SHORT \<and> buf' = replicate 10 0 \<or>
      0 < rc \<and> rc \<le> 10 \<and> length buf' = length (replicate 10 (0 :: byte)) \<and>
      take (nat rc) buf' = subscribe_wire 0 1 [demo_topic] [1] \<and> drop (nat rc) buf' = drop (nat rc) (replicate 10 0))"
  by (rule subscribe_serialize_bounds)
    (simp_all add: demo_topic_def str_valid_def str_single_def str_wire_def str_payload_def)

text \<open>
  Reading a subscribe acknowledgement. When the granted QoS bytes fit the limit and the
  array, the packet identifier, the count and the bytes are returned with code 1. An array
  of exactly \<^verbatim>\<open>maxcount\<close> elements is not enough protection: a packet with more bytes makes
  the function store behind its end.
\<close>

theorem suback_parse:
  assumes "2 + length qs < 128 ^ 4" and "0 \<le> maxcount" and "length g = nat maxcount"
  shows "mqtt_deserialize_suback \<lparr>so_packetid = p0, so_count = c0, so_grantedQoSs = g\<rparr> maxcount
        (suback_head packetid (length qs) @ qs @ rest) buflen =
     (if int (length qs) \<le> maxcount
      then Some (1, \<lparr>so_packetid = packetid, so_count = int (length qs),
                     so_grantedQoSs = map uint qs @ drop (length qs) g\<rparr>)
      else None)"
  using mqtt_deserialize_suback_eq [OF assms(1) refl, of _ maxcount packetid rest buflen] assms
    suback_loop_stores [of _ 0 qs maxcount] suback_loop_overrun [of _ 0 maxcount qs]
  by simp

theorem suback_parse_witness:
  "mqtt_deserialize_suback \<lparr>so_packetid = 0, so_count = 7, so_grantedQoSs = [- 1]\<rparr> 1 [144, 3, 0, 5, 1] 5 =
     Some (1, \<lparr>so_packetid = 5, so_count = 1, so_grantedQoSs = [1]\<rparr>) \<and>
   mqtt_deserialize_suback \<lparr>so_packetid = 0, so_count = 7, so_grantedQoSs = [- 1]\<rparr> 1 [144, 4, 0, 5, 1, 1] 6 = None"
proof -
  have h: "suback_head 5 (Suc 0) = [144, 3, 0, 5]" "suback_head 5 (Suc (Suc 0)) = [144, 4, 0, 5]"
    by code_simp+
  show ?thesis
    using suback_parse [of "[1]" 1 "[- 1]" 0 7 5 "[]" 5] suback_parse [of "[1, 1]" 1 "[- 1]" 0 7 5 "[]" 6]
    by (simp add: h)
qed

end
