(* ===== verification/Mqtt_Esp8266.thy ===== *)
theory Mqtt_Esp8266
  imports Prelude
begin

text \<open>
  The ESP8266 port layer of the MQTT client, \<^verbatim>\<open>src/extras/paho_mqtt_c/MQTTESP8266.c\<close>: timers
  on the FreeRTOS tick counter and a network on lwIP sockets. The tick counter, the sockets
  and the resolver are parameters; they act on a world of arbitrary type \<open>'w\<close>.
\<close>

section \<open>Timers\<close>

text \<open>\<^verbatim>\<open>portTICK_PERIOD_MS\<close> is 1000 / 100, a 32-bit unsigned value.\<close>

abbreviation (input) portTICK_PERIOD_MS :: u32 where "portTICK_PERIOD_MS \<equiv> 10"

record mqtt_timer_t =
  end_time :: u32

text \<open>\<^verbatim>\<open>xTaskGetTickCount\<close>: reads the tick counter; the world may move on meanwhile.\<close>

type_synonym 'w tick_fn = "'w \<Rightarrow> u32 \<times> 'w"

definition mqtt_timer_expired :: "'w tick_fn \<Rightarrow> mqtt_timer_t \<Rightarrow> 'w \<Rightarrow> bool \<times> 'w" where
  "mqtt_timer_expired tick timer w =
     (let (now, w') = tick w; left = end_time timer - now in (sint left < 0, w'))"

definition mqtt_timer_countdown_ms ::
  "'w tick_fn \<Rightarrow> mqtt_timer_t \<Rightarrow> u32 \<Rightarrow> 'w \<Rightarrow> mqtt_timer_t \<times> 'w" where
  "mqtt_timer_countdown_ms tick timer timeout w =
     (let (now, w') = tick w in (timer\<lparr>end_time := now + timeout div portTICK_PERIOD_MS\<rparr>, w'))"

definition mqtt_timer_countdown ::
  "'w tick_fn \<Rightarrow> mqtt_timer_t \<Rightarrow> u32 \<Rightarrow> 'w \<Rightarrow> mqtt_timer_t \<times> 'w" where
  "mqtt_timer_countdown tick timer timeout w = mqtt_timer_countdown_ms tick timer (timeout * 1000) w"

definition mqtt_timer_left_ms :: "'w tick_fn \<Rightarrow> mqtt_timer_t \<Rightarrow> 'w \<Rightarrow> int \<times> 'w" where
  "mqtt_timer_left_ms tick timer w =
     (let (now, w') = tick w; left = end_time timer - now
      in (if sint left < 0 then 0 else sint (left div portTICK_PERIOD_MS), w'))"

definition mqtt_timer_init :: "mqtt_timer_t \<Rightarrow> mqtt_timer_t" where
  "mqtt_timer_init timer = timer\<lparr>end_time := 0\<rparr>"

section \<open>Network\<close>

text \<open>
  The lwIP calls: \<^verbatim>\<open>select\<close> for reading or writing one socket (return code and
  \<^verbatim>\<open>FD_ISSET\<close>), \<^verbatim>\<open>recv\<close> (return code and the bytes stored), \<^verbatim>\<open>send\<close>, \<^verbatim>\<open>getaddrinfo\<close> (return
  code and the addresses of the result list), \<^verbatim>\<open>socket\<close>, \<^verbatim>\<open>connect\<close> and \<^verbatim>\<open>close\<close>.
\<close>

record 'w sockets =
  sk_select_read :: "int \<Rightarrow> int \<Rightarrow> 'w \<Rightarrow> int \<times> bool \<times> 'w"
  sk_select_write :: "int \<Rightarrow> int \<Rightarrow> 'w \<Rightarrow> int \<times> bool \<times> 'w"
  sk_recv :: "int \<Rightarrow> int \<Rightarrow> 'w \<Rightarrow> int \<times> byte list \<times> 'w"
  sk_send :: "int \<Rightarrow> byte list \<Rightarrow> 'w \<Rightarrow> int \<times> 'w"
  sk_getaddrinfo :: "byte list \<Rightarrow> 'w \<Rightarrow> int \<times> u32 list \<times> 'w"
  sk_socket :: "'w \<Rightarrow> int \<times> 'w"
  sk_connect :: "int \<Rightarrow> u32 \<Rightarrow> u16 \<Rightarrow> 'w \<Rightarrow> int \<times> 'w"
  sk_close :: "int \<Rightarrow> 'w \<Rightarrow> 'w"

text \<open>
  \<^verbatim>\<open>mqtt_network_t\<close>. The function pointers get the network they are called on, of which
  they only use the socket.
\<close>

record 'w mqtt_network_t =
  my_socket :: int
  mqttread :: "int \<Rightarrow> int \<Rightarrow> int \<Rightarrow> 'w \<Rightarrow> int \<times> byte list \<times> 'w"
  mqttwrite :: "int \<Rightarrow> byte list \<Rightarrow> int \<Rightarrow> 'w \<Rightarrow> int \<times> 'w"

text \<open>The field \<^verbatim>\<open>tv.tv_sec\<close>: the signed timeout divided by the unsigned tick period.\<close>

definition tv_sec_of :: "int \<Rightarrow> int" where
  "tv_sec_of timeout_ms = sint (word_of_int timeout_ms div portTICK_PERIOD_MS)"

definition mqtt_esp_read :: "'w sockets \<Rightarrow> int \<Rightarrow> int \<Rightarrow> int \<Rightarrow> 'w \<Rightarrow> int \<times> byte list \<times> 'w" where
  "mqtt_esp_read sk sock len timeout_ms w =
     (let (rc, isset, w1) = sk_select_read sk sock (tv_sec_of timeout_ms) w
      in if rc > 0 \<and> isset then sk_recv sk sock len w1 else (- 1, [], w1))"

definition mqtt_esp_write :: "'w sockets \<Rightarrow> int \<Rightarrow> byte list \<Rightarrow> int \<Rightarrow> 'w \<Rightarrow> int \<times> 'w" where
  "mqtt_esp_write sk sock bytes timeout_ms w =
     (let (rc, isset, w1) = sk_select_write sk sock (tv_sec_of timeout_ms) w
      in if rc > 0 \<and> isset then sk_send sk sock bytes w1 else (- 1, w1))"

definition mqtt_network_new :: "'w sockets \<Rightarrow> 'w mqtt_network_t \<Rightarrow> 'w mqtt_network_t" where
  "mqtt_network_new sk n =
     n\<lparr>my_socket := - 1, mqttread := mqtt_esp_read sk, mqttwrite := mqtt_esp_write sk\<rparr>"

text \<open>
  \<^verbatim>\<open>host2addr\<close>: the loop stores every address of the result list in turn. \<open>s_addr\<close> is the
  value of the out parameter, which an empty result list leaves alone.
\<close>

definition host2addr :: "'w sockets \<Rightarrow> byte list \<Rightarrow> u32 \<Rightarrow> 'w \<Rightarrow> int \<times> u32 \<times> 'w" where
  "host2addr sk hostname s_addr w =
     (let (rv, servinfo, w1) = sk_getaddrinfo sk hostname w
      in if rv \<noteq> 0 then (rv, s_addr, w1)
         else (0, fold (\<lambda>p _. p) servinfo s_addr, w1))"

definition mqtt_network_connect ::
  "'w sockets \<Rightarrow> u32 \<Rightarrow> 'w mqtt_network_t \<Rightarrow> byte list \<Rightarrow> int \<Rightarrow> 'w \<Rightarrow> int \<times> 'w mqtt_network_t \<times> 'w" where
  "mqtt_network_connect sk garbage n host port w =
     (let (rv, addr, w1) = host2addr sk host garbage w
      in if rv \<noteq> 0 then (- 1, n, w1)
         else let (sock, w2) = sk_socket sk w1; n1 = n\<lparr>my_socket := sock\<rparr>
           in if my_socket n1 < 0 then (- 1, n1, w2)
              else let (ret, w3) = sk_connect sk (my_socket n1) addr (word_of_int port) w2
                in if ret < 0 then (ret, n1, sk_close sk (my_socket n1) w3) else (ret, n1, w3))"

definition mqtt_network_disconnect ::
  "'w sockets \<Rightarrow> 'w mqtt_network_t \<Rightarrow> 'w \<Rightarrow> int \<times> 'w mqtt_network_t \<times> 'w" where
  "mqtt_network_disconnect sk n w = (0, n\<lparr>my_socket := - 1\<rparr>, sk_close sk (my_socket n) w)"

section \<open>Lemmas\<close>

lemma sint_diff_small:
  assumes "a < 2 ^ 31" and "b < 2 ^ 31"
  shows "sint (of_nat a - of_nat b :: u32) = int a - int b"
proof -
  have "(of_nat a - of_nat b :: u32) = word_of_int (int a - int b)"
    by simp
  moreover have "signed_take_bit 31 (int a - int b) = int a - int b"
    using assms by (intro signed_take_bit_int_eq_self) simp_all
  ultimately show ?thesis
    by (simp only: sint_sbintrunc') simp
qed

section \<open>Properties\<close>

text \<open>
  Timers survive the wrap-around of the tick counter. A timer set for a number of
  milliseconds at any tick count has expired, less than 2 to the 31 ticks later, exactly when
  more ticks have passed than the timeout has, also when the counter wrapped in between. The
  time left is 0 from then on; before, it is the number of ticks left divided by 10, although a
  tick is 10 milliseconds.
\<close>

theorem timer_wraparound:
  assumes "tick w = (now, w1)" and "tick w2 = (now + of_nat d, w3)" and "d < 2 ^ 31"
  shows "\<exists>t'. mqtt_timer_countdown_ms tick t timeout w = (t', w1) \<and>
     mqtt_timer_expired tick t' w2 = (unat timeout div 10 < d, w3) \<and>
     mqtt_timer_left_ms tick t' w2 = (int ((unat timeout div 10 - d) div 10), w3)"
proof -
  let ?T = "unat timeout div 10"
  have "unat timeout < 2 ^ 32"
    using unsigned_less [of timeout, where 'a = nat] by simp
  then have T: "?T < 2 ^ 31" by simp
  have td: "timeout div 10 = of_nat ?T"
    by (rule unsigned_word_eqI [where 'a = nat]) (use T in \<open>simp add: unat_div unat_of_nat\<close>)
  have l: "sint (now + timeout div 10 - (now + of_nat d)) = int ?T - int d"
    using sint_diff_small [OF T assms(3)] by (simp add: td)
  have lw: "sint ((now + timeout div 10 - (now + of_nat d)) div 10) = int ((?T - d) div 10)" if "d \<le> ?T"
  proof -
    have "now + timeout div 10 - (now + of_nat d) = (of_nat (?T - d) :: u32)"
      using that by (simp add: td of_nat_diff)
    moreover have "(of_nat (?T - d) :: u32) div 10 = of_nat ((?T - d) div 10)"
      by (rule unsigned_word_eqI [where 'a = nat]) (use T in \<open>simp add: unat_div unat_of_nat\<close>)
    moreover have "(?T - d) div 10 < 2 ^ 31"
      using T by simp
    ultimately show ?thesis
      using sint_diff_small [of "(?T - d) div 10" 0] by simp
  qed
  show ?thesis
    using assms l lw
    by (simp add: mqtt_timer_countdown_ms_def mqtt_timer_expired_def mqtt_timer_left_ms_def)
qed
theorem timer_wraparound_witness:
  "\<exists>t'. mqtt_timer_countdown_ms (\<lambda>w. (w, w)) \<lparr>end_time = 7\<rparr> 1000 (4294967294 :: u32) = (t', 4294967294) \<and>
     mqtt_timer_expired (\<lambda>w. (w, w)) t' (40 :: u32) = (False, 40) \<and>
     mqtt_timer_left_ms (\<lambda>w. (w, w)) t' (40 :: u32) = (5, 40)"
  using timer_wraparound [of "\<lambda>w. (w, w)" 4294967294 4294967294 4294967294 40 42 40 "\<lparr>end_time = 7\<rparr>" 1000]
  by simp

end
