(* ===== verification/Mqtt_Topic.thy ===== *)
theory Mqtt_Topic
  imports Mqtt_Packet
begin

text \<open>
  Topic filters, the function \<^verbatim>\<open>is_topic_matched\<close> of
  \<^verbatim>\<open>src/extras/paho_mqtt_c/MQTTClient.c\<close>, and what it decides: a filter and a name are
  compared level by level.
\<close>

section \<open>The matcher\<close>

text \<open>
  \<^verbatim>\<open>is_topic_matched\<close>: the filter is a C string, so its pointer is the list of the bytes
  left; the name pointer is an index, \<open>curn_end\<close> the index behind the name.
\<close>

abbreviation (input) ch_slash :: byte where "ch_slash \<equiv> 47"
abbreviation (input) ch_plus :: byte where "ch_plus \<equiv> 43"
abbreviation (input) ch_hash :: byte where "ch_hash \<equiv> 35"

function topic_skip :: "byte list \<Rightarrow> int \<Rightarrow> nat \<Rightarrow> nat option" where
  "topic_skip mem curn_end curn =
     (if int (Suc curn) < curn_end then
        (case read_at mem (Suc curn) of
           None \<Rightarrow> None
         | Some ch \<Rightarrow> if ch \<noteq> ch_slash then topic_skip mem curn_end (Suc curn) else Some curn)
      else Some curn)"
  by pat_completeness auto
termination
  by (relation "measure (\<lambda>(_, e, curn). nat (e - int curn))") auto

declare topic_skip.simps [simp del]

fun topic_loop :: "byte list \<Rightarrow> int \<Rightarrow> byte list \<Rightarrow> nat \<Rightarrow> (byte list \<times> nat) option" where
  "topic_loop mem curn_end [] curn = Some ([], curn)"
| "topic_loop mem curn_end (f # curf) curn =
     (if int curn < curn_end then
        (case read_at mem curn of
           None \<Rightarrow> None
         | Some ch \<Rightarrow>
             (if ch = ch_slash \<and> f \<noteq> ch_slash then Some (f # curf, curn)
              else if f \<noteq> ch_plus \<and> f \<noteq> ch_hash \<and> f \<noteq> ch then Some (f # curf, curn)
              else if f = ch_plus then
                (case topic_skip mem curn_end curn of
                   None \<Rightarrow> None
                 | Some curn' \<Rightarrow> topic_loop mem curn_end curf (Suc curn'))
              else if f = ch_hash then topic_loop mem curn_end curf (nat curn_end)
              else topic_loop mem curn_end curf (Suc curn)))
      else Some (f # curf, curn))"

definition is_topic_matched :: "byte list \<Rightarrow> mqtt_string_t \<Rightarrow> bool option" where
  "is_topic_matched filt topicName =
     (let mem = (case lenstring_data topicName of None \<Rightarrow> [] | Some d \<Rightarrow> d);
          curn_end = lenstring_len topicName
      in map_option (\<lambda>(curf, curn). int curn = curn_end \<and> curf = []) (topic_loop mem curn_end filt 0))"

section \<open>Matching by levels\<close>

text \<open>The levels of a topic, and when a list of filter levels matches a list of name levels.\<close>

fun levels :: "byte list \<Rightarrow> byte list list" where
  "levels [] = [[]]"
| "levels (c # cs) =
     (if c = ch_slash then [] # levels cs
      else case levels cs of [] \<Rightarrow> [[c]] | l # ls \<Rightarrow> (c # l) # ls)"

fun filter_match :: "byte list list \<Rightarrow> byte list list \<Rightarrow> bool" where
  "filter_match [] [] = True"
| "filter_match (f # fs) (n # ns) =
     (if f = [ch_hash] \<and> fs = [] then n \<noteq> []
      else if f = [ch_plus] then n \<noteq> [] \<and> filter_match fs ns
      else f = n \<and> filter_match fs ns)"
| "filter_match _ _ = False"

fun filter_ok :: "byte list list \<Rightarrow> bool" where
  "filter_ok [] = True"
| "filter_ok (f # fs) =
     ((f = [ch_hash] \<and> fs = [] \<or> f = [ch_plus] \<or> ch_plus \<notin> set f \<and> ch_hash \<notin> set f) \<and> filter_ok fs)"

text \<open>The matcher on the bytes left of the filter and of the name.\<close>

fun match_list :: "byte list \<Rightarrow> byte list \<Rightarrow> bool" where
  "match_list [] ns = (ns = [])"
| "match_list (f # fs) [] = False"
| "match_list (f # fs) (n # ns) =
     (if n = ch_slash \<and> f \<noteq> ch_slash then False
      else if f \<noteq> ch_plus \<and> f \<noteq> ch_hash \<and> f \<noteq> n then False
      else if f = ch_plus then match_list fs (dropWhile (\<lambda>ch. ch \<noteq> ch_slash) ns)
      else if f = ch_hash then match_list fs []
      else match_list fs ns)"

lemma ch_distinct [simp]:
  "(43 :: byte) \<noteq> 47" "(35 :: byte) \<noteq> 47" "(35 :: byte) \<noteq> 43"
  "(47 :: byte) \<noteq> 43" "(47 :: byte) \<noteq> 35" "(43 :: byte) \<noteq> 35"
  by code_simp+

lemma topic_skip_eq:
  "topic_skip (pre @ n # ns @ junk) (int (Suc (length pre) + length ns)) (length pre) =
     Some (length pre + length (takeWhile (\<lambda>ch. ch \<noteq> ch_slash) ns))"
proof (induction ns arbitrary: pre n)
  case Nil
  then show ?case by (simp add: topic_skip.simps)
next
  case (Cons m ns)
  have rd: "read_at (pre @ n # m # ns @ junk) (Suc (length pre)) = Some m"
    by (simp add: read_at_append)
  show ?case
  proof (cases "m = ch_slash")
    case True
    then show ?thesis
      using rd by (simp add: topic_skip.simps [of _ _ "length pre"])
  next
    case False
    then show ?thesis
      using rd Cons.IH [of "pre @ [n]" m] by (simp add: topic_skip.simps [of _ _ "length pre"])
  qed
qed

lemma takeWhile_dropWhile_append: "takeWhile P xs @ dropWhile P xs @ ys = xs @ ys"
  by (metis append_assoc takeWhile_dropWhile_id)

lemma topic_loop_eq:
  "\<exists>curf curn. topic_loop (pre @ ns @ junk) (int (length pre + length ns)) fs (length pre) = Some (curf, curn) \<and>
     (int curn = int (length pre + length ns) \<and> curf = []) = match_list fs ns"
proof (induction fs ns arbitrary: pre rule: match_list.induct)
  case (1 ns)
  then show ?case by simp
next
  case (2 f fs)
  then show ?case by simp
next
  case (3 f fs n ns)
  have rd: "read_at (pre @ n # ns @ junk) (length pre) = Some n"
    by simp
  consider "n = ch_slash \<and> f \<noteq> ch_slash \<or> f \<noteq> ch_plus \<and> f \<noteq> ch_hash \<and> f \<noteq> n"
    | "n \<noteq> ch_slash" "f = ch_plus" | "n \<noteq> ch_slash" "f = ch_hash"
    | "f \<noteq> ch_plus" "f \<noteq> ch_hash" "f = n"
    using ch_distinct by metis
  then show ?case
  proof cases
    case 1
    then show ?thesis using rd by auto
  next
    case 2
    let ?t = "takeWhile (\<lambda>ch. ch \<noteq> ch_slash) ns" and ?d = "dropWhile (\<lambda>ch. ch \<noteq> ch_slash) ns"
    have ns: "ns = ?t @ ?d" by simp
    have len: "length ns = length ?t + length ?d"
      by (metis length_append ns)
    show ?thesis
      using "3.IH"(1) [of "pre @ n # ?t"] 2 rd topic_skip_eq [of pre n ns junk] len
      by (simp add: algebra_simps takeWhile_dropWhile_append)
  next
    case 3
    have "pre @ n # ns @ junk = (pre @ n # ns) @ [] @ junk" by simp
    then show ?thesis
      using "3.IH"(2) [of "pre @ n # ns"] 3 rd
      by (simp add: nat_add_distrib algebra_simps del: word_eq_numeral_iff_iszero)
  next
    case 4
    then show ?thesis
      using "3.IH"(3) [of "pre @ [n]"] rd by (simp add: algebra_simps)
  qed
qed

lemma levels_not_Nil [simp]: "levels s \<noteq> []"
  by (cases s) (auto split: list.splits)

lemma levels_Cons_other:
  "c \<noteq> ch_slash \<Longrightarrow> levels (c # cs) = (c # hd (levels cs)) # tl (levels cs)"
  by (cases "levels cs") simp_all

lemma levels_head: "levels s = takeWhile (\<lambda>ch. ch \<noteq> ch_slash) s # tl (levels s)"
  by (induction s) (auto split: list.splits)

lemma levels_dropWhile:
  "levels (dropWhile (\<lambda>ch. ch \<noteq> ch_slash) s) = [] # tl (levels s)"
  by (induction s) (auto split: list.splits)

lemma match_list_levels:
  "filter_ok (levels fs) \<Longrightarrow> match_list fs ns = filter_match (levels fs) (levels ns)"
proof (induction fs ns rule: match_list.induct)
  case (1 ns)
  show ?case
  proof (cases ns)
    case (Cons a as)
    then show ?thesis
      by (cases "a = ch_slash"; cases "levels as") (auto simp: levels_Cons_other)
  qed simp
next
  case (2 f fs)
  show ?case
  proof (cases "f = ch_slash")
    case True
    then show ?thesis by (cases "levels fs") auto
  next
    case False
    then show ?thesis by (simp add: levels_Cons_other del: levels.simps(2))
  qed
next
  case (3 f fs n ns)
  consider "f = ch_slash" | "f \<noteq> ch_slash" "n = ch_slash" | "f = ch_plus" "n \<noteq> ch_slash"
    | "f = ch_hash" "n \<noteq> ch_slash" | "f \<noteq> ch_slash" "f \<noteq> ch_plus" "f \<noteq> ch_hash" "n \<noteq> ch_slash"
    by blast
  then show ?case
  proof cases
    case 1
    then show ?thesis
      using "3.IH"(3) "3.prems" levels_Cons_other [of n ns] by (cases "n = ch_slash") simp_all
  next
    case 2
    then show ?thesis
      using levels_Cons_other [of f fs] by simp
  next
    case 3
    from 3 "3.prems" have h: "hd (levels fs) = []"
      by (auto simp: levels_Cons_other simp del: levels.simps(2))
    then have l: "levels fs = [] # tl (levels fs)"
      by (metis levels_not_Nil list.collapse)
    from 3 "3.prems" l have "filter_ok (levels fs)"
      by (metis filter_ok.simps(2) levels_Cons_other ch_distinct(1) list.sel(3) empty_iff list.set(1))
    with 3 "3.IH"(1) have "match_list fs (dropWhile (\<lambda>ch. ch \<noteq> ch_slash) ns) =
        filter_match ([] # tl (levels fs)) ([] # tl (levels ns))"
      using l by (simp add: levels_dropWhile)
    with 3 h show ?thesis
      by (simp add: levels_Cons_other del: levels.simps(2))
  next
    case 4
    with "3.prems" have "hd (levels fs) = []" "tl (levels fs) = []"
      by (auto simp: levels_Cons_other simp del: levels.simps(2))
    then have "levels fs = [[]]"
      by (metis levels_not_Nil list.collapse)
    then have "fs = []"
      by (cases fs) (auto split: if_splits list.splits)
    with 4 show ?thesis
      by (simp add: levels_Cons_other del: levels.simps(2))
  next
    case 5
    from 5 "3.prems" have "filter_ok (levels fs)"
      by (cases "levels fs") (auto simp: levels_Cons_other simp del: levels.simps(2))
    with 5 "3.IH"(3) have "f = n \<Longrightarrow> match_list fs ns = filter_match (levels fs) (levels ns)"
      by simp
    moreover obtain l ls m ms where "levels fs = l # ls" "levels ns = m # ms"
      by (metis levels_not_Nil list.exhaust)
    moreover have "ch_plus \<notin> set (hd (levels fs))" "ch_hash \<notin> set (hd (levels fs))"
      using 5 "3.prems" by (auto simp: levels_Cons_other simp del: levels.simps(2))
    ultimately show ?thesis
      using 5 by (auto simp: levels_Cons_other simp del: levels.simps(2))
  qed
qed
text \<open>A topic name as the deserialiser returns it: a length and a pointer into the packet.\<close>

definition topic_is :: "mqtt_string_t \<Rightarrow> byte list \<Rightarrow> bool" where
  "topic_is topicName name \<longleftrightarrow>
     cstring topicName = None \<and> lenstring_len topicName = int (length name) \<and>
     (case lenstring_data topicName of None \<Rightarrow> False | Some d \<Rightarrow> take (length name) d = name)"

lemma topic_isE:
  assumes "topic_is topicName name"
  obtains junk where "cstring topicName = None" and "lenstring_len topicName = int (length name)"
    and "lenstring_data topicName = Some (name @ junk)"
  using assms
  by (auto simp: topic_is_def split: option.splits) (metis append_take_drop_id)

lemma is_topic_matched_eq:
  assumes "filter_ok (levels filt)" and "topic_is topicName name"
  shows "is_topic_matched filt topicName = Some (filter_match (levels filt) (levels name))"
  using assms(2)
proof (cases rule: topic_isE)
  case (1 junk)
  then show ?thesis
    using topic_loop_eq [of "[]" name junk filt] assms(1)
    by (auto simp: is_topic_matched_def match_list_levels)
qed

section \<open>Properties\<close>

text \<open>
  C25: topic matching. For a filter in the correct format (a wild card is a whole level, the
  hash sign is the last one) and a topic name of any bytes, the matcher stays inside the
  name, ends, and answers whether the filter matches level by level: a literal level matches
  itself, a plus sign one level that is not empty, a hash sign in the last level the rest of
  the name provided its first level is not empty.
\<close>

theorem is_topic_matched_correct:
  assumes "filter_ok (levels filt)" and "topic_is topicName name"
  shows "is_topic_matched filt topicName = Some (filter_match (levels filt) (levels name))"
  using assms by (rule is_topic_matched_eq)

text \<open>Bytes of the filters \<^verbatim>\<open>a/+/c\<close> and \<^verbatim>\<open>a/#\<close> and of the names \<^verbatim>\<open>a/b/c\<close> and \<^verbatim>\<open>a/\<close>.\<close>

theorem is_topic_matched_correct_witness:
  "is_topic_matched [97, 47, 43, 47, 99]
     \<lparr>cstring = None, lenstring_len = 5, lenstring_data = Some [97, 47, 98, 47, 99, 0]\<rparr> = Some True \<and>
   is_topic_matched [97, 47, 35]
     \<lparr>cstring = None, lenstring_len = 2, lenstring_data = Some [97, 47]\<rparr> = Some False"
proof -
  have "filter_ok (levels [97, 47, 43, 47, 99])" "filter_ok (levels [97, 47, 35])"
    "filter_match (levels [97, 47, 43, 47, 99]) (levels [97, 47, 98, 47, 99])"
    "\<not> filter_match (levels [97, 47, 35]) (levels [97, 47])"
    by code_simp+
  then show ?thesis
    using is_topic_matched_correct [of "[97, 47, 43, 47, 99]" _ "[97, 47, 98, 47, 99]"]
      is_topic_matched_correct [of "[97, 47, 35]" _ "[97, 47]"]
    by (simp add: topic_is_def del: levels.simps filter_match.simps filter_ok.simps)
qed

end
