(* ===== verification/Mqtt_Client.thy ===== *)
theory Mqtt_Client
  imports Mqtt_Control Mqtt_Esp8266 Mqtt_Topic
begin

text \<open>
  The MQTT client, \<^verbatim>\<open>src/extras/paho_mqtt_c/MQTTClient.c\<close>: sending and receiving packets under
  a timer, topic matching and delivery, keep-alive, the receive cycle and the API calls.

  A function takes the client and the world and returns its code, the client and the world.
  \<^term>\<open>None\<close> is undefined behaviour or a loop that does not end: the loops over a timer are
  partial functions into the option type. Message handlers are numbered; calling one acts on
  the world only.
\<close>

section \<open>State\<close>

abbreviation (input) MQTT_MAX_PACKET_ID :: u32 where "MQTT_MAX_PACKET_ID \<equiv> 65535"
abbreviation (input) MQTT_MAX_MESSAGE_HANDLERS :: nat where "MQTT_MAX_MESSAGE_HANDLERS \<equiv> 5"
abbreviation (input) MQTT_MAX_FAIL_ALLOWED :: int where "MQTT_MAX_FAIL_ALLOWED \<equiv> 2"

abbreviation (input) MQTT_READ_ERROR :: int where "MQTT_READ_ERROR \<equiv> - 4"
abbreviation (input) MQTT_DISCONNECTED :: int where "MQTT_DISCONNECTED \<equiv> - 3"
abbreviation (input) MQTT_FAILURE :: int where "MQTT_FAILURE \<equiv> - 1"
abbreviation (input) MQTT_SUCCESS :: int where "MQTT_SUCCESS \<equiv> 0"

record mqtt_message_t =
  msg_qos :: int
  msg_retained :: byte
  msg_dup :: byte
  msg_id :: u16
  msg_payload :: "byte list"
  msg_payloadlen :: int

record mqtt_message_data_t =
  md_topic :: mqtt_string_t
  md_message :: mqtt_message_t

record message_handler =
  topicFilter :: "byte list option"
  fp :: "nat option"

record 'w mqtt_client_t =
  next_packetid :: u32
  command_timeout_ms :: u32
  buf_size :: u32
  readbuf_size :: u32
  cbuf :: "byte list"
  readbuf :: "byte list"
  ckeepAliveInterval :: u32
  ping_outstanding :: byte
  fail_count :: int
  isconnected :: int
  messageHandlers :: "message_handler list"
  defaultMessageHandler :: "nat option"
  ipstack :: "'w mqtt_network_t"
  ping_timer :: mqtt_timer_t

text \<open>
  What the client runs in: the tick counter, the message handlers by number, and the
  contents that the uninitialised locals of \<^verbatim>\<open>cycle\<close> and the API calls happen to have.
\<close>

record 'w mqtt_env =
  tick_count :: "'w tick_fn"
  call_handler :: "nat \<Rightarrow> mqtt_message_data_t \<Rightarrow> 'w \<Rightarrow> 'w"
  stack_publish :: publish_out
  stack_ack :: ack_out
  stack_timer :: mqtt_timer_t

type_synonym 'w call = "(int \<times> 'w mqtt_client_t \<times> 'w) option"

definition new_message_data :: "mqtt_string_t \<Rightarrow> mqtt_message_t \<Rightarrow> mqtt_message_data_t" where
  "new_message_data aTopicName aMessage = \<lparr>md_topic = aTopicName, md_message = aMessage\<rparr>"

definition get_next_packet_id :: "'w mqtt_client_t \<Rightarrow> u32 \<times> 'w mqtt_client_t" where
  "get_next_packet_id c =
     (let n = (if next_packetid c = MQTT_MAX_PACKET_ID then 1 else next_packetid c + 1)
      in (n, c\<lparr>next_packetid := n\<rparr>))"

section \<open>Sending and receiving packets\<close>

text \<open>The loop of \<^verbatim>\<open>send_packet\<close>: the number of bytes sent and the world.\<close>

partial_function (option) send_packet_loop ::
  "'w mqtt_env \<Rightarrow> 'w mqtt_client_t \<Rightarrow> int \<Rightarrow> mqtt_timer_t \<Rightarrow> int \<Rightarrow> 'w \<Rightarrow> (int \<times> 'w) option" where
  "send_packet_loop env c len timer sent w =
     (if sent < len then
        (let (expired, w1) = mqtt_timer_expired (tick_count env) timer w
         in if expired then Some (sent, w1)
            else let (left, w2) = mqtt_timer_left_ms (tick_count env) timer w1
              in if int (length (cbuf c)) < len then None
                 else let (rc, w3) = mqttwrite (ipstack c) (my_socket (ipstack c))
                            (block_at (nat sent) (nat (len - sent)) (cbuf c)) left w2
                   in if rc < 0 then Some (sent, w3)
                      else case c_int (sent + rc) of
                        None \<Rightarrow> None
                      | Some sent' \<Rightarrow> send_packet_loop env c len timer sent' w3)
      else Some (sent, w))"

declare send_packet_loop.simps [code]

definition send_packet :: "'w mqtt_env \<Rightarrow> 'w mqtt_client_t \<Rightarrow> int \<Rightarrow> mqtt_timer_t \<Rightarrow> 'w \<Rightarrow> 'w call" where
  "send_packet env c len timer w =
     do { (sent, w1) \<leftarrow> send_packet_loop env c len timer 0 w;
          if sent = len
          then let (pt, w2) = mqtt_timer_countdown (tick_count env) (ping_timer c) (ckeepAliveInterval c) w1
               in Some (MQTT_SUCCESS, c\<lparr>ping_timer := pt\<rparr>, w2)
          else Some (MQTT_FAILURE, c, w1) }"

text \<open>
  \<^verbatim>\<open>decode_packet\<close>: the count returned, the value and the world. It returns the count also
  when a read fails or the field is too long.
\<close>

function decode_packet_loop ::
  "'w mqtt_network_t \<Rightarrow> int \<Rightarrow> nat \<Rightarrow> int \<Rightarrow> int \<Rightarrow> 'w \<Rightarrow> (nat \<times> int \<times> 'w) option" where
  "decode_packet_loop net timeout len multiplier value w =
     (if Suc len > MAX_NO_OF_REMAINING_LENGTH_BYTES then Some (Suc len, value, w)
      else let (rc, bs, w1) = mqttread net (my_socket net) 1 timeout w
        in if rc \<noteq> 1 then Some (Suc len, value, w1)
           else case bs of
             [] \<Rightarrow> None
           | i # _ \<Rightarrow>
               (let value' = value + uint (i AND 127) * multiplier
                in if i AND 128 \<noteq> 0
                   then decode_packet_loop net timeout (Suc len) (multiplier * 128) value' w1
                   else Some (Suc len, value', w1)))"
  by pat_completeness auto
termination
  by (relation "measure (\<lambda>(_, _, len, _, _, _). 5 - len)") auto

declare decode_packet_loop.simps [simp del]

definition decode_packet :: "'w mqtt_network_t \<Rightarrow> int \<Rightarrow> 'w \<Rightarrow> (nat \<times> int \<times> 'w) option" where
  "decode_packet net timeout w = decode_packet_loop net timeout 0 1 0 w"

text \<open>The size test compares in \<^verbatim>\<open>size_t\<close>, that is modulo 2 to the 32.\<close>

definition read_packet :: "'w mqtt_env \<Rightarrow> 'w mqtt_client_t \<Rightarrow> mqtt_timer_t \<Rightarrow> 'w \<Rightarrow> 'w call" where
  "read_packet env c timer w =
     (let net = ipstack c;
          (left1, w1) = mqtt_timer_left_ms (tick_count env) timer w;
          (rc1, bs1, w2) = mqttread net (my_socket net) 1 left1 w1
      in do {
        rb1 \<leftarrow> write_block (readbuf c) 0 bs1;
        let c1 = c\<lparr>readbuf := rb1\<rparr>;
        if rc1 \<noteq> 1 then Some (MQTT_FAILURE, c1, w2)
        else let (left2, w3) = mqtt_timer_left_ms (tick_count env) timer w2
          in do {
            (n, rem_len, w4) \<leftarrow> decode_packet net left2 w3;
            let len = 1 + n;
            if len \<le> 1 \<or> word_of_int (int len + rem_len) > readbuf_size c
            then Some (MQTT_READ_ERROR, c1, w4)
            else do {
              (_, rb2) \<leftarrow> mqtt_packet_encode rb1 1 rem_len;
              let c2 = c\<lparr>readbuf := rb2\<rparr>;
              if rem_len > 0 then
                (let (left3, w5) = mqtt_timer_left_ms (tick_count env) timer w4;
                     (rc3, bs3, w6) = mqttread net (my_socket net) rem_len left3 w5
                 in do {
                   rb3 \<leftarrow> write_block rb2 len bs3;
                   let c3 = c\<lparr>readbuf := rb3\<rparr>;
                   if rc3 \<noteq> rem_len then Some (MQTT_READ_ERROR, c3, w6)
                   else do { h \<leftarrow> read_at rb3 0; Some (uint (hdr_type h), c3, w6) } })
              else do { h \<leftarrow> read_at rb2 0; Some (uint (hdr_type h), c2, w4) } } } })"

section \<open>Delivery\<close>

text \<open>
  The condition of the loop of \<^verbatim>\<open>deliver_message\<close>, with the short circuit of \<^verbatim>\<open>||\<close>, and the
  loop over the handler table.
\<close>

definition handler_selected :: "message_handler \<Rightarrow> mqtt_string_t \<Rightarrow> bool option" where
  "handler_selected h topicName =
     (case topicFilter h of
        None \<Rightarrow> Some False
      | Some filt \<Rightarrow>
          do { eq \<leftarrow> mqtt_packet_equals topicName filt;
               if eq then Some True else is_topic_matched filt topicName })"

fun deliver_loop ::
  "'w mqtt_env \<Rightarrow> mqtt_message_data_t \<Rightarrow> message_handler list \<Rightarrow> int \<Rightarrow> 'w \<Rightarrow> (int \<times> 'w) option" where
  "deliver_loop env md [] rc w = Some (rc, w)"
| "deliver_loop env md (h # hs) rc w =
     do { sel \<leftarrow> handler_selected h (md_topic md);
          if sel then
            (case fp h of
               None \<Rightarrow> deliver_loop env md hs rc w
             | Some f \<Rightarrow> deliver_loop env md hs MQTT_SUCCESS (call_handler env f md w))
          else deliver_loop env md hs rc w }"

definition deliver_message ::
  "'w mqtt_env \<Rightarrow> 'w mqtt_client_t \<Rightarrow> mqtt_string_t \<Rightarrow> mqtt_message_t \<Rightarrow> 'w \<Rightarrow> (int \<times> 'w) option" where
  "deliver_message env c topicName message w =
     do { let md = new_message_data topicName message;
          (rc, w1) \<leftarrow> deliver_loop env md (messageHandlers c) MQTT_FAILURE w;
          if rc = MQTT_FAILURE then
            (case defaultMessageHandler c of
               None \<Rightarrow> Some (rc, w1)
             | Some f \<Rightarrow> Some (MQTT_SUCCESS, call_handler env f md w1))
          else Some (rc, w1) }"

section \<open>Keep-alive and the receive cycle\<close>

text \<open>
  The inner conditional of \<^verbatim>\<open>keepalive\<close> on an expired ping timer: count a failure or send a
  ping request. The first component tells whether the connection is given up.
\<close>

definition keepalive_ping :: "'w mqtt_env \<Rightarrow> 'w mqtt_client_t \<Rightarrow> 'w \<Rightarrow> (bool \<times> 'w mqtt_client_t \<times> 'w) option" where
  "keepalive_ping env c w =
     (if ping_outstanding c \<noteq> 0 then
        do { fc \<leftarrow> c_int (fail_count c + 1);
             Some (fc \<ge> MQTT_MAX_FAIL_ALLOWED, c\<lparr>fail_count := fc\<rparr>, w) }
      else
        (let (timer, wt) = mqtt_timer_countdown_ms (tick_count env)
                             (mqtt_timer_init (stack_timer env)) 1000 w;
             c1 = c\<lparr>ping_outstanding := 1\<rparr>
         in do {
           (len, b) \<leftarrow> mqtt_serialize_pingreq (cbuf c1) (sint (buf_size c1));
           let c1' = c1\<lparr>cbuf := b\<rparr>;
           if len > 0 then
             do { (_, c1'', ws) \<leftarrow> send_packet env c1' len timer wt; Some (False, c1'', ws) }
           else Some (False, c1', wt) }))"

definition keepalive :: "'w mqtt_env \<Rightarrow> 'w mqtt_client_t \<Rightarrow> 'w \<Rightarrow> 'w call" where
  "keepalive env c w =
     (if ckeepAliveInterval c = 0 then Some (MQTT_SUCCESS, c, w)
      else let (expired, w1) = mqtt_timer_expired (tick_count env) (ping_timer c) w
        in if \<not> expired then Some (MQTT_SUCCESS, c, w1)
           else do {
             (stop, c2, w2) \<leftarrow> keepalive_ping env c w1;
             if stop then Some (MQTT_DISCONNECTED, c2, w2)
             else let (pt, w3) = mqtt_timer_countdown (tick_count env) (ping_timer c2)
                                   (ckeepAliveInterval c2) w2
               in Some (MQTT_SUCCESS, c2\<lparr>ping_timer := pt\<rparr>, w3) })"

text \<open>
  The message that \<^verbatim>\<open>mqtt_deserialize_publish\<close> fills in; its payload pointer points into the
  read buffer, so the payload is the bytes from it on.
\<close>

definition message_of :: "publish_out \<Rightarrow> byte list \<Rightarrow> mqtt_message_t" where
  "message_of po rb =
     \<lparr>msg_qos = po_qos po, msg_retained = po_retained po, msg_dup = po_dup po,
      msg_id = po_packetid po, msg_payload = drop (po_payload po) rb,
      msg_payloadlen = po_payloadlen po\<rparr>"

text \<open>
  The two cases of the switch in \<^verbatim>\<open>cycle\<close> that answer the peer: the first component of the
  result tells whether the case ends in \<^verbatim>\<open>goto exit\<close>, the second is \<^verbatim>\<open>rc\<close>.
\<close>

definition cycle_publish ::
  "'w mqtt_env \<Rightarrow> 'w mqtt_client_t \<Rightarrow> mqtt_timer_t \<Rightarrow> 'w \<Rightarrow> (bool \<times> int \<times> 'w mqtt_client_t \<times> 'w) option" where
  "cycle_publish env c timer w =
     do { (ok, po) \<leftarrow> mqtt_deserialize_publish (stack_publish env) (readbuf c) (sint (readbuf_size c));
          if ok \<noteq> 1 then Some (True, MQTT_SUCCESS, c, w)
          else do {
            let msg = message_of po (readbuf c);
            (_, w1) \<leftarrow> deliver_message env c (po_topicName po) msg w;
            if msg_qos msg \<noteq> 0 then do {
              (len, b) \<leftarrow>
                (if msg_qos msg = 1
                 then mqtt_serialize_ack (cbuf c) (sint (buf_size c)) MQTTPACKET_PUBACK 0 (msg_id msg)
                 else if msg_qos msg = 2
                 then mqtt_serialize_ack (cbuf c) (sint (buf_size c)) MQTTPACKET_PUBREC 0 (msg_id msg)
                 else Some (0, cbuf c));
              let c1 = c\<lparr>cbuf := b\<rparr>;
              (rc, c2, w2) \<leftarrow> (if len \<le> 0 then Some (MQTT_FAILURE, c1, w1)
                               else send_packet env c1 len timer w1);
              Some (rc = MQTT_FAILURE, rc, c2, w2) }
            else Some (False, MQTT_SUCCESS, c, w1) } }"

definition cycle_pubrec ::
  "'w mqtt_env \<Rightarrow> 'w mqtt_client_t \<Rightarrow> mqtt_timer_t \<Rightarrow> 'w \<Rightarrow> (bool \<times> int \<times> 'w mqtt_client_t \<times> 'w) option" where
  "cycle_pubrec env c timer w =
     do { (ok, ao) \<leftarrow> mqtt_deserialize_ack (stack_ack env) (readbuf c) (sint (readbuf_size c));
          if ok \<noteq> 1 then Some (True, MQTT_FAILURE, c, w)
          else do {
            (len, b) \<leftarrow> mqtt_serialize_ack (cbuf c) (sint (buf_size c)) MQTTPACKET_PUBREL 0 (ao_packetid ao);
            let c1 = c\<lparr>cbuf := b\<rparr>;
            if len \<le> 0 then Some (True, MQTT_FAILURE, c1, w)
            else do {
              (rc, c2, w2) \<leftarrow> send_packet env c1 len timer w;
              if rc \<noteq> MQTT_SUCCESS then Some (True, MQTT_FAILURE, c2, w2)
              else Some (False, rc, c2, w2) } } }"

definition cycle_switch ::
  "'w mqtt_env \<Rightarrow> int \<Rightarrow> 'w mqtt_client_t \<Rightarrow> mqtt_timer_t \<Rightarrow> 'w
     \<Rightarrow> (bool \<times> int \<times> 'w mqtt_client_t \<times> 'w) option" where
  "cycle_switch env packet_type c timer w =
     (if packet_type = uint MQTTPACKET_PUBLISH then cycle_publish env c timer w
      else if packet_type = uint MQTTPACKET_PUBREC then cycle_pubrec env c timer w
      else if packet_type = uint MQTTPACKET_PINGRESP
      then Some (False, MQTT_SUCCESS, c\<lparr>ping_outstanding := 0, fail_count := 0\<rparr>, w)
      else if packet_type = MQTT_READ_ERROR
      then Some (False, MQTT_DISCONNECTED, c\<lparr>isconnected := 0\<rparr>, w)
      else Some (False, MQTT_SUCCESS, c, w))"

definition cycle :: "'w mqtt_env \<Rightarrow> 'w mqtt_client_t \<Rightarrow> mqtt_timer_t \<Rightarrow> 'w \<Rightarrow> 'w call" where
  "cycle env c timer w =
     do { (packet_type, c1, w1) \<leftarrow> read_packet env c timer w;
          (ex, rc, c2, w2) \<leftarrow> cycle_switch env packet_type c1 timer w1;
          (rc', c3, w3) \<leftarrow> (if \<not> ex \<and> isconnected c2 \<noteq> 0 then keepalive env c2 w2 else Some (rc, c2, w2));
          Some (if rc' = MQTT_SUCCESS then packet_type else rc', c3, w3) }"

section \<open>The client interface\<close>

text \<open>
  \<^verbatim>\<open>mqtt_client_new\<close> takes the client as the caller passes it: it sets neither the packet
  identifier nor the keep-alive interval nor the handler functions.
\<close>

definition mqtt_client_new ::
  "'w mqtt_client_t \<Rightarrow> 'w mqtt_network_t \<Rightarrow> u32 \<Rightarrow> byte list \<Rightarrow> u32 \<Rightarrow> byte list \<Rightarrow> u32 \<Rightarrow> 'w mqtt_client_t" where
  "mqtt_client_new c network timeout_ms b b_size rb rb_size =
     c\<lparr>ipstack := network,
       messageHandlers := map (\<lambda>h. h\<lparr>topicFilter := None\<rparr>) (messageHandlers c),
       command_timeout_ms := timeout_ms, cbuf := b, buf_size := b_size,
       readbuf := rb, readbuf_size := rb_size, isconnected := 0, ping_outstanding := 0,
       fail_count := 0, defaultMessageHandler := None, ping_timer := mqtt_timer_init (ping_timer c)\<rparr>"

partial_function (option) yield_loop ::
  "'w mqtt_env \<Rightarrow> 'w mqtt_client_t \<Rightarrow> mqtt_timer_t \<Rightarrow> int \<Rightarrow> 'w \<Rightarrow> 'w call" where
  "yield_loop env c timer rc w =
     (let (expired, w1) = mqtt_timer_expired (tick_count env) timer w
      in if expired then Some (rc, c, w1)
         else do {
           (rc', c2, w2) \<leftarrow> cycle env c timer w1;
           if rc' = MQTT_DISCONNECTED then Some (rc', c2, w2)
           else yield_loop env c2 timer MQTT_SUCCESS w2 })"

declare yield_loop.simps [code]

text \<open>A local timer: initialised and counting down from a number of milliseconds.\<close>

definition local_timer :: "'w mqtt_env \<Rightarrow> u32 \<Rightarrow> 'w \<Rightarrow> mqtt_timer_t \<times> 'w" where
  "local_timer env ms w =
     mqtt_timer_countdown_ms (tick_count env) (mqtt_timer_init (stack_timer env)) ms w"

definition mqtt_yield :: "'w mqtt_env \<Rightarrow> 'w mqtt_client_t \<Rightarrow> int \<Rightarrow> 'w \<Rightarrow> 'w call" where
  "mqtt_yield env c timeout_ms w =
     (let (timer, w1) = local_timer env (word_of_int timeout_ms) w
      in yield_loop env c timer MQTT_SUCCESS w1)"

partial_function (option) waitfor_loop ::
  "'w mqtt_env \<Rightarrow> 'w mqtt_client_t \<Rightarrow> int \<Rightarrow> mqtt_timer_t \<Rightarrow> int \<Rightarrow> 'w \<Rightarrow> 'w call" where
  "waitfor_loop env c packet_type timer rc w =
     (let (expired, w1) = mqtt_timer_expired (tick_count env) timer w
      in if expired then Some (rc, c, w1)
         else do {
           (rc', c2, w2) \<leftarrow> cycle env c timer w1;
           if rc' \<noteq> packet_type then waitfor_loop env c2 packet_type timer rc' w2
           else Some (rc', c2, w2) })"

declare waitfor_loop.simps [code]

definition waitfor :: "'w mqtt_env \<Rightarrow> 'w mqtt_client_t \<Rightarrow> byte \<Rightarrow> mqtt_timer_t \<Rightarrow> 'w \<Rightarrow> 'w call" where
  "waitfor env c packet_type timer w = waitfor_loop env c (uint packet_type) timer MQTT_FAILURE w"

text \<open>
  \<^verbatim>\<open>mqtt_connect\<close>: options \<^term>\<open>None\<close> is the null pointer. The label \<^verbatim>\<open>exit\<close> sets the
  connected flag when the code is 0.
\<close>

definition connect_exit :: "int \<Rightarrow> 'w mqtt_client_t \<Rightarrow> 'w \<Rightarrow> 'w call" where
  "connect_exit rc c w = Some (rc, if rc = MQTT_SUCCESS then c\<lparr>isconnected := 1\<rparr> else c, w)"

definition mqtt_connect ::
  "'w mqtt_env \<Rightarrow> 'w mqtt_client_t \<Rightarrow> mqtt_packet_connect_data_t option \<Rightarrow> 'w \<Rightarrow> 'w call" where
  "mqtt_connect env c options w =
     (let (connect_timer, w1) = local_timer env (command_timeout_ms c) w
      in if isconnected c \<noteq> 0 then connect_exit MQTT_FAILURE c w1
         else let opts = (case options of None \<Rightarrow> mqtt_packet_connect_data_initializer | Some opt \<Rightarrow> opt);
                  c1 = c\<lparr>ckeepAliveInterval := ucast (keepAliveInterval opts)\<rparr>;
                  (pt, w2) = mqtt_timer_countdown (tick_count env) (ping_timer c1) (ckeepAliveInterval c1) w1;
                  c2 = c1\<lparr>ping_timer := pt\<rparr>
           in do {
             (len, b) \<leftarrow> mqtt_serialize_connect (cbuf c2) (sint (buf_size c2)) opts;
             let c3 = c2\<lparr>cbuf := b\<rparr>;
             if len \<le> 0 then connect_exit MQTT_FAILURE c3 w2
             else do {
               (rc, c4, w3) \<leftarrow> send_packet env c3 len connect_timer w2;
               if rc \<noteq> MQTT_SUCCESS then connect_exit rc c4 w3
               else do {
                 (t, c5, w4) \<leftarrow> waitfor env c4 MQTTPACKET_CONNACK connect_timer w3;
                 if t = uint MQTTPACKET_CONNACK then do {
                   (ok, co) \<leftarrow> mqtt_deserialize_connack \<lparr>co_sessionPresent = 0, co_connack_rc = 255\<rparr>
                                (readbuf c5) (sint (readbuf_size c5));
                   connect_exit (if ok = 1 then uint (co_connack_rc co) else MQTT_FAILURE) c5 w4 }
                 else connect_exit MQTT_FAILURE c5 w4 } } })"

text \<open>The loop of \<^verbatim>\<open>mqtt_subscribe\<close> that takes the first free slot of the handler table.\<close>

fun install_handler :: "byte list \<Rightarrow> nat option \<Rightarrow> message_handler list \<Rightarrow> message_handler list option" where
  "install_handler topic handler [] = None"
| "install_handler topic handler (h # hs) =
     (if topicFilter h = None then Some (\<lparr>topicFilter = Some topic, fp = handler\<rparr> # hs)
      else map_option (Cons h) (install_handler topic handler hs))"

definition mqtt_subscribe ::
  "'w mqtt_env \<Rightarrow> 'w mqtt_client_t \<Rightarrow> byte list \<Rightarrow> int \<Rightarrow> nat option \<Rightarrow> 'w \<Rightarrow> 'w call" where
  "mqtt_subscribe env c topic qos handler w =
     (let topicStr = mqtt_string_initializer\<lparr>cstring := Some topic\<rparr>;
          (timer, w1) = local_timer env (command_timeout_ms c) w
      in if isconnected c = 0 then Some (MQTT_FAILURE, c, w1)
         else let (pid, c1) = get_next_packet_id c
           in do {
             (len, b) \<leftarrow> mqtt_serialize_subscribe (cbuf c1) (sint (buf_size c1)) 0 (ucast pid) 1 [topicStr] [qos];
             let c2 = c1\<lparr>cbuf := b\<rparr>;
             if len \<le> 0 then Some (MQTT_FAILURE, c2, w1)
             else do {
               (rc, c3, w2) \<leftarrow> send_packet env c2 len timer w1;
               if rc \<noteq> MQTT_SUCCESS then Some (rc, c3, w2)
               else do {
                 (t, c4, w3) \<leftarrow> waitfor env c3 MQTTPACKET_SUBACK timer w2;
                 if t = uint MQTTPACKET_SUBACK then do {
                   (ok, so) \<leftarrow> mqtt_deserialize_suback
                      \<lparr>so_packetid = ao_packetid (stack_ack env), so_count = 0, so_grantedQoSs = [- 1]\<rparr> 1
                      (readbuf c4) (sint (readbuf_size c4));
                   let rc1 = (if ok = 1 then so_grantedQoSs so ! 0 else rc);
                   if rc1 \<noteq> 0x80 then
                     (case install_handler topic handler (messageHandlers c4) of
                        None \<Rightarrow> Some (rc1, c4, w3)
                      | Some hs \<Rightarrow> Some (0, c4\<lparr>messageHandlers := hs\<rparr>, w3))
                   else Some (rc1, c4, w3) }
                 else Some (MQTT_FAILURE, c4, w3) } } })"

definition mqtt_unsubscribe ::
  "'w mqtt_env \<Rightarrow> 'w mqtt_client_t \<Rightarrow> byte list \<Rightarrow> 'w \<Rightarrow> 'w call" where
  "mqtt_unsubscribe env c filt w =
     (let topic = mqtt_string_initializer\<lparr>cstring := Some filt\<rparr>;
          (timer, w1) = local_timer env (command_timeout_ms c) w
      in if isconnected c = 0 then Some (MQTT_FAILURE, c, w1)
         else let (pid, c1) = get_next_packet_id c
           in do {
             (len, b) \<leftarrow> mqtt_serialize_unsubscribe (cbuf c1) (sint (buf_size c1)) 0 (ucast pid) 1 [topic];
             let c2 = c1\<lparr>cbuf := b\<rparr>;
             if len \<le> 0 then Some (MQTT_FAILURE, c2, w1)
             else do {
               (rc, c3, w2) \<leftarrow> send_packet env c2 len timer w1;
               if rc \<noteq> MQTT_SUCCESS then Some (rc, c3, w2)
               else do {
                 (t, c4, w3) \<leftarrow> waitfor env c3 MQTTPACKET_UNSUBACK timer w2;
                 if t = uint MQTTPACKET_UNSUBACK then do {
                   (ok, _) \<leftarrow> mqtt_deserialize_unsuback (ao_packetid (stack_ack env))
                               (readbuf c4) (sint (readbuf_size c4));
                   Some (if ok = 1 then 0 else rc, c4, w3) }
                 else Some (MQTT_FAILURE, c4, w3) } } })"

text \<open>
  The two acknowledged cases of \<^verbatim>\<open>mqtt_publish\<close>, which differ in the packet waited for; and
  the call itself, which returns the message with the identifier it got.
\<close>

definition publish_wait_ack ::
  "'w mqtt_env \<Rightarrow> 'w mqtt_client_t \<Rightarrow> byte \<Rightarrow> mqtt_timer_t \<Rightarrow> 'w \<Rightarrow> 'w call" where
  "publish_wait_ack env c packet_type timer w =
     do { (t, c1, w1) \<leftarrow> waitfor env c packet_type timer w;
          if t = uint packet_type then do {
            let c2 = c1\<lparr>fail_count := 0\<rparr>;
            (ok, _) \<leftarrow> mqtt_deserialize_ack (stack_ack env) (readbuf c2) (sint (readbuf_size c2));
            Some (if ok \<noteq> 1 then MQTT_FAILURE else MQTT_SUCCESS, c2, w1) }
          else Some (MQTT_FAILURE, c1, w1) }"

definition mqtt_publish ::
  "'w mqtt_env \<Rightarrow> 'w mqtt_client_t \<Rightarrow> byte list \<Rightarrow> mqtt_message_t \<Rightarrow> 'w
     \<Rightarrow> (int \<times> mqtt_message_t \<times> 'w mqtt_client_t \<times> 'w) option" where
  "mqtt_publish env c topic message w =
     (let topicStr = mqtt_string_initializer\<lparr>cstring := Some topic\<rparr>;
          (timer, w1) = local_timer env (command_timeout_ms c) w
      in if isconnected c = 0 then Some (MQTT_FAILURE, message, c, w1)
         else let (message1, c1) =
                    (if msg_qos message = 1 \<or> msg_qos message = 2
                     then let (pid, c') = get_next_packet_id c in (message\<lparr>msg_id := ucast pid\<rparr>, c')
                     else (message, c))
           in do {
             (len, b) \<leftarrow> mqtt_serialize_publish (cbuf c1) (sint (buf_size c1)) 0 (msg_qos message1)
                          (msg_retained message1) (msg_id message1) topicStr (msg_payload message1)
                          (msg_payloadlen message1);
             let c2 = c1\<lparr>cbuf := b\<rparr>;
             if len \<le> 0 then Some (MQTT_FAILURE, message1, c2, w1)
             else do {
               (rc, c3, w2) \<leftarrow> send_packet env c2 len timer w1;
               if rc \<noteq> MQTT_SUCCESS then Some (rc, message1, c3, w2)
               else do {
                 (rc', c4, w3) \<leftarrow>
                   (if msg_qos message1 = 1 then publish_wait_ack env c3 MQTTPACKET_PUBACK timer w2
                    else if msg_qos message1 = 2 then publish_wait_ack env c3 MQTTPACKET_PUBCOMP timer w2
                    else Some (rc, c3, w2));
                 Some (rc', message1, c4, w3) } } })"

definition mqtt_disconnect :: "'w mqtt_env \<Rightarrow> 'w mqtt_client_t \<Rightarrow> 'w \<Rightarrow> 'w call" where
  "mqtt_disconnect env c w =
     do { (len, b) \<leftarrow> mqtt_serialize_disconnect (cbuf c) (sint (buf_size c));
          let c1 = c\<lparr>cbuf := b\<rparr>;
          let (timer, w1) = local_timer env (command_timeout_ms c1) w;
          (rc, c2, w2) \<leftarrow> (if len > 0 then send_packet env c1 len timer w1
                           else Some (MQTT_FAILURE, c1, w1));
          Some (rc, c2\<lparr>isconnected := 0\<rparr>, w2) }"

section \<open>Receiving from a byte stream\<close>

text \<open>
  The documented behaviour of \<^verbatim>\<open>recv\<close> on a connected stream socket, with \<open>inq\<close> the bytes that
  the peer has sent and the client has not read: while there are any, a read returns at least
  one and at most the number asked for, the oldest first. It may return fewer than asked for
  although more have been sent (lwIP hands out one received buffer at a time, and
  \<^verbatim>\<open>MSG_WAITALL\<close> is not implemented). Reading the clock receives nothing.
\<close>

definition stream_net :: "('w \<Rightarrow> byte list) \<Rightarrow> 'w mqtt_env \<Rightarrow> 'w mqtt_network_t \<Rightarrow> bool" where
  "stream_net inq env net \<longleftrightarrow>
     (\<forall>w. inq (snd (tick_count env w)) = inq w) \<and>
     (\<forall>n t w. 0 < n \<longrightarrow> inq w \<noteq> [] \<longrightarrow>
        (\<exists>r w'. 0 < r \<and> r \<le> n \<and> r \<le> length (inq w) \<and>
              mqttread net (my_socket net) (int n) t w = (int r, take r (inq w), w') \<and>
              inq w' = drop r (inq w)))"

lemma stream_net_left:
  assumes "stream_net inq env net"
  obtains l w' where "mqtt_timer_left_ms (tick_count env) timer w = (l, w')" and "inq w' = inq w"
proof -
  obtain now w' where "tick_count env w = (now, w')"
    by fastforce
  with assms that show thesis
    by (auto simp: stream_net_def mqtt_timer_left_ms_def Let_def) (metis snd_conv)
qed

text \<open>A single byte is never read in parts.\<close>

lemma stream_net_byte:
  assumes "stream_net inq env net" and "inq w = b # bs"
  obtains w' where "mqttread net (my_socket net) 1 t w = (1, [b], w')" and "inq w' = bs"
proof -
  obtain r w' where "0 < r" "r \<le> 1" "mqttread net (my_socket net) (int 1) t w = (int r, take r (inq w), w')"
    "inq w' = drop r (inq w)"
    using assms unfolding stream_net_def by (metis less_numeral_extra(1) list.distinct(1))
  moreover from this have "r = 1"
    by simp
  ultimately show thesis
    using assms(2) that by simp
qed

text \<open>
  The one read for the body of a packet: asked for all of it, the network has returned its first
  \<open>r\<close> bytes and left the world \<open>w'\<close>.
\<close>

definition body_read ::
  "('w \<Rightarrow> byte list) \<Rightarrow> 'w mqtt_network_t \<Rightarrow> byte list \<Rightarrow> byte list \<Rightarrow> nat \<Rightarrow> 'w \<Rightarrow> bool" where
  "body_read inq net body rest r w' \<longleftrightarrow>
     0 < r \<and> r \<le> length body \<and> inq w' = drop r body @ rest \<and>
     (\<exists>t w. inq w = body @ rest \<and>
        mqttread net (my_socket net) (int (length body)) t w = (int r, take r body, w'))"

lemma stream_net_body:
  assumes "stream_net inq env net" and "inq w = body @ rest" and "body \<noteq> []"
  obtains r w' where "mqttread net (my_socket net) (int (length body)) t w = (int r, take r body, w')"
    and "body_read inq net body rest r w'"
proof -
  have "0 < length body" "inq w \<noteq> []"
    using assms(2,3) by simp_all
  then obtain r w' where r: "0 < r" "r \<le> length body" 
    "mqttread net (my_socket net) (int (length body)) t w = (int r, take r (inq w), w')" "inq w' = drop r (inq w)"
    using assms(1) unfolding stream_net_def by metis
  show thesis
    by (rule that [of r w']) (use r assms(2) in \<open>auto simp: body_read_def\<close>)
qed

lemma stream_net_source:
  "stream_net inq env net \<Longrightarrow> byte_source (\<lambda>w k. Some (mqttread net (my_socket net) k t w)) inq"
proof
  fix w b bs
  assume "stream_net inq env net" "inq w = b # bs"
  then obtain w' where "mqttread net (my_socket net) 1 t w = (1, [b], w')" "inq w' = bs"
    by (rule stream_net_byte)
  then show "\<exists>s'. Some (mqttread net (my_socket net) 1 t w) = Some (1, [b], s') \<and> inq s' = bs"
    by simp
qed

text \<open>The client's decoder is the packet layer's decoder on the network as a source.\<close>

lemma decode_packet_loop_eq:
  "decode_packet_loop net t len m v w =
     mqtt_packet_decode_loop (\<lambda>w k. Some (mqttread net (my_socket net) k t w)) w len m v"
proof (induction net t len m v w rule: decode_packet_loop.induct)
  case (1 net t len m v w)
  show ?case
    unfolding decode_packet_loop.simps [of net t len m v w]
      mqtt_packet_decode_loop.simps [of "\<lambda>w k. Some (mqttread net (my_socket net) k t w)" w len m v]
    using "1.IH" by (auto simp: Let_def split: list.split prod.split)
qed

lemma decode_packet_stream:
  assumes "stream_net inq env net" and "n < 128 ^ 4" and "inq w = rl_bytes n @ ys"
  obtains w' where "decode_packet net t w = Some (length (rl_bytes n), int n, w')" and "inq w' = ys"
  using byte_source.decode_loop [OF stream_net_source [OF assms(1)], of n 0 w ys t 1 0] assms that
  by (auto simp: decode_packet_def decode_packet_loop_eq)

text \<open>
  Header and length are read byte by byte; the body by one read, and the packet is accepted
  exactly if that returns all of it.
\<close>

lemma read_packet_stream:
  assumes "stream_net inq env (ipstack c)" and "length body < 128 ^ 4" and "body \<noteq> []"
    and "inq w = (h # rl_bytes (length body) @ body) @ rest"
    and "1 + length (rl_bytes (length body)) + length body \<le> length (readbuf c)"
    and "1 + length (rl_bytes (length body)) + length body \<le> unat (readbuf_size c)"
  obtains r w' where "body_read inq (ipstack c) body rest r w'"
    and "read_packet env c timer w =
       Some (if r = length body then uint (hdr_type h) else MQTT_READ_ERROR,
             c\<lparr>readbuf := lay (readbuf c) (h # rl_bytes (length body) @ take r body)\<rparr>, w')"
proof -
  define n where "n = length body"
  let ?net = "ipstack c" and ?rl = "rl_bytes n" and ?rb = "readbuf c"
  note a = assms(2,4-6) [folded n_def]
  obtain l1 w1 where w1: "mqtt_timer_left_ms (tick_count env) timer w = (l1, w1)" "inq w1 = inq w"
    using stream_net_left [OF assms(1)] by blast
  obtain w2 where w2: "mqttread ?net (my_socket ?net) 1 l1 w1 = (1, [h], w2)" "inq w2 = ?rl @ body @ rest"
    using stream_net_byte [OF assms(1), of w1 h "?rl @ body @ rest" l1] w1 a(2) by auto
  obtain l2 w3 where w3: "mqtt_timer_left_ms (tick_count env) timer w2 = (l2, w3)" "inq w3 = inq w2"
    using stream_net_left [OF assms(1)] by blast
  obtain w4 where w4: "decode_packet ?net l2 w3 = Some (length ?rl, int n, w4)" "inq w4 = body @ rest"
    using decode_packet_stream [OF assms(1) a(1), of w3] w3 w2 by auto
  obtain l3 w5 where w5: "mqtt_timer_left_ms (tick_count env) timer w4 = (l3, w5)" "inq w5 = inq w4"
    using stream_net_left [OF assms(1)] by blast
  obtain r w6 where w6: "mqttread ?net (my_socket ?net) (int n) l3 w5 = (int r, take r body, w6)"
    and br: "body_read inq ?net body rest r w6"
    using stream_net_body [OF assms(1), of w5 body rest l3] w5 w4 assms(3) unfolding n_def by auto
  from br have r: "r \<le> n" "0 < n"
    using assms(3) by (auto simp: body_read_def n_def)
  have b1: "write_block ?rb 0 [h] = Some (lay ?rb [h])"
    using write_block_lay [of "[]" "[h]" ?rb] a(3) by simp
  have b2: "mqtt_packet_encode (lay ?rb [h]) (Suc 0) (int n) = Some (length ?rl, lay ?rb (h # ?rl))"
    using mqtt_packet_encode_eq [of "[h]" n ?rb] a(3) by simp
  have b3: "write_block (lay ?rb (h # ?rl)) (Suc (length ?rl)) (take r body) = Some (lay ?rb (h # ?rl @ take r body))"
    using write_block_lay [of "h # ?rl" "take r body" ?rb] r a(3) by (simp add: n_def)
  have fit: "\<not> word_of_int (int (Suc (length ?rl)) + int n) > readbuf_size c"
  proof -
    have "int (Suc (length ?rl)) + int n = int (1 + length ?rl + n)" by simp
    moreover have "(of_nat (1 + length ?rl + n) :: u32) \<le> readbuf_size c"
      using a(4) by (simp add: word_le_nat_alt unat_of_nat le_trans [OF mod_less_eq_dividend] del: of_nat_Suc of_nat_add)
    ultimately show ?thesis
      by (metis not_less of_int_of_nat_eq)
  qed
  have h: "read_at (lay ?rb (h # zs)) 0 = Some h" for zs
    by (simp add: lay_def)
  have "read_packet env c timer w =
      Some (if r = n then uint (hdr_type h) else MQTT_READ_ERROR, c\<lparr>readbuf := lay ?rb (h # ?rl @ take r body)\<rparr>, w6)"
    using w1(1) w2(1) w3(1) w4(1) w5(1) w6 b1 b2 b3 fit h [of "?rl @ take r body"] h [of "?rl @ take n body"] r
      rl_bytes_length_pos [of n]
    by (cases "r = n") (simp_all add: read_packet_def Let_def)
  with that br show thesis
    by (simp add: n_def)
qed

section \<open>Sending to a byte stream\<close>

text \<open>
  The documented behaviour of a write on a stream socket: an error code, or the number of bytes taken,
  at least one and at most the number offered.
\<close>

definition stream_out :: "('w \<Rightarrow> byte list) \<Rightarrow> 'w mqtt_env \<Rightarrow> 'w mqtt_network_t \<Rightarrow> bool" where
  "stream_out outq env net \<longleftrightarrow>
     (\<forall>w. outq (snd (tick_count env w)) = outq w) \<and>
     (\<forall>bs t w. bs \<noteq> [] \<longrightarrow>
        (\<exists>rc w'. mqttwrite net (my_socket net) bs t w = (rc, w') \<and>
           (rc < 0 \<and> outq w' = outq w \<or>
            0 < rc \<and> rc \<le> int (length bs) \<and> outq w' = outq w @ take (nat rc) bs)))"

lemma stream_out_left:
  assumes "stream_out outq env net"
  obtains l w' where "mqtt_timer_left_ms (tick_count env) timer w = (l, w')" and "outq w' = outq w"
proof -
  obtain now w' where "tick_count env w = (now, w')"
    by fastforce
  with assms that show thesis
    by (auto simp: stream_out_def mqtt_timer_left_ms_def Let_def) (metis snd_conv)
qed

lemma stream_out_expired:
  assumes "stream_out outq env net"
  obtains e w' where "mqtt_timer_expired (tick_count env) timer w = (e, w')" and "outq w' = outq w"
proof -
  obtain now w' where "tick_count env w = (now, w')"
    by fastforce
  with assms that show thesis
    by (auto simp: stream_out_def mqtt_timer_expired_def Let_def) (metis snd_conv)
qed

text \<open>A write that always gets through before the timer runs out.\<close>

definition sends_through :: "'w mqtt_env \<Rightarrow> 'w mqtt_network_t \<Rightarrow> mqtt_timer_t \<Rightarrow> bool" where
  "sends_through env net timer \<longleftrightarrow>
     (\<forall>w. \<not> fst (mqtt_timer_expired (tick_count env) timer w)) \<and>
     (\<forall>bs t w. bs \<noteq> [] \<longrightarrow> 0 < fst (mqttwrite net (my_socket net) bs t w))"

lemma send_packet_loop_stream:
  assumes "stream_out outq env (ipstack c)" and "len \<le> length (cbuf c)" and "len < 2 ^ 31" and "sent \<le> len"
  shows "\<exists>k w'. send_packet_loop env c (int len) timer (int sent) w = Some (int k, w') \<and>
     sent \<le> k \<and> k \<le> len \<and> (sends_through env (ipstack c) timer \<longrightarrow> k = len) \<and>
     outq w' = outq w @ block_at sent (k - sent) (cbuf c)"
  using assms(4)
proof (induction "len - sent" arbitrary: sent w rule: less_induct)
  case less
  show ?case
  proof (cases "sent < len")
    case False
    with less.prems have "sent = len" by simp
    then show ?thesis
      by (intro exI [of _ len] exI [of _ w]) (simp add: send_packet_loop.simps block_at_def)
  next
    case True
    obtain e w1 where w1: "mqtt_timer_expired (tick_count env) timer w = (e, w1)" "outq w1 = outq w"
      using stream_out_expired [OF assms(1)] by blast
    obtain l w2 where w2: "mqtt_timer_left_ms (tick_count env) timer w1 = (l, w2)" "outq w2 = outq w1"
      using stream_out_left [OF assms(1)] by blast
    let ?bs = "block_at sent (len - sent) (cbuf c)"
    have bs: "length ?bs = len - sent" "?bs \<noteq> []"
      using True assms(2) by (auto simp: block_at_def)
    obtain rc w3 where w3: "mqttwrite (ipstack c) (my_socket (ipstack c)) ?bs l w2 = (rc, w3)"
      and rc: "rc < 0 \<and> outq w3 = outq w2 \<or>
        0 < rc \<and> rc \<le> int (length ?bs) \<and> outq w3 = outq w2 @ take (nat rc) ?bs"
      using assms(1) bs(2) unfolding stream_out_def by metis
    have step: "send_packet_loop env c (int len) timer (int sent) w =
        (if e then Some (int sent, w1) else if rc < 0 then Some (int sent, w3)
         else case c_int (int sent + rc) of None \<Rightarrow> None
           | Some s' \<Rightarrow> send_packet_loop env c (int len) timer s' w3)"
      using True assms(2) w1(1) w2(1) w3
      by (subst send_packet_loop.simps) (simp add: nat_diff_distrib' Let_def)
    show ?thesis
    proof (cases "e \<or> rc < 0")
      case True
      have b0: "block_at sent (sent - sent) (cbuf c) = []"
        by (simp add: block_at_def)
      have "\<not> sends_through env (ipstack c) timer"
      proof
        assume "sends_through env (ipstack c) timer"
        then have "\<not> fst (mqtt_timer_expired (tick_count env) timer w)"
          "0 < fst (mqttwrite (ipstack c) (my_socket (ipstack c)) ?bs l w2)"
          using bs(2) unfolding sends_through_def by blast+
        with True w1(1) w3 show False
          by auto
      qed
      with True rc w1 w2 step less.prems b0 show ?thesis
        by (cases e) auto
    next
      case False
      define r where "r = nat rc"
      with False rc have r: "rc = int r" "0 < r" "r \<le> len - sent" "outq w3 = outq w2 @ take r ?bs"
        using bs(1) by auto
      have c: "c_int (int sent + rc) = Some (int (sent + r))"
        using r True assms(3) by (simp add: c_int_def)
      have lt: "len - (sent + r) < len - sent" and le: "sent + r \<le> len"
        using r True by arith+
      obtain k w' where k: "send_packet_loop env c (int len) timer (int (sent + r)) w3 = Some (int k, w')"
        "sent + r \<le> k" "k \<le> len" "sends_through env (ipstack c) timer \<longrightarrow> k = len"
        "outq w' = outq w3 @ block_at (sent + r) (k - (sent + r)) (cbuf c)"
        using less.hyps [OF lt le, of w3] by blast
      have "take r ?bs @ block_at (sent + r) (k - (sent + r)) (cbuf c) = block_at sent (k - sent) (cbuf c)"
      proof -
        have "k - sent = r + (k - (sent + r))" "take r ?bs = block_at sent r (cbuf c)"
          using k(2) r(3) by (auto simp: block_at_def min_def)
        then show ?thesis
          by (simp add: block_at_def take_add add.commute)
      qed
      then show ?thesis
        using step False c k r w1 w2 by auto
    qed
  qed
qed

text \<open>The part of the client that sending and the keep-alive do not touch.\<close>

lemma send_packet_stream:
  assumes "stream_out outq env (ipstack c)" and "len \<le> length (cbuf c)" and "len < 2 ^ 31"
  shows "\<exists>k pt w'. k \<le> len \<and> (sends_through env (ipstack c) timer \<longrightarrow> k = len) \<and>
     outq w' = outq w @ take k (cbuf c) \<and>
     send_packet env c (int len) timer w =
       Some (if k = len then MQTT_SUCCESS else MQTT_FAILURE, c\<lparr>ping_timer := pt\<rparr>, w')"
proof -
  obtain k w1 where k: "send_packet_loop env c (int len) timer 0 w = Some (int k, w1)" "k \<le> len"
    "sends_through env (ipstack c) timer \<longrightarrow> k = len" "outq w1 = outq w @ take k (cbuf c)"
    using send_packet_loop_stream [OF assms, of 0 timer w] by (auto simp: block_at_def)
  obtain now w2 where w2: "tick_count env w1 = (now, w2)"
    by fastforce
  from this assms(1) have out: "outq w2 = outq w1"
    unfolding stream_out_def by (metis snd_conv)
  from w2 obtain pt where pt: "mqtt_timer_countdown (tick_count env) (ping_timer c) (ckeepAliveInterval c) w1 = (pt, w2)"
    by (simp add: mqtt_timer_countdown_def mqtt_timer_countdown_ms_def)
  show ?thesis
  proof (cases "k = len")
    case True
    with k pt out show ?thesis
      by (intro exI [of _ k] exI [of _ pt] exI [of _ w2]) (simp add: send_packet_def)
  next
    case False
    with k show ?thesis
      by (intro exI [of _ k] exI [of _ "ping_timer c"] exI [of _ w1]) (simp add: send_packet_def)
  qed
qed

lemma send_ack_stream:
  assumes "stream_out outq env (ipstack c)" and "4 \<le> length (cbuf c)" and "length ack = 4"
  shows "\<exists>k pt w'. k \<le> 4 \<and> (sends_through env (ipstack c) timer \<longrightarrow> k = 4) \<and>
     outq w' = outq w @ take k ack \<and>
     send_packet env (c\<lparr>cbuf := lay (cbuf c) ack\<rparr>) 4 timer w =
       Some (if k = 4 then MQTT_SUCCESS else MQTT_FAILURE, c\<lparr>cbuf := lay (cbuf c) ack, ping_timer := pt\<rparr>, w')"
proof -
  let ?c = "c\<lparr>cbuf := lay (cbuf c) ack\<rparr>"
  have "length (cbuf ?c) = length (cbuf c)" "stream_out outq env (ipstack ?c)" "ipstack ?c = ipstack c"
    using assms by simp_all
  with send_packet_stream [of outq env ?c 4 timer w] assms(2) obtain k pt w' where
    "k \<le> 4" "sends_through env (ipstack c) timer \<longrightarrow> k = 4" "outq w' = outq w @ take k (cbuf ?c)"
    "send_packet env ?c 4 timer w = Some (if k = 4 then MQTT_SUCCESS else MQTT_FAILURE, ?c\<lparr>ping_timer := pt\<rparr>, w')"
    by auto
  moreover have "take k (cbuf ?c) = take k ack"
    using \<open>k \<le> 4\<close> assms(3) by (simp add: lay_def)
  ultimately show ?thesis
    by (intro exI [of _ k] exI [of _ pt] exI [of _ w']) (simp only: simp_thms)
qed

section \<open>Delivery to the handlers\<close>

lemma strncmp_eq_iff:
  "length a = length b \<Longrightarrow> 0 \<notin> set b \<Longrightarrow> strncmp_eq (length b) (a @ junk) (b @ [0]) = Some (a = b)"
  by (induction a b rule: list_induct2) auto

lemma filter_match_refl: "filter_ok fs \<Longrightarrow> filter_match fs fs"
  by (induction fs) auto

lemma mqtt_packet_equals_eq:
  assumes "topic_is topicName name" and "0 \<notin> set filt"
  shows "mqtt_packet_equals topicName filt = Some (name = filt)"
  using assms(1)
proof (cases rule: topic_isE)
  case (1 junk)
  then show ?thesis
    using strncmp_eq_iff [of name filt junk] assms(2)
    by (auto simp: mqtt_packet_equals_def strlen_def)
qed

text \<open>A handler table whose filters are in the correct format and are C strings.\<close>

definition handlers_ok :: "message_handler list \<Rightarrow> bool" where
  "handlers_ok hs \<longleftrightarrow>
     (\<forall>h \<in> set hs. case topicFilter h of None \<Rightarrow> True | Some filt \<Rightarrow> 0 \<notin> set filt \<and> filter_ok (levels filt))"

text \<open>The functions of the slots whose filter matches a name, in the order of the table.\<close>

fun receivers :: "message_handler list \<Rightarrow> byte list \<Rightarrow> nat list" where
  "receivers [] name = []"
| "receivers (h # hs) name =
     (case (topicFilter h, fp h) of
        (Some filt, Some f) \<Rightarrow>
          (if filter_match (levels filt) (levels name) then f # receivers hs name else receivers hs name)
      | _ \<Rightarrow> receivers hs name)"

lemma handler_selected_eq:
  assumes "topic_is topicName name" and "handlers_ok [h]"
  shows "handler_selected h topicName =
     Some (case topicFilter h of None \<Rightarrow> False | Some filt \<Rightarrow> filter_match (levels filt) (levels name))"
proof (cases "topicFilter h")
  case (Some filt)
  with assms(2) have "0 \<notin> set filt" "filter_ok (levels filt)"
    by (simp_all add: handlers_ok_def)
  with Some assms(1) show ?thesis
    by (auto simp: handler_selected_def mqtt_packet_equals_eq is_topic_matched_eq filter_match_refl)
qed (simp add: handler_selected_def)

lemma deliver_loop_eq:
  assumes "handlers_ok hs" and "topic_is (md_topic md) name"
  shows "deliver_loop env md hs rc w =
     Some (if receivers hs name = [] then rc else MQTT_SUCCESS,
           fold (\<lambda>f. call_handler env f md) (receivers hs name) w)"
  using assms(1)
proof (induction hs arbitrary: rc w)
  case (Cons h hs)
  then have "handlers_ok [h]" "handlers_ok hs"
    by (simp_all add: handlers_ok_def)
  with Cons.IH handler_selected_eq [OF assms(2)] show ?case
    by (auto split: option.split)
qed simp

text \<open>Who gets a message: the matching slots, or the default handler when there is none.\<close>

definition recipients :: "'w mqtt_client_t \<Rightarrow> byte list \<Rightarrow> nat list" where
  "recipients c name =
     (if receivers (messageHandlers c) name = []
      then (case defaultMessageHandler c of None \<Rightarrow> [] | Some f \<Rightarrow> [f])
      else receivers (messageHandlers c) name)"

lemma deliver_message_eq:
  assumes "handlers_ok (messageHandlers c)" and "topic_is topicName name"
  shows "deliver_message env c topicName message w =
     Some (if recipients c name = [] then MQTT_FAILURE else MQTT_SUCCESS,
           fold (\<lambda>f. call_handler env f \<lparr>md_topic = topicName, md_message = message\<rparr>) (recipients c name) w)"
  using deliver_loop_eq [OF assms(1), of "\<lparr>md_topic = topicName, md_message = message\<rparr>" name env
      MQTT_FAILURE w] assms(2)
  by (auto simp: deliver_message_def new_message_data_def recipients_def split: option.split)

section \<open>The receive cycle\<close>

text \<open>
  How a cycle that has handled a publish packet ends: without a connection with the type of the
  packet, otherwise with the keep-alive, whose failure replaces the type.
\<close>

definition keepalive_verdict :: "'w mqtt_env \<Rightarrow> 'w mqtt_client_t \<Rightarrow> 'w \<Rightarrow> 'w call" where
  "keepalive_verdict env c w =
     (if isconnected c = 0 then Some (uint MQTTPACKET_PUBLISH, c, w)
      else do { (rc, c', w') \<leftarrow> keepalive env c w;
                Some (if rc = MQTT_SUCCESS then uint MQTTPACKET_PUBLISH else rc, c', w') })"

lemma cycle_verdict:
  assumes "read_packet env c timer w = Some (uint MQTTPACKET_PUBLISH, c1, w1)"
    and "cycle_publish env c1 timer w1 = Some (ex, rc, c2, w2)" and "\<not> ex \<longrightarrow> rc = MQTT_SUCCESS"
    and "ex \<longrightarrow> rc \<noteq> MQTT_SUCCESS"
  shows "cycle env c timer w = (if ex then Some (rc, c2, w2) else keepalive_verdict env c2 w2)"
  using assms(3,4) unfolding cycle_def assms(1) Option.bind.simps prod.case
  by (cases ex) (simp_all add: cycle_switch_def assms(2) keepalive_verdict_def)

lemma cycle_read_error:
  assumes "read_packet env c timer w = Some (MQTT_READ_ERROR, c1, w1)"
  shows "cycle env c timer w = Some (MQTT_DISCONNECTED, c1\<lparr>isconnected := 0\<rparr>, w1)"
  unfolding cycle_def assms Option.bind.simps prod.case
  by (simp add: cycle_switch_def)

text \<open>The keep-alive returns: it finds the time not yet come, sends a ping request or gives up.\<close>

lemma mqtt_serialize_pingreq_eq:
  assumes "length b = nat buflen"
  shows "mqtt_serialize_pingreq b buflen =
     Some (if buflen < 2 then (MQTTPACKET_BUFFER_TOO_SHORT, b)
           else (2, lay b [hdr_set_type MQTTPACKET_PINGREQ 0, 0]))"
proof -
  have "rl_bytes 0 = [0]"
    by (simp add: rl_bytes.simps)
  then have "wc_encode (wcur_at b [hdr_set_type MQTTPACKET_PINGREQ 0]) 0 =
      Some (wcur_at b [hdr_set_type MQTTPACKET_PINGREQ 0, 0])" if "2 \<le> length b"
    using wc_encode_at [of "[hdr_set_type MQTTPACKET_PINGREQ 0]" 0 b] that by simp
  with assms show ?thesis
    by (auto simp: mqtt_serialize_pingreq_def mqtt_serialize_zero_def buf_simps)
qed

lemma keepalive_returns:
  assumes "stream_out outq env (ipstack c)" and "length (cbuf c) = nat (sint (buf_size c))"
    and "- (2 ^ 31) \<le> fail_count c + 1" and "fail_count c + 1 < 2 ^ 31"
  shows "\<exists>rc c' w'. keepalive env c w = Some (rc, c', w') \<and> (rc = MQTT_SUCCESS \<or> rc = MQTT_DISCONNECTED)"
proof -
  let ?c1 = "c\<lparr>ping_outstanding := 1, cbuf := lay (cbuf c) [hdr_set_type MQTTPACKET_PINGREQ 0, 0]\<rparr>"
  have f: "c_int (fail_count c + 1) = Some (fail_count c + 1)"
    using assms(3,4) by (simp add: c_int_def)
  have s: "\<exists>rc c' w'. send_packet env ?c1 2 t u = Some (rc, c', w')" if "2 \<le> length (cbuf c)" for t u
    using send_packet_stream [of outq env ?c1 2 t u] assms(1) that by (auto simp: lay_def)
  have p: "\<exists>stop c' w'. keepalive_ping env c u = Some (stop, c', w')" for u
  proof (cases "ping_outstanding c = 0 \<and> \<not> sint (buf_size c) < 2")
    case True
    then obtain rc c' w' where "send_packet env ?c1 2
        (fst (mqtt_timer_countdown_ms (tick_count env) (mqtt_timer_init (stack_timer env)) 1000 u))
        (snd (mqtt_timer_countdown_ms (tick_count env) (mqtt_timer_init (stack_timer env)) 1000 u)) = Some (rc, c', w')"
      using s assms(2) by (metis linorder_not_less nat_mono nat_numeral)
    with True assms(2) show ?thesis
      by (auto simp: keepalive_ping_def mqtt_serialize_pingreq_eq split_beta)
  next
    case False
    with f assms(2) show ?thesis
      by (auto simp: keepalive_ping_def mqtt_serialize_pingreq_eq split_beta)
  qed
  obtain stop c' w' where "keepalive_ping env c (snd (mqtt_timer_expired (tick_count env) (ping_timer c) w)) =
      Some (stop, c', w')"
    using p by blast
  then show ?thesis
    by (cases stop) (simp_all add: keepalive_def split_beta)
qed

lemma verdict_returns:
  assumes "stream_out outq env (ipstack c)" and "length (cbuf c) = nat (sint (buf_size c))"
    and "0 \<le> fail_count c" and "fail_count c + 1 < 2 ^ 31"
  shows "\<exists>rc c' w'. keepalive_verdict env c w = Some (rc, c', w') \<and> (rc = 3 \<or> rc = MQTT_DISCONNECTED)"
proof -
  obtain rc c' w' where "keepalive env c w = Some (rc, c', w')" "rc = MQTT_SUCCESS \<or> rc = MQTT_DISCONNECTED"
    using keepalive_returns [of outq env c w] assms by auto
  then show ?thesis
    by (auto simp: keepalive_verdict_def)
qed

lemma publish_wire_read:
  assumes "stream_net inq env (ipstack c)"
    and "length (publish_body qos pid topic payload) < 128 ^ 4"
    and "inq w = publish_wire dup qos retained pid topic payload @ rest"
    and "length (publish_wire dup qos retained pid topic payload) \<le> length (readbuf c)"
    and "length (publish_wire dup qos retained pid topic payload) \<le> unat (readbuf_size c)"
  obtains (short) r w' rb where "r < length (publish_body qos pid topic payload)"
      and "body_read inq (ipstack c) (publish_body qos pid topic payload) rest r w'"
      and "read_packet env c timer w = Some (MQTT_READ_ERROR, c\<lparr>readbuf := rb\<rparr>, w')"
  | (full) w' where "body_read inq (ipstack c) (publish_body qos pid topic payload) rest
          (length (publish_body qos pid topic payload)) w'"
      and "read_packet env c timer w = Some (uint MQTTPACKET_PUBLISH,
          c\<lparr>readbuf := lay (readbuf c) (publish_wire dup qos retained pid topic payload)\<rparr>, w')"
proof -
  let ?body = "publish_body qos pid topic payload"
  have "?body \<noteq> []"
    by (simp add: publish_body_def str_wire_def be16_def)
  then obtain r w' where br: "body_read inq (ipstack c) ?body rest r w'" and
    rd: "read_packet env c timer w =
       Some (if r = length ?body then uint (hdr_type (publish_header dup qos retained)) else MQTT_READ_ERROR,
             c\<lparr>readbuf := lay (readbuf c)
                 (publish_header dup qos retained # rl_bytes (length ?body) @ take r ?body)\<rparr>, w')"
    using read_packet_stream [OF assms(1,2), of w "publish_header dup qos retained" rest timer thesis] assms(3-5)
    by (auto simp: publish_wire_def Let_def)
  from br have "r \<le> length ?body"
    by (simp add: body_read_def)
  then consider "r < length ?body" | "r = length ?body"
    by linarith
  then show thesis
  proof cases
    case 1
    with br rd short show thesis
      by simp
  next
    case 2
    with br rd full show thesis
      by (simp add: publish_wire_def Let_def publish_header_fields)
  qed
qed

text \<open>The message a client hands to its handlers for a packet: the fields the packet was made from.\<close>

definition message_ok ::
  "byte \<Rightarrow> int \<Rightarrow> byte \<Rightarrow> u16 \<Rightarrow> byte list \<Rightarrow> mqtt_message_t \<Rightarrow> bool" where
  "message_ok dup qos retained pid payload msg \<longleftrightarrow>
     msg_dup msg = take_bit 1 dup \<and> msg_qos msg = qos \<and> msg_retained msg = take_bit 1 retained \<and>
     (qos > 0 \<longrightarrow> msg_id msg = pid) \<and> msg_payloadlen msg = int (length payload) \<and>
     take (length payload) (msg_payload msg) = payload"

lemma publish_received:
  assumes "0 \<le> qos" "qos < 4" and "length (publish_body qos pid topic payload) < 128 ^ 4"
    and "length (str_payload topic) < 65536"
  obtains po where "mqtt_deserialize_publish out (lay rb (publish_wire dup qos retained pid topic payload)) buflen = Some (1, po)"
    and "topic_is (po_topicName po) (str_payload topic)"
    and "message_ok dup qos retained pid payload
           (message_of po (lay rb (publish_wire dup qos retained pid topic payload)))"
proof -
  let ?wire = "publish_wire dup qos retained pid topic payload"
  have "lay rb ?wire = ?wire @ drop (length ?wire) rb"
    by (simp add: lay_def)
  then show thesis
    using mqtt_deserialize_publish_eq [OF assms, of "lay rb ?wire" dup retained _ out buflen thesis] that
    by (auto simp: publish_out_ok_def topic_is_def message_ok_def message_of_def block_at_def)
qed

section \<open>What the operations keep\<close>

lemma write_at_keeps: "write_at b i x = Some b' \<Longrightarrow> length b' = length b"
  by (auto simp: write_at_def split: if_splits)

lemma write_block_keeps: "write_block b i xs = Some b' \<Longrightarrow> length b' = length b"
  by (auto simp: write_block_def split: if_splits)

lemma mqtt_packet_encode_loop_keeps:
  "mqtt_packet_encode_loop b pos rc n = Some (k, b') \<Longrightarrow> length b' = length b"
proof (induction b pos rc n rule: mqtt_packet_encode_loop.induct)
  case (1 b pos rc n)
  let ?d = "if 0 < n sdiv 128 then word_of_int (n smod 128) OR 0x80 else word_of_int (n smod 128)"
  obtain b1 where b1: "write_at b (pos + rc) ?d = Some b1"
    using "1.prems" unfolding mqtt_packet_encode_loop.simps [of b pos rc n]
    by (auto simp: Let_def split: option.splits)
  then have "(if 0 < n sdiv 128 then mqtt_packet_encode_loop b1 pos (Suc rc) (n sdiv 128)
      else Some (Suc rc, b1)) = Some (k, b')"
    using "1.prems" unfolding mqtt_packet_encode_loop.simps [of b pos rc n] by (simp add: Let_def)
  then show ?case
    using "1.IH" [OF refl refl refl b1] write_at_keeps [OF b1] by (auto split: if_splits)
qed

lemma mqtt_packet_encode_keeps:
  "mqtt_packet_encode b pos n = Some (k, b') \<Longrightarrow> length b' = length b"
  by (simp add: mqtt_packet_encode_def mqtt_packet_encode_loop_keeps)

text \<open>Writers keep the size of the buffer, and so do sequences of them.\<close>

definition keeps :: "(wcur \<Rightarrow> wcur option) \<Rightarrow> bool" where
  "keeps f \<longleftrightarrow> (\<forall>w w'. f w = Some w' \<longrightarrow> length (wc_buf w') = length (wc_buf w))"

definition keeps_ret :: "(wcur \<Rightarrow> (int \<times> byte list) option) \<Rightarrow> bool" where
  "keeps_ret f \<longleftrightarrow> (\<forall>w rc b. f w = Some (rc, b) \<longrightarrow> length b = length (wc_buf w))"

lemma keeps_Some: "keeps Some"
  by (simp add: keeps_def)

lemma keeps_bind: "keeps f \<Longrightarrow> keeps g \<Longrightarrow> keeps (\<lambda>w. f w \<bind> g)"
  by (fastforce simp: keeps_def bind_eq_Some_conv)

lemma keeps_if: "keeps f \<Longrightarrow> keeps g \<Longrightarrow> keeps (\<lambda>w. if P then f w else g w)"
  by (cases P) simp_all

lemma keeps_ret_bind: "keeps f \<Longrightarrow> keeps_ret g \<Longrightarrow> keeps_ret (\<lambda>w. f w \<bind> g)"
  by (fastforce simp: keeps_def keeps_ret_def bind_eq_Some_conv)

lemma keeps_ret_Some: "keeps_ret (\<lambda>w. Some (int (wc_pos w), wc_buf w))"
  by (simp add: keeps_ret_def)

lemma keeps_char: "keeps (\<lambda>w. mqtt_write_char w c)"
  by (auto simp: keeps_def mqtt_write_char_def split: option.splits dest: write_at_keeps)

lemma keeps_int: "keeps (\<lambda>w. mqtt_write_int w n)"
  unfolding mqtt_write_int_def by (intro keeps_bind keeps_char)

lemma keeps_memcpy: "keeps (\<lambda>w. wc_memcpy w src n)"
  by (auto simp: keeps_def wc_memcpy_def split: option.splits if_splits dest: write_block_keeps)

lemma keeps_encode: "keeps (\<lambda>w. wc_encode w n)"
  by (auto simp: keeps_def wc_encode_def split: option.splits dest: mqtt_packet_encode_keeps)

lemma keeps_cstr: "keeps (\<lambda>w. mqtt_write_cstr w s)"
  unfolding mqtt_write_cstr_def Let_def by (intro keeps_bind keeps_int keeps_memcpy)

lemma keeps_str: "keeps (\<lambda>w. mqtt_write_mqqt_str w s)"
proof (cases "lenstring_len s > 0")
  case True
  have "keeps (\<lambda>w. lenstring_data s \<bind> (\<lambda>d. wc_memcpy w d (lenstring_len s)))"
    using keeps_memcpy by (cases "lenstring_data s") (auto simp: keeps_def)
  with True show ?thesis
    unfolding mqtt_write_mqqt_str_def by (simp add: keeps_bind keeps_int)
next
  case False
  then show ?thesis
    unfolding mqtt_write_mqqt_str_def by (cases "cstring s") (simp_all add: keeps_int keeps_cstr)
qed

lemma keeps_subscribe_loop: "keeps (\<lambda>w. subscribe_write_loop w n ts qs)"
proof (induction n arbitrary: ts qs)
  case (Suc n)
  then show ?case
    by (cases ts; cases qs) (simp_all add: keeps_bind keeps_str keeps_char, simp_all add: keeps_def)
qed (simp add: keeps_def)

lemma keeps_unsubscribe_loop: "keeps (\<lambda>w. unsubscribe_write_loop w n ts)"
proof (induction n arbitrary: ts)
  case (Suc n)
  then show ?case
    by (cases ts) (simp_all add: keeps_bind keeps_str, simp add: keeps_def)
qed (simp add: keeps_def)

lemmas keeps_intros = keeps_ret_bind keeps_ret_Some keeps_if keeps_bind keeps_Some keeps_char keeps_int
  keeps_memcpy keeps_encode keeps_cstr keeps_str keeps_subscribe_loop keeps_unsubscribe_loop

lemma packet_keeps:
  "mqtt_write_char \<lparr>wc_buf = b, wc_pos = 0\<rparr> c \<bind> g = Some (rc, b') \<Longrightarrow> keeps_ret g \<Longrightarrow> length b' = length b"
  using keeps_ret_bind [OF keeps_char, of g c] by (fastforce simp: keeps_ret_def)

lemma checked_packet_keeps:
  assumes "do { l \<leftarrow> A; need \<leftarrow> B l; if need > n then Some (x, b) else G l } = Some (rc :: int, b')"
    and "\<And>l. G l = Some (rc, b') \<Longrightarrow> length b' = length b"
  shows "length b' = length b"
  using assms by (auto simp: bind_eq_Some_conv split: if_splits)

lemma serialize_zero_keeps:
  "mqtt_serialize_zero b n t = Some (rc, b') \<Longrightarrow> length b' = length b"
  unfolding mqtt_serialize_zero_def
  by (cases "n < 2") (simp_all, erule packet_keeps, intro keeps_intros)

lemma serialize_ack_keeps:
  "mqtt_serialize_ack b n t d pid = Some (rc, b') \<Longrightarrow> length b' = length b"
  unfolding mqtt_serialize_ack_def Let_def
  by (cases "n < 4") (simp_all split del: if_split, erule packet_keeps, intro keeps_intros)

lemma serialize_publish_keeps:
  "mqtt_serialize_publish b n d q r pid t p l = Some (rc, b') \<Longrightarrow> length b' = length b"
  unfolding mqtt_serialize_publish_def Let_def
  by (erule checked_packet_keeps, erule packet_keeps, intro keeps_intros)

lemma serialize_connect_keeps:
  "mqtt_serialize_connect b n opts = Some (rc, b') \<Longrightarrow> length b' = length b"
  unfolding mqtt_serialize_connect_def Let_def
  by (erule checked_packet_keeps, erule packet_keeps, intro keeps_intros)

lemma serialize_subscribe_keeps:
  "mqtt_serialize_subscribe b n d pid k ts qs = Some (rc, b') \<Longrightarrow> length b' = length b"
  unfolding mqtt_serialize_subscribe_def Let_def
  by (erule checked_packet_keeps, erule packet_keeps, intro keeps_intros)

lemma serialize_unsubscribe_keeps:
  "mqtt_serialize_unsubscribe b n d pid k ts = Some (rc, b') \<Longrightarrow> length b' = length b"
  unfolding mqtt_serialize_unsubscribe_def Let_def
  by (erule checked_packet_keeps, erule packet_keeps, intro keeps_intros)

text \<open>
  What the internal operations leave alone: the configuration, the handler table, the packet
  identifier and the sizes of the buffers. They never set the connected flag.
\<close>

definition client_frame :: "'w mqtt_client_t \<Rightarrow> 'w mqtt_client_t \<Rightarrow> bool" where
  "client_frame c c' \<longleftrightarrow>
     messageHandlers c' = messageHandlers c \<and> defaultMessageHandler c' = defaultMessageHandler c \<and>
     ipstack c' = ipstack c \<and> command_timeout_ms c' = command_timeout_ms c \<and>
     next_packetid c' = next_packetid c \<and> ckeepAliveInterval c' = ckeepAliveInterval c \<and>
     buf_size c' = buf_size c \<and> readbuf_size c' = readbuf_size c \<and>
     length (cbuf c') = length (cbuf c) \<and> length (readbuf c') = length (readbuf c) \<and>
     (isconnected c' = isconnected c \<or> isconnected c' = 0)"

lemma client_frame_refl [simp]: "client_frame c c"
  by (simp add: client_frame_def)

lemma client_frame_trans [trans]: "client_frame a b \<Longrightarrow> client_frame b c \<Longrightarrow> client_frame a c"
  by (auto simp: client_frame_def)

lemma client_frame_updates [simp]:
  "client_frame c (c'\<lparr>ping_timer := pt\<rparr>) = client_frame c c'"
  "client_frame c (c'\<lparr>fail_count := n\<rparr>) = client_frame c c'"
  "client_frame c (c'\<lparr>ping_outstanding := p\<rparr>) = client_frame c c'"
  "length b = length (cbuf c') \<Longrightarrow> client_frame c (c'\<lparr>cbuf := b\<rparr>) = client_frame c c'"
  "length rb = length (readbuf c') \<Longrightarrow> client_frame c (c'\<lparr>readbuf := rb\<rparr>) = client_frame c c'"
  by (simp_all add: client_frame_def)

abbreviation framed :: "'w mqtt_client_t \<Rightarrow> 'w call \<Rightarrow> bool" where
  "framed c r \<equiv> holds (\<lambda>(rc, c', w'). client_frame c c') r"

lemma framedD: "framed c r \<Longrightarrow> r = Some (rc, c', w') \<Longrightarrow> client_frame c c'"
  by (auto dest: holdsD)

lemma framed_send_packet: "framed c (send_packet env c len timer w)"
  unfolding send_packet_def by (intro holds_intros) simp_all

lemmas keep_sizes = write_block_keeps mqtt_packet_encode_keeps serialize_zero_keeps serialize_ack_keeps
  serialize_publish_keeps serialize_connect_keeps serialize_subscribe_keeps serialize_unsubscribe_keeps

lemma framed_read_packet: "framed c (read_packet env c timer w)"
  unfolding read_packet_def
  by (intro holds_intros) (auto dest!: keep_sizes)

lemma framed_via:
  "framed c1 r \<Longrightarrow> client_frame c c1 \<Longrightarrow> framed c r"
  by (auto simp: holds_def intro: client_frame_trans)

lemma frame_send: 
  "send_packet env c1 len timer w = Some (rc, c', w') \<Longrightarrow> client_frame c c1 \<Longrightarrow> client_frame c c'"
  by (rule client_frame_trans [OF _ framedD [OF framed_send_packet]])

lemma framed_keepalive_ping: "holds (\<lambda>(stop, c', w'). client_frame c c') (keepalive_ping env c w)"
  unfolding keepalive_ping_def mqtt_serialize_pingreq_def
  by (intro holds_intros) (auto dest!: keep_sizes elim!: frame_send)

lemma framed_keepalive: "framed c (keepalive env c w)"
  unfolding keepalive_def
  by (intro holds_intros) (auto dest!: holdsD [OF framed_keepalive_ping])

lemma framed_cycle_publish: "holds (\<lambda>(ex, rc, c', w'). client_frame c c') (cycle_publish env c timer w)"
  unfolding cycle_publish_def
  by (intro holds_intros) (auto split: if_splits dest!: keep_sizes elim!: frame_send)

lemma framed_cycle_pubrec: "holds (\<lambda>(ex, rc, c', w'). client_frame c c') (cycle_pubrec env c timer w)"
  unfolding cycle_pubrec_def
  by (intro holds_intros) (auto split: if_splits dest!: keep_sizes elim!: frame_send)

lemma framed_cycle_switch: "holds (\<lambda>(ex, rc, c', w'). client_frame c c') (cycle_switch env t c timer w)"
  unfolding cycle_switch_def
  by (intro holds_if framed_cycle_publish framed_cycle_pubrec) (simp_all, simp add: client_frame_def)

lemma framed_cycle: "framed c (cycle env c timer w)"
proof -
  have k: "client_frame c c3"
    if "read_packet env c timer w = Some (t, c1, w1)" "cycle_switch env t c1 timer w1 = Some (ex, rc, c2, w2)"
      "keepalive env c2 w2 = Some (rc', c3, w3) \<or> c3 = c2" for t c1 w1 ex rc c2 w2 rc' c3 w3
    using framedD [OF framed_read_packet that(1)] holdsD [OF framed_cycle_switch that(2)] that(3)
      framedD [OF framed_keepalive, of env c2 w2 rc' c3 w3]
    by (metis case_prodD case_prod_conv client_frame_trans)
  show ?thesis
    unfolding cycle_def by (intro holds_intros) (auto split: if_splits intro: k)
qed

lemma framed_waitfor_loop:
  assumes "waitfor_loop env c t timer rc w = Some r"
  shows "client_frame c (fst (snd r))"
proof (rule waitfor_loop.raw_induct
    [where P = "\<lambda>env c t timer rc w r. client_frame c (fst (snd r))", OF _ assms])
  fix loop env c t timer rc w and r :: "int \<times> 'a mqtt_client_t \<times> 'a"
  assume IH: "\<And>env c t timer rc w r. loop env c t timer rc w = Some r \<Longrightarrow> client_frame c (fst (snd r))"
    and eq: "(let (expired, w1) = mqtt_timer_expired (tick_count env) timer w
      in if expired then Some (rc, c, w1)
         else cycle env c timer w1 \<bind> (\<lambda>(rc', c2, w2).
           if rc' \<noteq> t then loop env c2 t timer rc' w2 else Some (rc', c2, w2))) = Some r"
  obtain e w1 where "mqtt_timer_expired (tick_count env) timer w = (e, w1)"
    by fastforce
  with eq show "client_frame c (fst (snd r))"
    by (auto simp: bind_eq_Some_conv split: if_splits dest!: framedD [OF framed_cycle] IH
        intro: client_frame_trans)
qed

lemma framed_waitfor: "framed c (waitfor env c t timer w)"
  using framed_waitfor_loop by (force simp: waitfor_def holds_def)

lemma framed_yield_loop:
  assumes "yield_loop env c timer rc w = Some r"
  shows "client_frame c (fst (snd r))"
proof (rule yield_loop.raw_induct
    [where P = "\<lambda>env c timer rc w r. client_frame c (fst (snd r))", OF _ assms])
  fix loop env c timer rc w and r :: "int \<times> 'a mqtt_client_t \<times> 'a"
  assume IH: "\<And>env c timer rc w r. loop env c timer rc w = Some r \<Longrightarrow> client_frame c (fst (snd r))"
    and eq: "(let (expired, w1) = mqtt_timer_expired (tick_count env) timer w
      in if expired then Some (rc, c, w1)
         else cycle env c timer w1 \<bind> (\<lambda>(rc', c2, w2).
           if rc' = MQTT_DISCONNECTED then Some (rc', c2, w2)
           else loop env c2 timer MQTT_SUCCESS w2)) = Some r"
  obtain e w1 where "mqtt_timer_expired (tick_count env) timer w = (e, w1)"
    by fastforce
  with eq show "client_frame c (fst (snd r))"
    by (auto simp: bind_eq_Some_conv split: if_splits dest!: framedD [OF framed_cycle] IH
        intro: client_frame_trans)
qed

lemma framed_yield: "framed c (mqtt_yield env c ms w)"
  unfolding mqtt_yield_def by (intro holds_intros) (force simp: holds_def dest: framed_yield_loop)

section \<open>The client interface as a state machine\<close>

text \<open>The invariant of a client: sizes as announced, a table of five handlers, a 16-bit identifier.\<close>

definition client_inv :: "'w mqtt_client_t \<Rightarrow> bool" where
  "client_inv c \<longleftrightarrow>
     length (messageHandlers c) = MQTT_MAX_MESSAGE_HANDLERS \<and>
     length (cbuf c) = unat (buf_size c) \<and> length (readbuf c) = unat (readbuf_size c) \<and>
     next_packetid c \<le> MQTT_MAX_PACKET_ID \<and> (isconnected c = 0 \<or> isconnected c = 1)"

lemma client_frame_inv: "client_frame c c' \<Longrightarrow> client_inv c \<Longrightarrow> client_inv c'"
  by (auto simp: client_frame_def client_inv_def)

text \<open>What a call may do to a client beyond the frame: take an identifier, fill a free slot.\<close>

definition slots_grow :: "message_handler list \<Rightarrow> message_handler list \<Rightarrow> bool" where
  "slots_grow hs hs' \<longleftrightarrow>
     length hs' = length hs \<and> (\<forall>i < length hs. topicFilter (hs ! i) \<noteq> None \<longrightarrow> hs' ! i = hs ! i)"

lemma slots_grow_refl [simp]: "slots_grow hs hs"
  by (simp add: slots_grow_def)

lemma slots_grow_trans: "slots_grow a b \<Longrightarrow> slots_grow b c \<Longrightarrow> slots_grow a c"
  by (simp add: slots_grow_def)

lemma install_handler_grows: "install_handler t f hs = Some hs' \<Longrightarrow> slots_grow hs hs'"
proof (induction hs arbitrary: hs')
  case (Cons h hs)
  show ?case
  proof (cases "topicFilter h")
    case None
    with Cons.prems show ?thesis
      by (auto simp: slots_grow_def nth_Cons split: nat.split)
  next
    case (Some x)
    with Cons.prems obtain hs1 where "install_handler t f hs = Some hs1" "hs' = h # hs1"
      by auto
    with Cons.IH show ?thesis
      by (auto simp: slots_grow_def nth_Cons split: nat.split)
  qed
qed simp

lemma install_handler_full: "install_handler t f hs = None \<longleftrightarrow> (\<forall>h \<in> set hs. topicFilter h \<noteq> None)"
  by (induction hs) auto

text \<open>Identifiers stay in the 16-bit range and are never 0.\<close>

lemma next_packet_id_range:
  assumes "get_next_packet_id c = (n, c')" and "next_packetid c \<le> MQTT_MAX_PACKET_ID"
  shows "1 \<le> n" and "n \<le> MQTT_MAX_PACKET_ID" and "c' = c\<lparr>next_packetid := n\<rparr>"
proof -
  have n: "n = (if next_packetid c = 65535 then 1 else next_packetid c + 1)" "c' = c\<lparr>next_packetid := n\<rparr>"
    using assms(1) by (auto simp: get_next_packet_id_def Let_def)
  show "1 \<le> n" "n \<le> MQTT_MAX_PACKET_ID"
    using assms(2) by (auto simp: n word_le_nat_alt unat_word_ariths word_unat_eq_iff)
  show "c' = c\<lparr>next_packetid := n\<rparr>"
    by (fact n(2))
qed

definition call_keeps :: "'w mqtt_client_t \<Rightarrow> 'w mqtt_client_t \<Rightarrow> bool" where
  "call_keeps c c' \<longleftrightarrow> (client_inv c \<longrightarrow> client_inv c') \<and> slots_grow (messageHandlers c) (messageHandlers c')"

lemma call_keeps_refl [simp]: "call_keeps c c"
  by (simp add: call_keeps_def)

lemma call_keeps_trans: "call_keeps a b \<Longrightarrow> call_keeps b c \<Longrightarrow> call_keeps a c"
  by (auto simp: call_keeps_def intro: slots_grow_trans)

lemma call_keeps_frame: "client_frame c c' \<Longrightarrow> call_keeps c c'"
  by (auto simp: call_keeps_def client_frame_inv) (simp add: client_frame_def)

lemma call_keeps_packet_id:
  assumes "get_next_packet_id c = (n, c')"
  shows "call_keeps c c'"
proof -
  have c': "c' = c\<lparr>next_packetid := n\<rparr>"
    using assms by (auto simp: get_next_packet_id_def Let_def)
  moreover have "client_inv c \<Longrightarrow> n \<le> MQTT_MAX_PACKET_ID"
    using next_packet_id_range(2) [OF assms] by (simp add: client_inv_def)
  ultimately show ?thesis
    by (simp add: call_keeps_def client_inv_def)
qed

lemma call_keeps_cbuf: "length b = length (cbuf c') \<Longrightarrow> call_keeps c c' \<Longrightarrow> call_keeps c (c'\<lparr>cbuf := b\<rparr>)"
  by (auto simp: call_keeps_def client_inv_def)

lemma call_keeps_updates [simp]:
  "call_keeps c (c'\<lparr>ping_timer := pt\<rparr>) = call_keeps c c'"
  "call_keeps c (c'\<lparr>fail_count := n\<rparr>) = call_keeps c c'"
  "call_keeps c (c'\<lparr>ckeepAliveInterval := i\<rparr>) = call_keeps c c'"
  by (simp_all add: call_keeps_def client_inv_def)

lemma call_keeps_connected:
  "call_keeps c c' \<Longrightarrow> v = 0 \<or> v = 1 \<Longrightarrow> call_keeps c (c'\<lparr>isconnected := v\<rparr>)"
  by (auto simp: call_keeps_def client_inv_def)

lemma call_keeps_send:
  "send_packet env c1 len timer w = Some (rc, c', w') \<Longrightarrow> call_keeps c c1 \<Longrightarrow> call_keeps c c'"
  by (rule call_keeps_trans [OF _ call_keeps_frame [OF framedD [OF framed_send_packet]]])

lemma call_keeps_wait:
  "waitfor env c1 t timer w = Some (rc, c', w') \<Longrightarrow> call_keeps c c1 \<Longrightarrow> call_keeps c c'"
  by (rule call_keeps_trans [OF _ call_keeps_frame [OF framedD [OF framed_waitfor]]])

lemma call_keeps_install:
  "install_handler t f (messageHandlers c') = Some hs \<Longrightarrow> call_keeps c c' \<Longrightarrow>
     call_keeps c (c'\<lparr>messageHandlers := hs\<rparr>)"
  using install_handler_grows [of t f "messageHandlers c'" hs]
  by (auto simp: call_keeps_def client_inv_def slots_grow_def)

abbreviation call_ok :: "'w mqtt_client_t \<Rightarrow> 'w call \<Rightarrow> bool" where
  "call_ok c r \<equiv> holds (\<lambda>(rc, c', w'). call_keeps c c') r"

lemma call_ok_connect: "call_ok c (mqtt_connect env c options w)"
  unfolding mqtt_connect_def connect_exit_def
  by (intro holds_intros)
    (auto dest!: keep_sizes elim!: call_keeps_wait call_keeps_send intro!: call_keeps_connected call_keeps_cbuf)

lemma call_ok_subscribe: "call_ok c (mqtt_subscribe env c topic qos handler w)"
  unfolding mqtt_subscribe_def
  by (intro holds_intros)
    (auto dest!: keep_sizes call_keeps_packet_id [OF sym]
      elim!: call_keeps_install call_keeps_wait call_keeps_send intro!: call_keeps_cbuf)

lemma call_ok_unsubscribe: "call_ok c (mqtt_unsubscribe env c topic w)"
  unfolding mqtt_unsubscribe_def
  by (intro holds_intros)
    (auto dest!: keep_sizes call_keeps_packet_id [OF sym]
      elim!: call_keeps_wait call_keeps_send intro!: call_keeps_cbuf)

lemma call_ok_wait_ack: "call_ok c (publish_wait_ack env c t timer w)"
  unfolding publish_wait_ack_def
  by (intro holds_intros) (auto elim!: call_keeps_wait)

lemma call_ok_disconnect: "call_ok c (mqtt_disconnect env c w)"
  unfolding mqtt_disconnect_def mqtt_serialize_disconnect_def
  by (intro holds_intros)
    (auto split: if_splits dest!: keep_sizes elim!: call_keeps_send intro!: call_keeps_connected call_keeps_cbuf)


lemma call_ok_publish:
  "holds (\<lambda>(rc, m', c', w'). call_keeps c c') (mqtt_publish env c topic message w)"
proof -
  have id: "call_keeps c c1"
    if "(m1, c1) = (if P then let (pid, c') = get_next_packet_id c in (f pid, c') else (message, c))" for m1 c1 P f
    using that call_keeps_packet_id [of c]
    by (cases P; cases "get_next_packet_id c") auto
  have ack: "call_keeps c c4"
    if "(if A then publish_wait_ack env c3 t timer w2 else if B then publish_wait_ack env c3 t' timer w2
         else Some (rc, c3, w2)) = Some (rc', c4, w3)" "call_keeps c c3" for A B c3 t t' timer w2 rc rc' c4 w3
    using that by (auto split: if_splits dest!: holdsD [OF call_ok_wait_ack] intro: call_keeps_trans)
  show ?thesis
    unfolding mqtt_publish_def
    by (intro holds_intros)
      (auto simp del: if_split dest!: keep_sizes id elim!: ack call_keeps_send intro!: call_keeps_cbuf)
qed

text \<open>One call of the interface, with any arguments, that returns.\<close>

inductive api_step :: "'w mqtt_env \<Rightarrow> 'w mqtt_client_t \<Rightarrow> 'w mqtt_client_t \<Rightarrow> bool" for env where
  api_connect: "mqtt_connect env c opts w = Some (rc, c', w') \<Longrightarrow> api_step env c c'"
| api_subscribe: "mqtt_subscribe env c topic qos f w = Some (rc, c', w') \<Longrightarrow> api_step env c c'"
| api_unsubscribe: "mqtt_unsubscribe env c topic w = Some (rc, c', w') \<Longrightarrow> api_step env c c'"
| api_publish: "mqtt_publish env c topic m w = Some (rc, m', c', w') \<Longrightarrow> api_step env c c'"
| api_yield: "mqtt_yield env c ms w = Some (rc, c', w') \<Longrightarrow> api_step env c c'"
| api_disconnect: "mqtt_disconnect env c w = Some (rc, c', w') \<Longrightarrow> api_step env c c'"

lemma api_step_keeps: "api_step env c c' \<Longrightarrow> call_keeps c c'"
  by (induction rule: api_step.induct)
    (auto dest: holdsD [OF call_ok_connect] holdsD [OF call_ok_subscribe] holdsD [OF call_ok_unsubscribe]
      holdsD [OF call_ok_publish] holdsD [OF call_ok_disconnect] framedD [OF framed_yield] intro: call_keeps_frame)

lemma api_reachable_keeps: "(api_step env)\<^sup>*\<^sup>* c c' \<Longrightarrow> call_keeps c c'"
  by (induction rule: rtranclp_induct) (auto intro: api_step_keeps call_keeps_trans)

lemma framed_wait_ack: "framed c (publish_wait_ack env c t timer w)"
  unfolding publish_wait_ack_def
  by (intro holds_intros) (auto dest!: framedD [OF framed_waitfor])

text \<open>The identifier of an acknowledged publish is the one the client issues next.\<close>

lemma publish_takes_id:
  assumes "isconnected c \<noteq> 0" and "msg_qos m = 1 \<or> msg_qos m = 2" and "get_next_packet_id c = (n, c1)"
  shows "holds (\<lambda>(rc, m', c', w'). msg_id m' = ucast n \<and> next_packetid c' = n) (mqtt_publish env c topic m w)"
proof -
  have n: "next_packetid c1 = n"
    using assms(3) by (auto simp: get_next_packet_id_def Let_def)
  have f: "client_frame a b \<Longrightarrow> next_packetid a = n \<Longrightarrow> next_packetid b = n" for a b :: "'a mqtt_client_t"
    by (simp add: client_frame_def)
  have s: "next_packetid b = n" if "send_packet env a len timer w = Some (rc, b, w')" "next_packetid a = n"
    for a b len timer w rc w'
    using f [OF framedD [OF framed_send_packet that(1)]] that(2) by simp
  have a: "next_packetid c4 = n"
    if "(if A then publish_wait_ack env c3 t timer w2 else if B then publish_wait_ack env c3 t' timer w2
         else Some (rc, c3, w2)) = Some (rc', c4, w3)" "next_packetid c3 = n" for A B c3 t t' timer w2 rc rc' c4 w3
    using that f by (auto split: if_splits dest!: framedD [OF framed_wait_ack])
  show ?thesis
    unfolding mqtt_publish_def
    by (intro holds_intros) (use assms in \<open>auto simp: n simp del: if_split elim!: s a\<close>)
qed

section \<open>A client on a loopback network\<close>

text \<open>
  A client on a loopback network for concrete runs: the world is the bytes to be received and
  the bytes sent; the clock stands still. Handler \<open>f\<close> sends the byte \<open>f\<close> and the payload.
\<close>

type_synonym demo_world = "byte list \<times> byte list"

definition demo_net :: "demo_world mqtt_network_t" where
  "demo_net = \<lparr>my_socket = 1,
     mqttread = (\<lambda>s n t (i, out). if i = [] then (- 1, [], (i, out))
                                 else (int (length (take (nat n) i)), take (nat n) i, (drop (nat n) i, out))),
     mqttwrite = (\<lambda>s bs t (i, out). (int (length bs), (i, out @ bs)))\<rparr>"

definition demo_env :: "demo_world mqtt_env" where
  "demo_env = \<lparr>tick_count = (\<lambda>w. (7, w)),
     call_handler = (\<lambda>f md (i, out). (i, out @ of_nat f # take (nat (msg_payloadlen (md_message md))) (msg_payload (md_message md)))),
     stack_publish = demo_out, stack_ack = \<lparr>ao_packettype = 9, ao_dup = 9, ao_packetid = 9\<rparr>,
     stack_timer = \<lparr>end_time = 9\<rparr>\<rparr>"

definition demo_raw :: "demo_world mqtt_client_t" where
  "demo_raw = \<lparr>next_packetid = 65535, command_timeout_ms = 0, buf_size = 0, readbuf_size = 0, cbuf = [], readbuf = [],
     ckeepAliveInterval = 0, ping_outstanding = 0, fail_count = 0, isconnected = 0,
     messageHandlers = replicate 5 \<lparr>topicFilter = None, fp = None\<rparr>, defaultMessageHandler = None,
     ipstack = demo_net, ping_timer = \<lparr>end_time = 0\<rparr>\<rparr>"

definition demo_client :: "demo_world mqtt_client_t" where
  "demo_client = (mqtt_client_new demo_raw demo_net 1000 (replicate 16 0) 16 (replicate 16 0) 16)
     \<lparr>isconnected := 1, messageHandlers :=
        \<lparr>topicFilter = Some [97, 47, 43], fp = Some 5\<rparr> # replicate 4 \<lparr>topicFilter = None, fp = None\<rparr>\<rparr>"

lemma demo_stream_net: "stream_net fst demo_env demo_net"
proof -
  have "\<exists>r w'. 0 < r \<and> r \<le> n \<and> r \<le> length (fst w) \<and>
      mqttread demo_net (my_socket demo_net) (int n) t w = (int r, take r (fst w), w') \<and> fst w' = drop r (fst w)"
    if "0 < n" "fst w \<noteq> []" for n t w
    by (intro exI [of _ "min n (length (fst w))"] exI [of _ "(drop n (fst w), snd w)"])
      (use that in \<open>auto simp: demo_net_def split_beta min_def\<close>)
  then show ?thesis
    by (simp add: stream_net_def demo_env_def)
qed

lemma demo_stream_out: "stream_out snd demo_env demo_net"
  by (auto simp: stream_out_def demo_env_def demo_net_def)

lemma demo_sends_through: "sends_through demo_env demo_net \<lparr>end_time = 100\<rparr>"
  by (auto simp: sends_through_def demo_env_def demo_net_def mqtt_timer_expired_def)

lemma demo_client_simps [simp]:
  "ipstack demo_client = demo_net" "isconnected demo_client = 1" "fail_count demo_client = 0" "ckeepAliveInterval demo_client = 0"
  "next_packetid demo_client = 65535" "readbuf demo_client = replicate 16 0" "cbuf demo_client = replicate 16 0"
  "readbuf_size demo_client = 16" "buf_size demo_client = 16"
  "messageHandlers demo_client =
     \<lparr>topicFilter = Some [97, 47, 43], fp = Some 5\<rparr> # replicate 4 \<lparr>topicFilter = None, fp = None\<rparr>"
  by (simp_all add: demo_client_def demo_raw_def mqtt_client_new_def)

definition demo_live :: "demo_world mqtt_client_t" where
  "demo_live = demo_client\<lparr>ckeepAliveInterval := 60\<rparr>"

lemma demo_live_simps [simp]:
  "ipstack demo_live = demo_net" "readbuf demo_live = replicate 16 0" "readbuf_size demo_live = 16"
  "messageHandlers demo_live = messageHandlers demo_client"
  by (simp_all add: demo_live_def)

lemma demo_handlers_ok: "handlers_ok (messageHandlers demo_client)"
proof -
  have "0 \<notin> set [97, 47, 43 :: byte]" "filter_ok (levels [97, 47, 43])"
    by code_simp+
  then show ?thesis
    by (simp add: handlers_ok_def del: levels.simps filter_ok.simps)
qed

lemma demo_body_length: "length (publish_body qos 258 demo_topic [1, 2]) \<le> 9"
  "length (publish_wire 0 qos 1 258 demo_topic [1, 2]) \<le> 11" "length (str_payload demo_topic) = 3"
proof -
  show l: "length (publish_body qos 258 demo_topic [1, 2]) \<le> 9"  "length (str_payload demo_topic) = 3"
    by (simp_all add: publish_body_def str_wire_def str_payload_def demo_topic_def)
  show "length (publish_wire 0 qos 1 258 demo_topic [1, 2]) \<le> 11"
    using l rl_bytes_length_le [of "length (publish_body qos 258 demo_topic [1, 2])" 1]
    by (simp add: publish_wire_def Let_def)
qed

section \<open>Properties\<close>

text \<open>
  C3: a published message reaches its handlers. Suppose the peer has sent the wire image of a
  publish packet with quality of service 0 that fits the read buffer, and the network is a stream
  that may return fewer bytes than asked for. One receive cycle asks the network once for the
  body of the packet. If the network returns all of it, the cycle calls, in the order of the table,
  the handlers of all slots whose filter matches the topic level by level, or the default handler
  when there is none, with the topic, the flags and the payload the packet was made from; then it
  returns the type of the packet, or on a connected client what the keep-alive makes of it. If
  the network returns less, no handler is called, the client is marked as not connected and the
  cycle returns \<^verbatim>\<open>MQTT_DISCONNECTED\<close>.
\<close>

theorem publish_delivered:
  assumes "stream_net inq env (ipstack c)" and "handlers_ok (messageHandlers c)"
    and "length (publish_body 0 pid topic payload) < 128 ^ 4" and "length (str_payload topic) < 65536"
    and "inq w = publish_wire dup 0 retained pid topic payload @ rest"
    and "length (publish_wire dup 0 retained pid topic payload) \<le> length (readbuf c)"
    and "length (publish_wire dup 0 retained pid topic payload) \<le> unat (readbuf_size c)"
  shows "\<exists>r w1. body_read inq (ipstack c) (publish_body 0 pid topic payload) rest r w1 \<and>
     (if r < length (publish_body 0 pid topic payload)
      then \<exists>rb. cycle env c timer w = Some (MQTT_DISCONNECTED, c\<lparr>readbuf := rb, isconnected := 0\<rparr>, w1)
      else \<exists>topicName msg. topic_is topicName (str_payload topic) \<and>
        message_ok dup 0 retained pid payload msg \<and>
        cycle env c timer w = keepalive_verdict env
          (c\<lparr>readbuf := lay (readbuf c) (publish_wire dup 0 retained pid topic payload)\<rparr>)
          (fold (\<lambda>f. call_handler env f \<lparr>md_topic = topicName, md_message = msg\<rparr>)
             (recipients c (str_payload topic)) w1))"
proof (cases rule: publish_wire_read [OF assms(1,3,5-7), of timer, case_names short full])
  case (short r w1 rb)
  with cycle_read_error [OF short(3)] show ?thesis
    by (intro exI [of _ r] exI [of _ w1]) auto
next
  case (full w1)
  let ?rb = "lay (readbuf c) (publish_wire dup 0 retained pid topic payload)"
  let ?c1 = "c\<lparr>readbuf := ?rb\<rparr>"
  obtain po where po: "mqtt_deserialize_publish (stack_publish env) ?rb (sint (readbuf_size c)) = Some (1, po)"
    "topic_is (po_topicName po) (str_payload topic)" "message_ok dup 0 retained pid payload (message_of po ?rb)"
    using publish_received [OF _ _ assms(3,4)] by (metis order_refl zero_less_numeral)
  let ?w2 = "fold (\<lambda>f. call_handler env f \<lparr>md_topic = po_topicName po, md_message = message_of po ?rb\<rparr>)
         (recipients c (str_payload topic)) w1"
  have rcp: "recipients ?c1 = recipients c"
    by (simp add: recipients_def fun_eq_iff)
  have "cycle_publish env ?c1 timer w1 = Some (False, MQTT_SUCCESS, ?c1, ?w2)"
    using po deliver_message_eq [of ?c1 "po_topicName po" "str_payload topic" env "message_of po ?rb" w1] assms(2)
    by (simp add: cycle_publish_def message_ok_def rcp Let_def)
  from cycle_verdict [OF full(2) this] have "cycle env c timer w = keepalive_verdict env ?c1 ?w2"
    by simp
  with po full(1) show ?thesis
    by (intro exI [of _ "length (publish_body 0 pid topic payload)"] exI [of _ w1]) auto
qed

theorem publish_delivered_witness:
  "\<exists>r w1. body_read fst demo_net (publish_body 0 258 demo_topic [1, 2]) [9] r w1 \<and>
     (if r < length (publish_body 0 258 demo_topic [1, 2])
      then \<exists>rb. cycle demo_env demo_live \<lparr>end_time = 100\<rparr>
          (publish_wire 0 0 1 258 demo_topic [1, 2] @ [9], []) =
        Some (MQTT_DISCONNECTED, demo_live\<lparr>readbuf := rb, isconnected := 0\<rparr>, w1)
      else \<exists>topicName msg. topic_is topicName [97, 47, 98] \<and> message_ok 0 0 1 258 [1, 2] msg \<and>
        cycle demo_env demo_live \<lparr>end_time = 100\<rparr>
          (publish_wire 0 0 1 258 demo_topic [1, 2] @ [9], []) = keepalive_verdict demo_env
            (demo_live\<lparr>readbuf := lay (replicate 16 0) (publish_wire 0 0 1 258 demo_topic [1, 2])\<rparr>)
            (fold (\<lambda>f. call_handler demo_env f \<lparr>md_topic = topicName, md_message = msg\<rparr>) [5] w1))"
proof -
  have 1: "str_payload demo_topic = [97, 47, 98]"
    by (simp add: demo_topic_def str_payload_def)
  have 2: "recipients demo_live [97, 47, 98] = [5]"
    by code_simp
  let ?w = "(publish_wire 0 0 1 258 demo_topic [1, 2] @ [9], []) :: demo_world"
  have a: "stream_net fst demo_env (ipstack demo_live)" "handlers_ok (messageHandlers demo_live)"
    using demo_stream_net demo_handlers_ok by simp_all
  have b: "length (publish_body 0 258 demo_topic [1, 2]) < 128 ^ 4" "length (str_payload demo_topic) < 65536"
    "fst ?w = publish_wire 0 0 1 258 demo_topic [1, 2] @ [9]"
    using demo_body_length(1) [of 0] by (simp_all add: 1)
  have c: "length (publish_wire 0 0 1 258 demo_topic [1, 2]) \<le> length (readbuf demo_live)"
    "length (publish_wire 0 0 1 258 demo_topic [1, 2]) \<le> unat (readbuf_size demo_live)"
    using demo_body_length(2) [of 0] by simp_all
  show ?thesis
    using publish_delivered [OF a b c, of "\<lparr>end_time = 100\<rparr>"]
    by (simp only: 1 2 demo_live_simps)
qed

text \<open>
  C4: the acknowledgement of a message. With quality of service 1 or 2 the cycle delivers the
  message in the same way and then sends the packet (PUBACK or PUBREC) that carries the packet
  identifier received, all of it if writes get through before the timer runs out: the bytes that
  leave after the delivery are its first \<open>k\<close> bytes. With all four of them sent the cycle ends as
  for quality of service 0, returning the type of the packet or, if the keep-alive gives up,
  \<^verbatim>\<open>MQTT_DISCONNECTED\<close>; otherwise it returns \<^verbatim>\<open>MQTT_FAILURE\<close>. A body that the network returns
  in part ends as for quality of service 0, and nothing is sent. The write buffer has its declared
  size, at least 4, and the count of failed pings has not reached the end of its type.
\<close>

theorem publish_acknowledged:
  assumes "stream_net inq env (ipstack c)" and "stream_out outq env (ipstack c)"
    and "handlers_ok (messageHandlers c)" and "qos = 1 \<or> qos = 2"
    and "length (publish_body qos pid topic payload) < 128 ^ 4" and "length (str_payload topic) < 65536"
    and "inq w = publish_wire dup qos retained pid topic payload @ rest"
    and "length (publish_wire dup qos retained pid topic payload) \<le> length (readbuf c)"
    and "length (publish_wire dup qos retained pid topic payload) \<le> unat (readbuf_size c)"
    and "4 \<le> sint (buf_size c)" and "length (cbuf c) = nat (sint (buf_size c))"
    and "0 \<le> fail_count c" and "fail_count c + 1 < 2 ^ 31"
  shows "\<exists>r w1. body_read inq (ipstack c) (publish_body qos pid topic payload) rest r w1 \<and>
     (if r < length (publish_body qos pid topic payload)
      then \<exists>rb. cycle env c timer w = Some (MQTT_DISCONNECTED, c\<lparr>readbuf := rb, isconnected := 0\<rparr>, w1)
      else \<exists>topicName msg k c2 w2. topic_is topicName (str_payload topic) \<and>
        message_ok dup qos retained pid payload msg \<and>
        k \<le> 4 \<and> (sends_through env (ipstack c) timer \<longrightarrow> k = 4) \<and>
        outq w2 = outq (fold (\<lambda>f. call_handler env f \<lparr>md_topic = topicName, md_message = msg\<rparr>)
                          (recipients c (str_payload topic)) w1)
          @ take k (ack_wire (if qos = 1 then MQTTPACKET_PUBACK else MQTTPACKET_PUBREC) 0 pid) \<and>
        (if k = 4 then cycle env c timer w = keepalive_verdict env c2 w2 \<and>
           (\<exists>rc c' w'. cycle env c timer w = Some (rc, c', w') \<and> (rc = 3 \<or> rc = MQTT_DISCONNECTED))
         else cycle env c timer w = Some (MQTT_FAILURE, c2, w2)))"
proof (cases rule: publish_wire_read [OF assms(1,5,7-9), of timer, case_names short full])
  case (short r w1 rb)
  with cycle_read_error [OF short(3)] show ?thesis
    by (intro exI [of _ r] exI [of _ w1]) auto
next
  case (full w1)
  have q: "0 \<le> qos" "qos < 4"
    using assms(4) by auto
  let ?rb = "lay (readbuf c) (publish_wire dup qos retained pid topic payload)"
  let ?c1 = "c\<lparr>readbuf := ?rb\<rparr>"
  let ?ack = "ack_wire (if qos = 1 then MQTTPACKET_PUBACK else MQTTPACKET_PUBREC) 0 pid"
  let ?c2 = "?c1\<lparr>cbuf := lay (cbuf c) ?ack\<rparr>"
  obtain po where po: "mqtt_deserialize_publish (stack_publish env) ?rb (sint (readbuf_size c)) = Some (1, po)"
    "topic_is (po_topicName po) (str_payload topic)" "message_ok dup qos retained pid payload (message_of po ?rb)"
    using publish_received [OF q assms(5,6)] by blast
  let ?w2 = "fold (\<lambda>f. call_handler env f \<lparr>md_topic = po_topicName po, md_message = message_of po ?rb\<rparr>)
         (recipients c (str_payload topic)) w1"
  have rcp: "recipients ?c1 = recipients c"
    by (simp add: recipients_def fun_eq_iff)
  have m: "msg_qos (message_of po ?rb) = qos" "msg_id (message_of po ?rb) = pid"
    using po(3) assms(4) by (auto simp: message_ok_def)
  have len: "4 \<le> length (cbuf c)"
    using assms(10,11) by simp
  obtain k pt w3 where k: "k \<le> 4" "sends_through env (ipstack c) timer \<longrightarrow> k = 4" "outq w3 = outq ?w2 @ take k ?ack"
    "send_packet env ?c2 4 timer ?w2 = Some (if k = 4 then MQTT_SUCCESS else MQTT_FAILURE, ?c2\<lparr>ping_timer := pt\<rparr>, w3)"
    using send_ack_stream [of outq env ?c1 ?ack timer ?w2] assms(2) len by auto
  let ?c3 = "?c2\<lparr>ping_timer := pt\<rparr>"
  have d: "deliver_message env ?c1 (po_topicName po) (message_of po ?rb) w1 =
      Some (if recipients c (str_payload topic) = [] then MQTT_FAILURE else MQTT_SUCCESS, ?w2)"
    using deliver_message_eq [of ?c1 "po_topicName po" "str_payload topic" env "message_of po ?rb" w1] po(2) assms(3)
    by (simp add: rcp)
  have "cycle_publish env ?c1 timer w1 =
      Some (k \<noteq> 4, if k = 4 then MQTT_SUCCESS else MQTT_FAILURE, ?c3, w3)"
    using po(1) d m assms(4) k(4) mqtt_serialize_ack_eq [OF assms(10,11)]
    by (auto simp: cycle_publish_def Let_def)
  from cycle_verdict [OF full(2) this] have cyc: "cycle env c timer w =
      (if k = 4 then keepalive_verdict env ?c3 w3 else Some (MQTT_FAILURE, ?c3, w3))"
    by simp
  have "\<exists>rc c' w'. keepalive_verdict env ?c3 w3 = Some (rc, c', w') \<and> (rc = 3 \<or> rc = MQTT_DISCONNECTED)"
    using verdict_returns [of outq env ?c3 w3] assms(2,11-13) len by simp
  with cyc have v: "if k = 4 then cycle env c timer w = keepalive_verdict env ?c3 w3 \<and>
           (\<exists>rc c' w'. cycle env c timer w = Some (rc, c', w') \<and> (rc = 3 \<or> rc = MQTT_DISCONNECTED))
         else cycle env c timer w = Some (MQTT_FAILURE, ?c3, w3)"
    by (cases "k = 4") simp_all
  show ?thesis
    by (rule exI [of _ "length (publish_body qos pid topic payload)"], rule exI [of _ w1],
        rule conjI [OF full(1)], subst if_not_P, simp,
        rule exI [of _ "po_topicName po"], rule exI [of _ "message_of po ?rb"], rule exI [of _ k],
        rule exI [of _ ?c3], rule exI [of _ w3], intro conjI po(2,3) k(1-3) v)
qed

theorem publish_acknowledged_witness:
  "\<exists>r w1. body_read fst demo_net (publish_body 1 258 demo_topic [1, 2]) [9] r w1 \<and>
     (if r < length (publish_body 1 258 demo_topic [1, 2])
      then \<exists>rb. cycle demo_env demo_client \<lparr>end_time = 100\<rparr> (publish_wire 0 1 1 258 demo_topic [1, 2] @ [9], []) =
        Some (MQTT_DISCONNECTED, demo_client\<lparr>readbuf := rb, isconnected := 0\<rparr>, w1)
      else \<exists>topicName msg c2 w2. topic_is topicName [97, 47, 98] \<and> message_ok 0 1 1 258 [1, 2] msg \<and>
        snd w2 = snd (fold (\<lambda>f. call_handler demo_env f \<lparr>md_topic = topicName, md_message = msg\<rparr>) [5] w1)
          @ ack_wire MQTTPACKET_PUBACK 0 258 \<and>
        cycle demo_env demo_client \<lparr>end_time = 100\<rparr> (publish_wire 0 1 1 258 demo_topic [1, 2] @ [9], []) =
          keepalive_verdict demo_env c2 w2)"
proof -
  have 1: "str_payload demo_topic = [97, 47, 98]"
    by (simp add: demo_topic_def str_payload_def)
  have 2: "recipients demo_client [97, 47, 98] = [5]"
    by code_simp
  have 3: "length (ack_wire MQTTPACKET_PUBACK 0 258) \<le> 4"
    by (simp add: ack_wire_def)
  let ?w = "(publish_wire 0 1 1 258 demo_topic [1, 2] @ [9], []) :: demo_world"
  have a: "stream_net fst demo_env (ipstack demo_client)" "stream_out snd demo_env (ipstack demo_client)"
    "handlers_ok (messageHandlers demo_client)" "(1 :: int) = 1 \<or> (1 :: int) = 2"
    using demo_stream_net demo_stream_out demo_handlers_ok by simp_all
  have b: "length (publish_body 1 258 demo_topic [1, 2]) < 128 ^ 4" "length (str_payload demo_topic) < 65536"
    "fst ?w = publish_wire 0 1 1 258 demo_topic [1, 2] @ [9]"
    using demo_body_length(1) [of 1] by (simp_all add: 1)
  have c: "length (publish_wire 0 1 1 258 demo_topic [1, 2]) \<le> length (readbuf demo_client)"
    "length (publish_wire 0 1 1 258 demo_topic [1, 2]) \<le> unat (readbuf_size demo_client)"
    "4 \<le> sint (buf_size demo_client)" "length (cbuf demo_client) = nat (sint (buf_size demo_client))"
    "0 \<le> fail_count demo_client" "fail_count demo_client + 1 < 2 ^ 31"
    using demo_body_length(2) [of 1] by simp_all
  obtain r w1 where r: "body_read fst demo_net (publish_body 1 258 demo_topic [1, 2]) [9] r w1"
    "if r < length (publish_body 1 258 demo_topic [1, 2])
      then \<exists>rb. cycle demo_env demo_client \<lparr>end_time = 100\<rparr> ?w =
        Some (MQTT_DISCONNECTED, demo_client\<lparr>readbuf := rb, isconnected := 0\<rparr>, w1)
      else \<exists>topicName msg k c2 w2. topic_is topicName [97, 47, 98] \<and> message_ok 0 1 1 258 [1, 2] msg \<and>
        k \<le> 4 \<and> (sends_through demo_env demo_net \<lparr>end_time = 100\<rparr> \<longrightarrow> k = 4) \<and>
        snd w2 = snd (fold (\<lambda>f. call_handler demo_env f \<lparr>md_topic = topicName, md_message = msg\<rparr>) [5] w1)
          @ take k (ack_wire MQTTPACKET_PUBACK 0 258) \<and>
        (if k = 4 then cycle demo_env demo_client \<lparr>end_time = 100\<rparr> ?w = keepalive_verdict demo_env c2 w2 \<and>
           (\<exists>rc c' w'. cycle demo_env demo_client \<lparr>end_time = 100\<rparr> ?w = Some (rc, c', w') \<and>
              (rc = 3 \<or> rc = MQTT_DISCONNECTED))
         else cycle demo_env demo_client \<lparr>end_time = 100\<rparr> ?w = Some (MQTT_FAILURE, c2, w2))"
    using publish_acknowledged [OF a b c, of "\<lparr>end_time = 100\<rparr>"]
    unfolding 1 2 demo_client_simps simp_thms if_True by blast
  have t: "take 4 (ack_wire MQTTPACKET_PUBACK 0 258) = ack_wire MQTTPACKET_PUBACK 0 258"
    by (simp only: take_all_iff 3)
  show ?thesis
  proof (cases "r < length (publish_body 1 258 demo_topic [1, 2])")
    case True
    with r show ?thesis
      by (intro exI [of _ r] exI [of _ w1]) (simp only: if_True simp_thms)
  next
    case False
    with r(2) demo_sends_through t have "\<exists>topicName msg c2 w2. topic_is topicName [97, 47, 98] \<and>
        message_ok 0 1 1 258 [1, 2] msg \<and>
        snd w2 = snd (fold (\<lambda>f. call_handler demo_env f \<lparr>md_topic = topicName, md_message = msg\<rparr>) [5] w1)
          @ ack_wire MQTTPACKET_PUBACK 0 258 \<and>
        cycle demo_env demo_client \<lparr>end_time = 100\<rparr> ?w = keepalive_verdict demo_env c2 w2"
      unfolding if_not_P [OF False] by metis
    with r(1) False show ?thesis
      by (intro exI [of _ r] exI [of _ w1]) (simp only: if_False simp_thms)
  qed
qed

text \<open>
  C24: the client invariant. From a client set up by \<^verbatim>\<open>mqtt_client_new\<close>, every sequence of
  interface calls on any network keeps the buffer sizes, the size of the handler table, the
  packet identifier within 16 bits and the connected flag 0 or 1.
\<close>

theorem client_invariant:
  assumes "length (messageHandlers c0) = MQTT_MAX_MESSAGE_HANDLERS" and "next_packetid c0 \<le> MQTT_MAX_PACKET_ID"
    and "length b = unat b_size" and "length rb = unat rb_size"
    and "(api_step env)\<^sup>*\<^sup>* (mqtt_client_new c0 net ms b b_size rb rb_size) c"
  shows "client_inv c"
proof -
  have "client_inv (mqtt_client_new c0 net ms b b_size rb rb_size)"
    using assms by (simp add: mqtt_client_new_def client_inv_def)
  with api_reachable_keeps [OF assms(5)] show ?thesis
    by (simp add: call_keeps_def)
qed

theorem client_invariant_witness:
  "\<exists>rc c w'. mqtt_connect demo_env (mqtt_client_new demo_raw demo_net 1000 (replicate 16 0) 16 (replicate 16 0) 16)
       None ([32, 2, 0, 0], []) = Some (rc, c, w') \<and> client_inv c"
proof -
  let ?c0 = "mqtt_client_new demo_raw demo_net 1000 (replicate 16 0) 16 (replicate 16 0) 16"
  have "mqtt_connect demo_env ?c0 None ([32, 2, 0, 0], []) \<noteq> None"
    by code_simp
  then obtain rc c w' where r: "mqtt_connect demo_env ?c0 None ([32, 2, 0, 0], []) = Some (rc, c, w')"
    by (metis not_None_eq prod_cases3)
  then have "(api_step demo_env)\<^sup>*\<^sup>* ?c0 c"
    by (blast intro: api_connect)
  with client_invariant [of demo_raw "replicate 16 0" 16 "replicate 16 0" 16 demo_env demo_net 1000 c] r show ?thesis
    by (simp add: demo_raw_def)
qed

text \<open>
  No call of the interface frees or changes an occupied handler slot, also not
  \<^verbatim>\<open>mqtt_unsubscribe\<close> of its topic filter: its handler keeps receiving messages, and after five
  subscriptions the table stays full.
\<close>

theorem handler_slots_never_freed:
  assumes "(api_step env)\<^sup>*\<^sup>* c c'" and "i < length (messageHandlers c)"
    and "topicFilter (messageHandlers c ! i) = Some filt"
  shows "messageHandlers c' ! i = messageHandlers c ! i"
  using api_reachable_keeps [OF assms(1)] assms(2,3) by (auto simp: call_keeps_def slots_grow_def)

theorem handler_slots_never_freed_witness:
  "\<exists>c' w'. mqtt_unsubscribe demo_env demo_client [97, 47, 43] ([176, 2, 0, 1], []) = Some (0, c', w') \<and>
     messageHandlers c' ! 0 = \<lparr>topicFilter = Some [97, 47, 43], fp = Some 5\<rparr>"
proof -
  have "case mqtt_unsubscribe demo_env demo_client [97, 47, 43] ([176, 2, 0, 1], []) of
      None \<Rightarrow> False | Some (rc, _) \<Rightarrow> rc = 0"
    by code_simp
  then obtain c' w' where r: "mqtt_unsubscribe demo_env demo_client [97, 47, 43] ([176, 2, 0, 1], []) = Some (0, c', w')"
    by (auto split: option.splits)
  then have "(api_step demo_env)\<^sup>*\<^sup>* demo_client c'"
    by (blast intro: api_unsubscribe)
  from handler_slots_never_freed [OF this, of 0 "[97, 47, 43]"] r show ?thesis
    by simp
qed

text \<open>
  An unanswered ping. When the ping timer expires while a ping is outstanding, the first
  time is counted and the timer set again; the next one gives up with the code for a lost
  connection, but leaves the connected flag set, so that \<^verbatim>\<open>mqtt_connect\<close> refuses to connect
  again and changes nothing.
\<close>

theorem keepalive_failure:
  assumes "ckeepAliveInterval c \<noteq> 0" and "ping_outstanding c \<noteq> 0" and "isconnected c \<noteq> 0"
    and "mqtt_timer_expired (tick_count env) (ping_timer c) w = (True, w1)"
    and "0 \<le> fail_count c" and "fail_count c < 2 ^ 31 - 1"
  shows "if fail_count c = 0
     then \<exists>pt w2. keepalive env c w = Some (MQTT_SUCCESS, c\<lparr>fail_count := 1, ping_timer := pt\<rparr>, w2)
     else keepalive env c w = Some (MQTT_DISCONNECTED, c\<lparr>fail_count := fail_count c + 1\<rparr>, w1) \<and>
       (\<forall>opts w2. \<exists>w3. mqtt_connect env (c\<lparr>fail_count := fail_count c + 1\<rparr>) opts w2 =
          Some (MQTT_FAILURE, c\<lparr>fail_count := fail_count c + 1\<rparr>, w3))"
proof -
  obtain pt w2 where pt: "mqtt_timer_countdown (tick_count env) (ping_timer c) (ckeepAliveInterval c) w1 = (pt, w2)"
    by fastforce
  have ping: "keepalive_ping env c w1 = Some (fail_count c + 1 \<ge> 2, c\<lparr>fail_count := fail_count c + 1\<rparr>, w1)"
    using assms by (simp add: keepalive_ping_def c_int_Some)
  have "\<exists>w3. mqtt_connect env (c\<lparr>fail_count := fail_count c + 1\<rparr>) opts w2 =
          Some (MQTT_FAILURE, c\<lparr>fail_count := fail_count c + 1\<rparr>, w3)" for opts w2
    using assms(3) by (auto simp: mqtt_connect_def connect_exit_def split: prod.split)
  with ping pt assms show ?thesis
    by (auto simp: keepalive_def)
qed

theorem keepalive_failure_witness:
  "keepalive demo_env (demo_client\<lparr>ckeepAliveInterval := 5, ping_outstanding := 1, fail_count := 1\<rparr>) ([], []) =
     Some (MQTT_DISCONNECTED, demo_client\<lparr>ckeepAliveInterval := 5, ping_outstanding := 1, fail_count := 2\<rparr>, ([], []))"
proof -
  let ?c = "demo_client\<lparr>ckeepAliveInterval := 5, ping_outstanding := 1, fail_count := 1\<rparr>"
  have "ping_timer ?c = \<lparr>end_time = 0\<rparr>"
    by (simp add: demo_client_def demo_raw_def mqtt_client_new_def mqtt_timer_init_def)
  then have "mqtt_timer_expired (tick_count demo_env) (ping_timer ?c) ([], []) = (True, ([], []))"
    by (simp add: mqtt_timer_expired_def demo_env_def)
  with keepalive_failure [of ?c demo_env "([], [])" "([], [])"] show ?thesis
    by simp
qed

text \<open>
  A packet whose remaining length cannot be read. When the header byte arrives and the read
  of the first length byte then fails, \<^verbatim>\<open>read_packet\<close> reports a complete packet of the type in the
  header with remaining length 0, and no read error.
\<close>

theorem read_packet_length_timeout:
  assumes "mqtt_timer_left_ms (tick_count env) timer w = (l1, w1)"
    and "mqttread (ipstack c) (my_socket (ipstack c)) 1 l1 w1 = (1, [h], w2)"
    and "mqtt_timer_left_ms (tick_count env) timer w2 = (l2, w3)"
    and "mqttread (ipstack c) (my_socket (ipstack c)) 1 l2 w3 = (rc, bs, w4)" and "rc \<noteq> 1"
    and "2 \<le> length (readbuf c)" and "2 \<le> readbuf_size c"
  shows "read_packet env c timer w = Some (uint (hdr_type h), c\<lparr>readbuf := lay (readbuf c) [h, 0]\<rparr>, w4)"
proof -
  have d: "decode_packet (ipstack c) l2 w3 = Some (1, 0, w4)"
    using assms(4,5) by (simp add: decode_packet_def decode_packet_loop.simps)
  have e: "mqtt_packet_encode (lay (readbuf c) [h]) 1 0 = Some (1, lay (readbuf c) [h, 0])"
    using mqtt_packet_encode_eq [of "[h]" 0 "readbuf c"] assms(6) by (simp add: rl_bytes_small)
  have b: "write_block (readbuf c) 0 [h] = Some (lay (readbuf c) [h])"
    using write_block_lay [of "[]" "[h]" "readbuf c"] assms(6) by simp
  have "read_at (lay (readbuf c) [h, 0]) 0 = Some h"
    by (simp add: lay_def)
  moreover have "\<not> readbuf_size c < 2"
    using assms(7) by simp
  ultimately show ?thesis
    using assms(1-3) d e b by (simp add: read_packet_def Let_def)
qed

theorem read_packet_length_timeout_witness:
  "read_packet demo_env demo_client \<lparr>end_time = 100\<rparr> ([48], []) =
     Some (3, demo_client\<lparr>readbuf := 48 # replicate 15 0\<rparr>, ([], []))"
proof -
  have "uint (hdr_type 48) = 3" "lay (replicate 16 0) [48, 0] = 48 # replicate 15 (0 :: byte)"
    by code_simp+
  with read_packet_length_timeout [of demo_env "\<lparr>end_time = 100\<rparr>" "([48], [])" 9 "([48], [])" demo_client 48 "([], [])"
      9 "([], [])" "- 1" "[]" "([], [])"]
  show ?thesis
    by (simp add: mqtt_timer_left_ms_def demo_env_def demo_net_def)
qed

text \<open>
  Packet identifiers. A call of \<^verbatim>\<open>mqtt_publish\<close> with quality of service 1 or 2 on a connected
  client gives the message the next identifier, which is not 0, fits 16 bits without truncation
  and follows 65535 by 1.
\<close>

theorem publish_packet_id:
  assumes "mqtt_publish env c topic m w = Some (rc, m', c', w')" and "isconnected c \<noteq> 0"
    and "msg_qos m = 1 \<or> msg_qos m = 2" and "next_packetid c \<le> MQTT_MAX_PACKET_ID"
  shows "msg_id m' \<noteq> 0 \<and> unat (msg_id m') = unat (next_packetid c') \<and>
     next_packetid c' = (if next_packetid c = MQTT_MAX_PACKET_ID then 1 else next_packetid c + 1)"
proof -
  obtain n c1 where n: "get_next_packet_id c = (n, c1)"
    by fastforce
  then have v: "n = (if next_packetid c = MQTT_MAX_PACKET_ID then 1 else next_packetid c + 1)"
    by (auto simp: get_next_packet_id_def Let_def)
  have r: "msg_id m' = ucast n" "next_packetid c' = n"
    using holdsD [OF publish_takes_id [OF assms(2,3) n] assms(1)] by simp_all
  have "unat n \<le> 65535" "1 \<le> unat n"
    using next_packet_id_range [OF n assms(4)] by (simp_all add: word_le_nat_alt)
  moreover from this have "unat (ucast n :: u16) = unat n"
    by (simp add: unsigned_ucast_eq take_bit_nat_eq_self)
  ultimately show ?thesis
    using r v by (auto simp: word_unat_eq_iff)
qed

theorem publish_packet_id_witness:
  "\<exists>m' c' w'. mqtt_publish demo_env demo_client [97]
       \<lparr>msg_qos = 1, msg_retained = 0, msg_dup = 0, msg_id = 0, msg_payload = [5, 6], msg_payloadlen = 2\<rparr>
       ([64, 2, 0, 1], []) = Some (0, m', c', w') \<and> unat (msg_id m') = unat (next_packetid c') \<and> next_packetid c' = 1"
proof -
  let ?m = "\<lparr>msg_qos = 1, msg_retained = 0, msg_dup = 0, msg_id = 0, msg_payload = [5, 6], msg_payloadlen = 2\<rparr>"
  have "case mqtt_publish demo_env demo_client [97] ?m ([64, 2, 0, 1], []) of
      None \<Rightarrow> False | Some (rc, _) \<Rightarrow> rc = 0"
    by code_simp
  then obtain m' c' w' where r: "mqtt_publish demo_env demo_client [97] ?m ([64, 2, 0, 1], []) = Some (0, m', c', w')"
    by (auto split: option.splits)
  with publish_packet_id [OF r] show ?thesis
    by simp
qed

text \<open>
  The connected flag. A call of \<^verbatim>\<open>mqtt_connect\<close> on a connected client fails and changes nothing;
  on another client that returns, the flag is set exactly when the code returned is 0, that is
  the broker accepted.
\<close>

theorem connect_flag:
  assumes "mqtt_connect env c opts w = Some (rc, c', w')"
  shows "if isconnected c \<noteq> 0 then rc = MQTT_FAILURE \<and> c' = c
     else isconnected c' = (if rc = MQTT_SUCCESS then 1 else 0)"
proof -
  have f: "isconnected c1 = 0 \<Longrightarrow> client_frame c1 c2 \<Longrightarrow> isconnected c2 = 0" for c1 c2 :: "'a mqtt_client_t"
    by (auto simp: client_frame_def)
  have "holds (\<lambda>(rc, c', w'). if isconnected c \<noteq> 0 then rc = MQTT_FAILURE \<and> c' = c
     else isconnected c' = (if rc = MQTT_SUCCESS then 1 else 0)) (mqtt_connect env c opts w)"
    unfolding mqtt_connect_def connect_exit_def
    by (intro holds_intros)
      (auto dest!: framedD [OF framed_send_packet] framedD [OF framed_waitfor] f [rotated])
  with assms show ?thesis
    by (auto dest: holdsD)
qed

theorem connect_flag_witness:
  "\<exists>c w'. mqtt_connect demo_env (demo_client\<lparr>isconnected := 0\<rparr>) None ([32, 2, 0, 5], []) = Some (5, c, w') \<and>
     isconnected c = 0"
proof -
  have "case mqtt_connect demo_env (demo_client\<lparr>isconnected := 0\<rparr>) None ([32, 2, 0, 5], []) of
      None \<Rightarrow> False | Some (rc, _) \<Rightarrow> rc = 5"
    by code_simp
  then obtain c w' where r: "mqtt_connect demo_env (demo_client\<lparr>isconnected := 0\<rparr>) None ([32, 2, 0, 5], []) = Some (5, c, w')"
    by (auto split: option.splits)
  with connect_flag [OF r] show ?thesis
    by simp
qed

end
