(* ===== verification/Spi_Flash.thy ===== *)
theory Spi_Flash
  imports Prelude
begin

text \<open>
  The SPI flash layer, \<^verbatim>\<open>src/open_esplibs/libmain/spi_flash.c\<close>: writes split at page
  boundaries, reads, sector erases, and the wrappers the rest of the system calls. The boot
  ROM functions it calls are parameters acting on a device of arbitrary type \<open>'d\<close>. Addresses
  and sizes are natural numbers, with the 32-bit reduction written out.

  The behaviour of the ROM functions on a NOR flash is the locale \<^verbatim>\<open>nor_rom\<close>: reading returns
  the bytes stored, programming within a page clears bits, erasing a sector sets them.
\<close>

section \<open>The chip and the ROM\<close>

record sdk_flashchip_t =
  device_id :: nat
  chip_size :: nat
  block_size :: nat
  sector_size :: nat
  page_size :: nat
  status_mask :: nat

definition sdk_flashchip :: sdk_flashchip_t where
  "sdk_flashchip =
     \<lparr>device_id = 0x001640ef, chip_size = 4 * 1024 * 1024, block_size = 65536, sector_size = 4096,
      page_size = 256, status_mask = 0xffff\<rparr>"

text \<open>
  The calls into the ROM. A non-zero code is a failure. \<^verbatim>\<open>enter_flash\<close> stands for
  \<^verbatim>\<open>portENTER_CRITICAL(); Cache_Read_Disable()\<close> and \<^verbatim>\<open>exit_flash\<close> for the two calls that undo it.
  \<^verbatim>\<open>mem_after\<close> gives the bytes that happen to follow an object in memory.
\<close>

record 'd flash_env =
  chip :: sdk_flashchip_t
  SPI_page_program :: "nat \<Rightarrow> byte list \<Rightarrow> 'd \<Rightarrow> int \<times> 'd"
  SPI_read_data :: "nat \<Rightarrow> nat \<Rightarrow> 'd \<Rightarrow> int \<times> byte list \<times> 'd"
  SPI_write_enable :: "'d \<Rightarrow> int \<times> 'd"
  SPI_sector_erase :: "nat \<Rightarrow> 'd \<Rightarrow> int \<times> 'd"
  SPI_read_status :: "'d \<Rightarrow> int \<times> nat \<times> 'd"
  SPI_write_status :: "nat \<Rightarrow> 'd \<Rightarrow> int \<times> 'd"
  enter_flash :: "'d \<Rightarrow> 'd"
  exit_flash :: "'d \<Rightarrow> 'd"
  mem_after :: "nat \<Rightarrow> byte"

abbreviation (input) SPI_FLASH_RESULT_OK :: int where "SPI_FLASH_RESULT_OK \<equiv> 0"
abbreviation (input) SPI_FLASH_RESULT_ERR :: int where "SPI_FLASH_RESULT_ERR \<equiv> 1"

section \<open>Operations\<close>

text \<open>The loop over the full pages: the code, the position reached and the device.\<close>

fun write_pages ::
  "'d flash_env \<Rightarrow> nat \<Rightarrow> byte list \<Rightarrow> nat \<Rightarrow> nat \<Rightarrow> 'd \<Rightarrow> int \<times> nat \<times> 'd" where
  "write_pages env des_addr src 0 pos d = (SPI_FLASH_RESULT_OK, pos, d)"
| "write_pages env des_addr src (Suc i) pos d =
     (let ps = page_size (chip env);
          (r, d1) = SPI_page_program env (add32 des_addr pos) (block_at (4 * (pos div 4)) ps src) d
      in if r \<noteq> 0 then (SPI_FLASH_RESULT_ERR, pos, d1)
         else write_pages env des_addr src i (add32 pos ps) d1)"

text \<open>
  \<^verbatim>\<open>sdk_SPIWrite\<close>: the source pointer counts words, so the data of a later page starts at the
  position rounded down to a multiple of four.
\<close>

definition sdk_SPIWrite :: "'d flash_env \<Rightarrow> nat \<Rightarrow> byte list \<Rightarrow> nat \<Rightarrow> 'd \<Rightarrow> int \<times> 'd" where
  "sdk_SPIWrite env des_addr src n d =
     (let ps = page_size (chip env);
          first_page_portion = ps - des_addr mod ps
      in if add32 des_addr n \<le> chip_size (chip env) then
           (if n < first_page_portion then
              (let (r, d1) = SPI_page_program env des_addr (take n src) d
               in (if r \<noteq> 0 then SPI_FLASH_RESULT_ERR else SPI_FLASH_RESULT_OK, d1))
            else
              (let (r, d1) = SPI_page_program env des_addr (take first_page_portion src) d
               in if r \<noteq> 0 then (SPI_FLASH_RESULT_ERR, d1)
                  else let bytes_remaining = n - first_page_portion;
                           full_pages = bytes_remaining div ps;
                           (r2, pos, d2) = write_pages env des_addr src full_pages first_page_portion d1
                    in if r2 \<noteq> 0 then (SPI_FLASH_RESULT_ERR, d2)
                       else let (r3, d3) = SPI_page_program env (add32 des_addr pos)
                                  (block_at (4 * (pos div 4)) (sub32 n pos) src) d2
                         in (if r3 \<noteq> 0 then SPI_FLASH_RESULT_ERR else SPI_FLASH_RESULT_OK, d3)))
         else (SPI_FLASH_RESULT_ERR, d))"

definition sdk_SPIRead :: "'d flash_env \<Rightarrow> nat \<Rightarrow> nat \<Rightarrow> 'd \<Rightarrow> int \<times> byte list \<times> 'd" where
  "sdk_SPIRead env src_addr n d =
     (let (r, bs, d1) = SPI_read_data env src_addr n d
      in (if r \<noteq> 0 then SPI_FLASH_RESULT_ERR else SPI_FLASH_RESULT_OK, bs, d1))"

definition sdk_SPIEraseSector :: "'d flash_env \<Rightarrow> u16 \<Rightarrow> 'd \<Rightarrow> int \<times> 'd" where
  "sdk_SPIEraseSector env sec d =
     (if unat sec \<ge> chip_size (chip env) div sector_size (chip env) then (SPI_FLASH_RESULT_ERR, d)
      else let (r, d1) = SPI_write_enable env d
        in if r \<noteq> 0 then (SPI_FLASH_RESULT_ERR, d1)
           else let (r2, d2) = SPI_sector_erase env (sector_size (chip env) * unat sec mod 2 ^ 32) d1
             in (if r2 \<noteq> 0 then SPI_FLASH_RESULT_ERR else SPI_FLASH_RESULT_OK, d2))"

definition sdk_spi_flash_read_status :: "'d flash_env \<Rightarrow> 'd \<Rightarrow> int \<times> nat \<times> 'd" where
  "sdk_spi_flash_read_status env d =
     (let (r, status, d1) = SPI_read_status env (enter_flash env d) in (r, status, exit_flash env d1))"

definition sdk_spi_flash_write_status :: "'d flash_env \<Rightarrow> nat \<Rightarrow> 'd \<Rightarrow> int \<times> 'd" where
  "sdk_spi_flash_write_status env status d =
     (let (r, d1) = SPI_write_status env status (enter_flash env d) in (r, exit_flash env d1))"

definition sdk_spi_flash_erase_sector :: "'d flash_env \<Rightarrow> u16 \<Rightarrow> 'd \<Rightarrow> int \<times> 'd" where
  "sdk_spi_flash_erase_sector env sec d =
     (let (r, d1) = sdk_SPIEraseSector env sec (enter_flash env d) in (r, exit_flash env d1))"

text \<open>
  \<^verbatim>\<open>sdk_spi_flash_write\<close>: the size is rounded up to a multiple of four, so up to three bytes
  behind the source object are written too. The source \<^term>\<open>None\<close> is the null pointer.
\<close>

definition round_size :: "nat \<Rightarrow> nat" where
  "round_size n = (if n mod 4 \<noteq> 0 then add32 (n div 4 * 4) 4 else n)"

definition source_bytes :: "'d flash_env \<Rightarrow> byte list \<Rightarrow> nat \<Rightarrow> byte list" where
  "source_bytes env data n = take n (data @ map (mem_after env) [0..<n])"

definition sdk_spi_flash_write :: "'d flash_env \<Rightarrow> nat \<Rightarrow> byte list option \<Rightarrow> nat \<Rightarrow> 'd \<Rightarrow> int \<times> 'd" where
  "sdk_spi_flash_write env des_addr src_addr n d =
     (case src_addr of
        None \<Rightarrow> (SPI_FLASH_RESULT_ERR, d)
      | Some data \<Rightarrow>
          (let n' = round_size n;
               (r, d1) = sdk_SPIWrite env des_addr (source_bytes env data n') n' (enter_flash env d)
           in (r, exit_flash env d1)))"

definition sdk_spi_flash_read :: "'d flash_env \<Rightarrow> nat \<Rightarrow> nat \<Rightarrow> 'd \<Rightarrow> int \<times> byte list \<times> 'd" where
  "sdk_spi_flash_read env src_addr n d =
     (let (r, bs, d1) = sdk_SPIRead env src_addr n (enter_flash env d) in (r, bs, exit_flash env d1))"

section \<open>NOR flash\<close>

text \<open>Programming a block: every bit stays or becomes 0.\<close>

definition prog_block :: "byte list \<Rightarrow> nat \<Rightarrow> byte list \<Rightarrow> byte list" where
  "prog_block m a bs =
     take a m @ map2 (\<lambda>x y. x AND y) (block_at a (length bs) m) bs @ drop (a + length bs) m"

definition erase_block :: "byte list \<Rightarrow> nat \<Rightarrow> nat \<Rightarrow> byte list" where
  "erase_block m a n = take a m @ replicate n 0xff @ drop (a + n) m"

lemma length_prog_block [simp]: "a + length bs \<le> length m \<Longrightarrow> length (prog_block m a bs) = length m"
  by (simp add: prog_block_def block_at_def)

lemma length_erase_block [simp]: "a + n \<le> length m \<Longrightarrow> length (erase_block m a n) = length m"
  by (simp add: erase_block_def)

lemma prog_block_Nil [simp]: "prog_block m a [] = m"
  by (simp add: prog_block_def block_at_def)

text \<open>Programming two adjacent blocks is programming their concatenation.\<close>

lemma prog_block_append:
  assumes "a + length xs + length ys \<le> length m"
  shows "prog_block (prog_block m a xs) (a + length xs) ys = prog_block m a (xs @ ys)"
proof -
  define p where "p = take a m"
  define x where "x = block_at a (length xs) m"
  define y where "y = block_at (a + length xs) (length ys) m"
  define q where "q = drop (a + length xs + length ys) m"
  have "m = p @ drop a m" "drop a m = x @ drop (a + length xs) m"
    "drop (a + length xs) m = y @ q"
    unfolding p_def x_def y_def q_def block_at_def
    by (metis append_take_drop_id, metis append_take_drop_id drop_drop add.commute,
        metis append_take_drop_id drop_drop add.commute)
  then have m: "m = p @ x @ y @ q"
    by simp
  have len: "length p = a" "length x = length xs" "length y = length ys"
    using assms by (simp_all add: p_def x_def y_def block_at_def)
  show ?thesis
    unfolding prog_block_def block_at_def using len by (simp add: m)
qed

lemma nth_prog_block:
  assumes "a + length bs \<le> length m" and "i < length m"
  shows "prog_block m a bs ! i = (if a \<le> i \<and> i < a + length bs then m ! i AND bs ! (i - a) else m ! i)"
  using assms by (auto simp: prog_block_def block_at_def nth_append)

lemma nth_erase_block:
  assumes "a + k \<le> length m" and "i < length m"
  shows "erase_block m a k ! i = (if a \<le> i \<and> i < a + k then 0xff else m ! i)"
  using assms by (auto simp: erase_block_def nth_append)

lemma block_at_prog_same:
  "a + length bs \<le> length m \<Longrightarrow>
     block_at a (length bs) (prog_block m a bs) = map2 (\<lambda>x y. x AND y) (block_at a (length bs) m) bs"
  by (simp add: prog_block_def block_at_def)

lemma block_at_prog_other:
  "a + length bs \<le> length m \<Longrightarrow> b + n \<le> a \<or> a + length bs \<le> b \<Longrightarrow>
     block_at b n (prog_block m a bs) = block_at b n m"
  by (rule nth_equalityI) (auto simp: block_at_def nth_prog_block)

lemma block_at_erase_same: "a + n \<le> length m \<Longrightarrow> block_at a n (erase_block m a n) = replicate n 0xff"
  by (simp add: erase_block_def block_at_def)

lemma block_at_erase_other:
  "a + k \<le> length m \<Longrightarrow> b + n \<le> a \<or> a + k \<le> b \<Longrightarrow>
     block_at b n (erase_block m a k) = block_at b n m"
  by (rule nth_equalityI) (auto simp: block_at_def nth_erase_block)

lemma byte_and_ff [simp]: "(0xff :: byte) AND x = x"
proof -
  have "(0xff :: byte) = - 1" by simp
  then show ?thesis by (simp only: and.left_neutral)
qed

lemma map2_and_ff: "map2 (\<lambda>x y. x AND y) (replicate (length bs) (0xff :: byte)) bs = bs"
  by (induction bs) simp_all

text \<open>For sizes that do not overflow, rounding is to the next multiple of four.\<close>

lemma round_size_eq: "n + 3 < 2 ^ 32 \<Longrightarrow> round_size n = (n + 3) div 4 * 4"
proof -
  assume n: "n + 3 < 2 ^ 32"
  have "n = n div 4 * 4 + n mod 4" "n mod 4 < 4"
    by simp_all
  then have "(n + 3) div 4 = (if n mod 4 = 0 then n div 4 else n div 4 + 1)"
    by presburger
  moreover have "n mod 4 \<noteq> 0 \<Longrightarrow> n div 4 * 4 + 4 < 2 ^ 32"
    using n by presburger
  ultimately show ?thesis
    by (auto simp: round_size_def add32_no_wrap)
qed

locale nor_rom =
  fixes env :: "'d flash_env" and mem :: "'d \<Rightarrow> byte list"
  assumes chip_ok: "chip_size (chip env) < 2 ^ 32" "0 < page_size (chip env)" "4 dvd page_size (chip env)"
      "0 < sector_size (chip env)"
    and mem_size: "length (mem d) = chip_size (chip env)"
    and read: "a + n \<le> chip_size (chip env) \<Longrightarrow>
      \<exists>d'. SPI_read_data env a n d = (0, block_at a n (mem d), d') \<and> mem d' = mem d"
    and program: "a + length bs \<le> chip_size (chip env) \<Longrightarrow>
      a mod page_size (chip env) + length bs \<le> page_size (chip env) \<Longrightarrow>
      \<exists>d'. SPI_page_program env a bs d = (0, d') \<and> mem d' = prog_block (mem d) a bs"
    and enable: "\<exists>d'. SPI_write_enable env d = (0, d') \<and> mem d' = mem d"
    and erase: "a mod sector_size (chip env) = 0 \<Longrightarrow> a + sector_size (chip env) \<le> chip_size (chip env) \<Longrightarrow>
      \<exists>d'. SPI_sector_erase env a d = (0, d') \<and> mem d' = erase_block (mem d) a (sector_size (chip env))"
    and quiet: "mem (enter_flash env d) = mem d" "mem (exit_flash env d) = mem d"

begin

lemma flash_read:
  assumes "a + n \<le> chip_size (chip env)"
  shows "\<exists>d'. sdk_spi_flash_read env a n d = (0, block_at a n (mem d), d') \<and> mem d' = mem d"
  using read [OF assms, of "enter_flash env d"] quiet
  by (auto simp: sdk_spi_flash_read_def sdk_SPIRead_def)

text \<open>The page loop programs one block per page.\<close>

lemma write_pages_prog:
  assumes "4 dvd des" and "4 dvd pos" and "(des + pos) mod page_size (chip env) = 0"
    and "des + pos + i * page_size (chip env) \<le> chip_size (chip env)"
    and "pos + i * page_size (chip env) \<le> length src"
  shows "\<exists>d'. write_pages env des src i pos d = (0, pos + i * page_size (chip env), d') \<and>
     mem d' = prog_block (mem d) (des + pos) (block_at pos (i * page_size (chip env)) src)"
  using assms(2-)
proof (induction i arbitrary: pos d)
  case 0
  then show ?case by (simp add: block_at_def)
next
  case (Suc i)
  let ?ps = "page_size (chip env)"
  let ?b = "block_at pos ?ps src"
  have b: "length ?b = ?ps"
    using Suc.prems(4) by (simp add: block_at_def)
  have w: "add32 des pos = des + pos" "add32 pos ?ps = pos + ?ps"
    using Suc.prems(3) chip_ok(1) by (auto intro!: add32_no_wrap)
  obtain d1 where d1: "SPI_page_program env (des + pos) ?b d = (0, d1)"
    "mem d1 = prog_block (mem d) (des + pos) ?b"
    using program [of "des + pos" ?b d] Suc.prems(2,3) b by auto
  have p4: "4 * (pos div 4) = pos"
    using Suc.prems(1) by simp
  have IHp: "4 dvd pos + ?ps" "(des + (pos + ?ps)) mod ?ps = 0"
    using Suc.prems chip_ok(3) by (simp_all add: add.assoc [symmetric])
  obtain d' where d': "write_pages env des src i (pos + ?ps) d1 = (0, pos + ?ps + i * ?ps, d')"
    "mem d' = prog_block (mem d1) (des + (pos + ?ps)) (block_at (pos + ?ps) (i * ?ps) src)"
    using Suc.IH [OF IHp, of d1] Suc.prems(3,4) by (auto simp: algebra_simps)
  have "prog_block (prog_block (mem d) (des + pos) ?b) (des + pos + length ?b) (block_at (pos + ?ps) (i * ?ps) src) =
      prog_block (mem d) (des + pos) (?b @ block_at (pos + ?ps) (i * ?ps) src)"
    using Suc.prems(3) mem_size by (intro prog_block_append) (simp add: block_at_def b algebra_simps)
  moreover have "?b @ block_at (pos + ?ps) (i * ?ps) src = block_at pos (Suc i * ?ps) src"
    by (simp add: block_at_def take_add add.commute)
  ultimately have m: "mem d' = prog_block (mem d) (des + pos) (block_at pos (Suc i * ?ps) src)"
    using d1(2) d'(2) b by (simp add: add.assoc)
  have "write_pages env des src (Suc i) pos d = (0, pos + Suc i * ?ps, d')"
    using d1(1) d'(1) w p4 by (simp add: Let_def)
  with m show ?case
    by blast
qed

lemma SPIWrite_prog:
  assumes "4 dvd des" and "des + n \<le> chip_size (chip env)" and "length src = n"
  shows "\<exists>d'. sdk_SPIWrite env des src n d = (0, d') \<and> mem d' = prog_block (mem d) des src"
proof -
  let ?ps = "page_size (chip env)"
  define f where "f = ?ps - des mod ?ps"
  have w: "add32 des n = des + n"
    using assms(2) chip_ok(1) by (simp add: add32_no_wrap)
  have f: "0 < f" "des mod ?ps + f = ?ps" "4 dvd f" "(des + f) mod ?ps = 0"
  proof -
    have lt: "des mod ?ps < ?ps"
      using chip_ok(2) by simp
    then show "0 < f" and sum: "des mod ?ps + f = ?ps"
      by (simp_all add: f_def)
    have "4 dvd des mod ?ps"
      using assms(1) chip_ok(3) by (simp add: dvd_mod)
    then show "4 dvd f"
      using chip_ok(3) lt by (simp add: f_def)
    have "des + f = des div ?ps * ?ps + (des mod ?ps + f)"
      by (metis add.assoc div_mult_mod_eq)
    then show "(des + f) mod ?ps = 0"
      by (simp add: sum)
  qed
  show ?thesis
  proof (cases "n < f")
    case True
    then obtain d' where "SPI_page_program env des src d = (0, d')" "mem d' = prog_block (mem d) des src"
      using program [of des src d] assms(2,3) f by auto
    with True w assms(2,3) show ?thesis
      by (simp add: sdk_SPIWrite_def f_def [symmetric] Let_def)
  next
    case False
    define k where "k = (n - f) div ?ps"
    define pos where "pos = f + k * ?ps"
    have pos: "pos \<le> n" "n - pos < ?ps" "n - pos = (n - f) mod ?ps"
    proof -
      have "k * ?ps + (n - f) mod ?ps = n - f"
        by (simp add: k_def)
      moreover have "(n - f) mod ?ps < ?ps"
        using chip_ok(2) by simp
      ultimately show "pos \<le> n" "n - pos = (n - f) mod ?ps" "n - pos < ?ps"
        using False by (simp_all add: pos_def)
    qed
    obtain d1 where d1: "SPI_page_program env des (take f src) d = (0, d1)"
      "mem d1 = prog_block (mem d) des (take f src)"
      using program [of des "take f src" d] assms(2,3) f False by auto
    obtain d2 where d2: "write_pages env des src k f d1 = (0, pos, d2)"
      "mem d2 = prog_block (mem d1) (des + f) (block_at f (k * ?ps) src)"
      using write_pages_prog [of des f k src d1] assms f pos(1) by (auto simp: pos_def)
    have dp: "(des + pos) mod ?ps = 0" "4 dvd pos"
      using f(3,4) chip_ok(3) by (simp_all add: pos_def add.assoc [symmetric])
    let ?last = "block_at pos (n - pos) src"
    have last: "length ?last = n - pos"
      using assms(3) by (simp add: block_at_def)
    obtain d3 where d3: "SPI_page_program env (des + pos) ?last d2 = (0, d3)"
      "mem d3 = prog_block (mem d2) (des + pos) ?last"
      using program [of "des + pos" ?last d2] assms(2) pos(1,2) dp(1) last by auto
    have wr: "add32 des pos = des + pos" "sub32 n pos = n - pos"
      using assms(2) pos(1) chip_ok(1) by (auto intro!: add32_no_wrap sub32_no_wrap)
    have src: "take f src @ block_at f (k * ?ps) src @ ?last = src"
      using assms(3) pos(1) by (simp add: block_at_def pos_def take_add [symmetric] append_assoc [symmetric]
          del: append_assoc)
    have mem: "mem d3 = prog_block (mem d) des src"
    proof -
      have l: "length (take f src) = f" "length (block_at f (k * ?ps) src) = k * ?ps"
        using assms(3) False pos(1) by (auto simp: block_at_def pos_def)
      have "mem d2 = prog_block (mem d) des (take f src @ block_at f (k * ?ps) src)"
        using prog_block_append [of des "take f src" "block_at f (k * ?ps) src" "mem d"] d1(2) d2(2) l assms(2)
          pos(1) mem_size by (simp add: pos_def)
      then show ?thesis
        using prog_block_append [of des "take f src @ block_at f (k * ?ps) src" ?last "mem d"] d3(2) l assms(2)
          pos(1) mem_size last src by (simp add: pos_def add.assoc)
    qed
    have p4: "4 * (pos div 4) = pos"
      using dp(2) by simp
    show ?thesis
      using False w assms(2) d1(1) d2(1) d3(1) wr mem
      by (simp add: sdk_SPIWrite_def f_def [symmetric] k_def [symmetric] Let_def p4)
  qed
qed

text \<open>The wrapper pads the data to whole words with what follows the object in memory.\<close>

lemma flash_write:
  assumes "4 dvd a" and "a + round_size (length bs) \<le> chip_size (chip env)"
  shows "\<exists>d'. sdk_spi_flash_write env a (Some bs) (length bs) d = (0, d') \<and>
     mem d' = prog_block (mem d) a (source_bytes env bs (round_size (length bs)))"
proof -
  have "length (source_bytes env bs (round_size (length bs))) = round_size (length bs)"
    by (simp add: source_bytes_def)
  then show ?thesis
    using SPIWrite_prog [OF assms(1,2), of "source_bytes env bs (round_size (length bs))" "enter_flash env d"] quiet
    by (auto simp: sdk_spi_flash_write_def Let_def)
qed

lemma source_bytes_split:
  "length bs \<le> n \<Longrightarrow> source_bytes env bs n = bs @ map (mem_after env) [0..<n - length bs]"
  by (simp add: source_bytes_def take_map take_upt)

lemma write_read_back:
  assumes "4 dvd a" and "length bs + 3 < 2 ^ 32" and "a + (length bs + 3) div 4 * 4 \<le> chip_size (chip env)"
  shows "\<exists>d1 pad. sdk_spi_flash_write env a (Some bs) (length bs) d = (SPI_FLASH_RESULT_OK, d1) \<and>
     length pad < 4 \<and> 4 dvd length (bs @ pad) \<and> mem d1 = prog_block (mem d) a (bs @ pad) \<and>
     (block_at a (length bs) (mem d) = replicate (length bs) 0xff \<longrightarrow>
       (\<exists>d2. sdk_spi_flash_read env a (length bs) d1 = (SPI_FLASH_RESULT_OK, bs, d2) \<and> mem d2 = mem d1))"
proof -
  let ?n = "length bs" and ?r = "round_size (length bs)"
  have r: "?r = (?n + 3) div 4 * 4" "?n \<le> ?r" "?r < ?n + 4"
    using round_size_eq [OF assms(2)] by (simp, presburger, presburger)
  define pad where "pad = map (mem_after env) [0..<?r - ?n]"
  have pad: "source_bytes env bs ?r = bs @ pad" "length pad = ?r - ?n"
    using source_bytes_split [OF r(2)] by (simp_all add: pad_def)
  obtain d1 where d1: "sdk_spi_flash_write env a (Some bs) ?n d = (0, d1)" "mem d1 = prog_block (mem d) a (bs @ pad)"
    using flash_write [OF assms(1), of bs d] assms(3) r(1) pad(1) by auto
  have fits: "a + length (bs @ pad) \<le> length (mem d)"
    using assms(3) r pad(2) mem_size by simp
  have stored: "block_at a ?n (mem d) = replicate ?n 0xff \<Longrightarrow> block_at a ?n (mem d1) = bs"
  proof -
    assume erased: "block_at a ?n (mem d) = replicate ?n 0xff"
    have "block_at a ?n (mem d1) = take ?n (block_at a (length (bs @ pad)) (mem d1))"
      by (simp add: block_at_def)
    also have "\<dots> = take ?n (map2 (\<lambda>x y. x AND y) (block_at a (length (bs @ pad)) (mem d)) (bs @ pad))"
      using block_at_prog_same [OF fits] d1(2) by simp
    also have "\<dots> = map2 (\<lambda>x y. x AND y) (block_at a ?n (mem d)) bs"
      by (simp add: take_map take_zip block_at_def)
    finally show "block_at a ?n (mem d1) = bs"
      using erased by (simp add: map2_and_ff)
  qed
  have "a + ?n \<le> chip_size (chip env)"
    using assms(3) r by simp
  from flash_read [OF this, of d1] stored d1 pad r show ?thesis
    by (intro exI [of _ d1] exI [of _ pad]) auto
qed

lemma flash_erase:
  assumes "unat sec < chip_size (chip env) div sector_size (chip env)"
  shows "\<exists>d'. sdk_spi_flash_erase_sector env sec d = (0, d') \<and>
     mem d' = erase_block (mem d) (sector_size (chip env) * unat sec) (sector_size (chip env))"
proof -
  let ?ss = "sector_size (chip env)" and ?a = "sector_size (chip env) * unat sec"
  have "?ss * (unat sec + 1) \<le> ?ss * (chip_size (chip env) div ?ss)"
    using assms by (intro mult_le_mono2) simp
  also have "\<dots> \<le> chip_size (chip env)"
    by simp
  finally have fits: "?a + ?ss \<le> chip_size (chip env)"
    by simp
  obtain d1 where d1: "SPI_write_enable env (enter_flash env d) = (0, d1)" "mem d1 = mem d"
    using enable [of "enter_flash env d"] quiet by auto
  obtain d2 where "SPI_sector_erase env ?a d1 = (0, d2)" "mem d2 = erase_block (mem d1) ?a ?ss"
    using erase [OF _ fits, of d1] by auto
  moreover have "?a mod 2 ^ 32 = ?a"
    using fits chip_ok by simp
  ultimately show ?thesis
    using assms d1 quiet by (simp add: sdk_spi_flash_erase_sector_def sdk_SPIEraseSector_def Let_def)
qed

end

section \<open>A simulated chip\<close>

text \<open>
  A NOR flash as a list of bytes, for concrete runs: the ROM functions as documented, on a
  chip of any geometry. Contents beyond the list read as erased.
\<close>

definition sim_mem :: "sdk_flashchip_t \<Rightarrow> byte list \<Rightarrow> byte list" where
  "sim_mem ch d = take (chip_size ch) (d @ replicate (chip_size ch) 0xff)"

definition sim_env :: "sdk_flashchip_t \<Rightarrow> byte list flash_env" where
  "sim_env ch = \<lparr>chip = ch,
     SPI_page_program = (\<lambda>a bs d. (0, prog_block (sim_mem ch d) a bs)),
     SPI_read_data = (\<lambda>a n d. (0, block_at a n (sim_mem ch d), d)),
     SPI_write_enable = (\<lambda>d. (0, d)),
     SPI_sector_erase = (\<lambda>a d. (0, erase_block (sim_mem ch d) a (sector_size ch))),
     SPI_read_status = (\<lambda>d. (0, 0, d)), SPI_write_status = (\<lambda>s d. (0, d)),
     enter_flash = id, exit_flash = id, mem_after = (\<lambda>i. 0xee)\<rparr>"

lemma sim_mem_id: "length d = chip_size ch \<Longrightarrow> sim_mem ch d = d"
  by (simp add: sim_mem_def)

lemma nor_rom_sim:
  assumes "chip_size ch < 2 ^ 32" "0 < page_size ch" "4 dvd page_size ch" "0 < sector_size ch"
  shows "nor_rom (sim_env ch) (sim_mem ch)"
  using assms
  by unfold_locales (auto simp: sim_env_def sim_mem_id, simp_all add: sim_mem_def)

text \<open>The geometry \<^verbatim>\<open>sdk_flashchip\<close> is initialised with, and a small one.\<close>

interpretation chip4M: nor_rom "sim_env sdk_flashchip" "sim_mem sdk_flashchip"
  by (rule nor_rom_sim) (simp_all add: sdk_flashchip_def)

definition small_chip :: sdk_flashchip_t where
  "small_chip = sdk_flashchip\<lparr>chip_size := 512, sector_size := 64, page_size := 16\<rparr>"

interpretation small: nor_rom "sim_env small_chip" "sim_mem small_chip"
  by (rule nor_rom_sim) (simp_all add: small_chip_def sdk_flashchip_def)

section \<open>Properties\<close>

text \<open>
  Writing to flash. On a NOR flash, a write of any length to a word-aligned address that
  ends on the chip succeeds, whatever pages it crosses: exactly the words it covers are
  programmed, with the data and then, up to the word boundary, the bytes that follow the data
  in memory; reading the written range back gives the data when the range was erased.
\<close>

theorem flash_write_read:
  assumes "nor_rom env mem" and "4 dvd a" and "length bs + 3 < 2 ^ 32"
    and "a + (length bs + 3) div 4 * 4 \<le> chip_size (chip env)"
  shows "\<exists>d1 pad. sdk_spi_flash_write env a (Some bs) (length bs) d = (SPI_FLASH_RESULT_OK, d1) \<and>
     length pad < 4 \<and> 4 dvd length (bs @ pad) \<and> mem d1 = prog_block (mem d) a (bs @ pad) \<and>
     (block_at a (length bs) (mem d) = replicate (length bs) 0xff \<longrightarrow>
       (\<exists>d2. sdk_spi_flash_read env a (length bs) d1 = (SPI_FLASH_RESULT_OK, bs, d2) \<and> mem d2 = mem d1))"
  by (rule nor_rom.write_read_back [OF assms])

theorem flash_write_read_witness:
  "\<exists>d1 pad. sdk_spi_flash_write (sim_env small_chip) 12 (Some [1, 2, 3, 4, 5]) 5 [] = (SPI_FLASH_RESULT_OK, d1) \<and>
     length pad < 4 \<and> sim_mem small_chip d1 = prog_block (sim_mem small_chip []) 12 ([1, 2, 3, 4, 5] @ pad) \<and>
     (\<exists>d2. sdk_spi_flash_read (sim_env small_chip) 12 5 d1 = (SPI_FLASH_RESULT_OK, [1, 2, 3, 4, 5], d2))"
proof -
  have "block_at 12 5 (sim_mem small_chip []) = replicate 5 0xff" "chip_size (chip (sim_env small_chip)) = 512"
    by (simp_all add: sim_mem_def block_at_def small_chip_def sim_env_def)
  moreover have "length [1, 2, 3, 4, 5 :: byte] = 5"
    by simp
  ultimately show ?thesis
    using flash_write_read [OF small.nor_rom_axioms, of 12 "[1, 2, 3, 4, 5]" "[]"]
    by (simp del: prog_block_Nil list.size) blast
qed

end
