(* ===== verification/Sysparam.thy ===== *)
theory Sysparam
  imports Spi_Flash
begin

text \<open>
  Persistent system parameters, \<^verbatim>\<open>src/core/sysparam.c\<close>: a log of key and value entries in one of
  two flash regions, searched linearly, appended to, and compacted into the other region when it
  is full. This theory holds the data and the operations; the scanning loops are partial
  functions into the option type, where \<^term>\<open>None\<close> is a loop that does not end.

  Flash addresses and sizes are natural numbers with the 32-bit reduction written out, the
  16-bit identifier and flag field of an entry is a machine word. A function that changes the
  module's state takes the state record and returns it.
\<close>

section \<open>Data\<close>

abbreviation (input) SYSPARAM_OK :: int where "SYSPARAM_OK \<equiv> 0"
abbreviation (input) SYSPARAM_NOTFOUND :: int where "SYSPARAM_NOTFOUND \<equiv> 1"
abbreviation (input) SYSPARAM_PARSEFAILED :: int where "SYSPARAM_PARSEFAILED \<equiv> 2"
abbreviation (input) SYSPARAM_ERR_NOINIT :: int where "SYSPARAM_ERR_NOINIT \<equiv> - 1"
abbreviation (input) SYSPARAM_ERR_BADVALUE :: int where "SYSPARAM_ERR_BADVALUE \<equiv> - 2"
abbreviation (input) SYSPARAM_ERR_FULL :: int where "SYSPARAM_ERR_FULL \<equiv> - 3"
abbreviation (input) SYSPARAM_ERR_IO :: int where "SYSPARAM_ERR_IO \<equiv> - 4"
abbreviation (input) SYSPARAM_ERR_CORRUPT :: int where "SYSPARAM_ERR_CORRUPT \<equiv> - 5"
abbreviation (input) SYSPARAM_ERR_NOMEM :: int where "SYSPARAM_ERR_NOMEM \<equiv> - 6"

abbreviation (input) SYSPARAM_MAGIC :: nat where "SYSPARAM_MAGIC \<equiv> 0x70524f45"
abbreviation (input) DEFAULT_ITER_BUF_SIZE :: nat where "DEFAULT_ITER_BUF_SIZE \<equiv> 64"
abbreviation (input) SCAN_BUFFER_SIZE :: nat where "SCAN_BUFFER_SIZE \<equiv> 8"
abbreviation (input) VERIFY_BUF_SIZE :: nat where "VERIFY_BUF_SIZE \<equiv> 64"
abbreviation (input) REGION_HEADER_SIZE :: nat where "REGION_HEADER_SIZE \<equiv> 8"
abbreviation (input) ENTRY_HEADER_SIZE :: nat where "ENTRY_HEADER_SIZE \<equiv> 4"
abbreviation (input) MAX_VALUE_LEN :: nat where "MAX_VALUE_LEN \<equiv> 0xffff"
abbreviation (input) MAX_KEY_ID :: u16 where "MAX_KEY_ID \<equiv> 0x0ffe"

abbreviation (input) REGION_FLAG_SECOND :: u16 where "REGION_FLAG_SECOND \<equiv> 0x8000"
abbreviation (input) REGION_FLAG_ACTIVE :: u16 where "REGION_FLAG_ACTIVE \<equiv> 0x4000"
abbreviation (input) REGION_MASK_SIZE :: u16 where "REGION_MASK_SIZE \<equiv> 0x0fff"
abbreviation (input) ENTRY_FLAG_ALIVE :: u16 where "ENTRY_FLAG_ALIVE \<equiv> 0x8000"
abbreviation (input) ENTRY_FLAG_INVALID :: u16 where "ENTRY_FLAG_INVALID \<equiv> 0x4000"
abbreviation (input) ENTRY_FLAG_VALUE :: u16 where "ENTRY_FLAG_VALUE \<equiv> 0x2000"
abbreviation (input) ENTRY_FLAG_BINARY :: u16 where "ENTRY_FLAG_BINARY \<equiv> 0x1000"
abbreviation (input) ENTRY_MASK_ID :: u16 where "ENTRY_MASK_ID \<equiv> 0xfff"
abbreviation (input) ENTRY_ID_END :: u16 where "ENTRY_ID_END \<equiv> 0xfff"
abbreviation (input) ENTRY_ID_ANY :: u16 where "ENTRY_ID_ANY \<equiv> 0x1000"

text \<open>
  The macros on lengths; clearing the two low bits of a number below 2 to the 32 is rounding
  down to a multiple of four.
\<close>

definition ROUND_TO_WORD_BOUNDARY :: "nat \<Rightarrow> nat" where
  "ROUND_TO_WORD_BOUNDARY x = (x + 3) div 4 * 4"

definition ENTRY_SIZE :: "nat \<Rightarrow> nat" where
  "ENTRY_SIZE payload_len = ENTRY_HEADER_SIZE + ROUND_TO_WORD_BOUNDARY payload_len"

record entry_header =
  idflags :: u16
  elen :: u16

record sysparam_context =
  caddr :: nat
  centry :: entry_header
  unused_keys :: int
  compactable :: nat
  max_key_id :: u16

text \<open>The module's global variables, with the device they live on.\<close>

record 'd sysparam_info =
  dev :: 'd
  cur_base :: nat
  alt_base :: nat
  end_addr :: nat
  region_size :: nat
  force_compact :: bool

text \<open>What the module calls: the flash layer, the allocator (success or not) and the mutex.\<close>

record 'd sysparam_env =
  flash :: "'d flash_env"
  malloc_ok :: "nat \<Rightarrow> 'd \<Rightarrow> bool \<times> 'd"
  sem_create :: "'d \<Rightarrow> 'd"
  sem_take :: "'d \<Rightarrow> 'd"
  sem_give :: "'d \<Rightarrow> 'd"

text \<open>The packed little-endian structures as bytes.\<close>

definition le16 :: "u16 \<Rightarrow> byte list" where
  "le16 v = [ucast v, ucast (drop_bit 8 v)]"

definition un_le16 :: "byte \<Rightarrow> byte \<Rightarrow> u16" where
  "un_le16 a b = ucast a OR push_bit 8 (ucast b)"

definition header_bytes :: "entry_header \<Rightarrow> byte list" where
  "header_bytes e = le16 (idflags e) @ le16 (elen e)"

definition header_of :: "byte list \<Rightarrow> entry_header" where
  "header_of bs = \<lparr>idflags = un_le16 (bs ! 0) (bs ! 1), elen = un_le16 (bs ! 2) (bs ! 3)\<rparr>"

record region_header =
  magic :: nat
  flags_size :: u16

definition region_header_bytes :: "region_header \<Rightarrow> byte list" where
  "region_header_bytes h =
     [of_nat (magic h), of_nat (magic h div 2 ^ 8), of_nat (magic h div 2 ^ 16), of_nat (magic h div 2 ^ 24)]
     @ le16 (flags_size h) @ [0, 0]"

definition region_header_of :: "byte list \<Rightarrow> region_header" where
  "region_header_of bs =
     \<lparr>magic = unat (bs ! 0) + 2 ^ 8 * unat (bs ! 1) + 2 ^ 16 * unat (bs ! 2) + 2 ^ 24 * unat (bs ! 3),
      flags_size = un_le16 (bs ! 4) (bs ! 5)\<rparr>"

section \<open>Writing and erasing flash\<close>

definition do_write :: "'d sysparam_env \<Rightarrow> nat \<Rightarrow> byte list \<Rightarrow> 'd \<Rightarrow> int \<times> 'd" where
  "do_write env a data d =
     (let (r, d1) = sdk_spi_flash_write (flash env) a (Some data) (length data) d
      in (if r \<noteq> SPI_FLASH_RESULT_OK then SYSPARAM_ERR_IO else SYSPARAM_OK, d1))"

definition do_verify :: "'d sysparam_env \<Rightarrow> nat \<Rightarrow> byte list \<Rightarrow> 'd \<Rightarrow> int \<times> 'd" where
  "do_verify env a data d =
     (let (r, buffer, d1) = sdk_spi_flash_read (flash env) a (length data) d
      in (if r \<noteq> SPI_FLASH_RESULT_OK then SYSPARAM_ERR_IO
          else if data \<noteq> buffer then SYSPARAM_ERR_IO else SYSPARAM_OK, d1))"

text \<open>The verification loop, which stops at the first chunk that fails.\<close>

function verify_loop :: "'d sysparam_env \<Rightarrow> nat \<Rightarrow> byte list \<Rightarrow> nat \<Rightarrow> int \<Rightarrow> 'd \<Rightarrow> int \<times> 'd" where
  "verify_loop env a data i status d =
     (if i < length data then
        (let count = min (length data - i) VERIFY_BUF_SIZE;
             (status', d1) = do_verify env (add32 a i) (block_at i count data) d
         in if status' \<noteq> SYSPARAM_OK then (status', d1)
            else verify_loop env a data (i + VERIFY_BUF_SIZE) status' d1)
      else (status, d))"
  by pat_completeness auto
termination
  by (relation "measure (\<lambda>(_, _, data, i, _, _). length data - i)") auto

declare verify_loop.simps [simp del]

definition write_and_verify :: "'d sysparam_env \<Rightarrow> nat \<Rightarrow> byte list \<Rightarrow> 'd \<Rightarrow> int \<times> 'd" where
  "write_and_verify env a data d =
     (let (ok, d1) = malloc_ok env VERIFY_BUF_SIZE d
      in if \<not> ok then (SYSPARAM_ERR_NOMEM, d1)
         else let (status, d2) = do_write env a data d1
           in if status \<noteq> SYSPARAM_OK then (status, d2) else verify_loop env a data 0 status d2)"

text \<open>The loop of \<^verbatim>\<open>_format_region\<close> over the sector numbers, which are 16 bits wide.\<close>

fun format_loop :: "'d sysparam_env \<Rightarrow> u16 \<Rightarrow> nat \<Rightarrow> nat \<Rightarrow> 'd \<Rightarrow> int \<times> 'd" where
  "format_loop env sector i 0 d = (SYSPARAM_OK, d)"
| "format_loop env sector i (Suc n) d =
     (let (r, d1) = sdk_spi_flash_erase_sector (flash env) (sector + of_nat i) d
      in if r \<noteq> SPI_FLASH_RESULT_OK then (SYSPARAM_ERR_IO, d1) else format_loop env sector (Suc i) n d1)"

definition format_region :: "'d sysparam_env \<Rightarrow> nat \<Rightarrow> u16 \<Rightarrow> 'd \<Rightarrow> int \<times> 'd" where
  "format_region env a num_sectors d =
     format_loop env (of_nat (a div sector_size (chip (flash env)))) 0 (unat num_sectors) d"

definition write_region_header :: "'d sysparam_env \<Rightarrow> nat \<Rightarrow> nat \<Rightarrow> bool \<Rightarrow> 'd \<Rightarrow> int \<times> 'd" where
  "write_region_header env a other active d =
     (let ss = sector_size (chip (flash env));
          fs1 = (if a < other then of_nat ((other - a) div ss) AND REGION_MASK_SIZE
                 else (of_nat ((a - other) div ss) AND REGION_MASK_SIZE) OR REGION_FLAG_SECOND);
          fs2 = (if active then fs1 OR REGION_FLAG_ACTIVE else fs1);
          (status, d1) = write_and_verify env a (region_header_bytes \<lparr>magic = SYSPARAM_MAGIC, flags_size = fs2\<rparr>) d
      in if status \<noteq> SYSPARAM_OK
         then let (_, d2) = write_and_verify env a (replicate REGION_HEADER_SIZE 0) d1 in (SYSPARAM_ERR_IO, d2)
         else (SYSPARAM_OK, d1))"

section \<open>Searching\<close>

definition zero_context :: sysparam_context where
  "zero_context =
     \<lparr>caddr = 0, centry = \<lparr>idflags = 0, elen = 0\<rparr>, unused_keys = 0, compactable = 0, max_key_id = 0\<rparr>"

definition init_context :: "'d sysparam_info \<Rightarrow> sysparam_context" where
  "init_context st = zero_context\<lparr>caddr := cur_base st\<rparr>"

text \<open>On a failed read the entry keeps the zeros of the \<^verbatim>\<open>memset\<close>.\<close>

definition init_write_context ::
  "'d sysparam_env \<Rightarrow> 'd sysparam_info \<Rightarrow> int \<times> sysparam_context \<times> 'd sysparam_info" where
  "init_write_context env st =
     (let ctx = zero_context\<lparr>caddr := end_addr st\<rparr>;
          (r, bs, d1) = sdk_spi_flash_read (flash env) (caddr ctx) ENTRY_HEADER_SIZE (dev st);
          st1 = st\<lparr>dev := d1\<rparr>
      in if r \<noteq> SPI_FLASH_RESULT_OK then (SYSPARAM_ERR_IO, ctx, st1)
         else (SYSPARAM_OK, ctx\<lparr>centry := header_of bs\<rparr>, st1))"

text \<open>
  The start of an iteration of the loop of \<^verbatim>\<open>_find_entry\<close>: move to the next header, or stop at
  the end of the region (then the first component is true).
\<close>

definition next_entry :: "sysparam_context \<Rightarrow> 'd sysparam_info \<Rightarrow> bool \<times> sysparam_context \<times> 'd sysparam_info" where
  "next_entry ctx st =
     (if caddr ctx = cur_base st then (False, ctx\<lparr>caddr := add32 (caddr ctx) REGION_HEADER_SIZE\<rparr>, st)
      else let next_addr = add32 (caddr ctx) (ENTRY_SIZE (unat (elen (centry ctx))));
               region_end = add32 (cur_base st) (region_size st)
        in if next_addr > region_end then (True, ctx, st\<lparr>force_compact := True\<rparr>)
           else (next_addr = region_end, ctx\<lparr>caddr := next_addr\<rparr>, st))"

text \<open>The counters that an entry which is not the end changes.\<close>

definition count_entry :: "sysparam_context \<Rightarrow> sysparam_context" where
  "count_entry ctx =
     (let f = idflags (centry ctx)
      in if f AND (ENTRY_FLAG_ALIVE OR ENTRY_FLAG_INVALID) = ENTRY_FLAG_ALIVE then
           (if f AND ENTRY_FLAG_VALUE = 0
            then ctx\<lparr>max_key_id := f AND ENTRY_MASK_ID, unused_keys := unused_keys ctx + 1\<rparr>
            else ctx\<lparr>unused_keys := unused_keys ctx - 1\<rparr>)
         else ctx\<lparr>compactable := add32 (compactable ctx) (ENTRY_SIZE (unat (elen (centry ctx))))\<rparr>)"

definition entry_matches :: "u16 \<Rightarrow> u16 \<Rightarrow> bool \<Rightarrow> bool" where
  "entry_matches f match_id find_value \<longleftrightarrow>
     f AND (ENTRY_FLAG_ALIVE OR ENTRY_FLAG_INVALID) = ENTRY_FLAG_ALIVE \<and>
     (if f AND ENTRY_FLAG_VALUE = 0 then \<not> find_value else find_value) \<and>
     (f AND ENTRY_MASK_ID = match_id \<or> match_id = ENTRY_ID_ANY)"

definition find_entry_end ::
  "u16 \<Rightarrow> sysparam_context \<Rightarrow> 'd sysparam_info \<Rightarrow> int \<times> sysparam_context \<times> 'd sysparam_info" where
  "find_entry_end match_id ctx st =
     (if match_id = ENTRY_ID_END then (SYSPARAM_OK, ctx, st)
      else (SYSPARAM_NOTFOUND, ctx\<lparr>centry := \<lparr>idflags = 0, elen = 0\<rparr>\<rparr>, st))"

partial_function (option) find_entry ::
  "'d sysparam_env \<Rightarrow> sysparam_context \<Rightarrow> u16 \<Rightarrow> bool \<Rightarrow> 'd sysparam_info
     \<Rightarrow> (int \<times> sysparam_context \<times> 'd sysparam_info) option" where
  "find_entry env ctx match_id find_value st =
     (let (stop, ctx1, st1) = next_entry ctx st
      in if stop then Some (find_entry_end match_id ctx1 st1)
         else let (r, bs, d1) = sdk_spi_flash_read (flash env) (caddr ctx1) ENTRY_HEADER_SIZE (dev st1);
                  st2 = st1\<lparr>dev := d1\<rparr>
           in if r \<noteq> SPI_FLASH_RESULT_OK then Some (SYSPARAM_ERR_IO, ctx1, st2)
              else let ctx2 = ctx1\<lparr>centry := header_of bs\<rparr>
                in if idflags (centry ctx2) = 0xffff then Some (find_entry_end match_id ctx2 st2)
                   else let ctx3 = count_entry ctx2
                     in if entry_matches (idflags (centry ctx3)) match_id find_value
                        then Some (SYSPARAM_OK, ctx3, st2)
                        else find_entry env ctx3 match_id find_value st2)"

declare find_entry.simps [code]

definition read_payload ::
  "'d sysparam_env \<Rightarrow> sysparam_context \<Rightarrow> nat \<Rightarrow> 'd sysparam_info \<Rightarrow> int \<times> byte list \<times> 'd sysparam_info" where
  "read_payload env ctx buffer_size st =
     (let (r, bs, d1) = sdk_spi_flash_read (flash env) (add32 (caddr ctx) ENTRY_HEADER_SIZE)
                          (min buffer_size (unat (elen (centry ctx)))) (dev st);
          st1 = st\<lparr>dev := d1\<rparr>
      in if r \<noteq> SPI_FLASH_RESULT_OK then (SYSPARAM_ERR_IO, [], st1) else (SYSPARAM_OK, bs, st1))"

text \<open>\<^verbatim>\<open>_find_key\<close>; a key \<^term>\<open>None\<close> is the null pointer, which any key entry matches.\<close>

partial_function (option) find_key ::
  "'d sysparam_env \<Rightarrow> sysparam_context \<Rightarrow> byte list option \<Rightarrow> u16 \<Rightarrow> 'd sysparam_info
     \<Rightarrow> (int \<times> sysparam_context \<times> 'd sysparam_info) option" where
  "find_key env ctx key key_len st =
     do { (status, ctx1, st1) \<leftarrow> find_entry env ctx ENTRY_ID_ANY False st;
          if status \<noteq> SYSPARAM_OK then Some (status, ctx1, st1)
          else case key of
            None \<Rightarrow> Some (SYSPARAM_OK, ctx1, st1)
          | Some k \<Rightarrow>
              (if elen (centry ctx1) = key_len then
                 (let (status2, buffer, st2) = read_payload env ctx1 (unat key_len) st1
                  in if status2 < 0 then Some (status2, ctx1, st2)
                     else if take (unat key_len) k = buffer then Some (SYSPARAM_OK, ctx1, st2)
                     else find_key env ctx1 key key_len st2)
               else find_key env ctx1 key key_len st1) }"

declare find_key.simps [code]

definition find_value ::
  "'d sysparam_env \<Rightarrow> sysparam_context \<Rightarrow> u16 \<Rightarrow> 'd sysparam_info
     \<Rightarrow> (int \<times> sysparam_context \<times> 'd sysparam_info) option" where
  "find_value env ctx id_field st = find_entry env ctx (id_field AND ENTRY_MASK_ID) True st"

section \<open>Writing and deleting entries\<close>

text \<open>\<^verbatim>\<open>_write_entry\<close>: the header as invalid, the payload, the header as valid.\<close>

definition write_entry ::
  "'d sysparam_env \<Rightarrow> nat \<Rightarrow> u16 \<Rightarrow> byte list \<Rightarrow> 'd sysparam_info \<Rightarrow> int \<times> 'd sysparam_info" where
  "write_entry env a ident payload st =
     (let entry = \<lparr>idflags = ident OR ENTRY_FLAG_ALIVE OR ENTRY_FLAG_INVALID, elen = of_nat (length payload)\<rparr>;
          (status, d1) = write_and_verify env a (header_bytes entry) (dev st);
          st1 = st\<lparr>dev := d1\<rparr>
      in if status = SYSPARAM_ERR_IO then
           (let (status2, d2) = write_and_verify env a (replicate ENTRY_HEADER_SIZE 0) (dev st1);
                st2 = st1\<lparr>dev := d2\<rparr>
            in if status2 \<noteq> SYSPARAM_OK then (status2, st2)
               else (SYSPARAM_ERR_IO,
                     if end_addr st2 = a then st2\<lparr>end_addr := add32 (end_addr st2) ENTRY_HEADER_SIZE\<rparr> else st2))
         else if status \<noteq> SYSPARAM_OK then (status, st1)
         else let st2 = (if end_addr st1 = a
                         then st1\<lparr>end_addr := add32 (end_addr st1) (ENTRY_SIZE (unat (elen entry)))\<rparr> else st1);
                  (status3, d3) = write_and_verify env (add32 a ENTRY_HEADER_SIZE) payload (dev st2);
                  st3 = st2\<lparr>dev := d3\<rparr>
           in if status3 \<noteq> SYSPARAM_OK then (status3, st3)
              else let entry' = entry\<lparr>idflags := idflags entry AND NOT ENTRY_FLAG_INVALID\<rparr>;
                       (status4, d4) = write_and_verify env a (header_bytes entry') (dev st3)
                in (status4, st3\<lparr>dev := d4\<rparr>))"

definition delete_entry :: "'d sysparam_env \<Rightarrow> nat \<Rightarrow> 'd sysparam_info \<Rightarrow> int \<times> 'd sysparam_info" where
  "delete_entry env a st =
     (let (r, bs, d1) = sdk_spi_flash_read (flash env) a ENTRY_HEADER_SIZE (dev st)
      in if r \<noteq> SPI_FLASH_RESULT_OK then (SYSPARAM_ERR_IO, st\<lparr>dev := d1\<rparr>)
         else let entry = header_of bs;
                  entry' = entry\<lparr>idflags := idflags entry AND NOT ENTRY_FLAG_ALIVE\<rparr>;
                  (r2, d2) = sdk_spi_flash_write (flash env) a (Some (header_bytes entry')) ENTRY_HEADER_SIZE d1
           in (if r2 \<noteq> SPI_FLASH_RESULT_OK then SYSPARAM_ERR_IO else SYSPARAM_OK, st\<lparr>dev := d2\<rparr>))"

section \<open>Iterating\<close>

text \<open>
  The iterator \<^verbatim>\<open>sysparam_iter_t\<close>: key and value are the bytes the buffer holds for them. The
  buffer itself only shows in its size, which decides on a reallocation.
\<close>

record sysparam_iter_t =
  it_key :: "byte list"
  it_value :: "byte list"
  it_binary :: bool
  it_bufsize :: nat
  it_ctx :: sysparam_context

definition sysparam_iter_start ::
  "'d sysparam_env \<Rightarrow> sysparam_iter_t \<Rightarrow> 'd sysparam_info \<Rightarrow> int \<times> sysparam_iter_t \<times> 'd sysparam_info" where
  "sysparam_iter_start env iter st =
     (if cur_base st = 0 then (SYSPARAM_ERR_NOINIT, iter, st)
      else let iter1 = iter\<lparr>it_bufsize := DEFAULT_ITER_BUF_SIZE\<rparr>;
               (ok, d1) = malloc_ok env (it_bufsize iter1) (dev st);
               st1 = st\<lparr>dev := d1\<rparr>
        in if \<not> ok then (SYSPARAM_ERR_NOMEM, iter1\<lparr>it_bufsize := 0\<rparr>, st1)
           else let iter2 = iter1\<lparr>it_key := [], it_value := []\<rparr>;
                    (ok2, d2) = malloc_ok env 20 (dev st1);
                    st2 = st1\<lparr>dev := d2\<rparr>
             in if \<not> ok2 then (SYSPARAM_ERR_NOMEM, iter2\<lparr>it_bufsize := 0\<rparr>, st2)
                else (SYSPARAM_OK, iter2\<lparr>it_ctx := init_context st2\<rparr>, st2))"

text \<open>The part of \<^verbatim>\<open>sysparam_iter_next\<close> behind a key that has a value: read both into the buffer.\<close>

definition iter_fill ::
  "'d sysparam_env \<Rightarrow> sysparam_iter_t \<Rightarrow> sysparam_context \<Rightarrow> 'd sysparam_info
     \<Rightarrow> int \<times> sysparam_iter_t \<times> 'd sysparam_info" where
  "iter_fill env iter value_ctx st =
     (let klen = unat (elen (centry (it_ctx iter)));
          vlen = unat (elen (centry value_ctx));
          key_space = ROUND_TO_WORD_BOUNDARY (klen + 1);
          required_len = key_space + vlen + 1;
          (ok, iter1, st1) =
            (if required_len > it_bufsize iter then
               (let (ok, d1) = malloc_ok env required_len (dev st)
                in (ok, if ok then iter\<lparr>it_bufsize := required_len\<rparr> else iter, st\<lparr>dev := d1\<rparr>))
             else (True, iter, st))
      in if \<not> ok then (SYSPARAM_ERR_NOMEM, iter1, st1)
         else let (status, kbytes, st2) = read_payload env (it_ctx iter1) (it_bufsize iter1) st1
           in if status < 0 then (status, iter1, st2)
              else let iter2 = iter1\<lparr>it_key := kbytes\<rparr>;
                       (status2, vbytes, st3) = read_payload env value_ctx (it_bufsize iter2 - key_space) st2
                in if status2 < 0 then (status2, iter2, st3)
                   else (SYSPARAM_OK,
                         iter2\<lparr>it_value := vbytes,
                               it_binary := idflags (centry value_ctx) AND ENTRY_FLAG_BINARY \<noteq> 0\<rparr>, st3))"

partial_function (option) sysparam_iter_next ::
  "'d sysparam_env \<Rightarrow> sysparam_iter_t \<Rightarrow> 'd sysparam_info
     \<Rightarrow> (int \<times> sysparam_iter_t \<times> 'd sysparam_info) option" where
  "sysparam_iter_next env iter st =
     do { (status, ctx1, st1) \<leftarrow> find_key env (it_ctx iter) None 0 st;
          if status \<noteq> SYSPARAM_OK then Some (status, iter\<lparr>it_ctx := ctx1\<rparr>, st1)
          else do {
            (status2, value_ctx, st2) \<leftarrow> find_value env ctx1 (idflags (centry ctx1)) st1;
            if status2 < 0 then Some (status2, iter\<lparr>it_ctx := ctx1\<rparr>, st2)
            else if status2 = SYSPARAM_NOTFOUND then sysparam_iter_next env (iter\<lparr>it_ctx := ctx1\<rparr>) st2
            else Some (iter_fill env (iter\<lparr>it_ctx := ctx1\<rparr>) value_ctx st2) } }"

declare sysparam_iter_next.simps [code]

section \<open>Compacting\<close>

text \<open>
  The copy loop of \<^verbatim>\<open>_compact_params\<close>: status, address behind the copy, last key identifier
  used, the caller's key identifier and the state.
\<close>

partial_function (option) compact_loop ::
  "'d sysparam_env \<Rightarrow> sysparam_iter_t \<Rightarrow> nat \<Rightarrow> u16 \<Rightarrow> int \<Rightarrow> 'd sysparam_info
     \<Rightarrow> (int \<times> nat \<times> u16 \<times> int \<times> 'd sysparam_info) option" where
  "compact_loop env iter a current_key_id key_id st =
     do { (status, iter1, st1) \<leftarrow> sysparam_iter_next env iter st;
          if status \<noteq> SYSPARAM_OK then Some (status, a, current_key_id, key_id, st1)
          else let cid = current_key_id + 1;
                   (status2, st2) = write_entry env a cid (it_key iter1) st1
            in if status2 < 0 then Some (status2, a, cid, key_id, st2)
               else let a1 = add32 a (ENTRY_SIZE (length (it_key iter1)))
                 in if uint (idflags (centry (it_ctx iter1)) AND ENTRY_MASK_ID) = key_id
                    then compact_loop env iter1 a1 cid (uint cid) st2
                    else let (status3, st3) = write_entry env a1
                               (cid OR ENTRY_FLAG_VALUE OR (if it_binary iter1 then ENTRY_FLAG_BINARY else 0))
                               (it_value iter1) st2
                      in if status3 < 0 then Some (status3, a1, cid, key_id, st3)
                         else compact_loop env iter1 (add32 a1 (ENTRY_SIZE (length (it_value iter1)))) cid key_id st3 }"

declare compact_loop.simps [code]

text \<open>The iterator before \<^verbatim>\<open>sysparam_iter_start\<close> is an uninitialised local; its contents are an argument.\<close>

definition compact_params ::
  "'d sysparam_env \<Rightarrow> sysparam_iter_t \<Rightarrow> sysparam_context \<Rightarrow> int \<Rightarrow> 'd sysparam_info
     \<Rightarrow> (int \<times> sysparam_context \<times> int \<times> 'd sysparam_info) option" where
  "compact_params env raw_iter ctx key_id st =
     (let new_base = alt_base st;
          num_sectors = of_nat (region_size st div sector_size (chip (flash env)));
          (status, d1) = format_region env new_base num_sectors (dev st);
          st1 = st\<lparr>dev := d1\<rparr>
      in if status < 0 then Some (status, ctx, key_id, st1)
         else let (status2, iter, st2) = sysparam_iter_start env raw_iter st1
           in if status2 < 0 then Some (status2, ctx, key_id, st2)
              else do {
                (status3, a, cid, key_id1, st3) \<leftarrow>
                  compact_loop env iter (add32 new_base REGION_HEADER_SIZE) 0 key_id st2;
                if status3 < 0 then Some (status3, ctx, key_id1, st3)
                else let (status4, d4) = write_region_header env new_base (cur_base st3) True (dev st3);
                         st4 = st3\<lparr>dev := d4\<rparr>
                  in if status4 < 0 then Some (status4, ctx, key_id1, st4)
                     else let (status5, d5) = write_region_header env (cur_base st4) new_base False (dev st4);
                              st5 = st4\<lparr>dev := d5\<rparr>
                       in if status5 < 0 then Some (status5, ctx, key_id1, st5)
                          else Some (SYSPARAM_OK, zero_context\<lparr>caddr := a, max_key_id := cid\<rparr>, key_id1,
                                     st5\<lparr>alt_base := cur_base st5, cur_base := new_base, end_addr := a,
                                         force_compact := False\<rparr>) })"

section \<open>Setting up an area\<close>

text \<open>The scan of \<^verbatim>\<open>sysparam_init\<close> for a region header: a failed read, no header, or a header.\<close>

partial_function (option) init_scan ::
  "'d sysparam_env \<Rightarrow> nat \<Rightarrow> nat \<Rightarrow> 'd \<Rightarrow> (int \<times> nat \<times> region_header \<times> 'd) option" where
  "init_scan env addr0 top_addr d =
     (if addr0 < top_addr then
        (let (r, bs, d1) = sdk_spi_flash_read (flash env) addr0 REGION_HEADER_SIZE d
         in if r \<noteq> SPI_FLASH_RESULT_OK then Some (SYSPARAM_ERR_IO, addr0, region_header_of [], d1)
            else if magic (region_header_of bs) = SYSPARAM_MAGIC
            then Some (SYSPARAM_OK, addr0, region_header_of bs, d1)
            else init_scan env (add32 addr0 (sector_size (chip (flash env)))) top_addr d1)
      else Some (SYSPARAM_NOTFOUND, addr0, region_header_of [], d))"

declare init_scan.simps [code]

text \<open>The check of the header of the other region: an error code, or 0 when both regions are there.\<close>

definition init_other ::
  "'d sysparam_env \<Rightarrow> nat \<Rightarrow> region_header \<Rightarrow> nat \<Rightarrow> u16 \<Rightarrow> 'd \<Rightarrow> int \<times> 'd" where
  "init_other env addr0 header0 addr1 num_sectors d =
     (let (r, bs, d1) = sdk_spi_flash_read (flash env) addr1 REGION_HEADER_SIZE d
      in if r \<noteq> SPI_FLASH_RESULT_OK then (SYSPARAM_ERR_IO, d1)
         else let header1 = region_header_of bs
           in if magic header1 = SYSPARAM_MAGIC then
                (if flags_size header0 AND REGION_FLAG_SECOND = flags_size header1 AND REGION_FLAG_SECOND
                 then (SYSPARAM_ERR_CORRUPT, d1) else (SYSPARAM_OK, d1))
              else if flags_size header0 AND REGION_FLAG_ACTIVE \<noteq> 0 then
                (let (status, d2) = format_region env addr1 num_sectors d1
                 in if status \<noteq> SYSPARAM_OK then (status, d2)
                    else write_region_header env addr1 addr0 False d2)
              else (SYSPARAM_ERR_CORRUPT, d1))"

definition sysparam_init ::
  "'d sysparam_env \<Rightarrow> nat \<Rightarrow> nat \<Rightarrow> 'd sysparam_info \<Rightarrow> (int \<times> 'd sysparam_info) option" where
  "sysparam_init env base_addr top_addr st =
     (let ss = sector_size (chip (flash env));
          base = base_addr - base_addr mod ss;
          limit = (if top_addr = 0 \<or> top_addr = base then add32 base ss else top_addr)
      in do {
        (status, addr0, header0, d1) \<leftarrow> init_scan env base limit (dev st);
        if status \<noteq> SYSPARAM_OK then Some (status, st\<lparr>dev := d1\<rparr>)
        else let num_sectors = flags_size header0 AND REGION_MASK_SIZE;
                 rsize = unat num_sectors * ss mod 2 ^ 32;
                 addr1 = (if flags_size header0 AND REGION_FLAG_SECOND \<noteq> 0 then sub32 addr0 rsize
                          else add32 addr0 rsize);
                 (status1, d2) = init_other env addr0 header0 addr1 num_sectors d1
          in if status1 \<noteq> SYSPARAM_OK then Some (status1, st\<lparr>dev := d2\<rparr>)
             else let (cur, alt) = (if flags_size header0 AND REGION_FLAG_ACTIVE \<noteq> 0 then (addr0, addr1)
                                    else (addr1, addr0));
                      st1 = st\<lparr>dev := d2, region_size := rsize, cur_base := cur, alt_base := alt,
                               end_addr := add32 cur rsize, force_compact := False\<rparr>
               in do {
                 (status2, ctx, st2) \<leftarrow> find_entry env (init_context st1) ENTRY_ID_END False st1;
                 if status2 < 0 then Some (status2, st2\<lparr>cur_base := 0, alt_base := 0, end_addr := 0\<rparr>)
                 else let st3 = (if status2 = SYSPARAM_OK then st2\<lparr>end_addr := caddr ctx\<rparr> else st2)
                   in Some (SYSPARAM_OK, st3\<lparr>dev := sem_create env (dev st3)\<rparr>) } })"

text \<open>
  The scan of \<^verbatim>\<open>sysparam_create_area\<close>, which reads 32 bytes and moves on by 8; the words of the
  buffer are compared with all ones.
\<close>

partial_function (option) area_scan ::
  "'d sysparam_env \<Rightarrow> nat \<Rightarrow> nat \<Rightarrow> 'd \<Rightarrow> (int \<times> 'd) option" where
  "area_scan env a limit d =
     (if a < limit then
        (let (r, buffer, d1) = sdk_spi_flash_read (flash env) a (SCAN_BUFFER_SIZE * 4) d
         in if r \<noteq> SPI_FLASH_RESULT_OK then Some (SYSPARAM_ERR_IO, d1)
            else if buffer \<noteq> replicate (SCAN_BUFFER_SIZE * 4) 0xff then Some (SYSPARAM_NOTFOUND, d1)
            else area_scan env (add32 a SCAN_BUFFER_SIZE) limit d1)
      else Some (SYSPARAM_OK, d))"

declare area_scan.simps [code]

definition sysparam_create_area ::
  "'d sysparam_env \<Rightarrow> nat \<Rightarrow> u16 \<Rightarrow> bool \<Rightarrow> 'd sysparam_info \<Rightarrow> (int \<times> 'd sysparam_info) option" where
  "sysparam_create_area env base_addr area_sectors force st =
     (if area_sectors < 1 \<or> area_sectors AND 1 \<noteq> 0 then Some (SYSPARAM_ERR_BADVALUE, st)
      else let num_sectors = drop_bit 1 area_sectors;
               rsize = unat num_sectors * sector_size (chip (flash env)) mod 2 ^ 32;
               second = add32 base_addr rsize
        in do {
          (status, d1) \<leftarrow> (if \<not> force then area_scan env base_addr (add32 base_addr (rsize * 2 mod 2 ^ 32)) (dev st)
                           else Some (SYSPARAM_OK, dev st));
          if status \<noteq> SYSPARAM_OK then Some (status, st\<lparr>dev := d1\<rparr>)
          else let st1 = (if cur_base st = base_addr \<or> alt_base st = base_addr
                          then \<lparr>dev = d1, cur_base = 0, alt_base = 0, end_addr = 0, region_size = 0,
                                force_compact = False\<rparr>
                          else st\<lparr>dev := d1\<rparr>);
                   (s1, d2) = format_region env base_addr num_sectors (dev st1)
            in if s1 < 0 then Some (s1, st1\<lparr>dev := d2\<rparr>)
               else let (s2, d3) = format_region env second num_sectors d2
                 in if s2 < 0 then Some (s2, st1\<lparr>dev := d3\<rparr>)
                    else let (s3, d4) = write_region_header env base_addr second True d3
                      in if s3 < 0 then Some (s3, st1\<lparr>dev := d4\<rparr>)
                         else let (s4, d5) = write_region_header env second base_addr False d4
                           in Some (if s4 < 0 then s4 else SYSPARAM_OK, st1\<lparr>dev := d5\<rparr>) })"

definition sysparam_get_info :: "'d sysparam_env \<Rightarrow> 'd sysparam_info \<Rightarrow> int \<times> (nat \<times> nat) option" where
  "sysparam_get_info env st =
     (if cur_base st = 0 then (SYSPARAM_ERR_NOINIT, None)
      else (SYSPARAM_OK, Some (min (cur_base st) (alt_base st),
              region_size st div sector_size (chip (flash env)) * 2 mod 2 ^ 32)))"

section \<open>Reading parameters\<close>

text \<open>
  \<^verbatim>\<open>sysparam_get_data\<close>: status, the value and the binary flag when there is one, the state. Keys
  are C strings without their terminator; \<^verbatim>\<open>_find_key\<close> takes the length in 16 bits.
\<close>

definition sysparam_get_data ::
  "'d sysparam_env \<Rightarrow> byte list \<Rightarrow> 'd sysparam_info
     \<Rightarrow> (int \<times> (byte list \<times> bool) option \<times> 'd sysparam_info) option" where
  "sysparam_get_data env key st =
     (if cur_base st = 0 then Some (SYSPARAM_ERR_NOINIT, None, st)
      else let (ok, d1) = malloc_ok env (length key + 2) (dev st);
               st1 = st\<lparr>dev := d1\<rparr>
        in if \<not> ok then Some (SYSPARAM_ERR_NOMEM, None, st1)
           else do {
             (status, ctx, st2) \<leftarrow> find_key env (init_context st1) (Some key) (of_nat (length key)) st1;
             if status \<noteq> SYSPARAM_OK then Some (status, None, st2)
             else do {
               (status2, ctx2, st3) \<leftarrow> find_value env ctx (idflags (centry ctx)) st2;
               if status2 \<noteq> SYSPARAM_OK then Some (status2, None, st3)
               else let vlen = unat (elen (centry ctx2));
                        (ok2, d4) = malloc_ok env (vlen + 1) (dev st3);
                        st4 = st3\<lparr>dev := d4\<rparr>
                 in if \<not> ok2 then Some (SYSPARAM_ERR_NOMEM, None, st4)
                    else let (status3, bytes, st5) = read_payload env ctx2 vlen st4
                      in if status3 \<noteq> SYSPARAM_OK then Some (status3, None, st5)
                         else Some (SYSPARAM_OK,
                                Some (bytes, idflags (centry ctx2) AND ENTRY_FLAG_BINARY \<noteq> 0), st5) } })"

text \<open>
  \<^verbatim>\<open>sysparam_get_data_static\<close>: the bytes stored to the caller's buffer, the length of the value
  and the binary flag.
\<close>

definition sysparam_get_data_static ::
  "'d sysparam_env \<Rightarrow> byte list \<Rightarrow> nat \<Rightarrow> 'd sysparam_info
     \<Rightarrow> (int \<times> (byte list \<times> nat \<times> bool) option \<times> 'd sysparam_info) option" where
  "sysparam_get_data_static env key buffer_size st =
     (if cur_base st = 0 then Some (SYSPARAM_ERR_NOINIT, None, st)
      else if buffer_size < max (length key) 2 then Some (SYSPARAM_ERR_NOMEM, None, st)
      else do {
        (status, ctx, st1) \<leftarrow> find_key env (init_context st) (Some key) (of_nat (length key)) st;
        if status \<noteq> SYSPARAM_OK then Some (status, None, st1)
        else do {
          (status2, ctx2, st2) \<leftarrow> find_value env ctx (idflags (centry ctx)) st1;
          if status2 \<noteq> SYSPARAM_OK then Some (status2, None, st2)
          else let (status3, bytes, st3) = read_payload env ctx2 buffer_size st2
            in if status3 \<noteq> SYSPARAM_OK then Some (status3, None, st3)
               else Some (SYSPARAM_OK,
                      Some (bytes, unat (elen (centry ctx2)), idflags (centry ctx2) AND ENTRY_FLAG_BINARY \<noteq> 0),
                      st3) } })"

text \<open>The C string at a buffer: the bytes before the first terminator.\<close>

definition c_str :: "byte list \<Rightarrow> byte list" where
  "c_str bs = takeWhile (\<lambda>c. c \<noteq> 0) bs"

definition sysparam_get_string ::
  "'d sysparam_env \<Rightarrow> byte list \<Rightarrow> 'd sysparam_info \<Rightarrow> (int \<times> byte list option \<times> 'd sysparam_info) option" where
  "sysparam_get_string env key st =
     do { (status, v, st1) \<leftarrow> sysparam_get_data env key st;
          case v of
            None \<Rightarrow> Some (status, None, st1)
          | Some (bytes, binary) \<Rightarrow>
              (if binary then Some (SYSPARAM_PARSEFAILED, None, st1)
               else Some (SYSPARAM_OK, Some (c_str bytes), st1)) }"

text \<open>
  \<^verbatim>\<open>strtol\<close> with base 0 and a 32-bit \<^verbatim>\<open>long\<close>: white space, a sign, a prefix that selects the base,
  digits; the value, clamped to the type, and the rest of the string. Without digits the rest
  is the whole string.
\<close>

definition digit_value :: "byte \<Rightarrow> nat" where
  "digit_value c =
     (let n = unat c
      in if 48 \<le> n \<and> n \<le> 57 then n - 48
         else if 65 \<le> n \<and> n \<le> 90 then n - 55
         else if 97 \<le> n \<and> n \<le> 122 then n - 87
         else 99)"

fun strtol_digits :: "nat \<Rightarrow> nat \<Rightarrow> byte list \<Rightarrow> nat \<times> byte list" where
  "strtol_digits base acc [] = (acc, [])"
| "strtol_digits base acc (c # cs) =
     (if digit_value c < base then strtol_digits base (acc * base + digit_value c) cs else (acc, c # cs))"

definition is_space :: "byte \<Rightarrow> bool" where
  "is_space c \<longleftrightarrow> c = 32 \<or> 9 \<le> c \<and> c \<le> 13"

definition strtol_base :: "byte list \<Rightarrow> nat \<times> byte list" where
  "strtol_base cs =
     (if cs \<noteq> [] \<and> hd cs = 48 then
        (if length cs \<ge> 3 \<and> (cs ! 1 = 120 \<or> cs ! 1 = 88) \<and> digit_value (cs ! 2) < 16 then (16, drop 2 cs)
         else (8, cs))
      else (10, cs))"

definition clamp32 :: "int \<Rightarrow> int" where
  "clamp32 v = max (- (2 ^ 31)) (min (2 ^ 31 - 1) v)"

definition strtol :: "byte list \<Rightarrow> int \<times> byte list" where
  "strtol s =
     (let s1 = dropWhile is_space s;
          neg = (s1 \<noteq> [] \<and> hd s1 = 45);
          s2 = (if s1 \<noteq> [] \<and> (hd s1 = 45 \<or> hd s1 = 43) then tl s1 else s1);
          (base, s3) = strtol_base s2
      in if s3 = [] \<or> digit_value (hd s3) \<ge> base then (0, s)
         else let (n, rest) = strtol_digits base 0 s3
           in (clamp32 (if neg then - int n else int n), rest))"

definition sysparam_get_int32 ::
  "'d sysparam_env \<Rightarrow> byte list \<Rightarrow> 'd sysparam_info \<Rightarrow> (int \<times> int option \<times> 'd sysparam_info) option" where
  "sysparam_get_int32 env key st =
     do { (status, s, st1) \<leftarrow> sysparam_get_string env key st;
          case s of
            None \<Rightarrow> Some (status, None, st1)
          | Some buffer \<Rightarrow>
              (let (v, rest) = strtol buffer
               in if rest \<noteq> [] then Some (SYSPARAM_PARSEFAILED, None, st1)
                  else Some (SYSPARAM_OK, Some v, st1)) }"

definition sysparam_get_int8 ::
  "'d sysparam_env \<Rightarrow> byte list \<Rightarrow> 'd sysparam_info \<Rightarrow> (int \<times> int option \<times> 'd sysparam_info) option" where
  "sysparam_get_int8 env key st =
     do { (status, v, st1) \<leftarrow> sysparam_get_int32 env key st;
          Some (status, map_option (\<lambda>x. sint (word_of_int x :: byte)) v, st1) }"

text \<open>\<^verbatim>\<open>strcasecmp\<close> with a lower case word: equality up to the case of ASCII letters.\<close>

definition lower :: "byte \<Rightarrow> byte" where
  "lower c = (if 65 \<le> c \<and> c \<le> 90 then c + 32 else c)"

definition parse_bool :: "byte list \<Rightarrow> bool option" where
  "parse_bool s =
     (let l = map lower s
      in if l = [121] \<or> l = [121, 101, 115] \<or> l = [116] \<or> l = [116, 114, 117, 101] \<or> s = [49] then Some True
         else if l = [110] \<or> l = [110, 111] \<or> l = [102] \<or> l = [102, 97, 108, 115, 101] \<or> s = [48] then Some False
         else None)"

definition sysparam_get_bool ::
  "'d sysparam_env \<Rightarrow> byte list \<Rightarrow> 'd sysparam_info \<Rightarrow> (int \<times> bool option \<times> 'd sysparam_info) option" where
  "sysparam_get_bool env key st =
     do { (status, s, st1) \<leftarrow> sysparam_get_string env key st;
          case s of
            None \<Rightarrow> Some (status, None, st1)
          | Some buffer \<Rightarrow>
              (case parse_bool buffer of
                 Some b \<Rightarrow> Some (status, Some b, st1)
               | None \<Rightarrow> Some (SYSPARAM_PARSEFAILED, None, st1)) }"

section \<open>Writing parameters\<close>

text \<open>
  The steps of \<^verbatim>\<open>sysparam_set_data\<close>, in the order of its body. First the search for the key and
  its value: status, context, identifier (-1 if there is no key) and address of the old value
  (0 if there is none).
\<close>

definition set_find ::
  "'d sysparam_env \<Rightarrow> byte list \<Rightarrow> u16 \<Rightarrow> 'd sysparam_info
     \<Rightarrow> (int \<times> sysparam_context \<times> int \<times> nat \<times> 'd sysparam_info) option" where
  "set_find env key key_len st =
     do { (status, ctx, st1) \<leftarrow> find_key env (init_context st) (Some key) key_len st;
          if status = SYSPARAM_OK then do {
            let key_id = idflags (centry ctx) AND ENTRY_MASK_ID;
            (status2, ctx2, st2) \<leftarrow> find_value env ctx key_id st1;
            Some (status2, ctx2, uint key_id, if status2 = SYSPARAM_OK then caddr ctx2 else 0, st2) }
          else Some (status, ctx, - 1, 0, st1) }"

text \<open>The comparison with the value that is there: an error, the same value (then true), or not.\<close>

definition set_same ::
  "'d sysparam_env \<Rightarrow> sysparam_context \<Rightarrow> u16 \<Rightarrow> byte list \<Rightarrow> u16 \<Rightarrow> 'd sysparam_info
     \<Rightarrow> int \<times> bool \<times> 'd sysparam_info" where
  "set_same env ctx binary_flag value key_len st =
     (if idflags (centry ctx) AND ENTRY_FLAG_BINARY = binary_flag \<and> unat (elen (centry ctx)) = length value then
        (let (ok, d1) = (if length value > unat key_len then malloc_ok env (length value) (dev st)
                         else (True, dev st));
             st1 = st\<lparr>dev := d1\<rparr>
         in if \<not> ok then (SYSPARAM_ERR_NOMEM, False, st1)
            else let (status, buffer, st2) = read_payload env ctx (length value) st1
              in if status < 0 then (status, False, st2) else (SYSPARAM_OK, buffer = value, st2))
      else (SYSPARAM_OK, False, st))"

text \<open>
  Making room: compaction when the space does not suffice, when the identifiers are used up, or
  when an inconsistency was seen. The result is a status below 0 to stop, the context, the
  identifier, the address of the old value and the state.
\<close>

definition set_room ::
  "'d sysparam_env \<Rightarrow> sysparam_iter_t \<Rightarrow> sysparam_context \<Rightarrow> int \<Rightarrow> nat \<Rightarrow> nat \<Rightarrow> 'd sysparam_info
     \<Rightarrow> (int \<times> sysparam_context \<times> int \<times> nat \<times> 'd sysparam_info) option" where
  "set_room env raw_iter ctx key_id old_value_addr needed_space st =
     (let free_space = (\<lambda>s. sub32 (add32 (cur_base s) (region_size s)) (end_addr s))
      in do {
        (status1, ctx1, key_id1, old1, st1) \<leftarrow>
          (if needed_space > free_space st then do {
             (_, ctxe, ste) \<leftarrow> find_entry env ctx ENTRY_ID_END False st;
             if needed_space \<le> add32 (free_space st) (compactable ctxe) \<or> unused_keys ctxe > 0 then do {
               (s, c, k, stc) \<leftarrow> compact_params env raw_iter ctxe key_id ste;
               Some (s, c, k, if s < 0 then old_value_addr else 0, stc) }
             else Some (SYSPARAM_OK, ctxe, key_id, old_value_addr, ste) }
           else Some (SYSPARAM_OK, ctx, key_id, old_value_addr, st));
        if status1 < 0 then Some (status1, ctx1, key_id1, old1, st1)
        else if needed_space > free_space st1 then Some (SYSPARAM_ERR_FULL, ctx1, key_id1, old1, st1)
        else do {
          (status2, ctx2, key_id2, old2, st2) \<leftarrow>
            (if key_id1 < 0 \<and> max_key_id ctx1 \<ge> MAX_KEY_ID then
               (if unused_keys ctx1 > 0 then do {
                  (s, c, k, stc) \<leftarrow> compact_params env raw_iter ctx1 key_id1 st1;
                  Some (s, c, k, if s < 0 then old1 else 0, stc) }
                else Some (SYSPARAM_ERR_FULL, ctx1, key_id1, old1, st1))
             else Some (SYSPARAM_OK, ctx1, key_id1, old1, st1));
          if status2 < 0 then Some (status2, ctx2, key_id2, old2, st2)
          else if force_compact st2 then do {
            (s, c, k, stc) \<leftarrow> compact_params env raw_iter ctx2 key_id2 st2;
            Some (s, c, k, old2, stc) }
          else Some (SYSPARAM_OK, ctx2, key_id2, old2, st2) } })"

text \<open>Appending the key entry, if there is none yet, and the value entry.\<close>

definition set_append ::
  "'d sysparam_env \<Rightarrow> sysparam_context \<Rightarrow> int \<Rightarrow> byte list \<Rightarrow> byte list \<Rightarrow> u16 \<Rightarrow> 'd sysparam_info
     \<Rightarrow> int \<times> 'd sysparam_info" where
  "set_append env ctx key_id key value binary_flag st =
     (let (_, write_ctx, st1) = init_write_context env st;
          (status, key_id1, a, st2) =
            (if key_id < 0 then
               (let kid = uint (max_key_id ctx) + 1;
                    (s, stk) = write_entry env (caddr write_ctx) (word_of_int kid) key st1
                in (s, kid, if s < 0 then caddr write_ctx
                            else add32 (caddr write_ctx) (ENTRY_SIZE (length key)), stk))
             else (SYSPARAM_OK, key_id, caddr write_ctx, st1))
      in if status < 0 then (status, st2)
         else let (status2, st3) = write_entry env a (word_of_int key_id1 OR ENTRY_FLAG_VALUE OR binary_flag) value st2
           in if status2 < 0 then (status2, st3)
              else (status2, st3\<lparr>end_addr := add32 a (ENTRY_SIZE (length value))\<rparr>))"

text \<open>
  The body of \<^verbatim>\<open>sysparam_set_data\<close> inside the mutex and behind the allocations; \<open>value\<close> is empty
  when the caller passed a null pointer or length 0, which deletes the value.
\<close>

definition set_body ::
  "'d sysparam_env \<Rightarrow> sysparam_iter_t \<Rightarrow> byte list \<Rightarrow> byte list \<Rightarrow> bool \<Rightarrow> 'd sysparam_info
     \<Rightarrow> (int \<times> 'd sysparam_info) option" where
  "set_body env raw_iter key value is_binary st =
     (let key_len = of_nat (length key);
          binary_flag = (if is_binary then ENTRY_FLAG_BINARY else 0);
          key_bytes = take (unat (key_len :: u16)) key
      in do {
        (status, ctx, key_id, old_value_addr, st1) \<leftarrow> set_find env key key_len st;
        if status < 0 then Some (status, st1)
        else do {
          (status1, same, old1, st2) \<leftarrow>
            (if value = [] then Some (status, False, old_value_addr, st1)
             else do {
               let (ss, same, sts) = (if old_value_addr \<noteq> 0 then set_same env ctx binary_flag value key_len st1
                                      else (status, False, st1));
               if ss < 0 \<or> same then Some (ss, same, old_value_addr, sts)
               else do {
                 let ctx1 = (if old_value_addr \<noteq> 0
                             then ctx\<lparr>compactable := add32 (compactable ctx) (ENTRY_SIZE (unat (elen (centry ctx))))\<rparr>
                             else ctx);
                 let needed_space = ENTRY_SIZE (length value) + (if key_id < 0 then ENTRY_SIZE (unat key_len) else 0);
                 (s2, ctx2, key_id2, old2, sta) \<leftarrow> set_room env raw_iter ctx1 key_id old_value_addr needed_space sts;
                 if s2 < 0 then Some (s2, False, old2, sta)
                 else let (s3, stb) = set_append env ctx2 key_id2 key_bytes value binary_flag sta
                   in Some (s3, False, old2, stb) } });
          if status1 < 0 \<or> same then Some (status1, st2)
          else if old1 \<noteq> 0 then (let (s4, st3) = delete_entry env old1 st2 in Some (s4, st3))
          else Some (status1, st2) } })"

definition sysparam_set_data ::
  "'d sysparam_env \<Rightarrow> sysparam_iter_t \<Rightarrow> bool \<Rightarrow> byte list \<Rightarrow> byte list option \<Rightarrow> nat \<Rightarrow> bool \<Rightarrow> 'd sysparam_info
     \<Rightarrow> (int \<times> 'd sysparam_info) option" where
  "sysparam_set_data env raw_iter value_aligned key value value_len is_binary st =
     (let key_len = of_nat (length key) :: u16
      in if cur_base st = 0 then Some (SYSPARAM_ERR_NOINIT, st)
         else if key_len = 0 then Some (SYSPARAM_ERR_BADVALUE, st)
         else if value_len > MAX_VALUE_LEN then Some (SYSPARAM_ERR_BADVALUE, st)
         else let d0 = sem_take env (dev st);
                  v = (case value of None \<Rightarrow> [] | Some bs \<Rightarrow> take value_len bs);
                  (ok1, d1) = (if v \<noteq> [] \<and> \<not> value_aligned then malloc_ok env (length v) d0 else (True, d0))
           in if \<not> ok1 then Some (SYSPARAM_ERR_NOMEM, st\<lparr>dev := sem_give env d1\<rparr>)
              else let (ok2, d2) = malloc_ok env (unat key_len) d1
                in if \<not> ok2 then Some (SYSPARAM_ERR_NOMEM, st\<lparr>dev := sem_give env d2\<rparr>)
                   else do {
                     (status, st3) \<leftarrow> set_body env raw_iter key v is_binary (st\<lparr>dev := d2\<rparr>);
                     Some (status, st3\<lparr>dev := sem_give env (dev st3)\<rparr>) })"

definition sysparam_set_string ::
  "'d sysparam_env \<Rightarrow> sysparam_iter_t \<Rightarrow> bool \<Rightarrow> byte list \<Rightarrow> byte list \<Rightarrow> 'd sysparam_info
     \<Rightarrow> (int \<times> 'd sysparam_info) option" where
  "sysparam_set_string env raw_iter value_aligned key value st =
     sysparam_set_data env raw_iter value_aligned key (Some value) (length value) False st"

text \<open>\<^verbatim>\<open>snprintf\<close> of an \<^verbatim>\<open>int\<close> with the format \<^verbatim>\<open>%d\<close>.\<close>

definition show_int :: "int \<Rightarrow> byte list" where
  "show_int v = (if v < 0 then 45 # show_nat (nat (- v)) else show_nat (nat v))"

definition sysparam_set_int32 ::
  "'d sysparam_env \<Rightarrow> sysparam_iter_t \<Rightarrow> bool \<Rightarrow> byte list \<Rightarrow> int \<Rightarrow> 'd sysparam_info
     \<Rightarrow> (int \<times> 'd sysparam_info) option" where
  "sysparam_set_int32 env raw_iter value_aligned key value st =
     sysparam_set_data env raw_iter value_aligned key (Some (show_int value)) (length (show_int value)) False st"

definition sysparam_set_int8 ::
  "'d sysparam_env \<Rightarrow> sysparam_iter_t \<Rightarrow> bool \<Rightarrow> byte list \<Rightarrow> int \<Rightarrow> 'd sysparam_info
     \<Rightarrow> (int \<times> 'd sysparam_info) option" where
  "sysparam_set_int8 env raw_iter value_aligned key value st =
     sysparam_set_int32 env raw_iter value_aligned key value st"

definition sysparam_set_bool ::
  "'d sysparam_env \<Rightarrow> sysparam_iter_t \<Rightarrow> bool \<Rightarrow> byte list \<Rightarrow> bool \<Rightarrow> 'd sysparam_info
     \<Rightarrow> (int \<times> 'd sysparam_info) option" where
  "sysparam_set_bool env raw_iter value_aligned key value st =
     do { (status, old_value, st1) \<leftarrow> sysparam_get_bool env key st;
          if status = SYSPARAM_OK \<and> old_value = Some value then Some (SYSPARAM_OK, st1)
          else sysparam_set_data env raw_iter value_aligned key
                 (Some [if value then 121 else 110, 0xff, 0xff, 0xff]) 1 False st1 }"

end
