(* ===== verification/Sysparam_Store.thy ===== *)
theory Sysparam_Store
  imports Sysparam
begin

text \<open>
  What the log of \<^verbatim>\<open>src/core/sysparam.c\<close> means: the active region as a list of entries, the
  searches as functions on that list, appending and deleting as changes of the list, and the
  value of a key as a lookup. The hardware is a NOR flash with an allocator that succeeds. The
  lemmas end with \<^verbatim>\<open>sysparam_set_data\<close> as an update of the represented map.
\<close>

section \<open>Headers as bytes\<close>

lemma length_le16 [simp]: "length (le16 v) = 2"
  by (simp add: le16_def)

lemma un_le16_le16 [simp]: "un_le16 (ucast v) (ucast (drop_bit 8 v)) = v"
  by (rule bit_word_eqI) (auto simp: un_le16_def bit_simps)

lemma le16_and: "map2 (\<lambda>x y. x AND y) (le16 a) (le16 b) = le16 (a AND b)"
  by (simp add: le16_def) (rule conjI; rule bit_word_eqI; simp add: bit_simps)

lemma length_header_bytes [simp]: "length (header_bytes e) = 4"
  by (simp add: header_bytes_def)

lemma header_of_bytes [simp]: "header_of (header_bytes e) = e"
  by (cases e) (simp add: header_of_def header_bytes_def le16_def)

lemma header_bytes_and:
  "map2 (\<lambda>x y. x AND y) (header_bytes e) (header_bytes e') =
     header_bytes \<lparr>idflags = idflags e AND idflags e', elen = elen e AND elen e'\<rparr>"
  unfolding header_bytes_def by (simp add: le16_and)

lemma ROUND_le: "n \<le> ROUND_TO_WORD_BOUNDARY n" "ROUND_TO_WORD_BOUNDARY n < n + 4" "4 dvd ROUND_TO_WORD_BOUNDARY n"
  unfolding ROUND_TO_WORD_BOUNDARY_def by (presburger, presburger, simp)

lemma ENTRY_SIZE_ge: "4 \<le> ENTRY_SIZE n" "4 dvd ENTRY_SIZE n" "n + 4 \<le> ENTRY_SIZE n"
  using ROUND_le [of n] by (simp_all add: ENTRY_SIZE_def)

text \<open>The macro agrees with the bit mask it is written with.\<close>

lemma ROUND_mask:
  assumes "x + 3 < 2 ^ 32"
  shows "unat ((of_nat x + 3 :: u32) AND 0xfffffffc) = ROUND_TO_WORD_BOUNDARY x"
proof -
  have "(0xfffffffc :: u32) = NOT (mask 2)"
    by code_simp
  moreover have "w AND NOT (mask 2) = push_bit 2 (drop_bit 2 w)" for w :: u32
    by (rule bit_word_eqI) (auto simp: bit_simps not_less dest!: le_Suc_ex)
  ultimately have "(of_nat x + 3 :: u32) AND 0xfffffffc = push_bit 2 (drop_bit 2 (of_nat x + 3))"
    by metis
  moreover have "unat (of_nat x + 3 :: u32) = x + 3"
  proof -
    have "(of_nat x + 3 :: u32) = of_nat (x + 3)" by simp
    then show ?thesis using assms by (simp only: unat_of_nat) simp
  qed
  moreover have "(x + 3) div 4 * 4 < 2 ^ 32"
    using assms by presburger
  ultimately show ?thesis
    by (simp add: ROUND_TO_WORD_BOUNDARY_def push_bit_eq_mult drop_bit_eq_div unat_word_ariths unat_div)
qed

section \<open>Entries in a region\<close>

text \<open>An entry: flags and identifier, payload, and the bytes up to the next word.\<close>

datatype ent = Ent (eflags: u16) (epay: "byte list") (epad: "byte list")

definition ent_head :: "ent \<Rightarrow> entry_header" where
  "ent_head e = \<lparr>idflags = eflags e, elen = of_nat (length (epay e))\<rparr>"

definition ent_bytes :: "ent \<Rightarrow> byte list" where
  "ent_bytes e = header_bytes (ent_head e) @ epay e @ epad e"

definition ent_ok :: "ent \<Rightarrow> bool" where
  "ent_ok e \<longleftrightarrow> eflags e \<noteq> 0xffff \<and> length (epay e) < 65536 \<and>
     length (epay e) + length (epad e) = ROUND_TO_WORD_BOUNDARY (length (epay e))"

definition ents_bytes :: "ent list \<Rightarrow> byte list" where
  "ents_bytes es = concat (map ent_bytes es)"

abbreviation ents_len :: "ent list \<Rightarrow> nat" where
  "ents_len es \<equiv> length (ents_bytes es)"

lemma ents_bytes_simps [simp]:
  "ents_bytes [] = []" "ents_bytes (e # es) = ent_bytes e @ ents_bytes es"
  "ents_bytes (es @ es') = ents_bytes es @ ents_bytes es'"
  by (simp_all add: ents_bytes_def)

lemma ent_bytes_length: "ent_ok e \<Longrightarrow> length (ent_bytes e) = ENTRY_SIZE (length (epay e))"
  by (simp add: ent_bytes_def ent_ok_def ENTRY_SIZE_def)

lemma unat_elen: "ent_ok e \<Longrightarrow> unat (elen (ent_head e)) = length (epay e)"
  by (simp add: ent_ok_def ent_head_def unat_of_nat)

text \<open>The region holds a header, the entries and erased flash.\<close>

definition region_at :: "byte list \<Rightarrow> nat \<Rightarrow> nat \<Rightarrow> ent list \<Rightarrow> bool" where
  "region_at m base rsize es \<longleftrightarrow>
     base + rsize \<le> length m \<and> 8 < rsize \<and> 8 + ents_len es \<le> rsize \<and> list_all ent_ok es \<and>
     block_at (base + 8) (ents_len es) m = ents_bytes es \<and>
     block_at (base + 8 + ents_len es) (rsize - 8 - ents_len es) m = replicate (rsize - 8 - ents_len es) 0xff"

lemma block_at_sub:
  "block_at a n m = xs @ ys @ zs \<Longrightarrow> block_at (a + length xs) (length ys) m = ys"
proof -
  assume b: "block_at a n m = xs @ ys @ zs"
  then have "length (xs @ ys @ zs) \<le> n"
    by (metis block_at_def length_take min.cobounded2)
  then have "block_at (a + length xs) (length ys) m = take (length ys) (drop (length xs) (block_at a n m))"
    by (simp add: block_at_def drop_take min_def add.commute)
  with b show ?thesis by simp
qed

lemma region_entry:
  assumes "region_at m base rsize (pre @ e # post)"
  shows "block_at (base + 8 + ents_len pre) 4 m = header_bytes (ent_head e)"
    and "block_at (base + 8 + ents_len pre + 4) (length (epay e)) m = epay e"
proof -
  have b: "block_at (base + 8) (ents_len (pre @ e # post)) m =
      ents_bytes pre @ header_bytes (ent_head e) @ epay e @ epad e @ ents_bytes post"
    using assms by (simp add: region_at_def ent_bytes_def)
  from block_at_sub [OF b] show "block_at (base + 8 + ents_len pre) 4 m = header_bytes (ent_head e)"
    by simp
  have "block_at (base + 8) (ents_len (pre @ e # post)) m =
      (ents_bytes pre @ header_bytes (ent_head e)) @ epay e @ epad e @ ents_bytes post"
    using b by simp
  from block_at_sub [OF this] show "block_at (base + 8 + ents_len pre + 4) (length (epay e)) m = epay e"
    by (simp add: add.assoc)
qed

lemma region_free:
  assumes "region_at m base rsize es" and "8 + ents_len es + n \<le> rsize"
  shows "block_at (base + 8 + ents_len es) n m = replicate n 0xff"
proof -
  have "block_at (base + 8 + ents_len es) n m =
      take n (block_at (base + 8 + ents_len es) (rsize - 8 - ents_len es) m)"
    using assms(2) by (simp add: block_at_def min_def)
  then show ?thesis
    using assms by (simp add: region_at_def)
qed

lemma ents_len_dvd: "list_all ent_ok es \<Longrightarrow> 4 dvd ents_len es"
  by (induction es) (auto simp: ent_bytes_length ENTRY_SIZE_ge)

section \<open>Searching a region\<close>

text \<open>
  The hardware as the module uses it: a NOR flash, an allocator that succeeds, and calls that
  do not touch the flash.
\<close>

locale sysparam_hw = nor_rom "flash env" mem
  for env :: "'d sysparam_env" and mem :: "'d \<Rightarrow> byte list" +
  assumes malloc_succeeds: "fst (malloc_ok env n d)"
    and malloc_quiet: "mem (snd (malloc_ok env n d)) = mem d"
    and sem_quiet: "mem (sem_create env d) = mem d" "mem (sem_take env d) = mem d" "mem (sem_give env d) = mem d"

text \<open>The active region of a state holds the entries \<open>es\<close> and ends before the chip does.\<close>

definition store_at :: "'d sysparam_env \<Rightarrow> ('d \<Rightarrow> byte list) \<Rightarrow> 'd sysparam_info \<Rightarrow> ent list \<Rightarrow> bool" where
  "store_at env mem st es \<longleftrightarrow>
     0 < cur_base st \<and> 4 dvd cur_base st \<and> 4 dvd region_size st \<and>
     cur_base st + region_size st \<le> chip_size (chip (flash env)) \<and>
     region_at (mem (dev st)) (cur_base st) (region_size st) es"

text \<open>A context behind the entries \<open>pre\<close>: at the region header, or at the last one of them.\<close>

definition ctx_behind :: "nat \<Rightarrow> ent list \<Rightarrow> sysparam_context \<Rightarrow> bool" where
  "ctx_behind base pre ctx \<longleftrightarrow>
     (if pre = [] then caddr ctx = base
      else caddr ctx = base + 8 + ents_len (butlast pre) \<and> elen (centry ctx) = elen (ent_head (last pre)))"

text \<open>The context after visiting entries that start at an address.\<close>

fun scan_ctx :: "nat \<Rightarrow> sysparam_context \<Rightarrow> ent list \<Rightarrow> sysparam_context" where
  "scan_ctx a ctx [] = ctx"
| "scan_ctx a ctx (e # es) =
     scan_ctx (a + length (ent_bytes e)) (count_entry (ctx\<lparr>caddr := a, centry := ent_head e\<rparr>)) es"

lemma count_entry_fields [simp]:
  "caddr (count_entry ctx) = caddr ctx" "centry (count_entry ctx) = centry ctx"
  by (simp_all add: count_entry_def Let_def)

lemma scan_ctx_append:
  "scan_ctx a ctx (xs @ ys) = scan_ctx (a + ents_len xs) (scan_ctx a ctx xs) ys"
  by (induction xs arbitrary: a ctx) (simp_all add: add.assoc)

lemma scan_ctx_behind:
  "ctx_behind base pre ctx \<Longrightarrow> ctx_behind base (pre @ xs) (scan_ctx (base + 8 + ents_len pre) ctx xs)"
proof (induction xs rule: rev_induct)
  case (snoc e xs)
  have "butlast (pre @ xs @ [e]) = pre @ xs"
    by (simp add: butlast_append)
  then show ?case
    by (simp add: ctx_behind_def scan_ctx_append)
qed simp

text \<open>The address of the next entry never passes the end of the region.\<close>

lemma next_entry_behind:
  assumes "store_at env mem st (pre @ post)" and "ctx_behind (cur_base st) pre ctx"
    and "chip_size (chip (flash env)) < 2 ^ 32"
  shows "next_entry ctx st =
     (pre \<noteq> [] \<and> 8 + ents_len pre = region_size st, ctx\<lparr>caddr := cur_base st + 8 + ents_len pre\<rparr>, st)"
proof -
  have r: "cur_base st + region_size st \<le> chip_size (chip (flash env))" "8 + ents_len (pre @ post) \<le> region_size st"
    "list_all ent_ok (pre @ post)" "8 < region_size st"
    using assms(1) by (simp_all add: store_at_def region_at_def)
  show ?thesis
  proof (cases pre rule: rev_cases)
    case Nil
    then show ?thesis
      using assms(2,3) r by (simp add: next_entry_def ctx_behind_def add32_no_wrap)
  next
    case (snoc ys y)
    have a: "caddr ctx = cur_base st + 8 + ents_len ys" "elen (centry ctx) = elen (ent_head y)"
      using assms(2) snoc by (simp_all add: ctx_behind_def)
    have y: "ent_ok y" "ENTRY_SIZE (unat (elen (centry ctx))) = length (ent_bytes y)"
      using r(3) snoc a by (auto simp: unat_elen ent_bytes_length)
    have w: "add32 (caddr ctx) (length (ent_bytes y)) = cur_base st + 8 + ents_len pre"
      "add32 (cur_base st) (region_size st) = cur_base st + region_size st"
      using r a(1) snoc assms(3) by (auto simp: add32_no_wrap)
    show ?thesis
      using w y(2) a(1) r(1,2) snoc by (auto simp: next_entry_def Let_def)
  qed
qed

context sysparam_hw begin

lemma chip_small: "chip_size (chip (flash env)) < 2 ^ 32"
  by (fact chip_ok(1))

lemma ent_head_ok: "ent_ok e \<Longrightarrow> idflags (ent_head e) \<noteq> 0xffff"
  by (simp add: ent_ok_def ent_head_def)

text \<open>One iteration of the loop: on an entry it reads the entry's header and counts it.\<close>

lemma find_entry_step:
  assumes "store_at env mem st (pre @ e # post)" and "ctx_behind (cur_base st) pre ctx"
  obtains d' where "mem d' = mem (dev st)"
    and "find_entry env ctx m fv st =
      (let ctx' = count_entry (ctx\<lparr>caddr := cur_base st + 8 + ents_len pre, centry := ent_head e\<rparr>);
           st' = st\<lparr>dev := d'\<rparr>
       in if entry_matches (eflags e) m fv then Some (SYSPARAM_OK, ctx', st') else find_entry env ctx' m fv st')"
proof -
  let ?a = "cur_base st + 8 + ents_len pre"
  have r: "cur_base st + region_size st \<le> chip_size (chip (flash env))"
    "8 + ents_len (pre @ e # post) \<le> region_size st" "ent_ok e"
    "region_at (mem (dev st)) (cur_base st) (region_size st) (pre @ e # post)"
    using assms(1) by (simp_all add: store_at_def region_at_def)
  have 4: "4 \<le> length (ent_bytes e)"
    by (simp add: ent_bytes_def)
  have n: "next_entry ctx st = (False, ctx\<lparr>caddr := ?a\<rparr>, st)"
    using next_entry_behind [OF assms chip_small] r(2) 4 by simp
  have "?a + 4 \<le> chip_size (chip (flash env))"
    using r(1,2) 4 by simp
  then obtain d' where d': "sdk_spi_flash_read (flash env) ?a 4 (dev st) = (0, header_bytes (ent_head e), d')"
    "mem d' = mem (dev st)"
    using flash_read [of ?a 4 "dev st"] region_entry(1) [OF r(4)] by auto
  have nff: "idflags (ent_head e) \<noteq> 0xffff" "idflags (ent_head e) = eflags e"
    using ent_head_ok [OF r(3)] by (simp_all add: ent_head_def)
  show thesis
    by (rule that [OF d'(2)], subst find_entry.simps) (use n d'(1) nff in \<open>simp add: Let_def\<close>)
qed

text \<open>The loop skips the entries that do not match and stops at the first that does.\<close>

lemma find_entry_found:
  assumes "store_at env mem st (pre @ skip @ e # post)" and "ctx_behind (cur_base st) pre ctx"
    and "\<forall>x \<in> set skip. \<not> entry_matches (eflags x) m fv" and "entry_matches (eflags e) m fv"
  obtains d' where "mem d' = mem (dev st)"
    and "find_entry env ctx m fv st =
      Some (SYSPARAM_OK, scan_ctx (cur_base st + 8 + ents_len pre) ctx (skip @ [e]), st\<lparr>dev := d'\<rparr>)"
  using assms
proof (induction skip arbitrary: pre ctx st thesis)
  case Nil
  then show ?case
    using find_entry_step [of st pre e post ctx m fv] by (auto simp: Let_def)
next
  case (Cons x skip)
  let ?a = "cur_base st + 8 + ents_len pre"
  let ?ctx = "count_entry (ctx\<lparr>caddr := ?a, centry := ent_head x\<rparr>)"
  obtain d1 where d1: "mem d1 = mem (dev st)"
    "find_entry env ctx m fv st = find_entry env ?ctx m fv (st\<lparr>dev := d1\<rparr>)"
    using find_entry_step [of st pre x "skip @ e # post" ctx m fv] Cons.prems(2-4) by (auto simp: Let_def)
  have "ctx_behind (cur_base st) (pre @ [x]) ?ctx"
    by (simp add: ctx_behind_def)
  moreover have "store_at env mem (st\<lparr>dev := d1\<rparr>) ((pre @ [x]) @ skip @ e # post)"
    using Cons.prems(2) d1(1) by (simp add: store_at_def)
  ultimately show ?case
    using Cons.IH [where st = "st\<lparr>dev := d1\<rparr>" and pre = "pre @ [x]" and ctx = ?ctx] Cons.prems d1
    by (auto simp: add.assoc)
qed

text \<open>At the end of the entries the loop stops behind the last one.\<close>

lemma find_entry_at_end:
  assumes "store_at env mem st pre" and "ctx_behind (cur_base st) pre ctx"
  obtains d' e' where "mem d' = mem (dev st)"
    and "find_entry env ctx m fv st =
      Some (find_entry_end m (ctx\<lparr>caddr := cur_base st + 8 + ents_len pre, centry := e'\<rparr>) (st\<lparr>dev := d'\<rparr>))"
proof -
  let ?a = "cur_base st + 8 + ents_len pre"
  have r: "cur_base st + region_size st \<le> chip_size (chip (flash env))" "8 + ents_len pre \<le> region_size st"
    "8 < region_size st" "4 dvd region_size st" "list_all ent_ok pre"
    "region_at (mem (dev st)) (cur_base st) (region_size st) pre"
    using assms(1) by (simp_all add: store_at_def region_at_def)
  have n: "next_entry ctx st = (pre \<noteq> [] \<and> 8 + ents_len pre = region_size st, ctx\<lparr>caddr := ?a\<rparr>, st)"
    using next_entry_behind [of env mem st pre "[]" ctx] assms chip_small by simp
  show thesis
  proof (cases "pre \<noteq> [] \<and> 8 + ents_len pre = region_size st")
    case True
    have c: "ctx\<lparr>caddr := ?a, centry := centry ctx\<rparr> = ctx\<lparr>caddr := ?a\<rparr>" "st\<lparr>dev := dev st\<rparr> = st"
      by simp_all
    show thesis
      by (rule that [of "dev st" "centry ctx", OF refl], subst find_entry.simps)
        (use n True c in simp)
  next
    case False
    then have "8 + ents_len pre < region_size st"
      using r(2,3) by (cases "pre = []") auto
    moreover have "4 dvd ents_len pre"
      using r(5) by (rule ents_len_dvd)
    ultimately have room: "8 + ents_len pre + 4 \<le> region_size st"
      using r(4) by presburger
    have ff: "block_at ?a 4 (mem (dev st)) = replicate 4 0xff"
      using region_free [OF r(6) room] by simp
    have "?a + 4 \<le> chip_size (chip (flash env))"
      using r(1) room by simp
    then obtain d' where d': "sdk_spi_flash_read (flash env) ?a 4 (dev st) = (0, replicate 4 0xff, d')"
      "mem d' = mem (dev st)"
      using flash_read [of ?a 4 "dev st"] ff by auto
    have h: "idflags (header_of (replicate 4 0xff)) = 0xffff"
      by code_simp
    show thesis
      by (rule that [OF d'(2), of "header_of (replicate 4 0xff)"], subst find_entry.simps)
        (use n False d'(1) h in \<open>simp add: Let_def\<close>)
  qed
qed

lemma find_entry_not_found:
  assumes "store_at env mem st (pre @ skip)" and "ctx_behind (cur_base st) pre ctx"
    and "\<forall>x \<in> set skip. \<not> entry_matches (eflags x) m fv"
  obtains d' e' where "mem d' = mem (dev st)"
    and "find_entry env ctx m fv st =
      Some (find_entry_end m ((scan_ctx (cur_base st + 8 + ents_len pre) ctx skip)
              \<lparr>caddr := cur_base st + 8 + ents_len (pre @ skip), centry := e'\<rparr>) (st\<lparr>dev := d'\<rparr>))"
  using assms
proof (induction skip arbitrary: pre ctx st thesis)
  case Nil
  then show ?case
    using find_entry_at_end [of st pre ctx m fv] by auto
next
  case (Cons x skip)
  let ?a = "cur_base st + 8 + ents_len pre"
  let ?ctx = "count_entry (ctx\<lparr>caddr := ?a, centry := ent_head x\<rparr>)"
  obtain d1 where d1: "mem d1 = mem (dev st)"
    "find_entry env ctx m fv st = find_entry env ?ctx m fv (st\<lparr>dev := d1\<rparr>)"
    using find_entry_step [of st pre x skip ctx m fv] Cons.prems(2-4) by (auto simp: Let_def)
  have "ctx_behind (cur_base st) (pre @ [x]) ?ctx"
    by (simp add: ctx_behind_def)
  moreover have "store_at env mem (st\<lparr>dev := d1\<rparr>) ((pre @ [x]) @ skip)"
    using Cons.prems(2) d1(1) by (simp add: store_at_def)
  ultimately show ?case
    using Cons.IH [where st = "st\<lparr>dev := d1\<rparr>" and pre = "pre @ [x]" and ctx = ?ctx] Cons.prems d1
    by (auto simp: add.assoc)
qed

end

section \<open>What the store holds\<close>

definition live :: "ent \<Rightarrow> bool" where
  "live e \<longleftrightarrow> eflags e AND (ENTRY_FLAG_ALIVE OR ENTRY_FLAG_INVALID) = ENTRY_FLAG_ALIVE"

definition eid :: "ent \<Rightarrow> u16" where
  "eid e = eflags e AND ENTRY_MASK_ID"

definition live_key :: "ent \<Rightarrow> bool" where
  "live_key e \<longleftrightarrow> live e \<and> eflags e AND ENTRY_FLAG_VALUE = 0"

definition live_value :: "u16 \<Rightarrow> ent \<Rightarrow> bool" where
  "live_value i e \<longleftrightarrow> live e \<and> eflags e AND ENTRY_FLAG_VALUE \<noteq> 0 \<and> eid e = i"

definition binary :: "ent \<Rightarrow> bool" where
  "binary e \<longleftrightarrow> eflags e AND ENTRY_FLAG_BINARY \<noteq> 0"

text \<open>The value of an identifier, and of a key: the first live value entry behind the key entry.\<close>

fun value_of :: "u16 \<Rightarrow> ent list \<Rightarrow> (byte list \<times> bool) option" where
  "value_of i [] = None"
| "value_of i (e # es) = (if live_value i e then Some (epay e, binary e) else value_of i es)"

fun lookup :: "ent list \<Rightarrow> byte list \<Rightarrow> (byte list \<times> bool) option" where
  "lookup [] key = None"
| "lookup (e # es) key = (if live_key e \<and> epay e = key then value_of (eid e) es else lookup es key)"

lemma entry_matches_key: "entry_matches (eflags e) ENTRY_ID_ANY False = live_key e"
  by (auto simp: entry_matches_def live_key_def live_def)

lemma mask_not_any: "(i :: u16) AND ENTRY_MASK_ID \<noteq> ENTRY_ID_ANY"
proof
  assume "i AND ENTRY_MASK_ID = ENTRY_ID_ANY"
  then have "bit (i AND ENTRY_MASK_ID) 12 = bit (ENTRY_ID_ANY :: u16) 12"
    by simp
  moreover have "\<not> bit (ENTRY_MASK_ID :: u16) 12" "bit (ENTRY_ID_ANY :: u16) 12"
    by code_simp+
  ultimately show False
    by (simp add: bit_and_iff)
qed

lemma entry_matches_value:
  "entry_matches (eflags e) (i AND ENTRY_MASK_ID) True = live_value (i AND ENTRY_MASK_ID) e"
  using mask_not_any [of i] by (auto simp: entry_matches_def live_value_def live_def eid_def)

lemma value_of_None: "value_of i es = None \<longleftrightarrow> (\<forall>e \<in> set es. \<not> live_value i e)"
  by (induction es) auto

lemma value_of_SomeE:
  assumes "value_of i es = Some v"
  obtains skip e post where "es = skip @ e # post" and "\<forall>x \<in> set skip. \<not> live_value i x"
    and "live_value i e" and "v = (epay e, binary e)"
proof -
  have "\<exists>skip e post. es = skip @ e # post \<and> (\<forall>x \<in> set skip. \<not> live_value i x) \<and> live_value i e \<and> v = (epay e, binary e)"
    using assms
  proof (induction es)
    case (Cons e es)
    show ?case
    proof (cases "live_value i e")
      case True
      with Cons.prems show ?thesis
        by (intro exI [of _ "[]"]) auto
    next
      case False
      with Cons obtain skip e' post where "es = skip @ e' # post" "\<forall>x \<in> set skip. \<not> live_value i x"
        "live_value i e'" "v = (epay e', binary e')"
        by auto
      with False show ?thesis
        by (intro exI [of _ "e # skip"]) auto
    qed
  qed simp
  with that show thesis by blast
qed

text \<open>Splitting the entries at the key entry that the search finds.\<close>

lemma key_split:
  obtains "\<forall>x \<in> set es. \<not> (live_key x \<and> epay x = key)" and "lookup es key = None"
  | skip e post where "es = skip @ e # post" and "\<forall>x \<in> set skip. \<not> (live_key x \<and> epay x = key)"
      and "live_key e" and "epay e = key" and "lookup es key = value_of (eid e) post"
proof -
  have skip: "\<forall>x \<in> set skip. \<not> (live_key x \<and> epay x = key) \<Longrightarrow> lookup (skip @ rest) key = lookup rest key" for skip rest
    by (induction skip) auto
  show thesis
  proof (cases "\<exists>x \<in> set es. live_key x \<and> epay x = key")
    case True
    then obtain sk e post where s: "es = sk @ e # post" "live_key e \<and> epay e = key"
      "\<forall>x \<in> set sk. \<not> (live_key x \<and> epay x = key)"
      using split_list_first_prop [of es "\<lambda>x. live_key x \<and> epay x = key"] by blast
    have "lookup es key = value_of (eid e) post"
      using skip [OF s(3), of "e # post"] s(1,2) by simp
    with that(2) [of sk e post] s show thesis
      by blast
  next
    case False
    with that(1) skip [of es "[]"] show thesis
      by auto
  qed
qed

context sysparam_hw begin

lemma read_payload_ok:
  assumes "store_at env mem st (pre @ e # post)" and "caddr ctx = cur_base st + 8 + ents_len pre"
    and "centry ctx = ent_head e" and "length (epay e) \<le> n"
  obtains d' where "mem d' = mem (dev st)" and "read_payload env ctx n st = (SYSPARAM_OK, epay e, st\<lparr>dev := d'\<rparr>)"
proof -
  let ?a = "cur_base st + 8 + ents_len pre"
  have r: "cur_base st + region_size st \<le> chip_size (chip (flash env))"
    "8 + ents_len (pre @ e # post) \<le> region_size st" "ent_ok e"
    "region_at (mem (dev st)) (cur_base st) (region_size st) (pre @ e # post)"
    using assms(1) by (simp_all add: store_at_def region_at_def)
  have e: "length (ent_bytes e) \<ge> 4 + length (epay e)"
    by (simp add: ent_bytes_def)
  have fits: "?a + 4 + length (epay e) \<le> chip_size (chip (flash env))"
    using r(1,2) e by simp
  then have w: "add32 ?a 4 = ?a + 4"
    using chip_small by (simp add: add32_no_wrap)
  obtain d' where "sdk_spi_flash_read (flash env) (?a + 4) (length (epay e)) (dev st) = (0, epay e, d')"
    "mem d' = mem (dev st)"
    using flash_read [OF fits, of "dev st"] region_entry(2) [OF r(4)] by auto
  with that [of d'] show thesis
    using assms(2-4) w unat_elen [OF r(3)] by (simp add: read_payload_def)
qed

lemma scan_last:
  "caddr (scan_ctx a ctx (xs @ [e])) = a + ents_len xs" "centry (scan_ctx a ctx (xs @ [e])) = ent_head e"
  by (simp_all add: scan_ctx_append)

lemma elen_eq_iff:
  "ent_ok e \<Longrightarrow> length key < 65536 \<Longrightarrow>
     (elen (ent_head e) = of_nat (length key)) = (length (epay e) = length key)"
  by (auto simp: ent_head_def ent_ok_def word_unat_eq_iff unat_of_nat)

text \<open>\<^verbatim>\<open>_find_key\<close> goes on behind a key entry with another payload.\<close>

lemma find_key_advance:
  assumes "store_at env mem st (pre @ s1 @ x # rest)" and "ctx_behind (cur_base st) pre ctx"
    and "\<forall>y \<in> set s1. \<not> live_key y" and "live_key x" "epay x \<noteq> key" and "length key < 65536"
  obtains d' where "mem d' = mem (dev st)"
    and "find_key env ctx (Some key) (of_nat (length key)) st =
      find_key env (scan_ctx (cur_base st + 8 + ents_len pre) ctx (s1 @ [x])) (Some key)
        (of_nat (length key)) (st\<lparr>dev := d'\<rparr>)"
proof -
  let ?c = "scan_ctx (cur_base st + 8 + ents_len pre) ctx (s1 @ [x])"
  have x: "ent_ok x"
    using assms(1) by (simp add: store_at_def region_at_def)
  have kl: "unat (of_nat (length key) :: u16) = length key"
    using assms(6) by (simp add: unat_of_nat)
  obtain d1 where d1: "mem d1 = mem (dev st)"
    "find_entry env ctx ENTRY_ID_ANY False st = Some (SYSPARAM_OK, ?c, st\<lparr>dev := d1\<rparr>)"
    using find_entry_found [OF assms(1,2), of ENTRY_ID_ANY False] assms(3,4)
    by (auto simp: entry_matches_key)
  have st1: "store_at env mem (st\<lparr>dev := d1\<rparr>) ((pre @ s1) @ x # rest)"
    using assms(1) d1(1) by (simp add: store_at_def)
  show thesis
  proof (cases "length (epay x) = length key")
    case True
    then obtain d2 where d2: "mem d2 = mem d1"
      "read_payload env ?c (length key) (st\<lparr>dev := d1\<rparr>) = (SYSPARAM_OK, epay x, st\<lparr>dev := d2\<rparr>)"
      using read_payload_ok [OF st1, of ?c "length key"] by (auto simp: scan_last add.assoc)
    have "elen (centry ?c) = of_nat (length key)"
      using elen_eq_iff [OF x assms(6)] True by (simp add: scan_last)
    then show thesis
      by (intro that [of d2], use d1 d2 in simp, subst find_key.simps) (use d1(2) d2 kl assms(5) in simp)
  next
    case False
    then have "elen (centry ?c) \<noteq> of_nat (length key)"
      using elen_eq_iff [OF x assms(6)] by (simp add: scan_last)
    then show thesis
      by (intro that [of d1], use d1 in simp, subst find_key.simps) (use d1(2) in simp)
  qed
qed

text \<open>\<^verbatim>\<open>_find_key\<close> behind any entries: it finds the first live key entry with the payload asked for.\<close>

lemma find_key_found:
  assumes "store_at env mem st (pre @ skip @ e # post)" and "ctx_behind (cur_base st) pre ctx"
    and "\<forall>x \<in> set skip. \<not> (live_key x \<and> epay x = key)" and "live_key e" "epay e = key" and "length key < 65536"
  obtains d' where "mem d' = mem (dev st)"
    and "find_key env ctx (Some key) (of_nat (length key)) st =
      Some (SYSPARAM_OK, scan_ctx (cur_base st + 8 + ents_len pre) ctx (skip @ [e]), st\<lparr>dev := d'\<rparr>)"
  using assms(1-3)
proof (induction "length skip" arbitrary: skip pre ctx st thesis rule: less_induct)
  case less
  have ok: "list_all ent_ok (pre @ skip @ e # post)"
    using less.prems(2) by (simp add: store_at_def region_at_def)
  have kl: "unat (of_nat (length key) :: u16) = length key"
    using assms(6) by (simp add: unat_of_nat)
  show ?case
  proof (cases "\<exists>x \<in> set skip. live_key x")
    case False
    let ?c = "scan_ctx (cur_base st + 8 + ents_len pre) ctx (skip @ [e])"
    obtain d1 where d1: "mem d1 = mem (dev st)"
      "find_entry env ctx ENTRY_ID_ANY False st = Some (SYSPARAM_OK, ?c, st\<lparr>dev := d1\<rparr>)"
      using find_entry_found [OF less.prems(2,3), of ENTRY_ID_ANY False] False assms(4)
      by (auto simp: entry_matches_key)
    have s1: "store_at env mem (st\<lparr>dev := d1\<rparr>) ((pre @ skip) @ e # post)"
      using less.prems(2) d1(1) by (simp add: store_at_def)
    obtain d2 where d2: "mem d2 = mem d1"
      "read_payload env ?c (length key) (st\<lparr>dev := d1\<rparr>) = (SYSPARAM_OK, key, st\<lparr>dev := d2\<rparr>)"
      using read_payload_ok [OF s1, of ?c "length key"] assms(5) by (auto simp: scan_last add.assoc)
    have l: "elen (centry ?c) = of_nat (length key)"
      using elen_eq_iff [of e key] ok assms(5,6) by (simp add: scan_last)
    show ?thesis
      by (rule less.prems(1) [of d2], use d1 d2 in simp, subst find_key.simps)
        (use d1(2) d2(2) l kl in simp)
  next
    case True
    then obtain s1 x s2 where s: "skip = s1 @ x # s2" "live_key x" "\<forall>y \<in> set s1. \<not> live_key y"
      using split_list_first_prop [of skip live_key] by blast
    then have x: "epay x \<noteq> key"
      using less.prems(4) by auto
    let ?c = "scan_ctx (cur_base st + 8 + ents_len pre) ctx (s1 @ [x])"
    obtain d2 where d2: "mem d2 = mem (dev st)"
      "find_key env ctx (Some key) (of_nat (length key)) st =
        find_key env ?c (Some key) (of_nat (length key)) (st\<lparr>dev := d2\<rparr>)"
      using find_key_advance [of st pre s1 x "s2 @ e # post" ctx key] less.prems(2,3) s x assms(6) by auto
    have st2: "store_at env mem (st\<lparr>dev := d2\<rparr>) ((pre @ s1 @ [x]) @ s2 @ e # post)"
      using less.prems(2) s(1) d2(1) by (simp add: store_at_def)
    have "ctx_behind (cur_base (st\<lparr>dev := d2\<rparr>)) (pre @ s1 @ [x]) ?c"
      using scan_ctx_behind [OF less.prems(3), of "s1 @ [x]"] by simp
    moreover have "scan_ctx (cur_base st + 8 + ents_len pre) ctx (skip @ [e]) =
        scan_ctx (cur_base st + 8 + ents_len (pre @ s1 @ [x])) ?c (s2 @ [e])"
      using scan_ctx_append [of "cur_base st + 8 + ents_len pre" ctx "s1 @ [x]" "s2 @ [e]"] s(1)
      by (simp add: add.assoc)
    ultimately show ?thesis
      using less.hyps [where skip = s2 and pre = "pre @ s1 @ [x]" and ctx = ?c and st = "st\<lparr>dev := d2\<rparr>"]
        st2 s less.prems(1,4) d2 by auto
  qed
qed


text \<open>Without such a key the search ends behind the last entry, with everything counted.\<close>

lemma find_key_not_found:
  assumes "store_at env mem st (pre @ skip)" and "ctx_behind (cur_base st) pre ctx"
    and "\<forall>x \<in> set skip. \<not> (live_key x \<and> epay x = key)" and "length key < 65536"
  obtains d' where "mem d' = mem (dev st)"
    and "find_key env ctx (Some key) (of_nat (length key)) st =
      Some (SYSPARAM_NOTFOUND, (scan_ctx (cur_base st + 8 + ents_len pre) ctx skip)
         \<lparr>caddr := cur_base st + 8 + ents_len (pre @ skip), centry := \<lparr>idflags = 0, elen = 0\<rparr>\<rparr>, st\<lparr>dev := d'\<rparr>)"
  using assms(1-3)
proof (induction "length skip" arbitrary: skip pre ctx st thesis rule: less_induct)
  case less
  have any: "ENTRY_ID_ANY \<noteq> (ENTRY_ID_END :: u16)"
    by code_simp
  show ?case
  proof (cases "\<exists>x \<in> set skip. live_key x")
    case False
    then obtain d1 e' where "mem d1 = mem (dev st)"
      "find_entry env ctx ENTRY_ID_ANY False st =
        Some (find_entry_end ENTRY_ID_ANY ((scan_ctx (cur_base st + 8 + ents_len pre) ctx skip)
          \<lparr>caddr := cur_base st + 8 + ents_len (pre @ skip), centry := e'\<rparr>) (st\<lparr>dev := d1\<rparr>))"
      using find_entry_not_found [OF less.prems(2,3), of ENTRY_ID_ANY False]
      by (auto simp: entry_matches_key)
    then show ?thesis
      by (intro less.prems(1) [of d1], simp, subst find_key.simps)
        (simp add: find_entry_end_def any del: word_eq_numeral_iff_iszero)
  next
    case True
    then obtain s1 x s2 where s: "skip = s1 @ x # s2" "live_key x" "\<forall>y \<in> set s1. \<not> live_key y"
      using split_list_first_prop [of skip live_key] by blast
    then have x: "epay x \<noteq> key"
      using less.prems(4) by auto
    let ?c = "scan_ctx (cur_base st + 8 + ents_len pre) ctx (s1 @ [x])"
    obtain d2 where d2: "mem d2 = mem (dev st)"
      "find_key env ctx (Some key) (of_nat (length key)) st =
        find_key env ?c (Some key) (of_nat (length key)) (st\<lparr>dev := d2\<rparr>)"
      using find_key_advance [of st pre s1 x "s2" ctx key] less.prems(2,3) s x assms(4) by auto
    have st2: "store_at env mem (st\<lparr>dev := d2\<rparr>) ((pre @ s1 @ [x]) @ s2)"
      using less.prems(2) s(1) d2(1) by (simp add: store_at_def)
    have "ctx_behind (cur_base (st\<lparr>dev := d2\<rparr>)) (pre @ s1 @ [x]) ?c"
      using scan_ctx_behind [OF less.prems(3), of "s1 @ [x]"] by simp
    moreover have "scan_ctx (cur_base st + 8 + ents_len pre) ctx skip =
        scan_ctx (cur_base st + 8 + ents_len (pre @ s1 @ [x])) ?c s2"
      using scan_ctx_append [of "cur_base st + 8 + ents_len pre" ctx "s1 @ [x]" s2] s(1)
      by (simp add: add.assoc)
    ultimately show ?thesis
      using less.hyps [where skip = s2 and pre = "pre @ s1 @ [x]" and ctx = ?c and st = "st\<lparr>dev := d2\<rparr>"]
        st2 s less.prems(1,4) d2 by auto
  qed
qed

lemma find_value_found:
  assumes "store_at env mem st (pre @ skip @ e # post)" and "ctx_behind (cur_base st) pre ctx"
    and "\<forall>x \<in> set skip. \<not> live_value (i AND ENTRY_MASK_ID) x" and "live_value (i AND ENTRY_MASK_ID) e"
  obtains d' where "mem d' = mem (dev st)"
    and "find_value env ctx i st =
      Some (SYSPARAM_OK, scan_ctx (cur_base st + 8 + ents_len pre) ctx (skip @ [e]), st\<lparr>dev := d'\<rparr>)"
  using find_entry_found [OF assms(1,2), of "i AND ENTRY_MASK_ID" True] assms(3,4)
  by (auto simp: entry_matches_value find_value_def)

lemma find_value_not_found:
  assumes "store_at env mem st (pre @ skip)" and "ctx_behind (cur_base st) pre ctx"
    and "\<forall>x \<in> set skip. \<not> live_value (i AND ENTRY_MASK_ID) x" and "i AND ENTRY_MASK_ID \<noteq> ENTRY_ID_END"
  obtains d' where "mem d' = mem (dev st)"
    and "find_value env ctx i st =
      Some (SYSPARAM_NOTFOUND, (scan_ctx (cur_base st + 8 + ents_len pre) ctx skip)
         \<lparr>caddr := cur_base st + 8 + ents_len (pre @ skip), centry := \<lparr>idflags = 0, elen = 0\<rparr>\<rparr>, st\<lparr>dev := d'\<rparr>)"
proof -
  obtain d' e' where "mem d' = mem (dev st)" "find_entry env ctx (i AND ENTRY_MASK_ID) True st =
      Some (find_entry_end (i AND ENTRY_MASK_ID) ((scan_ctx (cur_base st + 8 + ents_len pre) ctx skip)
              \<lparr>caddr := cur_base st + 8 + ents_len (pre @ skip), centry := e'\<rparr>) (st\<lparr>dev := d'\<rparr>))"
    using find_entry_not_found [OF assms(1,2), of "i AND ENTRY_MASK_ID" True] assms(3)
    by (auto simp: entry_matches_value)
  with that [of d'] show thesis
    using assms(4) by (simp add: find_value_def find_entry_end_def)
qed

lemma init_context_behind: "ctx_behind (cur_base st) [] (init_context st)"
  by (simp add: ctx_behind_def init_context_def)

lemma malloc_E:
  obtains d' where "malloc_ok env n d = (True, d')" and "mem d' = mem d"
  using malloc_succeeds [of n d] malloc_quiet [of n d] by (metis prod.collapse)

lemma eid_mask [simp]: "eid e AND ENTRY_MASK_ID = eid e"
  by (simp add: eid_def and.assoc)

lemma get_data_lookup:
  assumes "store_at env mem st es" and "length key < 65536" and "\<forall>e \<in> set es. live_key e \<longrightarrow> eid e \<noteq> ENTRY_ID_END"
  obtains d' where "mem d' = mem (dev st)"
    and "sysparam_get_data env key st =
      Some (if lookup es key = None then SYSPARAM_NOTFOUND else SYSPARAM_OK, lookup es key, st\<lparr>dev := d'\<rparr>)"
proof -
  have cur: "cur_base st \<noteq> 0"
    using assms(1) by (simp add: store_at_def)
  obtain d1 where d1: "malloc_ok env (length key + 2) (dev st) = (True, d1)" "mem d1 = mem (dev st)"
    by (rule malloc_E)
  let ?st1 = "st\<lparr>dev := d1\<rparr>"
  have s1: "store_at env mem ?st1 es"
    using assms(1) d1(2) by (simp add: store_at_def)
  show thesis
  proof (cases rule: key_split [of es key])
    case 1
    let ?ce = "(scan_ctx (cur_base st + 8) (init_context ?st1) es)
      \<lparr>caddr := cur_base st + 8 + ents_len es, centry := \<lparr>idflags = 0, elen = 0\<rparr>\<rparr>"
    from 1 obtain d2 where d2: "mem d2 = mem d1"
      "find_key env (init_context ?st1) (Some key) (of_nat (length key)) ?st1 =
        Some (SYSPARAM_NOTFOUND, ?ce, ?st1\<lparr>dev := d2\<rparr>)"
      using find_key_not_found [of ?st1 "[]" es "init_context ?st1" key] s1 assms(2) init_context_behind [of ?st1]
      by auto
    with 1 that [of d2] cur d1 show thesis
      by (simp add: sysparam_get_data_def)
  next
    case (2 skip e post)
    let ?c = "scan_ctx (cur_base st + 8) (init_context ?st1) (skip @ [e])"
    obtain d2 where d2: "mem d2 = mem d1"
      "find_key env (init_context ?st1) (Some key) (of_nat (length key)) ?st1 = Some (SYSPARAM_OK, ?c, st\<lparr>dev := d2\<rparr>)"
      using find_key_found [of ?st1 "[]" skip e post "init_context ?st1" key] s1 assms(2) 2
        init_context_behind [of ?st1] by auto
    have s2: "store_at env mem (st\<lparr>dev := d2\<rparr>) ((skip @ [e]) @ post)"
      using s1 2(1) d2(1) by (simp add: store_at_def)
    have b2: "ctx_behind (cur_base (st\<lparr>dev := d2\<rparr>)) (skip @ [e]) ?c"
      using scan_ctx_behind [OF init_context_behind [of ?st1], of "skip @ [e]"] by simp
    have id: "idflags (centry ?c) AND ENTRY_MASK_ID = eid e"
      by (simp add: scan_last eid_def ent_head_def)
    show thesis
    proof (cases "value_of (eid e) post")
      case None
      then have nv: "\<forall>x \<in> set post. \<not> live_value (eid e) x"
        by (simp add: value_of_None)
      have "\<exists>d3 ctx. mem d3 = mem d2 \<and>
        find_value env ?c (idflags (centry ?c)) (st\<lparr>dev := d2\<rparr>) = Some (SYSPARAM_NOTFOUND, ctx, st\<lparr>dev := d3\<rparr>)"
        by (rule find_value_not_found [OF s2 b2, of "idflags (centry ?c)"]) (use nv id assms(3) 2(1,3) in auto)
      then obtain d3 ctx where d3: "mem d3 = mem d2"
        "find_value env ?c (idflags (centry ?c)) (st\<lparr>dev := d2\<rparr>) = Some (SYSPARAM_NOTFOUND, ctx, st\<lparr>dev := d3\<rparr>)"
        by blast
      with None that [of d3] cur d1 d2 2(5) show thesis
        by (simp add: sysparam_get_data_def)
    next
      case (Some v)
      then obtain vs ve vp where v: "post = vs @ ve # vp" "\<forall>x \<in> set vs. \<not> live_value (eid e) x"
        "live_value (eid e) ve" "v = (epay ve, binary ve)"
        by (rule value_of_SomeE)
      let ?cv = "scan_ctx (cur_base st + 8 + ents_len (skip @ [e])) ?c (vs @ [ve])"
      obtain d3 where d3: "mem d3 = mem d2"
        "find_value env ?c (idflags (centry ?c)) (st\<lparr>dev := d2\<rparr>) = Some (SYSPARAM_OK, ?cv, st\<lparr>dev := d3\<rparr>)"
        using find_value_found [of "st\<lparr>dev := d2\<rparr>" "skip @ [e]" vs ve vp ?c "idflags (centry ?c)"] s2 b2 id v by auto
      obtain d4 where d4: "malloc_ok env (unat (elen (centry ?cv)) + 1) d3 = (True, d4)" "mem d4 = mem d3"
        by (rule malloc_E)
      have s4: "store_at env mem (st\<lparr>dev := d4\<rparr>) ((skip @ e # vs) @ ve # vp)"
        using s2 v(1) d3(1) d4(2) by (simp add: store_at_def)
      have ve: "ent_ok ve"
        using s4 by (simp add: store_at_def region_at_def)
      obtain d5 where d5: "mem d5 = mem d4"
        "read_payload env ?cv (length (epay ve)) (st\<lparr>dev := d4\<rparr>) = (SYSPARAM_OK, epay ve, st\<lparr>dev := d5\<rparr>)"
        using read_payload_ok [OF s4, of ?cv "length (epay ve)"] by (auto simp: scan_last add.assoc)
      have l: "unat (elen (centry ?cv)) = length (epay ve)" "idflags (centry ?cv) = eflags ve"
        using unat_elen [OF ve] by (simp_all add: scan_last ent_head_def)
      have "sysparam_get_data env key st = Some (SYSPARAM_OK, Some v, st\<lparr>dev := d5\<rparr>)"
        using cur d1(1) d2(2) d3(2) d4(1) d5(2) l v(4)
        by (simp add: sysparam_get_data_def binary_def Let_def)
      with that [of d5] Some 2(5) d1 d2 d3 d4 d5 show thesis
        by simp
    qed
  qed
qed

end

section \<open>Writing to a region\<close>

text \<open>Flash contents that agree outside a range.\<close>

definition same_outside :: "nat \<Rightarrow> nat \<Rightarrow> byte list \<Rightarrow> byte list \<Rightarrow> bool" where
  "same_outside a n m m' \<longleftrightarrow>
     length m' = length m \<and> (\<forall>b k. b + k \<le> a \<or> a + n \<le> b \<longrightarrow> block_at b k m' = block_at b k m)"

lemma same_outside_refl [simp]: "same_outside a n m m"
  by (simp add: same_outside_def)

lemma same_outside_trans: "same_outside a n m m' \<Longrightarrow> same_outside a n m' m'' \<Longrightarrow> same_outside a n m m''"
  by (simp add: same_outside_def)

lemma same_outside_mono: "same_outside a n m m' \<Longrightarrow> a' \<le> a \<Longrightarrow> a + n \<le> a' + n' \<Longrightarrow> same_outside a' n' m m'"
  by (auto simp: same_outside_def)

lemma same_outside_prog: "a + length bs \<le> length m \<Longrightarrow> same_outside a (length bs) m (prog_block m a bs)"
  by (simp add: same_outside_def block_at_prog_other)

lemma same_outsideD:
  "same_outside a n m m' \<Longrightarrow> b + k \<le> a \<or> a + n \<le> b \<Longrightarrow> block_at b k m' = block_at b k m"
  unfolding same_outside_def by blast

lemma region_snoc:
  assumes "region_at m base rsize es" and "8 + ents_len es + length (ent_bytes e) \<le> rsize" and "ent_ok e"
    and "same_outside (base + 8 + ents_len es) (length (ent_bytes e)) m m'"
    and "block_at (base + 8 + ents_len es) (length (ent_bytes e)) m' = ent_bytes e"
  shows "region_at m' base rsize (es @ [e])"
proof -
  let ?a = "base + 8 + ents_len es" and ?n = "length (ent_bytes e)"
  have "block_at (base + 8) (ents_len es + ?n) m' = ents_bytes es @ ent_bytes e"
    using assms(1,4,5) same_outsideD [OF assms(4), of "base + 8" "ents_len es"]
    by (simp add: block_at_split region_at_def)
  moreover have "block_at (?a + ?n) (rsize - 8 - (ents_len es + ?n)) m' =
      replicate (rsize - 8 - (ents_len es + ?n)) 0xff"
  proof -
    have "block_at (?a + ?n) (rsize - 8 - (ents_len es + ?n)) m =
        drop ?n (block_at ?a (rsize - 8 - ents_len es) m)"
      by (simp add: block_at_def drop_take add.commute add.left_commute)
    then show ?thesis
      using assms(1) same_outsideD [OF assms(4), of "?a + ?n"] by (simp add: region_at_def)
  qed
  ultimately show ?thesis
    using assms(1-4) by (simp add: region_at_def same_outside_def add.assoc)
qed

context sysparam_hw begin

lemma verify_loop_ok:
  assumes "block_at a (length data) (mem d) = data" and "a + length data \<le> chip_size (chip (flash env))"
  shows "\<exists>d'. verify_loop env a data i SYSPARAM_OK d = (SYSPARAM_OK, d') \<and> mem d' = mem d"
  using assms(1)
proof (induction "length data - i" arbitrary: i d rule: less_induct)
  case less
  show ?case
  proof (cases "i < length data")
    case False
    then show ?thesis by (simp add: verify_loop.simps)
  next
    case True
    let ?c = "min (length data - i) 64"
    have w: "add32 a i = a + i"
      using True assms(2) chip_small by (simp add: add32_no_wrap)
    have "block_at (a + i) ?c (mem d) = block_at i ?c (block_at a (length data) (mem d))"
      using True by (simp add: block_at_def drop_take min_def add.commute)
    then have b: "block_at (a + i) ?c (mem d) = block_at i ?c data"
      using less.prems by simp
    have l: "length (block_at i ?c data) = ?c"
      by (simp add: block_at_def)
    obtain d1 where d1: "do_verify env (a + i) (block_at i ?c data) d = (SYSPARAM_OK, d1)" "mem d1 = mem d"
      using flash_read [of "a + i" ?c d] True assms(2) b l by (fastforce simp: do_verify_def)
    have dec: "length data - (i + 64) < length data - i"
      using True by arith
    obtain d' where "verify_loop env a data (i + 64) SYSPARAM_OK d1 = (SYSPARAM_OK, d')" "mem d' = mem d1"
      using less.hyps [OF dec, of d1] less.prems d1(2) by auto
    with d1 True w show ?thesis
      by (subst verify_loop.simps) (simp add: Let_def)
  qed
qed

text \<open>Writing and verifying succeeds exactly when the bits to be set are still set.\<close>

lemma write_and_verify_ok:
  assumes "4 dvd a" and "length data + 3 < 2 ^ 32"
    and "a + ROUND_TO_WORD_BOUNDARY (length data) \<le> chip_size (chip (flash env))"
    and "map2 (\<lambda>x y. x AND y) (block_at a (length data) (mem d)) data = data"
  obtains d' pad where "write_and_verify env a data d = (SYSPARAM_OK, d')"
    and "mem d' = prog_block (mem d) a (data @ pad)"
    and "length data + length pad = ROUND_TO_WORD_BOUNDARY (length data)"
proof -
  obtain d1 where d1: "malloc_ok env 64 d = (True, d1)" "mem d1 = mem d"
    by (rule malloc_E)
  obtain d2 pad where d2: "sdk_spi_flash_write (flash env) a (Some data) (length data) d1 = (0, d2)"
    "length pad < 4" "4 dvd length (data @ pad)" "mem d2 = prog_block (mem d1) a (data @ pad)"
    using write_read_back [of a data d1] assms(1-3) by (auto simp: ROUND_TO_WORD_BOUNDARY_def)
  have pad: "length data + length pad = ROUND_TO_WORD_BOUNDARY (length data)"
    using d2(2,3) by (simp add: ROUND_TO_WORD_BOUNDARY_def) presburger
  have fits: "a + length (data @ pad) \<le> length (mem d)"
    using assms(3) pad mem_size by simp
  have "block_at a (length data) (mem d2) =
      take (length data) (map2 (\<lambda>x y. x AND y) (block_at a (length (data @ pad)) (mem d)) (data @ pad))"
    using block_at_prog_same [OF fits] d1(2) d2(4) by (simp add: block_at_def) (metis min.absorb1 le_add1 take_take)
  also have "\<dots> = map2 (\<lambda>x y. x AND y) (block_at a (length data) (mem d)) data"
    by (simp add: take_map take_zip block_at_def)
  finally have stored: "block_at a (length data) (mem d2) = data"
    using assms(4) by simp
  obtain d3 where d3: "verify_loop env a data 0 SYSPARAM_OK d2 = (SYSPARAM_OK, d3)" "mem d3 = mem d2"
    using verify_loop_ok [OF stored, of 0] assms(3) ROUND_le(1) [of "length data"] by auto
  show thesis
    by (rule that [of d3 pad]) (use d1 d2 d3 pad in \<open>simp_all add: write_and_verify_def do_write_def\<close>)
qed

end

text \<open>Replacing an entry by one of the same length.\<close>

lemma region_replace:
  assumes "region_at m base rsize (pre @ e # post)" and "ent_ok e'" and "length (ent_bytes e') = length (ent_bytes e)"
    and "same_outside (base + 8 + ents_len pre) (length (ent_bytes e)) m m'"
    and "block_at (base + 8 + ents_len pre) (length (ent_bytes e)) m' = ent_bytes e'"
  shows "region_at m' base rsize (pre @ e' # post)"
proof -
  let ?a = "base + 8 + ents_len pre" and ?n = "length (ent_bytes e)"
  have r: "block_at (base + 8) (ents_len pre + (?n + ents_len post)) m = ents_bytes pre @ ent_bytes e @ ents_bytes post"
    using assms(1) by (simp add: region_at_def)
  have "block_at (base + 8) (ents_len pre) m = ents_bytes pre"
    "block_at (?a + ?n) (ents_len post) m = ents_bytes post"
    using block_at_sub [OF trans [OF r], of "[]" "ents_bytes pre" "ent_bytes e @ ents_bytes post"]
      block_at_sub [OF trans [OF r], of "ents_bytes pre @ ent_bytes e" "ents_bytes post" "[]"]
    by (simp_all add: add.assoc)
  then have "block_at (base + 8) (ents_len pre) m' = ents_bytes pre"
    "block_at (?a + ?n) (ents_len post) m' = ents_bytes post"
    using same_outsideD [OF assms(4), of "base + 8" "ents_len pre"] same_outsideD [OF assms(4), of "?a + ?n"]
    by simp_all
  then have "block_at (base + 8) (ents_len pre + (?n + ents_len post)) m' =
      ents_bytes pre @ ent_bytes e' @ ents_bytes post"
    using assms(5) by (simp add: block_at_split add.assoc)
  moreover have "block_at (?a + ?n + ents_len post) k m' = block_at (?a + ?n + ents_len post) k m" for k
    using same_outsideD [OF assms(4), of "?a + ?n + ents_len post"] by simp
  ultimately show ?thesis
    using assms(1-4) by (simp add: region_at_def same_outside_def add.assoc)
qed

lemma flag_bits:
  "bit (ENTRY_FLAG_ALIVE :: u16) n \<longleftrightarrow> n = 15" "bit (ENTRY_FLAG_INVALID :: u16) n \<longleftrightarrow> n = 14"
  "bit (ENTRY_FLAG_VALUE :: u16) n \<longleftrightarrow> n = 13" "bit (ENTRY_FLAG_BINARY :: u16) n \<longleftrightarrow> n = 12"
  "bit (ENTRY_MASK_ID :: u16) n \<longleftrightarrow> n < 12" "bit (0xffff :: u16) n \<longleftrightarrow> n < 16"
proof -
  have "(ENTRY_FLAG_ALIVE :: u16) = 2 ^ 15" "(ENTRY_FLAG_INVALID :: u16) = 2 ^ 14" "(ENTRY_FLAG_VALUE :: u16) = 2 ^ 13"
    "(ENTRY_FLAG_BINARY :: u16) = 2 ^ 12" "(ENTRY_MASK_ID :: u16) = mask 12" "(0xffff :: u16) = mask 16"
    by code_simp+
  note eqs = this
  show "bit (ENTRY_FLAG_ALIVE :: u16) n \<longleftrightarrow> n = 15" "bit (ENTRY_FLAG_INVALID :: u16) n \<longleftrightarrow> n = 14"
    "bit (ENTRY_FLAG_VALUE :: u16) n \<longleftrightarrow> n = 13" "bit (ENTRY_FLAG_BINARY :: u16) n \<longleftrightarrow> n = 12"
    "bit (ENTRY_MASK_ID :: u16) n \<longleftrightarrow> n < 12" "bit (0xffff :: u16) n \<longleftrightarrow> n < 16"
    unfolding eqs bit_exp_iff bit_mask_iff by auto
qed

lemmas flag_simps = bit_or_iff bit_and_iff bit_not_iff flag_bits

lemma and_single_bit: "(\<And>n. bit w n \<longleftrightarrow> n = k) \<Longrightarrow> (i :: u16) AND w = 0 \<longleftrightarrow> \<not> bit i k"
proof -
  assume w: "\<And>n. bit w n \<longleftrightarrow> n = k"
  have "i AND w = 0 \<longleftrightarrow> (\<forall>n. \<not> bit (i AND w) n)"
    by (auto intro: bit_eqI)
  then show ?thesis
    by (auto simp: bit_and_iff w)
qed

lemma and_flag_0:
  fixes i :: u16
  shows "i AND ENTRY_FLAG_ALIVE = 0 \<longleftrightarrow> \<not> bit i 15" "i AND ENTRY_FLAG_INVALID = 0 \<longleftrightarrow> \<not> bit i 14"
    "i AND ENTRY_FLAG_VALUE = 0 \<longleftrightarrow> \<not> bit i 13" "i AND ENTRY_FLAG_BINARY = 0 \<longleftrightarrow> \<not> bit i 12"
  by (rule and_single_bit, rule flag_bits)+

lemma alive_invalid:
  fixes i :: u16
  assumes "i AND ENTRY_FLAG_INVALID = 0"
  shows "(i OR ENTRY_FLAG_ALIVE OR ENTRY_FLAG_INVALID) AND NOT ENTRY_FLAG_INVALID = i OR ENTRY_FLAG_ALIVE"
    and "i OR ENTRY_FLAG_ALIVE \<noteq> 0xffff"
    and "(i OR ENTRY_FLAG_ALIVE OR ENTRY_FLAG_INVALID) AND (i OR ENTRY_FLAG_ALIVE) = i OR ENTRY_FLAG_ALIVE"
proof -
  have b: "\<not> bit i 14"
    using assms unfolding and_flag_0 .
  then show "(i OR ENTRY_FLAG_ALIVE OR ENTRY_FLAG_INVALID) AND NOT ENTRY_FLAG_INVALID = i OR ENTRY_FLAG_ALIVE"
    by (intro bit_word_eqI) (simp only: flag_simps, auto)
  show "i OR ENTRY_FLAG_ALIVE \<noteq> 0xffff"
  proof
    assume "i OR ENTRY_FLAG_ALIVE = 0xffff"
    then have "bit (i OR ENTRY_FLAG_ALIVE) 14 = bit (0xffff :: u16) 14"
      by simp
    with b show False
      unfolding flag_simps by simp
  qed
  show "(i OR ENTRY_FLAG_ALIVE OR ENTRY_FLAG_INVALID) AND (i OR ENTRY_FLAG_ALIVE) = i OR ENTRY_FLAG_ALIVE"
    by (intro bit_word_eqI) (simp only: flag_simps, auto)
qed

text \<open>The three programming steps of an entry on erased flash.\<close>

lemma entry_space:
  assumes "block_at a n m = replicate n 0xff" and "4 \<le> n"
  shows "map2 (\<lambda>x y. x AND y) (block_at a 4 m) (header_bytes e) = header_bytes e"
proof -
  have "block_at a 4 m = take 4 (block_at a n m)"
    using assms(2) by (simp add: block_at_def min_def)
  then have "block_at a 4 m = replicate 4 0xff"
    using assms by simp
  with map2_and_ff [of "header_bytes e"] show ?thesis
    by simp
qed

lemma header_written:
  assumes "block_at a n m = replicate n 0xff" and "a + n \<le> length m" and "length h = 4" and "4 \<le> n"
  shows "block_at a 4 (prog_block m a h) = h"
    and "k + 4 \<le> n \<Longrightarrow> block_at (a + 4) k (prog_block m a h) = replicate k 0xff"
proof -
  have "block_at a 4 m = take 4 (block_at a n m)"
    using assms(4) by (simp add: block_at_def min_def)
  then show "block_at a 4 (prog_block m a h) = h"
    using block_at_prog_same [of a h m] map2_and_ff [of h] assms by simp
  show "k + 4 \<le> n \<Longrightarrow> block_at (a + 4) k (prog_block m a h) = replicate k 0xff"
  proof -
    assume k: "k + 4 \<le> n"
    have "block_at (a + 4) k m = take k (drop 4 (block_at a n m))"
      using k by (simp add: block_at_def drop_take min_def add.commute)
    then show ?thesis
      using block_at_prog_other [of a h m "a + 4" k] k assms by simp
  qed
qed

lemma entry_written:
  assumes "block_at a n m = replicate n 0xff" and "a + n \<le> length m" and "length h = 4" and "length h' = 4"
    and "map2 (\<lambda>x y. x AND y) h h' = h'" and "length q + 4 = n"
  defines "m2 \<equiv> prog_block (prog_block m a h) (a + 4) q"
  shows "block_at a 4 m2 = h" and "block_at a n (prog_block m2 a h') = h' @ q"
    and "same_outside a n m (prog_block m2 a h')"
proof -
  let ?m1 = "prog_block m a h"
  note w = header_written [OF assms(1-3)]
  have l: "length ?m1 = length m" "length m2 = length m"
    using assms(2,3,6) by (simp_all add: m2_def)
  have m2: "block_at a 4 m2 = h" "block_at (a + 4) (length q) m2 = q"
    using w(1) w(2) [of "length q"] block_at_prog_same [of "a + 4" q ?m1] block_at_prog_other [of "a + 4" q ?m1 a 4]
      map2_and_ff [of q] assms(2,6) l by (simp_all add: m2_def)
  then show "block_at a 4 m2 = h"
    by simp
  have "block_at a 4 (prog_block m2 a h') = h'" "block_at (a + 4) (length q) (prog_block m2 a h') = q"
    using block_at_prog_same [of a h' m2] block_at_prog_other [of a h' m2 "a + 4" "length q"] m2 assms(2,4,5,6) l
    by simp_all
  then show "block_at a n (prog_block m2 a h') = h' @ q"
    using assms(6) block_at_split [of a 4 "length q" "prog_block m2 a h'"] by (simp add: add.commute)
  have "same_outside a n m ?m1" "same_outside a n ?m1 m2" "same_outside a n m2 (prog_block m2 a h')"
    using same_outside_prog [of a h m] same_outside_prog [of "a + 4" q ?m1] same_outside_prog [of a h' m2]
      assms(2-4,6) l by (auto elim!: same_outside_mono simp: m2_def)
  then show "same_outside a n m (prog_block m2 a h')"
    by (blast intro: same_outside_trans)
qed

text \<open>
  The two regions of an area on the flash: adjacent, of the same size, each with its header, the
  active one flagged.
\<close>

definition region_hdr :: "nat \<Rightarrow> bool \<Rightarrow> bool \<Rightarrow> region_header" where
  "region_hdr n second active = \<lparr>magic = SYSPARAM_MAGIC, flags_size =
     (let f = (if second then (of_nat n AND REGION_MASK_SIZE) OR REGION_FLAG_SECOND else of_nat n AND REGION_MASK_SIZE)
      in if active then f OR REGION_FLAG_ACTIVE else f)\<rparr>"

definition area_ok :: "'d sysparam_env \<Rightarrow> byte list \<Rightarrow> nat \<Rightarrow> nat \<Rightarrow> nat \<Rightarrow> bool" where
  "area_ok env m cur alt rsize \<longleftrightarrow>
     (let ss = sector_size (chip (flash env)) in
     ss dvd cur \<and> ss dvd rsize \<and> 4 dvd ss \<and> 8 < rsize \<and> rsize div ss < 4096 \<and> (alt = cur + rsize \<or> cur = alt + rsize) \<and>
     0 < alt \<and> alt + rsize \<le> chip_size (chip (flash env)) \<and> (max cur alt + rsize) div ss \<le> 65536 \<and>
     block_at cur 8 m = region_header_bytes (region_hdr (rsize div ss) (alt < cur) True) \<and>
     block_at alt 8 m = region_header_bytes (region_hdr (rsize div ss) (cur < alt) False))"

lemma area_ok_same:
  assumes "area_ok env m cur alt rsize" and "same_outside a n m m'" and "cur + 8 \<le> a" "a + n \<le> cur + rsize"
  shows "area_ok env m' cur alt rsize"
proof -
  have "block_at cur 8 m' = block_at cur 8 m" "block_at alt 8 m' = block_at alt 8 m"
    using assms same_outsideD [OF assms(2), of cur 8] same_outsideD [OF assms(2), of alt 8]
    by (auto simp: area_ok_def Let_def)
  with assms(1) show ?thesis
    by (simp add: area_ok_def)
qed

text \<open>
  The state with \<open>es\<close> in the active region of an area and the end of the log right behind them.
\<close>

definition store :: "'d sysparam_env \<Rightarrow> ('d \<Rightarrow> byte list) \<Rightarrow> 'd sysparam_info \<Rightarrow> ent list \<Rightarrow> bool" where
  "store env mem st es \<longleftrightarrow> store_at env mem st es \<and> end_addr st = cur_base st + 8 + ents_len es \<and> \<not> force_compact st \<and>
     area_ok env (mem (dev st)) (cur_base st) (alt_base st) (region_size st)"

context sysparam_hw begin

lemma store_end:
  assumes "store env mem st es"
  shows "cur_base st + region_size st \<le> chip_size (chip (flash env))" "4 dvd cur_base st"
    "region_at (mem (dev st)) (cur_base st) (region_size st) es" "end_addr st = cur_base st + 8 + ents_len es"
    "4 dvd end_addr st"
proof -
  show s: "cur_base st + region_size st \<le> chip_size (chip (flash env))" "4 dvd cur_base st"
    "region_at (mem (dev st)) (cur_base st) (region_size st) es" "end_addr st = cur_base st + 8 + ents_len es"
    using assms by (simp_all add: store_def store_at_def)
  then have "4 dvd ents_len es"
    by (intro ents_len_dvd) (simp add: region_at_def)
  with s show "4 dvd end_addr st"
    by (simp add: dvd_add)
qed

lemma write_header_ok:
  assumes "4 dvd a" and "a + 4 \<le> chip_size (chip (flash env))"
    and "map2 (\<lambda>x y. x AND y) (block_at a 4 (mem d)) (header_bytes e) = header_bytes e"
  obtains d' where "write_and_verify env a (header_bytes e) d = (SYSPARAM_OK, d')"
    and "mem d' = prog_block (mem d) a (header_bytes e)"
proof -
  have R4: "ROUND_TO_WORD_BOUNDARY 4 = 4"
    by (simp add: ROUND_TO_WORD_BOUNDARY_def)
  obtain d' pad where "write_and_verify env a (header_bytes e) d = (SYSPARAM_OK, d')"
    "mem d' = prog_block (mem d) a (header_bytes e @ pad)" "4 + length pad = 4"
    using write_and_verify_ok [OF assms(1), of "header_bytes e" d] assms(2,3) R4 by auto
  with that show thesis
    by simp
qed

text \<open>Appending an entry to the entries of a region, the active one or the other.\<close>

lemma write_entry_region:
  assumes "region_at (mem (dev st)) base rs es" "4 dvd base" "base + rs \<le> chip_size (chip (flash env))"
    and "8 + ents_len es + ENTRY_SIZE (length p) \<le> rs" and "length p < 65536" and "i AND ENTRY_FLAG_INVALID = 0"
    and "a = base + 8 + ents_len es"
  obtains d' pad where "write_entry env a i p st =
      (SYSPARAM_OK, if end_addr st = a then st\<lparr>dev := d', end_addr := end_addr st + ENTRY_SIZE (length p)\<rparr> else st\<lparr>dev := d'\<rparr>)"
    and "region_at (mem d') base rs (es @ [Ent (i OR ENTRY_FLAG_ALIVE) p pad])"
    and "same_outside a (ENTRY_SIZE (length p)) (mem (dev st)) (mem d')"
    and "length (ent_bytes (Ent (i OR ENTRY_FLAG_ALIVE) p pad)) = ENTRY_SIZE (length p)"
proof -
  let ?m = "mem (dev st)" and ?n = "ENTRY_SIZE (length p)"
  let ?e1 = "\<lparr>idflags = i OR ENTRY_FLAG_ALIVE OR ENTRY_FLAG_INVALID, elen = of_nat (length p)\<rparr> :: entry_header"
  let ?e2 = "\<lparr>idflags = i OR ENTRY_FLAG_ALIVE, elen = of_nat (length p)\<rparr> :: entry_header"
  note E = ENTRY_SIZE_def [of "length p"]
  have a4: "4 dvd a"
    using assms(1,2,7) ents_len_dvd [of es] by (simp add: region_at_def dvd_add)
  have fits: "a + ?n \<le> chip_size (chip (flash env))"
    using assms(3,4,7) by simp
  have free: "block_at a ?n ?m = replicate ?n 0xff"
    using region_free [OF assms(1,4)] assms(7) by simp
  have h: "map2 (\<lambda>x y. x AND y) (header_bytes ?e1) (header_bytes ?e2) = header_bytes ?e2"
    using alive_invalid(3) [OF assms(6)] by (simp add: header_bytes_and)
  obtain d1 where d1: "write_and_verify env a (header_bytes ?e1) (dev st) = (SYSPARAM_OK, d1)"
    "mem d1 = prog_block ?m a (header_bytes ?e1)"
    using write_header_ok [OF a4, where e = ?e1 and d = "dev st"] fits E entry_space(1) [OF free] by auto
  have fits1: "a + ?n \<le> length ?m"
    using fits mem_size by simp
  note l1 = header_written [OF free fits1, of "header_bytes ?e1", folded d1(2)]
  have "map2 (\<lambda>x y. x AND y) (block_at (a + 4) (length p) (mem d1)) p = p"
    using l1(2) [of "length p"] ROUND_le(1) map2_and_ff [of p] E by simp
  then obtain d2 pad where d2: "write_and_verify env (a + 4) p d1 = (SYSPARAM_OK, d2)"
    "mem d2 = prog_block (mem d1) (a + 4) (p @ pad)" "length p + length pad = ROUND_TO_WORD_BOUNDARY (length p)"
    using write_and_verify_ok [of "a + 4" p d1] a4 fits assms(5) E by auto
  have len: "length (p @ pad) + 4 = ?n"
    using d2(3) E by simp
  note l2 = entry_written [OF free fits1 _ _ h len, folded d1(2) d2(2), simplified]
  obtain d3 where d3: "write_and_verify env a (header_bytes ?e2) d2 = (SYSPARAM_OK, d3)"
    "mem d3 = prog_block (mem d2) a (header_bytes ?e2)"
    using write_header_ok [OF a4, where e = ?e2 and d = d2] fits E l2(1) h by auto
  let ?e = "Ent (i OR ENTRY_FLAG_ALIVE) p pad"
  have e: "ent_ok ?e" "length (ent_bytes ?e) = ?n" "ent_bytes ?e = header_bytes ?e2 @ p @ pad"
    using alive_invalid(2) [OF assms(6)] assms(5) d2(3) E by (simp_all add: ent_ok_def ent_bytes_def ent_head_def)
  have r: "region_at (mem d3) base rs (es @ [?e])"
    using region_snoc [OF assms(1), of ?e "mem d3"] assms(4,7) e l2(2,3) d3(2) by simp
  have so: "same_outside a ?n ?m (mem d3)"
    using l2(3) d3(2) by simp
  have "unat (of_nat (length p) :: u16) = length p" "add32 a ?n = a + ?n" "add32 a 4 = a + 4"
    using assms(5) fits chip_small E by (simp_all add: unat_of_nat add32_no_wrap)
  then have "write_entry env a i p st =
      (SYSPARAM_OK, if end_addr st = a then st\<lparr>dev := d3, end_addr := end_addr st + ?n\<rparr> else st\<lparr>dev := d3\<rparr>)"
    using d1(1) d2(1) d3(1) alive_invalid(1) [OF assms(6)] by (simp add: write_entry_def Let_def)
  with that r so e(2) show thesis
    by blast
qed

lemma write_entry_append:
  assumes "store env mem st es" and "8 + ents_len es + ENTRY_SIZE (length p) \<le> region_size st"
    and "length p < 65536" and "i AND ENTRY_FLAG_INVALID = 0"
  obtains d' pad where "write_entry env (end_addr st) i p st =
      (SYSPARAM_OK, st\<lparr>dev := d', end_addr := end_addr st + ENTRY_SIZE (length p)\<rparr>)"
    and "store env mem (st\<lparr>dev := d', end_addr := end_addr st + ENTRY_SIZE (length p)\<rparr>) (es @ [Ent (i OR ENTRY_FLAG_ALIVE) p pad])"
proof -
  let ?a = "end_addr st" and ?n = "ENTRY_SIZE (length p)"
  note st = store_end [OF assms(1)]
  obtain d' pad where w: "write_entry env ?a i p st = (SYSPARAM_OK, st\<lparr>dev := d', end_addr := ?a + ?n\<rparr>)"
    "region_at (mem d') (cur_base st) (region_size st) (es @ [Ent (i OR ENTRY_FLAG_ALIVE) p pad])"
    "same_outside ?a ?n (mem (dev st)) (mem d')" "length (ent_bytes (Ent (i OR ENTRY_FLAG_ALIVE) p pad)) = ?n"
    by (rule write_entry_region [OF st(3,2,1) assms(2-4) st(4), unfolded if_P [OF refl]])
  have "area_ok env (mem d') (cur_base st) (alt_base st) (region_size st)"
    by (rule area_ok_same [of env "mem (dev st)", where a = ?a and n = ?n]) (use assms(1,2) st(4) w(3) in \<open>simp_all add: store_def\<close>)
  with w(2,4) have "store env mem (st\<lparr>dev := d', end_addr := ?a + ?n\<rparr>) (es @ [Ent (i OR ENTRY_FLAG_ALIVE) p pad])"
    using assms(1) by (simp add: store_def store_at_def)
  with that w(1) show thesis
    by blast
qed

end

text \<open>Deleting an entry clears its alive flag.\<close>

definition kill :: "ent \<Rightarrow> ent" where
  "kill e = Ent (eflags e AND NOT ENTRY_FLAG_ALIVE) (epay e) (epad e)"

lemma kill_flags:
  fixes f :: u16
  shows "f AND NOT ENTRY_FLAG_ALIVE \<noteq> 0xffff" and "f AND (f AND NOT ENTRY_FLAG_ALIVE) = f AND NOT ENTRY_FLAG_ALIVE"
proof -
  show "f AND NOT ENTRY_FLAG_ALIVE \<noteq> 0xffff"
  proof
    assume "f AND NOT ENTRY_FLAG_ALIVE = 0xffff"
    then have "bit (f AND NOT ENTRY_FLAG_ALIVE) 15 = bit (0xffff :: u16) 15"
      by (rule arg_cong)
    then show False
      unfolding flag_simps by simp
  qed
  show "f AND (f AND NOT ENTRY_FLAG_ALIVE) = f AND NOT ENTRY_FLAG_ALIVE"
    by (simp add: and.assoc [symmetric])
qed

lemma kill_bytes:
  "ent_ok e \<Longrightarrow> ent_ok (kill e)" "length (ent_bytes (kill e)) = length (ent_bytes e)"
  "ent_bytes e = header_bytes (ent_head e) @ epay e @ epad e"
  "ent_bytes (kill e) = map2 (\<lambda>x y. x AND y) (header_bytes (ent_head e)) (header_bytes (ent_head (kill e))) @ epay e @ epad e"
  using kill_flags by (simp_all add: kill_def ent_ok_def ent_bytes_def ent_head_def header_bytes_and)

context sysparam_hw begin

lemma delete_entry_kill:
  assumes "store env mem st (pre @ e # post)"
  obtains d' where "delete_entry env (cur_base st + 8 + ents_len pre) st = (SYSPARAM_OK, st\<lparr>dev := d'\<rparr>)"
    and "store env mem (st\<lparr>dev := d'\<rparr>) (pre @ kill e # post)"
proof -
  let ?a = "cur_base st + 8 + ents_len pre" and ?m = "mem (dev st)" and ?n = "length (ent_bytes e)"
  let ?h = "header_bytes (ent_head (kill e))"
  note st = store_end [OF assms]
  have r: "ent_ok e" "list_all ent_ok pre" "8 + ents_len pre + ?n \<le> region_size st" "4 \<le> ?n"
    using st(3) by (simp_all add: region_at_def kill_bytes(3))
  have a4: "4 dvd ?a" and fits: "?a + ?n \<le> chip_size (chip (flash env))" "?a + ?n \<le> length ?m"
    using st(1,2) r ents_len_dvd mem_size by (simp_all add: dvd_add)
  obtain d1 where d1: "sdk_spi_flash_read (flash env) ?a 4 (dev st) = (0, header_bytes (ent_head e), d1)" "mem d1 = ?m"
    using flash_read [of ?a 4 "dev st"] region_entry(1) [OF st(3)] fits r(4) by auto
  have "\<exists>d2. sdk_spi_flash_write (flash env) ?a (Some ?h) 4 d1 = (0, d2) \<and> mem d2 = prog_block ?m ?a ?h"
    using write_read_back [OF a4, of ?h d1] fits r(4) d1(2) by auto
  then obtain d2 where d2: "sdk_spi_flash_write (flash env) ?a (Some ?h) 4 d1 = (0, d2)" "mem d2 = prog_block ?m ?a ?h"
    by blast
  have "block_at ?a 4 (mem d2) = map2 (\<lambda>x y. x AND y) (header_bytes (ent_head e)) ?h"
    using block_at_prog_same [of ?a ?h ?m] region_entry(1) [OF st(3)] fits(2) r(4) d2(2) by simp
  moreover have "block_at (?a + 4) (?n - 4) (mem d2) = epay e @ epad e"
  proof -
    have "block_at (cur_base st + 8) (ents_len (pre @ e # post)) ?m =
        (ents_bytes pre @ header_bytes (ent_head e)) @ (epay e @ epad e) @ ents_bytes post"
      using st(3) by (simp add: region_at_def kill_bytes(3))
    from block_at_sub [OF this] show ?thesis
      using block_at_prog_other [of ?a ?h ?m "?a + 4" "?n - 4"] fits(2) r(4) d2(2)
      by (simp add: kill_bytes(3) add.assoc)
  qed
  ultimately have b: "block_at ?a ?n (mem d2) = ent_bytes (kill e)"
    using block_at_split [of ?a 4 "?n - 4" "mem d2"] r(4) by (simp add: kill_bytes(4))
  have so: "same_outside ?a ?n ?m (mem d2)"
    using same_outside_prog [of ?a ?h ?m] fits(2) r(4) d2(2) by (auto elim!: same_outside_mono)
  have "area_ok env (mem d2) (cur_base st) (alt_base st) (region_size st)"
    by (rule area_ok_same [OF _ so]) (use assms r(3) in \<open>simp_all add: store_def\<close>)
  with region_replace [OF st(3) kill_bytes(1) [OF r(1)] kill_bytes(2) so b]
  have "store env mem (st\<lparr>dev := d2\<rparr>) (pre @ kill e # post)"
    using assms by (simp add: store_def store_at_def kill_bytes(2))
  moreover have "delete_entry env ?a st = (SYSPARAM_OK, st\<lparr>dev := d2\<rparr>)"
  proof -
    have "ent_head (kill e) = (ent_head e)\<lparr>idflags := idflags (ent_head e) AND NOT ENTRY_FLAG_ALIVE\<rparr>"
      by (simp add: ent_head_def kill_def)
    then show ?thesis
      using d1(1) d2(1) by (simp add: delete_entry_def)
  qed
  ultimately show thesis
    using that by blast
qed

end

section \<open>What an update means\<close>

definition live_val :: "ent \<Rightarrow> bool" where
  "live_val e \<longleftrightarrow> live e \<and> eflags e AND ENTRY_FLAG_VALUE \<noteq> 0"

text \<open>
  Well-formed entries: live keys have increasing identifiers and different names, there is at
  most one live value per identifier, it stands behind its key, and no key has the identifier of
  the end marker.
\<close>

definition entry_order :: "ent \<Rightarrow> ent \<Rightarrow> bool" where
  "entry_order x y \<longleftrightarrow>
     (live_key x \<and> live_key y \<longrightarrow> eid x < eid y \<and> epay x \<noteq> epay y) \<and>
     (live_val x \<and> (live_val y \<or> live_key y) \<longrightarrow> eid x \<noteq> eid y)"

definition store_ok :: "ent list \<Rightarrow> bool" where
  "store_ok es \<longleftrightarrow> sorted_wrt entry_order es \<and> (\<forall>e \<in> set es. live_key e \<longrightarrow> eid e < ENTRY_ID_END) \<and>
     (\<forall>v \<in> set es. live_val v \<longrightarrow> (\<exists>k \<in> set es. live_key k \<and> eid k = eid v))"

text \<open>The identifier of the last live key.\<close>

definition last_id :: "ent list \<Rightarrow> u16" where
  "last_id es = (let ks = filter live_key es in if ks = [] then 0 else eid (last ks))"

definition key_ent :: "u16 \<Rightarrow> byte list \<Rightarrow> byte list \<Rightarrow> ent" where
  "key_ent i key pad = Ent (i OR ENTRY_FLAG_ALIVE) key pad"

definition value_ent :: "u16 \<Rightarrow> byte list \<Rightarrow> bool \<Rightarrow> byte list \<Rightarrow> ent" where
  "value_ent i v bin pad =
     Ent (i OR ENTRY_FLAG_VALUE OR (if bin then ENTRY_FLAG_BINARY else 0) OR ENTRY_FLAG_ALIVE) v pad"

lemma u16_eq_bits: "(a :: u16) = b \<longleftrightarrow> (\<forall>n. bit a n = bit b n)"
  by (auto intro: bit_eqI)

lemma live_iff: "live e \<longleftrightarrow> bit (eflags e) 15 \<and> \<not> bit (eflags e) 14"
proof -
  have "eflags e AND (ENTRY_FLAG_ALIVE OR ENTRY_FLAG_INVALID) = ENTRY_FLAG_ALIVE \<longleftrightarrow>
      (\<forall>n. bit (eflags e AND (ENTRY_FLAG_ALIVE OR ENTRY_FLAG_INVALID)) n = bit (ENTRY_FLAG_ALIVE :: u16) n)"
    by (rule u16_eq_bits)
  also have "\<dots> \<longleftrightarrow> bit (eflags e) 15 \<and> \<not> bit (eflags e) 14"
    unfolding flag_simps by (auto dest: spec [of _ 14])
  finally show ?thesis
    by (simp add: live_def)
qed

lemma id_bits:
  fixes i :: u16
  assumes "i \<le> ENTRY_MASK_ID"
  shows "i AND ENTRY_MASK_ID = i" "12 \<le> n \<Longrightarrow> \<not> bit i n"
proof -
  have m: "(ENTRY_MASK_ID :: u16) = mask 12"
    by code_simp
  have "unat i < 2 ^ 12"
    using assms by (simp add: word_le_nat_alt)
  then have "take_bit 12 i = i"
    by (simp only: word_unat_eq_iff unsigned_take_bit_eq take_bit_nat_eq_self)
  then have "i AND mask 12 = i"
    by (simp only: take_bit_eq_mask)
  then show e: "i AND ENTRY_MASK_ID = i"
    by (simp only: m)
  show "12 \<le> n \<Longrightarrow> \<not> bit i n"
    using arg_cong [OF e, of "\<lambda>w. bit w n"] unfolding flag_simps by auto
qed

lemma key_ent_props:
  assumes "i \<le> ENTRY_MASK_ID"
  shows "live_key (key_ent i k pad)" "\<not> live_val (key_ent i k pad)" "eid (key_ent i k pad) = i" "epay (key_ent i k pad) = k"
proof -
  note b = id_bits(2) [OF assms]
  have "live (key_ent i k pad)" "\<not> bit (eflags (key_ent i k pad)) 13"
    using b unfolding live_iff key_ent_def ent.sel flag_simps by auto
  then show "live_key (key_ent i k pad)" "\<not> live_val (key_ent i k pad)"
    unfolding live_key_def live_val_def and_flag_0 by auto
  have "(i OR ENTRY_FLAG_ALIVE) AND ENTRY_MASK_ID = i AND ENTRY_MASK_ID"
    by (intro bit_word_eqI) (simp only: flag_simps, auto)
  then show "eid (key_ent i k pad) = i"
    using id_bits(1) [OF assms] by (simp add: eid_def key_ent_def)
qed (simp add: key_ent_def)

lemma value_ent_props:
  assumes "i \<le> ENTRY_MASK_ID"
  shows "live_val (value_ent i v bin pad)" "\<not> live_key (value_ent i v bin pad)" "eid (value_ent i v bin pad) = i"
    "epay (value_ent i v bin pad) = v" "binary (value_ent i v bin pad) = bin"
proof -
  note b = id_bits(2) [OF assms]
  let ?e = "value_ent i v bin pad"
  have "live ?e" "bit (eflags ?e) 13" "bit (eflags ?e) 12 = bin"
    using b by (cases bin; (simp only: live_iff value_ent_def ent.sel if_True if_False flag_simps bit_0_eq bot_apply bot_bool_def, auto))+
  then show "live_val ?e" "\<not> live_key ?e" "binary ?e = bin"
    unfolding live_key_def live_val_def binary_def and_flag_0 by auto
  have "(i OR ENTRY_FLAG_VALUE OR (if bin then ENTRY_FLAG_BINARY else 0) OR ENTRY_FLAG_ALIVE) AND ENTRY_MASK_ID = i AND ENTRY_MASK_ID"
    by (intro bit_word_eqI) (cases bin; (simp only: if_True if_False flag_simps bit_0_eq bot_apply bot_bool_def, auto))
  then show "eid ?e = i"
    using id_bits(1) [OF assms] by (simp add: eid_def value_ent_def)
qed (simp add: value_ent_def)

lemma kill_props [simp]: "\<not> live (kill e)" "\<not> live_key (kill e)" "\<not> live_val (kill e)" "\<not> live_value i (kill e)"
proof -
  show d: "\<not> live (kill e)"
    unfolding live_iff kill_def ent.sel flag_simps by simp
  then show "\<not> live_key (kill e)" "\<not> live_val (kill e)" "\<not> live_value i (kill e)"
    by (simp_all add: live_key_def live_val_def live_value_def)
qed

lemma live_value_val: "live_value i e \<longleftrightarrow> live_val e \<and> eid e = i"
  by (auto simp: live_value_def live_val_def)

lemma live_key_val: "live_key e \<Longrightarrow> \<not> live_val e"
  by (simp add: live_key_def live_val_def)

lemma value_of_append: "value_of i (xs @ ys) = (case value_of i xs of None \<Rightarrow> value_of i ys | Some v \<Rightarrow> Some v)"
  by (induction xs) auto


text \<open>Looking up through entries that are not the key's.\<close>

lemma lookup_skip: "\<forall>x \<in> set xs. \<not> (live_key x \<and> epay x = key) \<Longrightarrow> lookup (xs @ ys) key = lookup ys key"
  by (induction xs) auto

text \<open>New entries with an identifier that no live key has do not change any lookup of the old keys.\<close>

lemma lookup_append_old:
  assumes "\<forall>x \<in> set es. live_key x \<longrightarrow> eid x \<notin> eid ` set ys" and "\<exists>x \<in> set es. live_key x \<and> epay x = key"
  shows "lookup (es @ ys) key = lookup es key"
proof -
  have v: "value_of i (xs @ ys) = value_of i xs" if "i \<notin> eid ` set ys" for i xs
  proof -
    have "value_of i ys = None"
      using that by (auto simp: value_of_None live_value_val)
    then show ?thesis
      by (simp add: value_of_append split: option.split)
  qed
  show ?thesis
    using assms by (induction es) (auto simp: v)
qed

text \<open>A new key with its value.\<close>

lemma lookup_new_key:
  assumes "\<forall>x \<in> set es. \<not> (live_key x \<and> epay x = key)" and "\<forall>x \<in> set es. live_key x \<longrightarrow> eid x < i"
    and "i \<le> ENTRY_MASK_ID"
  shows "lookup (es @ [key_ent i key p, value_ent i v bin q]) k = (if k = key then Some (v, bin) else lookup es k)"
proof -
  note ps = key_ent_props [OF assms(3)] value_ent_props [OF assms(3)]
  have "lookup (es @ [key_ent i key p, value_ent i v bin q]) key = Some (v, bin)"
    using assms(1) ps by (simp add: lookup_skip live_value_val)
  moreover have "lookup (es @ [key_ent i key p, value_ent i v bin q]) k = lookup es k" if "k \<noteq> key"
  proof (cases "\<exists>x \<in> set es. live_key x \<and> epay x = k")
    case True
    then show ?thesis
      using assms(2) ps by (intro lookup_append_old) auto
  next
    case False
    then show ?thesis
      using ps that lookup_skip [of es k "[]"] by (simp add: lookup_skip)
  qed
  ultimately show ?thesis
    by simp
qed

lemma store_ok_order:
  assumes "store_ok (pre @ e # post)"
  shows "\<And>x. x \<in> set pre \<Longrightarrow> entry_order x e" "\<And>x. x \<in> set post \<Longrightarrow> entry_order e x"
    "\<And>x y. x \<in> set pre \<Longrightarrow> y \<in> set post \<Longrightarrow> entry_order x y"
  using assms by (auto simp: store_ok_def sorted_wrt_append)

text \<open>A value for a key that is there, at the end; the old value, if any, is dead by then.\<close>

lemma lookup_new_value:
  assumes "store_ok (pre @ k # post)" and "live_key k" and "\<forall>x \<in> set post. \<not> live_value (eid k) x"
  shows "lookup (pre @ k # post @ [value_ent (eid k) v bin q]) key =
     (if key = epay k then Some (v, bin) else lookup (pre @ k # post) key)"
proof -
  have i: "eid k \<le> ENTRY_MASK_ID"
    using assms(1,2) by (auto simp: store_ok_def)
  note ps = value_ent_props [OF i]
  have pre: "x \<in> set pre \<Longrightarrow> live_key x \<Longrightarrow> epay x \<noteq> epay k \<and> eid x \<noteq> eid k" for x
    using store_ok_order(1) [OF assms(1), of x] assms(2) by (auto simp: entry_order_def)
  have post: "x \<in> set post \<Longrightarrow> live_key x \<Longrightarrow> epay x \<noteq> epay k \<and> eid x \<noteq> eid k" for x
    using store_ok_order(2) [OF assms(1), of x] assms(2) by (auto simp: entry_order_def)
  have "value_of (eid k) post = None"
    using assms(3) by (simp add: value_of_None)
  then have same: "lookup (pre @ k # post @ [value_ent (eid k) v bin q]) (epay k) = Some (v, bin)"
    using pre assms(2) ps by (auto simp: lookup_skip value_of_append live_value_val)
  have v: "value_of j (xs @ [value_ent (eid k) v bin q]) = value_of j xs" if "j \<noteq> eid k" for j xs
    using that ps by (simp add: value_of_append live_value_val split: option.split)
  have "lookup (xs @ [value_ent (eid k) v bin q]) key = lookup xs key"
    if "\<forall>x \<in> set xs. live_key x \<and> epay x = key \<longrightarrow> eid x \<noteq> eid k" for xs
    using that ps by (induction xs) (auto simp: v)
  from this [of "pre @ k # post"] same pre post show ?thesis
    by auto
qed

text \<open>Killing the value entry of a key.\<close>

lemma value_of_kill:
  "i \<noteq> eid e \<or> \<not> live_val e \<Longrightarrow> value_of i (xs @ kill e # ys) = value_of i (xs @ e # ys)"
  by (induction xs) (auto simp: live_value_val)

lemma lookup_kill:
  assumes "store_ok (pre @ e # post)" and "live_val e" and "k \<in> set (pre @ e # post)" and "live_key k" and "eid k = eid e"
  shows "lookup (pre @ kill e # post) key = (if key = epay k then None else lookup (pre @ e # post) key)"
proof -
  have nk: "\<not> live_key e"
    using assms(2) live_key_val by blast
  have "k \<notin> set post"
    using store_ok_order(2) [OF assms(1), of k] assms(2,4,5) by (auto simp: entry_order_def)
  then have "k \<in> set pre"
    using assms(3,4) nk by auto
  then obtain p1 p2 where p: "pre = p1 @ k # p2"
    by (auto simp: in_set_conv_decomp)
  have o: "store_ok (p1 @ k # p2 @ e # post)" "store_ok ((p1 @ k # p2) @ e # post)"
    using assms(1) p by simp_all
  have p1: "x \<in> set p1 \<Longrightarrow> live_key x \<Longrightarrow> epay x \<noteq> epay k \<and> eid x \<noteq> eid e" for x
    using store_ok_order(1) [OF o(1), of x] assms(4,5) by (auto simp: entry_order_def)
  have p2: "x \<in> set p2 \<Longrightarrow> live_key x \<Longrightarrow> epay x \<noteq> epay k \<and> eid x \<noteq> eid e" for x
    using store_ok_order(2) [OF o(1), of x] assms(4,5) by (auto simp: entry_order_def)
  have "\<forall>x \<in> set (p2 @ kill e # post). \<not> live_value (eid k) x"
    using store_ok_order(1,2) [OF o(2)] assms(2,5)
    by (auto simp: entry_order_def live_value_val) metis+
  then have same: "lookup (pre @ kill e # post) (epay k) = None"
    using p p1 assms(4) by (auto simp: lookup_skip value_of_None)
  have "lookup (xs @ kill e # post) key = lookup (xs @ e # post) key"
    if "\<forall>x \<in> set xs. live_key x \<and> epay x = key \<longrightarrow> eid x \<noteq> eid e" for xs
    using that nk by (induction xs) (auto simp: value_of_kill)
  from this [of pre] same p p1 p2 show ?thesis
    using assms(4) by auto
qed

text \<open>Well-formedness is kept.\<close>

lemma store_ok_new_key:
  assumes "store_ok es" and "\<forall>x \<in> set es. \<not> (live_key x \<and> epay x = key)" and "\<forall>x \<in> set es. live_key x \<longrightarrow> eid x < i"
    and "i < ENTRY_ID_END"
  shows "store_ok (es @ [key_ent i key p, value_ent i v bin q])"
proof -
  have i: "i \<le> ENTRY_MASK_ID"
    using assms(4) by (rule less_imp_le)
  have "live_val x \<Longrightarrow> x \<in> set es \<Longrightarrow> eid x \<noteq> i" for x
    using assms(1,3) unfolding store_ok_def by (metis less_irrefl)
  then show ?thesis
    using assms key_ent_props [OF i] value_ent_props [OF i]
    by (auto simp: store_ok_def sorted_wrt_append entry_order_def)
qed

lemma store_ok_new_value:
  assumes "store_ok es" and "k \<in> set es" and "live_key k" and "\<forall>x \<in> set es. \<not> live_value (eid k) x"
  shows "store_ok (es @ [value_ent (eid k) v bin q])"
proof -
  have i: "eid k \<le> ENTRY_MASK_ID"
    using assms(1-3) by (auto simp: store_ok_def)
  show ?thesis
    using assms value_ent_props [OF i]
    by (auto simp: store_ok_def sorted_wrt_append entry_order_def live_value_val)
qed

lemma store_ok_kill:
  assumes "store_ok (pre @ e # post)" and "\<not> live_key e"
  shows "store_ok (pre @ kill e # post)"
  using assms by (auto simp: store_ok_def sorted_wrt_append entry_order_def)

text \<open>The value of a live key's identifier is behind the key.\<close>

lemma value_behind_key:
  assumes "store_ok (pre @ k # post)" and "live_key k" and "\<forall>x \<in> set post. \<not> live_value (eid k) x"
  shows "\<forall>x \<in> set (pre @ k # post). \<not> live_value (eid k) x"
  using assms store_ok_order(1) [OF assms(1)] live_key_val by (auto simp: entry_order_def live_value_val)

text \<open>What the scan over entries counts as the last key identifier.\<close>

lemma max_key_id_scan: "max_key_id (scan_ctx a ctx es) = (if filter live_key es = [] then max_key_id ctx else last_id es)"
proof (induction es arbitrary: a ctx)
  case (Cons e es)
  have "max_key_id (count_entry (ctx\<lparr>caddr := a, centry := ent_head e\<rparr>)) = (if live_key e then eid e else max_key_id ctx)"
    by (simp add: count_entry_def Let_def ent_head_def live_key_def live_def eid_def)
  with Cons.IH show ?case
    by (simp add: last_id_def Let_def)
qed (simp add: last_id_def)

lemma last_id_max:
  assumes "store_ok es" and "x \<in> set es" and "live_key x"
  shows "eid x \<le> last_id es"
proof -
  have s: "sorted_wrt (\<lambda>x y. eid x < eid y) (filter live_key es)"
    using assms(1) sorted_wrt_filter [of entry_order es live_key]
    by (auto simp: store_ok_def entry_order_def elim!: sorted_wrt_mono_rel [rotated])
  have "x \<in> set (filter live_key es)"
    using assms by simp
  then obtain ys y where ys: "filter live_key es = ys @ [y]"
    by (metis empty_iff empty_set rev_exhaust)
  then have "last_id es = eid y"
    by (simp add: last_id_def)
  with s ys \<open>x \<in> set (filter live_key es)\<close> show ?thesis
    by (auto simp: sorted_wrt_append)
qed

section \<open>Setting a parameter\<close>

context sysparam_hw begin

lemma store_dev: "store env mem st es \<Longrightarrow> mem d = mem (dev st) \<Longrightarrow> store env mem (st\<lparr>dev := d\<rparr>) es"
  by (simp add: store_def store_at_def)

lemma store_store_at: "store env mem st es \<Longrightarrow> store_at env mem st es"
  by (simp add: store_def)

text \<open>The search of \<^verbatim>\<open>sysparam_set_data\<close>: no key, a key without value, a key with a value.\<close>

lemma set_find_no_key:
  assumes "store env mem st es" and "length key < 65536" and "\<forall>x \<in> set es. \<not> (live_key x \<and> epay x = key)"
  obtains d ctx where "mem d = mem (dev st)" and "max_key_id ctx = last_id es"
    and "set_find env key (of_nat (length key)) st = Some (SYSPARAM_NOTFOUND, ctx, - 1, 0, st\<lparr>dev := d\<rparr>)"
proof -
  let ?ce = "(scan_ctx (cur_base st + 8) (init_context st) es)
    \<lparr>caddr := cur_base st + 8 + ents_len es, centry := \<lparr>idflags = 0, elen = 0\<rparr>\<rparr>"
  obtain d where d: "mem d = mem (dev st)"
    "find_key env (init_context st) (Some key) (of_nat (length key)) st = Some (SYSPARAM_NOTFOUND, ?ce, st\<lparr>dev := d\<rparr>)"
    using find_key_not_found [of st "[]" es "init_context st" key] store_store_at [OF assms(1)] assms(2,3)
      init_context_behind [of st] by auto
  have "max_key_id ?ce = last_id es"
    by (simp add: max_key_id_scan init_context_def zero_context_def last_id_def)
  with that [OF d(1), of ?ce] d(2) show thesis
    by (simp add: set_find_def)
qed

lemma set_find_key:
  assumes "store env mem st (pre @ k # post)" and "store_ok (pre @ k # post)" and "live_key k" and "length (epay k) < 65536"
  obtains (no_value) d ctx where "mem d = mem (dev st)" and "\<forall>x \<in> set post. \<not> live_value (eid k) x"
      and "set_find env (epay k) (of_nat (length (epay k))) st =
        Some (SYSPARAM_NOTFOUND, ctx, uint (eid k), 0, st\<lparr>dev := d\<rparr>)"
  | (has_value) d ctx p1 e p2 where "mem d = mem (dev st)" and "post = p1 @ e # p2" and "live_value (eid k) e"
      and "\<forall>x \<in> set p1. \<not> live_value (eid k) x"
      and "centry ctx = ent_head e" and "caddr ctx = cur_base st + 8 + ents_len (pre @ k # p1)"
      and "set_find env (epay k) (of_nat (length (epay k))) st =
        Some (SYSPARAM_OK, ctx, uint (eid k), cur_base st + 8 + ents_len (pre @ k # p1), st\<lparr>dev := d\<rparr>)"
proof -
  let ?c = "scan_ctx (cur_base st + 8) (init_context st) (pre @ [k])"
  have other: "\<forall>x \<in> set pre. \<not> (live_key x \<and> epay x = epay k)"
    using store_ok_order(1) [OF assms(2)] assms(3) by (auto simp: entry_order_def)
  obtain d1 where d1: "mem d1 = mem (dev st)"
    "find_key env (init_context st) (Some (epay k)) (of_nat (length (epay k))) st = Some (SYSPARAM_OK, ?c, st\<lparr>dev := d1\<rparr>)"
    using find_key_found [of st "[]" pre k post "init_context st" "epay k"] store_store_at [OF assms(1)] assms(3,4) other
      init_context_behind [of st] by auto
  have s1: "store_at env mem (st\<lparr>dev := d1\<rparr>) ((pre @ [k]) @ post)"
    using store_store_at [OF store_dev [OF assms(1) d1(1)]] by simp
  have b1: "ctx_behind (cur_base (st\<lparr>dev := d1\<rparr>)) (pre @ [k]) ?c"
    using scan_ctx_behind [OF init_context_behind [of st], of "pre @ [k]"] by simp
  have id: "idflags (centry ?c) AND ENTRY_MASK_ID = eid k" "eid k \<noteq> ENTRY_ID_END"
    using assms(2,3) by (auto simp: scan_last eid_def ent_head_def store_ok_def)
  show thesis
  proof (cases "\<exists>x \<in> set post. live_value (eid k) x")
    case False
    have "\<exists>d ctx. mem d = mem d1 \<and> find_value env ?c (eid k) (st\<lparr>dev := d1\<rparr>) = Some (SYSPARAM_NOTFOUND, ctx, st\<lparr>dev := d\<rparr>)"
      by (rule find_value_not_found [OF s1 b1, of "eid k"]) (use False id in auto)
    then obtain d ctx where "mem d = mem d1"
      "find_value env ?c (eid k) (st\<lparr>dev := d1\<rparr>) = Some (SYSPARAM_NOTFOUND, ctx, st\<lparr>dev := d\<rparr>)"
      by blast
    with False no_value [of d ctx] d1 id show thesis
      by (simp add: set_find_def Let_def)
  next
    case True
    then obtain p1 e p2 where p: "post = p1 @ e # p2" "live_value (eid k) e" "\<forall>x \<in> set p1. \<not> live_value (eid k) x"
      using split_list_first_prop [of post "live_value (eid k)"] by blast
    let ?cv = "scan_ctx (cur_base st + 8 + ents_len (pre @ [k])) ?c (p1 @ [e])"
    obtain d where d: "mem d = mem d1" "find_value env ?c (eid k) (st\<lparr>dev := d1\<rparr>) = Some (SYSPARAM_OK, ?cv, st\<lparr>dev := d\<rparr>)"
      using find_value_found [of "st\<lparr>dev := d1\<rparr>" "pre @ [k]" p1 e p2 ?c "eid k"] s1 b1 p by auto
    have "centry ?cv = ent_head e" "caddr ?cv = cur_base st + 8 + ents_len (pre @ k # p1)"
      by (simp_all add: scan_last add.assoc)
    with has_value [of d p1 e p2 ?cv] p d d1 id show thesis
      by (simp add: set_find_def Let_def)
  qed
qed

lemma set_room_enough:
  assumes "store env mem st es" and "8 + ents_len es + needed \<le> region_size st" and "0 \<le> key_id \<or> max_key_id ctx < MAX_KEY_ID"
  shows "set_room env it ctx key_id old needed st = Some (SYSPARAM_OK, ctx, key_id, old, st)"
proof -
  note s = store_end [OF assms(1)]
  have "cur_base st + region_size st < 2 ^ 32"
    using s(1) chip_small by simp
  then have "sub32 (add32 (cur_base st) (region_size st)) (end_addr st) = region_size st - 8 - ents_len es"
    using assms(2) s(4) by (simp add: add32_no_wrap sub32_no_wrap)
  moreover have "\<not> force_compact st"
    using assms(1) by (simp add: store_def)
  ultimately show ?thesis
    using assms(2,3) by (auto simp: set_room_def Let_def not_le)
qed

lemma init_write_context_ok:
  assumes "store env mem st es" and "8 + ents_len es + 4 \<le> region_size st"
  obtains d ctx where "init_write_context env st = (SYSPARAM_OK, ctx, st\<lparr>dev := d\<rparr>)" and "mem d = mem (dev st)"
    and "caddr ctx = end_addr st"
proof -
  have "end_addr st + 4 \<le> chip_size (chip (flash env))"
    using store_end [OF assms(1)] assms(2) by simp
  then obtain d bs where "sdk_spi_flash_read (flash env) (end_addr st) 4 (dev st) = (0, bs, d)" "mem d = mem (dev st)"
    using flash_read by blast
  with that show thesis
    by (simp add: init_write_context_def zero_context_def)
qed

end

lemma id_no_invalid:
  fixes i :: u16
  assumes "i \<le> ENTRY_MASK_ID"
  shows "i AND ENTRY_FLAG_INVALID = 0"
    and "(i OR ENTRY_FLAG_VALUE OR (if b then ENTRY_FLAG_BINARY else 0)) AND ENTRY_FLAG_INVALID = 0"
  unfolding and_flag_0 using id_bits(2) [OF assms]
  by (auto simp: bit_or_iff flag_bits simp del: bit_numeral_word_iff)

context sysparam_hw begin

lemma set_append_value:
  assumes "store env mem st es" and "8 + ents_len es + ENTRY_SIZE (length v) \<le> region_size st" and "length v < 65536"
    and "i \<le> ENTRY_MASK_ID"
  obtains st' q where "set_append env ctx (uint i) key v (if bin then ENTRY_FLAG_BINARY else 0) st = (SYSPARAM_OK, st')"
    and "store env mem st' (es @ [value_ent i v bin q])" and "cur_base st' = cur_base st" and "(region_size st', alt_base st') = (region_size st, alt_base st)"
proof -
  have "8 + ents_len es + 4 \<le> region_size st"
    using assms(2) ENTRY_SIZE_ge(1) [of "length v"] by simp
  then obtain d wctx where d: "init_write_context env st = (SYSPARAM_OK, wctx, st\<lparr>dev := d\<rparr>)" "mem d = mem (dev st)"
    "caddr wctx = end_addr st"
    using init_write_context_ok [OF assms(1)] by metis
  note s1 = store_dev [OF assms(1) d(2)]
  let ?f = "i OR ENTRY_FLAG_VALUE OR (if bin then ENTRY_FLAG_BINARY else 0)"
  let ?n = "ENTRY_SIZE (length v)"
  have n: "8 + ents_len es + ?n \<le> region_size (st\<lparr>dev := d\<rparr>)"
    using assms(2) by simp
  obtain d2 q where w: "write_entry env (end_addr st) ?f v (st\<lparr>dev := d\<rparr>) =
      (SYSPARAM_OK, st\<lparr>dev := d2, end_addr := end_addr st + ?n\<rparr>)"
    "store env mem (st\<lparr>dev := d2, end_addr := end_addr st + ?n\<rparr>) (es @ [Ent (?f OR ENTRY_FLAG_ALIVE) v q])"
    using write_entry_append [OF s1 n assms(3) id_no_invalid(2) [OF assms(4)]] by auto
  have "add32 (end_addr st) ?n = end_addr st + ?n"
    using store_end [OF assms(1)] assms(2) chip_small by (simp add: add32_no_wrap)
  with w d have "set_append env ctx (uint i) key v (if bin then ENTRY_FLAG_BINARY else 0) st =
      (SYSPARAM_OK, st\<lparr>dev := d2, end_addr := end_addr st + ?n\<rparr>)"
    by (simp add: set_append_def Let_def)
  moreover have "Ent (?f OR ENTRY_FLAG_ALIVE) v q = value_ent i v bin q"
    by (simp add: value_ent_def or.assoc)
  ultimately show thesis
    using that w(2) by simp
qed


lemma set_append_key:
  assumes "store env mem st es" and "8 + ents_len es + (ENTRY_SIZE (length v) + ENTRY_SIZE (length key)) \<le> region_size st"
    and "length v < 65536" and "length key < 65536" and "max_key_id ctx < MAX_KEY_ID"
  obtains st' p q where "set_append env ctx (- 1) key v (if bin then ENTRY_FLAG_BINARY else 0) st = (SYSPARAM_OK, st')"
    and "store env mem st' (es @ [key_ent (max_key_id ctx + 1) key p, value_ent (max_key_id ctx + 1) v bin q])"
    and "cur_base st' = cur_base st" and "(region_size st', alt_base st') = (region_size st, alt_base st)"
proof -
  let ?i = "max_key_id ctx + 1"
  have ui: "uint ?i = uint (max_key_id ctx) + 1" and i: "?i \<le> ENTRY_MASK_ID"
    using assms(5) by (simp_all add: uint_plus_simple_iff word_le_def word_less_def uint_word_ariths)
  have "8 + ents_len es + 4 \<le> region_size st"
    using assms(2) ENTRY_SIZE_ge(1) [of "length v"] by simp
  then obtain d wctx where d: "init_write_context env st = (SYSPARAM_OK, wctx, st\<lparr>dev := d\<rparr>)" "mem d = mem (dev st)"
    "caddr wctx = end_addr st"
    using init_write_context_ok [OF assms(1)] by metis
  note s1 = store_dev [OF assms(1) d(2)]
  let ?f = "?i OR ENTRY_FLAG_VALUE OR (if bin then ENTRY_FLAG_BINARY else 0)"
  let ?k = "ENTRY_SIZE (length key)" and ?n = "ENTRY_SIZE (length v)"
  have n: "8 + ents_len es + ?k \<le> region_size (st\<lparr>dev := d\<rparr>)"
    using assms(2) by simp
  let ?s1 = "\<lambda>d1. st\<lparr>dev := d1, end_addr := end_addr st + ?k\<rparr>"
  obtain d1 p where k: "write_entry env (end_addr st) ?i key (st\<lparr>dev := d\<rparr>) = (SYSPARAM_OK, ?s1 d1)"
    "store env mem (?s1 d1) (es @ [key_ent ?i key p])"
    using write_entry_append [OF s1 n assms(4) id_no_invalid(1) [OF i]] by (auto simp: key_ent_def)
  have kok: "length (ent_bytes (key_ent ?i key p)) = ?k"
    using store_end(4) [OF k(2)] store_end(4) [OF assms(1)] by simp
  then have n2: "8 + ents_len (es @ [key_ent ?i key p]) + ?n \<le> region_size (?s1 d1)"
    using assms(2) by simp
  let ?s2 = "\<lambda>d2. st\<lparr>dev := d2, end_addr := end_addr st + ?k + ?n\<rparr>"
  obtain d2 q where w: "write_entry env (end_addr st + ?k) ?f v (?s1 d1) = (SYSPARAM_OK, ?s2 d2)"
    "store env mem (?s2 d2) ((es @ [key_ent ?i key p]) @ [Ent (?f OR ENTRY_FLAG_ALIVE) v q])"
    using write_entry_append [OF k(2) n2 assms(3) id_no_invalid(2) [OF i]] by auto
  have a: "add32 (end_addr st) ?k = end_addr st + ?k" "add32 (end_addr st + ?k) ?n = end_addr st + ?k + ?n"
    using store_end [OF assms(1)] assms(2) chip_small by (simp_all add: add32_no_wrap)
  have "word_of_int (uint (max_key_id ctx) + 1) = ?i"
    by (simp flip: ui)
  with k(1) w(1) d a have "set_append env ctx (- 1) key v (if bin then ENTRY_FLAG_BINARY else 0) st = (SYSPARAM_OK, ?s2 d2)"
    by (simp add: set_append_def Let_def)
  moreover have "Ent (?f OR ENTRY_FLAG_ALIVE) v q = value_ent ?i v bin q"
    by (simp add: value_ent_def or.assoc)
  ultimately show thesis
    using that w(2) by simp
qed

text \<open>The comparison with the stored value does not change the flash.\<close>

lemma set_same_ok:
  assumes "store env mem st (pre @ e # post)" and "centry ctx = ent_head e" and "caddr ctx = cur_base st + 8 + ents_len pre"
    and "length v < 65536"
  obtains d where "mem d = mem (dev st)"
    and "set_same env ctx (if bin then ENTRY_FLAG_BINARY else 0) v kl st =
      (SYSPARAM_OK, (v, bin) = (epay e, binary e), st\<lparr>dev := d\<rparr>)"
proof -
  have e: "ent_ok e"
    using store_end(3) [OF assms(1)] by (simp add: region_at_def)
  have b: "(idflags (centry ctx) AND ENTRY_FLAG_BINARY = (if bin then ENTRY_FLAG_BINARY else 0)) = (bin = binary e)"
  proof -
    have "eflags e AND ENTRY_FLAG_BINARY = 0 \<or> eflags e AND ENTRY_FLAG_BINARY = ENTRY_FLAG_BINARY"
      unfolding u16_eq_bits [of _ "ENTRY_FLAG_BINARY"] and_flag_0 flag_simps by auto
    moreover have "(ENTRY_FLAG_BINARY :: u16) \<noteq> 0"
      by simp
    ultimately show ?thesis
      using assms(2) by (auto simp: binary_def ent_head_def simp del: word_eq_numeral_iff_iszero)
  qed
  show thesis
  proof (cases "bin = binary e \<and> length (epay e) = length v")
    case False
    then have "set_same env ctx (if bin then ENTRY_FLAG_BINARY else 0) v kl st = (SYSPARAM_OK, False, st)"
      unfolding set_same_def b using unat_elen [OF e] assms(2) by auto
    with that [of "dev st"] False show thesis
      by auto
  next
    case True
    obtain d0 where d0: "malloc_ok env (length v) (dev st) = (True, d0)" "mem d0 = mem (dev st)"
      by (rule malloc_E)
    then obtain d1 where d1: "(if length v > unat kl then malloc_ok env (length v) (dev st) else (True, dev st)) = (True, d1)"
      "mem d1 = mem (dev st)"
      by (cases "length v > unat kl") auto
    have s: "store_at env mem (st\<lparr>dev := d1\<rparr>) (pre @ e # post)"
      using store_store_at [OF store_dev [OF assms(1) d1(2)]] .
    obtain d2 where d2: "mem d2 = mem d1"
      "read_payload env ctx (length v) (st\<lparr>dev := d1\<rparr>) = (SYSPARAM_OK, epay e, st\<lparr>dev := d2\<rparr>)"
      using read_payload_ok [OF s, of ctx "length v"] True assms(2,3) by auto
    have "set_same env ctx (if bin then ENTRY_FLAG_BINARY else 0) v kl st = (SYSPARAM_OK, epay e = v, st\<lparr>dev := d2\<rparr>)"
      unfolding set_same_def b d1(1) using unat_elen [OF e] assms(2) True d2(2) by simp
    with that [of d2] True d1(2) d2(1) show thesis
      by auto
  qed
qed
end

definition has_key :: "ent list \<Rightarrow> byte list \<Rightarrow> bool" where
  "has_key es key \<longleftrightarrow> (\<exists>x \<in> set es. live_key x \<and> epay x = key)"

text \<open>There is room in the region for a value, and for a key entry when the key is new.\<close>

definition room_for :: "'d sysparam_info \<Rightarrow> ent list \<Rightarrow> byte list \<Rightarrow> byte list \<Rightarrow> bool" where
  "room_for st es key v \<longleftrightarrow>
     8 + ents_len es + (ENTRY_SIZE (length v) + (if has_key es key then 0 else ENTRY_SIZE (length key))) \<le> region_size st \<and>
     (has_key es key \<or> last_id es < MAX_KEY_ID)"

lemma room_for_dev [simp]: "room_for (st\<lparr>dev := d\<rparr>) es key v = room_for st es key v"
  by (simp add: room_for_def)

lemma lookup_at_key:
  assumes "store_ok (pre @ k # post)" and "live_key k"
  shows "lookup (pre @ k # post) (epay k) = value_of (eid k) post"
proof -
  have "\<forall>x \<in> set pre. \<not> (live_key x \<and> epay x = epay k)"
    using store_ok_order(1) [OF assms(1)] assms(2) by (auto simp: entry_order_def)
  with assms(2) show ?thesis
    by (simp add: lookup_skip)
qed

context sysparam_hw begin

lemma set_body_new_key:
  assumes "store env mem st es" "store_ok es" "\<not> has_key es key" "length key < 65536" "v \<noteq> []" "length v < 65536"
    and "room_for st es key v"
  obtains st' i p q where "set_body env it key v bin st = Some (SYSPARAM_OK, st')"
    and "store env mem st' (es @ [key_ent i key p, value_ent i v bin q])" and "\<forall>x \<in> set es. live_key x \<longrightarrow> eid x < i"
    and "i < ENTRY_ID_END" and "cur_base st' = cur_base st" and "(region_size st', alt_base st') = (region_size st, alt_base st)"
proof -
  have nk: "\<forall>x \<in> set es. \<not> (live_key x \<and> epay x = key)"
    using assms(3) by (simp add: has_key_def)
  obtain d ctx where d: "mem d = mem (dev st)" "max_key_id ctx = last_id es"
    "set_find env key (of_nat (length key)) st = Some (SYSPARAM_NOTFOUND, ctx, - 1, 0, st\<lparr>dev := d\<rparr>)"
    by (rule set_find_no_key [OF assms(1,4) nk])
  have kl: "unat (of_nat (length key) :: u16) = length key"
    using assms(4) by (simp add: unat_of_nat)
  have r: "8 + ents_len es + (ENTRY_SIZE (length v) + ENTRY_SIZE (length key)) \<le> region_size (st\<lparr>dev := d\<rparr>)"
    "max_key_id ctx < MAX_KEY_ID"
    using assms(3,7) d(2) by (simp_all add: room_for_def)
  note s1 = store_dev [OF assms(1) d(1)]
  have room: "set_room env it ctx (- 1) 0 (ENTRY_SIZE (length v) + ENTRY_SIZE (length key)) (st\<lparr>dev := d\<rparr>) =
      Some (SYSPARAM_OK, ctx, - 1, 0, st\<lparr>dev := d\<rparr>)"
    using r(2) by (intro set_room_enough [OF s1 r(1)]) simp
  let ?i = "max_key_id ctx + 1"
  obtain st' p q where st': "set_append env ctx (- 1) key v (if bin then ENTRY_FLAG_BINARY else 0) (st\<lparr>dev := d\<rparr>) =
      (SYSPARAM_OK, st')" "store env mem st' (es @ [key_ent ?i key p, value_ent ?i v bin q])"
    "cur_base st' = cur_base st" "(region_size st', alt_base st') = (region_size st, alt_base st)"
    using set_append_key [OF s1 r(1) assms(6,4) r(2), where bin = bin] by auto
  have "set_body env it key v bin st = Some (SYSPARAM_OK, st')"
    using d(3) room st'(1) kl assms(5) by (simp add: set_body_def Let_def)
  moreover have "last_id es < last_id es + 1" "last_id es + 1 < ENTRY_ID_END"
    using r(2) d(2) by (simp_all add: word_less_nat_alt unat_word_ariths)
  moreover have "\<forall>x \<in> set es. live_key x \<longrightarrow> eid x < last_id es + 1"
    using last_id_max [OF assms(2)] calculation(2) by (meson le_less_trans)
  ultimately show thesis
    using that [OF _ st'(2)] st'(3,4) d(2) by simp
qed

lemma set_body_old_key:
  assumes "store env mem st (pre @ k # post)" "store_ok (pre @ k # post)" "live_key k" "length (epay k) < 65536"
    and "v \<noteq> []" "length v < 65536" and "room_for st (pre @ k # post) (epay k) v"
  obtains (unchanged) st' where "set_body env it (epay k) v bin st = Some (SYSPARAM_OK, st')"
      and "store env mem st' (pre @ k # post)" and "lookup (pre @ k # post) (epay k) = Some (v, bin)"
      and "cur_base st' = cur_base st" and "(region_size st', alt_base st') = (region_size st, alt_base st)"
  | (added) st' q where "set_body env it (epay k) v bin st = Some (SYSPARAM_OK, st')"
      and "store env mem st' (pre @ k # post @ [value_ent (eid k) v bin q])" and "\<forall>x \<in> set post. \<not> live_value (eid k) x"
      and "cur_base st' = cur_base st" and "(region_size st', alt_base st') = (region_size st, alt_base st)"
  | (replaced) st' q p1 e p2 where "set_body env it (epay k) v bin st = Some (SYSPARAM_OK, st')"
      and "post = p1 @ e # p2" and "live_value (eid k) e"
      and "store env mem st' (pre @ k # p1 @ kill e # p2 @ [value_ent (eid k) v bin q])"
      and "cur_base st' = cur_base st" and "(region_size st', alt_base st') = (region_size st, alt_base st)"
proof -
  let ?es = "pre @ k # post" and ?kl = "of_nat (length (epay k)) :: u16"
  let ?bf = "if bin then ENTRY_FLAG_BINARY else 0 :: u16"
  have i: "eid k \<le> ENTRY_MASK_ID"
    using assms(2,3) by (auto simp: store_ok_def)
  have kl: "unat ?kl = length (epay k)"
    using assms(4) by (simp add: unat_of_nat)
  have r: "8 + ents_len ?es + ENTRY_SIZE (length v) \<le> region_size st"
    using assms(3,7) by (auto simp: room_for_def has_key_def)
  show thesis
  proof (cases rule: set_find_key [OF assms(1-4)])
    case (1 d ctx)
    note s1 = store_dev [OF assms(1) 1(1)]
    have room: "set_room env it ctx (uint (eid k)) 0 (ENTRY_SIZE (length v)) (st\<lparr>dev := d\<rparr>) =
        Some (SYSPARAM_OK, ctx, uint (eid k), 0, st\<lparr>dev := d\<rparr>)"
      using r by (intro set_room_enough [OF s1]) simp_all
    obtain st' q where st': "set_append env ctx (uint (eid k)) (epay k) v ?bf (st\<lparr>dev := d\<rparr>) = (SYSPARAM_OK, st')"
      "store env mem st' (?es @ [value_ent (eid k) v bin q])" "cur_base st' = cur_base st" "(region_size st', alt_base st') = (region_size st, alt_base st)"
      using set_append_value [OF s1 _ assms(6) i, where bin = bin and ctx = ctx and key = "epay k"] r by auto
    have "set_body env it (epay k) v bin st = Some (SYSPARAM_OK, st')"
      using 1(3) room st'(1) kl assms(5) by (simp add: set_body_def Let_def)
    with added [of st' q] 1(2) st' show thesis
      by simp
  next
    case (2 d ctx p1 e p2)
    let ?a = "cur_base st + 8 + ents_len (pre @ k # p1)"
    have s1: "store env mem (st\<lparr>dev := d\<rparr>) ((pre @ k # p1) @ e # p2)"
      using store_dev [OF assms(1) 2(1)] 2(2) by simp
    obtain d2 where d2: "mem d2 = mem d"
      "set_same env ctx ?bf v ?kl (st\<lparr>dev := d\<rparr>) = (SYSPARAM_OK, (v, bin) = (epay e, binary e), st\<lparr>dev := d2\<rparr>)"
      using set_same_ok [OF s1 2(5) _ assms(6), of bin ?kl] 2(6) by auto
    have s2: "store env mem (st\<lparr>dev := d2\<rparr>) ?es"
      using store_dev [OF s1, of d2] d2(1) 2(2) by simp
    have nz: "0 < ?a"
      by simp
    show thesis
    proof (cases "(v, bin) = (epay e, binary e)")
      case True
      have "set_body env it (epay k) v bin st = Some (SYSPARAM_OK, st\<lparr>dev := d2\<rparr>)"
        using 2(7) d2(2) True kl assms(5) by (simp add: set_body_def Let_def)
      moreover have "lookup ?es (epay k) = Some (v, bin)"
        using lookup_at_key [OF assms(2,3)] 2(2-4) True by (simp add: value_of_append flip: value_of_None)
      ultimately show thesis
        using unchanged s2 by simp
    next
      case False
      let ?ctx = "ctx\<lparr>compactable := add32 (compactable ctx) (ENTRY_SIZE (unat (elen (centry ctx))))\<rparr>"
      have room: "set_room env it ?ctx (uint (eid k)) ?a (ENTRY_SIZE (length v)) (st\<lparr>dev := d2\<rparr>) =
          Some (SYSPARAM_OK, ?ctx, uint (eid k), ?a, st\<lparr>dev := d2\<rparr>)"
        using r by (intro set_room_enough [OF s2]) simp_all
      obtain st' q where st': "set_append env ?ctx (uint (eid k)) (epay k) v ?bf (st\<lparr>dev := d2\<rparr>) = (SYSPARAM_OK, st')"
        "store env mem st' (?es @ [value_ent (eid k) v bin q])" "cur_base st' = cur_base st" "(region_size st', alt_base st') = (region_size st, alt_base st)"
        using set_append_value [OF s2 _ assms(6) i, where bin = bin and ctx = ?ctx and key = "epay k"] r by auto
      have "store env mem st' ((pre @ k # p1) @ e # (p2 @ [value_ent (eid k) v bin q]))"
        using st'(2) 2(2) by simp
      then obtain d3 where d3: "delete_entry env ?a st' = (SYSPARAM_OK, st'\<lparr>dev := d3\<rparr>)"
        "store env mem (st'\<lparr>dev := d3\<rparr>) ((pre @ k # p1) @ kill e # (p2 @ [value_ent (eid k) v bin q]))"
        using delete_entry_kill st'(3) by metis
      have "set_same env ctx ?bf v ?kl (st\<lparr>dev := d\<rparr>) = (SYSPARAM_OK, False, st\<lparr>dev := d2\<rparr>)"
        using d2(2) False by (simp only:)
      then have "set_body env it (epay k) v bin st = Some (SYSPARAM_OK, st'\<lparr>dev := d3\<rparr>)"
        using 2(7) room st'(1) d3(1) kl assms(5) nz by (simp add: set_body_def Let_def)
      with replaced [of "st'\<lparr>dev := d3\<rparr>" p1 e p2 q] 2(2,3) d3(2) st'(3,4) show thesis
        by simp
    qed
  qed
qed

text \<open>The update of the log, and what it does to the lookups.\<close>

lemma set_body_stores:
  assumes "store env mem st es" "store_ok es" "length key < 65536" "v \<noteq> []" "length v < 65536" "room_for st es key v"
  obtains st' es' where "set_body env it key v bin st = Some (SYSPARAM_OK, st')" and "store env mem st' es'" and "store_ok es'"
    and "lookup es' = (lookup es)(key \<mapsto> (v, bin))"
    and "cur_base st' = cur_base st" and "(region_size st', alt_base st') = (region_size st, alt_base st)"
proof (cases "has_key es key")
  case False
  then obtain st' i p q where st': "set_body env it key v bin st = Some (SYSPARAM_OK, st')"
    "store env mem st' (es @ [key_ent i key p, value_ent i v bin q])" "\<forall>x \<in> set es. live_key x \<longrightarrow> eid x < i"
    "i < ENTRY_ID_END" "cur_base st' = cur_base st" "(region_size st', alt_base st') = (region_size st, alt_base st)"
    by (rule set_body_new_key [OF assms(1,2) _ assms(3-6)])
  have nk: "\<forall>x \<in> set es. \<not> (live_key x \<and> epay x = key)"
    using False by (simp add: has_key_def)
  have "lookup (es @ [key_ent i key p, value_ent i v bin q]) = (lookup es)(key \<mapsto> (v, bin))"
    using lookup_new_key [OF nk st'(3) less_imp_le [OF st'(4)]] by (auto simp: fun_eq_iff)
  with that [OF st'(1,2) store_ok_new_key [OF assms(2) nk st'(3,4)]] st'(5,6) show thesis
    by blast
next
  case True
  then obtain pre k post where k: "es = pre @ k # post" "live_key k" "epay k = key"
    by (auto simp: has_key_def in_set_conv_decomp)
  have ok: "store_ok (pre @ k # post)"
    using assms(2) k(1) by simp
  have pk: "length (epay k) < 65536" "room_for st (pre @ k # post) (epay k) v" "store env mem st (pre @ k # post)"
    using assms k by simp_all
  show thesis
  proof (cases rule: set_body_old_key [OF pk(3) ok k(2) pk(1) assms(4,5) pk(2), of it bin, case_names unchanged added replaced])
    case (unchanged st')
    with that [of st' es] assms(2) k show thesis
      by (auto simp: fun_upd_idem)
  next
    case (added st' q)
    have "lookup (pre @ k # post @ [value_ent (eid k) v bin q]) = (lookup es)(key \<mapsto> (v, bin))"
      using lookup_new_value [OF ok k(2) added(3)] k by (auto simp: fun_eq_iff)
    moreover have "store_ok ((pre @ k # post) @ [value_ent (eid k) v bin q])"
      using value_behind_key [OF ok k(2) added(3)] k(2) by (intro store_ok_new_value [OF ok]) auto
    ultimately show thesis
      using that [of st' "pre @ k # post @ [value_ent (eid k) v bin q]"] added k(3) by simp
  next
    case (replaced st' q p1 e p2)
    have e: "live_val e" "eid e = eid k" "\<not> live_key e"
      using replaced(3) live_key_val by (auto simp: live_value_val)
    let ?es1 = "pre @ k # p1 @ kill e # p2"
    have oke: "store_ok ((pre @ k # p1) @ e # p2)"
      using ok replaced(2) by simp
    then have ok1: "store_ok ?es1"
      using store_ok_kill [of "pre @ k # p1" e p2] e(3) by simp
    have "lookup ?es1 x = (if x = key then None else lookup es x)" for x
      using lookup_kill [OF oke e(1) _ k(2)] e(2) k(1,3) replaced(2) by simp
    moreover have nv: "\<forall>x \<in> set (p1 @ kill e # p2). \<not> live_value (eid k) x"
      using store_ok_order(1,2) [OF oke] e by (auto simp: entry_order_def live_value_val) metis+
    ultimately have "lookup (?es1 @ [value_ent (eid k) v bin q]) = (lookup es)(key \<mapsto> (v, bin))"
      using lookup_new_value [OF ok1 k(2) nv] k(3) by (auto simp: fun_eq_iff)
    moreover have "store_ok (?es1 @ [value_ent (eid k) v bin q])"
      using value_behind_key [OF ok1 k(2) nv] k(2) by (intro store_ok_new_value [OF ok1]) auto
    ultimately show thesis
      using that [of st' "?es1 @ [value_ent (eid k) v bin q]"] replaced k(3) by simp
  qed
qed


lemma set_body_deletes:
  assumes "store env mem st es" "store_ok es" "length key < 65536"
  obtains st' es' where "set_body env it key [] bin st =
      Some (if lookup es key = None then SYSPARAM_NOTFOUND else SYSPARAM_OK, st')"
    and "store env mem st' es'" and "store_ok es'" and "lookup es' = (lookup es)(key := None)"
    and "cur_base st' = cur_base st" and "(region_size st', alt_base st') = (region_size st, alt_base st)"
proof (cases "has_key es key")
  case False
  then have nk: "\<forall>x \<in> set es. \<not> (live_key x \<and> epay x = key)"
    by (simp add: has_key_def)
  obtain d ctx where d: "mem d = mem (dev st)"
    "set_find env key (of_nat (length key)) st = Some (SYSPARAM_NOTFOUND, ctx, - 1, 0, st\<lparr>dev := d\<rparr>)"
    using set_find_no_key [OF assms(1,3) nk] by metis
  have none: "lookup es key = None"
    using lookup_skip [OF nk, of "[]"] by simp
  have "set_body env it key [] bin st = Some (SYSPARAM_NOTFOUND, st\<lparr>dev := d\<rparr>)"
    using d(2) by (simp add: set_body_def Let_def)
  with that [of "st\<lparr>dev := d\<rparr>" es] none store_dev [OF assms(1) d(1)] assms(2) show thesis
    by (simp add: fun_upd_idem)
next
  case True
  then obtain pre k post where k: "es = pre @ k # post" "live_key k" "epay k = key"
    by (auto simp: has_key_def in_set_conv_decomp)
  have ok: "store_ok (pre @ k # post)" "store env mem st (pre @ k # post)" "length (epay k) < 65536"
    using assms k by simp_all
  note look = lookup_at_key [OF ok(1) k(2)]
  show thesis
  proof (cases rule: set_find_key [OF ok(2,1) k(2) ok(3), case_names no_value has_value])
    case (no_value d ctx)
    then have "value_of (eid k) post = None"
      by (simp add: value_of_None)
    moreover have "set_body env it key [] bin st = Some (SYSPARAM_NOTFOUND, st\<lparr>dev := d\<rparr>)"
      using no_value(3) k(3) by (simp add: set_body_def Let_def)
    ultimately show thesis
      using that [of "st\<lparr>dev := d\<rparr>" es] look store_dev [OF assms(1) no_value(1)] assms(2) k
      by (simp add: fun_upd_idem)
  next
    case (has_value d ctx p1 e p2)
    have e: "live_val e" "eid e = eid k" "\<not> live_key e"
      using has_value(3) live_key_val by (auto simp: live_value_val)
    let ?a = "cur_base st + 8 + ents_len (pre @ k # p1)" and ?es = "(pre @ k # p1) @ kill e # p2"
    have oke: "store_ok ((pre @ k # p1) @ e # p2)"
      using ok(1) has_value(2) by simp
    have s1: "store env mem (st\<lparr>dev := d\<rparr>) ((pre @ k # p1) @ e # p2)"
      using store_dev [OF assms(1) has_value(1)] k(1) has_value(2) by simp
    obtain d2 where d2: "delete_entry env ?a (st\<lparr>dev := d\<rparr>) = (SYSPARAM_OK, st\<lparr>dev := d2\<rparr>)" "store env mem (st\<lparr>dev := d2\<rparr>) ?es"
      using delete_entry_kill [OF s1] by auto
    have "set_body env it key [] bin st = Some (SYSPARAM_OK, st\<lparr>dev := d2\<rparr>)"
      using has_value(7) d2(1) k(3) by (simp add: set_body_def Let_def)
    moreover have "lookup es key \<noteq> None"
      using look k has_value(2-4) by (auto simp: value_of_None)
    moreover have "lookup ?es = (lookup es)(key := None)"
      using lookup_kill [OF oke e(1) _ k(2)] e(2) k(1,3) has_value(2) by (auto simp: fun_eq_iff)
    ultimately show thesis
      using that [of "st\<lparr>dev := d2\<rparr>" ?es] d2(2) store_ok_kill [OF oke e(3)] by simp
  qed
qed

text \<open>\<^verbatim>\<open>sysparam_set_data\<close> with its guards, its allocations and its mutex.\<close>

lemma set_data_body:
  assumes "store env mem st es" and "key \<noteq> []" "length key < 65536" and "value_len \<le> MAX_VALUE_LEN"
  obtains d where "mem d = mem (dev st)" and "sysparam_set_data env it al key vopt value_len bin st =
    map_option (\<lambda>(s, st'). (s, st'\<lparr>dev := sem_give env (dev st')\<rparr>))
      (set_body env it key (case vopt of None \<Rightarrow> [] | Some bs \<Rightarrow> take value_len bs) bin (st\<lparr>dev := d\<rparr>))"
proof -
  let ?v = "case vopt of None \<Rightarrow> [] | Some bs \<Rightarrow> take value_len bs" and ?d = "sem_take env (dev st)"
  have cur: "cur_base st \<noteq> 0"
    using assms(1) by (simp add: store_def store_at_def)
  have kl: "(of_nat (length key) :: u16) \<noteq> 0"
    using assms(2,3) by (simp add: word_unat_eq_iff unat_of_nat)
  obtain d0 where d0: "malloc_ok env (length ?v) ?d = (True, d0)" "mem d0 = mem ?d"
    by (rule malloc_E)
  then obtain d1 where d1: "(if ?v \<noteq> [] \<and> \<not> al then malloc_ok env (length ?v) ?d else (True, ?d)) = (True, d1)"
    "mem d1 = mem ?d"
    by (cases "?v \<noteq> [] \<and> \<not> al") auto
  obtain d2 where d2: "malloc_ok env (unat (of_nat (length key) :: u16)) d1 = (True, d2)" "mem d2 = mem d1"
    by (rule malloc_E)
  have "sysparam_set_data env it al key vopt value_len bin st =
    map_option (\<lambda>(s, st'). (s, st'\<lparr>dev := sem_give env (dev st')\<rparr>)) (set_body env it key ?v bin (st\<lparr>dev := d2\<rparr>))"
    using cur kl assms(4) d2(1) unfolding sysparam_set_data_def Let_def d1(1)
    by (simp add: map_conv_bind_option case_prod_unfold comp_def)
  moreover have "mem d2 = mem (dev st)"
    using d1(2) d2(2) sem_quiet by simp
  ultimately show thesis
    using that by blast
qed

lemma set_data_stores:
  assumes "store env mem st es" "store_ok es" "key \<noteq> []" "length key < 65536" "v \<noteq> []" "length v < 65536" "room_for st es key v"
  obtains st' es' where "sysparam_set_data env it al key (Some v) (length v) bin st = Some (SYSPARAM_OK, st')"
    and "store env mem st' es'" and "store_ok es'" and "lookup es' = (lookup es)(key \<mapsto> (v, bin))"
    and "cur_base st' = cur_base st" and "(region_size st', alt_base st') = (region_size st, alt_base st)"
proof -
  obtain d where d: "mem d = mem (dev st)" "sysparam_set_data env it al key (Some v) (length v) bin st =
    map_option (\<lambda>(s, st'). (s, st'\<lparr>dev := sem_give env (dev st')\<rparr>)) (set_body env it key v bin (st\<lparr>dev := d\<rparr>))"
    using set_data_body [OF assms(1,3,4), where value_len = "length v" and vopt = "Some v" and it = it and al = al and bin = bin]
      assms(6) by auto
  obtain st' es' where st': "set_body env it key v bin (st\<lparr>dev := d\<rparr>) = Some (SYSPARAM_OK, st')" "store env mem st' es'" "store_ok es'"
    "lookup es' = (lookup es)(key \<mapsto> (v, bin))" "cur_base st' = cur_base st" "(region_size st', alt_base st') = (region_size st, alt_base st)"
    using set_body_stores [OF store_dev [OF assms(1) d(1)] assms(2,4-6), where it = it and bin = bin] assms(7) by auto
  show thesis
    by (rule that [of "st'\<lparr>dev := sem_give env (dev st')\<rparr>" es'])
      (use st' d(2) store_dev [OF st'(2), of "sem_give env (dev st')"] sem_quiet in simp_all)
qed

lemma set_data_deletes:
  assumes "store env mem st es" "store_ok es" "key \<noteq> []" "length key < 65536"
    and "vopt = None \<or> value_len = 0" and "value_len \<le> MAX_VALUE_LEN"
  obtains st' es' where "sysparam_set_data env it al key vopt value_len bin st =
      Some (if lookup es key = None then SYSPARAM_NOTFOUND else SYSPARAM_OK, st')"
    and "store env mem st' es'" and "store_ok es'" and "lookup es' = (lookup es)(key := None)"
    and "cur_base st' = cur_base st" and "(region_size st', alt_base st') = (region_size st, alt_base st)"
proof -
  have v: "(case vopt of None \<Rightarrow> [] | Some bs \<Rightarrow> take value_len bs) = []"
    using assms(5) by (auto split: option.split)
  obtain d where d: "mem d = mem (dev st)" "sysparam_set_data env it al key vopt value_len bin st =
    map_option (\<lambda>(s, st'). (s, st'\<lparr>dev := sem_give env (dev st')\<rparr>)) (set_body env it key [] bin (st\<lparr>dev := d\<rparr>))"
    using set_data_body [OF assms(1,3,4,6), where vopt = vopt and it = it and al = al and bin = bin] v by auto
  obtain st' es' where st': "set_body env it key [] bin (st\<lparr>dev := d\<rparr>) =
      Some (if lookup es key = None then SYSPARAM_NOTFOUND else SYSPARAM_OK, st')" "store env mem st' es'" "store_ok es'"
    "lookup es' = (lookup es)(key := None)" "cur_base st' = cur_base st" "(region_size st', alt_base st') = (region_size st, alt_base st)"
    using set_body_deletes [OF store_dev [OF assms(1) d(1)] assms(2,4), where it = it and bin = bin] by auto
  show thesis
    by (rule that [of "st'\<lparr>dev := sem_give env (dev st')\<rparr>" es'])
      (use st' d(2) store_dev [OF st'(2), of "sem_give env (dev st')"] sem_quiet in simp_all)
qed

text \<open>Reading from a state with well-formed entries.\<close>

lemma get_data_store:
  assumes "store env mem st es" "store_ok es" "length key < 65536"
  obtains d' where "mem d' = mem (dev st)" and "sysparam_get_data env key st =
    Some (if lookup es key = None then SYSPARAM_NOTFOUND else SYSPARAM_OK, lookup es key, st\<lparr>dev := d'\<rparr>)"
proof -
  have "\<forall>e \<in> set es. live_key e \<longrightarrow> eid e \<noteq> ENTRY_ID_END"
    using assms(2) by (auto simp: store_ok_def)
  then show thesis
    by (rule get_data_lookup [OF store_store_at [OF assms(1)] assms(3)]) (rule that)
qed

end

end
