(* ===== verification/Sysparam_Area.thy ===== *)
theory Sysparam_Area
  imports Sysparam_Store
begin

text \<open>
  The rest of \<^verbatim>\<open>src/core/sysparam.c\<close> around the log: numbers as text, creating and opening an
  area, termination of the searches on arbitrary flash contents, and the properties of the
  module with runs on a simulated chip.
\<close>

section \<open>Numbers as text\<close>

lemma digit_value_digit: "k < 10 \<Longrightarrow> digit_value (of_nat (48 + k)) = k"
  unfolding digit_value_def by (simp only: unat_digit Let_def) simp

lemma strtol_digits_append:
  "\<forall>c \<in> set xs. digit_value c < b \<Longrightarrow>
     strtol_digits b acc (xs @ ys) = strtol_digits b (fst (strtol_digits b acc xs)) ys"
  by (induction xs arbitrary: acc) auto

lemma show_nat_parse: "strtol_digits 10 0 (show_nat n) = (n, [])"
proof (induction n rule: show_nat.induct)
  case (1 n)
  show ?case
  proof (cases "n < 10")
    case True
    then show ?thesis
      using digit_value_digit [of n] by (subst show_nat.simps) simp
  next
    case False
    have "\<forall>c \<in> set (show_nat (n div 10)). digit_value c < 10"
      using show_nat_digits digit_value_digit by (metis of_nat_add of_nat_numeral)
    then show ?thesis
      using 1 [OF False] False digit_value_digit [of "n mod 10"]
      by (subst show_nat.simps) (simp add: strtol_digits_append)
  qed
qed

lemma show_nat_hd:
  "show_nat n \<noteq> []" "0 < n \<Longrightarrow> hd (show_nat n) \<noteq> 48" "show_nat 0 = [48]" "digit_value (hd (show_nat n)) < 10"
proof -
  show ne: "show_nat n \<noteq> []"
    by (subst show_nat.simps) simp
  show "show_nat 0 = [48]"
    by (subst show_nat.simps) simp
  show "0 < n \<Longrightarrow> hd (show_nat n) \<noteq> 48"
  proof (induction n rule: show_nat.induct)
    case (1 n)
    show ?case
    proof (cases "n < 10")
      case True
      with 1(2) have "digit_value (of_nat (48 + n)) \<noteq> digit_value 48"
        using digit_value_digit [of n] digit_value_digit [of 0] by simp
      then show ?thesis
        using True by (subst show_nat.simps) auto
    next
      case False
      have "show_nat (n div 10) \<noteq> []"
        by (subst show_nat.simps) simp
      with 1 False show ?thesis
        by (subst show_nat.simps) simp
    qed
  qed
  show "digit_value (hd (show_nat n)) < 10"
    using show_nat_digits [of "hd (show_nat n)" n] digit_value_digit ne by (metis hd_in_set)
qed

lemma digit_not_special: "k < 10 \<Longrightarrow> (of_nat (48 + k) :: byte) \<notin> {0, 32, 43, 45} \<and> \<not> is_space (of_nat (48 + k))"
  unfolding is_space_def word_unat_eq_iff word_le_nat_alt by (simp add: unat_digit word_unat_eq_iff del: of_nat_add)

lemma strtol_base_show: "strtol_base (show_nat n) = (if n = 0 then 8 else 10, show_nat n)"
  using show_nat_hd(1,2) [of n] show_nat_hd(3) by (auto simp: strtol_base_def)

lemma strtol_show_nat:
  "strtol (show_nat n) = (clamp32 (int n), [])" "strtol (45 # show_nat n) = (clamp32 (- int n), [])"
proof -
  obtain k where k: "k < 10" "hd (show_nat n) = of_nat (48 + k)"
    using show_nat_digits [of "hd (show_nat n)" n] show_nat_hd(1) [of n] by (meson hd_in_set)
  note h = show_nat_hd(1,2,4) [of n] digit_not_special [OF k(1), folded k(2)]
  have sp: "dropWhile is_space (show_nat n) = show_nat n"
    using h by (cases "show_nat n") simp_all
  have "\<not> is_space 45"
    by code_simp
  note sp = sp this
  have z: "strtol [48] = (clamp32 0, [])" "strtol [45, 48] = (clamp32 0, [])"
    by code_simp+
  show "strtol (show_nat n) = (clamp32 (int n), [])"
  proof (cases "n = 0")
    case True
    then show ?thesis
      using z show_nat_hd(3) by simp
  next
    case False
    then show ?thesis
      using h sp show_nat_parse [of n] by (simp add: strtol_def strtol_base_show Let_def not_le)
  qed
  show "strtol (45 # show_nat n) = (clamp32 (- int n), [])"
  proof (cases "n = 0")
    case True
    then show ?thesis
      using z show_nat_hd(3) by simp
  next
    case False
    then show ?thesis
      using h sp show_nat_parse [of n] by (simp add: strtol_def strtol_base_show Let_def not_le)
  qed
qed

lemma strtol_show_int:
  assumes "- (2 ^ 31) \<le> v" and "v < 2 ^ 31"
  shows "strtol (show_int v) = (v, [])"
  using assms strtol_show_nat by (auto simp: show_int_def clamp32_def)

lemma show_int_text: "c_str (show_int v) = show_int v" "show_int v \<noteq> []"
proof -
  have "\<forall>c \<in> set (show_int v). c \<noteq> 0"
    using show_nat_digits digit_not_special by (fastforce simp: show_int_def split: if_splits)
  then show "c_str (show_int v) = show_int v"
    by (simp add: c_str_def takeWhile_eq_all_conv)
  show "show_int v \<noteq> []"
    using show_nat_hd(1) by (simp add: show_int_def)
qed

lemma show_nat_length: "n < 10 ^ k \<Longrightarrow> 0 < k \<Longrightarrow> length (show_nat n) \<le> k"
proof (induction k arbitrary: n)
  case (Suc k)
  show ?case
  proof (cases "n < 10")
    case True
    then show ?thesis
      by (subst show_nat.simps) simp
  next
    case False
    then have "0 < k" "n div 10 < 10 ^ k"
      using Suc.prems by (cases k, simp_all add: less_mult_imp_div_less mult.commute)
    then show ?thesis
      using Suc.IH [of "n div 10"] False by (subst show_nat.simps) simp
  qed
qed simp

lemma show_int_length:
  assumes "- (2 ^ 31) \<le> v" and "v < 2 ^ 31"
  shows "length (show_int v) \<le> 11"
proof -
  have "nat v < 10 ^ 10" "nat (- v) < 10 ^ 10"
    using assms by simp_all
  then have "length (show_nat (nat v)) \<le> 10" "length (show_nat (nat (- v))) \<le> 10"
    by (simp_all only: show_nat_length)
  then show ?thesis
    by (simp add: show_int_def)
qed

section \<open>Creating and opening an area\<close>

definition erased :: "nat \<Rightarrow> nat \<Rightarrow> byte list \<Rightarrow> bool" where
  "erased a n m \<longleftrightarrow> block_at a n m = replicate n 0xff"

lemma same_outside_erase: "a + n \<le> length m \<Longrightarrow> same_outside a n m (erase_block m a n)"
  by (simp add: same_outside_def block_at_erase_other)

lemma erased_append: "erased a n m \<Longrightarrow> erased (a + n) k m \<Longrightarrow> erased a (n + k) m"
  by (simp add: erased_def block_at_split replicate_add)

lemma erased_part: "erased a n m \<Longrightarrow> k + j \<le> n \<Longrightarrow> erased (a + k) j m"
proof -
  assume "erased a n m" "k + j \<le> n"
  then have "take j (drop k (block_at a n m)) = replicate j 0xff" "min j (n - k) = j"
    by (simp_all add: erased_def)
  then show "erased (a + k) j m"
    by (simp add: erased_def block_at_def drop_take add.commute)
qed

lemma erased_other: "same_outside a n m m' \<Longrightarrow> erased b k m \<Longrightarrow> b + k \<le> a \<or> a + n \<le> b \<Longrightarrow> erased b k m'"
  by (simp add: erased_def same_outsideD)

text \<open>Region headers as bytes.\<close>

lemma region_header_roundtrip:
  assumes "magic h < 2 ^ 32"
  shows "region_header_of (region_header_bytes h) = h" "length (region_header_bytes h) = 8"
proof -
  let ?m = "magic h"
  have "unat (of_nat k :: byte) = k mod 256" for k
    by (simp add: unat_of_nat)
  moreover have "?m mod 256 + 256 * (?m div 256 mod 256) + 65536 * (?m div 65536 mod 256)
      + 16777216 * (?m div 16777216) = ?m" "?m div 16777216 mod 256 = ?m div 16777216"
  proof -
    have d: "?m div 65536 = ?m div 256 div 256" "?m div 16777216 = ?m div 256 div 256 div 256"
      by (simp_all flip: div_mult2_eq)
    have "?m div 16777216 < 256"
      using assms by (simp add: less_mult_imp_div_less)
    then show "?m div 16777216 mod 256 = ?m div 16777216"
      by simp
    have "x mod 256 + 256 * (x div 256) = x" for x :: nat
      by simp
    from this [of ?m] this [of "?m div 256"] this [of "?m div 256 div 256"]
    have "?m mod 256 + 256 * (?m div 256 mod 256) + 65536 * (?m div 256 div 256 mod 256)
        + 16777216 * (?m div 256 div 256 div 256) = ?m"
      by linarith
    then show "?m mod 256 + 256 * (?m div 256 mod 256) + 65536 * (?m div 65536 mod 256)
        + 16777216 * (?m div 16777216) = ?m"
      by (simp only: d)
  qed
  ultimately show "region_header_of (region_header_bytes h) = h"
    by (cases h) (simp add: region_header_of_def region_header_bytes_def le16_def)
  show "length (region_header_bytes h) = 8"
    by (simp add: region_header_bytes_def le16_def)
qed

context sysparam_hw begin

abbreviation ss :: nat where "ss \<equiv> sector_size (chip (flash env))"

lemma format_loop_ok:
  assumes "unat sec + i + n \<le> 65536" and "ss * (unat sec + i + n) \<le> chip_size (chip (flash env))"
  shows "\<exists>d'. format_loop env sec i n d = (SYSPARAM_OK, d') \<and>
     same_outside (ss * (unat sec + i)) (ss * n) (mem d) (mem d') \<and> erased (ss * (unat sec + i)) (ss * n) (mem d')"
  using assms
proof (induction n arbitrary: i d)
  case 0
  then show ?case
    by (simp add: erased_def block_at_def)
next
  case (Suc n)
  let ?s = "unat sec + i"
  have u: "unat (sec + of_nat i :: u16) = ?s"
    using Suc.prems(1) by (simp add: unat_word_ariths unat_of_nat)
  have "ss * (?s + 1) \<le> chip_size (chip (flash env))"
  proof -
    have "ss * (?s + 1) \<le> ss * (?s + Suc n)"
      by (rule mult_le_mono2) simp
    with Suc.prems(2) show ?thesis
      by linarith
  qed
  then have "?s < chip_size (chip (flash env)) div ss" and fits: "ss * ?s + ss \<le> chip_size (chip (flash env))"
    using chip_ok(4) by (simp_all add: less_eq_div_iff_mult_less_eq Suc_le_eq [symmetric] mult.commute)
  then obtain d1 where d1: "sdk_spi_flash_erase_sector (flash env) (sec + of_nat i) d = (0, d1)"
    "mem d1 = erase_block (mem d) (ss * ?s) ss"
    using flash_erase [of "sec + of_nat i" d] u by auto
  have o1: "same_outside (ss * ?s) ss (mem d) (mem d1)" "erased (ss * ?s) ss (mem d1)"
    using fits mem_size d1(2) by (simp_all add: same_outside_erase erased_def block_at_erase_same)
  have IH: "unat sec + Suc i + n \<le> 65536" "ss * (unat sec + Suc i + n) \<le> chip_size (chip (flash env))"
    using Suc.prems by simp_all
  from Suc.IH [OF IH, of d1] obtain d' where d': "format_loop env sec (Suc i) n d1 = (SYSPARAM_OK, d')"
    "same_outside (ss * (?s + 1)) (ss * n) (mem d1) (mem d')" "erased (ss * (?s + 1)) (ss * n) (mem d')"
    by auto
  have "erased (ss * ?s) ss (mem d')"
    using erased_other [OF d'(2) o1(2)] by simp
  then have "erased (ss * ?s) (ss * Suc n) (mem d')"
    using erased_append [of "ss * ?s" ss "mem d'" "ss * n"] d'(3) by (simp add: algebra_simps)
  moreover have "same_outside (ss * ?s) (ss * Suc n) (mem d) (mem d')"
    using same_outside_mono [OF o1(1), of "ss * ?s" "ss * Suc n"] same_outside_mono [OF d'(2), of "ss * ?s" "ss * Suc n"]
    by (auto intro: same_outside_trans simp: algebra_simps)
  ultimately show ?case
    using d1(1) d'(1) by simp
qed

lemma format_region_ok:
  assumes "ss dvd a" and "a + unat n * ss \<le> chip_size (chip (flash env))" and "a div ss + unat n \<le> 65536" "0 < unat n"
  obtains d' where "format_region env a n d = (SYSPARAM_OK, d')"
    and "same_outside a (unat n * ss) (mem d) (mem d')" and "erased a (unat n * ss) (mem d')"
proof -
  let ?s = "of_nat (a div ss) :: u16"
  have u: "unat ?s = a div ss"
    using assms(3,4) by (simp add: unat_of_nat)
  have a: "ss * (a div ss) = a"
    using assms(1) by simp
  have "unat ?s + 0 + unat n \<le> 65536" "ss * (unat ?s + 0 + unat n) \<le> chip_size (chip (flash env))"
    using assms(2,3) u a by (simp_all add: algebra_simps)
  from format_loop_ok [OF this, of d] that show thesis
    using u a by (auto simp: format_region_def mult.commute)
qed

text \<open>Writing a region header on erased flash, and on top of one it only clears bits of.\<close>

lemma write_region_header_ok:
  assumes "4 dvd a" and "a + 8 \<le> chip_size (chip (flash env))" and "erased a 8 (mem d)"
    and "h = \<lparr>magic = SYSPARAM_MAGIC, flags_size =
      (let f = (if a < other then of_nat ((other - a) div ss) AND REGION_MASK_SIZE
                else (of_nat ((a - other) div ss) AND REGION_MASK_SIZE) OR REGION_FLAG_SECOND)
       in if active then f OR REGION_FLAG_ACTIVE else f)\<rparr>"
  obtains d' where "write_region_header env a other active d = (SYSPARAM_OK, d')"
    and "same_outside a 8 (mem d) (mem d')" and "block_at a 8 (mem d') = region_header_bytes h"
proof -
  have l: "length (region_header_bytes h) = 8" "ROUND_TO_WORD_BOUNDARY 8 = 8"
    using assms(4) by (simp_all add: region_header_roundtrip ROUND_TO_WORD_BOUNDARY_def)
  have "map2 (\<lambda>x y. x AND y) (block_at a (length (region_header_bytes h)) (mem d)) (region_header_bytes h) = region_header_bytes h"
    using assms(3) map2_and_ff [of "region_header_bytes h"] l(1) by (simp add: erased_def)
  then obtain d' pad where d': "write_and_verify env a (region_header_bytes h) d = (SYSPARAM_OK, d')"
    "mem d' = prog_block (mem d) a (region_header_bytes h @ pad)" "8 + length pad = 8"
    using write_and_verify_ok [OF assms(1), of "region_header_bytes h" d] assms(2) l by auto
  have "write_region_header env a other active d = (SYSPARAM_OK, d')"
    using d'(1) assms(4) by (simp add: write_region_header_def Let_def)
  moreover have "same_outside a 8 (mem d) (mem d')"
    using same_outside_prog [of a "region_header_bytes h" "mem d"] d' l assms(2) mem_size by simp
  moreover have "block_at a 8 (mem d') = region_header_bytes h"
    using block_at_prog_same [of a "region_header_bytes h" "mem d"] d' l assms(2,3) mem_size
      map2_and_ff [of "region_header_bytes h"] by (simp add: erased_def)
  ultimately show thesis
    using that by blast
qed

end

lemma region_hdr_flags:
  assumes "n < 4096"
  shows "flags_size (region_hdr n second active) AND REGION_MASK_SIZE = of_nat n"
    and "flags_size (region_hdr n second active) AND REGION_FLAG_SECOND = 0 \<longleftrightarrow> \<not> second"
    and "flags_size (region_hdr n second active) AND REGION_FLAG_ACTIVE = 0 \<longleftrightarrow> \<not> active"
proof -
  have "(of_nat n :: u16) \<le> ENTRY_MASK_ID"
    using assms by (simp add: word_le_nat_alt unat_of_nat)
  note n = id_bits [OF this]
  let ?f = "flags_size (region_hdr n second active)"
  have b: "bit ?f k \<longleftrightarrow> bit (of_nat n :: u16) k \<or> k = 15 \<and> second \<or> k = 14 \<and> active" for k
    unfolding region_hdr_def region_header.select_convs Let_def n(1)
    by (cases second; cases active; simp only: if_True if_False flag_simps; blast)
  show "?f AND REGION_MASK_SIZE = of_nat n"
    unfolding u16_eq_bits bit_and_iff flag_bits b using n(2) by (auto simp: not_less [symmetric])
  show "?f AND REGION_FLAG_SECOND = 0 \<longleftrightarrow> \<not> second" "?f AND REGION_FLAG_ACTIVE = 0 \<longleftrightarrow> \<not> active"
    unfolding and_flag_0 b using n(2) [of 15] n(2) [of 14] by auto
qed

lemma region_hdr_bytes:
  "region_header_of (region_header_bytes (region_hdr n second active)) = region_hdr n second active"
  "magic (region_hdr n second active) = SYSPARAM_MAGIC"
  using region_header_roundtrip [of "region_hdr n second active"] by (simp_all add: region_hdr_def)

context sysparam_hw begin

lemma area_split:
  assumes "area_ok env (mem d) cur alt rsize" and "region_at (mem d) cur rsize es"
  defines "b \<equiv> min cur alt" and "n \<equiv> rsize div ss"
  shows "ss dvd b" "ss dvd rsize" "n < 4096" "8 < rsize" "b + rsize = max cur alt" "cur < alt \<or> alt < cur"
    "max cur alt + rsize \<le> chip_size (chip (flash env))" "4 dvd ss"
    "block_at b 8 (mem d) = region_header_bytes (region_hdr n False (cur < alt))"
    "block_at (b + rsize) 8 (mem d) = region_header_bytes (region_hdr n True (alt < cur))"
proof -
  have cur: "cur + rsize \<le> chip_size (chip (flash env))"
    using assms(2) mem_size [of d] by (simp add: region_at_def)
  note a = assms(1) [unfolded area_ok_def Let_def]
  then consider "alt = cur + rsize" "0 < rsize" | "cur = alt + rsize" "0 < rsize"
    by auto
  then have "ss dvd b \<and> b + rsize = max cur alt \<and> (cur < alt \<or> alt < cur) \<and>
    max cur alt + rsize \<le> chip_size (chip (flash env)) \<and>
    block_at b 8 (mem d) = region_header_bytes (region_hdr n False (cur < alt)) \<and>
    block_at (b + rsize) 8 (mem d) = region_header_bytes (region_hdr n True (alt < cur))"
  proof cases
    case 1
    with a cur show ?thesis
      by (simp add: b_def n_def)
  next
    case 2
    then have "ss dvd alt"
      using a by (metis dvd_add_left_iff)
    with 2 a cur show ?thesis
      by (simp add: b_def n_def)
  qed
  with a show "ss dvd b" "ss dvd rsize" "n < 4096" "8 < rsize" "b + rsize = max cur alt" "cur < alt \<or> alt < cur"
    "max cur alt + rsize \<le> chip_size (chip (flash env))" "4 dvd ss"
    "block_at b 8 (mem d) = region_header_bytes (region_hdr n False (cur < alt))"
    "block_at (b + rsize) 8 (mem d) = region_header_bytes (region_hdr n True (alt < cur))"
    unfolding n_def by blast+
qed

lemma header_read:
  assumes "block_at a 8 (mem d) = region_header_bytes (region_hdr n second active)" "a + 8 \<le> chip_size (chip (flash env))"
  obtains d' where "sdk_spi_flash_read (flash env) a 8 d = (0, region_header_bytes (region_hdr n second active), d')"
    and "mem d' = mem d"
  using flash_read [OF assms(2), of d] assms(1) by auto

text \<open>\<^verbatim>\<open>sysparam_init\<close> at the start of an area finds the active region and the end of its log.\<close>

lemma init_opens:
  assumes "area_ok env (mem (dev st)) cur alt rsize" and "region_at (mem (dev st)) cur rsize es" and "store_ok es"
    and "top_addr = 0 \<or> min cur alt \<le> top_addr" and "0 < cur"
  obtains st' where "sysparam_init env (min cur alt) top_addr st = Some (SYSPARAM_OK, st')" and "store env mem st' es"
    and "cur_base st' = cur" "alt_base st' = alt" "region_size st' = rsize" "mem (dev st') = mem (dev st)"
proof -
  let ?b = "min cur alt" and ?n = "rsize div ss" and ?m = "mem (dev st)"
  let ?h0 = "region_hdr ?n False (cur < alt)" and ?h1 = "region_hdr ?n True (alt < cur)"
  have a: "ss dvd ?b" "ss dvd rsize" "?n < 4096" "8 < rsize" "?b + rsize = max cur alt" "cur < alt \<or> alt < cur"
    "max cur alt + rsize \<le> chip_size (chip (flash env))" "4 dvd ss"
    "block_at ?b 8 ?m = region_header_bytes ?h0" "block_at (?b + rsize) 8 ?m = region_header_bytes ?h1"
    by (rule area_split [OF assms(1,2)])+
  let ?limit = "if top_addr = 0 \<or> top_addr = ?b then add32 ?b ss else top_addr"
  have ssle: "ss \<le> rsize"
    using a(2,4) by (simp add: dvd_imp_le)
  have lim: "?b < ?limit"
    using assms(4) a(5,7) ssle chip_small chip_ok(4) by (auto simp: add32_no_wrap)
  obtain d1 where d1: "sdk_spi_flash_read (flash env) ?b 8 (dev st) = (0, region_header_bytes ?h0, d1)" "mem d1 = ?m"
    by (rule header_read [OF a(9)]) (use a(4,5,7) in auto)
  have scan: "init_scan env ?b ?limit (dev st) = Some (SYSPARAM_OK, ?b, ?h0, d1)"
    using lim d1(1) by (subst init_scan.simps) (simp add: region_hdr_bytes)
  obtain d2 where d2: "sdk_spi_flash_read (flash env) (?b + rsize) 8 d1 = (0, region_header_bytes ?h1, d2)" "mem d2 = ?m"
    by (rule header_read [of "?b + rsize" d1 ?n True "alt < cur"]) (use a(4,5,7,10) d1(2) in auto)
  have other: "init_other env ?b ?h0 (?b + rsize) (of_nat ?n) d1 = (SYSPARAM_OK, d2)"
  proof -
    have "flags_size ?h0 AND REGION_FLAG_SECOND \<noteq> flags_size ?h1 AND REGION_FLAG_SECOND"
      using region_hdr_flags(2) [OF a(3)] by metis
    with d2(1) show ?thesis
      by (simp add: init_other_def region_hdr_bytes)
  qed
  have rs: "unat (of_nat ?n :: u16) * ss mod 2 ^ 32 = rsize" "add32 ?b rsize = ?b + rsize" "add32 cur rsize = cur + rsize"
  proof -
    have "max cur alt + rsize < 2 ^ 32"
      using a(7) chip_small by linarith
    then have "?b + rsize < 2 ^ 32" "cur + rsize < 2 ^ 32" "rsize < 2 ^ 32"
      by linarith+
    then show "unat (of_nat ?n :: u16) * ss mod 2 ^ 32 = rsize" "add32 ?b rsize = ?b + rsize" "add32 cur rsize = cur + rsize"
      using a(2,3) by (simp_all only: add32_no_wrap) (simp add: unat_of_nat)
  qed
  let ?st1 = "st\<lparr>dev := d2, region_size := rsize, cur_base := cur, alt_base := alt, end_addr := cur + rsize, force_compact := False\<rparr>"
  have ca: "(if cur < alt then (?b, ?b + rsize) else (?b + rsize, ?b)) = (cur, alt)"
    using a(5,6) by auto
  have st1: "store_at env mem ?st1 es"
    using assms(2,5) a d2(2) by (auto simp: store_at_def dvd_trans [of 4 ss] area_ok_def Let_def intro: dvd_trans)
  have nomatch: "\<forall>x \<in> set es. \<not> entry_matches (eflags x) ENTRY_ID_END False"
    using assms(3) by (auto simp: store_ok_def entry_matches_def live_key_def live_def eid_def)
  obtain d3 e' where d3: "mem d3 = ?m"
    "find_entry env (init_context ?st1) ENTRY_ID_END False ?st1 =
      Some (SYSPARAM_OK, (scan_ctx (cur + 8) (init_context ?st1) es)\<lparr>caddr := cur + 8 + ents_len es, centry := e'\<rparr>, ?st1\<lparr>dev := d3\<rparr>)"
    using find_entry_not_found [of ?st1 "[]" es "init_context ?st1" ENTRY_ID_END False] st1 nomatch
      init_context_behind [of ?st1] d2(2) by (auto simp: find_entry_end_def)
  let ?st' = "?st1\<lparr>dev := sem_create env d3, end_addr := cur + 8 + ents_len es\<rparr>"
  have "sysparam_init env ?b top_addr st = Some (SYSPARAM_OK, ?st')"
  proof -
    have base: "?b - ?b mod ss = ?b"
      using a(1) by simp
    have flags: "flags_size ?h0 AND REGION_MASK_SIZE = of_nat ?n" "flags_size ?h0 AND REGION_FLAG_SECOND = 0"
      "(flags_size ?h0 AND REGION_FLAG_ACTIVE \<noteq> 0) = (cur < alt)"
      using region_hdr_flags [OF a(3)] by auto
    show ?thesis
      unfolding sysparam_init_def Let_def base
      by (simp only: scan bind.bind_lunit prod.case flags rs other ca refl if_True if_False not_True_eq_False
          not_False_eq_True d3(2)) simp
  qed
  moreover have "store env mem ?st' es"
    using st1 assms(1) d2(2) d3(1) sem_quiet by (simp add: store_def store_at_def)
  ultimately show thesis
    using that d3(1) sem_quiet by simp
qed

end

lemma even_area:
  fixes area :: u16
  assumes "unat area = 2 * n" "0 < n"
  shows "\<not> area < 1" "area AND 1 = 0" "unat (drop_bit 1 area) = n"
proof -
  have "unat (area AND 1) = unat area mod 2"
    by (simp add: and_one_eq unat_mod)
  then show "area AND 1 = 0"
    using assms by (simp add: word_unat_eq_iff)
  show "\<not> area < 1"
    using assms by (simp add: word_less_nat_alt)
  show "unat (drop_bit 1 area) = n"
    using assms by (simp add: drop_bit_eq_div unat_div)
qed

context sysparam_hw begin

lemma create_area_ok:
  assumes "unat area = 2 * n" "0 < n" "n < 4096" and "0 < base" "ss dvd base" "4 dvd ss" "8 < ss"
    and "base + 2 * (n * ss) \<le> chip_size (chip (flash env))" and "base div ss + 2 * n \<le> 65536"
  obtains st' where "sysparam_create_area env base area True st = Some (SYSPARAM_OK, st')"
    and "area_ok env (mem (dev st')) base (base + n * ss) (n * ss)" and "region_at (mem (dev st')) base (n * ss) []"
proof -
  let ?r = "n * ss" and ?b1 = "base + n * ss" and ?C = "chip_size (chip (flash env))"
  note ev = even_area [OF assms(1,2)]
  have r8: "8 < ?r"
    using assms(2,7) by (cases n) auto
  have nd: "?r div ss = n" "ss dvd ?b1"
    using chip_ok(4) assms(5) by simp_all
  have w: "unat (drop_bit 1 area) * ss mod 2 ^ 32 = ?r" "add32 base ?r = ?b1"
    using ev(3) assms(8) chip_small by (simp_all add: add32_no_wrap)
  let ?st = "if cur_base st = base \<or> alt_base st = base
    then \<lparr>dev = dev st, cur_base = 0, alt_base = 0, end_addr = 0, region_size = 0, force_compact = False\<rparr> else st"
  obtain d1 where d1: "format_region env base (drop_bit 1 area) (dev st) = (SYSPARAM_OK, d1)" "erased base ?r (mem d1)"
    by (rule format_region_ok [of base "drop_bit 1 area" "dev st"]) (use assms ev(3) in auto)
  obtain d2 where d2: "format_region env ?b1 (drop_bit 1 area) d1 = (SYSPARAM_OK, d2)"
    "same_outside ?b1 ?r (mem d1) (mem d2)" "erased ?b1 ?r (mem d2)"
    by (rule format_region_ok [of ?b1 "drop_bit 1 area" d1]) (use assms ev(3) nd chip_ok(4) in auto)
  have e2: "erased base ?r (mem d2)"
    using erased_other [OF d2(2) d1(2)] by simp
  have a4: "4 dvd base" "4 dvd ?b1"
    using assms(5,6) nd(2) dvd_trans by blast+
  obtain d3 where d3: "write_region_header env base ?b1 True d2 = (SYSPARAM_OK, d3)" "same_outside base 8 (mem d2) (mem d3)"
    "block_at base 8 (mem d3) = region_header_bytes (region_hdr n False True)"
    by (rule write_region_header_ok [of base d2 "region_hdr n False True" ?b1 True])
      (use a4 r8 nd chip_ok(4) assms(2,8) erased_part [OF e2, of 0 8] in \<open>simp_all add: region_hdr_def Let_def\<close>)
  have e3: "erased (base + 8) (?r - 8) (mem d3)" "erased ?b1 ?r (mem d3)"
    using erased_other [OF d3(2)] erased_part [OF e2, of 8 "?r - 8"] d2(3) r8 by simp_all
  obtain d4 where d4: "write_region_header env ?b1 base False d3 = (SYSPARAM_OK, d4)" "same_outside ?b1 8 (mem d3) (mem d4)"
    "block_at ?b1 8 (mem d4) = region_header_bytes (region_hdr n True False)"
    by (rule write_region_header_ok [of ?b1 d3 "region_hdr n True False" base False])
      (use a4 r8 nd chip_ok(4) assms(2,8) erased_part [OF e3(2), of 0 8] in \<open>simp_all add: region_hdr_def Let_def\<close>)
  have e4: "erased (base + 8) (?r - 8) (mem d4)" "block_at base 8 (mem d4) = region_header_bytes (region_hdr n False True)"
    using erased_other [OF d4(2) e3(1)] same_outsideD [OF d4(2), of base 8] d3(3) r8 by simp_all
  have "sysparam_create_area env base area True st = Some (SYSPARAM_OK, ?st\<lparr>dev := d4\<rparr>)"
    using ev w d1(1) d2(1) d3(1) d4(1) by (simp add: sysparam_create_area_def Let_def)
  moreover have "(max base ?b1 + ?r) div ss \<le> 65536"
  proof -
    have "max base ?b1 + ?r = base + (2 * n) * ss"
      by simp
    then have "(max base ?b1 + ?r) div ss = 2 * n + base div ss"
      using chip_ok(4) by simp
    with assms(9) show ?thesis
      by simp
  qed
  then have "area_ok env (mem d4) base ?b1 ?r"
    using assms r8 nd e4(2) d4(3) by (auto simp: area_ok_def Let_def)
  moreover have "region_at (mem d4) base ?r []"
    using e4(1) r8 assms(8) mem_size [of d4] by (simp add: region_at_def erased_def block_at_def)
  ultimately show thesis
    using that by fastforce
qed

end

section \<open>Termination of the searches\<close>

text \<open>
  The bounds of the active region leave room for one more entry before the addresses wrap, and
  a context stands in the region. The contents of the flash and the results of the driver are
  arbitrary.
\<close>

definition in_region :: "'d sysparam_info \<Rightarrow> sysparam_context \<Rightarrow> bool" where
  "in_region st ctx \<longleftrightarrow> cur_base st \<le> caddr ctx \<and> caddr ctx \<le> cur_base st + region_size st + 8 \<and>
     cur_base st + region_size st + 65560 < 2 ^ 32"

definition same_region :: "'d sysparam_info \<Rightarrow> 'd sysparam_info \<Rightarrow> bool" where
  "same_region st st' \<longleftrightarrow> cur_base st' = cur_base st \<and> region_size st' = region_size st"

lemma same_region_simps [simp]: "same_region st st" "same_region st (st'\<lparr>dev := d\<rparr>) = same_region st st'"
  "same_region (st\<lparr>dev := d\<rparr>) st' = same_region st st'"
  by (simp_all add: same_region_def)

lemma ENTRY_SIZE_16: "ENTRY_SIZE (unat (w :: u16)) \<le> 65540" "4 \<le> ENTRY_SIZE n"
  using unsigned_less [of w, where ?'a = nat] by (simp_all add: ENTRY_SIZE_def ROUND_TO_WORD_BOUNDARY_def)

lemma next_entry_advances:
  assumes "in_region st ctx" and "next_entry ctx st = (False, ctx1, st1)"
  shows "caddr ctx < caddr ctx1" "in_region st ctx1" "same_region st st1"
proof -
  have "add32 (caddr ctx) (ENTRY_SIZE (unat (elen (centry ctx)))) = caddr ctx + ENTRY_SIZE (unat (elen (centry ctx)))"
    "add32 (caddr ctx) 8 = caddr ctx + 8" "add32 (cur_base st) (region_size st) = cur_base st + region_size st"
    using assms(1) ENTRY_SIZE_16(1) [of "elen (centry ctx)"] by (auto simp: in_region_def intro!: add32_no_wrap)
  with assms ENTRY_SIZE_16(2) [of "unat (elen (centry ctx))"]
  show "caddr ctx < caddr ctx1" "in_region st ctx1" "same_region st st1"
    by (auto simp: next_entry_def in_region_def same_region_def Let_def split: if_splits)
qed

lemma find_entry_total:
  assumes "in_region st ctx"
  shows "\<exists>s c st'. find_entry env ctx m fv st = Some (s, c, st') \<and> same_region st st' \<and>
    (m \<noteq> ENTRY_ID_END \<longrightarrow> s = SYSPARAM_OK \<longrightarrow> caddr ctx < caddr c \<and> in_region st c)"
  using assms
proof (induction "cur_base st + region_size st + 8 - caddr ctx" arbitrary: ctx st rule: less_induct)
  case less
  obtain stop ctx1 st1 where n: "next_entry ctx st = (stop, ctx1, st1)"
    by (metis prod_cases3)
  show ?case
  proof (cases stop)
    case True
    have "same_region st st1"
      using n by (auto simp: next_entry_def same_region_def Let_def split: if_splits)
    moreover have "find_entry env ctx m fv st = Some (find_entry_end m ctx1 st1)"
      using n True by (subst find_entry.simps) simp
    ultimately show ?thesis
      by (simp add: find_entry_end_def)
  next
    case False
    then have n: "next_entry ctx st = (False, ctx1, st1)"
      using n by simp
    note adv = next_entry_advances [OF less.prems n]
    obtain r bs d1 where r: "sdk_spi_flash_read (flash env) (caddr ctx1) 4 (dev st1) = (r, bs, d1)"
      by (metis prod_cases3)
    let ?c = "ctx1\<lparr>centry := header_of bs\<rparr>"
    let ?ct = "count_entry ?c" and ?st = "st1\<lparr>dev := d1\<rparr>"
    have eq: "find_entry env ctx m fv st =
      (if r \<noteq> 0 then Some (SYSPARAM_ERR_IO, ctx1, ?st)
       else if idflags (header_of bs) = 0xffff then Some (find_entry_end m ?c ?st)
       else if entry_matches (idflags (header_of bs)) m fv then Some (SYSPARAM_OK, ?ct, ?st)
       else find_entry env ?ct m fv ?st)"
      using n r by (subst find_entry.simps) (simp add: Let_def)
    have in_ct: "in_region st ?ct" "in_region ?st ?ct" "caddr ctx < caddr ?ct"
      using adv by (simp_all add: in_region_def same_region_def)
    have "cur_base ?st + region_size ?st + 8 - caddr ?ct < cur_base st + region_size st + 8 - caddr ctx"
      using in_ct adv(3) by (auto simp: in_region_def same_region_def)
    from less.hyps [OF this in_ct(2)] obtain s c st' where
      "find_entry env ?ct m fv ?st = Some (s, c, st')" "same_region ?st st'"
      "m \<noteq> ENTRY_ID_END \<longrightarrow> s = SYSPARAM_OK \<longrightarrow> caddr ?ct < caddr c \<and> in_region ?st c"
      by blast
    then show ?thesis
      using eq in_ct adv(3) by (auto simp: find_entry_end_def same_region_def in_region_def)
  qed
qed

lemma find_key_total:
  assumes "in_region st ctx"
  shows "\<exists>s c st'. find_key env ctx key kl st = Some (s, c, st') \<and> same_region st st' \<and>
    (s = SYSPARAM_OK \<longrightarrow> in_region st c)"
  using assms
proof (induction "cur_base st + region_size st + 8 - caddr ctx" arbitrary: ctx st rule: less_induct)
  case less
  have any: "ENTRY_ID_ANY \<noteq> (ENTRY_ID_END :: u16)"
    by code_simp
  obtain s c st1 where f: "find_entry env ctx ENTRY_ID_ANY False st = Some (s, c, st1)" "same_region st st1"
    "s = SYSPARAM_OK \<Longrightarrow> caddr ctx < caddr c \<and> in_region st c"
    using find_entry_total [OF less.prems, of env ENTRY_ID_ANY False] any by blast
  obtain s2 buf st2 where p: "read_payload env c (unat kl) st1 = (s2, buf, st2)"
    by (metis prod_cases3)
  have st2: "same_region st st2"
    using p f(2) by (auto simp: read_payload_def Let_def split: prod.splits if_splits)
  show ?case
  proof (cases "s = SYSPARAM_OK")
    case False
    then show ?thesis
      using f by (subst find_key.simps) simp
  next
    case True
    have IH: "\<exists>s c' st'. find_key env c key kl x = Some (s, c', st') \<and> same_region st st' \<and> (s = SYSPARAM_OK \<longrightarrow> in_region st c')"
      if "same_region st x" for x
    proof -
      have "cur_base x + region_size x + 8 - caddr c < cur_base st + region_size st + 8 - caddr ctx" "in_region x c"
        using f(3) [OF True] that by (auto simp: in_region_def same_region_def)
      from less.hyps [OF this] that show ?thesis
        by (auto simp: in_region_def same_region_def)
    qed
    show ?thesis
      using IH [OF f(2)] IH [OF st2] f p True st2
      by (subst find_key.simps) (auto split: option.splits)
  qed
qed

lemma sysparam_get_data_total:
  assumes "cur_base st + region_size st + 65560 < 2 ^ 32"
  shows "\<exists>s v st'. sysparam_get_data env key st = Some (s, v, st')"
proof (cases "cur_base st = 0")
  case False
  obtain ok d1 where m: "malloc_ok env (length key + 2) (dev st) = (ok, d1)"
    by (metis prod.exhaust)
  let ?st = "st\<lparr>dev := d1\<rparr>"
  have "in_region ?st (init_context ?st)"
    using assms by (simp add: in_region_def init_context_def)
  then obtain s c st1 where k: "find_key env (init_context ?st) (Some key) (of_nat (length key)) ?st = Some (s, c, st1)"
    "same_region ?st st1" "s = SYSPARAM_OK \<Longrightarrow> in_region ?st c"
    using find_key_total [of ?st "init_context ?st" env "Some key" "of_nat (length key)"] by blast
  have "\<exists>s2 c2 st2. find_value env c (idflags (centry c)) st1 = Some (s2, c2, st2)" if "s = SYSPARAM_OK"
  proof -
    have "in_region st1 c"
      using k(2) k(3) [OF that] by (simp add: in_region_def same_region_def)
    then show ?thesis
      using find_entry_total [of st1 c env "idflags (centry c) AND ENTRY_MASK_ID" True] by (auto simp: find_value_def)
  qed
  then show ?thesis
    using False m k(1) by (auto simp: sysparam_get_data_def Let_def split: prod.splits)
qed (simp add: sysparam_get_data_def)

section \<open>A simulated store\<close>

text \<open>The module on the small simulated chip, with an allocator that always succeeds.\<close>

definition sim_params :: "byte list sysparam_env" where
  "sim_params = \<lparr>flash = sim_env small_chip, malloc_ok = (\<lambda>n d. (True, d)), sem_create = id, sem_take = id, sem_give = id\<rparr>"

interpretation sim_hw: sysparam_hw sim_params "sim_mem small_chip"
  using small.nor_rom_axioms by (auto simp: sysparam_hw_def sysparam_hw_axioms_def sim_params_def)

text \<open>An area of two regions of two sectors at address 64, the first one active.\<close>

definition sim_image :: "ent list \<Rightarrow> byte list" where
  "sim_image es = replicate 64 0xff @ region_header_bytes (region_hdr 2 False True) @ ents_bytes es
     @ replicate (120 - ents_len es) 0xff @ region_header_bytes (region_hdr 2 True False) @ replicate 312 0xff"

definition sim_state :: "ent list \<Rightarrow> byte list sysparam_info" where
  "sim_state es = \<lparr>dev = sim_image es, cur_base = 64, alt_base = 192, end_addr = 72 + ents_len es, region_size = 128,
     force_compact = False\<rparr>"

definition sim_iter :: sysparam_iter_t where
  "sim_iter = \<lparr>it_key = [], it_value = [], it_binary = False, it_bufsize = 0, it_ctx = zero_context\<rparr>"

definition sim_ents :: "ent list" where
  "sim_ents = [key_ent 1 [97] [0, 0, 0], value_ent 1 [1, 2, 3] True [0], key_ent 2 [98] [0, 0, 0]]"

lemma sim_ents_ok: "store_ok sim_ents" "lookup sim_ents [97] = Some ([1, 2, 3], True)" "lookup sim_ents [98] = None"
  by code_simp+

lemma sim_store:
  assumes "list_all ent_ok es" and "ents_len es \<le> 120"
  shows "store sim_params (sim_mem small_chip) (sim_state es) es"
proof -
  let ?h0 = "region_header_bytes (region_hdr 2 False True)" and ?h1 = "region_header_bytes (region_hdr 2 True False)"
  have h: "length ?h0 = 8" "length ?h1 = 8"
    by (simp_all add: region_header_bytes_def)
  have "length (sim_image es) = 512"
    using assms(2) h by (simp add: sim_image_def)
  then have m: "sim_mem small_chip (sim_image es) = sim_image es"
    by (simp add: sim_mem_id small_chip_def)
  have "block_at 64 8 (sim_image es) = ?h0" "block_at 192 8 (sim_image es) = ?h1"
    "block_at 72 (ents_len es) (sim_image es) = ents_bytes es"
    "block_at (72 + ents_len es) (120 - ents_len es) (sim_image es) = replicate (120 - ents_len es) 0xff"
    using assms(2) h by (simp_all add: sim_image_def block_at_def)
  with assms \<open>length (sim_image es) = 512\<close> m show ?thesis
    by (simp add: store_def store_at_def region_at_def area_ok_def sim_state_def sim_params_def sim_env_def small_chip_def
        sdk_flashchip_def Let_def)
qed

lemma sim_ents_store: "store sim_params (sim_mem small_chip) (sim_state sim_ents) sim_ents"
proof -
  have "list_all ent_ok sim_ents" "ents_len sim_ents = 24"
    by (simp_all add: sim_ents_def ent_ok_def key_ent_def value_ent_def ROUND_TO_WORD_BOUNDARY_def ent_bytes_def)
  then show ?thesis
    by (intro sim_store) simp_all
qed

lemma sim_room: "room_for (sim_state sim_ents) sim_ents [99] [7, 8]" "\<not> has_key sim_ents [99]"
proof -
  show nk: "\<not> has_key sim_ents [99]"
    by (simp add: has_key_def sim_ents_def key_ent_def value_ent_def)
  have "last_id sim_ents < MAX_KEY_ID"
    by code_simp
  moreover have "ents_len sim_ents = 24"
    by (simp add: sim_ents_def key_ent_def value_ent_def ent_bytes_def)
  ultimately show "room_for (sim_state sim_ents) sim_ents [99] [7, 8]"
    using nk by (simp add: room_for_def sim_state_def ENTRY_SIZE_def ROUND_TO_WORD_BOUNDARY_def)
qed

section \<open>Properties\<close>

text \<open>
  C1: the parameter store refines a finite map. On a state whose active region holds well-formed
  entries, with room for the new ones, \<^verbatim>\<open>sysparam_set_data\<close> returns (it does not loop) with
  \<^verbatim>\<open>SYSPARAM_OK\<close>, and the map that the log represents is the old one updated at the key, for a new
  key, a key whose value was deleted, a changed value and an unchanged value alike; the entries
  stay well formed.
\<close>

theorem sysparam_set_refines_update:
  assumes "sysparam_hw env mem" and "store env mem st es" "store_ok es"
    and "key \<noteq> []" "length key < 65536" "v \<noteq> []" "length v < 65536" and "room_for st es key v"
  shows "\<exists>st' es'. sysparam_set_data env it al key (Some v) (length v) bin st = Some (SYSPARAM_OK, st') \<and>
    store env mem st' es' \<and> store_ok es' \<and> lookup es' = (lookup es)(key \<mapsto> (v, bin))"
  by (rule sysparam_hw.set_data_stores [OF assms, where it = it and al = al and bin = bin]) blast

theorem sysparam_set_refines_update_witness:
  "\<exists>st' es'. sysparam_set_data sim_params sim_iter True [99] (Some [7, 8]) (length [7, 8 :: byte]) False (sim_state sim_ents) = Some (SYSPARAM_OK, st') \<and>
    store sim_params (sim_mem small_chip) st' es' \<and> lookup es' [99] = Some ([7, 8], False) \<and>
    lookup es' [97] = Some ([1, 2, 3], True)"
proof -
  obtain st' es' where "sysparam_set_data sim_params sim_iter True [99] (Some [7, 8]) (length [7, 8 :: byte]) False (sim_state sim_ents) = Some (SYSPARAM_OK, st')"
    "store sim_params (sim_mem small_chip) st' es'" "lookup es' = (lookup sim_ents)([99] \<mapsto> ([7, 8], False))"
    using sysparam_set_refines_update [OF sim_hw.sysparam_hw_axioms sim_ents_store sim_ents_ok(1) _ _ _ _ sim_room(1),
        of sim_iter True False] by auto
  with sim_ents_ok(2) show ?thesis
    by (intro exI [of _ st'] exI [of _ es']) simp
qed

text \<open>
  C2: reading refines lookup. \<^verbatim>\<open>sysparam_get_data\<close> returns for every key, with the value and the
  binary flag that the represented map has for it or with \<^verbatim>\<open>SYSPARAM_NOTFOUND\<close>, and leaves the
  flash as it is.
\<close>

theorem sysparam_get_refines_lookup:
  assumes "sysparam_hw env mem" and "store env mem st es" "store_ok es" and "length key < 65536"
  shows "\<exists>st'. sysparam_get_data env key st =
      Some (if lookup es key = None then SYSPARAM_NOTFOUND else SYSPARAM_OK, lookup es key, st') \<and>
    store env mem st' es \<and> mem (dev st') = mem (dev st)"
  by (rule sysparam_hw.get_data_store [OF assms])
    (use assms(1,2) in \<open>auto dest: sysparam_hw.store_dev\<close>)

theorem sysparam_get_refines_lookup_witness:
  "(\<exists>st'. sysparam_get_data sim_params [97] (sim_state sim_ents) = Some (SYSPARAM_OK, Some ([1, 2, 3], True), st')) \<and>
   (\<exists>st'. sysparam_get_data sim_params [98] (sim_state sim_ents) = Some (SYSPARAM_NOTFOUND, None, st'))"
  using sysparam_get_refines_lookup [OF sim_hw.sysparam_hw_axioms sim_ents_store sim_ents_ok(1), of "[97]"]
    sysparam_get_refines_lookup [OF sim_hw.sysparam_hw_axioms sim_ents_store sim_ents_ok(1), of "[98]"] sim_ents_ok(2,3)
  by auto

text \<open>
  C31: deleting refines removal from the map. A null pointer or a zero length removes exactly the
  key from the represented map, whatever the space left in the region; the status says whether
  there was a value.
\<close>

theorem sysparam_delete_refines_removal:
  assumes "sysparam_hw env mem" and "store env mem st es" "store_ok es" and "key \<noteq> []" "length key < 65536"
    and "vopt = None \<or> value_len = 0" and "value_len \<le> MAX_VALUE_LEN"
  shows "\<exists>st' es'. sysparam_set_data env it al key vopt value_len bin st =
      Some (if lookup es key = None then SYSPARAM_NOTFOUND else SYSPARAM_OK, st') \<and>
    store env mem st' es' \<and> store_ok es' \<and> lookup es' = (lookup es)(key := None)"
  by (rule sysparam_hw.set_data_deletes [OF assms, where it = it and al = al and bin = bin]) blast

theorem sysparam_delete_refines_removal_witness:
  "\<exists>st' es'. sysparam_set_data sim_params sim_iter True [97] None 0 False (sim_state sim_ents) = Some (SYSPARAM_OK, st') \<and>
    store sim_params (sim_mem small_chip) st' es' \<and> lookup es' [97] = None"
  using sysparam_delete_refines_removal [OF sim_hw.sysparam_hw_axioms sim_ents_store sim_ents_ok(1), of "[97]" None 0 sim_iter True False]
    sim_ents_ok(2) by force

text \<open>
  C30: values survive a restart. After a successful \<^verbatim>\<open>sysparam_set_data\<close>, a fresh start from any
  contents of the module's variables (\<^verbatim>\<open>sysparam_init\<close> at the start of the area) succeeds and
  every key then reads as the updated map says, the new value included.
\<close>

theorem sysparam_set_survives_restart:
  assumes "sysparam_hw env mem" and "store env mem st es" "store_ok es"
    and "key \<noteq> []" "length key < 65536" "v \<noteq> []" "length v < 65536" and "room_for st es key v"
  shows "\<exists>st'. sysparam_set_data env it al key (Some v) (length v) bin st = Some (SYSPARAM_OK, st') \<and>
    (\<forall>ram. dev ram = dev st' \<longrightarrow>
      (\<exists>st2. sysparam_init env (min (cur_base st) (alt_base st)) 0 ram = Some (SYSPARAM_OK, st2) \<and>
        (\<forall>k. length k < 65536 \<longrightarrow>
          (\<exists>st3 s. sysparam_get_data env k st2 = Some (s, ((lookup es)(key \<mapsto> (v, bin))) k, st3)))))"
proof -
  obtain st' es' where st': "sysparam_set_data env it al key (Some v) (length v) bin st = Some (SYSPARAM_OK, st')"
    "store env mem st' es'" "store_ok es'" "lookup es' = (lookup es)(key \<mapsto> (v, bin))"
    "cur_base st' = cur_base st" "(region_size st', alt_base st') = (region_size st, alt_base st)"
    by (rule sysparam_hw.set_data_stores [OF assms, where it = it and al = al and bin = bin]) blast
  then have area: "region_size st' = region_size st" "alt_base st' = alt_base st"
    by simp_all
  have "\<exists>st2. sysparam_init env (min (cur_base st) (alt_base st)) 0 ram = Some (SYSPARAM_OK, st2) \<and> store env mem st2 es'"
    if "dev ram = dev st'" for ram
  proof -
    note s = st'(2) [unfolded store_def store_at_def, folded that, unfolded st'(5) area]
    show ?thesis
      by (rule sysparam_hw.init_opens [OF assms(1), of ram "cur_base st" "alt_base st" "region_size st" es' 0])
        (use s st'(3) in auto)
  qed
  then show ?thesis
    using st'(1,3,4) sysparam_hw.get_data_store [OF assms(1)] by metis
qed

theorem sysparam_set_survives_restart_witness:
  "\<exists>st'. sysparam_set_data sim_params sim_iter False [99] (Some [7, 8]) (length [7, 8 :: byte]) False (sim_state sim_ents) =
      Some (SYSPARAM_OK, st') \<and>
    (\<exists>st2. sysparam_init sim_params 64 0 \<lparr>dev = dev st', cur_base = 0, alt_base = 0, end_addr = 0, region_size = 0,
        force_compact = False\<rparr> = Some (SYSPARAM_OK, st2) \<and>
      (\<exists>st3 s. sysparam_get_data sim_params [99] st2 = Some (s, Some ([7, 8], False), st3)))"
proof -
  have base: "min (cur_base (sim_state sim_ents)) (alt_base (sim_state sim_ents)) = 64"
    by (simp add: sim_state_def)
  obtain st' where st': "sysparam_set_data sim_params sim_iter False [99] (Some [7, 8]) (length [7, 8 :: byte]) False (sim_state sim_ents) =
      Some (SYSPARAM_OK, st')" and
    re: "\<And>ram. dev ram = dev st' \<Longrightarrow> \<exists>st2. sysparam_init sim_params 64 0 ram = Some (SYSPARAM_OK, st2) \<and>
      (\<forall>k. length k < 65536 \<longrightarrow>
          (\<exists>st3 s. sysparam_get_data sim_params k st2 = Some (s, ((lookup sim_ents)([99] \<mapsto> ([7, 8], False))) k, st3)))"
    using sysparam_set_survives_restart [OF sim_hw.sysparam_hw_axioms sim_ents_store sim_ents_ok(1) _ _ _ _ sim_room(1),
        of sim_iter False False] unfolding base by auto
  let ?ram = "\<lparr>dev = dev st', cur_base = 0, alt_base = 0, end_addr = 0, region_size = 0, force_compact = False\<rparr>"
  obtain st2 where st2: "sysparam_init sim_params 64 0 ?ram = Some (SYSPARAM_OK, st2)"
    "\<forall>k. length k < 65536 \<longrightarrow>
      (\<exists>st3 s. sysparam_get_data sim_params k st2 = Some (s, ((lookup sim_ents)([99] \<mapsto> ([7, 8], False))) k, st3))"
    using re [of ?ram] by auto
  from spec [OF st2(2), of "[99]"]
  have "\<exists>st3 s. sysparam_get_data sim_params [99] st2 = Some (s, Some ([7, 8], False), st3)"
    by simp
  with st' st2(1) show ?thesis
    by blast
qed

text \<open>
  C32: creating an area. With \<^verbatim>\<open>force\<close>, an even number of sectors on the chip, fewer than 8192, and
  a base on a sector boundary, \<^verbatim>\<open>sysparam_create_area\<close> succeeds whatever the flash held before, and
  \<^verbatim>\<open>sysparam_init\<close> then opens an empty store whose first region is active.
\<close>

theorem sysparam_create_then_init:
  assumes "sysparam_hw env mem" and "unat area = 2 * n" "0 < n" "n < 4096" and "0 < base"
    and "sector_size (chip (flash env)) dvd base" "4 dvd sector_size (chip (flash env))" "8 < sector_size (chip (flash env))"
    and "base + 2 * (n * sector_size (chip (flash env))) \<le> chip_size (chip (flash env))"
    and "base div sector_size (chip (flash env)) + 2 * n \<le> 65536"
  shows "\<exists>st1 st2. sysparam_create_area env base area True st = Some (SYSPARAM_OK, st1) \<and>
    sysparam_init env base 0 st1 = Some (SYSPARAM_OK, st2) \<and> store env mem st2 [] \<and> store_ok [] \<and>
    cur_base st2 = base \<and> region_size st2 = n * sector_size (chip (flash env))"
proof -
  let ?r = "n * sector_size (chip (flash env))"
  obtain st1 where st1: "sysparam_create_area env base area True st = Some (SYSPARAM_OK, st1)"
    "area_ok env (mem (dev st1)) base (base + ?r) ?r" "region_at (mem (dev st1)) base ?r []"
    by (rule sysparam_hw.create_area_ok [OF assms, where st = st])
  have ok: "store_ok []"
    by (simp add: store_ok_def)
  have "\<exists>st2. sysparam_init env (min base (base + ?r)) 0 st1 = Some (SYSPARAM_OK, st2) \<and> store env mem st2 [] \<and>
      cur_base st2 = base \<and> region_size st2 = ?r"
    by (rule sysparam_hw.init_opens [OF assms(1) st1(2,3) ok, where top_addr = 0]) (use assms(5) in auto)
  with st1(1) ok show ?thesis
    by auto
qed

theorem sysparam_create_then_init_witness:
  "\<exists>st1 st2. sysparam_create_area sim_params 64 4 True (sim_state []) = Some (SYSPARAM_OK, st1) \<and>
    sysparam_init sim_params 64 0 st1 = Some (SYSPARAM_OK, st2) \<and> store sim_params (sim_mem small_chip) st2 [] \<and>
    cur_base st2 = 64 \<and> region_size st2 = 128"
  using sysparam_create_then_init [OF sim_hw.sysparam_hw_axioms, of 4 2 64 "sim_state []"]
  by (auto simp: sim_params_def sim_env_def small_chip_def)

text \<open>
  C33: searches end on any flash. Whatever bytes the flash holds and whatever the driver returns,
  \<^verbatim>\<open>sysparam_get_data\<close> returns: no corrupted entry length makes the scan loop, as long as the region
  does not reach into the last 65560 bytes of the address space.
\<close>

theorem sysparam_get_returns:
  assumes "cur_base st + region_size st + 65560 < 2 ^ 32"
  shows "\<exists>s v st'. sysparam_get_data env key st = Some (s, v, st')"
  by (rule sysparam_get_data_total [OF assms])

theorem sysparam_get_returns_witness:
  "\<exists>s v st'. sysparam_get_data sim_params [1] (sim_state []\<lparr>dev := replicate 512 0\<rparr>) = Some (s, v, st')"
  by (rule sysparam_get_returns) (simp add: sim_state_def)

text \<open>
  Integers survive the trip through text. A value set with \<^verbatim>\<open>sysparam_set_int32\<close>, negative, zero
  or positive, is what \<^verbatim>\<open>sysparam_get_int32\<close> returns afterwards, over the whole 32-bit range.
\<close>

theorem sysparam_int32_roundtrip:
  assumes "sysparam_hw env mem" and "store env mem st es" "store_ok es"
    and "key \<noteq> []" "length key < 65536" and "- (2 ^ 31) \<le> v" "v < 2 ^ 31" and "room_for st es key (show_int v)"
  shows "\<exists>st' st2. sysparam_set_int32 env it al key v st = Some (SYSPARAM_OK, st') \<and>
    sysparam_get_int32 env key st' = Some (SYSPARAM_OK, Some v, st2)"
proof -
  have len: "length (show_int v) < 65536"
    using show_int_length [OF assms(6,7)] by simp
  obtain st' es' where st': "sysparam_set_data env it al key (Some (show_int v)) (length (show_int v)) False st = Some (SYSPARAM_OK, st')"
    "store env mem st' es'" "store_ok es'" "lookup es' = (lookup es)(key \<mapsto> (show_int v, False))"
    by (rule sysparam_hw.set_data_stores [OF assms(1-5) show_int_text(2) len assms(8), where it = it and al = al and bin = False]) blast
  obtain d where "sysparam_get_data env key st' = Some (SYSPARAM_OK, Some (show_int v, False), st'\<lparr>dev := d\<rparr>)"
    by (rule sysparam_hw.get_data_store [OF assms(1) st'(2,3) assms(5)]) (use st'(4) in simp)
  then show ?thesis
    using st'(1) strtol_show_int [OF assms(6,7)] show_int_text(1)
    by (simp add: sysparam_set_int32_def sysparam_get_int32_def sysparam_get_string_def)
qed

theorem sysparam_int32_roundtrip_witness:
  "\<exists>st' st2. sysparam_set_int32 sim_params sim_iter True [120] (- 17) (sim_state []) = Some (SYSPARAM_OK, st') \<and>
    sysparam_get_int32 sim_params [120] st' = Some (SYSPARAM_OK, Some (- 17), st2)"
proof -
  have t: "show_int (- 17) = [45, 49, 55]"
    by code_simp
  show ?thesis
    by (rule sysparam_int32_roundtrip [OF sim_hw.sysparam_hw_axioms sim_store, of "[]"])
      (simp_all add: store_ok_def room_for_def has_key_def last_id_def t sim_state_def ENTRY_SIZE_def ROUND_TO_WORD_BOUNDARY_def)
qed

text \<open>
  Guards of \<^verbatim>\<open>sysparam_set_data\<close>. Without an open area, with an empty key (or one whose length
  is a multiple of 65536, which the 16-bit length takes for empty) or with a value that is too
  long the call reports the error and changes neither flash nor state nor the mutex.
\<close>

theorem sysparam_set_guards:
  "sysparam_set_data env it al key vopt value_len bin st =
     (if cur_base st = 0 then Some (SYSPARAM_ERR_NOINIT, st)
      else if length key mod 65536 = 0 \<or> value_len > 0xffff then Some (SYSPARAM_ERR_BADVALUE, st)
      else sysparam_set_data env it al key vopt value_len bin st) \<and>
   sysparam_get_data env key (st\<lparr>cur_base := 0\<rparr>) = Some (SYSPARAM_ERR_NOINIT, None, st\<lparr>cur_base := 0\<rparr>) \<and>
   sysparam_iter_start env it (st\<lparr>cur_base := 0\<rparr>) = (SYSPARAM_ERR_NOINIT, it, st\<lparr>cur_base := 0\<rparr>)"
proof -
  have "(of_nat (length key) :: u16) = 0 \<longleftrightarrow> length key mod 65536 = 0"
    by (simp add: word_unat_eq_iff unat_of_nat)
  then show ?thesis
    by (simp add: sysparam_set_data_def sysparam_get_data_def sysparam_iter_start_def)
qed

end
