(* ===== verification/Rboot.thy ===== *)
theory Rboot
  imports Spi_Flash
begin

text \<open>
  The boot loader, \<^verbatim>\<open>src/bootloader/rboot/rboot.c\<close>, its second stage
  \<^verbatim>\<open>src/bootloader/rboot/rboot-stage2a.c\<close> and the flash mapping of
  \<^verbatim>\<open>src/bootloader/rboot/appcode/rboot-bigflash.c\<close>, with the options that
  \<^verbatim>\<open>src/bootloader/rboot.h\<close> and \<^verbatim>\<open>src/bootloader/rboot/rboot.h\<close> select: a checksum on the
  configuration, big flash, data in RTC memory, a checksum over the irom section, no GPIO boot.

  The structures live in byte buffers, as they do in the code; their fields are read and written
  at their offsets. The flash functions of the boot ROM are parameters, and so is the state of
  the flash they act on. Console output is left out.
\<close>

section \<open>Data\<close>

abbreviation (input) CHKSUM_INIT :: byte where "CHKSUM_INIT \<equiv> 0xef"
abbreviation (input) SECTOR_SIZE :: nat where "SECTOR_SIZE \<equiv> 0x1000"
abbreviation (input) BOOT_CONFIG_SECTOR :: nat where "BOOT_CONFIG_SECTOR \<equiv> 1"
abbreviation (input) BOOT_CONFIG_MAGIC :: byte where "BOOT_CONFIG_MAGIC \<equiv> 0xe1"
abbreviation (input) BOOT_CONFIG_VERSION :: byte where "BOOT_CONFIG_VERSION \<equiv> 1"
abbreviation (input) MODE_STANDARD :: byte where "MODE_STANDARD \<equiv> 0"
abbreviation (input) MODE_TEMP_ROM :: byte where "MODE_TEMP_ROM \<equiv> 2"
abbreviation (input) RBOOT_RTC_MAGIC :: nat where "RBOOT_RTC_MAGIC \<equiv> 0x2334ae68"
abbreviation (input) RBOOT_RTC_ADDR :: int where "RBOOT_RTC_ADDR \<equiv> 64"
abbreviation (input) ROM_MAGIC :: byte where "ROM_MAGIC \<equiv> 0xe9"
abbreviation (input) ROM_MAGIC_NEW1 :: byte where "ROM_MAGIC_NEW1 \<equiv> 0xea"
abbreviation (input) ROM_MAGIC_NEW2 :: byte where "ROM_MAGIC_NEW2 \<equiv> 4"
abbreviation (input) BUFFER_SIZE :: nat where "BUFFER_SIZE \<equiv> 0x100"
abbreviation (input) CONFIG_LEN :: nat where "CONFIG_LEN \<equiv> 28"
abbreviation (input) RTC_LEN :: nat where "RTC_LEN \<equiv> 12"

definition le32_at :: "byte list \<Rightarrow> nat \<Rightarrow> nat" where
  "le32_at bs i = unat (bs ! i) + 2 ^ 8 * unat (bs ! (i + 1)) + 2 ^ 16 * unat (bs ! (i + 2)) + 2 ^ 24 * unat (bs ! (i + 3))"

definition le32 :: "nat \<Rightarrow> byte list" where
  "le32 v = [of_nat v, of_nat (v div 2 ^ 8), of_nat (v div 2 ^ 16), of_nat (v div 2 ^ 24)]"

definition put_at :: "nat \<Rightarrow> byte list \<Rightarrow> byte list \<Rightarrow> byte list" where
  "put_at i vs bs = take i bs @ vs @ drop (i + length vs) bs"

text \<open>The boot ROM's flash functions: a result code, the bytes read, the flash afterwards.\<close>

record 'd boot_env =
  SPIRead :: "nat \<Rightarrow> nat \<Rightarrow> 'd \<Rightarrow> nat \<times> byte list \<times> 'd"
  SPIEraseSector :: "int \<Rightarrow> 'd \<Rightarrow> nat \<times> 'd"
  SPIWrite :: "nat \<Rightarrow> byte list \<Rightarrow> 'd \<Rightarrow> nat \<times> 'd"

text \<open>Flash and RTC memory; the latter are the 768 bytes at \<^verbatim>\<open>0x60001100\<close>.\<close>

record 'd boot_state =
  bflash :: 'd
  brtc :: "byte list"

text \<open>
  \<^verbatim>\<open>rboot_config\<close>: eight bytes, four addresses, the checksum and three bytes of padding. The
  index of \<^verbatim>\<open>roms\<close> is not checked by the code: the byte offset is taken as it comes out.
\<close>

definition cf_current_rom :: "byte list \<Rightarrow> byte" where "cf_current_rom c = c ! 3"
definition cf_count :: "byte list \<Rightarrow> byte" where "cf_count c = c ! 5"
definition cf_rom :: "byte list \<Rightarrow> int \<Rightarrow> nat" where "cf_rom c i = le32_at c (nat (8 + 4 * i))"
definition cf_chksum :: "byte list \<Rightarrow> byte" where "cf_chksum c = c ! 24"

text \<open>\<^verbatim>\<open>rboot_rtc_data\<close>: magic, next mode, last mode, last rom, temporary rom, checksum, padding.\<close>

definition rt_next_mode :: "byte list \<Rightarrow> byte" where "rt_next_mode r = r ! 4"
definition rt_last_mode :: "byte list \<Rightarrow> byte" where "rt_last_mode r = r ! 5"
definition rt_last_rom :: "byte list \<Rightarrow> byte" where "rt_last_rom r = r ! 6"
definition rt_temp_rom :: "byte list \<Rightarrow> byte" where "rt_temp_rom r = r ! 7"
definition rt_chksum :: "byte list \<Rightarrow> byte" where "rt_chksum r = r ! 8"

section \<open>Checking an image\<close>

definition xor_bytes :: "byte list \<Rightarrow> byte \<Rightarrow> byte" where
  "xor_bytes bs c = foldl (\<lambda>x b. x XOR b) c bs"

text \<open>The data of one section: the position behind it and the checksum, or nothing on a failed read.\<close>

function section_loop :: "'d boot_env \<Rightarrow> nat \<Rightarrow> nat \<Rightarrow> byte \<Rightarrow> 'd \<Rightarrow> (nat \<times> byte) option \<times> 'd" where
  "section_loop env remaining readpos chksum d =
     (if remaining > 0 then
        (let readlen = (if remaining < BUFFER_SIZE then remaining else BUFFER_SIZE);
             (r, buffer, d1) = SPIRead env readpos readlen d
         in if r \<noteq> 0 then (None, d1)
            else section_loop env (remaining - readlen) (add32 readpos readlen)
                   (xor_bytes (take readlen buffer) chksum) d1)
      else (Some (readpos, chksum), d))"
  by pat_completeness auto
termination
  by (relation "measure (\<lambda>(_, remaining, _, _, _). remaining)") auto

declare section_loop.simps [simp del]

lemma byte_inc: "cur < (sc :: byte) \<Longrightarrow> unat (cur + 1) = Suc (unat cur)" "cur < sc \<Longrightarrow> unat cur < 255"
  "cur < sc \<Longrightarrow> 255 - unat (cur + 1) < 255 - unat cur"
  using unsigned_less [of sc, where ?'a = nat] by (simp_all add: word_less_nat_alt unat_word_ariths)

text \<open>The loop over the sections; the count 255 marks the irom section of the new format.\<close>

function sections_loop ::
  "'d boot_env \<Rightarrow> byte \<Rightarrow> byte \<Rightarrow> nat \<Rightarrow> byte \<Rightarrow> 'd \<Rightarrow> (nat \<times> byte) option \<times> 'd" where
  "sections_loop env sectcount sectcurrent readpos chksum d =
     (if sectcurrent < sectcount then
        (let (r, section, d1) = SPIRead env readpos 8 d
         in if r \<noteq> 0 then (None, d1)
            else case section_loop env (le32_at section 4) (add32 readpos 8) chksum d1 of
              (None, d2) \<Rightarrow> (None, d2)
            | (Some (readpos2, chksum2), d2) \<Rightarrow>
                (if sectcount = 0xff then
                   (let (r3, header, d3) = SPIRead env readpos2 8 d2
                    in if r3 \<noteq> 0 then (None, d3)
                       else sections_loop env (header ! 1 + 1) (sectcurrent + 1) (add32 readpos2 8) chksum2 d3)
                 else sections_loop env sectcount (sectcurrent + 1) readpos2 chksum2 d2))
      else (Some (readpos, chksum), d))"
  by pat_completeness auto
termination
  by (relation "measure (\<lambda>(_, _, cur, _, _, _). 255 - unat cur)") (auto intro: byte_inc(3))

declare sections_loop.simps [simp del]

text \<open>\<^verbatim>\<open>check_image\<close>: the address to load from, 0 when the image is bad.\<close>

definition check_image :: "'d boot_env \<Rightarrow> nat \<Rightarrow> 'd \<Rightarrow> nat \<times> 'd" where
  "check_image env readpos d =
     (if readpos = 0 \<or> readpos = 0xffffffff then (0, d)
      else let (r, header, d1) = SPIRead env readpos 16 d
        in if r \<noteq> 0 then (0, d1)
           else let old = (header ! 0 = ROM_MAGIC);
                    new = (header ! 0 = ROM_MAGIC_NEW1 \<and> header ! 1 = ROM_MAGIC_NEW2)
             in if \<not> old \<and> \<not> new then (0, d1)
                else let romaddr = (if old then readpos else add32 (add32 readpos (le32_at header 12)) 16);
                         sectcount = (if old then header ! 1 else 0xff)
                  in case sections_loop env sectcount 0 (add32 readpos 8) CHKSUM_INIT d1 of
                       (None, d2) \<Rightarrow> (0, d2)
                     | (Some (pos, chksum), d2) \<Rightarrow>
                         (let (r3, buffer, d3) = SPIRead env (pos - pos mod 16 + 15) 1 d2
                          in if r3 \<noteq> 0 \<or> buffer ! 0 \<noteq> chksum then (0, d3) else (romaddr, d3)))"

section \<open>Loading an image\<close>

text \<open>
  \<^verbatim>\<open>load_rom\<close> of the second stage: memory is a function from addresses, the result is the entry
  point. Read errors are not looked at, so the bytes a failed read leaves are copied too.
\<close>

type_synonym ram = "nat \<Rightarrow> byte"

definition ets_memcpy :: "nat \<Rightarrow> byte list \<Rightarrow> ram \<Rightarrow> ram" where
  "ets_memcpy a bs m = (\<lambda>x. if a \<le> x \<and> x < a + length bs then bs ! (x - a) else m x)"

function load_section :: "'d boot_env \<Rightarrow> nat \<Rightarrow> nat \<Rightarrow> nat \<Rightarrow> ram \<Rightarrow> 'd \<Rightarrow> nat \<times> ram \<times> 'd" where
  "load_section env remaining readpos writepos m d =
     (if remaining > 0 then
        (let readlen = (if remaining < BUFFER_SIZE then remaining else BUFFER_SIZE);
             (_, buffer, d1) = SPIRead env readpos readlen d
         in load_section env (remaining - readlen) (add32 readpos readlen) (add32 writepos readlen)
              (ets_memcpy writepos (take readlen buffer) m) d1)
      else (readpos, m, d))"
  by pat_completeness auto
termination
  by (relation "measure (\<lambda>(_, remaining, _, _, _, _). remaining)") auto

declare load_section.simps [simp del]

fun load_sections :: "'d boot_env \<Rightarrow> nat \<Rightarrow> nat \<Rightarrow> ram \<Rightarrow> 'd \<Rightarrow> ram \<times> 'd" where
  "load_sections env 0 readpos m d = (m, d)"
| "load_sections env (Suc n) readpos m d =
     (let (_, section, d1) = SPIRead env readpos 8 d;
          (readpos2, m2, d2) = load_section env (le32_at section 4) (add32 readpos 8) (le32_at section 0) m d1
      in load_sections env n readpos2 m2 d2)"

definition load_rom :: "'d boot_env \<Rightarrow> nat \<Rightarrow> ram \<Rightarrow> 'd \<Rightarrow> nat \<times> ram \<times> 'd" where
  "load_rom env readpos m d =
     (let (_, header, d1) = SPIRead env readpos 8 d;
          (m2, d2) = load_sections env (unat (header ! 1)) (add32 readpos 8) m d1
      in (le32_at header 4, m2, d2))"

section \<open>RTC memory and checksums\<close>

definition calc_chksum :: "byte list \<Rightarrow> byte" where
  "calc_chksum bs = xor_bytes bs CHKSUM_INIT"

text \<open>The copy loop goes down over the words of the buffer.\<close>

fun rtc_copy :: "bool \<Rightarrow> nat \<Rightarrow> nat \<Rightarrow> byte list \<Rightarrow> byte list \<Rightarrow> byte list \<times> byte list" where
  "rtc_copy write base 0 buff rtc = (buff, rtc)"
| "rtc_copy write base (Suc b) buff rtc =
     (if write then rtc_copy write base b buff (put_at (4 * (base + b)) (block_at (4 * b) 4 buff) rtc)
      else rtc_copy write base b (put_at (4 * b) (block_at (4 * (base + b)) 4 rtc) buff) rtc)"

text \<open>\<^verbatim>\<open>system_rtc_mem\<close> on an aligned buffer: success, the buffer and RTC memory.\<close>

definition system_rtc_mem :: "int \<Rightarrow> byte list \<Rightarrow> int \<Rightarrow> bool \<Rightarrow> byte list \<Rightarrow> bool \<times> byte list \<times> byte list" where
  "system_rtc_mem addr buff len write rtc =
     (if addr < 64 \<or> len mod 4 \<noteq> 0 \<or> len > 0x300 - addr * 4 then (False, buff, rtc)
      else let (buff', rtc') = rtc_copy write (nat addr) (nat (len div 4)) buff rtc in (True, buff', rtc'))"

section \<open>Choosing an image\<close>

text \<open>The flash size from the header of the boot loader's own image.\<close>

definition flash_size :: "byte \<Rightarrow> nat" where
  "flash_size flags2 =
     (let flag = unat flags2 div 16
      in if flag = 0 then 0x80000
         else if flag = 1 then 0x40000
         else if flag = 2 then 0x100000
         else if flag = 3 then 0x200000
         else if flag = 4 then 0x400000
         else 0x80000)"

definition default_config :: "byte list \<Rightarrow> nat \<Rightarrow> byte list" where
  "default_config romconf flashsize =
     put_at 12 (le32 (flashsize div 2 + SECTOR_SIZE * (BOOT_CONFIG_SECTOR + 1)))
       (put_at 8 (le32 (SECTOR_SIZE * (BOOT_CONFIG_SECTOR + 1))) (put_at 5 [2] romconf))"

definition seal_config :: "byte list \<Rightarrow> byte list" where
  "seal_config romconf = put_at 24 [calc_chksum (take 24 romconf)] romconf"

definition config_valid :: "byte list \<Rightarrow> bool" where
  "config_valid romconf \<longleftrightarrow>
     romconf ! 0 = BOOT_CONFIG_MAGIC \<and> romconf ! 1 = BOOT_CONFIG_VERSION \<and>
     cf_chksum romconf = calc_chksum (take 24 romconf)"

definition write_config :: "'d boot_env \<Rightarrow> byte list \<Rightarrow> 'd \<Rightarrow> 'd" where
  "write_config env buffer d =
     snd (SPIWrite env (BOOT_CONFIG_SECTOR * SECTOR_SIZE) buffer (snd (SPIEraseSector env (int BOOT_CONFIG_SECTOR) d)))"

text \<open>The configuration sector, after a default has been written when there is none.\<close>

definition read_config :: "'d boot_env \<Rightarrow> nat \<Rightarrow> 'd \<Rightarrow> byte list \<times> 'd" where
  "read_config env flashsize d =
     (let (_, buffer, d1) = SPIRead env (BOOT_CONFIG_SECTOR * SECTOR_SIZE) SECTOR_SIZE d
      in if config_valid buffer then (buffer, d1)
         else let c0 = put_at 0 (replicate CONFIG_LEN 0) buffer;
                  c1 = put_at 1 [BOOT_CONFIG_VERSION] (put_at 0 [BOOT_CONFIG_MAGIC] c0);
                  c2 = seal_config (default_config c1 flashsize)
           in (c2, write_config env c2 d1))"

text \<open>
  The loop over the previous roms after a bad one: it ends with a good one, or with nothing when
  it is back at the current one.
\<close>

partial_function (option) rom_loop ::
  "'d boot_env \<Rightarrow> byte list \<Rightarrow> int \<Rightarrow> 'd \<Rightarrow> ((nat \<times> int) option \<times> 'd) option" where
  "rom_loop env romconf romToBoot d =
     (let r1 = romToBoot - 1;
          r2 = (if r1 < 0 then uint (cf_count romconf) - 1 else r1)
      in if r2 = uint (cf_current_rom romconf) then Some (None, d)
         else let (runAddr, d1) = check_image env (cf_rom romconf r2) d
           in if runAddr = 0 then rom_loop env romconf r2 d1 else Some (Some (runAddr, r2), d1))"

declare rom_loop.simps [code]

definition seal_rtc :: "byte list \<Rightarrow> byte list" where
  "seal_rtc rtc = put_at 8 [calc_chksum (take 8 rtc)] rtc"

definition rtc_valid :: "byte list \<Rightarrow> bool" where
  "rtc_valid rtc \<longleftrightarrow> rt_chksum rtc = calc_chksum (take 8 rtc)"

definition store_rtc :: "byte list \<Rightarrow> byte list \<Rightarrow> byte list" where
  "store_rtc rtc mem = snd (snd (system_rtc_mem RBOOT_RTC_ADDR rtc (int RTC_LEN) True mem))"

text \<open>The data left for the application, and the end of \<^verbatim>\<open>find_image\<close>.\<close>

definition boot_rom ::
  "'d boot_env \<Rightarrow> byte list \<Rightarrow> byte list \<Rightarrow> bool \<Rightarrow> bool \<Rightarrow> nat \<Rightarrow> int \<Rightarrow> 'd boot_state \<Rightarrow> nat \<times> 'd boot_state" where
  "boot_rom env romconf rtc temp_boot updateConfig runAddr romToBoot s =
     (let d1 = (if updateConfig then write_config env (seal_config (put_at 3 [word_of_int romToBoot] romconf)) (bflash s)
                else bflash s);
          last_mode = (if temp_boot then MODE_STANDARD OR MODE_TEMP_ROM else MODE_STANDARD);
          rtc1 = seal_rtc (put_at 0 (le32 RBOOT_RTC_MAGIC @ [MODE_STANDARD, last_mode, word_of_int romToBoot, 0]) rtc)
      in (runAddr, \<lparr>bflash = d1, brtc = store_rtc rtc1 (brtc s)\<rparr>))"

text \<open>From the check of the rom number to the end of \<^verbatim>\<open>find_image\<close>.\<close>

definition choose_image ::
  "'d boot_env \<Rightarrow> byte list \<Rightarrow> byte list \<Rightarrow> bool \<Rightarrow> 'd boot_state \<Rightarrow> (nat \<times> 'd boot_state) option" where
  "choose_image env romconf rtc temp_boot s =
     (let bad = (cf_current_rom romconf \<ge> cf_count romconf);
          conf = (if bad then put_at 7 [0] (put_at 3 [0] romconf) else romconf);
          romToBoot = (if bad then 0 else if temp_boot then uint (rt_temp_rom rtc) else uint (cf_current_rom conf));
          (runAddr, d1) = check_image env (cf_rom conf romToBoot) (bflash s)
      in if temp_boot \<and> runAddr = 0 then
           Some (0, \<lparr>bflash = d1, brtc = store_rtc (seal_rtc (put_at 4 [MODE_STANDARD] rtc)) (brtc s)\<rparr>)
         else if runAddr = 0 then do {
           (found, d2) \<leftarrow> rom_loop env conf romToBoot d1;
           case found of
             None \<Rightarrow> Some (0, s\<lparr>bflash := d2\<rparr>)
           | Some (addr, rom) \<Rightarrow> Some (boot_rom env conf rtc temp_boot True addr rom (s\<lparr>bflash := d2\<rparr>)) }
         else Some (boot_rom env conf rtc temp_boot bad runAddr romToBoot (s\<lparr>bflash := d1\<rparr>)))"

text \<open>
  \<^verbatim>\<open>find_image\<close>: the address of the image to load, 0 when there is none. \<open>stack\<close> is what the
  local variable for the RTC data holds before it is read.
\<close>

definition find_image :: "'d boot_env \<Rightarrow> byte list \<Rightarrow> 'd boot_state \<Rightarrow> (nat \<times> 'd boot_state) option" where
  "find_image env stack s =
     (let (_, header, d1) = SPIRead env 0 8 (bflash s);
          (romconf, d2) = read_config env (flash_size (header ! 3)) d1;
          (ok, rtc, _) = system_rtc_mem RBOOT_RTC_ADDR stack (int RTC_LEN) False (brtc s);
          temp_boot = (ok \<and> rtc_valid rtc \<and> rt_next_mode rtc AND MODE_TEMP_ROM \<noteq> 0)
      in if temp_boot \<and> rt_temp_rom rtc \<ge> cf_count romconf then Some (0, s\<lparr>bflash := d2\<rparr>)
         else choose_image env romconf rtc temp_boot (s\<lparr>bflash := d2\<rparr>))"

section \<open>Mapping the flash\<close>

text \<open>
  \<^verbatim>\<open>Cache_Read_Enable_New\<close>: the half and the megabyte that are mapped, kept after the first call.
  The application reads the number of the rom from RTC memory, without the checksum.
\<close>

definition Cache_Read_Enable_New :: "'d boot_env \<Rightarrow> byte \<times> byte \<Rightarrow> 'd boot_state \<Rightarrow> (byte \<times> byte) \<times> 'd boot_state" where
  "Cache_Read_Enable_New env mmap s =
     (if fst mmap = 0xff then
        (let (_, conf, d1) = SPIRead env (BOOT_CONFIG_SECTOR * SECTOR_SIZE) CONFIG_LEN (bflash s);
             rom = brtc s ! (nat RBOOT_RTC_ADDR * 4 + 6);
             val = cf_rom conf (uint rom) div 0x100000
         in ((of_nat (val mod 2), of_nat (val div 2)), s\<lparr>bflash := d1\<rparr>))
      else (mmap, s))"

end
