(* ===== verification/Rboot_Image.thy ===== *)
theory Rboot_Image
  imports Rboot
begin

text \<open>
  What the boot loader checks and loads: the interface of the flash functions of the boot ROM
  (the locale \<open>boot_flash\<close>), the format of an image, and that \<^verbatim>\<open>check_image\<close> and \<^verbatim>\<open>load_rom\<close> do on an
  image in flash what the format asks for.
\<close>

section \<open>The flash under the boot loader\<close>

text \<open>
  What the boot loader relies on: reading is a function of the contents, gives the bytes inside
  the chip and changes nothing; erasing and writing the configuration sector work as on NOR
  flash.
\<close>

locale boot_flash =
  fixes env :: "'d boot_env" and mem :: "'d \<Rightarrow> byte list" and rd :: "byte list \<Rightarrow> nat \<Rightarrow> nat \<Rightarrow> nat \<times> byte list"
  assumes read: "\<exists>d'. SPIRead env a n d = (fst (rd (mem d) a n), snd (rd (mem d) a n), d') \<and> mem d' = mem d"
    and read_in: "a + n \<le> length m \<Longrightarrow> rd m a n = (0, block_at a n m)"
    and erase: "8192 \<le> length (mem d) \<Longrightarrow> mem (snd (SPIEraseSector env 1 d)) = erase_block (mem d) 4096 4096"
    and program: "8192 \<le> length (mem d) \<Longrightarrow> length bs = 4096 \<Longrightarrow>
      mem (snd (SPIWrite env 4096 bs d)) = prog_block (mem d) 4096 bs"

text \<open>The same functions on the contents alone.\<close>

definition pure_env :: "(byte list \<Rightarrow> nat \<Rightarrow> nat \<Rightarrow> nat \<times> byte list) \<Rightarrow> byte list boot_env" where
  "pure_env rd = \<lparr>SPIRead = (\<lambda>a n m. (fst (rd m a n), snd (rd m a n), m)),
     SPIEraseSector = (\<lambda>s m. (0, erase_block m 4096 4096)), SPIWrite = (\<lambda>a bs m. (0, prog_block m a bs))\<rparr>"

text \<open>What \<^verbatim>\<open>check_image\<close> says about the contents of the flash.\<close>

definition image_at :: "(byte list \<Rightarrow> nat \<Rightarrow> nat \<Rightarrow> nat \<times> byte list) \<Rightarrow> byte list \<Rightarrow> nat \<Rightarrow> nat" where
  "image_at rd m a = fst (check_image (pure_env rd) a m)"

context boot_flash begin

lemma read_E:
  obtains d' where "SPIRead env a n d = (fst (rd (mem d) a n), snd (rd (mem d) a n), d')" and "mem d' = mem d"
  using read by blast

lemma pure_read: "SPIRead (pure_env rd) a n m = (fst (rd m a n), snd (rd m a n), m)"
  by (simp add: pure_env_def)

lemma section_loop_pure:
  "\<exists>d'. section_loop env n pos c d = (fst (section_loop (pure_env rd) n pos c (mem d)), d') \<and> mem d' = mem d \<and>
     snd (section_loop (pure_env rd) n pos c (mem d)) = mem d"
proof (induction n arbitrary: pos c d rule: less_induct)
  case (less n)
  show ?case
  proof (cases "n = 0")
    case True
    then show ?thesis
      by (simp add: section_loop.simps)
  next
    case False
    let ?k = "if n < 256 then n else 256"
    obtain d1 where d1: "SPIRead env pos ?k d = (fst (rd (mem d) pos ?k), snd (rd (mem d) pos ?k), d1)" "mem d1 = mem d"
      by (rule read_E)
    have "n - ?k < n"
      using False by simp
    from less [OF this, of "add32 pos ?k" "xor_bytes (take ?k (snd (rd (mem d) pos ?k))) c" d1] d1 False show ?thesis
      by (subst (1 2 3) section_loop.simps) (auto simp: pure_read Let_def)
  qed
qed

lemma sections_loop_pure:
  "\<exists>d'. sections_loop env sc cur pos c d = (fst (sections_loop (pure_env rd) sc cur pos c (mem d)), d') \<and> mem d' = mem d \<and>
     snd (sections_loop (pure_env rd) sc cur pos c (mem d)) = mem d"
proof (induction "255 - unat cur" arbitrary: sc cur pos c d rule: less_induct)
  case less
  show ?case
  proof (cases "cur < sc")
    case False
    then show ?thesis
      by (simp add: sections_loop.simps)
  next
    case True
    let ?r = "rd (mem d) pos 8"
    obtain d1 where d1: "SPIRead env pos 8 d = (fst ?r, snd ?r, d1)" "mem d1 = mem d"
      by (rule read_E)
    obtain d2 where d2: "section_loop env (le32_at (snd ?r) 4) (add32 pos 8) c d1 =
        (fst (section_loop (pure_env rd) (le32_at (snd ?r) 4) (add32 pos 8) c (mem d)), d2)" "mem d2 = mem d"
      "snd (section_loop (pure_env rd) (le32_at (snd ?r) 4) (add32 pos 8) c (mem d)) = mem d"
      using section_loop_pure [of "le32_at (snd ?r) 4" "add32 pos 8" c d1] d1(2) by auto
    obtain x where x: "section_loop (pure_env rd) (le32_at (snd ?r) 4) (add32 pos 8) c (mem d) = (x, mem d)"
      using d2(3) by (metis prod.collapse)
    note IH = less [OF byte_inc(3) [OF True]]
    show ?thesis
    proof (cases x)
      case None
      with d1 d2 x True show ?thesis
        by (subst (1 2 3) sections_loop.simps) (auto simp: pure_read)
    next
      case (Some pc)
      obtain p2 c2 where pc: "pc = (p2, c2)"
        by (cases pc)
      let ?r3 = "rd (mem d) p2 8"
      obtain d3 where d3: "SPIRead env p2 8 d2 = (fst ?r3, snd ?r3, d3)" "mem d3 = mem d"
        using read_E [of p2 8 d2] d2(2) by metis
      show ?thesis
        using IH [of "snd ?r3 ! 1 + 1" "add32 p2 8" c2 d3] IH [of sc p2 c2 d2] d1 d2 d3 x True Some pc
        by (subst (1 2 3) sections_loop.simps) (auto simp: pure_read)
    qed
  qed
qed

lemma check_image_pure:
  "\<exists>d'. check_image env a d = (image_at rd (mem d) a, d') \<and> mem d' = mem d"
proof (cases "a = 0 \<or> a = 0xffffffff")
  case True
  then show ?thesis
    by (auto simp: image_at_def check_image_def)
next
  case False
  let ?r = "rd (mem d) a 16"
  obtain d1 where d1: "SPIRead env a 16 d = (fst ?r, snd ?r, d1)" "mem d1 = mem d"
    by (rule read_E)
  let ?sc = "if snd ?r ! 0 = ROM_MAGIC then snd ?r ! 1 else 0xff"
  obtain d2 where d2: "sections_loop env ?sc 0 (add32 a 8) CHKSUM_INIT d1 =
      (fst (sections_loop (pure_env rd) ?sc 0 (add32 a 8) CHKSUM_INIT (mem d)), d2)" "mem d2 = mem d"
    "snd (sections_loop (pure_env rd) ?sc 0 (add32 a 8) CHKSUM_INIT (mem d)) = mem d"
    using sections_loop_pure [of ?sc 0 "add32 a 8" CHKSUM_INIT d1] d1(2) by auto
  obtain x where x: "sections_loop (pure_env rd) ?sc 0 (add32 a 8) CHKSUM_INIT (mem d) = (x, mem d)"
    using d2(3) by (metis prod.collapse)
  show ?thesis
  proof (cases x)
    case None
    then show ?thesis
      using False d1 d2 x by (auto simp: image_at_def check_image_def pure_read Let_def)
  next
    case (Some pc)
    obtain p c where pc: "pc = (p, c)"
      by (cases pc)
    let ?r3 = "rd (mem d) (p - p mod 16 + 15) 1"
    obtain d3 where "SPIRead env (p - p mod 16 + 15) 1 d2 = (fst ?r3, snd ?r3, d3)" "mem d3 = mem d"
      using read_E [of "p - p mod 16 + 15" 1 d2] d2(2) by metis
    then show ?thesis
      using False d1 d2 x Some pc by (auto simp: image_at_def check_image_def pure_read Let_def)
  qed
qed

end

section \<open>The image format\<close>

text \<open>
  A section with its header, and an image: with an irom section in front (the new format) or
  without. \<open>f1\<close>, \<open>f2\<close> are the flash mode bytes, \<open>entry\<close> the entry point.
\<close>

definition section_bytes :: "nat \<times> byte list \<Rightarrow> byte list" where
  "section_bytes s = le32 (fst s) @ le32 (length (snd s)) @ snd s"

definition image_body :: "byte \<Rightarrow> byte \<Rightarrow> nat \<Rightarrow> (nat \<times> byte list) list \<Rightarrow> byte list" where
  "image_body f1 f2 entry secs =
     [ROM_MAGIC, of_nat (length secs), f1, f2] @ le32 entry @ concat (map section_bytes secs)"

definition image_front :: "byte \<Rightarrow> byte \<Rightarrow> nat \<Rightarrow> (nat \<times> byte list) option \<Rightarrow> byte list" where
  "image_front f1 f2 entry irom =
     (case irom of None \<Rightarrow> []
      | Some s \<Rightarrow> [ROM_MAGIC_NEW1, ROM_MAGIC_NEW2, f1, f2] @ le32 entry @ section_bytes s)"

definition image_sum :: "(nat \<times> byte list) option \<Rightarrow> (nat \<times> byte list) list \<Rightarrow> byte" where
  "image_sum irom secs =
     xor_bytes (concat (map snd secs)) (case irom of None \<Rightarrow> CHKSUM_INIT | Some s \<Rightarrow> xor_bytes (snd s) CHKSUM_INIT)"

lemma length_le32 [simp]: "length (le32 v) = 4"
  by (simp add: le32_def)

lemma length_section_bytes [simp]: "length (section_bytes s) = 8 + length (snd s)"
  by (simp add: section_bytes_def)

lemma block_at_split_eq:
  assumes "block_at pos (length xs + length ys) m = xs @ ys" "pos + length xs + length ys \<le> length m"
  shows "block_at pos (length xs) m = xs" "block_at (pos + length xs) (length ys) m = ys"
proof -
  have "block_at pos (length xs) m @ block_at (pos + length xs) (length ys) m = xs @ ys"
    using assms(1) by (simp add: block_at_split)
  moreover have "length (block_at pos (length xs) m) = length xs"
    using assms(2) by (simp add: block_at_length)
  ultimately show "block_at pos (length xs) m = xs" "block_at (pos + length xs) (length ys) m = ys"
    by simp_all
qed

lemma xor_bytes_append: "xor_bytes (xs @ ys) c = xor_bytes ys (xor_bytes xs c)"
  by (simp add: xor_bytes_def)

lemma le32_value:
  assumes "v < 2 ^ 32"
  shows "unat (of_nat v :: byte) + 2 ^ 8 * unat (of_nat (v div 2 ^ 8) :: byte) + 2 ^ 16 * unat (of_nat (v div 2 ^ 16) :: byte)
    + 2 ^ 24 * unat (of_nat (v div 2 ^ 24) :: byte) = v"
proof -
  have d: "v div 65536 = v div 256 div 256" "v div 16777216 = v div 256 div 256 div 256"
    by (simp_all flip: div_mult2_eq)
  have "v div 16777216 < 256"
    using assms by (simp add: less_mult_imp_div_less)
  then have t: "v div 16777216 mod 256 = v div 16777216"
    by simp
  have "x mod 256 + 256 * (x div 256) = x" for x :: nat
    by simp
  from this [of v] this [of "v div 256"] this [of "v div 256 div 256"]
  have "v mod 256 + 256 * (v div 256 mod 256) + 65536 * (v div 65536 mod 256) + 16777216 * (v div 16777216) = v"
    unfolding d by linarith
  with t show ?thesis
    by (simp add: unat_of_nat)
qed

lemma le32_at_le32: "v < 2 ^ 32 \<Longrightarrow> le32_at (le32 a @ le32 v @ xs) 4 = v" "v < 2 ^ 32 \<Longrightarrow> le32_at (le32 v @ xs) 0 = v"
  using le32_value [of v] by (simp_all add: le32_at_def le32_def)

context boot_flash begin

lemma section_loop_sum:
  "pos + n \<le> length m \<Longrightarrow> length m < 2 ^ 32 \<Longrightarrow>
     section_loop (pure_env rd) n pos c m = (Some (pos + n, xor_bytes (block_at pos n m) c), m)"
proof (induction n arbitrary: pos c rule: less_induct)
  case (less n)
  show ?case
  proof (cases "n = 0")
    case True
    then show ?thesis
      by (simp add: section_loop.simps block_at_def xor_bytes_def)
  next
    case False
    define k where "k = (if n < 256 then n else 256)"
    have k: "k \<le> n" "0 < k"
      using False by (simp_all add: k_def)
    have r: "rd m pos k = (0, block_at pos k m)" "add32 pos k = pos + k" "length (block_at pos k m) = k"
      using less.prems k by (simp_all add: read_in add32_no_wrap block_at_length)
    have "block_at pos n m = block_at pos k m @ block_at (pos + k) (n - k) m"
      using block_at_split [of pos k "n - k" m] k(1) by simp
    then show ?thesis
      using less.IH [of "n - k" "pos + k" "xor_bytes (block_at pos k m) c"] less.prems False k r
      by (subst section_loop.simps) (simp add: k_def [symmetric] pure_read xor_bytes_append)
  qed
qed

lemma sections_step:
  assumes "block_at pos (8 + length (snd s)) m = section_bytes s" "pos + 8 + length (snd s) \<le> length m" "length m < 2 ^ 32"
    and "cur < sc"
  shows "sections_loop (pure_env rd) sc cur pos c m =
    (if sc = 0xff then
       (let (r3, header, d3) = SPIRead (pure_env rd) (pos + 8 + length (snd s)) 8 m
        in if r3 \<noteq> 0 then (None, d3)
           else sections_loop (pure_env rd) (header ! 1 + 1) (cur + 1) (add32 (pos + 8 + length (snd s)) 8) (xor_bytes (snd s) c) d3)
     else sections_loop (pure_env rd) sc (cur + 1) (pos + 8 + length (snd s)) (xor_bytes (snd s) c) m)"
proof -
  have b: "block_at pos 8 m = le32 (fst s) @ le32 (length (snd s))" "block_at (pos + 8) (length (snd s)) m = snd s"
    using block_at_split_eq [of pos "le32 (fst s) @ le32 (length (snd s))" "snd s" m] assms(1,2)
    by (simp_all add: section_bytes_def add.assoc)
  have "length (snd s) < 2 ^ 32"
    using assms(2,3) by simp
  then have v: "le32_at (block_at pos 8 m) 4 = length (snd s)"
    using le32_at_le32(1) [of "length (snd s)" "fst s" "[]"] b(1) by simp
  have r: "rd m pos 8 = (0, block_at pos 8 m)" "add32 pos 8 = pos + 8"
    using assms(2,3) by (simp_all add: read_in add32_no_wrap)
  have "section_loop (pure_env rd) (length (snd s)) (pos + 8) c m = (Some (pos + 8 + length (snd s), xor_bytes (snd s) c), m)"
    using section_loop_sum [of "pos + 8" "length (snd s)" m c] assms(2,3) b(2) by simp
  with assms(4) r v show ?thesis
    by (subst sections_loop.simps) (simp add: pure_read)
qed

lemma sections_loop_sum:
  assumes "block_at pos (length (concat (map section_bytes secs))) m = concat (map section_bytes secs)"
    and "pos + length (concat (map section_bytes secs)) \<le> length m" "length m < 2 ^ 32"
    and "unat cur + length secs = unat sc" "sc \<noteq> 0xff"
  shows "sections_loop (pure_env rd) sc cur pos c m =
    (Some (pos + length (concat (map section_bytes secs)), xor_bytes (concat (map snd secs)) c), m)"
  using assms(1,2,4)
proof (induction secs arbitrary: pos cur c)
  case Nil
  then have "\<not> cur < sc"
    by (simp add: word_less_nat_alt)
  then show ?case
    by (simp add: sections_loop.simps xor_bytes_def)
next
  case (Cons s secs)
  let ?l = "8 + length (snd s)" and ?r = "concat (map section_bytes secs)"
  have b: "block_at pos ?l m = section_bytes s" "block_at (pos + ?l) (length ?r) m = ?r"
    using block_at_split_eq [of pos "section_bytes s" ?r m] Cons.prems(1,2) by (simp_all add: add.assoc)
  have lt: "cur < sc"
    using Cons.prems(3) by (simp add: word_less_nat_alt)
  have u: "unat (cur + 1) + length secs = unat sc"
    using byte_inc(1) [OF lt] Cons.prems(3) by simp
  show ?case
    using sections_step [OF b(1) _ assms(3) lt, of c] Cons.IH [OF b(2) _ u, of "xor_bytes (snd s) c"] Cons.prems(2) assms(5)
    by (simp add: xor_bytes_append add.assoc)
qed

end

lemma nth_block_at: "i < n \<Longrightarrow> a + n \<le> length m \<Longrightarrow> block_at a n m ! i = m ! (a + i)"
  by (simp add: block_at_def)

lemma nth_of_block: "block_at a (length bs) m = bs \<Longrightarrow> i < length bs \<Longrightarrow> a + length bs \<le> length m \<Longrightarrow> m ! (a + i) = bs ! i"
  using nth_block_at [of i "length bs" a m] by simp

lemma length_image_body: "length (image_body f1 f2 e secs) = 8 + length (concat (map section_bytes secs))"
  by (simp add: image_body_def)

lemma length_image_front: "length (image_front f1 f2 e irom) = (case irom of None \<Rightarrow> 0 | Some s \<Rightarrow> 16 + length (snd s))"
  by (simp add: image_front_def split: option.split)

text \<open>The end of a checked image: its last byte is at the end of a block of 16.\<close>

definition sum_pos :: "nat \<Rightarrow> nat" where
  "sum_pos p = p - p mod 16 + 15"

lemma le_sum_pos: "p \<le> sum_pos p"
  using mod_less_divisor [of 16 p] by (simp add: sum_pos_def)

definition flash_image ::
  "byte list \<Rightarrow> nat \<Rightarrow> byte \<Rightarrow> byte \<Rightarrow> nat \<Rightarrow> (nat \<times> byte list) option \<Rightarrow> (nat \<times> byte list) list \<Rightarrow> bool" where
  "flash_image m a f1 f2 e irom secs \<longleftrightarrow>
     (let img = image_front f1 f2 e irom @ image_body f1 f2 e secs
      in block_at a (length img) m = img \<and> sum_pos (a + length img) < length m)"

context boot_flash begin

lemma sections_body:
  assumes "block_at a (length (image_body f1 f2 e secs)) m = image_body f1 f2 e secs"
    and "a + length (image_body f1 f2 e secs) \<le> length m" "length m < 2 ^ 32"
    and "unat cur + length secs = unat sc" "sc \<noteq> 0xff"
  shows "sections_loop (pure_env rd) sc cur (a + 8) c m =
    (Some (a + length (image_body f1 f2 e secs), xor_bytes (concat (map snd secs)) c), m)"
proof -
  let ?r = "concat (map section_bytes secs)"
  have "block_at (a + 8) (length ?r) m = ?r"
    using block_at_split_eq(2) [of a "[ROM_MAGIC, of_nat (length secs), f1, f2] @ le32 e" ?r m] assms(1,2)
    by (simp add: image_body_def add.assoc)
  with assms sections_loop_sum [of "a + 8" secs m cur sc c] show ?thesis
    by (simp add: length_image_body add.assoc)
qed

lemma check_sum:
  assumes "a \<noteq> 0" "a \<noteq> 0xffffffff" "a + 16 \<le> length m" "length m < 2 ^ 32" "sum_pos p < length m"
    and "m ! a = ROM_MAGIC \<or> m ! a = ROM_MAGIC_NEW1 \<and> m ! (a + 1) = ROM_MAGIC_NEW2"
    and "sections_loop (pure_env rd) (if m ! a = ROM_MAGIC then m ! (a + 1) else 0xff) 0 (a + 8) CHKSUM_INIT m = (Some (p, c), m)"
  shows "image_at rd m a =
    (if m ! sum_pos p = c then if m ! a = ROM_MAGIC then a else add32 (add32 a (le32_at (block_at a 16 m) 12)) 16 else 0)"
proof -
  have r: "rd m a 16 = (0, block_at a 16 m)" "rd m (sum_pos p) 1 = (0, block_at (sum_pos p) 1 m)" "add32 a 8 = a + 8"
    using assms(3-5) by (simp_all add: read_in add32_no_wrap)
  have h: "block_at a 16 m ! 0 = m ! a" "block_at a 16 m ! Suc 0 = m ! (a + 1)" "block_at (sum_pos p) 1 m ! 0 = m ! sum_pos p"
    using assms(3,5) nth_block_at [of 0 16 a m] nth_block_at [of 1 16 a m] nth_block_at [of 0 1 "sum_pos p" m] by simp_all
  show ?thesis
    using assms(1,2,6,7) r h
    by (auto simp: image_at_def check_image_def pure_read sum_pos_def [symmetric] Let_def)
qed

lemma check_image_old:
  assumes "flash_image m a f1 f2 e None secs" "length secs < 255" "length m < 2 ^ 32" "a \<noteq> 0" "a + 16 \<le> length m"
  shows "image_at rd m a = (if m ! sum_pos (a + length (image_body f1 f2 e secs)) = image_sum None secs then a else 0)"
proof -
  let ?b = "image_body f1 f2 e secs"
  have b: "block_at a (length ?b) m = ?b" and p: "sum_pos (a + length ?b) < length m"
    using assms(1) by (simp_all add: flash_image_def image_front_def Let_def)
  have le: "a + length ?b \<le> length m"
    using le_sum_pos [of "a + length ?b"] p by simp
  have h: "m ! a = ROM_MAGIC" "m ! (a + 1) = of_nat (length secs)"
    using nth_of_block [OF b _ le, of 0] nth_of_block [OF b _ le, of 1] by (simp_all add: image_body_def)
  have u: "unat (0 :: byte) + length secs = unat (of_nat (length secs) :: byte)" "(of_nat (length secs) :: byte) \<noteq> 0xff"
    using assms(2) by (auto simp: unat_of_nat dest: arg_cong [where f = unat])
  show ?thesis
    using check_sum [OF assms(4) _ assms(5,3) p, of "image_sum None secs"] assms(3,5) h
      sections_body [OF b le assms(3) u, of CHKSUM_INIT] by (simp add: image_sum_def)
qed

lemma check_image_new:
  assumes "flash_image m a f1 f2 e (Some s) secs" "length secs < 254" "length m < 2 ^ 32" "a \<noteq> 0"
  shows "image_at rd m a =
    (if m ! sum_pos (a + 16 + length (snd s) + length (image_body f1 f2 e secs)) = image_sum (Some s) secs
     then a + 16 + length (snd s) else 0)"
proof -
  let ?f = "image_front f1 f2 e (Some s)" and ?b = "image_body f1 f2 e secs" and ?h = "[ROM_MAGIC_NEW1, ROM_MAGIC_NEW2, f1, f2] @ le32 e"
  let ?q = "a + 16 + length (snd s)"
  have lf: "length ?f = 16 + length (snd s)"
    by (simp add: length_image_front)
  have fb: "block_at a (length ?f + length ?b) m = ?f @ ?b" and p: "sum_pos (?q + length ?b) < length m"
    using assms(1) lf by (simp_all add: flash_image_def Let_def add.assoc)
  have le: "?q + length ?b \<le> length m"
    using le_sum_pos [of "?q + length ?b"] p by simp
  have f: "block_at a (length ?f) m = ?f" and b: "block_at ?q (length ?b) m = ?b"
    using block_at_split_eq [OF fb] le lf by (simp_all add: add.assoc)
  have fe: "?f = ?h @ section_bytes s"
    by (simp add: image_front_def)
  have sb: "block_at (a + 8) (8 + length (snd s)) m = section_bytes s"
    using block_at_split_eq(2) [of a ?h "section_bytes s" m] f fe lf le by (simp add: add.assoc)
  have lef: "a + length ?f \<le> length m"
    using le lf by simp
  have h: "m ! a = ROM_MAGIC_NEW1" "m ! (a + 1) = ROM_MAGIC_NEW2"
    using nth_of_block [OF f _ lef, of 0] nth_of_block [OF f _ lef, of 1] lf by (simp_all add: fe)
  have hq: "m ! (?q + 1) = of_nat (length secs)"
    using nth_of_block [OF b _ le, of 1] by (simp add: image_body_def)
  have bl: "8 \<le> length ?b"
    by (simp add: length_image_body)
  have r: "rd m ?q 8 = (0, block_at ?q 8 m)" "block_at ?q 8 m ! 1 = of_nat (length secs)" "add32 ?q 8 = ?q + 8"
    using le bl hq assms(3) nth_block_at [of 1 8 ?q m] by (simp_all add: read_in add32_no_wrap)
  let ?sc = "of_nat (length secs) + 1 :: byte"
  have u: "unat (1 :: byte) + length secs = unat ?sc" "?sc \<noteq> 0xff"
    using assms(2) by (auto simp: unat_word_ariths unat_of_nat dest: arg_cong [where f = unat])
  have "sections_loop (pure_env rd) 0xff 0 (a + 8) CHKSUM_INIT m =
      (Some (?q + length ?b, xor_bytes (concat (map snd secs)) (xor_bytes (snd s) CHKSUM_INIT)), m)"
    using sections_step [OF sb _ assms(3), of 0 "0xff" CHKSUM_INIT] le bl r
      sections_body [OF b le assms(3) u, of "xor_bytes (snd s) CHKSUM_INIT"]
    by (simp add: pure_read add.assoc)
  then have k: "sections_loop (pure_env rd) (if m ! a = ROM_MAGIC then m ! (a + 1) else 0xff) 0 (a + 8) CHKSUM_INIT m =
      (Some (?q + length ?b, image_sum (Some s) secs), m)"
    using h by (simp add: image_sum_def)
  have "block_at a 16 m = ?h @ le32 (fst s) @ le32 (length (snd s))"
    using block_at_split_eq(1) [of a "?h @ le32 (fst s) @ le32 (length (snd s))" "snd s" m] f fe lf le
    by (simp add: section_bytes_def)
  then have l: "le32_at (block_at a 16 m) 12 = length (snd s)"
    using le32_value [of "length (snd s)"] le assms(3) by (simp add: le32_at_def le32_def)
  show ?thesis
    using check_sum [OF assms(4) _ _ assms(3) p _ k] h l le bl assms(3) by (simp add: add32_no_wrap)
qed

end

section \<open>Loading\<close>

definition load_all :: "(nat \<times> byte list) list \<Rightarrow> ram \<Rightarrow> ram" where
  "load_all secs m = foldl (\<lambda>m s. ets_memcpy (fst s) (snd s) m) m secs"

lemma ets_memcpy_Nil [simp]: "ets_memcpy a [] m = m"
  by (rule ext) (auto simp: ets_memcpy_def)

lemma ets_memcpy_append: "ets_memcpy (a + length xs) ys (ets_memcpy a xs m) = ets_memcpy a (xs @ ys) m"
  by (rule ext) (auto simp: ets_memcpy_def nth_append)

lemma block_at_0 [simp]: "block_at a 0 m = []"
  by (simp add: block_at_def)

context boot_flash begin

lemma load_section_copies:
  "pos + n \<le> length (mem d) \<Longrightarrow> length (mem d) < 2 ^ 32 \<Longrightarrow> w + n < 2 ^ 32 \<Longrightarrow>
     \<exists>d'. load_section env n pos w r d = (pos + n, ets_memcpy w (block_at pos n (mem d)) r, d') \<and> mem d' = mem d"
proof (induction n arbitrary: pos w r d rule: less_induct)
  case (less n)
  show ?case
  proof (cases "n = 0")
    case True
    then show ?thesis
      by (simp add: load_section.simps)
  next
    case False
    define k where "k = (if n < 256 then n else 256)"
    have k: "k \<le> n" "0 < k"
      using False by (simp_all add: k_def)
    obtain d1 where d1: "SPIRead env pos k d = (0, block_at pos k (mem d), d1)" "mem d1 = mem d"
      using read_E [of pos k d] read_in [of pos k "mem d"] less.prems(1) k(1) by auto
    have a: "add32 pos k = pos + k" "add32 w k = w + k" and l: "length (block_at pos k (mem d)) = k"
      using less.prems k by (simp_all add: add32_no_wrap block_at_length)
    have sp: "block_at pos n (mem d) = block_at pos k (mem d) @ block_at (pos + k) (n - k) (mem d)"
      using block_at_split [of pos k "n - k" "mem d"] k(1) by simp
    let ?r = "ets_memcpy w (block_at pos k (mem d)) r"
    have "load_section env n pos w r d = load_section env (n - k) (pos + k) (w + k) ?r d1"
      using False d1(1) a l by (subst load_section.simps) (simp add: k_def [symmetric])
    moreover have "\<exists>d'. load_section env (n - k) (pos + k) (w + k) ?r d1 =
        (pos + n, ets_memcpy (w + k) (block_at (pos + k) (n - k) (mem d)) ?r, d') \<and> mem d' = mem d"
      using less.IH [of "n - k" "pos + k" d1 "w + k" ?r] less.prems k d1(2) by simp
    ultimately show ?thesis
      using ets_memcpy_append [of w "block_at pos k (mem d)" "block_at (pos + k) (n - k) (mem d)" r] l sp by simp
  qed
qed

lemma load_sections_copy:
  assumes "length (mem d) < 2 ^ 32"
    and "block_at pos (length (concat (map section_bytes secs))) (mem d) = concat (map section_bytes secs)"
    and "pos + length (concat (map section_bytes secs)) \<le> length (mem d)"
    and "\<forall>s\<in>set secs. fst s + length (snd s) < 2 ^ 32"
  shows "\<exists>d'. load_sections env (length secs) pos r d = (load_all secs r, d') \<and> mem d' = mem d"
  using assms
proof (induction secs arbitrary: pos r d)
  case (Cons s secs)
  let ?l = "8 + length (snd s)" and ?r = "concat (map section_bytes secs)" and ?m = "mem d"
  have b: "block_at pos ?l ?m = section_bytes s" "block_at (pos + ?l) (length ?r) ?m = ?r"
    using block_at_split_eq [of pos "section_bytes s" ?r ?m] Cons.prems(2,3) by (simp_all add: add.assoc)
  have h: "block_at pos 8 ?m = le32 (fst s) @ le32 (length (snd s))" "block_at (pos + 8) (length (snd s)) ?m = snd s"
    using block_at_split_eq [of pos "le32 (fst s) @ le32 (length (snd s))" "snd s" ?m] b(1) Cons.prems(3)
    by (simp_all add: section_bytes_def add.assoc)
  have v: "le32_at (block_at pos 8 ?m) 4 = length (snd s)" "le32_at (block_at pos 8 ?m) 0 = fst s"
    using le32_at_le32(1) [of "length (snd s)" "fst s" "[]"] le32_at_le32(2) [of "fst s" "le32 (length (snd s))"]
      h(1) Cons.prems(4) by simp_all
  obtain d1 where d1: "SPIRead env pos 8 d = (0, block_at pos 8 ?m, d1)" "mem d1 = ?m"
    using read_E [of pos 8 d] read_in [of pos 8 ?m] Cons.prems(3) by auto
  obtain d2 where d2: "load_section env (length (snd s)) (pos + 8) (fst s) r d1 =
      (pos + ?l, ets_memcpy (fst s) (snd s) r, d2)" "mem d2 = ?m"
    using load_section_copies [of "pos + 8" "length (snd s)" d1 "fst s" r] d1(2) h(2) Cons.prems by (auto simp: add.assoc)
  have "add32 pos 8 = pos + 8"
    using Cons.prems(1,3) by (simp add: add32_no_wrap)
  then have "load_sections env (length (s # secs)) pos r d = load_sections env (length secs) (pos + ?l) (ets_memcpy (fst s) (snd s) r) d2"
    using d1(1) d2(1) v by simp
  moreover have "\<exists>d'. load_sections env (length secs) (pos + ?l) (ets_memcpy (fst s) (snd s) r) d2 =
      (load_all (s # secs) r, d') \<and> mem d' = ?m"
    using Cons.IH [of d2 "pos + ?l" "ets_memcpy (fst s) (snd s) r"] b(2) d2(2) Cons.prems
    by (simp add: load_all_def add.assoc)
  ultimately show ?case
    by simp
qed (simp add: load_all_def)

lemma load_rom_image:
  assumes "length (mem d) < 2 ^ 32" "block_at q (length (image_body f1 f2 e secs)) (mem d) = image_body f1 f2 e secs"
    and "q + length (image_body f1 f2 e secs) \<le> length (mem d)"
    and "length secs < 256" "e < 2 ^ 32" "\<forall>s\<in>set secs. fst s + length (snd s) < 2 ^ 32"
  shows "\<exists>d'. load_rom env q r d = (e, load_all secs r, d') \<and> mem d' = mem d"
proof -
  let ?h = "[ROM_MAGIC, of_nat (length secs), f1, f2] @ le32 e" and ?r = "concat (map section_bytes secs)"
  have b: "block_at q 8 (mem d) = ?h" "block_at (q + 8) (length ?r) (mem d) = ?r"
    using block_at_split_eq [of q ?h ?r "mem d"] assms(2,3) by (simp_all add: image_body_def add.assoc)
  have h: "unat (block_at q 8 (mem d) ! 1) = length secs" "le32_at (block_at q 8 (mem d)) 4 = e"
    using assms(4,5) le32_value [of e] b(1) by (simp_all add: unat_of_nat le32_at_def le32_def)
  obtain d1 where d1: "SPIRead env q 8 d = (0, block_at q 8 (mem d), d1)" "mem d1 = mem d"
    using read_E [of q 8 d] read_in [of q 8 "mem d"] assms(3) by (auto simp: length_image_body)
  have "add32 q 8 = q + 8"
    using assms(1,3) by (simp add: add32_no_wrap length_image_body)
  moreover obtain d2 where "load_sections env (length secs) (q + 8) r d1 = (load_all secs r, d2)" "mem d2 = mem d"
    using load_sections_copy [of d1 "q + 8" secs r] assms d1(2) b(2) by (auto simp: length_image_body add.assoc)
  ultimately show ?thesis
    using d1(1) h by (simp add: load_rom_def)
qed

end

end
