(* ===== verification/Rboot_Boot.thy ===== *)
theory Rboot_Boot
  imports Rboot_Image
begin

text \<open>
  How the boot loader chooses an image: the order of the roms, the effects on the configuration
  sector and on RTC memory, temporary boots, the default configuration, and the states it cannot
  leave. The properties of the boot loader are at the end, with a chip on which they are tried.
\<close>

section \<open>The order in which images are tried\<close>

text \<open>From the current rom downwards, wrapping to the last one.\<close>

definition tries :: "nat \<Rightarrow> nat \<Rightarrow> nat list" where
  "tries count cur = map (\<lambda>k. (cur + count - k) mod count) [0..<count]"

definition good_rom :: "(byte list \<Rightarrow> nat \<Rightarrow> nat \<Rightarrow> nat \<times> byte list) \<Rightarrow> byte list \<Rightarrow> byte list \<Rightarrow> nat \<Rightarrow> bool" where
  "good_rom rd m conf r \<longleftrightarrow> image_at rd m (cf_rom conf (int r)) \<noteq> 0"

lemma rom_succ:
  assumes "cur < count" "k < count"
  shows "(let r1 = int ((cur + count - k) mod count) - 1 in if r1 < 0 then int count - 1 else r1) =
    int ((cur + count - Suc k) mod count)"
proof -
  define x where "x = cur + count - Suc k"
  have x: "cur + count - k = Suc x"
    using assms by (simp add: x_def)
  have c: "0 < count"
    using assms by simp
  show ?thesis
  proof (cases "Suc x mod count = 0")
    case True
    then have "x mod count = count - 1"
      using c by (metis Suc_pred add_diff_cancel_left' diff_Suc_1 mod_Suc plus_1_eq_Suc nat.distinct(1))
    with True x c show ?thesis
      by (simp add: x_def [symmetric] of_nat_diff)
  next
    case False
    then have "Suc x mod count = Suc (x mod count)"
      by (metis mod_Suc)
    with x show ?thesis
      by (simp add: x_def [symmetric])
  qed
qed

context boot_flash begin

lemma rom_loop_finds:
  assumes "unat (cf_count conf) = count" "unat (cf_current_rom conf) = cur" "cur < count" "k < count"
  shows "\<exists>d'. mem d' = mem d \<and>
    rom_loop env conf (int ((cur + count - k) mod count)) d =
      Some (map_option (\<lambda>r. (image_at rd (mem d) (cf_rom conf (int r)), int r))
        (List.find (good_rom rd (mem d) conf) (map (\<lambda>j. (cur + count - j) mod count) [Suc k..<count])), d')"
  using assms(4)
proof (induction "count - k" arbitrary: k d rule: less_induct)
  case less
  let ?r = "(cur + count - Suc k) mod count"
  have u: "uint (cf_count conf) = int count" "uint (cf_current_rom conf) = int cur"
    using assms(1,2) by auto
  have step: "rom_loop env conf (int ((cur + count - k) mod count)) d =
    (if ?r = cur then Some (None, d)
     else let (runAddr, d1) = check_image env (cf_rom conf (int ?r)) d
       in if runAddr = 0 then rom_loop env conf (int ?r) d1 else Some (Some (runAddr, int ?r), d1))"
    by (subst rom_loop.simps)
      (simp only: u Let_def rom_succ [OF assms(3) less.prems, unfolded Let_def] of_nat_eq_iff)
  show ?case
  proof (cases "Suc k = count")
    case True
    then have "?r = cur"
      using assms(3) by simp
    with step True show ?thesis
      by auto
  next
    case False
    then have k: "Suc k < count"
      using less.prems by simp
    have ne: "?r \<noteq> cur"
    proof (cases "Suc k \<le> cur")
      case True
      then have "cur + count - Suc k = (cur - Suc k) + count"
        by simp
      then have "?r = cur - Suc k"
        using assms(3) by (simp only: mod_add_self2) simp
      with True show ?thesis by simp
    next
      case False
      then have "cur + count - Suc k < count"
        using assms(3) by simp
      then show ?thesis
        using k by simp
    qed
    obtain d1 where d1: "check_image env (cf_rom conf (int ?r)) d = (image_at rd (mem d) (cf_rom conf (int ?r)), d1)"
      "mem d1 = mem d"
      using check_image_pure by blast
    have up: "[Suc k..<count] = Suc k # [Suc (Suc k)..<count]"
      using k by (simp add: upt_conv_Cons)
    show ?thesis
    proof (cases "good_rom rd (mem d) conf ?r")
      case True
      with step ne d1 up show ?thesis
        by (auto simp: good_rom_def)
    next
      case False
      have "count - Suc k < count - k"
        using less.prems by simp
      from less.hyps [OF this k, of d1] step ne d1 up False show ?thesis
        by (auto simp: good_rom_def)
    qed
  qed
qed

lemma boot_first_good:
  assumes "unat (cf_count conf) = count" "unat (cf_current_rom conf) = cur" "cur < count"
  shows "\<exists>d'. mem d' = mem d \<and>
    (let (runAddr, d1) = check_image env (cf_rom conf (int cur)) d
     in if runAddr = 0 then rom_loop env conf (int cur) d1 else Some (Some (runAddr, int cur), d1)) =
      Some (map_option (\<lambda>r. (image_at rd (mem d) (cf_rom conf (int r)), int r))
        (List.find (good_rom rd (mem d) conf) (tries count cur)), d')"
proof -
  obtain d1 where d1: "check_image env (cf_rom conf (int cur)) d = (image_at rd (mem d) (cf_rom conf (int cur)), d1)"
    "mem d1 = mem d"
    using check_image_pure by blast
  have t: "tries count cur = cur # map (\<lambda>j. (cur + count - j) mod count) [1..<count]"
    using assms(3) by (simp add: tries_def upt_conv_Cons)
  show ?thesis
    using rom_loop_finds [OF assms, of 0 d1] assms(3) d1 t by (auto simp: good_rom_def)
qed

end

section \<open>Writing fields\<close>

lemma length_put_at [simp]: "i + length vs \<le> length bs \<Longrightarrow> length (put_at i vs bs) = length bs"
  by (simp add: put_at_def)

lemma nth_put_at:
  "i + length vs \<le> length bs \<Longrightarrow> j < length bs \<Longrightarrow>
     put_at i vs bs ! j = (if i \<le> j \<and> j < i + length vs then vs ! (j - i) else bs ! j)"
  by (auto simp: put_at_def nth_append)

lemma nth_put_at_before: "j < i \<Longrightarrow> i \<le> length bs \<Longrightarrow> put_at i vs bs ! j = bs ! j"
  by (simp add: put_at_def nth_append)

lemma take_put_at: "k \<le> i \<Longrightarrow> i \<le> length bs \<Longrightarrow> take k (put_at i vs bs) = take k bs"
  by (simp add: put_at_def min_def)

lemma block_put_at: "i + length vs \<le> length bs \<Longrightarrow> block_at i (length vs) (put_at i vs bs) = vs"
  by (simp add: put_at_def block_at_def)

lemma seal_config_valid:
  assumes "25 \<le> length c" "c ! 0 = BOOT_CONFIG_MAGIC" "c ! 1 = BOOT_CONFIG_VERSION"
  shows "config_valid (seal_config c)"
  using assms by (simp add: config_valid_def seal_config_def cf_chksum_def nth_put_at_before nth_put_at [of 24] take_put_at)

lemma seal_rtc_valid: "9 \<le> length r \<Longrightarrow> rtc_valid (seal_rtc r)"
  by (simp add: rtc_valid_def seal_rtc_def rt_chksum_def nth_put_at take_put_at)

text \<open>The copy loops move whole blocks.\<close>

lemma block_at_Suc4: "block_at a (4 * Suc n) xs = block_at a (4 * n) xs @ block_at (a + 4 * n) 4 xs"
  using block_at_split [of a "4 * n" 4 xs] by (simp add: add.commute)

lemma rtc_copy_read:
  "4 * n \<le> length buff \<Longrightarrow> 4 * (base + n) \<le> length rtc \<Longrightarrow>
     rtc_copy False base n buff rtc = (block_at (4 * base) (4 * n) rtc @ drop (4 * n) buff, rtc)"
proof (induction n arbitrary: buff)
  case (Suc n)
  let ?b = "put_at (4 * n) (block_at (4 * (base + n)) 4 rtc) buff"
  have l: "length (block_at (4 * (base + n)) 4 rtc) = 4"
    using Suc.prems(2) by (simp add: block_at_length)
  have "drop (4 * n) ?b = block_at (4 * (base + n)) 4 rtc @ drop (4 * Suc n) buff"
    using Suc.prems(1) l by (simp add: put_at_def add.commute)
  moreover have "4 * n \<le> length ?b" "4 * (base + n) \<le> length rtc"
    using Suc.prems l by simp_all
  ultimately have "rtc_copy False base n ?b rtc =
      (block_at (4 * base) (4 * n) rtc @ block_at (4 * (base + n)) 4 rtc @ drop (4 * Suc n) buff, rtc)"
    using Suc.IH [of ?b] by simp
  then show ?case
    using block_at_Suc4 [of "4 * base" n rtc] by (simp add: distrib_left)
qed (simp add: block_at_def)

lemma put_at_append:
  assumes "i + length xs + length ys \<le> length bs"
  shows "put_at i xs (put_at (i + length xs) ys bs) = put_at i (xs @ ys) bs"
  using assms by (simp add: put_at_def min_def add.assoc)

lemma rtc_copy_write:
  "4 * n \<le> length buff \<Longrightarrow> 4 * (base + n) \<le> length rtc \<Longrightarrow>
     rtc_copy True base n buff rtc = (buff, put_at (4 * base) (take (4 * n) buff) rtc)"
proof (induction n arbitrary: rtc)
  case (Suc n)
  let ?x = "block_at (4 * n) 4 buff"
  have l: "length ?x = 4" "length (take (4 * n) buff) = 4 * n"
    using Suc.prems(1) by (simp_all add: block_at_length)
  have "put_at (4 * base) (take (4 * n) buff) (put_at (4 * base + 4 * n) ?x rtc) =
      put_at (4 * base) (take (4 * n) buff @ ?x) rtc"
    using put_at_append [of "4 * base" "take (4 * n) buff" ?x rtc] Suc.prems l by simp
  moreover have "take (4 * n) buff @ ?x = take (4 * Suc n) buff"
    by (simp add: block_at_def take_add add.commute [of 4])
  ultimately show ?case
    using Suc.IH [of "put_at (4 * (base + n)) ?x rtc"] Suc.prems l by (simp add: distrib_left)
qed (simp add: put_at_def)

lemma rtc_access:
  assumes "length rtcm = 768" "length buff = 12"
  shows "system_rtc_mem RBOOT_RTC_ADDR buff (int RTC_LEN) False rtcm = (True, block_at 256 12 rtcm, rtcm)"
    and "store_rtc buff rtcm = put_at 256 buff rtcm"
  using assms rtc_copy_read [of 3 buff 64 rtcm] rtc_copy_write [of 3 buff 64 rtcm]
  by (simp_all add: system_rtc_mem_def store_rtc_def)

section \<open>The choice of an image\<close>

context boot_flash begin

lemma write_config_mem:
  assumes "length c = 4096" "8192 \<le> length (mem d)"
  shows "mem (write_config env c d) = put_at 4096 c (mem d)"
proof -
  have "prog_block (erase_block (mem d) 4096 4096) 4096 c = put_at 4096 c (mem d)"
    using assms map2_and_ff [of c] by (simp add: prog_block_def erase_block_def block_at_def put_at_def)
  then show ?thesis
    using assms erase [OF assms(2)] program [of "snd (SPIEraseSector env 1 d)" c]
    by (simp add: write_config_def)
qed

lemma read_config_valid:
  assumes "8192 \<le> length (mem d)" "config_valid (block_at 4096 4096 (mem d))"
  shows "\<exists>d'. read_config env fs d = (block_at 4096 4096 (mem d), d') \<and> mem d' = mem d"
proof -
  obtain d' where "SPIRead env 4096 4096 d = (0, block_at 4096 4096 (mem d), d')" "mem d' = mem d"
    using read_E [of 4096 4096 d] read_in [of 4096 4096 "mem d"] assms(1) by auto
  then show ?thesis
    using assms(2) by (simp add: read_config_def)
qed

lemma boot_rom_effect:
  fixes s rtc romconf temp upd addr r
  defines "s' \<equiv> snd (boot_rom env romconf rtc temp upd addr (int r) s)"
  assumes "length rtc = 12" "length (brtc s) = 768" "length romconf = 4096" "8192 \<le> length (mem (bflash s))"
  shows "fst (boot_rom env romconf rtc temp upd addr (int r) s) = addr"
    and "mem (bflash s') = (if upd then put_at 4096 (seal_config (put_at 3 [of_nat r] romconf)) (mem (bflash s)) else mem (bflash s))"
    and "rtc_valid (block_at 256 12 (brtc s'))" "rt_next_mode (block_at 256 12 (brtc s')) = MODE_STANDARD"
    and "rt_last_rom (block_at 256 12 (brtc s')) = of_nat r"
    and "rt_last_mode (block_at 256 12 (brtc s')) = (if temp then MODE_TEMP_ROM else MODE_STANDARD)"
proof -
  let ?lm = "if temp then MODE_STANDARD OR MODE_TEMP_ROM else MODE_STANDARD"
  let ?r0 = "put_at 0 (le32 RBOOT_RTC_MAGIC @ [MODE_STANDARD, ?lm, of_nat r, 0]) rtc"
  let ?c = "seal_config (put_at 3 [of_nat r] romconf)"
  have l: "length ?r0 = 12" "length (seal_rtc ?r0) = 12" "length ?c = 4096"
    using assms(2,4) by (simp_all add: seal_rtc_def seal_config_def le32_def)
  have b: "block_at 256 12 (brtc s') = seal_rtc ?r0"
    using rtc_access(2) [OF assms(3) l(2)] block_put_at [of 256 "seal_rtc ?r0" "brtc s"] l(2) assms(3)
    by (simp add: s'_def boot_rom_def Let_def)
  show "fst (boot_rom env romconf rtc temp upd addr (int r) s) = addr"
    by (simp add: boot_rom_def Let_def)
  show "mem (bflash s') = (if upd then put_at 4096 ?c (mem (bflash s)) else mem (bflash s))"
    using write_config_mem [OF l(3) assms(5)] by (simp add: s'_def boot_rom_def Let_def)
  show "rtc_valid (block_at 256 12 (brtc s'))"
    using b l(1) by (simp add: seal_rtc_valid)
  have f: "?r0 ! 4 = MODE_STANDARD" "?r0 ! 5 = ?lm" "?r0 ! 6 = of_nat r"
    using assms(2) by (simp_all add: put_at_def le32_def)
  then show "rt_next_mode (block_at 256 12 (brtc s')) = MODE_STANDARD" "rt_last_rom (block_at 256 12 (brtc s')) = of_nat r"
    "rt_last_mode (block_at 256 12 (brtc s')) = (if temp then MODE_TEMP_ROM else MODE_STANDARD)"
    using b l(1) by (simp_all add: rt_next_mode_def rt_last_rom_def rt_last_mode_def seal_rtc_def nth_put_at_before)
qed

text \<open>Up to the check of the rom number, for a valid configuration.\<close>

lemma find_image_start:
  fixes stack s
  defines "m \<equiv> mem (bflash s)"
  defines "conf \<equiv> block_at 4096 4096 m" and "rtc \<equiv> block_at 256 12 (brtc s)"
  assumes "8192 \<le> length m" "config_valid conf" and "length stack = 12" "length (brtc s) = 768"
  shows "\<exists>d. mem d = m \<and> find_image env stack s =
    (let temp = (rtc_valid rtc \<and> rt_next_mode rtc AND MODE_TEMP_ROM \<noteq> 0)
     in if temp \<and> rt_temp_rom rtc \<ge> cf_count conf then Some (0, s\<lparr>bflash := d\<rparr>)
        else choose_image env conf rtc temp (s\<lparr>bflash := d\<rparr>))"
proof -
  obtain d1 where d1: "SPIRead env 0 8 (bflash s) = (fst (rd m 0 8), snd (rd m 0 8), d1)" "mem d1 = m"
    unfolding m_def by (rule read_E)
  obtain d where d: "read_config env (flash_size (snd (rd m 0 8) ! 3)) d1 = (conf, d)" "mem d = m"
    using read_config_valid [of d1] assms(4,5) d1(2) unfolding conf_def by metis
  show ?thesis
    by (rule exI [of _ d]) (simp only: find_image_def d d1(1) Let_def prod.case rtc_access(1) [OF assms(7,6)]
        rtc_def [symmetric] simp_thms)
qed

lemma choose_image_standard:
  fixes s conf
  defines "m \<equiv> mem (bflash s)"
  assumes "8192 \<le> length m" "length conf = 4096" "length rtc = 12" "length (brtc s) = 768"
    and "unat (cf_count conf) = count" "unat (cf_current_rom conf) = cur" "cur < count"
  shows "case List.find (good_rom rd m conf) (tries count cur) of
      None \<Rightarrow> \<exists>s'. choose_image env conf rtc False s = Some (0, s') \<and> mem (bflash s') = m \<and> brtc s' = brtc s
    | Some r \<Rightarrow> \<exists>s'. choose_image env conf rtc False s = Some (image_at rd m (cf_rom conf (int r)), s') \<and>
        mem (bflash s') = (if r = cur then m else put_at 4096 (seal_config (put_at 3 [of_nat r] conf)) m) \<and>
        rtc_valid (block_at 256 12 (brtc s')) \<and> rt_next_mode (block_at 256 12 (brtc s')) = MODE_STANDARD \<and>
        rt_last_rom (block_at 256 12 (brtc s')) = of_nat r"
proof -
  have nb: "\<not> cf_current_rom conf \<ge> cf_count conf" "uint (cf_current_rom conf) = int cur"
    using assms(6-8) by (auto simp: word_le_nat_alt)
  obtain d1 where d1: "check_image env (cf_rom conf (int cur)) (bflash s) = (image_at rd m (cf_rom conf (int cur)), d1)" "mem d1 = m"
    using check_image_pure [of "cf_rom conf (int cur)" "bflash s"] by (auto simp: m_def)
  have t: "tries count cur = cur # map (\<lambda>j. (cur + count - j) mod count) [1..<count]"
    using assms(8) by (simp add: tries_def upt_conv_Cons)
  show ?thesis
  proof (cases "good_rom rd m conf cur")
    case True
    let ?b = "boot_rom env conf rtc False False (image_at rd m (cf_rom conf (int cur))) (int cur) (s\<lparr>bflash := d1\<rparr>)"
    have "choose_image env conf rtc False s = Some ?b"
      using nb d1(1) True by (simp add: choose_image_def good_rom_def Let_def)
    then show ?thesis
      using boot_rom_effect [where rtc = rtc and s = "s\<lparr>bflash := d1\<rparr>" and romconf = conf and temp = False and upd = False and addr = "image_at rd m (cf_rom conf (int cur))" and r = cur]
        assms(2-5) d1(2) True t by (cases ?b) simp
  next
    case False
    obtain d2 where d2: "mem d2 = m" "rom_loop env conf (int cur) d1 =
      Some (map_option (\<lambda>r. (image_at rd m (cf_rom conf (int r)), int r)) (List.find (good_rom rd m conf) (tries count cur)), d2)"
      using rom_loop_finds [OF assms(6-8), of 0 d1] assms(8) d1(2) t False by auto
    have fi: "choose_image env conf rtc False s = (case List.find (good_rom rd m conf) (tries count cur) of
        None \<Rightarrow> Some (0, s\<lparr>bflash := d2\<rparr>)
      | Some r \<Rightarrow> Some (boot_rom env conf rtc False True (image_at rd m (cf_rom conf (int r))) (int r) (s\<lparr>bflash := d2\<rparr>)))"
      using nb d1(1) d2(2) False by (simp add: choose_image_def good_rom_def Let_def split: option.split)
    show ?thesis
    proof (cases "List.find (good_rom rd m conf) (tries count cur)")
      case None
      with fi d2(1) show ?thesis
        by simp
    next
      case (Some r)
      then have "good_rom rd m conf r"
        by (metis find_Some_iff)
      with False have "r \<noteq> cur"
        by blast
      let ?b = "boot_rom env conf rtc False True (image_at rd m (cf_rom conf (int r))) (int r) (s\<lparr>bflash := d2\<rparr>)"
      show ?thesis
        using boot_rom_effect [where rtc = rtc and s = "s\<lparr>bflash := d2\<rparr>" and romconf = conf and temp = False and upd = True and addr = "image_at rd m (cf_rom conf (int r))" and r = r]
          fi Some assms(2-5) d2(1) \<open>r \<noteq> cur\<close> by (cases ?b) simp
    qed
  qed
qed

end

section \<open>Temporary boot, default configuration\<close>

context boot_flash begin

lemma choose_image_temp:
  fixes s conf rtc
  defines "m \<equiv> mem (bflash s)" and "t \<equiv> unat (rt_temp_rom rtc)"
  assumes "8192 \<le> length m" "length conf = 4096" "length rtc = 12" "length (brtc s) = 768"
    and "cf_current_rom conf < cf_count conf"
  shows "\<exists>s'. choose_image env conf rtc True s = Some (image_at rd m (cf_rom conf (int t)), s') \<and> mem (bflash s') = m \<and>
    rtc_valid (block_at 256 12 (brtc s')) \<and> rt_next_mode (block_at 256 12 (brtc s')) = MODE_STANDARD \<and>
    (good_rom rd m conf t \<longrightarrow> rt_last_rom (block_at 256 12 (brtc s')) = rt_temp_rom rtc \<and>
       rt_last_mode (block_at 256 12 (brtc s')) = MODE_TEMP_ROM)"
proof -
  have nb: "\<not> cf_current_rom conf \<ge> cf_count conf" "uint (rt_temp_rom rtc) = int t"
    using assms(7) by (auto simp: t_def)
  obtain d1 where d1: "check_image env (cf_rom conf (int t)) (bflash s) = (image_at rd m (cf_rom conf (int t)), d1)" "mem d1 = m"
    using check_image_pure [of "cf_rom conf (int t)" "bflash s"] by (auto simp: m_def)
  show ?thesis
  proof (cases "good_rom rd m conf t")
    case True
    let ?b = "boot_rom env conf rtc True False (image_at rd m (cf_rom conf (int t))) (int t) (s\<lparr>bflash := d1\<rparr>)"
    have "choose_image env conf rtc True s = Some ?b"
      using nb d1(1) True by (simp add: choose_image_def good_rom_def Let_def)
    then show ?thesis
      using boot_rom_effect [where rtc = rtc and s = "s\<lparr>bflash := d1\<rparr>" and romconf = conf and temp = True and upd = False and addr = "image_at rd m (cf_rom conf (int t))" and r = t]
        assms(3-6) d1(2) by (cases ?b) (simp add: t_def)
  next
    case False
    let ?r = "seal_rtc (put_at 4 [MODE_STANDARD] rtc)"
    have l: "length ?r = 12" "9 \<le> length (put_at 4 [MODE_STANDARD] rtc)"
      using assms(5) by (simp_all add: seal_rtc_def)
    have b: "block_at 256 12 (store_rtc ?r (brtc s)) = ?r"
      using rtc_access(2) [OF assms(6) l(1)] block_put_at [of 256 ?r "brtc s"] l(1) assms(6) by simp
    have "rt_next_mode ?r = MODE_STANDARD"
      using assms(5) by (simp add: rt_next_mode_def seal_rtc_def nth_put_at_before put_at_def [of 4] nth_append)
    moreover have "choose_image env conf rtc True s = Some (0, \<lparr>bflash = d1, brtc = store_rtc ?r (brtc s)\<rparr>)"
      using nb d1(1) False by (simp add: choose_image_def good_rom_def Let_def)
    ultimately show ?thesis
      using b d1(2) False seal_rtc_valid [OF l(2)] by (simp add: good_rom_def)
  qed
qed

lemma read_config_default:
  fixes d flashsize
  defines "m \<equiv> mem d" and "c \<equiv> fst (read_config env flashsize d)"
  assumes "8192 \<le> length m" "\<not> config_valid (block_at 4096 4096 m)" "flashsize \<le> 0x400000"
  shows "config_valid c" "mem (snd (read_config env flashsize d)) = put_at 4096 c m"
    and "cf_count c = 2" "cf_current_rom c = 0" "cf_rom c 0 = 0x2000" "cf_rom c 1 = flashsize div 2 + 0x2000"
    and "drop 28 c = drop 28 (block_at 4096 4096 m)" "length c = 4096"
proof -
  let ?b = "block_at 4096 4096 m"
  obtain d1 where d1: "SPIRead env 4096 4096 d = (0, ?b, d1)" "mem d1 = m"
    using read_E [of 4096 4096 d] read_in [of 4096 4096 m] assms(3) by (auto simp: m_def)
  define c1 where "c1 = put_at 1 [BOOT_CONFIG_VERSION] (put_at 0 [BOOT_CONFIG_MAGIC] (put_at 0 (replicate CONFIG_LEN 0) ?b))"
  have e: "read_config env flashsize d =
      (seal_config (default_config c1 flashsize), write_config env (seal_config (default_config c1 flashsize)) d1)"
    using d1(1) assms(4) by (simp add: read_config_def c1_def Let_def)
  then have c: "c = seal_config (default_config c1 flashsize)"
    by (simp add: c_def)
  have lb: "length ?b = 4096"
    using assms(3) by (simp add: block_at_length)
  then obtain tl where tl: "drop 28 ?b = tl" "length tl = 4068"
    by simp
  have z: "replicate 28 (0 :: byte) = [0, 0, 0, 0, 0, 0, 0, 0, 0, 0, 0, 0, 0, 0, 0, 0, 0, 0, 0, 0, 0, 0, 0, 0, 0, 0, 0, 0]"
    by (simp add: eval_nat_numeral)
  have c1: "c1 = [BOOT_CONFIG_MAGIC, BOOT_CONFIG_VERSION, 0, 0, 0, 0, 0, 0, 0, 0, 0, 0, 0, 0, 0, 0, 0, 0, 0, 0, 0, 0, 0, 0, 0, 0, 0, 0] @ tl"
  proof -
    have "put_at 0 (replicate 28 0) ?b = replicate 28 0 @ tl"
      using tl(1) by (simp add: put_at_def)
    then show ?thesis
      by (simp add: c1_def z) (simp add: put_at_def)
  qed
  let ?dc = "[BOOT_CONFIG_MAGIC, BOOT_CONFIG_VERSION, 0, 0, 0, 2, 0, 0] @ le32 0x2000 @ le32 (flashsize div 2 + 0x2000) @ [0, 0, 0, 0, 0, 0, 0, 0, 0, 0, 0, 0] @ tl"
  have dc: "default_config c1 flashsize = ?dc"
    by (simp add: default_config_def c1 put_at_def le32_def)
  have cc: "c = take 24 ?dc @ [calc_chksum (take 24 ?dc)] @ drop 25 ?dc"
    unfolding c dc seal_config_def put_at_def by simp
  show "length c = 4096"
    unfolding cc using tl(2) by (simp add: le32_def)
  then show "mem (snd (read_config env flashsize d)) = put_at 4096 c m"
    using write_config_mem [of c d1] assms(3) d1(2) e c by simp
  show "config_valid c"
    unfolding c by (rule seal_config_valid) (use tl(2) in \<open>simp_all add: dc le32_def\<close>)
  show "cf_count c = 2" "cf_current_rom c = 0" "drop 28 c = drop 28 ?b"
    unfolding cc using tl by (simp_all add: cf_count_def cf_current_rom_def le32_def)
  have "le32_at (le32 0x2000 @ xs) 0 = 0x2000" "le32_at (le32 (flashsize div 2 + 0x2000) @ xs) 0 = flashsize div 2 + 0x2000" for xs
    using le32_at_le32(2) [of "0x2000" xs] le32_at_le32(2) [of "flashsize div 2 + 0x2000" xs] assms(5) by simp_all
  then show "cf_rom c 0 = 0x2000" "cf_rom c 1 = flashsize div 2 + 0x2000"
    unfolding cc by (simp_all add: cf_rom_def le32_at_def le32_def)
qed

lemma rom_loop_none:
  assumes "cf_count conf = 0" "cf_current_rom conf = 0" "image_at rd m (cf_rom conf (- 1)) = 0" "mem d = m" "r \<le> 0"
  shows "rom_loop env conf r d = None"
proof -
  have "env' = env \<longrightarrow> conf' = conf \<longrightarrow> mem d = m \<longrightarrow> \<not> r \<le> 0" if "rom_loop env' conf' r d = Some y" for env' conf' r d y
    using _ that
  proof (rule rom_loop.raw_induct)
    fix f env' conf' r d y
    assume IH: "\<And>env' conf' r d y. f env' conf' r d = Some y \<Longrightarrow> env' = env \<longrightarrow> conf' = conf \<longrightarrow> mem d = m \<longrightarrow> \<not> r \<le> 0"
      and step: "(let r1 = r - 1; r2 = (if r1 < 0 then uint (cf_count conf') - 1 else r1)
        in if r2 = uint (cf_current_rom conf') then Some (None, d)
           else let (runAddr, d1) = check_image env' (cf_rom conf' r2) d
             in if runAddr = 0 then f env' conf' r2 d1 else Some (Some (runAddr, r2), d1)) = Some y"
    obtain d1 where "check_image env (cf_rom conf (- 1)) d = (image_at rd (mem d) (cf_rom conf (- 1)), d1)" "mem d1 = mem d"
      using check_image_pure by blast
    with IH [of env conf "- 1" d1 y] step assms(1-3) show "env' = env \<longrightarrow> conf' = conf \<longrightarrow> mem d = m \<longrightarrow> \<not> r \<le> 0"
      by (auto simp: Let_def)
  qed
  then show ?thesis
    using assms(4,5) by (cases "rom_loop env conf r d") auto
qed

lemma choose_image_no_roms:
  fixes s conf rtc
  defines "m \<equiv> mem (bflash s)" and "conf' \<equiv> put_at 7 [0] (put_at 3 [0] conf)"
  assumes "length conf = 4096" "cf_count conf = 0" "image_at rd m (cf_rom conf' 0) = 0" "image_at rd m (cf_rom conf' (- 1)) = 0"
  shows "choose_image env conf rtc False s = None"
proof -
  have f: "cf_count conf' = 0" "cf_current_rom conf' = 0"
    using assms(3,4) by (simp_all add: conf'_def cf_count_def cf_current_rom_def nth_put_at)
  obtain d1 where d1: "check_image env (cf_rom conf' 0) (bflash s) = (0, d1)" "mem d1 = m"
    using check_image_pure [of "cf_rom conf' 0" "bflash s"] assms(5) by (auto simp: m_def)
  have "rom_loop env conf' 0 d1 = None"
    by (rule rom_loop_none [OF f assms(6) d1(2)]) simp
  with assms(4) d1(1) show ?thesis
    by (simp add: choose_image_def conf'_def [symmetric] Let_def)
qed

end

section \<open>A chip\<close>

text \<open>Reads beyond the end fail.\<close>

definition chip_read :: "byte list \<Rightarrow> nat \<Rightarrow> nat \<Rightarrow> nat \<times> byte list" where
  "chip_read m a n = (if a + n \<le> length m then (0, block_at a n m) else (1, replicate n 0))"

interpretation chip: boot_flash "pure_env chip_read" "\<lambda>m. m" chip_read
  by unfold_locales (auto simp: pure_env_def chip_read_def)

text \<open>
  Two roms, the second of them selected and absent, the first one without sections, in 8208
  bytes of flash. \<open>chip_rtc\<close> asks for a temporary boot of the first one.
\<close>

definition chip_conf :: "byte list" where
  "chip_conf = seal_config ([0xe1, 1, 0, 1, 0, 2, 0, 0] @ le32 0x2000 @ le32 0xffffffff @ replicate 4080 0)"

definition chip_mem :: "byte list" where
  "chip_mem = replicate 4096 0 @ chip_conf @ image_body 0 0 0x40100000 [] @ [0, 0, 0, 0, 0, 0, 0, 0xef]"

definition chip_rtc :: "byte \<Rightarrow> byte \<Rightarrow> byte list" where
  "chip_rtc md tr = replicate 256 0 @ seal_rtc (le32 0x2334ae68 @ [md, 0, 0, tr, 0, 0, 0, 0]) @ replicate 500 0"

lemma chip_conf: "length chip_conf = 4096" "config_valid chip_conf"
  "cf_count chip_conf = 2" "cf_current_rom chip_conf = 1" "cf_rom chip_conf 0 = 0x2000" "cf_rom chip_conf 1 = 0xffffffff"
proof -
  show "length chip_conf = 4096"
    by (simp add: chip_conf_def seal_config_def)
  show "config_valid chip_conf"
    unfolding chip_conf_def by (rule seal_config_valid) simp_all
  show "cf_count chip_conf = 2" "cf_current_rom chip_conf = 1" "cf_rom chip_conf 0 = 0x2000" "cf_rom chip_conf 1 = 0xffffffff"
    by (simp_all add: chip_conf_def seal_config_def put_at_def le32_def cf_count_def cf_current_rom_def cf_rom_def le32_at_def)
qed

lemma chip_mem: "length chip_mem = 8208" "block_at 4096 4096 chip_mem = chip_conf"
  "block_at 8192 8 chip_mem = image_body 0 0 0x40100000 []" "chip_mem ! 8207 = 0xef"
  by (simp_all add: chip_mem_def chip_conf image_body_def block_at_def nth_append le32_def)

lemma chip_rtc: "length (chip_rtc md tr) = 768" "block_at 256 12 (chip_rtc md tr) = seal_rtc (le32 0x2334ae68 @ [md, 0, 0, tr, 0, 0, 0, 0])"
  "rtc_valid (block_at 256 12 (chip_rtc md tr))" "rt_next_mode (block_at 256 12 (chip_rtc md tr)) = md"
  "rt_temp_rom (block_at 256 12 (chip_rtc md tr)) = tr"
proof -
  let ?r = "seal_rtc (le32 0x2334ae68 @ [md, 0, 0, tr, 0, 0, 0, 0])"
  have l: "length ?r = 12"
    by (simp add: seal_rtc_def)
  then show "length (chip_rtc md tr) = 768" and b: "block_at 256 12 (chip_rtc md tr) = ?r"
    by (simp_all add: chip_rtc_def block_at_def)
  show "rtc_valid (block_at 256 12 (chip_rtc md tr))"
    unfolding b by (rule seal_rtc_valid) simp
  show "rt_next_mode (block_at 256 12 (chip_rtc md tr)) = md" "rt_temp_rom (block_at 256 12 (chip_rtc md tr)) = tr"
    unfolding b by (simp_all add: rt_next_mode_def rt_temp_rom_def seal_rtc_def put_at_def le32_def)
qed

lemma chip_image: "flash_image chip_mem 0x2000 0 0 0x40100000 None []"
  by (simp add: flash_image_def image_front_def chip_mem sum_pos_def length_image_body Let_def)

lemma chip_good: "image_at chip_read chip_mem 0x2000 = 0x2000"
  using chip.check_image_old [OF chip_image] chip_mem
  by (simp add: length_image_body sum_pos_def image_sum_def xor_bytes_def)

lemma chip_find: "List.find (good_rom chip_read chip_mem chip_conf) (tries 2 1) = Some 0"
proof -
  have "tries 2 1 = [1, 0]"
    by (simp add: tries_def upt_conv_Cons)
  moreover have "image_at chip_read chip_mem 0xffffffff = 0"
    by (simp add: image_at_def check_image_def)
  ultimately show ?thesis
    by (simp add: good_rom_def chip_conf chip_good)
qed

lemma put_at_same: "i + n \<le> length m \<Longrightarrow> put_at i (block_at i n m) m = m"
  by (simp add: put_at_def block_at_def) (metis append_take_drop_id drop_drop add.commute)

lemma nth_put_at_past: "i + length vs \<le> length bs \<Longrightarrow> i + length vs \<le> j \<Longrightarrow> put_at i vs bs ! j = bs ! j"
  by (auto simp: put_at_def nth_append)

text \<open>Changing the number of the current rom touches that byte and the checksum.\<close>

lemma config_switch:
  assumes "length conf = 4096" "config_valid conf" "r < 256"
  shows "config_valid (seal_config (put_at 3 [of_nat r] conf))"
    and "unat (cf_current_rom (seal_config (put_at 3 [of_nat r] conf))) = r"
    and "\<forall>i. i \<noteq> 3 \<and> i \<noteq> 24 \<longrightarrow> seal_config (put_at 3 [of_nat r] conf) ! i = conf ! i"
proof -
  let ?c = "put_at 3 [of_nat r] conf"
  have l: "length ?c = 4096"
    using assms(1) by simp
  have m: "?c ! 0 = conf ! 0" "?c ! 1 = conf ! 1" "?c ! 3 = of_nat r"
    using assms(1) by (simp_all add: nth_put_at)
  show "config_valid (seal_config ?c)"
    using assms(2) l m by (intro seal_config_valid) (simp_all add: config_valid_def)
  show "unat (cf_current_rom (seal_config ?c)) = r"
    using assms(3) l m by (simp add: cf_current_rom_def seal_config_def nth_put_at_before unat_of_nat)
  show "\<forall>i. i \<noteq> 3 \<and> i \<noteq> 24 \<longrightarrow> seal_config ?c ! i = conf ! i"
    using assms(1) l by (auto simp: seal_config_def nth_put_at_before nth_put_at_past nat_neq_iff)
qed

section \<open>Properties\<close>

text \<open>
  C5: a standard boot. With a valid configuration whose current rom is one of its roms (its number
  is less than the count, so there is at least one), and no temporary boot asked for in RTC memory,
  \<^verbatim>\<open>find_image\<close> returns. It tries the current rom, then the ones before it, wrapping
  around; the first whose image passes \<^verbatim>\<open>check_image\<close> is booted, with 0 when there is none. The
  flash changes only when the rom booted is not the current one: then the configuration sector
  is written with the new rom number, and it is valid again. The RTC data for the application is
  valid, names the rom, and asks for a standard boot next time. (Validity is magic, version and
  checksum: a valid configuration that counts no roms is not covered, on it the search does not end,
  see \<open>no_roms_never_returns\<close> below.)
\<close>

theorem boot_first_good_rom:
  assumes "boot_flash env mem rd" and "mem (bflash s) = m" "8192 \<le> length m" "length stack = 12" "length (brtc s) = 768"
    and "block_at 4096 4096 m = conf" "config_valid conf" "unat (cf_count conf) = count"
    and "unat (cf_current_rom conf) = cur" "cur < count"
    and "block_at 256 12 (brtc s) = rtc" "\<not> (rtc_valid rtc \<and> rt_next_mode rtc AND MODE_TEMP_ROM \<noteq> 0)"
  shows "case List.find (good_rom rd m conf) (tries count cur) of
      None \<Rightarrow> \<exists>s'. find_image env stack s = Some (0, s') \<and> mem (bflash s') = m \<and> brtc s' = brtc s
    | Some r \<Rightarrow> \<exists>s' conf'. find_image env stack s = Some (image_at rd m (cf_rom conf (int r)), s') \<and>
        mem (bflash s') = put_at 4096 conf' m \<and> config_valid conf' \<and> unat (cf_current_rom conf') = r \<and>
        (r = cur \<longrightarrow> conf' = conf) \<and> (\<forall>i. i \<noteq> 3 \<and> i \<noteq> 24 \<longrightarrow> conf' ! i = conf ! i) \<and>
        rtc_valid (block_at 256 12 (brtc s')) \<and> rt_next_mode (block_at 256 12 (brtc s')) = MODE_STANDARD \<and>
        rt_last_rom (block_at 256 12 (brtc s')) = of_nat r"
proof -
  note L = boot_flash.find_image_start [OF assms(1)] boot_flash.choose_image_standard [OF assms(1)]
  have lc: "length conf = 4096"
    using assms(3,6) block_at_length [of 4096 4096 m] by simp
  have lr: "length rtc = 12"
    using assms(5,11) block_at_length [of 256 12 "brtc s"] by simp
  obtain d where d: "mem d = m" "find_image env stack s = choose_image env conf rtc False (s\<lparr>bflash := d\<rparr>)"
    using L(1) [of s stack] assms(2-12) by (auto simp: Let_def)
  let ?s = "s\<lparr>bflash := d\<rparr>"
  have p: "8192 \<le> length (mem (bflash ?s))" "length (brtc ?s) = 768"
    and q: "mem (bflash ?s) = m" "brtc ?s = brtc s"
    using assms(3,5) d(1) by simp_all
  have S: "case List.find (good_rom rd m conf) (tries count cur) of
      None \<Rightarrow> \<exists>s'. choose_image env conf rtc False ?s = Some (0, s') \<and> mem (bflash s') = m \<and> brtc s' = brtc s
    | Some r \<Rightarrow> \<exists>s'. choose_image env conf rtc False ?s = Some (image_at rd m (cf_rom conf (int r)), s') \<and>
        mem (bflash s') = (if r = cur then m else put_at 4096 (seal_config (put_at 3 [of_nat r] conf)) m) \<and>
        rtc_valid (block_at 256 12 (brtc s')) \<and> rt_next_mode (block_at 256 12 (brtc s')) = MODE_STANDARD \<and>
        rt_last_rom (block_at 256 12 (brtc s')) = of_nat r"
    using L(2) [OF p(1) lc lr p(2) assms(8-10)] unfolding q .
  show ?thesis
  proof (cases "List.find (good_rom rd m conf) (tries count cur)")
    case None
    with S d(2) show ?thesis
      by simp
  next
    case (Some r)
    let ?c = "if r = cur then conf else seal_config (put_at 3 [of_nat r] conf)"
    have "r \<in> set (tries count cur)"
      using Some by (metis find_Some_iff nth_mem)
    then have "r < count"
      using assms(10) by (auto simp: tries_def)
    then have c: "config_valid ?c" "unat (cf_current_rom ?c) = r" "\<forall>i. i \<noteq> 3 \<and> i \<noteq> 24 \<longrightarrow> ?c ! i = conf ! i" "r = cur \<longrightarrow> ?c = conf"
      using config_switch [OF lc assms(7), of r] assms(7-9) unsigned_less [of "cf_count conf", where ?'a = nat] by auto
    have p: "put_at 4096 conf m = m"
      using put_at_same [of 4096 4096 m] assms(3,6) by simp
    show ?thesis
      using S d(2) Some c p by (auto intro!: exI [of _ ?c])
  qed
qed

theorem boot_first_good_rom_witness:
  "\<exists>s' conf'. find_image (pure_env chip_read) (replicate 12 0) \<lparr>bflash = chip_mem, brtc = chip_rtc 0 0\<rparr> = Some (0x2000, s') \<and>
     bflash s' = put_at 4096 conf' chip_mem \<and> config_valid conf' \<and> unat (cf_current_rom conf') = 0"
  using boot_first_good_rom [where env = "pure_env chip_read" and mem = "\<lambda>m. m" and rd = chip_read
      and s = "\<lparr>bflash = chip_mem, brtc = chip_rtc 0 0\<rparr>" and m = chip_mem and stack = "replicate 12 0" and conf = chip_conf
      and count = 2 and cur = 1 and rtc = "block_at 256 12 (chip_rtc 0 0)", OF chip.boot_flash_axioms]
  by (auto simp: chip_mem chip_conf chip_rtc(1,3-5) chip_find [simplified] chip_good)

text \<open>
  C36: a temporary boot is for one time only, if the rom exists. Suppose valid RTC data asks for one
  and the current rom of the configuration is one of its roms. If the number of the temporary rom
  is less than the count, \<^verbatim>\<open>find_image\<close> returns what \<^verbatim>\<open>check_image\<close> says about that rom (0 when it
  is bad: no other rom is tried), leaves the flash as it is, and leaves valid RTC data that asks for
  a standard boot. If it is not, \<^verbatim>\<open>find_image\<close> returns 0 and leaves flash and RTC memory as they
  are: the request stays and the next start fails in the same way. (With a current rom that does
  not exist, rom 0 would be started in place of the temporary one; this is not covered.)
\<close>

theorem temporary_boot_once:
  assumes "boot_flash env mem rd" and "mem (bflash s) = m" "8192 \<le> length m" "length stack = 12" "length (brtc s) = 768"
    and "block_at 4096 4096 m = conf" "config_valid conf" "cf_current_rom conf < cf_count conf"
    and "block_at 256 12 (brtc s) = rtc" "rtc_valid rtc" "rt_next_mode rtc AND MODE_TEMP_ROM \<noteq> 0"
  shows "if rt_temp_rom rtc < cf_count conf
    then \<exists>s'. find_image env stack s = Some (image_at rd m (cf_rom conf (uint (rt_temp_rom rtc))), s') \<and>
      mem (bflash s') = m \<and>
      rtc_valid (block_at 256 12 (brtc s')) \<and> rt_next_mode (block_at 256 12 (brtc s')) = MODE_STANDARD \<and>
      (image_at rd m (cf_rom conf (uint (rt_temp_rom rtc))) \<noteq> 0 \<longrightarrow>
         rt_last_rom (block_at 256 12 (brtc s')) = rt_temp_rom rtc \<and> rt_last_mode (block_at 256 12 (brtc s')) = MODE_TEMP_ROM)
    else \<exists>s'. find_image env stack s = Some (0, s') \<and> mem (bflash s') = m \<and> brtc s' = brtc s"
proof (cases "rt_temp_rom rtc < cf_count conf")
  case True
  have lc: "length conf = 4096" and lr: "length rtc = 12"
    using assms(3,5,6,9) block_at_length [of 4096 4096 m] block_at_length [of 256 12 "brtc s"] by simp_all
  obtain d where d: "mem d = m" "find_image env stack s = choose_image env conf rtc True (s\<lparr>bflash := d\<rparr>)"
    using boot_flash.find_image_start [OF assms(1), of s stack] assms(2-11) not_le [THEN iffD2, OF True] by (auto simp: Let_def)
  let ?s = "s\<lparr>bflash := d\<rparr>"
  have p: "8192 \<le> length (mem (bflash ?s))" "length (brtc ?s) = 768" and q: "mem (bflash ?s) = m"
    using assms(3,5) d(1) by simp_all
  show ?thesis
    unfolding if_P [OF True]
    using boot_flash.choose_image_temp [OF assms(1) p(1) lc lr p(2) assms(8)] True d(2) unfolding q good_rom_def uint_nat by simp
next
  case False
  then show ?thesis
    using boot_flash.find_image_start [OF assms(1), of s stack] assms(2-11) by (auto simp: Let_def)
qed

theorem temporary_boot_once_witness:
  "(\<exists>s'. find_image (pure_env chip_read) (replicate 12 0) \<lparr>bflash = chip_mem, brtc = chip_rtc 2 0\<rparr> = Some (0x2000, s') \<and>
     bflash s' = chip_mem \<and> rt_next_mode (block_at 256 12 (brtc s')) = 0 \<and> rt_last_mode (block_at 256 12 (brtc s')) = 2) \<and>
   (\<exists>s'. find_image (pure_env chip_read) (replicate 12 0) \<lparr>bflash = chip_mem, brtc = chip_rtc 2 7\<rparr> = Some (0, s') \<and>
     bflash s' = chip_mem \<and> brtc s' = chip_rtc 2 7)"
  using temporary_boot_once [where env = "pure_env chip_read" and mem = "\<lambda>m. m" and rd = chip_read
      and s = "\<lparr>bflash = chip_mem, brtc = chip_rtc 2 0\<rparr>" and m = chip_mem and stack = "replicate 12 0" and conf = chip_conf
      and rtc = "block_at 256 12 (chip_rtc 2 0)", OF chip.boot_flash_axioms]
    temporary_boot_once [where env = "pure_env chip_read" and mem = "\<lambda>m. m" and rd = chip_read
      and s = "\<lparr>bflash = chip_mem, brtc = chip_rtc 2 7\<rparr>" and m = chip_mem and stack = "replicate 12 0" and conf = chip_conf
      and rtc = "block_at 256 12 (chip_rtc 2 7)", OF chip.boot_flash_axioms]
  by (auto simp: chip_mem chip_conf chip_rtc(1,3-5) chip_good)

text \<open>
  C6: \<^verbatim>\<open>check_image\<close> accepts an image exactly when the byte at the end of its last block of 16 is
  the XOR of 0xef and of the data of its sections, an irom section in front included. It returns
  the address of the header that \<^verbatim>\<open>load_rom\<close> expects, and changes nothing. An image with an irom
  section has at most 253 other sections, one without has at most 254: a count of 255 is taken
  for the mark of the irom section.
\<close>

theorem check_image_checksum:
  assumes "boot_flash env mem rd" and "mem d = m" "flash_image m a f1 f2 e irom secs"
    and "length secs < (case irom of None \<Rightarrow> 255 | Some _ \<Rightarrow> 254)" "length m < 2 ^ 32" "a \<noteq> 0" "a + 16 \<le> length m"
  shows "\<exists>d'. mem d' = m \<and> check_image env a d =
    (if m ! sum_pos (a + length (image_front f1 f2 e irom @ image_body f1 f2 e secs)) = image_sum irom secs
     then a + length (image_front f1 f2 e irom) else 0, d')"
proof -
  obtain d' where d': "mem d' = m" "check_image env a d = (image_at rd m a, d')"
    using boot_flash.check_image_pure [OF assms(1), of a d] assms(2) by auto
  show ?thesis
  proof (cases irom)
    case None
    with assms(3-7) d' boot_flash.check_image_old [OF assms(1), of m a f1 f2 e secs] show ?thesis
      by (simp add: image_front_def)
  next
    case (Some s)
    with assms(3-7) d' boot_flash.check_image_new [OF assms(1), of m a f1 f2 e s secs] show ?thesis
      by (simp add: length_image_front add.assoc)
  qed
qed

theorem check_image_checksum_witness:
  "\<exists>d'. check_image (pure_env chip_read) 0x2000 chip_mem = (0x2000, d')"
  using check_image_checksum [OF chip.boot_flash_axioms refl chip_image] chip_mem
  by (auto simp: length_image_front length_image_body sum_pos_def image_sum_def xor_bytes_def)

text \<open>
  C7: what is checked is what is loaded. For an image whose checksum is right, the second stage
  started with the address that \<^verbatim>\<open>check_image\<close> returned copies each section to its address, in
  order, and continues at the entry point of the image.
\<close>

theorem load_rom_loads_checked_image:
  assumes "boot_flash env mem rd" and "mem d = m" "flash_image m a f1 f2 e irom secs"
    and "length secs < (case irom of None \<Rightarrow> 255 | Some _ \<Rightarrow> 254)" "length m < 2 ^ 32" "a \<noteq> 0" "a + 16 \<le> length m"
    and "m ! sum_pos (a + length (image_front f1 f2 e irom @ image_body f1 f2 e secs)) = image_sum irom secs"
    and "e < 2 ^ 32" "\<forall>s\<in>set secs. fst s + length (snd s) < 2 ^ 32"
  shows "\<exists>q d1 d2. check_image env a d = (q, d1) \<and> q \<noteq> 0 \<and> load_rom env q ram d1 = (e, load_all secs ram, d2) \<and> mem d2 = m"
proof -
  let ?f = "image_front f1 f2 e irom" and ?b = "image_body f1 f2 e secs"
  obtain d1 where d1: "mem d1 = m" "check_image env a d = (a + length ?f, d1)"
    using boot_flash.check_image_pure [OF assms(1), of a d] assms(2-8)
      boot_flash.check_image_old [OF assms(1), of m a f1 f2 e secs] boot_flash.check_image_new [OF assms(1), of m a f1 f2 e "the irom" secs]
    by (cases irom) (auto simp: length_image_front add.assoc)
  have fb: "block_at a (length ?f + length ?b) m = ?f @ ?b" and le: "a + length ?f + length ?b \<le> length m"
    using assms(3) le_sum_pos [of "a + length (?f @ ?b)"] by (simp_all add: flash_image_def Let_def)
  have n: "length secs < 256"
    using assms(4) by (simp split: option.splits)
  have "\<exists>d2. load_rom env (a + length ?f) ram d1 = (e, load_all secs ram, d2) \<and> mem d2 = mem d1"
    by (rule boot_flash.load_rom_image [OF assms(1)])
      (use block_at_split_eq(2) [OF fb le] le d1(1) assms(5,9,10) n in simp_all)
  with d1 assms(6) show ?thesis
    by auto
qed

theorem load_rom_loads_checked_image_witness:
  "\<exists>q d1 d2. check_image (pure_env chip_read) 0x2000 chip_mem = (q, d1) \<and> q \<noteq> 0 \<and>
     load_rom (pure_env chip_read) q (\<lambda>_. 0) d1 = (0x40100000, load_all [] (\<lambda>_. 0), d2) \<and> d2 = chip_mem"
  by (rule load_rom_loads_checked_image [OF chip.boot_flash_axioms refl chip_image])
    (simp_all add: chip_mem length_image_front length_image_body sum_pos_def image_sum_def xor_bytes_def)

text \<open>
  On a fresh or damaged configuration sector the boot loader writes a valid default: two
  roms, behind the configuration and at the same place in the upper half of the flash, the first
  of them selected. The flash changes in that sector only, and there the bytes behind the
  structure are kept.
\<close>

theorem default_config_written:
  assumes "boot_flash env mem rd" and "mem d = m" "8192 \<le> length m" "\<not> config_valid (block_at 4096 4096 m)"
    and "read_config env (flash_size flags) d = (c, d')"
  shows "config_valid c \<and> mem d' = put_at 4096 c m \<and> cf_count c = 2 \<and> cf_current_rom c = 0 \<and>
    cf_rom c 0 = 0x2000 \<and> cf_rom c 1 = flash_size flags div 2 + 0x2000 \<and>
    length c = 4096 \<and> drop 28 c = drop 28 (block_at 4096 4096 m)"
proof -
  have "flash_size flags \<le> 0x400000"
    by (simp add: flash_size_def Let_def)
  from boot_flash.read_config_default [OF assms(1) _ _ this, of d] assms(2-5) show ?thesis
    by simp
qed

theorem default_config_written_witness:
  "\<exists>c d'. read_config (pure_env chip_read) (flash_size 0x40) (replicate 8192 0xff) = (c, d') \<and>
     config_valid c \<and> cf_rom c 0 = 0x2000 \<and> cf_rom c 1 = 0x202000"
proof -
  obtain c d' where c: "read_config (pure_env chip_read) (flash_size 0x40) (replicate 8192 0xff) = (c, d')"
    by fastforce
  moreover have "\<not> config_valid (block_at 4096 4096 (replicate 8192 0xff))"
    by (simp add: config_valid_def block_at_def)
  ultimately show ?thesis
    using default_config_written [OF chip.boot_flash_axioms refl _ _ c] by (simp add: flash_size_def)
qed

text \<open>
  A temporary rom number that does not exist is never cleared. \<^verbatim>\<open>find_image\<close> returns 0 and
  leaves flash and RTC memory as they are, so every reset fails in the same way, until power is
  lost.
\<close>

theorem bad_temp_rom_sticks:
  assumes "boot_flash env mem rd" and "mem (bflash s) = m" "8192 \<le> length m" "length stack = 12" "length (brtc s) = 768"
    and "block_at 4096 4096 m = conf" "config_valid conf"
    and "block_at 256 12 (brtc s) = rtc" "rtc_valid rtc" "rt_next_mode rtc AND MODE_TEMP_ROM \<noteq> 0"
    and "rt_temp_rom rtc \<ge> cf_count conf"
  shows "\<exists>s'. find_image env stack s = Some (0, s') \<and> mem (bflash s') = m \<and> brtc s' = brtc s"
  using boot_flash.find_image_start [OF assms(1), of s stack] assms(2-11) by (auto simp: Let_def)

theorem bad_temp_rom_sticks_witness:
  "\<exists>s'. find_image (pure_env chip_read) (replicate 12 0) \<lparr>bflash = chip_mem, brtc = chip_rtc 2 7\<rparr> = Some (0, s') \<and>
     bflash s' = chip_mem \<and> brtc s' = chip_rtc 2 7"
  using bad_temp_rom_sticks [where env = "pure_env chip_read" and mem = "\<lambda>m. m" and rd = chip_read
      and s = "\<lparr>bflash = chip_mem, brtc = chip_rtc 2 7\<rparr>" and m = chip_mem and stack = "replicate 12 0" and conf = chip_conf
      and rtc = "block_at 256 12 (chip_rtc 2 7)", OF chip.boot_flash_axioms]
  by (auto simp: chip_mem chip_conf chip_rtc(1,3-5))

text \<open>
  A valid configuration with no roms makes the boot loader run forever. The loop over the
  previous roms compares with rom 0, the number set for an invalid selection, and only ever
  looks at rom -1, whose address is read from the bytes before the table.
\<close>

theorem no_roms_never_returns:
  assumes "boot_flash env mem rd" and "mem (bflash s) = m" "8192 \<le> length m" "length stack = 12" "length (brtc s) = 768"
    and "block_at 4096 4096 m = conf" "config_valid conf" "cf_count conf = 0"
    and "block_at 256 12 (brtc s) = rtc" "\<not> (rtc_valid rtc \<and> rt_next_mode rtc AND MODE_TEMP_ROM \<noteq> 0)"
    and "put_at 7 [0] (put_at 3 [0] conf) = conf'" "image_at rd m (cf_rom conf' 0) = 0" "image_at rd m (cf_rom conf' (- 1)) = 0"
  shows "find_image env stack s = None"
proof -
  have lc: "length conf = 4096"
    using assms(3,6) block_at_length [of 4096 4096 m] by simp
  obtain d where d: "mem d = m" "find_image env stack s = choose_image env conf rtc False (s\<lparr>bflash := d\<rparr>)"
    using boot_flash.find_image_start [OF assms(1), of s stack] assms(2-10) by (auto simp: Let_def)
  then show ?thesis
    using boot_flash.choose_image_no_roms [OF assms(1) lc assms(8), of "s\<lparr>bflash := d\<rparr>"] assms(11-13) by simp
qed

theorem no_roms_never_returns_witness:
  "find_image (pure_env chip_read) (replicate 12 0)
     \<lparr>bflash = replicate 4096 0 @ seal_config ([0xe1, 1] @ replicate 4094 0), brtc = chip_rtc 0 0\<rparr> = None"
proof -
  let ?c = "seal_config ([0xe1, 1] @ replicate 4094 0)"
  have l: "length ?c = 4096"
    by (simp add: seal_config_def)
  have v: "config_valid ?c"
    by (rule seal_config_valid) simp_all
  let ?c' = "put_at 7 [0] (put_at 3 [0] ?c)"
  have "?c ! 5 = 0"
    by (simp add: seal_config_def put_at_def nth_append nth_Cons')
  moreover have "?c' ! k = 0" if "k \<in> {4, 5, 6, 7, 8, 9, 10, 11}" for k
    using that by (auto simp: seal_config_def put_at_def nth_append nth_Cons')
  ultimately have "cf_count ?c = 0" "cf_rom ?c' 0 = 0" "cf_rom ?c' (- 1) = 0"
    by (simp_all add: cf_count_def cf_rom_def le32_at_def)
  moreover have "image_at chip_read m 0 = 0" for m
    by (simp add: image_at_def check_image_def)
  moreover have "block_at 4096 4096 (replicate 4096 0 @ ?c) = ?c"
    using l by (simp add: block_at_def)
  ultimately show ?thesis
    using no_roms_never_returns [OF chip.boot_flash_axioms refl, of "\<lparr>bflash = replicate 4096 0 @ ?c, brtc = chip_rtc 0 0\<rparr>"
      "replicate 12 0" ?c "block_at 256 12 (chip_rtc 0 0)"] l v by (simp add: chip_rtc(1,3-5))
qed

end
