(* ===== verification/Rboot_Api.thy ===== *)
theory Rboot_Api
  imports Rboot_Boot
begin

text \<open>
  The interface of the boot loader for applications, \<^verbatim>\<open>src/extras/rboot-ota/rboot-api.c\<close>:
  reading and writing the configuration, writing a new image to flash in chunks, asking for a
  temporary boot through RTC memory, verifying and digesting an image. It stands on the flash
  layer of \<^verbatim>\<open>Spi_Flash\<close> and on the RTC functions of
  \<^verbatim>\<open>src/open_esplibs/libmain/user_interface.c\<close>. Structures are byte buffers, as in the model of
  the boot loader, and the configuration and RTC structures are the same ones.
\<close>

section \<open>RTC memory\<close>

text \<open>
  The two functions take an address in words and check it, but always access the words from the
  first word of the system area on. \<open>rtc\<close> is RTC memory from \<^verbatim>\<open>0x60001100\<close>, where that area starts;
  the pointers passed are aligned.
\<close>

definition rtc_size :: "nat \<Rightarrow> nat" where
  "rtc_size save_size = (if save_size mod 4 \<noteq> 0 then save_size - save_size mod 4 + 4 else save_size)"

definition copy_words :: "nat \<Rightarrow> byte list \<Rightarrow> byte list \<Rightarrow> byte list" where
  "copy_words n src dest = foldl (\<lambda>b i. put_at (4 * i) (block_at (4 * i) 4 src) b) dest [0..<n]"

definition sdk_system_rtc_mem_write :: "nat \<Rightarrow> byte list \<Rightarrow> nat \<Rightarrow> byte list \<Rightarrow> bool \<times> byte list" where
  "sdk_system_rtc_mem_write des_addr src save_size rtc =
     (if des_addr > 191 then (False, rtc)
      else if 768 - des_addr * 4 < save_size then (False, rtc)
      else (True, copy_words (rtc_size save_size div 4) src rtc))"

definition sdk_system_rtc_mem_read :: "nat \<Rightarrow> byte list \<Rightarrow> nat \<Rightarrow> byte list \<Rightarrow> bool \<times> byte list" where
  "sdk_system_rtc_mem_read src_addr dest save_size rtc =
     (if src_addr > 191 then (False, dest)
      else if 768 - src_addr * 4 < save_size then (False, dest)
      else (True, copy_words (rtc_size save_size div 4) rtc dest))"

text \<open>The functions on the RTC structure; the buffer \<open>rtc\<close> is the caller's variable.\<close>

definition rboot_get_rtc_data :: "byte list \<Rightarrow> byte list \<Rightarrow> bool \<times> byte list" where
  "rboot_get_rtc_data rtc mem =
     (let (ok, rtc1) = sdk_system_rtc_mem_read (nat RBOOT_RTC_ADDR) rtc RTC_LEN mem
      in (ok \<and> rtc_valid rtc1, rtc1))"

definition rboot_set_rtc_data :: "byte list \<Rightarrow> byte list \<Rightarrow> bool \<times> byte list \<times> byte list" where
  "rboot_set_rtc_data rtc mem =
     (let rtc1 = seal_rtc rtc;
          (ok, mem1) = sdk_system_rtc_mem_write (nat RBOOT_RTC_ADDR) rtc1 RTC_LEN mem
      in (ok, rtc1, mem1))"

definition rboot_set_temp_rom :: "byte list \<Rightarrow> byte \<Rightarrow> byte list \<Rightarrow> bool \<times> byte list" where
  "rboot_set_temp_rom stack rom mem =
     (let (ok, rtc) = rboot_get_rtc_data stack mem;
          rtc1 = (if ok then rtc else put_at 6 [0] (put_at 5 [MODE_STANDARD] (put_at 0 (le32 RBOOT_RTC_MAGIC) rtc)));
          (r, _, mem1) = rboot_set_rtc_data (put_at 7 [rom] (put_at 4 [MODE_TEMP_ROM] rtc1)) mem
      in (r, mem1))"

definition rboot_get_last_boot_rom :: "byte list \<Rightarrow> byte list \<Rightarrow> byte option" where
  "rboot_get_last_boot_rom stack mem =
     (let (ok, rtc) = rboot_get_rtc_data stack mem in if ok then Some (rt_last_rom rtc) else None)"

definition rboot_get_last_boot_mode :: "byte list \<Rightarrow> byte list \<Rightarrow> byte option" where
  "rboot_get_last_boot_mode stack mem =
     (let (ok, rtc) = rboot_get_rtc_data stack mem in if ok then Some (rt_last_mode rtc) else None)"

section \<open>Configuration\<close>

text \<open>
  What the functions use: the flash layer, the allocator, and the scheduler calls around an
  erase (\<^verbatim>\<open>vPortEnterCritical\<close>, \<^verbatim>\<open>vPortExitCritical\<close>, \<^verbatim>\<open>taskYIELD\<close>), where other tasks may run.
\<close>

record 'd api_env =
  flash :: "'d flash_env"
  os_malloc :: "nat \<Rightarrow> 'd \<Rightarrow> bool \<times> 'd"
  enter_critical :: "'d \<Rightarrow> 'd"
  exit_critical :: "'d \<Rightarrow> 'd"
  task_yield :: "'d \<Rightarrow> 'd"

definition rboot_get_config :: "'d api_env \<Rightarrow> 'd \<Rightarrow> byte list \<times> 'd" where
  "rboot_get_config env d =
     (let (_, conf, d1) = sdk_spi_flash_read (flash env) (BOOT_CONFIG_SECTOR * SECTOR_SIZE) CONFIG_LEN d in (conf, d1))"

text \<open>The caller's structure gets the new checksum, also when nothing can be written afterwards.\<close>

definition rboot_set_config :: "'d api_env \<Rightarrow> byte list \<Rightarrow> 'd \<Rightarrow> bool \<times> byte list \<times> 'd" where
  "rboot_set_config env conf d =
     (let (ok, d1) = os_malloc env SECTOR_SIZE d
      in if \<not> ok then (False, conf, d1)
         else let conf1 = seal_config conf;
                  (_, buffer, d2) = sdk_spi_flash_read (flash env) (BOOT_CONFIG_SECTOR * SECTOR_SIZE) SECTOR_SIZE d1;
                  buffer1 = put_at 0 (take CONFIG_LEN conf1) buffer;
                  (_, d3) = sdk_spi_flash_erase_sector (flash env) (of_nat BOOT_CONFIG_SECTOR) (enter_critical env d2);
                  d4 = enter_critical env (task_yield env (exit_critical env d3));
                  (_, d5) = sdk_spi_flash_write (flash env) (BOOT_CONFIG_SECTOR * SECTOR_SIZE) (Some buffer1) SECTOR_SIZE d4
           in (True, conf1, exit_critical env d5))"

definition rboot_get_current_rom :: "'d api_env \<Rightarrow> 'd \<Rightarrow> byte \<times> 'd" where
  "rboot_get_current_rom env d = (let (conf, d1) = rboot_get_config env d in (cf_current_rom conf, d1))"

definition rboot_set_current_rom :: "'d api_env \<Rightarrow> byte \<Rightarrow> 'd \<Rightarrow> bool \<times> 'd" where
  "rboot_set_current_rom env rom d =
     (let (conf, d1) = rboot_get_config env d
      in if rom \<ge> cf_count conf then (False, d1)
         else let (r, _, d2) = rboot_set_config env (put_at 3 [rom] conf) d1 in (r, d2))"

definition rboot_get_slot_offset :: "'d api_env \<Rightarrow> byte \<Rightarrow> 'd \<Rightarrow> nat \<times> 'd" where
  "rboot_get_slot_offset env slot d =
     (let (conf, d1) = rboot_get_config env d
      in (if slot \<ge> cf_count conf then 0xffffffff else cf_rom conf (uint slot), d1))"

section \<open>Writing an image\<close>

record rboot_write_status =
  start_addr :: nat
  start_sector :: nat
  last_sector_erased :: int
  extra_count :: nat
  extra_bytes :: "byte list"

definition rboot_write_init :: "nat \<Rightarrow> rboot_write_status" where
  "rboot_write_init a =
     \<lparr>start_addr = a, start_sector = a div SECTOR_SIZE, last_sector_erased = int (a div SECTOR_SIZE) - 1,
      extra_count = 0, extra_bytes = [0, 0, 0, 0]\<rparr>"

text \<open>Erasing up to the last sector of the chunk; failures are not looked at.\<close>

function erase_loop :: "'d api_env \<Rightarrow> int \<Rightarrow> int \<Rightarrow> 'd \<Rightarrow> int \<times> 'd" where
  "erase_loop env lastsect erased d =
     (if lastsect > erased then
        erase_loop env lastsect (erased + 1) (snd (sdk_spi_flash_erase_sector (flash env) (word_of_int (erased + 1)) d))
      else (erased, d))"
  by pat_completeness auto
termination
  by (relation "measure (\<lambda>(_, lastsect, erased, _). nat (lastsect - erased))") auto

declare erase_loop.simps [simp del]

text \<open>The length is a 16-bit number, also after the bytes kept from the last chunk are added.\<close>

definition rboot_write_flash ::
  "'d api_env \<Rightarrow> rboot_write_status \<Rightarrow> byte list option \<Rightarrow> u16 \<Rightarrow> 'd \<Rightarrow> bool \<times> rboot_write_status \<times> 'd" where
  "rboot_write_flash env status data len d =
     (if data = None \<or> len = 0 then (True, status, d)
      else let (ok, d1) = os_malloc env (unat len + extra_count status) d
        in if \<not> ok then (False, status, d1)
           else let buffer = take (extra_count status) (extra_bytes status) @ take (unat len) (the data);
                    len1 = unat (len + of_nat (extra_count status));
                    extra = len1 mod 4;
                    len2 = len1 - extra;
                    lastsect = int (sub32 (add32 (start_addr status) len2) 1 div SECTOR_SIZE);
                    (erased, d2) = erase_loop env lastsect (last_sector_erased status) d1;
                    status1 = status\<lparr>extra_count := extra, last_sector_erased := erased,
                      extra_bytes := put_at 0 (block_at len2 extra buffer) (extra_bytes status)\<rparr>;
                    (r, d3) = sdk_spi_flash_write (flash env) (start_addr status) (Some buffer) len2 d2
             in if r = SPI_FLASH_RESULT_OK then (True, status1\<lparr>start_addr := add32 (start_addr status) len2\<rparr>, d3)
                else (False, status1, d3))"

section \<open>Verifying an image\<close>

text \<open>The checksum over one section, read in pieces of 16 bytes.\<close>

function verify_sum :: "'d api_env \<Rightarrow> nat \<Rightarrow> nat \<Rightarrow> nat \<Rightarrow> byte list \<Rightarrow> byte \<Rightarrow> 'd \<Rightarrow> byte \<times> 'd" where
  "verify_sum env offset i len chunk checksum d =
     (if i < len then
        (let (chunk1, d1) = (if i mod 16 = 0 then snd (sdk_spi_flash_read (flash env) (add32 offset i) 16 d) else (chunk, d))
         in verify_sum env offset (i + 1) len chunk1 (checksum XOR chunk1 ! (i mod 16)) d1)
      else (checksum, d))"
  by pat_completeness auto
termination
  by (relation "measure (\<lambda>(_, _, i, len, _, _, _). len - i)") auto

declare verify_sum.simps [simp del]

definition pad_to :: "nat \<Rightarrow> nat \<Rightarrow> nat" where
  "pad_to n offset = add32 offset (n - 1) div n * n"

text \<open>
  The loop over the sections: the error with the offset it occurred at, or the number of sections
  left, the offset and the checksum.
\<close>

function verify_sections ::
  "'d api_env \<Rightarrow> nat \<Rightarrow> bool \<Rightarrow> nat \<Rightarrow> nat \<Rightarrow> byte \<Rightarrow> 'd \<Rightarrow> (string \<times> nat + nat \<times> nat \<times> byte) \<times> 'd" where
  "verify_sections env end_limit is_new remaining offset checksum d =
     (if remaining > 0 \<and> offset < end_limit then
        (let (r, header, d1) = sdk_spi_flash_read (flash env) offset 8 d
         in if r \<noteq> 0 then (Inl (''Flash fail'', offset), d1)
            else let len = le32_at header 4; offset1 = add32 offset 8
              in if add32 len offset1 > end_limit then (Inr (remaining, offset1, checksum), d1)
                 else if len mod 4 \<noteq> 0 then (Inl (''Header length not modulo 4'', offset1), d1)
                 else let (checksum1, d2) = (if is_new then (checksum, d1)
                            else verify_sum env offset1 0 len (replicate 16 0) checksum d1);
                          offset2 = pad_to 4 (add32 offset1 len)
                   in if is_new then
                        (let offset3 = pad_to 16 offset2;
                             (_, image_header, d3) = sdk_spi_flash_read (flash env) offset3 8 d2;
                             offset4 = add32 offset3 8
                         in if image_header ! 0 \<noteq> ROM_MAGIC then (Inl (''Bad second magic'', offset4), d3)
                            else verify_sections env end_limit False (unat (image_header ! 1)) offset4 checksum1 d3)
                      else verify_sections env end_limit False (remaining - 1) offset2 checksum1 d2)
      else (Inr (remaining, offset, checksum), d))"
  by pat_completeness auto
termination
  by (relation "measure (\<lambda>(_, _, is_new, remaining, _, _, _). if is_new then 256 else remaining)")
    (auto intro: unat_byte_less)

declare verify_sections.simps [simp del]

text \<open>\<^verbatim>\<open>rboot_verify_image\<close>: the result, the length and the message for the caller.\<close>

definition rboot_verify_image :: "'d api_env \<Rightarrow> nat \<Rightarrow> 'd \<Rightarrow> bool \<times> nat \<times> string option \<times> 'd" where
  "rboot_verify_image env initial_offset d =
     (let fail = (\<lambda>error offset d. (False, sub32 offset initial_offset, Some error, d))
      in if initial_offset mod 4 \<noteq> 0 then fail ''Unaligned flash offset'' initial_offset d
         else let end_limit = add32 initial_offset 0x100000;
                  (r, image_header, d1) = sdk_spi_flash_read (flash env) initial_offset 8 d
           in if r \<noteq> 0 then fail ''Flash fail'' initial_offset d1
              else let offset = add32 initial_offset 8; magic = image_header ! 0
                in if magic \<noteq> ROM_MAGIC \<and> magic \<noteq> ROM_MAGIC_NEW1 then fail ''Missing initial magic'' offset d1
                   else case verify_sections env end_limit (magic = ROM_MAGIC_NEW1) (unat (image_header ! 1)) offset CHKSUM_INIT d1 of
                     (Inl (error, offset1), d2) \<Rightarrow> fail error offset1 d2
                   | (Inr (remaining, offset1, checksum), d2) \<Rightarrow>
                       (if remaining > 0 then fail ''Image truncated'' offset1 d2
                        else let offset2 = pad_to 16 (add32 offset1 1);
                                 (_, read_checksum, d3) = sdk_spi_flash_read (flash env) (sub32 offset2 1) 1 d2
                          in if read_checksum ! 0 \<noteq> checksum then fail ''Invalid checksum'' offset2 d3
                             else (True, sub32 offset2 initial_offset, None, d3)))"

text \<open>\<^verbatim>\<open>rboot_digest_image\<close>: the update function of the caller sees the image in pieces of 32 bytes.\<close>

function digest_loop ::
  "'d api_env \<Rightarrow> nat \<Rightarrow> nat \<Rightarrow> ('c \<Rightarrow> byte list \<Rightarrow> 'c) \<Rightarrow> nat \<Rightarrow> 'c \<Rightarrow> 'd \<Rightarrow> bool \<times> 'c \<times> 'd" where
  "digest_loop env offset image_length update_fn i ctx d =
     (if i < image_length then
        (let (r, buf, d1) = sdk_spi_flash_read (flash env) (add32 offset i) 32 d
         in if r \<noteq> 0 then (False, ctx, d1)
            else let digest_len = (if i + 32 > image_length then image_length - i else 32)
              in digest_loop env offset image_length update_fn (i + 32) (update_fn ctx (take digest_len buf)) d1)
      else (True, ctx, d))"
  by pat_completeness auto
termination
  by (relation "measure (\<lambda>(_, _, n, _, i, _, _). n - i)") auto

declare digest_loop.simps [simp del]

definition rboot_digest_image ::
  "'d api_env \<Rightarrow> nat \<Rightarrow> nat \<Rightarrow> ('c \<Rightarrow> byte list \<Rightarrow> 'c) \<Rightarrow> 'c \<Rightarrow> 'd \<Rightarrow> bool \<times> 'c \<times> 'd" where
  "rboot_digest_image env offset image_length update_fn update_ctx d =
     digest_loop env offset image_length update_fn 0 update_ctx d"

end
