(* ===== verification/Rboot_Update.thy ===== *)
theory Rboot_Update
  imports Rboot_Api
begin

text \<open>
  What the interface of the boot loader guarantees to applications, and what the boot loader makes
  of it: the configuration written is the one it reads, data written in chunks arrives, images
  verified before an update are those accepted at boot as long as they have no irom section, and
  requests for a temporary boot are lost. The flash underneath is that of \<^verbatim>\<open>Spi_Flash\<close> (the locale
  \<open>api\<close> extends \<open>nor_rom\<close>).
\<close>

section \<open>The flash under the interface\<close>

text \<open>
  What the interface relies on: a NOR flash of 4096-byte sectors whose numbers fit 16 bits, and
  an allocator and a scheduler that leave its contents alone.
\<close>

locale api = nor_rom "flash env" mem for env :: "'d api_env" and mem :: "'d \<Rightarrow> byte list" +
  assumes geometry: "sector_size (chip (flash env)) = 4096" "8192 \<le> chip_size (chip (flash env))"
      "chip_size (chip (flash env)) \<le> 2 ^ 28" "4096 dvd chip_size (chip (flash env))"
    and others_quiet: "mem (snd (os_malloc env n d)) = mem d" "mem (enter_critical env d) = mem d"
      "mem (exit_critical env d) = mem d" "mem (task_yield env d) = mem d"

lemma put_at_twice: "length c \<le> n \<Longrightarrow> i + n \<le> length m \<Longrightarrow> put_at i (put_at 0 c (block_at i n m)) m = put_at i c m"
  by (rule nth_equalityI) (auto simp: nth_put_at nth_block_at block_at_length)

lemma put_at_take: "i + length v \<le> n \<Longrightarrow> n \<le> length c \<Longrightarrow> put_at i v (take n c) = take n (put_at i v c)"
  by (rule nth_equalityI) (auto simp: nth_put_at)

lemma block_put_at_0:
  "length c \<le> n \<Longrightarrow> i + n \<le> length m \<Longrightarrow> block_at i n (put_at i c m) = put_at 0 c (block_at i n m)"
  by (simp add: put_at_def block_at_def drop_take add.commute)

lemma prog_erased: "a + length c \<le> length m \<Longrightarrow> prog_block (erase_block m a (length c)) a c = put_at a c m"
  using map2_and_ff [of c] by (simp add: prog_block_def erase_block_def block_at_def put_at_def)

text \<open>Sealing works on the structure alone.\<close>

lemma seal_config_take:
  assumes "28 \<le> length c"
  shows "seal_config (put_at 3 [r] (take 28 c)) = take 28 (seal_config (put_at 3 [r] c))"
proof -
  have "put_at 3 [r] (take 28 c) = take 28 (put_at 3 [r] c)"
    using assms by (simp add: put_at_take)
  then show ?thesis
    using assms by (simp add: seal_config_def put_at_take)
qed

context api begin

lemma get_config: "\<exists>d'. rboot_get_config env d = (block_at 4096 28 (mem d), d') \<and> mem d' = mem d"
  using flash_read [of 4096 28 d] geometry(2) by (auto simp: rboot_get_config_def)

lemma set_config:
  assumes "fst (os_malloc env 4096 d)" "length conf = 28"
  shows "\<exists>d'. rboot_set_config env conf d = (True, seal_config conf, d') \<and> mem d' = put_at 4096 (seal_config conf) (mem d)"
proof -
  let ?m = "mem d" and ?c = "seal_config conf"
  have lc: "length ?c = 28"
    using assms(2) by (simp add: seal_config_def)
  have lm: "8192 \<le> length ?m"
    using mem_size geometry(2) by simp
  obtain d1 where d1: "os_malloc env 4096 d = (True, d1)" "mem d1 = ?m"
    using assms(1) others_quiet(1) [of 4096 d] by (cases "os_malloc env 4096 d") auto
  obtain d2 where d2: "sdk_spi_flash_read (flash env) 4096 4096 d1 = (0, block_at 4096 4096 ?m, d2)" "mem d2 = ?m"
    using flash_read [of 4096 4096 d1] geometry(2) d1(2) by auto
  let ?b = "put_at 0 ?c (block_at 4096 4096 ?m)"
  have lb: "length ?b = 4096"
    using lm lc by (simp add: block_at_length)
  have "2 \<le> chip_size (chip (flash env)) div 4096"
    using div_le_mono [OF geometry(2), of 4096] by simp
  then obtain d3 where d3: "sdk_spi_flash_erase_sector (flash env) 1 (enter_critical env d2) = (0, d3)"
    "mem d3 = erase_block ?m 4096 4096"
    using flash_erase [of 1 "enter_critical env d2"] geometry(1) d2(2) others_quiet(2) by auto
  let ?d4 = "enter_critical env (task_yield env (exit_critical env d3))"
  have s: "source_bytes (flash env) ?b 4096 = ?b" "round_size 4096 = 4096"
    using source_bytes_split [of ?b 4096] lb by (simp_all add: round_size_def)
  obtain d5 where d5: "sdk_spi_flash_write (flash env) 4096 (Some ?b) 4096 ?d4 = (0, d5)" "mem d5 = prog_block (mem ?d4) 4096 ?b"
    using flash_write [of 4096 ?b ?d4] geometry(2) s lb by auto
  have "mem ?d4 = erase_block ?m 4096 (length ?b)"
    using d3(2) lb others_quiet by simp
  then have "mem d5 = put_at 4096 ?b ?m"
    using prog_erased [of 4096 ?b ?m] d5(2) lm lb by simp
  also have "\<dots> = put_at 4096 ?c ?m"
    using put_at_twice [of ?c 4096 4096 ?m] lc lm by simp
  finally show ?thesis
    using d1(1) d2(1) d3(1) d5(1) lc others_quiet(3) [of d5] by (simp add: rboot_set_config_def)
qed

text \<open>Selecting a rom: the configuration the boot loader finds afterwards.\<close>

lemma set_current_rom:
  fixes d
  defines "conf \<equiv> block_at 4096 4096 (mem d)"
  assumes "\<And>d. fst (os_malloc env 4096 d)" "rom < cf_count conf"
  shows "\<exists>d'. rboot_set_current_rom env rom d = (True, d') \<and>
    mem d' = put_at 4096 (seal_config (put_at 3 [rom] conf)) (mem d)"
proof -
  have lm: "8192 \<le> length (mem d)" "length conf = 4096"
    using mem_size geometry(2) by (simp_all add: conf_def block_at_length)
  have c28: "block_at 4096 28 (mem d) = take 28 conf"
    by (simp add: conf_def block_at_def)
  obtain d1 where d1: "rboot_get_config env d = (take 28 conf, d1)" "mem d1 = mem d"
    using get_config [of d] c28 by auto
  let ?c = "put_at 3 [rom] (take 28 conf)" and ?n = "seal_config (put_at 3 [rom] conf)"
  obtain d2 where d2: "rboot_set_config env ?c d1 = (True, seal_config ?c, d2)" "mem d2 = put_at 4096 (seal_config ?c) (mem d)"
    using set_config [OF assms(2), of ?c d1] lm(2) d1(2) by auto
  have "\<not> cf_count (take 28 conf) \<le> rom"
    using assms(3) by (simp add: cf_count_def not_le)
  then have r: "rboot_set_current_rom env rom d = (True, d2)"
    using d1(1) d2(1) by (simp add: rboot_set_current_rom_def)
  have "put_at 4096 (take 28 ?n) (mem d) = put_at 4096 ?n (mem d)"
    using lm by (intro nth_equalityI) (auto simp: nth_put_at seal_config_def conf_def nth_block_at block_at_length)
  with r d2(2) seal_config_take [of conf rom] lm(2) show ?thesis
    by simp
qed

end

section \<open>Writing in chunks\<close>

text \<open>
  Flash during an update: the contents \<open>m\<close> before, with the bytes \<open>w\<close> from address \<open>a\<close> on and
  erased bytes up to the end of sector \<open>k - 1\<close>.
\<close>

definition layout :: "byte list \<Rightarrow> nat \<Rightarrow> byte list \<Rightarrow> nat \<Rightarrow> byte list" where
  "layout m a w k = take a m @ w @ replicate (4096 * k - (a + length w)) 0xff @ drop (4096 * k) m"

lemma length_layout: "a + length w \<le> 4096 * k \<Longrightarrow> 4096 * k \<le> length m \<Longrightarrow> length (layout m a w k) = length m"
  by (simp add: layout_def)

lemma layout_start: "a = 4096 * k \<Longrightarrow> layout m a [] k = m"
  by (simp add: layout_def)

lemma erase_block_append: "erase_block (p @ q) (length p) n = p @ replicate n 0xff @ drop n q"
  by (simp add: erase_block_def)

lemma erase_layout:
  assumes "a + length w \<le> 4096 * k" "4096 * Suc k \<le> length m"
  shows "erase_block (layout m a w k) (4096 * k) 4096 = layout m a w (Suc k)"
proof -
  let ?p = "take a m @ w @ replicate (4096 * k - (a + length w)) 0xff"
  have l: "length ?p = 4096 * k"
    using assms by simp
  have e: "layout m a w k = ?p @ drop (4096 * k) m"
    by (simp add: layout_def)
  have "erase_block (layout m a w k) (4096 * k) 4096 = ?p @ replicate 4096 0xff @ drop (4096 * Suc k) m"
    unfolding e using erase_block_append [of ?p "drop (4096 * k) m" 4096] l by (simp add: add.commute)
  also have "\<dots> = layout m a w (Suc k)"
  proof -
    have "4096 * Suc k - (a + length w) = (4096 * k - (a + length w)) + 4096"
      using assms(1) by simp
    then show ?thesis
      unfolding layout_def by (simp only: replicate_add append_assoc)
  qed
  finally show ?thesis .
qed

lemma prog_layout:
  assumes "a + length w + length bs \<le> 4096 * k" "4096 * k \<le> length m"
  shows "prog_block (layout m a w k) (a + length w) bs = layout m a (w @ bs) k"
proof -
  let ?n = "4096 * k - (a + length w)"
  have s: "replicate ?n (0xff :: byte) = replicate (length bs) 0xff @ replicate (?n - length bs) 0xff"
    using assms(1) by (simp flip: replicate_add)
  have l: "length (take a m @ w) = a + length w"
    using assms by simp
  have e: "layout m a w k = (take a m @ w) @ replicate (length bs) 0xff @ replicate (?n - length bs) 0xff @ drop (4096 * k) m"
    unfolding layout_def s by simp
  show ?thesis
    unfolding prog_block_def block_at_def e using l map2_and_ff [of bs]
    by (simp add: layout_def add.assoc)
qed

context api begin

lemma erase_sector_layout:
  assumes "mem d = layout m a w k" "length m = chip_size (chip (flash env))" "a + length w \<le> 4096 * k" "4096 * Suc k \<le> length m"
  shows "mem (snd (sdk_spi_flash_erase_sector (flash env) (word_of_int (int k)) d)) = layout m a w (Suc k)"
proof -
  have "k < 65536" "k < length m div 4096"
    using assms(2,4) geometry(3) by simp_all
  then have u: "unat (word_of_int (int k) :: u16) = k"
    by (simp add: unat_of_nat)
  then show ?thesis
    using flash_erase [of "word_of_int (int k)" d] geometry(1) assms(1,2) \<open>k < length m div 4096\<close>
      erase_layout [OF assms(3,4)] by auto
qed

lemma erase_loop_layout:
  assumes "mem d = layout m a w k" "length m = chip_size (chip (flash env))" "a + length w \<le> 4096 * k"
    and "k \<le> k'" "4096 * k' \<le> length m"
  shows "\<exists>d'. erase_loop env (int k' - 1) (int k - 1) d = (int k' - 1, d') \<and> mem d' = layout m a w k'"
  using assms
proof (induction "k' - k" arbitrary: k d)
  case 0
  then show ?case
    by (simp add: erase_loop.simps)
next
  case (Suc n)
  have lt: "k < k'"
    using Suc.hyps(2) by simp
  let ?d = "snd (sdk_spi_flash_erase_sector (flash env) (word_of_int (int k)) d)"
  have m: "mem ?d = layout m a w (Suc k)"
    using erase_sector_layout [of d m a w k] Suc.prems Suc.hyps(2) by simp
  have "erase_loop env (int k' - 1) (int k - 1) d = erase_loop env (int k' - 1) (int (Suc k) - 1) ?d"
    using lt by (subst erase_loop.simps) simp
  moreover have "\<exists>d'. erase_loop env (int k' - 1) (int (Suc k) - 1) ?d = (int k' - 1, d') \<and> mem d' = layout m a w k'"
    using Suc.hyps(1) [of "Suc k" ?d] m Suc.hyps(2) Suc.prems by simp
  ultimately show ?case
    by simp
qed

end

text \<open>
  The state of an update: \<open>w\<close> is what is in flash, a multiple of four bytes, \<open>e\<close> the bytes kept
  for the next chunk.
\<close>

definition writing :: "nat \<Rightarrow> byte list \<Rightarrow> byte list \<Rightarrow> rboot_write_status \<Rightarrow> bool" where
  "writing a w e st \<longleftrightarrow>
     start_addr st = a + length w \<and> 4 dvd length w \<and>
     last_sector_erased st = int ((a + length w + 4095) div 4096) - 1 \<and>
     extra_count st = length e \<and> length e < 4 \<and> length (extra_bytes st) = 4 \<and> take (length e) (extra_bytes st) = e"

lemma up_sector: "n \<le> 4096 * ((n + 4095) div 4096)" "0 < n \<Longrightarrow> (n - 1) div 4096 = (n + 4095) div 4096 - 1"
  "0 < n \<Longrightarrow> 0 < (n + 4095) div 4096" for n :: nat
proof -
  have "n + 4095 = (n + 4095) div 4096 * 4096 + (n + 4095) mod 4096" "(n + 4095) mod 4096 < 4096"
    by simp_all
  then show "n \<le> 4096 * ((n + 4095) div 4096)"
    by linarith
  assume n: "0 < n"
  then have "n + 4095 = (n - 1) + 4096"
    by simp
  then have "(n + 4095) div 4096 = (n - 1) div 4096 + 1"
    by (metis div_add_self2 zero_neq_numeral)
  then show "(n - 1) div 4096 = (n + 4095) div 4096 - 1" "0 < (n + 4095) div 4096"
    by simp_all
qed

definition whole_words :: "byte list \<Rightarrow> nat" where
  "whole_words xs = length xs - length xs mod 4"

context api begin

lemma write_flash_step:
  fixes c e w a
  defines "k \<equiv> (a + length w + 4095) div 4096" and "b \<equiv> e @ c"
  defines "w' \<equiv> w @ take (whole_words b) b"
  defines "k' \<equiv> (a + length w' + 4095) div 4096"
  assumes "writing a w e st" "mem d = layout m a w k" "length m = chip_size (chip (flash env))"
    and "4096 dvd a" "0 < a" "c \<noteq> []" "length c + 3 < 2 ^ 16" "4096 * k' \<le> length m"
    and "\<And>n d. fst (os_malloc env n d)"
  shows "\<exists>st' d'. rboot_write_flash env st (Some c) (of_nat (length c)) d = (True, st', d') \<and>
    writing a w' (drop (whole_words b) b) st' \<and> mem d' = layout m a w' k'"
proof -
  let ?n = "whole_words b"
  have st: "start_addr st = a + length w" "4 dvd length w" "last_sector_erased st = int k - 1" "extra_count st = length e"
    "length e < 4" "length (extra_bytes st) = 4" "take (length e) (extra_bytes st) = e"
    using assms(5) by (simp_all add: writing_def k_def)
  have n: "?n \<le> length b" "4 dvd ?n" "length b mod 4 = length b - ?n"
    by (simp_all add: whole_words_def dvd_minus_mod)
  have lw: "length w' = length w + ?n"
    using n(1) by (simp add: w'_def)
  have kk: "k \<le> k'" "a + length w \<le> 4096 * k" "a + length w' \<le> 4096 * k'"
    using lw up_sector(1) [of "a + length w"] up_sector(1) [of "a + length w'"] div_le_mono [of "a + length w + 4095" "a + length w' + 4095" 4096]
    by (simp_all add: k_def k'_def)
  have len: "unat (of_nat (length c) :: u16) = length c" "unat (of_nat (length c) + of_nat (length e) :: u16) = length b"
    using assms(11) st(5) by (simp_all add: unat_of_nat unat_word_ariths b_def)
  have nz: "(of_nat (length c) :: u16) \<noteq> 0"
    using len(1) assms(10) by force
  obtain d1 where d1: "os_malloc env (length c + length e) d = (True, d1)" "mem d1 = layout m a w k"
    using assms(13) [of "length c + length e" d] others_quiet(1) [of "length c + length e" d] assms(6)
    by (cases "os_malloc env (length c + length e) d") auto
  have lim: "a + length w' < 2 ^ 32"
    using kk(3) assms(7,12) chip_ok(1) by simp
  have n32: "add32 (a + length w) ?n = a + length w'" "sub32 (a + length w') 1 = a + length w' - 1"
    using lim lw assms(9) by (simp_all add: add32_no_wrap sub32_no_wrap)
  have ls: "int ((a + length w' - 1) div 4096) = int k' - 1"
    using up_sector(2,3) [of "a + length w'"] assms(9) by (simp add: k'_def of_nat_diff)
  obtain d2 where d2: "erase_loop env (int k' - 1) (int k - 1) d1 = (int k' - 1, d2)" "mem d2 = layout m a w k'"
    using erase_loop_layout [OF d1(2) assms(7) kk(2,1) assms(12)] by auto
  have r: "round_size ?n = ?n" "source_bytes (flash env) b ?n = take ?n b"
    using n by (simp_all add: round_size_def source_bytes_def)
  have wr: "\<exists>d3. sdk_spi_flash_write (flash env) (a + length w) (Some b) ?n d2 = (0, d3) \<and>
      mem d3 = prog_block (mem d2) (a + length w) (take ?n b)"
  proof -
    have "4 dvd a"
      using assms(8) dvd_trans [of 4 4096 a] by simp
    then have "4 dvd a + length w" "a + length w + round_size (length (take ?n b)) \<le> chip_size (chip (flash env))"
      using st(2) r n(1) lw kk(3) assms(7,12) by simp_all
    from flash_write [OF this, of d2] show ?thesis
      using r n(1) by (simp add: sdk_spi_flash_write_def source_bytes_def)
  qed
  then obtain d3 where d3: "sdk_spi_flash_write (flash env) (a + length w) (Some b) ?n d2 = (0, d3)"
    "mem d3 = layout m a w' k'"
    using d2(2) prog_layout [of a w "take ?n b" k' m] kk(3) lw n(1) assms(12) by (auto simp: w'_def add.assoc)
  define st' where "st' = st\<lparr>extra_count := length b mod 4, last_sector_erased := int k' - 1,
    extra_bytes := put_at 0 (block_at ?n (length b mod 4) b) (extra_bytes st), start_addr := a + length w'\<rparr>"
  have blk: "block_at ?n (length b mod 4) b = drop ?n b"
    using n by (simp add: block_at_def)
  have "writing a w' (drop ?n b) st'"
    using st(2,6) n lw blk by (simp add: writing_def st'_def k'_def put_at_def)
  moreover have "rboot_write_flash env st (Some c) (of_nat (length c)) d = (True, st', d3)"
  proof -
    have "length b - length b mod 4 = ?n"
      by (simp add: whole_words_def)
    then show ?thesis
      using nz d1(1) d2(1) d3(1) st len n32 ls lw
      by (simp add: rboot_write_flash_def st'_def b_def [symmetric] Let_def)
  qed
  ultimately show ?thesis
    using d3(2) by blast
qed

end

text \<open>An update: the chunks in order, until one fails.\<close>

fun write_all :: "'d api_env \<Rightarrow> rboot_write_status \<Rightarrow> byte list list \<Rightarrow> 'd \<Rightarrow> (rboot_write_status \<times> 'd) option" where
  "write_all env st [] d = Some (st, d)"
| "write_all env st (c # cs) d =
     (case rboot_write_flash env st (Some c) (of_nat (length c)) d of
        (ok, st', d') \<Rightarrow> if ok then write_all env st' cs d' else None)"

lemma whole_words_carry:
  assumes "4 dvd length w"
  shows "whole_words (w @ b) = length w + whole_words b"
proof -
  have "(length w + length b) mod 4 = length b mod 4"
    using assms by (metis dvd_imp_mod_0 add.left_neutral mod_add_left_eq)
  then show ?thesis
    using mod_less_eq_dividend [of "length b" 4] by (simp add: whole_words_def)
qed

lemma whole_words_le: "whole_words xs \<le> length xs"
  by (simp add: whole_words_def)

context api begin

lemma write_all_layout:
  assumes "writing a w e st" "mem d = layout m a w ((a + length w + 4095) div 4096)"
    and "length m = chip_size (chip (flash env))" "4096 dvd a" "0 < a"
    and "\<forall>c\<in>set cs. c \<noteq> [] \<and> length c + 3 < 2 ^ 16"
    and "a + length (w @ e @ concat cs) \<le> length m"
    and "\<And>n d. fst (os_malloc env n d)"
  shows "\<exists>st' d'. write_all env st cs d = Some (st', d') \<and>
    (let t = w @ e @ concat cs; n = whole_words t
     in writing a (take n t) (drop n t) st' \<and> mem d' = layout m a (take n t) ((a + n + 4095) div 4096))"
  using assms(1,2,6,7)
proof (induction cs arbitrary: w e st d)
  case Nil
  have "whole_words (w @ e) = length w"
    using Nil.prems(1) whole_words_carry [of w e] by (auto simp: writing_def whole_words_def)
  with Nil.prems show ?case
    by (simp add: Let_def)
next
  case (Cons c cs)
  let ?b = "e @ c"
  let ?w' = "w @ take (whole_words ?b) ?b" and ?e' = "drop (whole_words ?b) ?b"
  have fits: "4096 * ((a + length ?w' + 4095) div 4096) \<le> length m"
  proof -
    have "a + length ?w' \<le> length m"
      using Cons.prems(4) whole_words_le [of ?b] by simp
    then have "(a + length ?w' + 4095) div 4096 \<le> (length m + 4095) div 4096"
      by (intro div_le_mono) simp
    moreover have "(length m + 4095) div 4096 = length m div 4096"
      using geometry(4) assms(3) by (auto elim!: dvdE)
    ultimately show ?thesis
      using geometry(4) assms(3) by (auto elim!: dvdE)
  qed
  obtain st1 d1 where s1: "rboot_write_flash env st (Some c) (of_nat (length c)) d = (True, st1, d1)"
    "writing a ?w' ?e' st1" "mem d1 = layout m a ?w' ((a + length ?w' + 4095) div 4096)"
    using write_flash_step [OF Cons.prems(1,2) assms(3-5) _ _ fits assms(8)] Cons.prems(3) by auto
  have t: "?w' @ ?e' @ concat cs = w @ e @ concat (c # cs)"
    by (simp only: append_assoc append_take_drop_id concat.simps) (simp flip: append_assoc del: take_append drop_append)
  have "\<exists>st' d'. write_all env st1 cs d1 = Some (st', d') \<and>
    (let t = ?w' @ ?e' @ concat cs; n = whole_words t
     in writing a (take n t) (drop n t) st' \<and> mem d' = layout m a (take n t) ((a + n + 4095) div 4096))"
  proof (rule Cons.IH [OF s1(2,3)])
    show "\<forall>c\<in>set cs. c \<noteq> [] \<and> length c + 3 < 2 ^ 16"
      using Cons.prems(3) by simp
    show "a + length (?w' @ ?e' @ concat cs) \<le> length m"
      unfolding t using Cons.prems(4) .
  qed
  then show ?case
    using s1(1) unfolding t by simp
qed

end

section \<open>A chip for the interface\<close>

definition api_chip :: "byte list api_env" where
  "api_chip = \<lparr>flash = sim_env sdk_flashchip, os_malloc = (\<lambda>n d. (True, d)), enter_critical = id, exit_critical = id, task_yield = id\<rparr>"

lemma api_malloc: "fst (os_malloc api_chip n d)"
  by (simp add: api_chip_def)

interpretation api4M: api api_chip "sim_mem sdk_flashchip"
  by unfold_locales (auto simp: api_chip_def chip4M.chip_ok chip4M.mem_size chip4M.read chip4M.program chip4M.enable
      chip4M.erase chip4M.quiet, simp_all add: sdk_flashchip_def sim_env_def)

lemma copy_three_words:
  assumes "12 \<le> length src" "12 \<le> length dest"
  shows "copy_words 3 src dest = put_at 0 (take 12 src) dest"
proof -
  have "[0..<3] = [0, 1, 2 :: nat]"
    by (simp add: upt_rec)
  then show ?thesis
    using assms by (intro nth_equalityI) (auto simp: copy_words_def nth_put_at nth_block_at block_at_length)
qed

section \<open>Properties\<close>

text \<open>
  C8: writing a new image. For any split of the data into chunks of at most 65532 bytes, from a
  sector boundary on, all calls of \<^verbatim>\<open>rboot_write_flash\<close> succeed, and flash then holds the data up
  to the last whole word, erased bytes up to the end of the sector, and outside of these sectors
  what it held before. The one to three bytes behind the last whole word are kept in the status
  structure: they never reach the flash.
\<close>

theorem ota_update_written:
  assumes "api env mem" "\<And>n d. fst (os_malloc env n d)" "mem d = m" "4096 dvd a" "0 < a"
    and "\<forall>c\<in>set cs. c \<noteq> [] \<and> length c + 3 < 2 ^ 16" "concat cs = t" "a + length t \<le> length m"
    and "n = length t - length t mod 4" "k = (a + n + 4095) div 4096 * 4096"
  shows "\<exists>st d'. write_all env (rboot_write_init a) cs d = Some (st, d') \<and>
    mem d' = take a m @ take n t @ replicate (k - (a + n)) 0xff @ drop k m \<and>
    start_addr st = a + n \<and> take (extra_count st) (extra_bytes st) = drop n t"
proof -
  have w0: "writing a [] [] (rboot_write_init a)"
    using assms(4) up_sector(1) [of a] by (auto simp: writing_def rboot_write_init_def elim!: dvdE)
  have m0: "mem d = layout m a [] ((a + length [] + 4095) div 4096)"
    using assms(3,4) by (auto simp: layout_start elim!: dvdE)
  have "length m = chip_size (chip (flash env))"
    using nor_rom.mem_size [OF api.axioms(1) [OF assms(1)]] assms(3) by blast
  from api.write_all_layout [OF assms(1) w0 m0 this assms(4-6) _ assms(2)] assms(7-10)
  obtain st d' where "write_all env (rboot_write_init a) cs d = Some (st, d')"
    "writing a (take n t) (drop n t) st" "mem d' = layout m a (take n t) ((a + n + 4095) div 4096)"
    by (auto simp: whole_words_def Let_def)
  then show ?thesis
    using assms(9,10) by (auto simp: writing_def layout_def mult.commute)
qed

theorem ota_update_written_witness:
  "\<exists>st d'. write_all api_chip (rboot_write_init 0x2000) [[1, 2, 3], [4, 5]] [] = Some (st, d') \<and>
     sim_mem sdk_flashchip d' = take 0x2000 (sim_mem sdk_flashchip []) @ [1, 2, 3, 4] @ replicate 4092 0xff @ drop 0x3000 (sim_mem sdk_flashchip []) \<and>
     start_addr st = 0x2004 \<and> take (extra_count st) (extra_bytes st) = [5]"
proof -
  have "0x2000 + length [1 :: byte, 2, 3, 4, 5] \<le> length (sim_mem sdk_flashchip [])"
    by (simp add: sim_mem_def sdk_flashchip_def)
  then show ?thesis
    using ota_update_written [OF api4M.api_axioms _ refl, of "0x2000" "[[1, 2, 3], [4, 5]]" "[1, 2, 3, 4, 5]" "[]" 4 "0x3000"]
    by (auto simp: api_malloc)
qed

text \<open>The configuration written by the interface, read by the boot loader.\<close>

lemma select_and_boot:
  assumes "api env mem" "\<And>d. fst (os_malloc env 4096 d)" "boot_flash benv bmem rd"
    and "mem d = m" "block_at 4096 4096 m = conf" "config_valid conf" "rom < cf_count conf" "cf_count conf \<le> 4"
    and "length stack = 12" "length (brtc s) = 768" "\<not> (rtc_valid (block_at 256 12 (brtc s)) \<and> rt_next_mode (block_at 256 12 (brtc s)) AND MODE_TEMP_ROM \<noteq> 0)"
  shows "\<exists>d' conf'. rboot_set_current_rom env rom d = (True, d') \<and> mem d' = put_at 4096 conf' m \<and>
    config_valid conf' \<and> cf_current_rom conf' = rom \<and> length conf' = 4096 \<and> (\<forall>i. i \<noteq> 3 \<and> i \<noteq> 24 \<longrightarrow> conf' ! i = conf ! i) \<and>
    (bmem (bflash s) = mem d' \<and> image_at rd (mem d') (cf_rom conf (uint rom)) \<noteq> 0 \<longrightarrow>
      (\<exists>s'. find_image benv stack s = Some (image_at rd (mem d') (cf_rom conf (uint rom)), s') \<and> bmem (bflash s') = mem d'))"
proof -
  let ?c = "seal_config (put_at 3 [rom] conf)"
  have lm: "8192 \<le> length m"
    using nor_rom.mem_size [OF api.axioms(1) [OF assms(1)], of d] api.geometry(2) [OF assms(1)] assms(4) by simp
  then have lc: "length conf = 4096" "length ?c = 4096"
    using assms(5) block_at_length [of 4096 4096 m] by (auto simp: seal_config_def)
  have r: "rom = of_nat (unat rom)" "unat rom < 256"
    using unat_byte_less [of rom] by simp_all
  have v: "config_valid ?c" "unat (cf_current_rom ?c) = unat rom" "\<forall>i. i \<noteq> 3 \<and> i \<noteq> 24 \<longrightarrow> ?c ! i = conf ! i"
    using config_switch [OF lc(1) assms(6) r(2)] r(1) by simp_all
  obtain d' where d': "rboot_set_current_rom env rom d = (True, d')" "mem d' = put_at 4096 ?c m"
    using api.set_current_rom [OF assms(1,2)] assms(4,5,7) by metis
  have b: "block_at 4096 4096 (mem d') = ?c" "8192 \<le> length (mem d')"
    using block_put_at [of 4096 ?c m] lm lc(2) d'(2) by simp_all
  have f: "cf_count ?c = cf_count conf" "cf_rom ?c (int (unat rom)) = cf_rom conf (uint rom)"
  proof -
    have "unat rom < 4"
      using assms(7,8) by (simp add: word_less_nat_alt word_le_nat_alt)
    then have "nat (8 + 4 * uint rom) = 8 + 4 * unat rom" "8 + 4 * unat rom + 3 < 24"
      by (simp_all add: nat_add_distrib nat_mult_distrib)
    then show "cf_rom ?c (int (unat rom)) = cf_rom conf (uint rom)"
      using v(3) by (simp add: cf_rom_def le32_at_def)
  qed (use v(3) in \<open>simp add: cf_count_def\<close>)
  have "\<exists>s'. find_image benv stack s = Some (image_at rd (mem d') (cf_rom conf (uint rom)), s') \<and> bmem (bflash s') = mem d'"
    if h: "bmem (bflash s) = mem d'" "image_at rd (mem d') (cf_rom conf (uint rom)) \<noteq> 0"
  proof -
    obtain x where x: "bmem x = mem d'" "find_image benv stack s = choose_image benv ?c (block_at 256 12 (brtc s)) False (s\<lparr>bflash := x\<rparr>)"
      using boot_flash.find_image_start [OF assms(3), of s stack] b h(1) v(1) assms(9-11) by (auto simp: Let_def)
    let ?s = "s\<lparr>bflash := x\<rparr>"
    have p: "8192 \<le> length (bmem (bflash ?s))" "length (brtc ?s) = 768" "bmem (bflash ?s) = mem d'"
      "length (block_at 256 12 (brtc s)) = 12" "unat rom < unat (cf_count ?c)"
      using b x(1) assms(7,10) f(1) by (simp_all add: block_at_length word_less_nat_alt)
    have "List.find (good_rom rd (mem d') ?c) (tries (unat (cf_count ?c)) (unat rom)) = Some (unat rom)"
      using p(5) h(2) f(2) by (simp add: tries_def upt_conv_Cons good_rom_def)
    with boot_flash.choose_image_standard [OF assms(3) p(1) lc(2) p(4,2) refl v(2) p(5)] x(2) f(2) show ?thesis
      unfolding p(3) by auto
  qed
  moreover have "cf_current_rom ?c = rom"
    using v(2) by (simp add: word_eq_iff_unsigned [where ?'a = nat])
  ultimately show ?thesis
    using d' v lc(2) by blast
qed

text \<open>
  C9: selecting a rom takes effect. With a valid configuration and memory for its buffer,
  \<^verbatim>\<open>rboot_set_current_rom\<close> succeeds for a rom that exists, and changes the flash in the
  configuration sector only, where everything but the selection and the checksum is kept. On the
  next standard boot from that flash the boot loader returns this rom, if its image is good.
\<close>

theorem set_current_rom_boots:
  assumes "api env mem" "\<And>d. fst (os_malloc env 4096 d)" "boot_flash benv bmem rd"
    and "mem d = m" "block_at 4096 4096 m = conf" "config_valid conf" "rom < cf_count conf" "cf_count conf \<le> 4"
    and "length stack = 12" "length (brtc s) = 768" "\<not> (rtc_valid (block_at 256 12 (brtc s)) \<and> rt_next_mode (block_at 256 12 (brtc s)) AND MODE_TEMP_ROM \<noteq> 0)"
  shows "\<exists>d' conf'. rboot_set_current_rom env rom d = (True, d') \<and> mem d' = put_at 4096 conf' m \<and>
    config_valid conf' \<and> cf_current_rom conf' = rom \<and> length conf' = 4096 \<and> (\<forall>i. i \<noteq> 3 \<and> i \<noteq> 24 \<longrightarrow> conf' ! i = conf ! i) \<and>
    (bmem (bflash s) = mem d' \<and> image_at rd (mem d') (cf_rom conf (uint rom)) \<noteq> 0 \<longrightarrow>
      (\<exists>s'. find_image benv stack s = Some (image_at rd (mem d') (cf_rom conf (uint rom)), s') \<and> bmem (bflash s') = mem d'))"
  by (rule select_and_boot [OF assms])

theorem set_current_rom_boots_witness:
  "\<exists>d' conf'. rboot_set_current_rom api_chip 0 chip_mem = (True, d') \<and> config_valid conf' \<and> cf_current_rom conf' = 0 \<and>
     sim_mem sdk_flashchip d' = put_at 4096 conf' (sim_mem sdk_flashchip chip_mem)"
proof -
  let ?m = "sim_mem sdk_flashchip chip_mem"
  have b: "block_at 4096 4096 ?m = chip_conf"
    using chip_mem(1,2) by (simp add: sim_mem_def sdk_flashchip_def block_at_def)
  have t: "rt_next_mode (block_at 256 12 (chip_rtc 0 0)) = 0"
    by (rule chip_rtc)
  show ?thesis
    using set_current_rom_boots [OF api4M.api_axioms api_malloc chip.boot_flash_axioms refl b, of 0 "replicate 12 0"
        "\<lparr>bflash = chip_mem, brtc = chip_rtc 0 0\<rparr>"] t chip_conf chip_rtc(1)
    by auto
qed

text \<open>
  C35: a temporary boot cannot be asked for. \<^verbatim>\<open>rboot_set_temp_rom\<close> reports success, but the RTC
  functions it uses ignore the address: it reads and overwrites the first words of the system
  area, and the words from which the boot loader reads the request are not touched. For the
  same reason the application is never told what the boot loader left for it there.
\<close>

theorem temp_rom_request_lost:
  assumes "length rtc = 768" "length stack = 12"
  shows "fst (rboot_set_temp_rom stack rom rtc) \<and>
    block_at 256 12 (snd (rboot_set_temp_rom stack rom rtc)) = block_at 256 12 rtc \<and>
    rt_next_mode (take 12 (snd (rboot_set_temp_rom stack rom rtc))) = MODE_TEMP_ROM \<and>
    rboot_get_last_boot_rom stack rtc = (if rtc_valid (take 12 rtc) then Some (rt_last_rom (take 12 rtc)) else None)"
proof -
  have get: "rboot_get_rtc_data stack rtc = (rtc_valid (take 12 rtc), take 12 rtc)"
    using assms copy_three_words [of rtc stack] by (simp add: rboot_get_rtc_data_def sdk_system_rtc_mem_read_def rtc_size_def put_at_def)
  let ?r = "if rtc_valid (take 12 rtc) then take 12 rtc
    else put_at 6 [0] (put_at 5 [MODE_STANDARD] (put_at 0 (le32 RBOOT_RTC_MAGIC) (take 12 rtc)))"
  let ?q = "put_at 7 [rom] (put_at 4 [MODE_TEMP_ROM] ?r)"
  have l: "length ?r = 12" "length ?q = 12" "length (seal_rtc ?q) = 12"
    using assms(1) by (simp_all add: seal_rtc_def)
  have set: "rboot_set_temp_rom stack rom rtc = (True, put_at 0 (seal_rtc ?q) rtc)"
    using get copy_three_words [of "seal_rtc ?q" rtc] l(3) assms(1)
    by (simp add: rboot_set_temp_rom_def rboot_set_rtc_data_def sdk_system_rtc_mem_write_def rtc_size_def Let_def)
  have "rt_next_mode (seal_rtc ?q) = MODE_TEMP_ROM"
    using l by (simp add: rt_next_mode_def seal_rtc_def nth_put_at)
  moreover have "block_at 256 12 (put_at 0 v rtc) = block_at 256 12 rtc" "take 12 (put_at 0 v rtc) = v" if "length v = 12" for v
    using that assms(1) by (simp_all add: block_at_def put_at_def)
  ultimately show ?thesis
    using set l(3) get by (simp add: rboot_get_last_boot_rom_def)
qed

theorem temp_rom_request_lost_witness:
  "fst (rboot_set_temp_rom (replicate 12 0) 1 (chip_rtc 0 0)) \<and>
   rt_next_mode (block_at 256 12 (snd (rboot_set_temp_rom (replicate 12 0) 1 (chip_rtc 0 0)))) = MODE_STANDARD"
  using temp_rom_request_lost [of "chip_rtc 0 0" "replicate 12 0" 1] by (simp add: chip_rtc(1,4))

section \<open>Verifying\<close>

lemma pad_to_dvd: "n dvd x \<Longrightarrow> 0 < n \<Longrightarrow> x + (n - 1) < 2 ^ 32 \<Longrightarrow> pad_to n x = x"
proof -
  assume a: "n dvd x" "0 < n" "x + (n - 1) < 2 ^ 32"
  then obtain k where k: "x = n * k"
    by (auto elim: dvdE)
  have "(n * k + (n - 1)) div n = k"
    using div_mult_self2 [of n "n - 1" k] a(2) by (simp add: add.commute del: div_mult_self2)
  with a(3) k show ?thesis
    by (simp add: pad_to_def add32_no_wrap)
qed

lemma pad_sum_pos: "x + 16 < 2 ^ 32 \<Longrightarrow> pad_to 16 (x + 1) = sum_pos x + 1"
proof -
  assume a: "x + 16 < 2 ^ 32"
  have "(x + 16) div 16 * 16 = x - x mod 16 + 16"
    using div_add_self2 [of 16 x] by (simp add: minus_mod_eq_div_mult del: div_add_self2)
  moreover have "x - x mod 16 + 16 = sum_pos x + 1"
    by (simp add: sum_pos_def)
  moreover have "add32 (x + 1) 15 = x + 16"
    using a by (simp add: add32_no_wrap)
  ultimately show ?thesis
    by (simp only: pad_to_def) simp
qed

lemma xor_bytes_start: "xor_bytes xs c = c XOR xor_bytes xs 0"
proof (induction xs arbitrary: c)
  case (Cons x xs)
  show ?case
    using Cons [of "c XOR x"] Cons [of x] by (simp add: xor_bytes_def xor.assoc)
qed (simp add: xor_bytes_def)

lemma block_at_Suc: "a < length m \<Longrightarrow> block_at a (Suc n) m = m ! a # block_at (Suc a) n m"
  by (simp add: block_at_def Cons_nth_drop_Suc [symmetric])

context api begin

lemma verify_sum_eq:
  assumes "off + len + 16 \<le> length (mem d)" "i \<le> len"
    and "i mod 16 \<noteq> 0 \<Longrightarrow> chunk = block_at (off + i - i mod 16) 16 (mem d)"
  shows "\<exists>d'. verify_sum env off i len chunk c d = (xor_bytes (block_at (off + i) (len - i) (mem d)) c, d') \<and> mem d' = mem d"
  using assms
proof (induction "len - i" arbitrary: i chunk c d)
  case 0
  then show ?case
    by (subst verify_sum.simps) (simp add: block_at_def xor_bytes_def)
next
  case (Suc n)
  let ?m = "mem d" and ?blk = "block_at (off + i - i mod 16) 16 (mem d)"
  have lt: "i < len"
    using Suc.hyps(2) by simp
  obtain d1 where d1: "(if i mod 16 = 0 then snd (sdk_spi_flash_read (flash env) (add32 off i) 16 d) else (chunk, d)) = (?blk, d1)"
    "mem d1 = ?m"
  proof (cases "i mod 16 = 0")
    case True
    then show ?thesis
      using flash_read [of "off + i" 16 d] that Suc.prems(1) lt chip_ok(1) mem_size [of d] by (auto simp: add32_no_wrap)
  next
    case False
    with Suc.prems(3) that show ?thesis
      by auto
  qed
  have x: "?blk ! (i mod 16) = ?m ! (off + i)"
    using nth_block_at [of "i mod 16" 16 "off + i - i mod 16" ?m] Suc.prems(1) lt mod_less_eq_dividend [of i 16] by simp
  have nxt: "(i + 1) mod 16 \<noteq> 0 \<Longrightarrow> ?blk = block_at (off + (i + 1) - (i + 1) mod 16) 16 (mem d1)"
    using d1(2) by (simp add: mod_Suc split: if_splits)
  have IH: "\<exists>d'. verify_sum env off (i + 1) len ?blk (c XOR ?blk ! (i mod 16)) d1 =
      (xor_bytes (block_at (off + (i + 1)) (len - (i + 1)) (mem d1)) (c XOR ?blk ! (i mod 16)), d') \<and> mem d' = mem d1"
    by (rule Suc.hyps(1)) (use Suc.hyps(2) Suc.prems(1) d1(2) nxt lt in simp_all)
  have "block_at (off + i) (len - i) ?m = ?m ! (off + i) # block_at (off + (i + 1)) (len - (i + 1)) ?m"
    using block_at_Suc [of "off + i" ?m "len - (i + 1)"] Suc.prems(1) lt by (simp add: Suc_diff_Suc)
  then show ?case
    using IH lt d1 x by (subst verify_sum.simps) (simp add: xor_bytes_def)
qed

lemma verify_sections_old:
  assumes "length (mem d) = n" "4 dvd pos" "\<forall>s\<in>set secs. 4 dvd length (snd s)"
    and "block_at pos (length (concat (map section_bytes secs))) (mem d) = concat (map section_bytes secs)"
    and "pos + length (concat (map section_bytes secs)) + 16 \<le> n" "secs \<noteq> [] \<longrightarrow> pos + length (concat (map section_bytes secs)) \<le> lim"
  shows "\<exists>d'. verify_sections env lim False (length secs) pos c d =
    (Inr (0, pos + length (concat (map section_bytes secs)), xor_bytes (concat (map snd secs)) c), d') \<and> mem d' = mem d"
  using assms
proof (induction secs arbitrary: pos c d)
  case Nil
  then show ?case
    by (subst verify_sections.simps) (simp add: xor_bytes_def)
next
  case (Cons s secs)
  let ?l = "8 + length (snd s)" and ?r = "concat (map section_bytes secs)" and ?m = "mem d"
  have n32: "n < 2 ^ 32"
    using Cons.prems(1) mem_size [of d] chip_ok(1) by simp
  have b: "block_at pos ?l ?m = section_bytes s" "block_at (pos + ?l) (length ?r) ?m = ?r"
    using block_at_split_eq [of pos "section_bytes s" ?r ?m] Cons.prems(1,4,5) by (simp_all add: add.assoc)
  have h: "block_at pos 8 ?m = le32 (fst s) @ le32 (length (snd s))" "block_at (pos + 8) (length (snd s)) ?m = snd s"
    using block_at_split_eq [of pos "le32 (fst s) @ le32 (length (snd s))" "snd s" ?m] b(1) Cons.prems(1,5)
    by (simp_all add: section_bytes_def add.assoc)
  have v: "le32_at (block_at pos 8 ?m) 4 = length (snd s)"
    using le32_at_le32(1) [of "length (snd s)" "fst s" "[]"] h(1) Cons.prems(5) n32 by simp
  obtain d1 where d1: "sdk_spi_flash_read (flash env) pos 8 d = (0, block_at pos 8 ?m, d1)" "mem d1 = ?m"
    using flash_read [of pos 8 d] Cons.prems(1,5) mem_size [of d] by auto
  obtain d2 where d2: "verify_sum env (pos + 8) 0 (length (snd s)) (replicate 16 0) c d1 = (xor_bytes (snd s) c, d2)" "mem d2 = ?m"
    using verify_sum_eq [of "pos + 8" "length (snd s)" d1 0 "replicate 16 0" c] Cons.prems(1,5) d1(2) h(2) by auto
  have a4: "4 dvd pos + ?l"
    using Cons.prems(2,3) by simp
  have w: "add32 pos 8 = pos + 8" "add32 (length (snd s)) (pos + 8) = pos + ?l" "add32 (pos + 8) (length (snd s)) = pos + ?l"
    "pad_to 4 (pos + ?l) = pos + ?l"
    using Cons.prems(5) n32 pad_to_dvd [OF a4] by (simp_all add: add32_no_wrap)
  have "verify_sections env lim False (length (s # secs)) pos c d = verify_sections env lim False (length secs) (pos + ?l) (xor_bytes (snd s) c) d2"
    using Cons.prems(3,6) d1(1) d2(1) v w by (subst verify_sections.simps) simp
  moreover have "\<exists>d'. verify_sections env lim False (length secs) (pos + ?l) (xor_bytes (snd s) c) d2 =
    (Inr (0, pos + ?l + length ?r, xor_bytes (concat (map snd secs)) (xor_bytes (snd s) c)), d') \<and> mem d' = mem d2"
    by (rule Cons.IH) (use Cons.prems a4 b(2) d2(2) in \<open>simp_all add: add.assoc\<close>)
  ultimately show ?case
    using d2(2) by (simp add: xor_bytes_append add.assoc)
qed

text \<open>
  Sections that are too long for the limit, or whose length is no multiple of 4, are not accepted.
\<close>

definition refused :: "string \<times> nat + nat \<times> nat \<times> byte \<Rightarrow> bool" where
  "refused r \<longleftrightarrow> (case r of Inl _ \<Rightarrow> True | Inr (remaining, _) \<Rightarrow> 0 < remaining)"

lemma verify_sections_refused:
  assumes "length (mem d) = n" "4 dvd pos" "secs \<noteq> []"
    and "\<not> ((\<forall>s\<in>set secs. 4 dvd length (snd s)) \<and> pos + length (concat (map section_bytes secs)) \<le> lim)"
    and "block_at pos (length (concat (map section_bytes secs))) (mem d) = concat (map section_bytes secs)"
    and "pos + length (concat (map section_bytes secs)) + 16 \<le> n"
  shows "refused (fst (verify_sections env lim False (length secs) pos c d))"
  using assms
proof (induction secs arbitrary: pos c d)
  case (Cons s secs)
  let ?l = "8 + length (snd s)" and ?r = "concat (map section_bytes secs)" and ?m = "mem d"
  have n32: "n < 2 ^ 32"
    using Cons.prems(1) mem_size [of d] chip_ok(1) by simp
  have b: "block_at pos ?l ?m = section_bytes s" "block_at (pos + ?l) (length ?r) ?m = ?r"
    using block_at_split_eq [of pos "section_bytes s" ?r ?m] Cons.prems(1,5,6) by (simp_all add: add.assoc)
  have h: "block_at pos 8 ?m = le32 (fst s) @ le32 (length (snd s))" "block_at (pos + 8) (length (snd s)) ?m = snd s"
    using block_at_split_eq [of pos "le32 (fst s) @ le32 (length (snd s))" "snd s" ?m] b(1) Cons.prems(1,6)
    by (simp_all add: section_bytes_def add.assoc)
  have v: "le32_at (block_at pos 8 ?m) 4 = length (snd s)"
    using le32_at_le32(1) [of "length (snd s)" "fst s" "[]"] h(1) Cons.prems(6) n32 by simp
  obtain d1 where d1: "sdk_spi_flash_read (flash env) pos 8 d = (0, block_at pos 8 ?m, d1)" "mem d1 = ?m"
    using flash_read [of pos 8 d] Cons.prems(1,6) mem_size [of d] by auto
  have w: "add32 pos 8 = pos + 8" "add32 (length (snd s)) (pos + 8) = pos + ?l" "add32 (pos + 8) (length (snd s)) = pos + ?l"
    using Cons.prems(6) n32 by (simp_all add: add32_no_wrap)
  show ?case
  proof (cases "pos < lim \<and> pos + ?l \<le> lim \<and> 4 dvd length (snd s)")
    case False
    then show ?thesis
      using d1(1) v w by (subst verify_sections.simps) (auto simp: refused_def dvd_eq_mod_eq_0 Let_def)
  next
    case True
    then have "secs \<noteq> []"
      using Cons.prems(4) by auto
    have a4: "4 dvd pos + ?l"
      using Cons.prems(2) True by simp
    then have p4: "pad_to 4 (pos + ?l) = pos + ?l"
      using Cons.prems(6) n32 pad_to_dvd [OF a4] by simp
    obtain d2 where d2: "verify_sum env (pos + 8) 0 (length (snd s)) (replicate 16 0) c d1 = (xor_bytes (snd s) c, d2)" "mem d2 = ?m"
      using verify_sum_eq [of "pos + 8" "length (snd s)" d1 0 "replicate 16 0" c] Cons.prems(1,6) d1(2) h(2) by auto
    have "verify_sections env lim False (length (s # secs)) pos c d = verify_sections env lim False (length secs) (pos + ?l) (xor_bytes (snd s) c) d2"
      using True d1(1) d2(1) v w p4 by (subst verify_sections.simps) simp
    moreover have "refused (fst (verify_sections env lim False (length secs) (pos + ?l) (xor_bytes (snd s) c) d2))"
      by (rule Cons.IH) (use Cons.prems True a4 b(2) d2(2) \<open>secs \<noteq> []\<close> in \<open>simp_all add: add.assoc\<close>)
    ultimately show ?thesis
      by simp
  qed
qed simp

lemma verify_image_refused:
  assumes "mem d = m" "a + 16 \<le> length m"
    and "\<And>d1. mem d1 = m \<Longrightarrow>
      refused (fst (verify_sections env (a + 0x100000) (m ! a = ROM_MAGIC_NEW1) (unat (m ! (a + 1))) (a + 8) CHKSUM_INIT d1))"
  shows "\<not> fst (rboot_verify_image env a d)"
proof -
  have n32: "length m \<le> 2 ^ 28" "length m = chip_size (chip (flash env))"
    using mem_size [of d] geometry(3) assms(1) by simp_all
  obtain d1 where d1: "sdk_spi_flash_read (flash env) a 8 d = (0, block_at a 8 m, d1)" "mem d1 = m"
    using flash_read [of a 8 d] assms(1,2) n32(2) by auto
  have h: "block_at a 8 m ! 0 = m ! a" "block_at a 8 m ! Suc 0 = m ! (a + 1)"
    using assms(2) nth_block_at [of 0 8 a m] nth_block_at [of 1 8 a m] by simp_all
  have w: "add32 a 0x100000 = a + 0x100000" "add32 a 8 = a + 8"
    using n32(1) assms(2) by (simp_all add: add32_no_wrap)
  show ?thesis
    using assms(3) [OF d1(2)] d1(1) h w
    by (auto simp: rboot_verify_image_def Let_def refused_def split: sum.splits prod.splits)
qed

text \<open>The end of the verification, from the sections that hold the checksum on.\<close>

lemma verify_image_end:
  assumes "mem d = m" "4 dvd a" "a + 16 \<le> length m" "p + 16 < length m"
    and "m ! a = ROM_MAGIC \<or> m ! a = ROM_MAGIC_NEW1"
    and "\<And>d1. mem d1 = m \<Longrightarrow> \<exists>d2. verify_sections env (a + 0x100000) (m ! a = ROM_MAGIC_NEW1) (unat (m ! (a + 1))) (a + 8) CHKSUM_INIT d1 =
      (Inr (0, p, c), d2) \<and> mem d2 = m"
    and "a \<le> p"
  shows "(fst (rboot_verify_image env a d) \<longleftrightarrow> m ! sum_pos p = c) \<and> fst (snd (rboot_verify_image env a d)) = sum_pos p + 1 - a"
proof -
  have n32: "length m \<le> 2 ^ 28" "length m = chip_size (chip (flash env))"
    using mem_size [of d] geometry(3) assms(1) by simp_all
  obtain d1 where d1: "sdk_spi_flash_read (flash env) a 8 d = (0, block_at a 8 m, d1)" "mem d1 = m"
    using flash_read [of a 8 d] assms(1,3) n32(2) by auto
  have h: "block_at a 8 m ! 0 = m ! a" "block_at a 8 m ! Suc 0 = m ! (a + 1)"
    using assms(3) nth_block_at [of 0 8 a m] nth_block_at [of 1 8 a m] by simp_all
  obtain d2 where d2: "verify_sections env (a + 0x100000) (m ! a = ROM_MAGIC_NEW1) (unat (m ! (a + 1))) (a + 8) CHKSUM_INIT d1 =
      (Inr (0, p, c), d2)" "mem d2 = m"
    using assms(6) [OF d1(2)] by auto
  have sp: "sum_pos p < length m"
    using assms(4) by (simp add: sum_pos_def)
  obtain d3 where d3: "sdk_spi_flash_read (flash env) (sum_pos p) 1 d2 = (0, block_at (sum_pos p) 1 m, d3)"
    using flash_read [of "sum_pos p" 1 d2] sp n32(2) d2(2) by auto
  have s: "block_at (sum_pos p) 1 m ! 0 = m ! sum_pos p"
    using nth_block_at [of 0 1 "sum_pos p" m] sp by simp
  have w: "add32 a 0x100000 = a + 0x100000" "add32 a 8 = a + 8" "add32 p 1 = p + 1" "pad_to 16 (p + 1) = sum_pos p + 1"
    "sub32 (sum_pos p + 1) 1 = sum_pos p" "sub32 (sum_pos p + 1) a = sum_pos p + 1 - a"
    using n32(1) assms(3,4,7) sp pad_sum_pos [of p] le_sum_pos [of p] by (simp_all add: add32_no_wrap sub32_no_wrap)
  have "a mod 4 = 0"
    using assms(2) by simp
  then show ?thesis
    using d1(1) d2(1) d3 h s w assms(5) by (auto simp: rboot_verify_image_def Let_def)
qed

lemma old_header:
  assumes "flash_image m a f1 f2 e None secs" "length secs < 256" "a + length (image_body f1 f2 e secs) + 16 < length m"
  shows "m ! a = ROM_MAGIC" "unat (m ! (a + 1)) = length secs"
    "block_at (a + 8) (length (concat (map section_bytes secs))) m = concat (map section_bytes secs)"
proof -
  let ?b = "image_body f1 f2 e secs" and ?r = "concat (map section_bytes secs)"
  have b: "block_at a (length ?b) m = ?b"
    using assms(1) by (simp add: flash_image_def image_front_def Let_def)
  have le: "a + length ?b \<le> length m"
    using assms(3) by simp
  show "m ! a = ROM_MAGIC" "unat (m ! (a + 1)) = length secs"
    using nth_of_block [OF b _ le, of 0] nth_of_block [OF b _ le, of 1] assms(2) by (simp_all add: image_body_def unat_of_nat)
  show "block_at (a + 8) (length ?r) m = ?r"
    using block_at_split_eq(2) [of a "[ROM_MAGIC, of_nat (length secs), f1, f2] @ le32 e" ?r m] b le
    by (simp add: image_body_def add.assoc)
qed

lemma verify_image_old:
  assumes "mem d = m" "flash_image m a f1 f2 e None secs" "length secs < 256" "4 dvd a" "\<forall>s\<in>set secs. 4 dvd length (snd s)"
    and "length (image_body f1 f2 e secs) \<le> 0x100000" "a + length (image_body f1 f2 e secs) + 16 < length m"
  shows "(fst (rboot_verify_image env a d) \<longleftrightarrow> m ! sum_pos (a + length (image_body f1 f2 e secs)) = image_sum None secs) \<and>
    fst (snd (rboot_verify_image env a d)) = sum_pos (a + length (image_body f1 f2 e secs)) + 1 - a"
proof (rule verify_image_end [OF assms(1,4)])
  let ?b = "image_body f1 f2 e secs" and ?r = "concat (map section_bytes secs)"
  note h = old_header [OF assms(2,3,7)]
  show "a \<le> a + length ?b" "a + 16 \<le> length m" "a + length ?b + 16 < length m"
    using assms(7) by (simp_all add: length_image_body)
  show "m ! a = ROM_MAGIC \<or> m ! a = ROM_MAGIC_NEW1"
    using h(1) by simp
  fix d1
  assume "mem d1 = m"
  then show "\<exists>d2. verify_sections env (a + 0x100000) (m ! a = ROM_MAGIC_NEW1) (unat (m ! (a + 1))) (a + 8) CHKSUM_INIT d1 =
      (Inr (0, a + length ?b, image_sum None secs), d2) \<and> mem d2 = m"
    using verify_sections_old [of d1 "length m" "a + 8" secs "a + 0x100000" CHKSUM_INIT] assms(3-7) h
    by (simp add: length_image_body image_sum_def add.assoc)
qed

text \<open>An image without an irom section, of any section lengths.\<close>

lemma verify_image_old_iff:
  assumes "mem d = m" "flash_image m a f1 f2 e None secs" "length secs < 256" "4 dvd a"
    and "a + length (image_body f1 f2 e secs) + 16 < length m"
  shows "fst (rboot_verify_image env a d) \<longleftrightarrow> m ! sum_pos (a + length (image_body f1 f2 e secs)) = image_sum None secs \<and>
    (\<forall>s\<in>set secs. 4 dvd length (snd s)) \<and> length (image_body f1 f2 e secs) \<le> 0x100000"
proof (cases "(\<forall>s\<in>set secs. 4 dvd length (snd s)) \<and> length (image_body f1 f2 e secs) \<le> 0x100000")
  case True
  then show ?thesis
    using verify_image_old [OF assms(1-4) _ _ assms(5)] by blast
next
  case False
  note h = old_header [OF assms(2,3,5)]
  have "secs \<noteq> []"
    using False by (auto simp: length_image_body)
  have "\<not> fst (rboot_verify_image env a d)"
  proof (rule verify_image_refused [OF assms(1)])
    show "a + 16 \<le> length m"
      using assms(5) by (simp add: length_image_body)
    fix d1
    assume "mem d1 = m"
    then show "refused (fst (verify_sections env (a + 0x100000) (m ! a = ROM_MAGIC_NEW1) (unat (m ! (a + 1))) (a + 8) CHKSUM_INIT d1))"
      using verify_sections_refused [of d1 "length m" "a + 8" secs "a + 0x100000" CHKSUM_INIT] assms(3-5) h False \<open>secs \<noteq> []\<close>
      by (simp add: length_image_body add.assoc)
  qed
  with False show ?thesis
    by blast
qed

text \<open>
  An image that starts with an irom section: behind that, which is not counted, come the sections
  as in the other images. \<open>q\<close> is where they start.
\<close>

lemma new_header:
  assumes "mem d1 = m" "flash_image m a f1 f2 e (Some s) secs" "length secs < 256" "16 dvd a" "16 dvd length (snd s)"
    and "q = a + 16 + length (snd s)" "q + length (image_body f1 f2 e secs) + 16 < length m"
  shows "m ! a = ROM_MAGIC_NEW1" "4 dvd q + 8"
    "block_at (q + 8) (length (concat (map section_bytes secs))) m = concat (map section_bytes secs)"
    "q \<le> a + 0x100000 \<Longrightarrow> \<exists>d3. mem d3 = m \<and>
       verify_sections env (a + 0x100000) True (unat (m ! (a + 1))) (a + 8) CHKSUM_INIT d1 =
       verify_sections env (a + 0x100000) False (length secs) (q + 8) CHKSUM_INIT d3"
    "a + 0x100000 < q \<Longrightarrow>
       refused (fst (verify_sections env (a + 0x100000) True (unat (m ! (a + 1))) (a + 8) CHKSUM_INIT d1))"
proof -
  let ?f = "image_front f1 f2 e (Some s)" and ?b = "image_body f1 f2 e secs" and ?h = "[ROM_MAGIC_NEW1, ROM_MAGIC_NEW2, f1, f2] @ le32 e"
  let ?r = "concat (map section_bytes secs)"
  have lf: "length ?f = 16 + length (snd s)" and lb: "length ?b = 8 + length ?r"
    by (simp_all add: length_image_front length_image_body)
  have fb: "block_at a (length ?f + length ?b) m = ?f @ ?b"
    using assms(2) by (simp add: flash_image_def Let_def)
  have le: "q + length ?b \<le> length m"
    using assms(7) by simp
  have f: "block_at a (length ?f) m = ?f" and b: "block_at q (length ?b) m = ?b"
    using block_at_split_eq [OF fb] le lf assms(6) by (simp_all add: add.assoc)
  have fe: "?f = ?h @ section_bytes s"
    by (simp add: image_front_def)
  have lef: "a + length ?f \<le> length m"
    using le lf assms(6) by simp
  have h: "m ! a = ROM_MAGIC_NEW1" "m ! (a + 1) = ROM_MAGIC_NEW2" "m ! q = ROM_MAGIC" "m ! (q + 1) = of_nat (length secs)"
    using nth_of_block [OF f _ lef, of 0] nth_of_block [OF f _ lef, of 1] nth_of_block [OF b _ le, of 0] nth_of_block [OF b _ le, of 1] lf
    by (simp_all add: fe image_body_def)
  then show "m ! a = ROM_MAGIC_NEW1"
    by simp
  have sb: "block_at (a + 8) (8 + length (snd s)) m = section_bytes s"
    using block_at_split_eq(2) [of a ?h "section_bytes s" m] f fe lf le assms(6) by (simp add: add.assoc)
  then have "block_at (a + 8) 8 m = le32 (fst s) @ le32 (length (snd s))"
    using block_at_split_eq(1) [of "a + 8" "le32 (fst s) @ le32 (length (snd s))" "snd s" m] le assms(6)
    by (simp add: section_bytes_def add.assoc)
  moreover have n32: "length m \<le> 2 ^ 28" "length m = chip_size (chip (flash env))"
    using mem_size [of d1] geometry(3) assms(1) by simp_all
  ultimately have v: "le32_at (block_at (a + 8) 8 m) 4 = length (snd s)"
    using le32_at_le32(1) [of "length (snd s)" "fst s" "[]"] le assms(6) by simp
  have d16: "16 dvd q"
    using assms(4-6) by simp
  then have d4: "4 dvd q"
    using dvd_trans [of 4 16 q] by simp
  then show "4 dvd q + 8"
    by (rule dvd_add) simp
  have w: "add32 (a + 8) 8 = a + 16" "add32 (length (snd s)) (a + 16) = q" "add32 (a + 16) (length (snd s)) = q"
    "pad_to 4 q = q" "pad_to 16 q = q" "add32 q 8 = q + 8" "length (snd s) mod 4 = 0"
    using le n32(1) pad_to_dvd [OF d16] pad_to_dvd [OF d4] dvd_trans [OF _ assms(5), of 4] assms(6)
    by (simp_all add: add32_no_wrap lb add.commute)
  show "block_at (q + 8) (length ?r) m = ?r"
    using block_at_split_eq(2) [of q "[ROM_MAGIC, of_nat (length secs), f1, f2] @ le32 e" ?r m] b le
    by (simp add: image_body_def add.assoc)
  obtain d2 where d2: "sdk_spi_flash_read (flash env) (a + 8) 8 d1 = (0, block_at (a + 8) 8 m, d2)" "mem d2 = m"
    using flash_read [of "a + 8" 8 d1] le n32(2) assms(1,6) by auto
  obtain d3 where d3: "sdk_spi_flash_read (flash env) q 8 d2 = (0, block_at q 8 m, d3)" "mem d3 = m"
    using flash_read [of q 8 d2] le n32(2) d2(2) lb by auto
  have hq: "block_at q 8 m ! 0 = ROM_MAGIC" "block_at q 8 m ! Suc 0 = of_nat (length secs)"
    using nth_block_at [of 0 8 q m] nth_block_at [of 1 8 q m] le lb h(3,4) by simp_all
  show "\<exists>d3. mem d3 = m \<and> verify_sections env (a + 0x100000) True (unat (m ! (a + 1))) (a + 8) CHKSUM_INIT d1 =
      verify_sections env (a + 0x100000) False (length secs) (q + 8) CHKSUM_INIT d3" if "q \<le> a + 0x100000"
    using d2(1) d3 hq v w assms(3) h(2) that by (intro exI [of _ d3]) (subst verify_sections.simps, simp add: unat_of_nat)
  show "refused (fst (verify_sections env (a + 0x100000) True (unat (m ! (a + 1))) (a + 8) CHKSUM_INIT d1))" if "a + 0x100000 < q"
    using d2(1) v w h(2) that by (subst verify_sections.simps) (simp add: refused_def)
qed

lemma verify_image_new:
  assumes "mem d = m" "flash_image m a f1 f2 e (Some s) secs" "length secs < 256" "16 dvd a" "16 dvd length (snd s)"
    and "\<forall>s\<in>set secs. 4 dvd length (snd s)" "16 + length (snd s) \<le> 0x100000"
    and "secs \<noteq> [] \<longrightarrow> 16 + length (snd s) + length (image_body f1 f2 e secs) \<le> 0x100000"
    and "a + 16 + length (snd s) + length (image_body f1 f2 e secs) + 16 < length m"
  shows "(fst (rboot_verify_image env a d) \<longleftrightarrow>
    m ! sum_pos (a + 16 + length (snd s) + length (image_body f1 f2 e secs)) = image_sum None secs) \<and>
    fst (snd (rboot_verify_image env a d)) = sum_pos (a + 16 + length (snd s) + length (image_body f1 f2 e secs)) + 1 - a"
proof (rule verify_image_end [OF assms(1)])
  let ?q = "a + 16 + length (snd s)" and ?b = "image_body f1 f2 e secs" and ?r = "concat (map section_bytes secs)"
  note h = new_header [OF _ assms(2-5) refl assms(9)]
  have lb: "length ?b = 8 + length ?r"
    by (simp add: length_image_body)
  show "4 dvd a" "a + 16 \<le> length m" "?q + length ?b + 16 < length m" "m ! a = ROM_MAGIC \<or> m ! a = ROM_MAGIC_NEW1"
    "a \<le> ?q + length ?b"
    using dvd_trans [OF _ assms(4), of 4] assms(9) h(1) [OF assms(1)] by simp_all
  fix d1
  assume d1: "mem d1 = m"
  obtain d3 where d3: "mem d3 = m" "verify_sections env (a + 0x100000) True (unat (m ! (a + 1))) (a + 8) CHKSUM_INIT d1 =
      verify_sections env (a + 0x100000) False (length secs) (?q + 8) CHKSUM_INIT d3"
    using h(4) [OF d1] assms(7) by auto
  have "\<exists>d4. verify_sections env (a + 0x100000) False (length secs) (?q + 8) CHKSUM_INIT d3 =
      (Inr (0, ?q + 8 + length ?r, xor_bytes (concat (map snd secs)) CHKSUM_INIT), d4) \<and> mem d4 = mem d3"
    by (rule verify_sections_old [OF _ h(2) [OF d1] assms(6)])
      (use d3(1) h(3) [OF d1] assms(8) less_imp_le [OF assms(9)] lb in \<open>simp_all add: add.assoc\<close>)
  then show "\<exists>d2. verify_sections env (a + 0x100000) (m ! a = ROM_MAGIC_NEW1) (unat (m ! (a + 1))) (a + 8) CHKSUM_INIT d1 =
      (Inr (0, ?q + length ?b, image_sum None secs), d2) \<and> mem d2 = m"
    using d3 h(1) [OF d1] lb by (auto simp: image_sum_def add.assoc)
qed

text \<open>Whatever the lengths, what is accepted has the checksum of the sections behind the irom section.\<close>

lemma verify_image_new_sum:
  assumes "mem d = m" "flash_image m a f1 f2 e (Some s) secs" "length secs < 256" "16 dvd a" "16 dvd length (snd s)"
    and "a + 16 + length (snd s) + length (image_body f1 f2 e secs) + 16 < length m" "fst (rboot_verify_image env a d)"
  shows "m ! sum_pos (a + 16 + length (snd s) + length (image_body f1 f2 e secs)) = image_sum None secs"
proof -
  let ?q = "a + 16 + length (snd s)" and ?b = "image_body f1 f2 e secs"
  note h = new_header [OF _ assms(2-5) refl assms(6)]
  have a16: "a + 16 \<le> length m"
    using assms(6) by simp
  have q: "?q \<le> a + 0x100000"
  proof (rule ccontr)
    assume "\<not> ?q \<le> a + 0x100000"
    then have "\<not> fst (rboot_verify_image env a d)"
      by (intro verify_image_refused [OF assms(1) a16]) (use h(1,5) in simp)
    with assms(7) show False
      by simp
  qed
  have "(\<forall>s\<in>set secs. 4 dvd length (snd s)) \<and> ?q + length ?b \<le> a + 0x100000" if "secs \<noteq> []"
  proof (rule ccontr)
    assume bad: "\<not> ((\<forall>s\<in>set secs. 4 dvd length (snd s)) \<and> ?q + length ?b \<le> a + 0x100000)"
    have "\<not> fst (rboot_verify_image env a d)"
    proof (rule verify_image_refused [OF assms(1) a16])
      fix d1
      assume d1: "mem d1 = m"
      obtain d3 where d3: "mem d3 = m" "verify_sections env (a + 0x100000) True (unat (m ! (a + 1))) (a + 8) CHKSUM_INIT d1 =
          verify_sections env (a + 0x100000) False (length secs) (?q + 8) CHKSUM_INIT d3"
        using h(4) [OF d1 q] by auto
      have "refused (fst (verify_sections env (a + 0x100000) False (length secs) (?q + 8) CHKSUM_INIT d3))"
        by (rule verify_sections_refused [OF refl h(2) [OF d1] that])
          (use d3(1) bad h(3) [OF d1] less_imp_le [OF assms(6)] in \<open>simp_all add: length_image_body add.assoc\<close>)
      then show "refused (fst (verify_sections env (a + 0x100000) (m ! a = ROM_MAGIC_NEW1) (unat (m ! (a + 1))) (a + 8) CHKSUM_INIT d1))"
        using d3(2) h(1) [OF d1] by simp
    qed
    with assms(7) show False
      by simp
  qed
  then show ?thesis
    using verify_image_new [OF assms(1-5) _ _ _ assms(6)] q assms(7) by (cases "secs = []") auto
qed

end

section \<open>Digesting\<close>

text \<open>For an update function that takes its input in any split, the digest is that of the whole image.\<close>

context api begin

lemma digest_whole:
  assumes "\<And>c xs ys. update (update c xs) ys = update c (xs @ ys)" "\<And>c. update c [] = c"
    and "off + n + 32 \<le> length (mem d)" "i \<le> n + 31"
  shows "\<exists>d'. digest_loop env off n update i c d = (True, update c (block_at (off + i) (n - i) (mem d)), d') \<and> mem d' = mem d"
  using assms(3,4)
proof (induction "n - i" arbitrary: i c d rule: less_induct)
  case less
  show ?case
  proof (cases "i < n")
    case False
    then show ?thesis
      using assms(2) by (subst digest_loop.simps) simp
  next
    case True
    let ?m = "mem d" and ?k = "if i + 32 > n then n - i else 32"
    obtain d1 where d1: "sdk_spi_flash_read (flash env) (add32 off i) 32 d = (0, block_at (off + i) 32 ?m, d1)" "mem d1 = ?m"
      using flash_read [of "off + i" 32 d] less.prems(1) True chip_ok(1) mem_size [of d] by (auto simp: add32_no_wrap)
    have t: "take ?k (block_at (off + i) 32 ?m) = block_at (off + i) ?k ?m"
      by (simp add: block_at_def)
    have "n - i = ?k + (n - (i + 32))"
      using True by simp
    then have s: "block_at (off + i) (n - i) ?m = block_at (off + i) ?k ?m @ block_at (off + (i + 32)) (n - (i + 32)) ?m"
      using block_at_split [of "off + i" ?k "n - (i + 32)" ?m] by (simp add: add.assoc split: if_splits)
    have "\<exists>d'. digest_loop env off n update (i + 32) (update c (block_at (off + i) ?k ?m)) d1 =
        (True, update (update c (block_at (off + i) ?k ?m)) (block_at (off + (i + 32)) (n - (i + 32)) (mem d1)), d') \<and> mem d' = mem d1"
      by (rule less.hyps) (use less.prems True d1(2) in simp_all)
    then show ?thesis
      using True d1 s t assms(1) by (subst digest_loop.simps) (simp only: if_True prod.case Let_def simp_thms; simp)
  qed
qed

end

section \<open>Verification and boot\<close>

text \<open>
  C34: the verification before an update and the check at boot, for an image in flash at a multiple
  of 16 with less than 254 sections. Without an irom section \<^verbatim>\<open>rboot_verify_image\<close> accepts exactly
  the images that \<^verbatim>\<open>check_image\<close> accepts and that satisfy two more conditions: the length of every
  section is a multiple of 4, and header and sections take at most 1 MB. So what is verified can be
  booted, and an image that can be booted may be refused. With an irom section (of a length that is
  a multiple of 16) they use different checksums: whenever the bytes of that section do not cancel
  out, an image that one of them accepts is rejected by the other, so no such image can be both
  verified and booted.
\<close>

theorem verify_image_against_boot:
  assumes "api env mem" "boot_flash benv bmem rd" "mem d = m" "bmem bd = m" "flash_image m a f1 f2 e irom secs"
    and "length secs < 254" "16 dvd a" "0 < a" "\<forall>s. irom = Some s \<longrightarrow> 16 dvd length (snd s)"
    and "length (image_front f1 f2 e irom @ image_body f1 f2 e secs) = n" "a + n + 16 < length m"
  shows "(irom = None \<longrightarrow> (fst (rboot_verify_image env a d) \<longleftrightarrow>
      fst (check_image benv a bd) \<noteq> 0 \<and> (\<forall>s\<in>set secs. 4 dvd length (snd s)) \<and> n \<le> 0x100000)) \<and>
    (\<forall>s. irom = Some s \<and> xor_bytes (snd s) 0 \<noteq> 0 \<longrightarrow> \<not> (fst (rboot_verify_image env a d) \<and> fst (check_image benv a bd) \<noteq> 0))"
proof -
  have m: "length m < 2 ^ 32"
    using nor_rom.mem_size [OF api.axioms(1) [OF assms(1)], of d] nor_rom.chip_ok(1) [OF api.axioms(1) [OF assms(1)]] assms(3) by simp
  have ci: "fst (check_image benv a bd) = image_at rd m a"
    using boot_flash.check_image_pure [OF assms(2), of a bd] assms(4) by auto
  show ?thesis
  proof (cases irom)
    case None
    have "fst (rboot_verify_image env a d) \<longleftrightarrow> m ! sum_pos (a + length (image_body f1 f2 e secs)) = image_sum None secs \<and>
        (\<forall>s\<in>set secs. 4 dvd length (snd s)) \<and> length (image_body f1 f2 e secs) \<le> 0x100000"
      by (rule api.verify_image_old_iff [OF assms(1,3)])
        (use assms(5-11) None dvd_trans [OF _ assms(7), of 4] in \<open>simp_all add: image_front_def\<close>)
    moreover have "image_at rd m a = (if m ! sum_pos (a + length (image_body f1 f2 e secs)) = image_sum None secs then a else 0)"
      by (rule boot_flash.check_image_old [OF assms(2)]) (use assms(5-11) None m in \<open>simp_all\<close>)
    ultimately show ?thesis
      using ci None assms(8,10) by (auto simp: image_front_def)
  next
    case (Some s)
    let ?p = "a + 16 + length (snd s) + length (image_body f1 f2 e secs)"
    have n: "n = 16 + length (snd s) + length (image_body f1 f2 e secs)"
      using assms(10) Some by (simp add: length_image_front)
    have "m ! sum_pos ?p = image_sum None secs" if "fst (rboot_verify_image env a d)"
      by (rule api.verify_image_new_sum [OF assms(1,3)]) (use assms(5-11) Some n that in simp_all)
    moreover have "image_at rd m a = (if m ! sum_pos ?p = image_sum (Some s) secs then a + 16 + length (snd s) else 0)"
      by (rule boot_flash.check_image_new [OF assms(2)]) (use assms(5-11) Some m in simp_all)
    moreover have sums: "image_sum (Some s) secs = image_sum None secs XOR xor_bytes (snd s) 0"
      using xor_bytes_start [of "snd s" CHKSUM_INIT] xor_bytes_start [of "concat (map snd secs)" "xor_bytes (snd s) CHKSUM_INIT"]
        xor_bytes_start [of "concat (map snd secs)" CHKSUM_INIT] by (simp add: image_sum_def xor.assoc xor.commute xor.left_commute)
    moreover have "xor_bytes (snd s) 0 \<noteq> 0 \<Longrightarrow> image_sum (Some s) secs \<noteq> image_sum None secs"
      unfolding sums by (metis xor.assoc xor.left_neutral xor_self_eq)
    ultimately show ?thesis
      using ci Some by (auto split: if_splits)
  qed
qed

text \<open>An image in an otherwise empty chip of 4 MB.\<close>

definition image_chip :: "(nat \<times> byte list) option \<Rightarrow> (nat \<times> byte list) list \<Rightarrow> byte list" where
  "image_chip irom secs = replicate 0x2000 0 @ image_front 0 0 0x40100000 irom @ image_body 0 0 0x40100000 secs"

lemma image_chip:
  assumes "length (image_front 0 0 0x40100000 irom @ image_body 0 0 0x40100000 secs) \<le> 1000"
  shows "flash_image (sim_mem sdk_flashchip (image_chip irom secs)) 0x2000 0 0 0x40100000 irom secs"
    "length (sim_mem sdk_flashchip (image_chip irom secs)) = 4194304"
proof -
  show l: "length (sim_mem sdk_flashchip (image_chip irom secs)) = 4194304"
    by (simp add: sim_mem_def sdk_flashchip_def)
  let ?i = "image_front 0 0 0x40100000 irom @ image_body 0 0 0x40100000 secs"
  have "block_at 0x2000 (length ?i) (sim_mem sdk_flashchip (image_chip irom secs)) = ?i"
    using assms by (simp add: sim_mem_def sdk_flashchip_def image_chip_def block_at_def)
  moreover have "sum_pos (0x2000 + length ?i) < 4194304"
    using assms by (simp add: sum_pos_def)
  ultimately show "flash_image (sim_mem sdk_flashchip (image_chip irom secs)) 0x2000 0 0 0x40100000 irom secs"
    using l by (simp add: flash_image_def Let_def)
qed

theorem verify_image_against_boot_witness:
  "let d = image_chip None [(0x40100000, [1, 2, 3, 4])]; d1 = image_chip None [(0x40100000, [1, 2, 3])];
       d2 = image_chip (Some (0x40210000, 1 # replicate 15 0)) [(0x40100000, [1, 2, 3, 4])]
   in (fst (rboot_verify_image api_chip 0x2000 d) \<longleftrightarrow> fst (check_image (pure_env chip_read) 0x2000 (sim_mem sdk_flashchip d)) \<noteq> 0) \<and>
     \<not> fst (rboot_verify_image api_chip 0x2000 d1) \<and>
     \<not> (fst (rboot_verify_image api_chip 0x2000 d2) \<and> fst (check_image (pure_env chip_read) 0x2000 (sim_mem sdk_flashchip d2)) \<noteq> 0)"
proof -
  let ?s = "[(0x40100000, [1, 2, 3, 4])] :: (nat \<times> byte list) list" and ?t = "[(0x40100000, [1, 2, 3])] :: (nat \<times> byte list) list"
  let ?i = "Some (0x40210000, 1 # replicate 15 0) :: (nat \<times> byte list) option"
  note A = verify_image_against_boot [OF api4M.api_axioms chip.boot_flash_axioms refl refl image_chip(1)]
  have x: "xor_bytes (1 # replicate 15 0) 0 \<noteq> 0"
    by (simp add: xor_bytes_def numeral_nat)
  have dv: "(4 :: nat) dvd Suc (Suc (Suc (Suc 0)))" "\<not> (4 :: nat) dvd Suc (Suc (Suc 0))"
    by presburger+
  have "fst (rboot_verify_image api_chip 0x2000 (image_chip None ?s)) \<longleftrightarrow>
      fst (check_image (pure_env chip_read) 0x2000 (sim_mem sdk_flashchip (image_chip None ?s))) \<noteq> 0"
    using A [of None ?s 20] image_chip(2) [of None ?s] dv(1) by (simp add: length_image_front length_image_body)
  moreover have "\<not> fst (rboot_verify_image api_chip 0x2000 (image_chip None ?t))"
    using A [of None ?t 19] image_chip(2) [of None ?t] dv(2) by (simp add: length_image_front length_image_body)
  moreover have "\<not> (fst (rboot_verify_image api_chip 0x2000 (image_chip ?i ?s)) \<and>
      fst (check_image (pure_env chip_read) 0x2000 (sim_mem sdk_flashchip (image_chip ?i ?s))) \<noteq> 0)"
    using A [of ?i ?s 52] image_chip(2) [of ?i ?s] x by (simp add: length_image_front length_image_body)
  ultimately show ?thesis
    by (simp add: Let_def)
qed

end
