(* ===== verification/Netbuf.thy ===== *)
theory Netbuf
  imports Prelude
begin

text \<open>
  Received packets as the network servers see them: the network buffers of lwIP
  (\<^verbatim>\<open>src/lwip/lwip/src/api/netbuf.c\<close>, \<^verbatim>\<open>src/lwip/lwip/src/core/pbuf.c\<close>) and the helpers of
  \<^verbatim>\<open>src/lwip/include/netbuf_helpers.h\<close>. A packet is a chain of segments, each with the address of
  its payload, which decides about alignment, and its bytes.
\<close>

section \<open>Buffers\<close>

record pbuf =
  pb_payload :: nat
  pb_data :: "byte list"

record netbuf =
  pbufs :: "pbuf list"
  fromaddr :: "byte list"
  fromport :: u16

text \<open>The bytes of a packet, and \<^verbatim>\<open>tot_len\<close> of the first segment.\<close>

definition packet_bytes :: "pbuf list \<Rightarrow> byte list" where
  "packet_bytes ps = concat (map pb_data ps)"

definition netbuf_len :: "netbuf \<Rightarrow> nat" where
  "netbuf_len nb = sum_list (map (length \<circ> pb_data) (pbufs nb))"

text \<open>
  \<^verbatim>\<open>pbuf_copy_partial\<close>: up to \<open>len\<close> bytes from \<open>offset\<close> on, segment by segment. The list is what
  is copied; what is behind it in the destination keeps its value.
\<close>

fun pbuf_copy_partial :: "pbuf list \<Rightarrow> nat \<Rightarrow> nat \<Rightarrow> byte list" where
  "pbuf_copy_partial [] len offset = []"
| "pbuf_copy_partial (p # ps) len offset =
     (if len = 0 then []
      else if offset \<noteq> 0 \<and> offset \<ge> length (pb_data p) then pbuf_copy_partial ps len (offset - length (pb_data p))
      else let buf_copy_len = min (length (pb_data p) - offset) len
        in block_at offset buf_copy_len (pb_data p) @ pbuf_copy_partial ps (len - buf_copy_len) 0)"

text \<open>
  The helpers read into a local variable that is not initialised: bytes behind the end of the
  packet are those of the parameter \<open>stack\<close>.
\<close>

definition netbuf_read_u8 :: "byte \<Rightarrow> netbuf \<Rightarrow> nat \<Rightarrow> byte" where
  "netbuf_read_u8 stack nb offs = (pbuf_copy_partial (pbufs nb) 1 offs @ [stack]) ! 0"

definition netbuf_read_u16_n :: "byte list \<Rightarrow> netbuf \<Rightarrow> nat \<Rightarrow> nat" where
  "netbuf_read_u16_n stack nb offs =
     (let raw = pbuf_copy_partial (pbufs nb) 2 offs; raw1 = raw @ drop (length raw) stack
      in 256 * unat (raw1 ! 0) + unat (raw1 ! 1))"

section \<open>Reading\<close>

lemma length_packet_bytes: "length (packet_bytes (pbufs nb)) = netbuf_len nb"
  by (simp add: packet_bytes_def netbuf_len_def length_concat comp_def)

text \<open>Copying is taking a block of the packet, whatever its segments.\<close>

lemma pbuf_copy_partial_eq: "pbuf_copy_partial ps len offset = block_at offset len (packet_bytes ps)"
  by (induction ps len offset rule: pbuf_copy_partial.induct)
    (auto simp: packet_bytes_def block_at_def Let_def min_def)

lemma netbuf_read_u8_eq: "offs < netbuf_len nb \<Longrightarrow> netbuf_read_u8 stack nb offs = packet_bytes (pbufs nb) ! offs"
  by (simp add: netbuf_read_u8_def pbuf_copy_partial_eq block_at_def nth_append length_packet_bytes)

lemma netbuf_read_u16_n_eq:
  assumes "offs + 1 < netbuf_len nb"
  shows "netbuf_read_u16_n stack nb offs =
    256 * unat (packet_bytes (pbufs nb) ! offs) + unat (packet_bytes (pbufs nb) ! (offs + 1))"
  using assms by (simp add: netbuf_read_u16_n_def pbuf_copy_partial_eq block_at_def nth_append length_packet_bytes Let_def)

end
