(* ===== verification/Tftp.thy ===== *)
theory Tftp
  imports Rboot_Update Netbuf
begin

text \<open>
  Updates over TFTP, \<^verbatim>\<open>src/extras/rboot-ota/ota-tftp.c\<close>: the server task that waits for a write
  request, receives an image into the next slot, verifies it and switches to it, and the client
  that downloads an image. It stands on the interface of the boot loader (\<^verbatim>\<open>Rboot_Api\<close>), on the
  flash layer and on the network buffers of \<^verbatim>\<open>Netbuf\<close>.

  The connection functions of lwIP and the peer behind them are parameters that act on a network
  of arbitrary type \<open>'n\<close>; the flash is a device of type \<open>'d\<close> as in the other theories. A function
  that reads outside a buffer or through a null pointer returns \<^term>\<open>None\<close>; so does a loop that
  never ends.
\<close>

section \<open>The network\<close>

type_synonym ip_addr = "byte list"

record ('n, 'd) tftp_env =
  board :: "'d api_env"
  netconn_new :: "'n \<Rightarrow> bool \<times> 'n"
  netconn_delete :: "'n \<Rightarrow> 'n"
  netconn_disconnect :: "'n \<Rightarrow> 'n"
  netconn_set_recvtimeout :: "int \<Rightarrow> 'n \<Rightarrow> 'n"
  netconn_bind :: "int \<Rightarrow> 'n \<Rightarrow> int \<times> 'n"
  netconn_gethostbyname :: "string \<Rightarrow> 'n \<Rightarrow> int \<times> ip_addr \<times> 'n"
  netconn_connect :: "ip_addr \<Rightarrow> int \<Rightarrow> 'n \<Rightarrow> 'n"
  netconn_recv :: "'n \<Rightarrow> int \<times> netbuf option \<times> 'n"
  netconn_send :: "byte list \<Rightarrow> 'n \<Rightarrow> int \<times> 'n"
  netbuf_alloc :: "nat \<Rightarrow> 'n \<Rightarrow> bool \<times> 'n"
  netbuf_delete :: "'n \<Rightarrow> 'n"
  field_malloc :: "nat \<Rightarrow> 'n \<Rightarrow> bool \<times> 'n"
  uninit :: "byte list"
  ram :: "nat \<Rightarrow> nat \<Rightarrow> byte list"

text \<open>
  \<^verbatim>\<open>netbuf_alloc\<close> stands for \<^verbatim>\<open>netbuf_new\<close> followed by \<^verbatim>\<open>netbuf_alloc\<close>, whose result is a null
  pointer when either fails; \<open>uninit\<close> is what local variables hold before they are set,
  and \<open>ram a k\<close> the \<open>k\<close> bytes of memory from address \<open>a\<close> on.
\<close>

abbreviation (input) ERR_OK :: int where "ERR_OK \<equiv> 0"
abbreviation (input) ERR_TIMEOUT :: int where "ERR_TIMEOUT \<equiv> - 3"
abbreviation (input) ERR_VAL :: int where "ERR_VAL \<equiv> - 6"
abbreviation (input) ERR_USE :: int where "ERR_USE \<equiv> - 8"
abbreviation (input) ERR_IF :: int where "ERR_IF \<equiv> - 15"

abbreviation (input) TFTP_OP_RRQ :: int where "TFTP_OP_RRQ \<equiv> 1"
abbreviation (input) TFTP_OP_WRQ :: nat where "TFTP_OP_WRQ \<equiv> 2"
abbreviation (input) TFTP_OP_DATA :: nat where "TFTP_OP_DATA \<equiv> 3"
abbreviation (input) TFTP_OP_ACK :: int where "TFTP_OP_ACK \<equiv> 4"
abbreviation (input) TFTP_OP_ERROR :: int where "TFTP_OP_ERROR \<equiv> 5"

abbreviation (input) TFTP_ERR_FILENOTFOUND :: int where "TFTP_ERR_FILENOTFOUND \<equiv> 1"
abbreviation (input) TFTP_ERR_FULL :: int where "TFTP_ERR_FULL \<equiv> 3"
abbreviation (input) TFTP_ERR_ILLEGAL :: int where "TFTP_ERR_ILLEGAL \<equiv> 4"

abbreviation (input) MAX_IMAGE_SIZE :: nat where "MAX_IMAGE_SIZE \<equiv> 0x100000"
abbreviation (input) TFTP_TIMEOUT_RETRANSMITS :: int where "TFTP_TIMEOUT_RETRANSMITS \<equiv> 10"
abbreviation (input) DATA_PACKET_SZ :: nat where "DATA_PACKET_SZ \<equiv> 512 + 4"
abbreviation (input) MAX_ROMS :: nat where "MAX_ROMS \<equiv> 4"

section \<open>Sending\<close>

definition htons :: "int \<Rightarrow> byte list" where
  "htons x = [word_of_int (x div 256), word_of_int x]"

definition chars :: "string \<Rightarrow> byte list" where
  "chars s = map of_char s"

definition c_string :: "string \<Rightarrow> byte list" where
  "c_string s = chars s @ [0]"

definition send_bytes :: "('n, 'd) tftp_env \<Rightarrow> byte list \<Rightarrow> 'n \<Rightarrow> (int \<times> 'n) option" where
  "send_bytes env packet n =
     (let (ok, n1) = netbuf_alloc env (length packet) n
      in if \<not> ok then None
         else let (err, n2) = netconn_send env packet n1 in Some (err, netbuf_delete env n2))"

definition tftp_send_ack :: "('n, 'd) tftp_env \<Rightarrow> int \<Rightarrow> 'n \<Rightarrow> (int \<times> 'n) option" where
  "tftp_send_ack env block n = send_bytes env (htons TFTP_OP_ACK @ htons block) n"

definition tftp_send_error :: "('n, 'd) tftp_env \<Rightarrow> int \<Rightarrow> string \<Rightarrow> 'n \<Rightarrow> 'n option" where
  "tftp_send_error env err_code err_msg n =
     map_option snd (send_bytes env (htons TFTP_OP_ERROR @ htons err_code @ c_string err_msg) n)"

definition tftp_send_rrq :: "('n, 'd) tftp_env \<Rightarrow> string \<Rightarrow> 'n \<Rightarrow> (int \<times> 'n) option" where
  "tftp_send_rrq env filename n =
     send_bytes env (htons TFTP_OP_RRQ @ c_string filename @ c_string ''octet'') n"

section \<open>Fields of a request\<close>

text \<open>The loop of \<^verbatim>\<open>tftp_get_field\<close>: the number of the field, its offset and its length.\<close>

function get_field_loop :: "netbuf \<Rightarrow> int \<Rightarrow> nat \<Rightarrow> nat \<Rightarrow> nat \<Rightarrow> int \<times> nat \<times> nat" where
  "get_field_loop nb field offs field_offs field_len =
     (if field \<ge> 0 \<and> offs < netbuf_len nb then
        (let c = netbuf_read_u8 0 nb offs;
             offs1 = offs + 1;
             field_len1 = (if field = 0 then field_len + 1 else field_len);
             field1 = (if c = 0 then field - 1 else field);
             field_offs1 = (if c = 0 \<and> field1 = 0 then offs1 else field_offs)
         in get_field_loop nb field1 offs1 field_offs1 field_len1)
      else (field, field_offs, field_len))"
  by pat_completeness auto
termination
  by (relation "measure (\<lambda>(nb, _, offs, _). netbuf_len nb - offs)") auto

declare get_field_loop.simps [simp del]

text \<open>The result \<^term>\<open>None\<close> is the null pointer.\<close>

definition tftp_get_field :: "('n, 'd) tftp_env \<Rightarrow> int \<Rightarrow> netbuf \<Rightarrow> 'n \<Rightarrow> byte list option \<times> 'n" where
  "tftp_get_field env field nb n =
     (case get_field_loop nb field 2 2 0 of
        (field1, field_offs, field_len) \<Rightarrow>
          if field1 \<noteq> - 1 then (None, n)
          else let (ok, n1) = field_malloc env field_len n
            in (if ok then Some (pbuf_copy_partial (pbufs nb) field_len field_offs) else None, n1))"

section \<open>Receiving an image\<close>

record receive =
  rx_offs :: nat
  rx_block :: int
  rx_retries :: int
  rx_len :: nat
  rx_peer :: "(ip_addr \<times> int) option"

datatype outcome = Again | Return int

text \<open>
  One segment of a data packet: an unaligned payload is written as its first word and the rest,
  moved to an aligned address. For an unaligned one of one to three bytes the size of the rest is
  negative, almost 4 GB as the \<^verbatim>\<open>size_t\<close> of \<^verbatim>\<open>memmove\<close>, which does not come to an end.
\<close>

definition write_chunk ::
  "'d api_env \<Rightarrow> nat \<Rightarrow> nat \<Rightarrow> nat \<Rightarrow> byte list \<Rightarrow> 'd \<Rightarrow> (nat \<times> 'd) option" where
  "write_chunk env write_offs offset chunk bs d =
     (if bs \<noteq> [] \<and> chunk mod 4 \<noteq> 0 then
        (if length bs < 4 then None
         else let (_, d1) = sdk_spi_flash_write (flash env) (add32 write_offs offset) (Some (take 4 bs)) 4 d;
                  offset1 = offset + 4;
                  (_, d2) = sdk_spi_flash_write (flash env) (add32 write_offs offset1) (Some (drop 4 bs)) (length bs - 4) d1
           in Some (offset1 + (length bs - 4), d2))
      else let (_, d1) = sdk_spi_flash_write (flash env) (add32 write_offs offset) (Some bs) (length bs) d
        in Some (offset + length bs, d1))"

fun write_chunks :: "'d api_env \<Rightarrow> nat \<Rightarrow> nat \<Rightarrow> pbuf list \<Rightarrow> 'd \<Rightarrow> (nat \<times> 'd) option" where
  "write_chunks env write_offs offset [] d = Some (offset, d)"
| "write_chunks env write_offs offset (p # ps) d = do {
     (offset1, d1) \<leftarrow> write_chunk env write_offs offset (pb_payload p) (pb_data p) d;
     write_chunks env write_offs offset1 ps d1 }"

text \<open>
  The first segment without the header, with its length in 16 bits: that of a segment shorter than
  the header wraps, and what is written is the memory behind it. If that is not aligned, \<^verbatim>\<open>memmove\<close>
  shifts 64 KB of memory that belongs to others, after which nothing is known.
\<close>

definition first_segment :: "(nat \<Rightarrow> nat \<Rightarrow> byte list) \<Rightarrow> pbuf \<Rightarrow> pbuf option" where
  "first_segment mem p =
     (let chunk = pb_payload p + 4
      in if length (pb_data p) \<ge> 4 then Some \<lparr>pb_payload = chunk, pb_data = drop 4 (pb_data p)\<rparr>
         else if chunk mod 4 \<noteq> 0 then None
         else Some \<lparr>pb_payload = chunk, pb_data = mem chunk (length (pb_data p) + 2 ^ 16 - 4)\<rparr>)"

definition write_packet :: "'d api_env \<Rightarrow> (nat \<Rightarrow> nat \<Rightarrow> byte list) \<Rightarrow> nat \<Rightarrow> pbuf list \<Rightarrow> 'd \<Rightarrow> 'd option" where
  "write_packet env mem write_offs ps d =
     (case ps of
        [] \<Rightarrow> None
      | p # ps1 \<Rightarrow> do {
          q \<leftarrow> first_segment mem p;
          (_, d1) \<leftarrow> write_chunks env write_offs 0 (q # ps1) d;
          Some d1 })"

text \<open>The end of a block: verification of the image behind the last one, acknowledgement, callback.\<close>

definition finish_block ::
  "('n, 'd) tftp_env \<Rightarrow> (nat \<Rightarrow> 'n \<times> 'd \<Rightarrow> 'n \<times> 'd) option \<Rightarrow> nat \<Rightarrow> receive \<Rightarrow> bool \<Rightarrow> 'n \<Rightarrow> 'd \<Rightarrow> (outcome \<times> receive \<times> 'n \<times> 'd) option" where
  "finish_block env receive_cb start_offs st final n d =
     (let (valid, image_length, err, d1) =
            (if final then rboot_verify_image (board env) start_offs d else (True, rx_len st, None, d))
      in if final \<and> (\<not> valid \<or> image_length \<noteq> rx_len st) then do {
           n1 \<leftarrow> tftp_send_error env TFTP_ERR_ILLEGAL (case err of None \<Rightarrow> ''Unknown validation error'' | Some e \<Rightarrow> e) n;
           Some (Return ERR_VAL, st, n1, d1) }
         else do {
           (ack_err, n1) \<leftarrow> tftp_send_ack env (rx_block st) n;
           if ack_err \<noteq> ERR_OK then Some (Return ack_err, st, n1, d1)
           else let (n2, d2) = (case receive_cb of None \<Rightarrow> (n1, d1) | Some cb \<Rightarrow> cb (rx_len st) (n1, d1))
             in if final then Some (Return ERR_OK, st, n2, d2)
                else Some (Again, st\<lparr>rx_block := rx_block st + 1, rx_offs := add32 (rx_offs st) 512\<rparr>, n2, d2) })"

definition receive_block ::
  "('n, 'd) tftp_env \<Rightarrow> (nat \<Rightarrow> 'n \<times> 'd \<Rightarrow> 'n \<times> 'd) option \<Rightarrow> nat \<Rightarrow> nat \<Rightarrow> receive \<Rightarrow> netbuf \<Rightarrow> 'n \<Rightarrow> 'd \<Rightarrow> (outcome \<times> receive \<times> 'n \<times> 'd) option" where
  "receive_block env receive_cb start_offs limit_offs st nb n d =
     (let st1 = st\<lparr>rx_retries := TFTP_TIMEOUT_RETRANSMITS\<rparr>;
          d1 = (if rx_offs st mod SECTOR_SIZE = 0
                then snd (sdk_spi_flash_erase_sector (flash (board env)) (of_nat (rx_offs st div SECTOR_SIZE)) d) else d);
          len = netbuf_len nb
      in if add32 (rx_offs st) len \<ge> limit_offs then do {
           n1 \<leftarrow> tftp_send_error env TFTP_ERR_FULL ''Image too large'' n;
           Some (Return ERR_VAL, st1, n1, d1) }
         else do {
           d2 \<leftarrow> write_packet (board env) (ram env) (rx_offs st) (pbufs nb) d1;
           finish_block env receive_cb start_offs (st1\<lparr>rx_len := sub32 (add32 (rx_len st) len) 4\<rparr>) (len < DATA_PACKET_SZ)
             (netbuf_delete env n) d2 })"

definition receive_packet ::
  "('n, 'd) tftp_env \<Rightarrow> (nat \<Rightarrow> 'n \<times> 'd \<Rightarrow> 'n \<times> 'd) option \<Rightarrow> nat \<Rightarrow> nat \<Rightarrow> receive \<Rightarrow> netbuf \<Rightarrow> 'n \<Rightarrow> 'd \<Rightarrow> (outcome \<times> receive \<times> 'n \<times> 'd) option" where
  "receive_packet env receive_cb start_offs limit_offs st nb n d =
     (let client_block = int (netbuf_read_u16_n (uninit env) nb 2)
      in if netbuf_read_u16_n (uninit env) nb 0 \<noteq> TFTP_OP_DATA then do {
           n1 \<leftarrow> tftp_send_error env TFTP_ERR_ILLEGAL ''Unknown opcode'' n;
           Some (Return ERR_VAL, st, netbuf_delete env n1, d) }
         else if client_block \<noteq> rx_block st then
           (if client_block = rx_block st - 1 then do {
              (_, n1) \<leftarrow> tftp_send_ack env (rx_block st - 1) (netbuf_delete env n);
              Some (Again, st, n1, d) }
            else do {
              n1 \<leftarrow> tftp_send_error env TFTP_ERR_ILLEGAL ''Block# out of order'' (netbuf_delete env n);
              Some (Return ERR_VAL, st, n1, d) })
         else receive_block env receive_cb start_offs limit_offs st nb n d)"

text \<open>One round of the loop: waiting for a packet, with the connection to the peer made or remade.\<close>

definition receive_round ::
  "('n, 'd) tftp_env \<Rightarrow> (nat \<Rightarrow> 'n \<times> 'd \<Rightarrow> 'n \<times> 'd) option \<Rightarrow> nat \<Rightarrow> nat \<Rightarrow> receive \<Rightarrow> 'n \<Rightarrow> 'd \<Rightarrow> (outcome \<times> receive \<times> 'n \<times> 'd) option" where
  "receive_round env receive_cb start_offs limit_offs st n d =
     (let n1 = (if rx_peer st \<noteq> None then netconn_disconnect env n else n);
          (err, nb, n2) = netconn_recv env n1;
          (peer, n3) = (case rx_peer st of
              None \<Rightarrow> (None, n2)
            | Some (addr, port) \<Rightarrow>
                (case nb of
                   Some b \<Rightarrow> (None, netconn_connect env (fromaddr b) (uint (fromport b)) n2)
                 | None \<Rightarrow> (Some (addr, port), netconn_connect env addr port n2)));
          st1 = st\<lparr>rx_peer := peer\<rparr>
      in if err = ERR_TIMEOUT then
           (let st2 = st1\<lparr>rx_retries := rx_retries st - 1\<rparr>
            in if rx_retries st > 0 \<and> rx_block st > 1 then do {
                 (_, n4) \<leftarrow> tftp_send_ack env (rx_block st - 1) n3;
                 Some (Again, st2, n4, d) }
               else do {
                 n4 \<leftarrow> tftp_send_error env TFTP_ERR_ILLEGAL ''Timeout'' n3;
                 Some (Return ERR_TIMEOUT, st2, n4, d) })
         else if err \<noteq> ERR_OK then do {
           n4 \<leftarrow> tftp_send_error env TFTP_ERR_ILLEGAL ''Failed to receive packet'' n3;
           Some (Return err, st1, n4, d) }
         else do {
           b \<leftarrow> nb;
           receive_packet env receive_cb start_offs limit_offs st1 b n3 d })"

partial_function (option) receive_loop ::
  "('n, 'd) tftp_env \<Rightarrow> (nat \<Rightarrow> 'n \<times> 'd \<Rightarrow> 'n \<times> 'd) option \<Rightarrow> nat \<Rightarrow> nat \<Rightarrow> receive \<Rightarrow> 'n \<Rightarrow> 'd \<Rightarrow> (int \<times> nat \<times> 'n \<times> 'd) option" where
  "receive_loop env receive_cb start_offs limit_offs st n d = do {
     (r, st1, n1, d1) \<leftarrow> receive_round env receive_cb start_offs limit_offs st n d;
     case r of
       Again \<Rightarrow> receive_loop env receive_cb start_offs limit_offs st1 n1 d1
     | Return err \<Rightarrow> Some (err, rx_len st1, n1, d1) }"

declare receive_loop.simps [code]

definition receive_start :: "nat \<Rightarrow> (ip_addr \<times> int) option \<Rightarrow> receive" where
  "receive_start write_offs peer =
     \<lparr>rx_offs = write_offs, rx_block = 1, rx_retries = TFTP_TIMEOUT_RETRANSMITS, rx_len = 0, rx_peer = peer\<rparr>"

definition tftp_receive_data ::
  "('n, 'd) tftp_env \<Rightarrow> nat \<Rightarrow> nat \<Rightarrow> (ip_addr \<times> int) option \<Rightarrow> (nat \<Rightarrow> 'n \<times> 'd \<Rightarrow> 'n \<times> 'd) option \<Rightarrow> 'n \<Rightarrow> 'd \<Rightarrow> (int \<times> nat \<times> 'n \<times> 'd) option" where
  "tftp_receive_data env write_offs limit_offs peer receive_cb n d =
     receive_loop env receive_cb write_offs limit_offs (receive_start write_offs peer) n d"

section \<open>The server\<close>

datatype served = Waiting | Restarting

text \<open>The part of a round behind an accepted request; the netbuf of the request is free already.\<close>

definition serve_update :: "('n, 'd) tftp_env \<Rightarrow> 'n \<Rightarrow> 'd \<Rightarrow> (served \<times> 'n \<times> 'd) option" where
  "serve_update env n d =
     (let (conf, d1) = rboot_get_config (board env) d;
          current = unat (cf_current_rom conf); count = unat (cf_count conf); slot = (current + 1) mod count
      in if count = 0 then None
         else if slot = current then do {
           n1 \<leftarrow> tftp_send_error env TFTP_ERR_ILLEGAL ''Only one OTA slot!'' n;
           Some (Waiting, netconn_disconnect env n1, d1) }
         else do {
           (ack_err, n1) \<leftarrow> tftp_send_ack env 0 n;
           if ack_err \<noteq> 0 then Some (Waiting, netconn_disconnect env n1, d1)
           else if slot \<ge> MAX_ROMS then None
           else do {
             let offs = cf_rom conf (int slot);
             (recv_err, _, n2, d2) \<leftarrow> tftp_receive_data env offs (add32 offs MAX_IMAGE_SIZE) None None (netconn_set_recvtimeout env 10000 n1) d1;
             let n3 = netconn_disconnect env n2;
             if recv_err = ERR_OK
             then Some (Restarting, n3, snd (rboot_set_current_rom (board env) (of_nat slot) (enter_critical (board env) d2)))
             else Some (Waiting, n3, d2) } })"

text \<open>A round of the task: a packet is received, a request checked and served.\<close>

definition serve_round :: "('n, 'd) tftp_env \<Rightarrow> 'n \<Rightarrow> 'd \<Rightarrow> (served \<times> 'n \<times> 'd) option" where
  "serve_round env n d =
     (let (err, nb, n1) = netconn_recv env (netconn_set_recvtimeout env 0 n)
      in if err \<noteq> ERR_OK then Some (Waiting, n1, d)
         else do {
           b \<leftarrow> nb;
           if netbuf_len b < 6 then Some (Waiting, netbuf_delete env n1, d)
           else if netbuf_read_u16_n (uninit env) b 0 \<noteq> TFTP_OP_WRQ then Some (Waiting, netbuf_delete env n1, d)
           else let (filename, n2) = tftp_get_field env 0 b n1
             in if filename \<noteq> Some (c_string ''firmware.bin'') then do {
                  n3 \<leftarrow> tftp_send_error env TFTP_ERR_FILENOTFOUND ''File must be firmware.bin'' n2;
                  Some (Waiting, netbuf_delete env n3, d) }
                else let (mode, n3) = tftp_get_field env 1 b n2
                  in if mode \<noteq> Some (c_string ''octet'') then do {
                       n4 \<leftarrow> tftp_send_error env TFTP_ERR_ILLEGAL ''Mode must be octet/binary'' n3;
                       Some (Waiting, netbuf_delete env n4, d) }
                     else serve_update env (netbuf_delete env (netconn_connect env (fromaddr b) (uint (fromport b)) n3)) d })"

text \<open>The task: rounds until the system restarts. Without a connection it ends at once.\<close>

partial_function (option) serve_loop :: "('n, 'd) tftp_env \<Rightarrow> 'n \<Rightarrow> 'd \<Rightarrow> ('n \<times> 'd) option" where
  "serve_loop env n d = do {
     (r, n1, d1) \<leftarrow> serve_round env n d;
     if r = Restarting then Some (n1, d1) else serve_loop env n1 d1 }"

declare serve_loop.simps [code]

definition tftp_task :: "('n, 'd) tftp_env \<Rightarrow> int \<Rightarrow> 'n \<Rightarrow> 'd \<Rightarrow> (bool \<times> 'n \<times> 'd) option" where
  "tftp_task env listen_port n d =
     (let (ok, n1) = netconn_new env n
      in if \<not> ok then Some (False, n1, d)
         else map_option (Pair True) (serve_loop env (snd (netconn_bind env listen_port n1)) d))"

section \<open>The client\<close>

text \<open>Binding: the port asked for and up to ten behind it.\<close>

function bind_loop :: "('n, 'd) tftp_env \<Rightarrow> int \<Rightarrow> int \<Rightarrow> 'n \<Rightarrow> int \<times> 'n" where
  "bind_loop env port local_port n =
     (let (err, n1) = netconn_bind env (local_port + 1) n
      in if err = ERR_USE \<and> local_port + 1 < port + 10 then bind_loop env port (local_port + 1) n1 else (err, n1))"
  by pat_completeness auto
termination
  by (relation "measure (\<lambda>(_, port, local_port, _). nat (port + 10 - local_port))") auto

declare bind_loop.simps [simp del]

definition ota_tftp_download ::
  "('n, 'd) tftp_env \<Rightarrow> string \<Rightarrow> int \<Rightarrow> string \<Rightarrow> int \<Rightarrow> int \<Rightarrow> (nat \<Rightarrow> 'n \<times> 'd \<Rightarrow> 'n \<times> 'd) option \<Rightarrow> 'n \<Rightarrow> 'd \<Rightarrow> (int \<times> 'n \<times> 'd) option" where
  "ota_tftp_download env server port filename timeout ota_slot receive_cb n d =
     (let (conf, d1) = rboot_get_config (board env) d
      in if uint (cf_current_rom conf) = ota_slot \<or> uint (cf_count conf) \<le> ota_slot then Some (ERR_VAL, n, d1)
         else if ota_slot < 0 \<or> int MAX_ROMS \<le> ota_slot then None
         else let flash_offset = cf_rom conf ota_slot; (ok, n1) = netconn_new env n
           in if \<not> ok then Some (ERR_IF, n1, d1)
              else let (err, n2) = bind_loop env port (port - 1) (netconn_set_recvtimeout env timeout n1)
                in if err \<noteq> 0 then Some (err, netconn_delete env n2, d1)
                   else let (err1, addr, n3) = netconn_gethostbyname env server n2
                     in if err1 \<noteq> 0 then Some (err1, netconn_delete env n3, d1)
                        else do {
                          (err2, n4) \<leftarrow> tftp_send_rrq env filename (netconn_connect env addr port n3);
                          if err2 \<noteq> 0 then Some (err2, netconn_delete env n4, d1)
                          else do {
                            (err3, _, n5, d2) \<leftarrow> tftp_receive_data env flash_offset (add32 flash_offset MAX_IMAGE_SIZE) (Some (addr, port)) receive_cb n4 d1;
                            Some (err3, netconn_delete env n5, d2) } })"

end
