(* ===== verification/Tftp_Flash.thy ===== *)
theory Tftp_Flash
  imports Tftp
begin

text \<open>
  The flash under an update over TFTP: verifying an image leaves it alone, and a write of any
  length to any address, aligned or not, changes nothing outside the words it covers. The locale
  \<open>tftp_board\<close> extends \<open>api\<close> of \<^verbatim>\<open>Rboot_Update\<close>.
\<close>

section \<open>Flash\<close>

text \<open>What is needed beyond the laws of \<open>api\<close>: reading never changes the flash, not even out of range.\<close>

locale tftp_board = api +
  assumes read_quiet: "mem (snd (snd (SPI_read_data (flash env) a n d))) = mem d"
begin

lemma read_keeps: "mem (snd (snd (sdk_spi_flash_read (flash env) a n d))) = mem d"
  using read_quiet quiet by (simp add: sdk_spi_flash_read_def sdk_SPIRead_def split: prod.split) (metis snd_conv)

lemma verify_sum_keeps: "mem (snd (verify_sum env offset i len chunk checksum d)) = mem d"
proof (induction "len - i" arbitrary: i chunk checksum d)
  case 0
  then show ?case
    by (simp add: verify_sum.simps)
next
  case (Suc k)
  obtain chunk1 d1 where c: "(if i mod 16 = 0 then snd (sdk_spi_flash_read (flash env) (add32 offset i) 16 d) else (chunk, d)) = (chunk1, d1)"
    by fastforce
  then have "mem d1 = mem d"
    using read_keeps [of "add32 offset i" 16 d] by (auto split: if_splits)
  moreover have "mem (snd (verify_sum env offset (i + 1) len chunk1 (checksum XOR chunk1 ! (i mod 16)) d1)) = mem d1"
    using Suc by simp
  moreover have "i < len"
    using Suc.hyps(2) by simp
  ultimately show ?case
    using c by (subst verify_sum.simps) simp
qed

lemma verify_sections_keeps: "mem (snd (verify_sections env end_limit is_new remaining offset checksum d)) = mem d"
proof (induction "if is_new then 256 else remaining" arbitrary: is_new remaining offset checksum d rule: less_induct)
  case less
  obtain r header d1 where h: "sdk_spi_flash_read (flash env) offset 8 d = (r, header, d1)" "mem d1 = mem d"
    using read_keeps [of offset 8 d] by (metis prod.exhaust_sel)
  let ?off = "add32 offset 8" and ?len = "le32_at header 4"
  obtain c2 d2 where s: "(if is_new then (checksum, d1) else verify_sum env ?off 0 ?len (replicate 16 0) checksum d1) = (c2, d2)"
    by fastforce
  then have d2: "mem d2 = mem d"
    using verify_sum_keeps [of ?off 0 ?len "replicate 16 0" checksum d1] h(2) by (auto split: if_splits)
  let ?off2 = "pad_to 4 (add32 ?off ?len)"
  obtain r3 ih d3 where i: "sdk_spi_flash_read (flash env) (pad_to 16 ?off2) 8 d2 = (r3, ih, d3)" "mem d3 = mem d"
    using read_keeps [of "pad_to 16 ?off2" 8 d2] d2 by (metis prod.exhaust_sel)
  have new: "is_new \<Longrightarrow> mem (snd (verify_sections env end_limit False (unat (ih ! 1)) (add32 (pad_to 16 ?off2) 8) c2 d3)) = mem d"
    using less.hyps [of False "unat (ih ! 1)"] i(2) unat_byte_less by simp
  have old: "\<not> is_new \<Longrightarrow> remaining > 0 \<Longrightarrow> mem (snd (verify_sections env end_limit False (remaining - 1) ?off2 c2 d2)) = mem d"
    using less.hyps [of False "remaining - 1"] d2 by simp
  show ?case
    using h s i new old d2 by (subst verify_sections.simps) (auto simp: Let_def)
qed

lemma verify_keeps: "mem (snd (snd (snd (rboot_verify_image env a d)))) = mem d"
proof -
  obtain r header d1 where h: "sdk_spi_flash_read (flash env) a 8 d = (r, header, d1)" "mem d1 = mem d"
    using read_keeps [of a 8 d] by (metis prod.exhaust_sel)
  obtain v d2 where v: "verify_sections env (add32 a 0x100000) (header ! 0 = ROM_MAGIC_NEW1) (unat (header ! 1)) (add32 a 8) CHKSUM_INIT d1 = (v, d2)" "mem d2 = mem d"
    using verify_sections_keeps [of "add32 a 0x100000" "header ! 0 = ROM_MAGIC_NEW1" "unat (header ! 1)" "add32 a 8" CHKSUM_INIT d1] h(2)
    by (metis prod.exhaust_sel)
  have e: "mem (snd (snd (sdk_spi_flash_read (flash env) b 1 d2))) = mem d" for b
    using read_keeps v(2) by simp
  show ?thesis
    using h v e by (auto simp: rboot_verify_image_def Let_def split: sum.split prod.split) (metis snd_conv)+
qed

end

section \<open>Writes stay in their range\<close>

definition kept_outside :: "nat \<Rightarrow> nat \<Rightarrow> byte list \<Rightarrow> byte list \<Rightarrow> bool" where
  "kept_outside lo hi m m' \<longleftrightarrow> length m' = length m \<and> (\<forall>i < length m. i < lo \<or> hi \<le> i \<longrightarrow> m' ! i = m ! i)"

lemma kept_outside_refl [simp]: "kept_outside lo hi m m"
  by (simp add: kept_outside_def)

lemma kept_outside_trans: "kept_outside lo hi m m' \<Longrightarrow> kept_outside lo hi m' m'' \<Longrightarrow> kept_outside lo hi m m''"
  by (simp add: kept_outside_def)

lemma kept_outside_prog:
  "lo \<le> a \<Longrightarrow> a + length bs \<le> hi \<Longrightarrow> a + length bs \<le> length m \<Longrightarrow> kept_outside lo hi m (prog_block m a bs)"
  by (auto simp: kept_outside_def nth_prog_block)

lemma kept_outside_erase:
  "lo \<le> a \<Longrightarrow> a + n \<le> hi \<Longrightarrow> a + n \<le> length m \<Longrightarrow> kept_outside lo hi m (erase_block m a n)"
  by (auto simp: kept_outside_def nth_erase_block)

context nor_rom begin

lemma program_same:
  assumes "length bs \<le> n" "a mod page_size (chip env) + n \<le> page_size (chip env)" "lo \<le> a" "a + n \<le> hi" "a + n \<le> chip_size (chip env)"
  shows "\<exists>d'. SPI_page_program env a bs d = (0, d') \<and> kept_outside lo hi (mem d) (mem d')"
  using program [of a bs d] assms kept_outside_prog [of lo a bs hi "mem d"] mem_size by auto

lemma write_pages_same:
  assumes "(des + pos) mod page_size (chip env) = 0" "lo \<le> des + pos"
    and "des + pos + i * page_size (chip env) \<le> hi" "des + pos + i * page_size (chip env) \<le> chip_size (chip env)"
  shows "\<exists>d'. write_pages env des src i pos d = (0, pos + i * page_size (chip env), d') \<and> kept_outside lo hi (mem d) (mem d')"
  using assms
proof (induction i arbitrary: pos d)
  case (Suc i)
  let ?ps = "page_size (chip env)" and ?b = "block_at (4 * (pos div 4)) (page_size (chip env)) src"
  have w: "add32 des pos = des + pos" "add32 pos ?ps = pos + ?ps"
    using Suc.prems(4) chip_ok(1) by (auto intro!: add32_no_wrap)
  have b: "length ?b \<le> ?ps"
    by (simp add: block_at_def)
  obtain d1 where d1: "SPI_page_program env (des + pos) ?b d = (0, d1)" "kept_outside lo hi (mem d) (mem d1)"
    using program_same [of ?b ?ps "des + pos" lo hi d] Suc.prems b by auto
  have "(des + (pos + ?ps)) mod ?ps = 0"
    using Suc.prems(1) by (simp add: add.assoc [symmetric])
  then obtain d' where "write_pages env des src i (pos + ?ps) d1 = (0, pos + ?ps + i * ?ps, d')" "kept_outside lo hi (mem d1) (mem d')"
    using Suc.IH [of "pos + ?ps" d1] Suc.prems by (auto simp: add.assoc)
  with d1 w kept_outside_trans show ?case
    by (fastforce simp: Let_def add.assoc)
qed simp

text \<open>A write of any length to any address, aligned or not, changes nothing outside the words it covers.\<close>

lemma SPIWrite_same:
  assumes "lo \<le> des" "des + n \<le> hi" "des + n \<le> chip_size (chip env)"
  shows "kept_outside lo hi (mem d) (mem (snd (sdk_SPIWrite env des src n d)))"
proof -
  let ?ps = "page_size (chip env)"
  define f where "f = ?ps - des mod ?ps"
  have f: "0 < f" "des mod ?ps + f = ?ps" "(des + f) mod ?ps = 0"
  proof -
    have "des mod ?ps < ?ps"
      using chip_ok(2) by simp
    then show "0 < f" and sum: "des mod ?ps + f = ?ps"
      by (simp_all add: f_def)
    have "des + f = des div ?ps * ?ps + (des mod ?ps + f)"
      by (metis add.assoc div_mult_mod_eq)
    then show "(des + f) mod ?ps = 0"
      by (simp add: sum)
  qed
  have w: "add32 des n = des + n"
    using assms(3) chip_ok(1) by (simp add: add32_no_wrap)
  show ?thesis
  proof (cases "n < f")
    case True
    obtain d' where "SPI_page_program env des (take n src) d = (0, d')" "kept_outside lo hi (mem d) (mem d')"
      using program_same [of "take n src" n des lo hi d] True f(2) assms by auto
    with True w assms(3) show ?thesis
      by (simp add: sdk_SPIWrite_def f_def [symmetric] Let_def)
  next
    case False
    define k where "k = (n - f) div ?ps"
    define pos where "pos = f + k * ?ps"
    have pos: "pos \<le> n" "n - pos < ?ps" "(des + pos) mod ?ps = 0"
    proof -
      have "k * ?ps + (n - f) mod ?ps = n - f" "(n - f) mod ?ps < ?ps"
        using chip_ok(2) by (simp_all add: k_def)
      then show "pos \<le> n" "n - pos < ?ps"
        using False by (simp_all add: pos_def)
      show "(des + pos) mod ?ps = 0"
        using f(3) by (simp add: pos_def add.assoc [symmetric])
    qed
    obtain d1 where d1: "SPI_page_program env des (take f src) d = (0, d1)" "kept_outside lo hi (mem d) (mem d1)"
      using program_same [of "take f src" f des lo hi d] False f(2) assms by auto
    obtain d2 where d2: "write_pages env des src k f d1 = (0, pos, d2)" "kept_outside lo hi (mem d1) (mem d2)"
      using write_pages_same [of des f lo k hi src d1] assms f(3) pos(1) by (auto simp: pos_def)
    let ?b = "block_at (4 * (pos div 4)) (n - pos) src"
    have "length ?b \<le> n - pos"
      by (simp add: block_at_def)
    then obtain d3 where d3: "SPI_page_program env (des + pos) ?b d2 = (0, d3)" "kept_outside lo hi (mem d2) (mem d3)"
      using program_same [of ?b "n - pos" "des + pos" lo hi d2] assms pos by auto
    have "add32 des pos = des + pos" "sub32 n pos = n - pos"
      using assms(3) pos(1) chip_ok(1) by (auto intro!: add32_no_wrap sub32_no_wrap)
    with d3(1) False w assms(3) d1(1) d2(1) have "sdk_SPIWrite env des src n d = (0, d3)"
      by (simp add: sdk_SPIWrite_def f_def [symmetric] k_def [symmetric] Let_def)
    with d1(2) d2(2) d3(2) kept_outside_trans show ?thesis
      by (metis snd_conv)
  qed
qed

lemma flash_write_same:
  assumes "lo \<le> a" "a + n + 3 \<le> hi" "a + n + 3 \<le> chip_size (chip env)"
  shows "kept_outside lo hi (mem d) (mem (snd (sdk_spi_flash_write env a (Some bs) n d)))"
proof -
  have "round_size n \<le> n + 3"
  proof -
    have "round_size n = (n + 3) div 4 * 4"
      using round_size_eq [of n] assms(3) chip_ok(1) by simp
    also have "\<dots> \<le> n + 3"
      by simp
    finally show ?thesis .
  qed
  then show ?thesis
    using SPIWrite_same [of lo a "round_size n" hi "enter_flash env d" "source_bytes env bs (round_size n)"] assms quiet
    by (auto simp: sdk_spi_flash_write_def Let_def split: prod.split)
qed

end

end
