(* ===== verification/Tftp_Update.thy ===== *)
theory Tftp_Update
  imports Tftp_Flash
begin

text \<open>
  A reception over TFTP under any network: whatever is received, only the slot is written.
\<close>

section \<open>Only the slot is written\<close>

text \<open>The position of the next block: a multiple of 512 bytes below the limit.\<close>

definition slot_pos :: "nat \<Rightarrow> receive \<Rightarrow> bool" where
  "slot_pos a st \<longleftrightarrow> (\<exists>j. rx_offs st = a + 512 * j \<and> 512 * j < MAX_IMAGE_SIZE)"

text \<open>
  What the code assumes of every packet (its comment: \<^verbatim>\<open>assuming this netbuf chunk is at least 4
  bytes!\<close>): the first segment holds the header. Packets have at most 65535 bytes, as UDP allows.
\<close>

definition header_in_first :: "netbuf \<Rightarrow> bool" where
  "header_in_first nb \<longleftrightarrow> netbuf_len nb < 2 ^ 16 \<and> (\<forall>p ps. pbufs nb = p # ps \<longrightarrow> 4 \<le> length (pb_data p))"

context tftp_board begin

lemma write_chunk_same:
  assumes "write_chunk env wo off chunk bs d = Some (off', d')" "lo \<le> wo + off" "wo + off + length bs + 3 \<le> hi"
    and "wo + off + length bs + 3 \<le> chip_size (chip (flash env))"
  shows "off' = off + length bs \<and> kept_outside lo hi (mem d) (mem d')"
proof -
  have w: "add32 wo off = wo + off" "4 \<le> length bs \<Longrightarrow> add32 wo (off + 4) = wo + (off + 4)"
    using assms(4) chip_ok(1) by (simp_all add: add32_no_wrap)
  show ?thesis
  proof (cases "bs \<noteq> [] \<and> chunk mod 4 \<noteq> 0")
    case True
    then have l: "4 \<le> length bs"
      using assms(1) by (simp add: write_chunk_def split: if_splits)
    let ?d1 = "snd (sdk_spi_flash_write (flash env) (wo + off) (Some (take 4 bs)) 4 d)"
    have "d' = snd (sdk_spi_flash_write (flash env) (wo + (off + 4)) (Some (drop 4 bs)) (length bs - 4) ?d1)" "off' = off + length bs"
      using assms(1) True l w by (simp_all add: write_chunk_def split: prod.splits)
    moreover have "kept_outside lo hi (mem d) (mem ?d1)"
      using flash_write_same [of lo "wo + off" 4 hi d "take 4 bs"] assms(2-4) l by simp
    moreover have "kept_outside lo hi (mem ?d1) (mem (snd (sdk_spi_flash_write (flash env) (wo + (off + 4)) (Some (drop 4 bs)) (length bs - 4) ?d1)))"
      using flash_write_same [of lo "wo + (off + 4)" "length bs - 4" hi ?d1 "drop 4 bs"] assms(2-4) l by simp
    ultimately show ?thesis
      using kept_outside_trans by blast
  next
    case False
    then have "d' = snd (sdk_spi_flash_write (flash env) (wo + off) (Some bs) (length bs) d)" "off' = off + length bs"
      using assms(1) w by (auto simp: write_chunk_def split: prod.splits)
    then show ?thesis
      using flash_write_same [of lo "wo + off" "length bs" hi d bs] assms(2-4) by simp
  qed
qed

lemma write_chunks_same:
  assumes "write_chunks env wo off ps d = Some (off', d')" "lo \<le> wo + off" "wo + off + length (packet_bytes ps) + 3 \<le> hi"
    and "wo + off + length (packet_bytes ps) + 3 \<le> chip_size (chip (flash env))"
  shows "kept_outside lo hi (mem d) (mem d')"
  using assms
proof (induction ps arbitrary: off d)
  case (Cons p ps)
  then obtain off1 d1 where c: "write_chunk env wo off (pb_payload p) (pb_data p) d = Some (off1, d1)"
    "write_chunks env wo off1 ps d1 = Some (off', d')"
    by (auto split: Option.bind_splits)
  have l: "length (packet_bytes (p # ps)) = length (pb_data p) + length (packet_bytes ps)"
    by (simp add: packet_bytes_def)
  have "off1 = off + length (pb_data p)" "kept_outside lo hi (mem d) (mem d1)"
    using write_chunk_same [OF c(1) Cons.prems(2), of hi] Cons.prems(3,4) l by simp_all
  moreover from this(1) have "kept_outside lo hi (mem d1) (mem d')"
    by (intro Cons.IH [OF c(2)]) (use Cons.prems(2-4) l in simp_all)
  ultimately show ?case
    using kept_outside_trans by blast
qed simp

lemma write_packet_same:
  assumes "write_packet env rm wo ps d = Some d'" "\<forall>p ps1. ps = p # ps1 \<longrightarrow> 4 \<le> length (pb_data p)" "lo \<le> wo" "wo + length (packet_bytes ps) \<le> hi" "hi \<le> chip_size (chip (flash env))"
  shows "kept_outside lo hi (mem d) (mem d')"
proof -
  obtain p ps1 off' where p: "ps = p # ps1" "4 \<le> length (pb_data p)"
    "write_chunks env wo 0 (\<lparr>pb_payload = pb_payload p + 4, pb_data = drop 4 (pb_data p)\<rparr> # ps1) d = Some (off', d')"
    using assms(1,2) by (auto simp: write_packet_def first_segment_def Let_def simp del: write_chunks.simps split: list.splits Option.bind_splits if_splits)
  have "length (packet_bytes (\<lparr>pb_payload = pb_payload p + 4, pb_data = drop 4 (pb_data p)\<rparr> # ps1)) + 4 = length (packet_bytes ps)"
    using p(1,2) by (simp add: packet_bytes_def)
  then show ?thesis
    by (intro write_chunks_same [OF p(3)]) (use assms(3-5) in simp_all)
qed

lemma finish_block_same:
  assumes "board tenv = env" "finish_block tenv None a st final n d = Some (r, st', n', d')"
  shows "mem d' = mem d \<and> (r = Again \<longrightarrow> \<not> final \<and> rx_offs st' = add32 (rx_offs st) 512)"
proof (cases final)
  case True
  obtain ok il e d1 where v: "rboot_verify_image env a d = (ok, il, e, d1)" "mem d1 = mem d"
    using verify_keeps [of a d] by (metis prod.exhaust_sel)
  then show ?thesis
    using assms True by (auto simp: finish_block_def Let_def split: Option.bind_splits if_splits)
next
  case False
  then show ?thesis
    using assms by (auto simp: finish_block_def Let_def split: Option.bind_splits if_splits)
qed

lemma receive_block_same:
  assumes "board tenv = env" "receive_block tenv None a (a + MAX_IMAGE_SIZE) st nb n d = Some (r, st', n', d')"
    and "slot_pos a st" "4096 dvd a" "a + MAX_IMAGE_SIZE \<le> chip_size (chip (flash env))" "header_in_first nb"
  shows "kept_outside a (a + MAX_IMAGE_SIZE) (mem d) (mem d') \<and> (r = Again \<longrightarrow> slot_pos a st')"
proof -
  obtain j where j: "rx_offs st = a + 512 * j" "512 * j < MAX_IMAGE_SIZE"
    using assms(3) by (auto simp: slot_pos_def)
  define d1 where "d1 = (if rx_offs st mod 4096 = 0
    then snd (sdk_spi_flash_erase_sector (flash env) (of_nat (rx_offs st div 4096)) d) else d)"
  have big: "chip_size (chip (flash env)) \<le> 2 ^ 28"
    by (rule geometry(3))
  have e: "kept_outside a (a + MAX_IMAGE_SIZE) (mem d) (mem d1)"
  proof (cases "rx_offs st mod 4096 = 0")
    case True
    then have dvd: "4096 dvd rx_offs st"
      by presburger
    then have dj: "4096 dvd 512 * j"
      using j(1) assms(4) by (simp add: dvd_add_right_iff)
    then obtain q where q: "512 * j = 4096 * q"
      by (elim dvdE)
    then have "q < 256"
      using j(2) by simp
    then have fit: "rx_offs st + 4096 \<le> a + MAX_IMAGE_SIZE"
      using j(1) q by simp
    have sec: "rx_offs st = 4096 * (rx_offs st div 4096)"
      using dvd by simp
    have "rx_offs st div 4096 < 2 ^ 16"
      using fit assms(5) big by simp
    then have u: "unat (of_nat (rx_offs st div 4096) :: u16) = rx_offs st div 4096"
      by (simp add: unat_of_nat take_bit_nat_eq_self)
    have "rx_offs st div 4096 < chip_size (chip (flash env)) div 4096"
      using sec fit assms(5) geometry(4) by (auto elim!: dvdE)
    then show ?thesis
      using flash_erase [of "of_nat (rx_offs st div 4096)" d] u geometry(1) sec True fit assms(5) j(1) mem_size [of d]
        kept_outside_erase [of a "rx_offs st" 4096 "a + MAX_IMAGE_SIZE" "mem d"] by (auto simp: d1_def)
  qed (simp add: d1_def)
  have w: "add32 (rx_offs st) (netbuf_len nb) = rx_offs st + netbuf_len nb"
    using j assms(5,6) big by (simp add: add32_no_wrap header_in_first_def)
  show ?thesis
  proof (cases "rx_offs st + netbuf_len nb \<ge> a + MAX_IMAGE_SIZE")
    case True
    then have "d' = d1" "r \<noteq> Again"
      using assms(1,2) w by (auto simp: receive_block_def Let_def d1_def split: Option.bind_splits)
    with e show ?thesis
      by simp
  next
    case False
    obtain d2 where d2: "write_packet env (ram tenv) (rx_offs st) (pbufs nb) d1 = Some d2"
      and f: "finish_block tenv None a (st\<lparr>rx_retries := 10, rx_len := sub32 (add32 (rx_len st) (netbuf_len nb)) 4\<rparr>)
        (netbuf_len nb < DATA_PACKET_SZ) (netbuf_delete tenv n) d2 = Some (r, st', n', d')"
      using assms(1,2) w False by (auto simp: receive_block_def Let_def d1_def split: Option.bind_splits)
    have "\<forall>p ps1. pbufs nb = p # ps1 \<longrightarrow> 4 \<le> length (pb_data p)"
      using assms(6) by (simp add: header_in_first_def)
    then have "kept_outside a (a + MAX_IMAGE_SIZE) (mem d1) (mem d2)"
      using write_packet_same [OF d2, of a "a + MAX_IMAGE_SIZE"] j(1) False length_packet_bytes [of nb] assms(5) by simp
    moreover have "r = Again \<longrightarrow> slot_pos a st'"
    proof
      assume "r = Again"
      then have "rx_offs st' = a + 512 * Suc j" "512 * Suc j < MAX_IMAGE_SIZE"
        using finish_block_same [OF assms(1) f] j False assms(5) big by (simp_all add: add32_no_wrap)
      then show "slot_pos a st'"
        unfolding slot_pos_def by blast
    qed
    ultimately show ?thesis
      using e finish_block_same [OF assms(1) f] kept_outside_trans by metis
  qed
qed

lemma receive_packet_same:
  assumes "board tenv = env" "receive_packet tenv None a (a + MAX_IMAGE_SIZE) st nb n d = Some (r, st', n', d')"
    and "slot_pos a st" "4096 dvd a" "a + MAX_IMAGE_SIZE \<le> chip_size (chip (flash env))" "header_in_first nb"
  shows "kept_outside a (a + MAX_IMAGE_SIZE) (mem d) (mem d') \<and> (r = Again \<longrightarrow> slot_pos a st')"
proof (cases "netbuf_read_u16_n (uninit tenv) nb 0 = TFTP_OP_DATA \<and> int (netbuf_read_u16_n (uninit tenv) nb 2) = rx_block st")
  case True
  then have "receive_block tenv None a (a + MAX_IMAGE_SIZE) st nb n d = Some (r, st', n', d')"
    using assms(2) by (simp add: receive_packet_def)
  then show ?thesis
    by (rule receive_block_same [OF assms(1) _ assms(3-6)])
next
  case False
  then show ?thesis
    using assms(2,3) by (auto simp: receive_packet_def Let_def split: Option.bind_splits if_splits)
qed

lemma receive_round_same:
  assumes "board tenv = env" "receive_round tenv None a (a + MAX_IMAGE_SIZE) st n d = Some (r, st', n', d')"
    and "slot_pos a st" "4096 dvd a" "a + MAX_IMAGE_SIZE \<le> chip_size (chip (flash env))"
    and "\<forall>n err nb n'. netconn_recv tenv n = (err, Some nb, n') \<longrightarrow> header_in_first nb"
  shows "kept_outside a (a + MAX_IMAGE_SIZE) (mem d) (mem d') \<and> (r = Again \<longrightarrow> slot_pos a st')"
proof -
  have pos: "slot_pos a (st\<lparr>rx_peer := p\<rparr>)" "slot_pos a (st\<lparr>rx_peer := p, rx_retries := k\<rparr>)" for p k
    using assms(3) by (simp_all add: slot_pos_def)
  obtain err nb n2 where e: "netconn_recv tenv (if rx_peer st \<noteq> None then netconn_disconnect tenv n else n) = (err, nb, n2)"
    by (metis prod.exhaust)
  consider "err = ERR_TIMEOUT" | "err \<noteq> ERR_TIMEOUT" "err \<noteq> ERR_OK" | b p n3 where "err = ERR_OK" "nb = Some b"
    "receive_packet tenv None a (a + MAX_IMAGE_SIZE) (st\<lparr>rx_peer := p\<rparr>) b n3 d = Some (r, st', n', d')"
  proof (cases "err = ERR_OK")
    case True
    then obtain b where b: "nb = Some b"
      using assms(2) e by (cases nb) (auto simp: receive_round_def Let_def split: prod.splits option.splits)
    then show ?thesis
      using that(3) assms(2) e True by (cases "rx_peer st") (auto simp: receive_round_def Let_def split: prod.splits)
  qed (use that in blast)
  then show ?thesis
  proof cases
    case 1
    then show ?thesis
      using assms(2) e pos by (auto simp: receive_round_def Let_def split: Option.bind_splits if_splits prod.splits)
  next
    case 2
    then show ?thesis
      using assms(2) e pos by (auto simp: receive_round_def Let_def split: Option.bind_splits if_splits prod.splits)
  next
    case 3
    then have "header_in_first b"
      using assms(6) e by blast
    then show ?thesis
      by (rule receive_packet_same [OF assms(1) 3(3) pos(1) assms(4,5)])
  qed
qed

end

text \<open>The states a reception goes through.\<close>

inductive receiving :: "('n, 'd) tftp_env \<Rightarrow> nat \<Rightarrow> receive \<Rightarrow> 'n \<Rightarrow> 'd \<Rightarrow> outcome \<Rightarrow> receive \<Rightarrow> 'n \<Rightarrow> 'd \<Rightarrow> bool"
  for env :: "('n, 'd) tftp_env" and a st0 n0 d0 where
  start: "receiving env a st0 n0 d0 Again st0 n0 d0"
| round: "receiving env a st0 n0 d0 Again st n d \<Longrightarrow>
    receive_round env None a (a + MAX_IMAGE_SIZE) st n d = Some (r, st', n', d') \<Longrightarrow> receiving env a st0 n0 d0 r st' n' d'"

lemma receive_loop_receiving:
  assumes "receive_loop env None a (a + MAX_IMAGE_SIZE) st n d = Some (err, len, n', d')" "receiving env a st0 n0 d0 Again st n d"
  shows "\<exists>st'. receiving env a st0 n0 d0 (Return err) st' n' d'"
proof -
  have "cb = None \<and> s = a \<and> l = a + MAX_IMAGE_SIZE \<and> env' = env \<and> receiving env a st0 n0 d0 Again st n d \<longrightarrow>
      (\<exists>st'. receiving env a st0 n0 d0 (Return (fst y)) st' (fst (snd (snd y))) (snd (snd (snd y))))"
    if "receive_loop env' cb s l st n d = Some y" for env' cb s l y
  proof (rule receive_loop.raw_induct [where P = "\<lambda>env' cb s l st n d y. cb = None \<and> s = a \<and> l = a + MAX_IMAGE_SIZE \<and> env' = env \<and>
        receiving env a st0 n0 d0 Again st n d \<longrightarrow>
        (\<exists>st'. receiving env a st0 n0 d0 (Return (fst y)) st' (fst (snd (snd y))) (snd (snd (snd y))))", OF _ that])
    fix loop :: "('a, 'b) tftp_env \<Rightarrow> (nat \<Rightarrow> 'a \<times> 'b \<Rightarrow> 'a \<times> 'b) option \<Rightarrow> nat \<Rightarrow> nat \<Rightarrow> receive \<Rightarrow> 'a \<Rightarrow> 'b \<Rightarrow> (int \<times> nat \<times> 'a \<times> 'b) option"
      and env' cb s l st n d y
    assume IH: "\<And>env' cb s l st n d y. loop env' cb s l st n d = Some y \<Longrightarrow>
        cb = None \<and> s = a \<and> l = a + MAX_IMAGE_SIZE \<and> env' = env \<and> receiving env a st0 n0 d0 Again st n d \<longrightarrow>
        (\<exists>st'. receiving env a st0 n0 d0 (Return (fst y)) st' (fst (snd (snd y))) (snd (snd (snd y))))"
      and y: "receive_round env' cb s l st n d \<bind> (\<lambda>(r, st1, n1, d1). case r of
        Again \<Rightarrow> loop env' cb s l st1 n1 d1 | Return err \<Rightarrow> Some (err, rx_len st1, n1, d1)) = Some y"
    from y obtain r st1 n1 d1 where r: "receive_round env' cb s l st n d = Some (r, st1, n1, d1)"
      and k: "(case r of Again \<Rightarrow> loop env' cb s l st1 n1 d1 | Return err \<Rightarrow> Some (err, rx_len st1, n1, d1)) = Some y"
      by (auto split: Option.bind_splits)
    show "cb = None \<and> s = a \<and> l = a + MAX_IMAGE_SIZE \<and> env' = env \<and> receiving env a st0 n0 d0 Again st n d \<longrightarrow>
        (\<exists>st'. receiving env a st0 n0 d0 (Return (fst y)) st' (fst (snd (snd y))) (snd (snd (snd y))))"
    proof
      assume h: "cb = None \<and> s = a \<and> l = a + MAX_IMAGE_SIZE \<and> env' = env \<and> receiving env a st0 n0 d0 Again st n d"
      then have s: "receiving env a st0 n0 d0 r st1 n1 d1"
        using r by (auto intro: receiving.round)
      show "\<exists>st'. receiving env a st0 n0 d0 (Return (fst y)) st' (fst (snd (snd y))) (snd (snd (snd y)))"
        using k s h IH [of env' cb s l st1 n1 d1 y] by (cases r) auto
    qed
  qed
  from this [OF assms(1)] assms(2) show ?thesis
    by simp
qed

lemma receiving_same:
  assumes "tftp_board (board env) mem" "4096 dvd a" "a + MAX_IMAGE_SIZE \<le> length (mem d)"
    and "\<forall>n err nb n'. netconn_recv env n = (err, Some nb, n') \<longrightarrow> header_in_first nb"
    and "receiving env a (receive_start a peer) n d r st n' d'"
  shows "kept_outside a (a + MAX_IMAGE_SIZE) (mem d) (mem d') \<and> (r = Again \<longrightarrow> slot_pos a st)"
  using assms(5)
proof (induction rule: receiving.induct)
  case start
  have "rx_offs (receive_start a peer) = a + 512 * 0"
    by (simp add: receive_start_def)
  then show ?case
    unfolding slot_pos_def by (intro conjI impI kept_outside_refl exI [of _ 0]) simp_all
next
  case (round st n d1 r st' n' d')
  have "a + MAX_IMAGE_SIZE \<le> chip_size (chip (flash (board env)))"
    using nor_rom.mem_size [OF api.axioms(1) [OF tftp_board.axioms(1) [OF assms(1)]], of d] assms(3) by simp
  then have "kept_outside a (a + MAX_IMAGE_SIZE) (mem d1) (mem d') \<and> (r = Again \<longrightarrow> slot_pos a st')"
    using tftp_board.receive_round_same [OF assms(1) refl round(2) _ assms(2) _ assms(4)] round(3) by blast
  with round(3) show ?case
    using kept_outside_trans by blast
qed

text \<open>
  C12: a reception changes the flash in the slot only. At every moment of a reception into the
  slot at a sector boundary \<open>a\<close>, and when it returns, with any packets from the network (of less than 64 KB,
  as a 16-bit total length allows) whose first segment holds the four bytes of the TFTP header (their further segments of any length and
  alignment, in any order, with any contents) and any errors reported for it, the flash holds outside
  of the 1 MB from \<open>a\<close> on what it held before. The code does not check the length of the first
  segment; with a shorter one it writes almost 64 KB, over the end of the slot too. A reception that
  reaches an unaligned segment of one to three bytes stops in \<^verbatim>\<open>memmove\<close> and is covered up to there.
\<close>

theorem tftp_writes_slot_only:
  assumes "tftp_board (board env) mem" "4096 dvd a" "a + MAX_IMAGE_SIZE \<le> length (mem d)"
    and "\<forall>n err nb n'. netconn_recv env n = (err, Some nb, n') \<longrightarrow> header_in_first nb"
    and "receiving env a (receive_start a peer) n d r st n' d' \<or>
      tftp_receive_data env a (a + MAX_IMAGE_SIZE) peer None n d = Some (err, len, n', d')"
  shows "length (mem d') = length (mem d) \<and> (\<forall>i < length (mem d). i < a \<or> a + MAX_IMAGE_SIZE \<le> i \<longrightarrow> mem d' ! i = mem d ! i)"
proof -
  obtain r' st' where "receiving env a (receive_start a peer) n d r' st' n' d'"
    using assms(5) receive_loop_receiving [OF _ receiving.start] unfolding tftp_receive_data_def by metis
  from receiving_same [OF assms(1-4) this] show ?thesis
    by (simp add: kept_outside_def)
qed

end
