(* ===== verification/Tftp_Transfer.thy ===== *)
theory Tftp_Transfer
  imports Tftp_Update
begin

text \<open>
  Transfers that succeed: what the code relies on from lwIP (the locale \<open>tftp_net\<close>), the sequences
  of packets, repetitions and timeouts that deliver an image (\<open>transfer\<close>), and the reception of such
  a sequence, block by block, down to the flash (the locale \<open>tftp_system\<close>, which joins the network and
  the board).
\<close>

section \<open>The network\<close>

text \<open>
  What the code relies on: the results of \<^verbatim>\<open>netconn_recv\<close> come in the order of a queue, what is
  sent is sent, buffers can be allocated, and the other functions leave the queue alone.
\<close>

locale tftp_net =
  fixes env :: "('n, 'd) tftp_env" and pending :: "'n \<Rightarrow> (int \<times> netbuf option) list" and sent :: "'n \<Rightarrow> byte list list"
  assumes recv: "pending n = (err, nb) # es \<Longrightarrow> \<exists>n'. netconn_recv env n = (err, nb, n') \<and> pending n' = es \<and> sent n' = sent n"
    and send: "\<exists>n'. netconn_send env packet n = (ERR_OK, n') \<and> pending n' = pending n \<and> sent n' = sent n @ [packet]"
    and alloc: "\<exists>n'. netbuf_alloc env k n = (True, n') \<and> pending n' = pending n \<and> sent n' = sent n"
      "\<exists>n'. field_malloc env k n = (True, n') \<and> pending n' = pending n \<and> sent n' = sent n"
    and net_quiet: "pending (netbuf_delete env n) = pending n" "sent (netbuf_delete env n) = sent n"
      "pending (netconn_connect env addr port n) = pending n" "sent (netconn_connect env addr port n) = sent n"
      "pending (netconn_disconnect env n) = pending n" "sent (netconn_disconnect env n) = sent n"
      "pending (netconn_set_recvtimeout env t n) = pending n" "sent (netconn_set_recvtimeout env t n) = sent n"

definition ack_packet :: "int \<Rightarrow> byte list" where
  "ack_packet block = htons TFTP_OP_ACK @ htons block"

definition error_packet :: "int \<Rightarrow> string \<Rightarrow> byte list" where
  "error_packet err_code err_msg = htons TFTP_OP_ERROR @ htons err_code @ c_string err_msg"

context tftp_net begin

lemma send_bytes_ok: "\<exists>n'. send_bytes env packet n = Some (ERR_OK, n') \<and> pending n' = pending n \<and> sent n' = sent n @ [packet]"
proof -
  obtain n1 where n1: "netbuf_alloc env (length packet) n = (True, n1)" "pending n1 = pending n" "sent n1 = sent n"
    using alloc(1) by blast
  obtain n2 where "netconn_send env packet n1 = (ERR_OK, n2)" "pending n2 = pending n1" "sent n2 = sent n1 @ [packet]"
    using send by blast
  with n1 net_quiet(1,2) show ?thesis
    by (simp add: send_bytes_def)
qed

lemma send_ack_ok: "\<exists>n'. tftp_send_ack env k n = Some (ERR_OK, n') \<and> pending n' = pending n \<and> sent n' = sent n @ [ack_packet k]"
  using send_bytes_ok [of "ack_packet k" n] by (simp add: tftp_send_ack_def ack_packet_def)

lemma send_error_ok: "\<exists>n'. tftp_send_error env c e n = Some n' \<and> pending n' = pending n \<and> sent n' = sent n @ [error_packet c e]"
  using send_bytes_ok [of "error_packet c e" n] by (auto simp: tftp_send_error_def error_packet_def)

text \<open>The start of a round: the connection is made or remade, the state keeps all but the peer.\<close>

lemma receive_round_recv:
  assumes "pending n = (err, nb) # es"
  shows "\<exists>n3 peer. pending n3 = es \<and> sent n3 = sent n \<and>
    receive_round env cb a l st n d =
      (if err = ERR_TIMEOUT then
         (let st2 = st\<lparr>rx_peer := peer, rx_retries := rx_retries st - 1\<rparr>
          in if rx_retries st > 0 \<and> rx_block st > 1 then do {
               (_, n4) \<leftarrow> tftp_send_ack env (rx_block st - 1) n3;
               Some (Again, st2, n4, d) }
             else do {
               n4 \<leftarrow> tftp_send_error env TFTP_ERR_ILLEGAL ''Timeout'' n3;
               Some (Return ERR_TIMEOUT, st2, n4, d) })
       else if err \<noteq> ERR_OK then do {
         n4 \<leftarrow> tftp_send_error env TFTP_ERR_ILLEGAL ''Failed to receive packet'' n3;
         Some (Return err, st\<lparr>rx_peer := peer\<rparr>, n4, d) }
       else do {
         b \<leftarrow> nb;
         receive_packet env cb a l (st\<lparr>rx_peer := peer\<rparr>) b n3 d })"
proof -
  let ?n1 = "if rx_peer st \<noteq> None then netconn_disconnect env n else n"
  have "pending ?n1 = (err, nb) # es" "sent ?n1 = sent n"
    using assms net_quiet(5,6) by simp_all
  then obtain n2 where n2: "netconn_recv env ?n1 = (err, nb, n2)" "pending n2 = es" "sent n2 = sent n"
    using recv [of ?n1 err nb es] by auto
  define pn where "pn = (case rx_peer st of
      None \<Rightarrow> (None, n2)
    | Some (addr, port) \<Rightarrow>
        (case nb of
           Some b \<Rightarrow> (None, netconn_connect env (fromaddr b) (uint (fromport b)) n2)
         | None \<Rightarrow> (Some (addr, port), netconn_connect env addr port n2)))"
  have "pending (snd pn) = es" "sent (snd pn) = sent n"
    using n2(2,3) net_quiet(3,4) by (auto simp: pn_def split: option.split)
  then show ?thesis
    using n2(1) unfolding receive_round_def by (intro exI [of _ "snd pn"] exI [of _ "fst pn"]) (auto simp: pn_def [symmetric] Let_def split: prod.split)
qed

end

section \<open>Transfers\<close>

text \<open>
  A data packet as lwIP may deliver it: the header in the first segment, all segments whole
  words, as the code assumes.
\<close>

definition data_packet :: "nat \<Rightarrow> byte list \<Rightarrow> netbuf \<Rightarrow> bool" where
  "data_packet k bs nb \<longleftrightarrow>
     packet_bytes (pbufs nb) = htons (int TFTP_OP_DATA) @ htons (int k) @ bs \<and>
     pbufs nb \<noteq> [] \<and> 4 \<le> length (pb_data (hd (pbufs nb))) \<and> (\<forall>p\<in>set (pbufs nb). 4 dvd length (pb_data p))"

text \<open>
  \<open>transfer k r bs es acks\<close>: the events \<open>es\<close> deliver the bytes \<open>bs\<close>, in blocks numbered from \<open>k\<close>
  on, with repetitions of the block before and with at most \<open>r\<close> timeouts before the first and
  ten between the later ones; \<open>acks\<close> are the acknowledgements due until the last block arrives.
\<close>

inductive transfer :: "nat \<Rightarrow> nat \<Rightarrow> byte list \<Rightarrow> (int \<times> netbuf option) list \<Rightarrow> int list \<Rightarrow> bool" where
  final_block: "length bs < 512 \<Longrightarrow> data_packet k bs nb \<Longrightarrow> transfer k r bs [(ERR_OK, Some nb)] []"
| next_block: "length bs = 512 \<Longrightarrow> data_packet k bs nb \<Longrightarrow> transfer (Suc k) 10 rest es acks \<Longrightarrow>
    transfer k r (bs @ rest) ((ERR_OK, Some nb) # es) (int k # acks)"
| repeated_block: "data_packet k bs nb \<Longrightarrow> transfer (Suc k) r rest es acks \<Longrightarrow>
    transfer (Suc k) r rest ((ERR_OK, Some nb) # es) (int k # acks)"
| lost_block: "0 < k \<Longrightarrow> transfer (Suc k) r rest es acks \<Longrightarrow>
    transfer (Suc k) (Suc r) rest ((ERR_TIMEOUT, None) # es) (int k # acks)"

lemma length_htons [simp]: "length (htons x) = 2"
  by (simp add: htons_def)

lemma data_packet_len: "data_packet k bs nb \<Longrightarrow> netbuf_len nb = length bs + 4"
  using length_packet_bytes [of nb] by (simp add: data_packet_def)

lemma data_packet_words: "data_packet k bs nb \<Longrightarrow> 4 dvd length bs"
proof -
  assume p: "data_packet k bs nb"
  have s: "4 dvd sum_list (map (length \<circ> pb_data) ps)" if "\<forall>p\<in>set ps. 4 dvd length (pb_data p)" for ps
    using that by (induction ps) simp_all
  then have "4 dvd length bs + 4"
    using p s [of "pbufs nb"] data_packet_len [OF p] by (metis data_packet_def netbuf_len_def)
  then show ?thesis
    by (simp add: dvd_add_left_iff)
qed

lemma data_packet_header:
  assumes "data_packet k bs nb" "k < 2 ^ 16"
  shows "netbuf_read_u16_n stack nb 0 = TFTP_OP_DATA" "netbuf_read_u16_n stack nb 2 = k"
proof -
  have l: "netbuf_len nb = length bs + 4"
    by (rule data_packet_len [OF assms(1)])
  have b: "packet_bytes (pbufs nb) = [0, 3, word_of_int (int k div 256), word_of_int (int k)] @ bs"
    using assms(1) by (simp add: data_packet_def htons_def)
  show "netbuf_read_u16_n stack nb 0 = TFTP_OP_DATA"
    using netbuf_read_u16_n_eq [of 0 nb stack] l b by simp
  have "int k div 256 = int (k div 256)"
    by (simp add: zdiv_int)
  moreover have "k div 256 < 256"
    using assms(2) by simp
  ultimately have "unat (word_of_int (int k div 256) :: byte) = k div 256" "unat (word_of_int (int k) :: byte) = k mod 256"
    by (simp_all only: of_int_of_nat_eq unat_of_nat) (simp_all add: take_bit_eq_mod)
  then show "netbuf_read_u16_n stack nb 2 = k"
    using netbuf_read_u16_n_eq [of 2 nb stack] l b by simp
qed

section \<open>Blocks in flash\<close>

context api begin

lemma write_layout:
  assumes "mem d = layout m a w k" "length m = chip_size (chip (flash env))" "4 dvd a + length w" "4 dvd length bs"
    and "a + length w + length bs \<le> 4096 * k" "4096 * k \<le> length m"
  shows "\<exists>d'. sdk_spi_flash_write (flash env) (a + length w) (Some bs) (length bs) d = (0, d') \<and> mem d' = layout m a (w @ bs) k"
proof -
  have r: "round_size (length bs) = length bs" "source_bytes (flash env) bs (length bs) = bs"
    using assms(4) by (simp_all add: round_size_def source_bytes_def)
  then show ?thesis
    using flash_write [OF assms(3), of bs d] assms(1,2,5,6) prog_layout [OF assms(5,6)] by auto
qed

lemma write_chunk_layout:
  assumes "mem d = layout m a w k" "length m = chip_size (chip (flash env))" "4 dvd a + length w" "4 dvd length bs"
    and "a + length w + length bs \<le> 4096 * k" "4096 * k \<le> length m" "wo + off = a + length w"
  shows "\<exists>d'. write_chunk env wo off chunk bs d = Some (off + length bs, d') \<and> mem d' = layout m a (w @ bs) k"
proof -
  have w: "add32 wo off = a + length w" "4 \<le> length bs \<Longrightarrow> add32 wo (off + 4) = a + length (w @ take 4 bs)"
    using assms(2,5-7) chip_ok(1) by (simp_all add: add32_no_wrap)
  show ?thesis
  proof (cases "bs \<noteq> [] \<and> chunk mod 4 \<noteq> 0")
    case True
    then have l: "4 \<le> length bs"
      using assms(4) dvd_imp_le [of 4 "length bs"] by simp
    obtain d1 where d1: "sdk_spi_flash_write (flash env) (a + length w) (Some (take 4 bs)) 4 d = (0, d1)"
      "mem d1 = layout m a (w @ take 4 bs) k"
      using write_layout [OF assms(1-3), of "take 4 bs"] assms(5,6) l by auto
    obtain d2 where "sdk_spi_flash_write (flash env) (a + length (w @ take 4 bs)) (Some (drop 4 bs)) (length bs - 4) d1 = (0, d2)"
      "mem d2 = layout m a (w @ bs) k"
      using write_layout [OF d1(2) assms(2), of "drop 4 bs"] assms(3-6) l dvd_add [OF assms(3), of 4] by (auto simp: add.assoc)
    with d1(1) w l True show ?thesis
      by (simp add: write_chunk_def)
  next
    case False
    then show ?thesis
      using write_layout [OF assms(1-6)] w(1) by (auto simp: write_chunk_def)
  qed
qed

lemma write_chunks_layout:
  assumes "mem d = layout m a w k" "length m = chip_size (chip (flash env))" "4 dvd a + length w" "\<forall>p\<in>set ps. 4 dvd length (pb_data p)"
    and "a + length w + length (packet_bytes ps) \<le> 4096 * k" "4096 * k \<le> length m" "wo + off = a + length w"
  shows "\<exists>off' d'. write_chunks env wo off ps d = Some (off', d') \<and> mem d' = layout m a (w @ packet_bytes ps) k"
  using assms(1,3-5,7)
proof (induction ps arbitrary: w off d)
  case (Cons p ps)
  let ?b = "pb_data p"
  have b: "packet_bytes (p # ps) = ?b @ packet_bytes ps"
    by (simp add: packet_bytes_def)
  obtain d1 where d1: "write_chunk env wo off (pb_payload p) ?b d = Some (off + length ?b, d1)" "mem d1 = layout m a (w @ ?b) k"
    using write_chunk_layout [OF Cons.prems(1) assms(2) Cons.prems(2), of ?b wo off "pb_payload p"] Cons.prems(3-5) assms(6) b by auto
  have "\<exists>off' d'. write_chunks env wo (off + length ?b) ps d1 = Some (off', d') \<and> mem d' = layout m a ((w @ ?b) @ packet_bytes ps) k"
    by (rule Cons.IH [OF d1(2)]) (use Cons.prems b in \<open>simp_all add: add.assoc [symmetric]\<close>)
  with d1(1) b show ?case
    by simp
qed (simp add: packet_bytes_def)

lemma write_packet_layout:
  assumes "data_packet k bs nb" "mem d = layout m a w K" "length m = chip_size (chip (flash env))" "4 dvd a + length w"
    and "a + length w + length bs \<le> 4096 * K" "4096 * K \<le> length m"
  shows "\<exists>d'. write_packet env rm (a + length w) (pbufs nb) d = Some d' \<and> mem d' = layout m a (w @ bs) K"
proof -
  obtain p ps where p: "pbufs nb = p # ps" "4 \<le> length (pb_data p)" "\<forall>p\<in>set (p # ps). 4 dvd length (pb_data p)"
    using assms(1) by (cases "pbufs nb") (auto simp: data_packet_def)
  let ?p = "\<lparr>pb_payload = pb_payload p + 4, pb_data = drop 4 (pb_data p)\<rparr>"
  have "packet_bytes (p # ps) = htons 3 @ htons (int k) @ bs"
    using assms(1) p(1) by (simp add: data_packet_def)
  then have "drop 4 (packet_bytes (p # ps)) = bs"
    by simp
  then have b: "packet_bytes (?p # ps) = bs"
    using p(2) by (simp add: packet_bytes_def)
  have "4 dvd length (pb_data ?p)"
    using p(2,3) by (simp add: dvd_minus_self dvd_diff_nat)
  then have "\<exists>off' d'. write_chunks env (a + length w) 0 (?p # ps) d = Some (off', d') \<and> mem d' = layout m a (w @ packet_bytes (?p # ps)) K"
    by (intro write_chunks_layout [OF assms(2-4)]) (use p(3) b assms(5,6) in simp_all)
  then show ?thesis
    using p(1,2) unfolding b by (auto simp: write_packet_def first_segment_def simp del: write_chunks.simps)
qed

end

text \<open>The sectors in use before and behind a block.\<close>

lemma block_sectors:
  fixes a l n :: nat
  assumes "4096 dvd a" "512 dvd l" "n \<le> 512"
  shows "l mod 4096 = 0 \<Longrightarrow> (a + l) mod 4096 = 0 \<and> (a + l + 4095) div 4096 = (a + l) div 4096"
    and "l mod 4096 \<noteq> 0 \<Longrightarrow> (a + l) mod 4096 \<noteq> 0 \<and> (a + l + 4095) div 4096 = (a + l) div 4096 + 1"
    and "a + l + n \<le> 4096 * ((a + l) div 4096 + 1)" "(a + (l + 512) + 4095) div 4096 = (a + l) div 4096 + 1"
    and "n < 512 \<Longrightarrow> (a + (l + n)) div 4096 = (a + l) div 4096"
proof -
  obtain q where a: "a = 4096 * q"
    using assms(1) by (elim dvdE)
  obtain j where l: "l = 512 * j"
    using assms(2) by (elim dvdE)
  have e: "a + l = 4096 * (q + j div 8) + 512 * (j mod 8)" "j mod 8 < 8" "l mod 4096 = 512 * (j mod 8)"
  proof -
    have "512 * j = 512 * (8 * (j div 8) + j mod 8)"
      by simp
    then show "a + l = 4096 * (q + j div 8) + 512 * (j mod 8)"
      unfolding a l by (simp only: distrib_left)
  qed (use l mult_mod_right [of 512 j 8] in simp_all)
  obtain x r where x: "a + l = 4096 * x + 512 * r" "r < 8" "l mod 4096 = 512 * r"
    using e by blast
  have s: "(4096 * z + y) mod 4096 = y" "(4096 * z + y) div 4096 = z" if "y < 4096" for y z :: nat
    using that by simp_all
  have d: "(a + l) div 4096 = x" "(a + l) mod 4096 = 512 * r"
    unfolding x(1) using s [of "512 * r" x] x(2) by simp_all
  show "l mod 4096 = 0 \<Longrightarrow> (a + l) mod 4096 = 0 \<and> (a + l + 4095) div 4096 = (a + l) div 4096"
    unfolding x(1,3) by simp
  show "l mod 4096 \<noteq> 0 \<Longrightarrow> (a + l) mod 4096 \<noteq> 0 \<and> (a + l + 4095) div 4096 = (a + l) div 4096 + 1"
  proof -
    assume "l mod 4096 \<noteq> 0"
    then have "a + l + 4095 = 4096 * (x + 1) + (512 * r - 1)" "512 * r - 1 < 4096" "r \<noteq> 0"
      using x by simp_all
    then show ?thesis
      unfolding d using s(2) [of "512 * r - 1" "x + 1"] by simp
  qed
  show "a + l + n \<le> 4096 * ((a + l) div 4096 + 1)"
    unfolding d x(1) using x(2) assms(3) by simp
  have "a + (l + 512) + 4095 = 4096 * (x + 1) + (512 * r + 511)" "512 * r + 511 < 4096"
    using x by simp_all
  then show "(a + (l + 512) + 4095) div 4096 = (a + l) div 4096 + 1"
    unfolding d using s(2) [of "512 * r + 511" "x + 1"] by simp
  show "n < 512 \<Longrightarrow> (a + (l + n)) div 4096 = (a + l) div 4096"
    unfolding d add.assoc [symmetric] x(1) using x(2) s(2) [of "512 * r + n" x] by simp
qed

section \<open>A reception\<close>

text \<open>The verdict on a received image: \<^term>\<open>None\<close>, or the message sent.\<close>

definition verdict :: "'d api_env \<Rightarrow> nat \<Rightarrow> nat \<Rightarrow> 'd \<Rightarrow> string option" where
  "verdict env a len d =
     (case rboot_verify_image env a d of
        (valid, image_length, err, _) \<Rightarrow>
          if valid \<and> image_length = len then None
          else Some (case err of None \<Rightarrow> ''Unknown validation error'' | Some e \<Rightarrow> e))"

definition reply :: "string option \<Rightarrow> nat \<Rightarrow> byte list" where
  "reply v len = (case v of None \<Rightarrow> ack_packet (int (len div 512 + 1)) | Some e \<Rightarrow> error_packet TFTP_ERR_ILLEGAL e)"

text \<open>Callbacks of the application that leave flash and network alone.\<close>

definition quiet_cb :: "('n \<Rightarrow> (int \<times> netbuf option) list) \<Rightarrow> ('n \<Rightarrow> byte list list) \<Rightarrow> ('d \<Rightarrow> byte list) \<Rightarrow>
  (nat \<Rightarrow> 'n \<times> 'd \<Rightarrow> 'n \<times> 'd) option \<Rightarrow> bool" where
  "quiet_cb pending sent mem cb \<longleftrightarrow> (\<forall>f len n d n' d'. cb = Some f \<and> f len (n, d) = (n', d') \<longrightarrow>
     pending n' = pending n \<and> sent n' = sent n \<and> mem d' = mem d)"

lemma quiet_None [simp]: "quiet_cb pending sent mem None"
  by (simp add: quiet_cb_def)

lemma run_cb:
  assumes "quiet_cb pending sent mem cb"
  shows "\<exists>n' d'. (case cb of None \<Rightarrow> (n, d) | Some f \<Rightarrow> f len (n, d)) = (n', d') \<and>
    pending n' = pending n \<and> sent n' = sent n \<and> mem d' = mem d"
proof (cases cb)
  case (Some f)
  obtain n' d' where "f len (n, d) = (n', d')"
    by fastforce
  with Some assms show ?thesis
    by (auto simp: quiet_cb_def)
qed simp

locale tftp_system = tftp_net env pending sent + tftp_board "board env" mem
  for env :: "('n, 'd) tftp_env" and pending sent mem
begin

lemma finish_next:
  assumes "quiet_cb pending sent mem cb"
  shows "\<exists>n' d'. finish_block env cb a st False n d =
      Some (Again, st\<lparr>rx_block := rx_block st + 1, rx_offs := add32 (rx_offs st) 512\<rparr>, n', d') \<and>
    pending n' = pending n \<and> sent n' = sent n @ [ack_packet (rx_block st)] \<and> mem d' = mem d"
proof -
  obtain n1 where n1: "tftp_send_ack env (rx_block st) n = Some (ERR_OK, n1)" "pending n1 = pending n" "sent n1 = sent n @ [ack_packet (rx_block st)]"
    using send_ack_ok by blast
  from run_cb [OF assms, of n1 d "rx_len st"] n1 show ?thesis
    by (auto simp: finish_block_def)
qed

lemma finish_last:
  assumes "quiet_cb pending sent mem cb" "rx_len st = len"
  shows "\<exists>n' d'. finish_block env cb a st True n d =
      Some (Return (if verdict (board env) a len d = None then ERR_OK else ERR_VAL), st, n', d') \<and> pending n' = pending n \<and>
    sent n' = sent n @ [case verdict (board env) a len d of None \<Rightarrow> ack_packet (rx_block st) | Some e \<Rightarrow> error_packet TFTP_ERR_ILLEGAL e] \<and>
    mem d' = mem d"
proof -
  obtain ok il e d1 where v: "rboot_verify_image (board env) a d = (ok, il, e, d1)" "mem d1 = mem d"
    using verify_keeps [of a d] by (metis prod.exhaust_sel)
  show ?thesis
  proof (cases "ok \<and> il = len")
    case True
    obtain n1 where "tftp_send_ack env (rx_block st) n = Some (ERR_OK, n1)" "pending n1 = pending n" "sent n1 = sent n @ [ack_packet (rx_block st)]"
      using send_ack_ok by blast
    with run_cb [OF assms(1), of n1 d1 "rx_len st"] assms(2) v True show ?thesis
      by (auto simp: finish_block_def verdict_def)
  next
    case False
    let ?e = "case e of None \<Rightarrow> ''Unknown validation error'' | Some e \<Rightarrow> e"
    obtain n1 where "tftp_send_error env TFTP_ERR_ILLEGAL ?e n = Some n1" "pending n1 = pending n" "sent n1 = sent n @ [error_packet TFTP_ERR_ILLEGAL ?e]"
      using send_error_ok by blast
    then show ?thesis
      using assms(2) v False by (auto simp: finish_block_def verdict_def)
  qed
qed

lemma receive_block_layout:
  assumes "data_packet k bs nb" "length bs \<le> 512" "rx_offs st = a + length w" "rx_len st = length w" "512 dvd length w"
    and "mem d = layout m a w ((a + length w + 4095) div 4096)" "length m = chip_size (chip (flash (board env)))" "4096 dvd a"
    and "length (w @ bs) + 4 < MAX_IMAGE_SIZE" "a + MAX_IMAGE_SIZE \<le> length m"
  shows "\<exists>d'. receive_block env cb a (a + MAX_IMAGE_SIZE) st nb n d =
      finish_block env cb a (st\<lparr>rx_retries := TFTP_TIMEOUT_RETRANSMITS, rx_len := length (w @ bs)\<rparr>) (length bs < 512) (netbuf_delete env n) d' \<and>
    mem d' = layout m a (w @ bs) ((a + length w) div 4096 + 1)"
proof -
  let ?l = "length w" and ?K = "(a + length w) div 4096 + 1"
  note s = block_sectors [OF assms(8,5,2)]
  have big: "length m \<le> 2 ^ 28"
    using geometry(3) assms(7) by simp
  have fit: "4096 * ?K \<le> length m"
  proof -
    have "a + ?l < a + MAX_IMAGE_SIZE"
      using assms(9) by simp
    moreover have "4096 dvd a + MAX_IMAGE_SIZE"
      using assms(8) by simp
    ultimately have "?K \<le> (a + MAX_IMAGE_SIZE) div 4096"
      by (auto elim!: dvdE)
    then have "4096 * ?K \<le> 4096 * ((a + MAX_IMAGE_SIZE) div 4096)"
      by (rule mult_le_mono2)
    also have "\<dots> \<le> a + MAX_IMAGE_SIZE"
      by simp
    finally show ?thesis
      using assms(10) by simp
  qed
  define d1 where "d1 = (if rx_offs st mod 4096 = 0
    then snd (sdk_spi_flash_erase_sector (flash (board env)) (of_nat (rx_offs st div 4096)) d) else d)"
  have d1: "mem d1 = layout m a w ?K"
  proof (cases "?l mod 4096 = 0")
    case True
    have m: "mem d = layout m a w ((a + ?l) div 4096)" and z: "(a + ?l) mod 4096 = 0"
      using s(1) [OF True] assms(6) by simp_all
    from z have "a + ?l \<le> 4096 * ((a + ?l) div 4096)"
      using minus_mod_eq_mult_div [of "a + ?l" 4096] by simp
    then show ?thesis
      using erase_sector_layout [OF m assms(7)] fit z assms(3) by (simp add: d1_def)
  next
    case False
    then show ?thesis
      using s(2) assms(3,6) by (simp add: d1_def)
  qed
  have "4 dvd a + ?l"
    using dvd_trans [OF _ assms(8), of 4] dvd_trans [OF _ assms(5), of 4] by simp
  then obtain d2 where d2: "write_packet (board env) (ram env) (rx_offs st) (pbufs nb) d1 = Some d2" "mem d2 = layout m a (w @ bs) ?K"
    using write_packet_layout [OF assms(1) d1 assms(7)] s(3) fit assms(3) by auto
  have len: "netbuf_len nb = length bs + 4"
    by (rule data_packet_len [OF assms(1)])
  have w: "add32 (rx_offs st) (netbuf_len nb) = a + ?l + length bs + 4" "sub32 (add32 (rx_len st) (netbuf_len nb)) 4 = length (w @ bs)"
    using len assms(3,4,9,10) big by (simp_all add: add32_no_wrap sub32_no_wrap)
  show ?thesis
    using d2 w assms(9) len unfolding receive_block_def by (intro exI [of _ d2]) (simp add: d1_def [symmetric] Let_def)
qed

text \<open>The three kinds of rounds of a transfer.\<close>

lemma round_timeout:
  assumes "pending n = (ERR_TIMEOUT, None) # es" "rx_block st = int (Suc k)" "0 < k" "rx_retries st = int (Suc r)"
  shows "\<exists>n' peer. receive_round env cb a l st n d = Some (Again, st\<lparr>rx_peer := peer, rx_retries := int r\<rparr>, n', d) \<and>
    pending n' = es \<and> sent n' = sent n @ [ack_packet (int k)]"
proof -
  have "rx_block st - 1 = int k" "rx_block st > 1" "rx_retries st > 0" "rx_retries st - 1 = int r"
    using assms(2-4) by simp_all
  moreover obtain n3 peer where n3: "pending n3 = es" "sent n3 = sent n"
    "receive_round env cb a l st n d =
      (let st2 = st\<lparr>rx_peer := peer, rx_retries := rx_retries st - 1\<rparr>
       in if rx_retries st > 0 \<and> rx_block st > 1 then do {
            (_, n4) \<leftarrow> tftp_send_ack env (rx_block st - 1) n3;
            Some (Again, st2, n4, d) }
          else do {
            n4 \<leftarrow> tftp_send_error env TFTP_ERR_ILLEGAL ''Timeout'' n3;
            Some (Return ERR_TIMEOUT, st2, n4, d) })"
    using receive_round_recv [OF assms(1), of cb a l st d] by auto
  moreover obtain n4 where "tftp_send_ack env (int k) n3 = Some (ERR_OK, n4)" "pending n4 = es" "sent n4 = sent n @ [ack_packet (int k)]"
    using send_ack_ok [of "int k" n3] n3(1,2) by auto
  ultimately show ?thesis
    by (auto simp: Let_def)
qed

lemma round_repeated:
  assumes "pending n = (ERR_OK, Some nb) # es" "data_packet k bs nb" "rx_block st = int (Suc k)" "Suc k < 2 ^ 16"
  shows "\<exists>n' peer. receive_round env cb a l st n d = Some (Again, st\<lparr>rx_peer := peer\<rparr>, n', d) \<and>
    pending n' = es \<and> sent n' = sent n @ [ack_packet (int k)]"
proof -
  obtain n3 peer where n3: "pending n3 = es" "sent n3 = sent n"
    "receive_round env cb a l st n d = receive_packet env cb a l (st\<lparr>rx_peer := peer\<rparr>) nb n3 d"
    using receive_round_recv [OF assms(1), of cb a l st d] by auto
  obtain n4 where "tftp_send_ack env (int k) (netbuf_delete env n3) = Some (ERR_OK, n4)" "pending n4 = es" "sent n4 = sent n @ [ack_packet (int k)]"
    using send_ack_ok [of "int k" "netbuf_delete env n3"] n3(1,2) net_quiet(1,2) by auto
  then show ?thesis
    using n3(3) data_packet_header [OF assms(2)] assms(3,4) by (auto simp: receive_packet_def)
qed

lemma round_block:
  assumes "pending n = (ERR_OK, Some nb) # es" "data_packet k bs nb" "rx_block st = int k" "k < 2 ^ 16"
  shows "\<exists>n3 peer. pending n3 = es \<and> sent n3 = sent n \<and>
    receive_round env cb a l st n d = receive_block env cb a l (st\<lparr>rx_peer := peer\<rparr>) nb n3 d"
  using receive_round_recv [OF assms(1), of cb a l st d] data_packet_header [OF assms(2,4)] assms(3)
  by (auto simp: receive_packet_def)

lemma loop_again:
  "receive_round env cb a l st n d = Some (Again, st', n', d') \<Longrightarrow> receive_loop env cb a l st n d = receive_loop env cb a l st' n' d'"
  by (subst receive_loop.simps) simp

lemma loop_return:
  "receive_round env cb a l st n d = Some (Return err, st', n', d') \<Longrightarrow> receive_loop env cb a l st n d = Some (err, rx_len st', n', d')"
  by (subst receive_loop.simps) simp

lemma receive_transfer:
  assumes "transfer k r rest es acks" "pending n = es @ later" "rx_offs st = a + length w" "rx_len st = length w" "rx_block st = int k"
    and "rx_retries st = int r" "length w = 512 * (k - 1)" "0 < k" "mem d = layout m a w ((a + length w + 4095) div 4096)"
    and "length (w @ rest) + 4 < MAX_IMAGE_SIZE"
    and "quiet_cb pending sent mem cb" "length m = chip_size (chip (flash (board env)))" "4096 dvd a" "a + MAX_IMAGE_SIZE \<le> length m"
  shows "\<exists>n' d' d0. mem d0 = layout m a (w @ rest) ((a + length (w @ rest)) div 4096 + 1) \<and> mem d' = mem d0 \<and> pending n' = later \<and>
    receive_loop env cb a (a + MAX_IMAGE_SIZE) st n d =
      Some (if verdict (board env) a (length (w @ rest)) d0 = None then ERR_OK else ERR_VAL, length (w @ rest), n', d') \<and>
    sent n' = sent n @ map ack_packet acks @ [reply (verdict (board env) a (length (w @ rest)) d0) (length (w @ rest))]"
  using assms(1-10)
proof (induction arbitrary: n st w d rule: transfer.induct)
  case (final_block bs k nb r)
  have k: "k < 2 ^ 16" "512 dvd length w"
    using final_block.prems by simp_all
  obtain n3 peer where n3: "pending n3 = later" "sent n3 = sent n"
    "receive_round env cb a (a + MAX_IMAGE_SIZE) st n d = receive_block env cb a (a + MAX_IMAGE_SIZE) (st\<lparr>rx_peer := peer\<rparr>) nb n3 d"
    using round_block [OF _ final_block(2), of n later st cb a "a + MAX_IMAGE_SIZE" d] final_block.prems(1,4) k(1) by auto
  obtain d0 where d0: "receive_block env cb a (a + MAX_IMAGE_SIZE) (st\<lparr>rx_peer := peer\<rparr>) nb n3 d =
      finish_block env cb a (st\<lparr>rx_peer := peer, rx_retries := TFTP_TIMEOUT_RETRANSMITS, rx_len := length (w @ bs)\<rparr>) (length bs < 512) (netbuf_delete env n3) d0"
    "mem d0 = layout m a (w @ bs) ((a + length w) div 4096 + 1)"
    using receive_block_layout [OF final_block(2), of "st\<lparr>rx_peer := peer\<rparr>" a w d m cb n3] final_block k assms(12-14) by auto
  let ?v = "verdict (board env) a (length (w @ bs)) d0" and ?st = "st\<lparr>rx_peer := peer, rx_retries := TFTP_TIMEOUT_RETRANSMITS, rx_len := length (w @ bs)\<rparr>"
  obtain n' d' where f: "finish_block env cb a ?st True (netbuf_delete env n3) d0 = Some (Return (if ?v = None then ERR_OK else ERR_VAL), ?st, n', d')"
    "pending n' = later" "sent n' = sent n @ [case ?v of None \<Rightarrow> ack_packet (rx_block ?st) | Some e \<Rightarrow> error_packet TFTP_ERR_ILLEGAL e]" "mem d' = mem d0"
    using finish_last [OF assms(11), of ?st "length (w @ bs)" a "netbuf_delete env n3" d0] n3 net_quiet(1,2) by auto
  have "(a + length (w @ bs)) div 4096 = (a + length w) div 4096"
    using block_sectors(5) [OF assms(13) k(2), of "length bs"] final_block(1) by simp
  moreover have "int (length (w @ bs) div 512 + 1) = int k"
    using final_block(1) final_block.prems(6,7) by (simp add: div_nat_eqI)
  moreover have "receive_loop env cb a (a + MAX_IMAGE_SIZE) st n d = Some (if ?v = None then ERR_OK else ERR_VAL, length (w @ bs), n', d')"
    using loop_return [of cb a "a + MAX_IMAGE_SIZE" st n d _ ?st n' d'] n3(3) d0(1) f(1) final_block(1) by simp
  ultimately show ?case
    using d0(2) f final_block.prems(4) by (intro exI [of _ n'] exI [of _ d'] exI [of _ d0]) (auto simp: reply_def split: option.split)
next
  case (next_block bs k nb rest es acks r)
  have k: "k < 2 ^ 16" "512 dvd length w"
    using next_block.prems by simp_all
  obtain n3 peer where n3: "pending n3 = es @ later" "sent n3 = sent n"
    "receive_round env cb a (a + MAX_IMAGE_SIZE) st n d = receive_block env cb a (a + MAX_IMAGE_SIZE) (st\<lparr>rx_peer := peer\<rparr>) nb n3 d"
    using round_block [OF _ next_block(2), of n "es @ later" st cb a "a + MAX_IMAGE_SIZE" d] next_block.prems(1,4) k(1) by auto
  obtain d0 where d0: "receive_block env cb a (a + MAX_IMAGE_SIZE) (st\<lparr>rx_peer := peer\<rparr>) nb n3 d =
      finish_block env cb a (st\<lparr>rx_peer := peer, rx_retries := TFTP_TIMEOUT_RETRANSMITS, rx_len := length (w @ bs)\<rparr>) (length bs < 512) (netbuf_delete env n3) d0"
    "mem d0 = layout m a (w @ bs) ((a + length w) div 4096 + 1)"
    using receive_block_layout [OF next_block(2), of "st\<lparr>rx_peer := peer\<rparr>" a w d m cb n3] next_block k assms(12-14) by auto
  let ?st = "st\<lparr>rx_peer := peer, rx_retries := TFTP_TIMEOUT_RETRANSMITS, rx_len := length (w @ bs)\<rparr>"
  let ?st' = "?st\<lparr>rx_block := rx_block ?st + 1, rx_offs := add32 (rx_offs ?st) 512\<rparr>"
  obtain n' d' where f: "finish_block env cb a ?st False (netbuf_delete env n3) d0 = Some (Again, ?st', n', d')"
    "pending n' = es @ later" "sent n' = sent n @ [ack_packet (int k)]" "mem d' = mem d0"
    using finish_next [OF assms(11), of a ?st "netbuf_delete env n3" d0] n3 net_quiet(1,2) next_block.prems(4) by auto
  have o: "add32 (rx_offs ?st) 512 = a + length (w @ bs)"
    using next_block(1) next_block.prems(2,9) assms(12,14) chip_ok(1) by (simp add: add32_no_wrap)
  have m: "mem d' = layout m a (w @ bs) ((a + length (w @ bs) + 4095) div 4096)"
    using d0(2) f(4) block_sectors(4) [OF assms(13) k(2), of 0] next_block(1) by (simp add: add.assoc)
  have l: "length (w @ bs) = 512 * (Suc k - 1)" "int (Suc k) = rx_block ?st + 1"
    using next_block(1) next_block.prems(4,6,7) by (simp_all add: algebra_simps flip: mult_Suc_right)
  have "\<exists>n'' d'' d0. mem d0 = layout m a ((w @ bs) @ rest) ((a + length ((w @ bs) @ rest)) div 4096 + 1) \<and> mem d'' = mem d0 \<and> pending n'' = later \<and>
    receive_loop env cb a (a + MAX_IMAGE_SIZE) ?st' n' d' =
      Some (if verdict (board env) a (length ((w @ bs) @ rest)) d0 = None then ERR_OK else ERR_VAL, length ((w @ bs) @ rest), n'', d'') \<and>
    sent n'' = sent n' @ map ack_packet acks @ [reply (verdict (board env) a (length ((w @ bs) @ rest)) d0) (length ((w @ bs) @ rest))]"
    by (rule next_block.IH [OF f(2) _ _ _ _ l(1) _ m]) (use o l(2) next_block.prems(9) in simp_all)
  moreover have "receive_loop env cb a (a + MAX_IMAGE_SIZE) st n d = receive_loop env cb a (a + MAX_IMAGE_SIZE) ?st' n' d'"
    by (rule loop_again) (use n3(3) d0(1) f(1) next_block(1) in simp)
  ultimately show ?case
    using f(3) by simp
next
  case (repeated_block k bs nb r rest es acks)
  obtain n' peer where r: "receive_round env cb a (a + MAX_IMAGE_SIZE) st n d = Some (Again, st\<lparr>rx_peer := peer\<rparr>, n', d)"
    "pending n' = es @ later" "sent n' = sent n @ [ack_packet (int k)]"
    using round_repeated [of n nb "es @ later" k bs st cb a "a + MAX_IMAGE_SIZE" d] repeated_block by auto
  from repeated_block.IH [OF r(2), of "st\<lparr>rx_peer := peer\<rparr>" w d] repeated_block.prems loop_again [OF r(1)] r(3) show ?case
    by simp
next
  case (lost_block k r rest es acks)
  obtain n' peer where r: "receive_round env cb a (a + MAX_IMAGE_SIZE) st n d = Some (Again, st\<lparr>rx_peer := peer, rx_retries := int r\<rparr>, n', d)"
    "pending n' = es @ later" "sent n' = sent n @ [ack_packet (int k)]"
    using round_timeout [of n "es @ later" st k r cb a "a + MAX_IMAGE_SIZE" d] lost_block by auto
  from lost_block.IH [OF r(2), of "st\<lparr>rx_peer := peer, rx_retries := int r\<rparr>" w d] lost_block.prems loop_again [OF r(1)] r(3) show ?case
    by simp
qed

end

end
