(* ===== verification/Tftp_Boot.thy ===== *)
theory Tftp_Boot
  imports Tftp_Transfer
begin

text \<open>
  The update over TFTP as a whole: a request is recognised, the image received, verified and
  selected, the system restarted, and the boot loader looks at the result. The network of the
  witnesses is a queue of events and a log of what was sent.
\<close>

section \<open>Requests\<close>

text \<open>The loop over a field: its bytes, then the zero that ends it.\<close>

lemma get_field_step:
  assumes "drop offs (packet_bytes (pbufs nb)) = f @ 0 # rest" "0 \<notin> set f" "0 \<le> field"
  shows "get_field_loop nb field offs fo fl =
    (if field = 0 then (- 1, fo, fl + length f + 1)
     else get_field_loop nb (field - 1) (offs + length f + 1) (if field = 1 then offs + length f + 1 else fo) fl)"
  using assms(1,2)
proof (induction f arbitrary: offs fl)
  case Nil
  have l: "offs < netbuf_len nb" "packet_bytes (pbufs nb) ! offs = 0"
    using Nil.prems(1) length_packet_bytes [of nb] by (metis append_Nil drop_eq_Nil list.distinct(1) not_le_imp_less nth_via_drop)+
  then show ?case
    using assms(3) netbuf_read_u8_eq [OF l(1), of 0]
    by (subst get_field_loop.simps) (auto simp: Let_def get_field_loop.simps [of nb "- 1"])
next
  case (Cons c f)
  have l: "offs < netbuf_len nb" "packet_bytes (pbufs nb) ! offs = c"
    using Cons.prems(1) length_packet_bytes [of nb] by (metis append_Cons drop_eq_Nil list.distinct(1) not_le_imp_less nth_via_drop)+
  have d: "drop (Suc offs) (packet_bytes (pbufs nb)) = f @ 0 # rest"
    using Cons.prems(1) by (metis append_Cons drop_Suc list.sel(3) tl_drop)
  have "get_field_loop nb field offs fo fl = get_field_loop nb field (Suc offs) fo (if field = 0 then fl + 1 else fl)"
    using assms(3) netbuf_read_u8_eq [OF l(1), of 0] l Cons.prems(2) by (subst get_field_loop.simps) auto
  then show ?case
    using Cons.IH [OF d] Cons.prems(2) by simp
qed

text \<open>A field of a request, whatever the segments of the packet and whatever follows it.\<close>

lemma get_field_0:
  assumes "packet_bytes (pbufs nb) = [x, y] @ f @ 0 # rest" "0 \<notin> set f"
  shows "get_field_loop nb 0 2 2 0 = (- 1, 2, length f + 1)"
  using get_field_step [of 2 nb f rest 0 2 0] assms by simp

lemma get_field_1:
  assumes "packet_bytes (pbufs nb) = [x, y] @ f @ 0 # g @ 0 # rest" "0 \<notin> set f" "0 \<notin> set g"
  shows "get_field_loop nb 1 2 2 0 = (- 1, length f + 3, length g + 1)"
proof -
  have "get_field_loop nb 1 2 2 0 = get_field_loop nb 0 (length f + 3) (length f + 3) 0"
    using get_field_step [of 2 nb f "g @ 0 # rest" 1 2 0] assms by (simp add: numeral_3_eq_3)
  moreover have "drop (length f + 3) (packet_bytes (pbufs nb)) = g @ 0 # rest"
    using assms(1) by (simp add: drop_Cons' numeral_3_eq_3)
  ultimately show ?thesis
    using get_field_step [of "length f + 3" nb g rest 0 "length f + 3" 0] assms(3) by simp
qed

definition write_request :: "netbuf \<Rightarrow> bool" where
  "write_request nb \<longleftrightarrow>
     (\<exists>options. packet_bytes (pbufs nb) = htons (int TFTP_OP_WRQ) @ c_string ''firmware.bin'' @ c_string ''octet'' @ options)"

context tftp_net begin

lemma get_field_ok:
  assumes "get_field_loop nb k 2 2 0 = (- 1, o1, l)"
  shows "\<exists>n'. tftp_get_field env k nb n = (Some (block_at o1 l (packet_bytes (pbufs nb))), n') \<and> pending n' = pending n \<and> sent n' = sent n"
proof -
  obtain n' where "field_malloc env l n = (True, n')" "pending n' = pending n" "sent n' = sent n"
    using alloc(2) by blast
  with assms show ?thesis
    by (simp add: tftp_get_field_def pbuf_copy_partial_eq)
qed

text \<open>A write request starts an update.\<close>

lemma serve_request:
  assumes "write_request nb" "pending n = (ERR_OK, Some nb) # es"
  shows "\<exists>n'. serve_round env n d = serve_update env n' d \<and> pending n' = es \<and> sent n' = sent n"
proof -
  obtain options where p: "packet_bytes (pbufs nb) = [0, 2] @ chars ''firmware.bin'' @ 0 # chars ''octet'' @ 0 # options"
    using assms(1) by (auto simp: write_request_def htons_def c_string_def)
  have z: "0 \<notin> set (chars ''firmware.bin'')" "0 \<notin> set (chars ''octet'')" "length (chars ''firmware.bin'') = 12" "length (chars ''octet'') = 5"
    by (simp_all add: chars_def of_char_def)
  have l: "netbuf_len nb = 21 + length options" "netbuf_read_u16_n (uninit env) nb 0 = TFTP_OP_WRQ"
    using p z length_packet_bytes [of nb] netbuf_read_u16_n_eq [of 0 nb "uninit env"] by simp_all
  obtain n1 where n1: "netconn_recv env (netconn_set_recvtimeout env 0 n) = (ERR_OK, Some nb, n1)" "pending n1 = es" "sent n1 = sent n"
    using recv [of "netconn_set_recvtimeout env 0 n"] assms(2) net_quiet(7,8) by auto
  obtain n2 where n2: "tftp_get_field env 0 nb n1 = (Some (c_string ''firmware.bin''), n2)" "pending n2 = es" "sent n2 = sent n"
    using get_field_ok [OF get_field_0 [OF p z(1)], of n1] n1 p z(3) by (auto simp: c_string_def block_at_def)
  obtain n3 where n3: "tftp_get_field env 1 nb n2 = (Some (c_string ''octet''), n3)" "pending n3 = es" "sent n3 = sent n"
    using get_field_ok [OF get_field_1 [OF p z(1,2)], of n2] n2 p z(3,4) by (auto simp: c_string_def block_at_def)
  show ?thesis
    using n1(1) n2(1) n3 l net_quiet(1-4) by (auto simp: serve_round_def)
qed

end

section \<open>Images\<close>

text \<open>An image as it is transferred: padded to a multiple of 16 bytes, the checksum in the last one.\<close>

definition whole_image :: "byte \<Rightarrow> byte \<Rightarrow> nat \<Rightarrow> (nat \<times> byte list) option \<Rightarrow> (nat \<times> byte list) list \<Rightarrow> byte list \<Rightarrow> byte \<Rightarrow> byte list" where
  "whole_image f1 f2 e irom secs pad c = image_front f1 f2 e irom @ image_body f1 f2 e secs @ pad @ [c]"

lemma flash_whole:
  assumes "img = whole_image f1 f2 e irom secs pad c" "block_at a (length img) M = img" "16 dvd a" "16 dvd length img"
    and "length pad < 16" "a + length img \<le> length M" "p = a + length (image_front f1 f2 e irom @ image_body f1 f2 e secs)"
  shows "flash_image M a f1 f2 e irom secs" "M ! sum_pos p = c" "sum_pos p + 1 - a = length img" "sum_pos p < length M"
proof -
  let ?b = "image_front f1 f2 e irom @ image_body f1 f2 e secs"
  have l: "length img = length ?b + length pad + 1" "img = ?b @ (pad @ [c])"
    using assms(1) by (simp_all add: whole_image_def)
  obtain q where q: "a + length img = 16 * q"
    using assms(3,4) dvd_add by (metis dvdE)
  have "p + length pad + 1 = 16 * q"
    using q l(1) assms(7) by simp
  then have "q > 0" "p = 16 * (q - 1) + (15 - length pad)"
    using assms(5) by (cases q; simp)+
  then have "p mod 16 = 15 - length pad"
    by simp
  then have s: "sum_pos p = a + length img - 1"
    using \<open>p + length pad + 1 = 16 * q\<close> q assms(5) by (simp add: sum_pos_def)
  then show "sum_pos p + 1 - a = length img" "sum_pos p < length M"
    using l(1) assms(6) by simp_all
  have "block_at a (length ?b + length (pad @ [c])) M = ?b @ (pad @ [c])" "a + length ?b + length (pad @ [c]) \<le> length M"
    using assms(2,6) l(1) unfolding l(2) [symmetric] by (simp_all add: add.assoc [symmetric] del: length_append) (simp_all add: add.assoc)
  then have "block_at a (length ?b) M = ?b"
    by (rule block_at_split_eq(1))
  with s assms(6,7) l(1) show "flash_image M a f1 f2 e irom secs"
    by (simp add: flash_image_def Let_def)
  have "M ! (a + (length img - 1)) = img ! (length img - 1)"
    using nth_of_block [OF assms(2) _ assms(6)] l(1) by simp
  also have "img ! (length img - 1) = c"
    using l by (simp add: nth_append)
  finally show "M ! sum_pos p = c"
    using s l(1) by simp
qed

context api begin

text \<open>The verification accepts the checksum over all sections but the irom section.\<close>

lemma verify_whole:
  assumes "img = whole_image f1 f2 e irom secs pad (image_sum None secs)" "mem d = M" "block_at a (length img) M = img" "16 dvd a"
    and "16 dvd length img" "length pad < 16" "a + length img + 16 < length M" "length secs < 254" "\<forall>s\<in>set secs. 4 dvd length (snd s)"
    and "\<forall>s. irom = Some s \<longrightarrow> 16 dvd length (snd s)" "length img \<le> 0x100000"
  shows "fst (rboot_verify_image env a d) \<and> fst (snd (rboot_verify_image env a d)) = length img"
proof -
  let ?p = "a + length (image_front f1 f2 e irom @ image_body f1 f2 e secs)"
  have le: "a + length img \<le> length M"
    using assms(7) by simp
  note w = flash_whole [OF assms(1,3-6) le refl]
  have n: "length (image_front f1 f2 e irom @ image_body f1 f2 e secs) \<le> length img"
    using assms(1) by (simp add: whole_image_def)
  show ?thesis
  proof (cases irom)
    case None
    have p: "?p = a + length (image_body f1 f2 e secs)"
      using None by (simp add: image_front_def)
    have "4 dvd a"
      using dvd_trans [OF _ assms(4), of 4] by simp
    with verify_image_old [OF assms(2), of a f1 f2 e secs] w n None assms(7-9,11) show ?thesis
      unfolding p by simp
  next
    case (Some s)
    have p: "?p = a + 16 + length (snd s) + length (image_body f1 f2 e secs)"
      using Some by (simp add: length_image_front)
    show ?thesis
      using verify_image_new [OF assms(2), of a f1 f2 e s secs] w n Some assms(4,7-11) unfolding p by (simp add: length_image_front)
  qed
qed

end

text \<open>What the boot loader makes of such an image.\<close>

lemma xor_sums: "image_sum (Some s) secs = image_sum None secs XOR xor_bytes (snd s) 0"
  using xor_bytes_start [of "snd s" CHKSUM_INIT] xor_bytes_start [of "concat (map snd secs)" "xor_bytes (snd s) CHKSUM_INIT"]
    xor_bytes_start [of "concat (map snd secs)" CHKSUM_INIT] by (simp add: image_sum_def xor.assoc xor.commute xor.left_commute)

lemma xor_same: "x XOR y = x \<longleftrightarrow> y = 0" for x y :: byte
proof
  assume "x XOR y = x"
  then have "x XOR (x XOR y) = 0"
    by simp
  then show "y = 0"
    by (simp flip: xor.assoc)
qed simp

context boot_flash begin

lemma boot_whole:
  assumes "img = whole_image f1 f2 e irom secs pad (image_sum None secs)" "block_at a (length img) M = img" "16 dvd a" "0 < a"
    and "16 dvd length img" "length pad < 16" "a + length img \<le> length M" "length M < 2 ^ 32" "length secs < 254"
  shows "image_at rd M a =
    (case irom of None \<Rightarrow> a | Some s \<Rightarrow> if xor_bytes (snd s) 0 = 0 then a + 16 + length (snd s) else 0)"
proof -
  let ?p = "a + length (image_front f1 f2 e irom @ image_body f1 f2 e secs)"
  note w = flash_whole [OF assms(1-3,5-7) refl]
  have l: "16 \<le> length img"
    using assms(1,5) dvd_imp_le [of 16 "length img"] by (simp add: whole_image_def)
  show ?thesis
  proof (cases irom)
    case None
    then show ?thesis
      using check_image_old [of M a f1 f2 e secs] w assms(4,7-9) l by (simp add: image_front_def)
  next
    case (Some s)
    have "image_sum None secs = image_sum (Some s) secs \<longleftrightarrow> xor_bytes (snd s) 0 = 0"
      unfolding xor_sums by (metis xor_same)
    then show ?thesis
      using check_image_new [of M a f1 f2 e s secs] w assms(4,8,9) Some by (simp add: length_image_front add.assoc)
  qed
qed

end

section \<open>An update\<close>

lemma config_fields:
  assumes "length conf = 4096"
  shows "cf_current_rom (take 28 conf) = cf_current_rom conf" "cf_count (take 28 conf) = cf_count conf"
    and "i < 4 \<Longrightarrow> cf_rom (take 28 conf) (int i) = cf_rom conf (int i)"
proof -
  show "cf_current_rom (take 28 conf) = cf_current_rom conf" "cf_count (take 28 conf) = cf_count conf"
    by (simp_all add: cf_current_rom_def cf_count_def)
  assume "i < 4"
  then have "nat (8 + 4 * int i) = 8 + 4 * i" "8 + 4 * i + 3 < 28"
    by (simp_all add: nat_add_distrib nat_mult_distrib)
  then show "cf_rom (take 28 conf) (int i) = cf_rom conf (int i)"
    by (simp add: cf_rom_def le32_at_def)
qed

lemma block_at_layout: "a \<le> length m \<Longrightarrow> block_at a (length w) (layout m a w k) = w"
  by (simp add: block_at_def layout_def)

context tftp_system begin

lemma receive_data:
  assumes "transfer 1 10 img es acks" "pending n = es @ later" "mem d = m" "length img + 4 < MAX_IMAGE_SIZE"
    and "quiet_cb pending sent mem cb" "4096 dvd a" "a + MAX_IMAGE_SIZE \<le> length m"
  shows "\<exists>n' d' d0. mem d0 = layout m a img ((a + length img) div 4096 + 1) \<and> mem d' = mem d0 \<and> pending n' = later \<and>
    tftp_receive_data env a (a + MAX_IMAGE_SIZE) peer cb n d =
      Some (if verdict (board env) a (length img) d0 = None then ERR_OK else ERR_VAL, length img, n', d') \<and>
    sent n' = sent n @ map ack_packet acks @ [reply (verdict (board env) a (length img) d0) (length img)]"
proof -
  obtain q where "a = 4096 * q"
    using assms(6) by (elim dvdE)
  then have "mem d = layout m a [] ((a + length [] + 4095) div 4096)"
    using assms(3) by (simp add: layout_start)
  moreover have "length m = chip_size (chip (flash (board env)))"
    using mem_size assms(3) by blast
  ultimately show ?thesis
    using receive_transfer [OF assms(1,2), of "receive_start a peer" a "[]" d m cb] assms(4-7)
    unfolding tftp_receive_data_def by (simp add: receive_start_def)
qed

lemma serve_update_ok:
  assumes "slot = (unat (cf_current_rom conf) + 1) mod unat (cf_count conf)" "a = cf_rom conf (int slot)"
    and "block_at 4096 4096 m = conf" "mem d = m" "cf_count conf \<le> 4" "slot \<noteq> unat (cf_current_rom conf)" "0 < cf_count conf"
    and "transfer 1 10 img es acks" "pending n = es @ later" "length img + 4 < MAX_IMAGE_SIZE" "4096 dvd a" "a + MAX_IMAGE_SIZE \<le> length m"
    and "\<And>d'. mem d' = layout m a img ((a + length img) div 4096 + 1) \<Longrightarrow>
      fst (rboot_verify_image (board env) a d') \<and> fst (snd (rboot_verify_image (board env) a d')) = length img"
  shows "\<exists>n' d'. serve_update env n d = Some (Restarting, n', snd (rboot_set_current_rom (board env) (of_nat slot) d')) \<and>
    pending n' = later \<and> mem d' = layout m a img ((a + length img) div 4096 + 1) \<and>
    sent n' = sent n @ map ack_packet (0 # acks @ [int (length img div 512 + 1)])"
proof -
  have lm: "length conf = 4096"
    using mem_size [of d] geometry(2) assms(3,4) block_at_length [of 4096 4096 m] by simp
  have c: "block_at 4096 28 m = take 28 conf"
    using assms(3) [symmetric] by (simp add: block_at_def)
  obtain d1 where d1: "rboot_get_config (board env) d = (take 28 conf, d1)" "mem d1 = m"
    using get_config [of d] c assms(4) by auto
  have cnt: "unat (cf_count conf) \<noteq> 0" "unat (cf_count conf) \<le> 4"
    using assms(5,7) by (simp_all add: word_le_nat_alt unat_gt_0)
  then have "slot < unat (cf_count conf)"
    by (simp add: assms(1))
  then have s: "slot < 4"
    using cnt by simp
  note f = config_fields [OF lm]
  obtain n1 where n1: "tftp_send_ack env 0 n = Some (ERR_OK, n1)" "pending n1 = es @ later" "sent n1 = sent n @ [ack_packet 0]"
    using send_ack_ok [of 0 n] assms(9) by auto
  let ?n1 = "netconn_set_recvtimeout env 10000 n1"
  obtain n2 d2 d0 where r: "mem d0 = layout m a img ((a + length img) div 4096 + 1)" "mem d2 = mem d0" "pending n2 = later"
    "tftp_receive_data env a (a + MAX_IMAGE_SIZE) None None ?n1 d1 =
      Some (if verdict (board env) a (length img) d0 = None then ERR_OK else ERR_VAL, length img, n2, d2)"
    "sent n2 = sent ?n1 @ map ack_packet acks @ [reply (verdict (board env) a (length img) d0) (length img)]"
    using receive_data [OF assms(8) _ d1(2) assms(10) quiet_None assms(11,12), of ?n1 later None] n1(2) net_quiet(7) by auto
  have sl: "Suc (unat (cf_current_rom conf)) mod unat (cf_count conf) = slot"
    by (simp add: assms(1))
  have v: "verdict (board env) a (length img) d0 = None"
    using assms(13) [OF r(1)] by (auto simp: verdict_def split: prod.split)
  have "add32 a MAX_IMAGE_SIZE = a + MAX_IMAGE_SIZE"
    using assms(4,12) mem_size [of d] chip_ok(1) by (simp add: add32_no_wrap)
  moreover have "cf_rom (take 28 conf) (int slot) = a"
    using f(3) [OF s] by (simp add: assms(2))
  ultimately have "serve_update env n d = Some (Restarting, netconn_disconnect env n2, snd (rboot_set_current_rom (board env) (of_nat slot) (enter_critical (board env) d2)))"
    using d1(1) n1(1) r(4) v cnt s assms(6) by (simp add: serve_update_def f(1,2) sl Let_def)
  moreover have "sent (netconn_disconnect env n2) = sent n @ map ack_packet (0 # acks @ [int (length img div 512 + 1)])"
    using r(5) n1(3) net_quiet(6,8) v by (simp add: reply_def)
  ultimately show ?thesis
    using r(1-3) others_quiet(2) net_quiet(5) by (intro exI [of _ "netconn_disconnect env n2"] exI [of _ "enter_critical (board env) d2"]) simp
qed

end

section \<open>A network\<close>

text \<open>A small image in one packet of two segments, the second one unaligned, and a request.\<close>

definition small_image :: "byte list" where
  "small_image = whole_image 0 0 0x40100000 None [] [0, 0, 0, 0, 0, 0, 0] 0xef"

definition small_data :: netbuf where
  "small_data = \<lparr>pbufs = [\<lparr>pb_payload = 1024, pb_data = htons 3 @ htons 1 @ take 8 small_image\<rparr>, \<lparr>pb_payload = 2049, pb_data = drop 8 small_image\<rparr>],
     fromaddr = [192, 168, 4, 2], fromport = 4096\<rparr>"

definition small_request :: netbuf where
  "small_request = \<lparr>pbufs = [\<lparr>pb_payload = 1024, pb_data = htons 2 @ c_string ''firmware.bin'' @ c_string ''octet''\<rparr>],
     fromaddr = [192, 168, 4, 2], fromport = 4096\<rparr>"

text \<open>The network of the examples: the events to come, each one of three, and what was sent.\<close>

datatype sim_event = Request | Block | Silence

type_synonym sim_net = "sim_event list \<times> byte list list"

fun sim_result :: "sim_event \<Rightarrow> int \<times> netbuf option" where
  "sim_result Request = (ERR_OK, Some small_request)"
| "sim_result Block = (ERR_OK, Some small_data)"
| "sim_result Silence = (ERR_TIMEOUT, None)"

definition sim_pending :: "sim_net \<Rightarrow> (int \<times> netbuf option) list" where
  "sim_pending n = map sim_result (fst n)"

definition sim_recv :: "sim_net \<Rightarrow> int \<times> netbuf option \<times> sim_net" where
  "sim_recv n = (case n of ([], s) \<Rightarrow> (ERR_TIMEOUT, None, n) | (ev # es, s) \<Rightarrow> (fst (sim_result ev), snd (sim_result ev), es, s))"

definition sim_tftp :: "(sim_net, byte list) tftp_env" where
  "sim_tftp = \<lparr>board = api_chip, netconn_new = Pair True, netconn_delete = id, netconn_disconnect = id,
     netconn_set_recvtimeout = (\<lambda>t n. n), netconn_bind = (\<lambda>p n. (ERR_OK, n)),
     netconn_gethostbyname = (\<lambda>s n. (ERR_OK, [192, 168, 4, 2], n)), netconn_connect = (\<lambda>a p n. n), netconn_recv = sim_recv,
     netconn_send = (\<lambda>p (es, s). (ERR_OK, es, s @ [p])), netbuf_alloc = (\<lambda>k. Pair True), netbuf_delete = id,
     field_malloc = (\<lambda>k. Pair True), uninit = [0, 0], ram = (\<lambda>a k. replicate k 0)\<rparr>"

lemma sim_board: "tftp_board (board sim_tftp) (sim_mem sdk_flashchip)"
proof -
  have board: "board sim_tftp = api_chip"
    by (simp add: sim_tftp_def)
  show ?thesis
    unfolding board by (intro tftp_board.intro api4M.api_axioms tftp_board_axioms.intro) (simp add: api_chip_def sim_env_def)
qed

interpretation sim_net: tftp_system sim_tftp sim_pending snd "sim_mem sdk_flashchip"
proof -
  have "tftp_net sim_tftp sim_pending snd"
    by unfold_locales (auto simp: sim_tftp_def sim_recv_def sim_pending_def Cons_eq_map_conv split: prod.split)
  then show "tftp_system sim_tftp sim_pending snd (sim_mem sdk_flashchip)"
    using sim_board by (rule tftp_system.intro)
qed

lemma small_image: "length small_image = 16"
  by (simp add: small_image_def whole_image_def image_front_def image_body_def)

lemma small_transfer: "transfer 1 10 small_image [(ERR_OK, Some small_data)] []"
  by (rule transfer.final_block) (simp_all add: small_image data_packet_def small_data_def packet_bytes_def)

lemma small_verified:
  assumes "block_at 0x2000 16 (sim_mem sdk_flashchip d) = small_image"
  shows "fst (rboot_verify_image api_chip 0x2000 d) \<and> fst (snd (rboot_verify_image api_chip 0x2000 d)) = 16"
proof -
  have img: "small_image = whole_image 0 0 0x40100000 None [] [0, 0, 0, 0, 0, 0, 0] (image_sum None [])"
    by (simp add: small_image_def image_sum_def xor_bytes_def)
  have "length (sim_mem sdk_flashchip d) = 0x400000"
    by (simp add: sim_mem_def sdk_flashchip_def)
  then show ?thesis
    using api4M.verify_whole [OF img refl, of "0x2000" d] assms by (simp add: small_image)
qed

lemma small_received:
  "\<exists>n' d'. tftp_receive_data sim_tftp 0x2000 0x102000 None None ([Block], []) d = Some (ERR_OK, 16, n', d')"
proof -
  let ?m = "sim_mem sdk_flashchip d"
  have l: "length ?m = 0x400000" and b: "board sim_tftp = api_chip"
    by (simp_all add: sim_tftp_def sim_mem_def sdk_flashchip_def)
  obtain n' d' d0 where r: "sim_mem sdk_flashchip d0 = layout ?m 0x2000 small_image 3"
    "tftp_receive_data sim_tftp 0x2000 0x102000 None None ([Block], []) d =
      Some (if verdict api_chip 0x2000 16 d0 = None then ERR_OK else ERR_VAL, 16, n', d')"
    using sim_net.receive_data [OF small_transfer, of "([Block], [])" "[]" d ?m None "0x2000" None, unfolded b small_image] l
    by (auto simp: sim_pending_def)
  have "block_at 0x2000 16 (sim_mem sdk_flashchip d0) = small_image"
    unfolding r(1) using block_at_layout [of "0x2000" ?m small_image 3] l small_image by simp
  then have "verdict api_chip 0x2000 16 d0 = None"
    using small_verified [of d0] by (auto simp: verdict_def split: prod.split)
  with r(2) show ?thesis
    by simp
qed

lemma sectors_fit:
  assumes "4096 dvd a" "n < MAX_IMAGE_SIZE" "a + MAX_IMAGE_SIZE \<le> l" "k = (a + n) div 4096 + 1"
  shows "a + n \<le> 4096 * k" "4096 * k \<le> l"
proof -
  show "a + n \<le> 4096 * k"
    using mod_less_divisor [of 4096 "a + n"] div_mult_mod_eq [of "a + n" 4096] by (simp add: assms(4))
  have "4096 dvd a + MAX_IMAGE_SIZE"
    using assms(1) by simp
  moreover have "k \<le> (a + MAX_IMAGE_SIZE) div 4096"
    using assms(1,2) by (auto simp: assms(4) elim!: dvdE)
  then have "4096 * k \<le> 4096 * ((a + MAX_IMAGE_SIZE) div 4096)"
    by (rule mult_le_mono2)
  ultimately show "4096 * k \<le> l"
    using assms(3) by simp
qed

lemma config_beside:
  assumes "length conf = 4096" "8192 \<le> a" "a + n \<le> length m"
  shows "block_at a n (put_at 4096 conf m) = block_at a n m" "block_at 4096 4096 (put_at 4096 conf m) = conf"
    "length (put_at 4096 conf m) = length m"
proof -
  show "length (put_at 4096 conf m) = length m"
    using assms by simp
  show "block_at 4096 4096 (put_at 4096 conf m) = conf"
    using block_put_at [of 4096 conf m] assms by simp
  show "block_at a n (put_at 4096 conf m) = block_at a n m"
    using assms by (intro nth_equalityI) (auto simp: block_at_length nth_block_at nth_put_at)
qed

section \<open>Properties\<close>

text \<open>
  C11: receiving an image. When the peer delivers an image of whole words in blocks, with repeated
  blocks and with timeouts (none before the first block, ten before each later one) in between, and
  with the packets split into segments at any word, then the reception returns: the flash holds
  the image from the start of the slot on, erased bytes up to the end of its sector and what it held
  before everywhere else; every block was acknowledged, again for every repetition and timeout;
  the result is a success exactly if the image in flash verifies and has the length received, and
  the last packet sent is then its acknowledgement, otherwise the error message.
\<close>

theorem tftp_receives_image:
  assumes "tftp_system env pending sent mem" "transfer 1 10 img es acks" "pending n = es @ later" "mem d = m"
    and "length img + 4 < MAX_IMAGE_SIZE" "quiet_cb pending sent mem cb" "4096 dvd a" "a + MAX_IMAGE_SIZE \<le> length m"
    and "k = ((a + length img) div 4096 + 1) * 4096"
  shows "\<exists>n' d' d0. tftp_receive_data env a (a + MAX_IMAGE_SIZE) peer cb n d =
      Some (if verdict (board env) a (length img) d0 = None then ERR_OK else ERR_VAL, length img, n', d') \<and>
    mem d' = take a m @ img @ replicate (k - (a + length img)) 0xff @ drop k m \<and> mem d0 = mem d' \<and> pending n' = later \<and>
    sent n' = sent n @ map ack_packet acks @ [case verdict (board env) a (length img) d0 of
      None \<Rightarrow> ack_packet (int (length img div 512 + 1)) | Some e \<Rightarrow> error_packet TFTP_ERR_ILLEGAL e]"
proof -
  obtain n' d' d0 where "mem d0 = layout m a img ((a + length img) div 4096 + 1)" "mem d' = mem d0" "pending n' = later"
    "tftp_receive_data env a (a + MAX_IMAGE_SIZE) peer cb n d =
      Some (if verdict (board env) a (length img) d0 = None then ERR_OK else ERR_VAL, length img, n', d')"
    "sent n' = sent n @ map ack_packet acks @ [reply (verdict (board env) a (length img) d0) (length img)]"
    using tftp_system.receive_data [OF assms(1-8), of peer] by blast
  then show ?thesis
    unfolding reply_def assms(9)
    by (intro exI [of _ n'] exI [of _ d'] exI [of _ d0]) (simp add: layout_def mult.commute)
qed

theorem tftp_receives_image_witness:
  "\<exists>d'. tftp_receive_data sim_tftp 0x2000 0x102000 None None ([Block], []) [] =
      Some (ERR_OK, 16, ([], [ack_packet 1]), d') \<and>
    sim_mem sdk_flashchip d' = take 0x2000 (sim_mem sdk_flashchip []) @ small_image @ replicate 4080 0xff @ drop 0x3000 (sim_mem sdk_flashchip [])"
proof -
  let ?m = "sim_mem sdk_flashchip []"
  have b: "board sim_tftp = api_chip" and l: "length ?m = 0x400000"
    by (simp_all add: sim_tftp_def sim_mem_def sdk_flashchip_def)
  let ?v = "\<lambda>d0. verdict api_chip 0x2000 16 d0"
  obtain d' d0 where r: "tftp_receive_data sim_tftp 0x2000 0x102000 None None ([Block], []) [] =
      Some (if ?v d0 = None then ERR_OK else ERR_VAL, 16,
        ([], [case ?v d0 of None \<Rightarrow> ack_packet (int (16 div 512 + 1)) | Some e \<Rightarrow> error_packet TFTP_ERR_ILLEGAL e]), d')"
    "sim_mem sdk_flashchip d' = take 0x2000 ?m @ small_image @ replicate 4080 0xff @ drop 0x3000 ?m" "sim_mem sdk_flashchip d0 = take 0x2000 ?m @ small_image @ replicate 4080 0xff @ drop 0x3000 ?m"
    using tftp_receives_image [OF sim_net.tftp_system_axioms small_transfer, of "([Block], [])" "[]" "[]" ?m None "0x2000" "0x3000" None,
        unfolded b small_image] l by (simp del: One_nat_def add: sim_pending_def) metis
  have "block_at 0x2000 16 (sim_mem sdk_flashchip d0) = small_image"
    unfolding r(3) using l small_image by (simp add: block_at_def)
  then have "verdict api_chip 0x2000 16 d0 = None"
    using small_verified [of d0] by (auto simp: verdict_def split: prod.split)
  with r show ?thesis
    by simp
qed

theorem tftp_writes_slot_only_witness:
  "\<exists>n' d'. tftp_receive_data sim_tftp 0x2000 0x102000 None None ([Block], []) chip_mem = Some (ERR_OK, 16, n', d') \<and>
     sim_mem sdk_flashchip d' ! 0x1000 = sim_mem sdk_flashchip chip_mem ! 0x1000"
proof -
  have l: "length (sim_mem sdk_flashchip chip_mem) = 0x400000"
    by (simp add: sim_mem_def sdk_flashchip_def)
  obtain n' d' where r: "tftp_receive_data sim_tftp 0x2000 0x102000 None None ([Block], []) chip_mem = Some (ERR_OK, 16, n', d')"
    using small_received [of chip_mem] by blast
  have "header_in_first nb" if "netconn_recv sim_tftp n = (err, Some nb, n')" for n err nb n'
  proof -
    have "snd (sim_result ev) = Some nb \<Longrightarrow> header_in_first nb" for ev
      by (cases ev) (auto simp: header_in_first_def netbuf_len_def small_data_def small_request_def small_image c_string_def chars_def)
    then show ?thesis
      using that by (auto simp: sim_tftp_def sim_recv_def split: prod.splits list.splits)
  qed
  then show ?thesis
    using tftp_writes_slot_only [OF sim_board, of "0x2000" chip_mem None "([Block], [])" _ _ n' d' ERR_OK 16] r l by auto
qed

text \<open>
  C10: the update as a whole. The server receives a write request for \<^verbatim>\<open>firmware.bin\<close> in mode octet
  and then, as in the property before, an image whose checksum covers all sections but the irom
  section. With a valid configuration of two to four roms and the next rom at a sector boundary
  behind the configuration, the server acknowledges all of it, stores the image in the slot of the
  next rom, selects this rom and restarts. From that flash the boot loader starts the new image if it
  has no irom section, or one whose bytes cancel out; with any other irom section the boot loader
  rejects the image the server has just accepted.
\<close>

theorem tftp_update_boots:
  assumes "tftp_system env pending sent mem" "\<And>d. fst (os_malloc (board env) 4096 d)" "boot_flash benv bmem rd"
    and "mem d = m" "block_at 4096 4096 m = conf" "config_valid conf" "2 \<le> cf_count conf" "cf_count conf \<le> 4" "cf_current_rom conf < cf_count conf"
    and "slot = (unat (cf_current_rom conf) + 1) mod unat (cf_count conf)" "a = cf_rom conf (int slot)"
    and "4096 dvd a" "8192 \<le> a" "a + MAX_IMAGE_SIZE \<le> length m"
    and "write_request nb" "pending n = (ERR_OK, Some nb) # es" "transfer 1 10 img es acks"
    and "img = whole_image f1 f2 e irom secs pad (image_sum None secs)" "length pad < 16" "16 dvd length img" "length img + 16 < MAX_IMAGE_SIZE"
    and "length secs < 254" "\<forall>s\<in>set secs. 4 dvd length (snd s)" "\<forall>s. irom = Some s \<longrightarrow> 16 dvd length (snd s)"
    and "length stack = 12" "length (brtc s) = 768" "\<not> (rtc_valid (block_at 256 12 (brtc s)) \<and> rt_next_mode (block_at 256 12 (brtc s)) AND MODE_TEMP_ROM \<noteq> 0)"
  shows "\<exists>n' d' conf'. serve_round env n d = Some (Restarting, n', d') \<and>
    sent n' = sent n @ map ack_packet (0 # acks @ [int (length img div 512 + 1)]) \<and>
    block_at a (length img) (mem d') = img \<and> block_at 4096 4096 (mem d') = conf' \<and> config_valid conf' \<and> cf_current_rom conf' = of_nat slot \<and>
    (bmem (bflash s) = mem d' \<and> (\<forall>s. irom = Some s \<longrightarrow> xor_bytes (snd s) 0 = 0) \<longrightarrow>
      (\<exists>s'. find_image benv stack s = Some (a + length (image_front f1 f2 e irom), s'))) \<and>
    (\<forall>bd. bmem bd = mem d' \<and> (\<exists>s. irom = Some s \<and> xor_bytes (snd s) 0 \<noteq> 0) \<longrightarrow> fst (check_image benv a bd) = 0)"
proof -
  note sys = assms(1)
  note board = tftp_system.axioms(2) [OF sys]
  note api = tftp_board.axioms(1) [OF board]
  have lm: "length m \<le> 2 ^ 28" "8192 \<le> length m"
    using nor_rom.mem_size [OF api.axioms(1) [OF api], of d] api.geometry(2,3) [OF api] assms(4) by simp_all
  have "4 dvd a" "16 dvd a"
    using dvd_trans [OF _ assms(12), of 4] dvd_trans [OF _ assms(12), of 16] by simp_all
  note dv = this
  have cnt: "unat (cf_count conf) \<noteq> 0" "2 \<le> unat (cf_count conf)" "unat (cf_count conf) \<le> 4" "unat (cf_current_rom conf) < unat (cf_count conf)"
    using assms(7-9) by (simp_all add: word_le_nat_alt word_less_nat_alt)
  then have sl: "slot < unat (cf_count conf)" "slot \<noteq> unat (cf_current_rom conf)"
    using assms(10) by (auto simp: mod_Suc split: if_splits)
  define k where "k = (a + length img) div 4096 + 1"
  have fit: "a + length img \<le> 4096 * k" "4096 * k \<le> length m"
    using sectors_fit [OF assms(12) _ assms(14) k_def] assms(21) by simp_all
  have lay: "length (layout m a img k) = length m" "block_at a (length img) (layout m a img k) = img"
    "block_at 4096 4096 (layout m a img k) = conf"
    using length_layout [OF fit] block_at_layout [of a m img k] assms(5,13,14) by (simp_all add: layout_def block_at_def drop_take min_absorb1)
  have v: "fst (rboot_verify_image (board env) a d') \<and> fst (snd (rboot_verify_image (board env) a d')) = length img"
    if "mem d' = layout m a img k" for d'
    by (rule api.verify_whole [OF api assms(18) that]) (use lay dv assms(14,19-24) in simp_all)
  obtain n1 where n1: "serve_round env n d = serve_update env n1 d" "pending n1 = es" "sent n1 = sent n"
    using tftp_net.serve_request [OF tftp_system.axioms(1) [OF sys] assms(15,16)] by blast
  have "cf_count conf \<noteq> 0"
    using cnt(1) by auto
  then obtain n' d1 where u: "serve_update env n1 d = Some (Restarting, n', snd (rboot_set_current_rom (board env) (of_nat slot) d1))"
    "mem d1 = layout m a img k" "sent n' = sent n1 @ map ack_packet (0 # acks @ [int (length img div 512 + 1)])"
    using tftp_system.serve_update_ok [OF sys assms(10,11,5,4,8) sl(2) _ assms(17) _ _ assms(12,14), of n1 "[]"] assms(21) n1(2) v
    by (auto simp: k_def word_gt_0)
  have r: "(of_nat slot :: byte) < cf_count conf" "uint (of_nat slot :: byte) = int slot"
    using sl(1) cnt(3) by (simp_all add: word_less_nat_alt unat_of_nat take_bit_nat_eq_self uint_nat)
  obtain d' conf' where s: "rboot_set_current_rom (board env) (of_nat slot) d1 = (True, d')" "mem d' = put_at 4096 conf' (layout m a img k)"
    "config_valid conf'" "cf_current_rom conf' = of_nat slot" "length conf' = 4096"
    "bmem (bflash s) = mem d' \<and> image_at rd (mem d') (cf_rom conf (int slot)) \<noteq> 0 \<longrightarrow>
      (\<exists>s'. find_image benv stack s = Some (image_at rd (mem d') (cf_rom conf (int slot)), s'))"
    using select_and_boot [OF api assms(2,3) u(2) lay(3) assms(6) r(1) assms(8,25-27), unfolded r(2)] by blast
  have b: "block_at a (length img) (mem d') = img" "block_at 4096 4096 (mem d') = conf'" "length (mem d') = length m"
    using config_beside [of conf' a "length img" "layout m a img k"] s(2,5) lay lm(2) assms(13,14,21) by simp_all
  have i: "image_at rd (mem d') a = (case irom of None \<Rightarrow> a | Some s \<Rightarrow> if xor_bytes (snd s) 0 = 0 then a + 16 + length (snd s) else 0)"
    by (rule boot_flash.boot_whole [OF assms(3,18) b(1) dv(2) _ assms(20,19)]) (use b(3) lm assms(13,14,21,22) in simp_all)
  have ci: "fst (check_image benv a bd) = image_at rd (mem d') a" if "bmem bd = mem d'" for bd
    using boot_flash.check_image_pure [OF assms(3), of a bd] that by auto
  show ?thesis
    using n1(1,3) u(1,3) s(1,3,4,6) b(1,2) i ci assms(11,13)
    by (intro exI [of _ n'] exI [of _ d'] exI [of _ conf']) (auto simp: length_image_front add.assoc split: option.splits)
qed

theorem tftp_update_boots_witness:
  "\<exists>n' d' conf'. serve_round sim_tftp ([Request, Block], []) chip_mem = Some (Restarting, n', d') \<and>
     snd n' = [ack_packet 0, ack_packet 1] \<and> block_at 0x2000 16 (sim_mem sdk_flashchip d') = small_image \<and>
     block_at 4096 4096 (sim_mem sdk_flashchip d') = conf' \<and> config_valid conf' \<and> cf_current_rom conf' = 0"
proof -
  let ?m = "sim_mem sdk_flashchip chip_mem" and ?n = "([Request, Block], []) :: sim_net"
  have b: "board sim_tftp = api_chip"
    by (simp add: sim_tftp_def)
  have m: "block_at 4096 4096 ?m = chip_conf" "length ?m = 0x400000"
    using chip_mem(1,2) by (simp_all add: sim_mem_def sdk_flashchip_def block_at_def)
  have al: "\<And>d. fst (os_malloc (board sim_tftp) 4096 d)"
    unfolding b by (rule api_malloc)
  have img: "small_image = whole_image 0 0 0x40100000 None [] [0, 0, 0, 0, 0, 0, 0] (image_sum None [])"
    by (simp add: small_image_def image_sum_def xor_bytes_def)
  have rq: "write_request small_request"
    by (auto simp: write_request_def small_request_def packet_bytes_def)
  have s: "(0::nat) = (unat (cf_current_rom chip_conf) + 1) mod unat (cf_count chip_conf)" "0x2000 = cf_rom chip_conf (int 0)"
    by (simp_all add: chip_conf)
  have q: "sim_pending ?n = (ERR_OK, Some small_request) # [(ERR_OK, Some small_data)]"
    by (simp add: sim_pending_def)
  have t: "rt_next_mode (block_at 256 12 (chip_rtc 0 0)) = 0"
    by (rule chip_rtc)
  show ?thesis
    using tftp_update_boots [OF sim_net.tftp_system_axioms al chip.boot_flash_axioms refl m(1) chip_conf(2) _ _ _ s _ _ _ rq q small_transfer img,
        of "replicate 12 0" "\<lparr>bflash = chip_mem, brtc = chip_rtc 0 0\<rparr>"] m(2) chip_conf(3,4) chip_rtc(1) t
    by (fastforce simp: small_image)
qed

end
