(* ===== verification/Dhcp_Server.thy ===== *)
theory Dhcp_Server
  imports Netbuf
begin

unbundle bit_operations_syntax

text \<open>
  The DHCP server, \<^verbatim>\<open>src/extras/dhcpserver/dhcpserver.c\<close>: the table of leases, the handlers for
  discover, request and release messages, and the task that runs them. Messages are the structure
  \<^verbatim>\<open>dhcp_msg\<close> of \<^verbatim>\<open>src/lwip/lwip/src/include/lwip/dhcp.h\<close> with 312 bytes of options; addresses
  are their four bytes in network order. lwIP and the tick counter are parameters acting on a
  network of arbitrary type \<open>'n\<close>. A result \<^term>\<open>None\<close> is an access outside the options, a
  hardware address or the table of leases, or through a null pointer.
\<close>

section \<open>Messages\<close>

record dhcp_msg =
  dm_op :: byte
  dm_htype :: byte
  dm_hlen :: byte
  dm_hops :: byte
  dm_xid :: "byte list"
  dm_secs :: "byte list"
  dm_flags :: "byte list"
  dm_ciaddr :: "byte list"
  dm_yiaddr :: "byte list"
  dm_siaddr :: "byte list"
  dm_giaddr :: "byte list"
  dm_chaddr :: "byte list"
  dm_sname :: "byte list"
  dm_file :: "byte list"
  dm_cookie :: "byte list"
  dm_options :: "byte list"

abbreviation (input) DHCP_OPTIONS_LEN :: nat where "DHCP_OPTIONS_LEN \<equiv> 312"
abbreviation (input) DHCP_OPTIONS_OFS :: nat where "DHCP_OPTIONS_OFS \<equiv> 240"
abbreviation (input) DHCP_MSG_SIZE :: nat where "DHCP_MSG_SIZE \<equiv> 552"
abbreviation (input) NETIF_MAX_HWADDR_LEN :: nat where "NETIF_MAX_HWADDR_LEN \<equiv> 6"

abbreviation (input) DHCP_BOOTREPLY :: byte where "DHCP_BOOTREPLY \<equiv> 2"
abbreviation (input) DHCP_HTYPE_ETH :: byte where "DHCP_HTYPE_ETH \<equiv> 1"
abbreviation (input) DHCP_DISCOVER :: byte where "DHCP_DISCOVER \<equiv> 1"
abbreviation (input) DHCP_OFFER :: byte where "DHCP_OFFER \<equiv> 2"
abbreviation (input) DHCP_REQUEST :: byte where "DHCP_REQUEST \<equiv> 3"
abbreviation (input) DHCP_ACK :: byte where "DHCP_ACK \<equiv> 5"
abbreviation (input) DHCP_NAK :: byte where "DHCP_NAK \<equiv> 6"
abbreviation (input) DHCP_RELEASE :: byte where "DHCP_RELEASE \<equiv> 7"
abbreviation (input) DHCP_OPTION_SUBNET_MASK :: byte where "DHCP_OPTION_SUBNET_MASK \<equiv> 1"
abbreviation (input) DHCP_OPTION_REQUESTED_IP :: byte where "DHCP_OPTION_REQUESTED_IP \<equiv> 50"
abbreviation (input) DHCP_OPTION_LEASE_TIME :: byte where "DHCP_OPTION_LEASE_TIME \<equiv> 51"
abbreviation (input) DHCP_OPTION_MESSAGE_TYPE :: byte where "DHCP_OPTION_MESSAGE_TYPE \<equiv> 53"
abbreviation (input) DHCP_OPTION_SERVER_ID :: byte where "DHCP_OPTION_SERVER_ID \<equiv> 54"
abbreviation (input) DHCP_OPTION_END :: byte where "DHCP_OPTION_END \<equiv> 255"
abbreviation (input) DHCPSERVER_LEASE_TIME :: nat where "DHCPSERVER_LEASE_TIME \<equiv> 3600"
abbreviation (input) configTICK_RATE_HZ :: nat where "configTICK_RATE_HZ \<equiv> 100"

text \<open>The bytes of a message, field by field as the packed structure has them, and back.\<close>

definition msg_bytes :: "dhcp_msg \<Rightarrow> byte list" where
  "msg_bytes m = [dm_op m, dm_htype m, dm_hlen m, dm_hops m] @ dm_xid m @ dm_secs m @ dm_flags m @ dm_ciaddr m @ dm_yiaddr m @
     dm_siaddr m @ dm_giaddr m @ dm_chaddr m @ dm_sname m @ dm_file m @ dm_cookie m @ dm_options m"

definition bytes_msg :: "byte list \<Rightarrow> dhcp_msg" where
  "bytes_msg bs = \<lparr>dm_op = bs ! 0, dm_htype = bs ! 1, dm_hlen = bs ! 2, dm_hops = bs ! 3, dm_xid = block_at 4 4 bs,
     dm_secs = block_at 8 2 bs, dm_flags = block_at 10 2 bs, dm_ciaddr = block_at 12 4 bs, dm_yiaddr = block_at 16 4 bs,
     dm_siaddr = block_at 20 4 bs, dm_giaddr = block_at 24 4 bs, dm_chaddr = block_at 28 16 bs, dm_sname = block_at 44 64 bs,
     dm_file = block_at 108 128 bs, dm_cookie = block_at 236 4 bs, dm_options = block_at 240 312 bs\<rparr>"

text \<open>\<^verbatim>\<open>memcpy\<close> and \<^verbatim>\<open>memcmp\<close> read that many bytes; none may be outside.\<close>

definition mem_bytes :: "byte list \<Rightarrow> nat \<Rightarrow> nat \<Rightarrow> byte list option" where
  "mem_bytes bs i n = (if i + n \<le> length bs then Some (block_at i n bs) else None)"

section \<open>Options\<close>

text \<open>
  The loop of \<^verbatim>\<open>find_dhcp_option\<close>: the position of the data of an option, or none; the outer
  \<^term>\<open>None\<close> is a read outside the options.
\<close>

function find_option_loop :: "byte list \<Rightarrow> byte \<Rightarrow> byte \<Rightarrow> nat \<Rightarrow> nat option option" where
  "find_option_loop opts option_num min_length p =
     (if p < DHCP_OPTIONS_LEN - 2 then do {
        ty \<leftarrow> read_at opts p;
        len \<leftarrow> read_at opts (p + 1);
        let p1 = p + 2;
        if ty = DHCP_OPTION_END then Some None
        else if p1 + unat len \<ge> DHCP_OPTIONS_LEN then Some None
        else if ty = option_num then Some (if len < min_length then None else Some p1)
        else find_option_loop opts option_num min_length (p1 + unat len) }
      else Some None)"
  by pat_completeness auto
termination
  by (relation "measure (\<lambda>(_, _, _, p). DHCP_OPTIONS_LEN - p)") auto

declare find_option_loop.simps [simp del]

definition find_dhcp_option :: "dhcp_msg \<Rightarrow> byte \<Rightarrow> byte \<Rightarrow> nat option option" where
  "find_dhcp_option msg option_num min_length = find_option_loop (dm_options msg) option_num min_length 0"

definition add_dhcp_option_byte :: "byte \<Rightarrow> byte \<Rightarrow> byte list \<times> nat \<Rightarrow> (byte list \<times> nat) option" where
  "add_dhcp_option_byte ty val = (\<lambda>(opts, opt). do {
     opts1 \<leftarrow> write_block opts opt [ty, 1, val];
     Some (opts1, opt + 3) })"

definition add_dhcp_option_bytes :: "byte \<Rightarrow> byte list \<Rightarrow> byte list \<times> nat \<Rightarrow> (byte list \<times> nat) option" where
  "add_dhcp_option_bytes ty val = (\<lambda>(opts, opt). do {
     opts1 \<leftarrow> write_at opts opt ty;
     if val \<noteq> [] then do {
       opts2 \<leftarrow> write_at opts1 (opt + 1) (of_nat (length val));
       opts3 \<leftarrow> write_block opts2 (opt + 2) val;
       Some (opts3, opt + 2 + length val) }
     else Some (opts1, opt + 1) })"

section \<open>Leases\<close>

record dhcp_lease_t =
  hwaddr :: "byte list"
  expires :: u32

record server_state_t =
  max_leases :: byte
  first_client_addr :: "byte list"
  if_ip_addr :: "byte list"
  if_netmask :: "byte list"
  leases :: "dhcp_lease_t list"

text \<open>
  \<^verbatim>\<open>find_lease_slot\<close>: the loop with the first free slot seen so far. The hardware address of that
  slot itself is not compared. The third argument counts the rounds left.
\<close>

fun find_lease_loop :: "byte list \<Rightarrow> dhcp_lease_t list \<Rightarrow> nat \<Rightarrow> nat \<Rightarrow> nat option \<Rightarrow> nat option option" where
  "find_lease_loop hw ls 0 i empty_lease = Some empty_lease"
| "find_lease_loop hw ls (Suc k) i empty_lease = do {
     l \<leftarrow> read_at ls i;
     if expires l = 0 \<and> empty_lease = None then find_lease_loop hw ls k (i + 1) (Some i)
     else do {
       a \<leftarrow> mem_bytes hw 0 6;
       b \<leftarrow> mem_bytes (hwaddr l) 0 6;
       if a = b then Some (Some i) else find_lease_loop hw ls k (i + 1) empty_lease } }"

definition find_lease_slot :: "byte list \<Rightarrow> server_state_t \<Rightarrow> nat option option" where
  "find_lease_slot hw st = find_lease_loop hw (leases st) (unat (max_leases st)) 0 None"

definition expire_leases :: "u32 \<Rightarrow> server_state_t \<Rightarrow> server_state_t" where
  "expire_leases now st = st\<lparr>leases :=
     map (\<lambda>l. if expires l \<noteq> 0 \<and> expires l < now then l\<lparr>expires := 0\<rparr> else l) (leases st)\<rparr>"

section \<open>Handlers\<close>

text \<open>
  The calls into lwIP: receiving, allocating the buffer of a reply (\<^verbatim>\<open>netbuf_new\<close> and
  \<^verbatim>\<open>netbuf_alloc\<close>), broadcasting it, deleting buffers; the tick counter; and what the local
  variable \<^verbatim>\<open>requested_ip\<close> holds before it is set.
\<close>

record 'n dhcp_env =
  dn_recv :: "'n \<Rightarrow> int \<times> netbuf option \<times> 'n"
  dn_alloc :: "'n \<Rightarrow> bool \<times> 'n"
  dn_sendto :: "byte list \<Rightarrow> 'n \<Rightarrow> 'n"
  dn_delete :: "'n \<Rightarrow> 'n"
  dn_ticks :: "'n \<Rightarrow> u32 \<times> 'n"
  dn_uninit_ip :: "byte list"

definition broadcast_msg :: "'n dhcp_env \<Rightarrow> dhcp_msg \<Rightarrow> 'n \<Rightarrow> 'n option" where
  "broadcast_msg env msg n =
     (let (ok, n1) = dn_alloc env n in if ok then Some (dn_delete env (dn_sendto env (msg_bytes msg) n1)) else None)"

definition send_dhcp_nak :: "'n dhcp_env \<Rightarrow> server_state_t \<Rightarrow> dhcp_msg \<Rightarrow> 'n \<Rightarrow> 'n option" where
  "send_dhcp_nak env st msg n = do {
     (opts, _) \<leftarrow> add_dhcp_option_byte DHCP_OPTION_MESSAGE_TYPE DHCP_NAK (replicate DHCP_OPTIONS_LEN 0, 0)
       \<bind> add_dhcp_option_bytes DHCP_OPTION_SERVER_ID (if_ip_addr st)
       \<bind> add_dhcp_option_bytes DHCP_OPTION_END [];
     broadcast_msg env (msg\<lparr>dm_op := DHCP_BOOTREPLY, dm_options := opts\<rparr>) n }"

definition handle_dhcp_discover :: "'n dhcp_env \<Rightarrow> dhcp_msg \<Rightarrow> server_state_t \<Rightarrow> 'n \<Rightarrow> (server_state_t \<times> 'n) option" where
  "handle_dhcp_discover env msg st n =
     (if dm_htype msg \<noteq> DHCP_HTYPE_ETH then Some (st, n)
      else if unat (dm_hlen msg) > NETIF_MAX_HWADDR_LEN then Some (st, n)
      else do {
        slot \<leftarrow> find_lease_slot (dm_chaddr msg) st;
        case slot of
          None \<Rightarrow> Some (st, n)
        | Some freelease \<Rightarrow> do {
            let yiaddr = (first_client_addr st)[3 := first_client_addr st ! 3 + of_nat freelease];
            (opts, _) \<leftarrow> add_dhcp_option_byte DHCP_OPTION_MESSAGE_TYPE DHCP_OFFER (replicate DHCP_OPTIONS_LEN 0, 0)
              \<bind> add_dhcp_option_bytes DHCP_OPTION_SERVER_ID (if_ip_addr st)
              \<bind> add_dhcp_option_bytes DHCP_OPTION_SUBNET_MASK (if_netmask st)
              \<bind> add_dhcp_option_bytes DHCP_OPTION_END [];
            n1 \<leftarrow> broadcast_msg env (msg\<lparr>dm_op := DHCP_BOOTREPLY, dm_yiaddr := yiaddr, dm_options := opts\<rparr>) n;
            Some (st, n1) } })"

text \<open>The address asked for: the option, or the client address if the variable happens to be 0, or none.\<close>

definition requested_ip :: "'n dhcp_env \<Rightarrow> dhcp_msg \<Rightarrow> byte list option option" where
  "requested_ip env msg = do {
     found \<leftarrow> find_dhcp_option msg DHCP_OPTION_REQUESTED_IP 4;
     case found of
       Some p \<Rightarrow> do { ip \<leftarrow> mem_bytes (dm_options msg) p 4; Some (Some ip) }
     | None \<Rightarrow> Some (if dn_uninit_ip env = [0, 0, 0, 0] then Some (dm_ciaddr msg) else None) }"

text \<open>
  The test whether a lease is taken by another client: the addresses are compared only if the lease
  has not expired. The lease at an offset, which is a signed number.
\<close>

definition lease_taken :: "dhcp_lease_t \<Rightarrow> dhcp_msg \<Rightarrow> bool option" where
  "lease_taken lease msg =
     (if expires lease = 0 then Some False
      else do {
        a \<leftarrow> mem_bytes (hwaddr lease) 0 (unat (dm_hlen msg));
        b \<leftarrow> mem_bytes (dm_chaddr msg) 0 (unat (dm_hlen msg));
        Some (a \<noteq> b) })"

definition lease_index :: "server_state_t \<Rightarrow> int \<Rightarrow> nat option" where
  "lease_index st offs = (if 0 \<le> offs \<and> offs < int (length (leases st)) then Some (nat offs) else None)"

definition handle_dhcp_request :: "'n dhcp_env \<Rightarrow> dhcp_msg \<Rightarrow> server_state_t \<Rightarrow> 'n \<Rightarrow> (server_state_t \<times> 'n) option" where
  "handle_dhcp_request env msg st n =
     (let nak = map_option (Pair st) (send_dhcp_nak env st msg n)
      in if dm_htype msg \<noteq> DHCP_HTYPE_ETH then Some (st, n)
         else if unat (dm_hlen msg) > NETIF_MAX_HWADDR_LEN then Some (st, n)
         else do {
           req \<leftarrow> requested_ip env msg;
           case req of
             None \<Rightarrow> nak
           | Some ip \<Rightarrow>
               if take 3 ip \<noteq> take 3 (first_client_addr st) then nak
               else let octet_offs = int (unat (ip ! 3)) - int (unat (first_client_addr st ! 3))
                 in if octet_offs < 0 \<or> octet_offs \<ge> int (unat (max_leases st)) then nak
                    else do {
                      i \<leftarrow> lease_index st octet_offs;
                      lease \<leftarrow> read_at (leases st) i;
                      taken \<leftarrow> lease_taken lease msg;
                      if taken then nak
                      else do {
                        chaddr \<leftarrow> mem_bytes (dm_chaddr msg) 0 (unat (dm_hlen msg));
                        hw \<leftarrow> write_block (hwaddr lease) 0 chaddr;
                        ls \<leftarrow> write_at (leases st) i (lease\<lparr>hwaddr := hw,
                          expires := of_nat (DHCPSERVER_LEASE_TIME * configTICK_RATE_HZ)\<rparr>);
                        (opts, _) \<leftarrow> add_dhcp_option_byte DHCP_OPTION_MESSAGE_TYPE DHCP_ACK (replicate DHCP_OPTIONS_LEN 0, 0)
                          \<bind> add_dhcp_option_bytes DHCP_OPTION_LEASE_TIME [0, 0, 14, 16]
                          \<bind> add_dhcp_option_bytes DHCP_OPTION_SERVER_ID (if_ip_addr st)
                          \<bind> add_dhcp_option_bytes DHCP_OPTION_SUBNET_MASK (if_netmask st)
                          \<bind> add_dhcp_option_bytes DHCP_OPTION_END [];
                        n1 \<leftarrow> broadcast_msg env (msg\<lparr>dm_op := DHCP_BOOTREPLY, dm_yiaddr := ip, dm_options := opts\<rparr>) n;
                        Some (st\<lparr>leases := ls\<rparr>, n1) } } })"

definition handle_dhcp_release :: "dhcp_msg \<Rightarrow> server_state_t \<Rightarrow> server_state_t option" where
  "handle_dhcp_release msg st = do {
     slot \<leftarrow> find_lease_slot (dm_chaddr msg) st;
     case slot of
       None \<Rightarrow> Some st
     | Some i \<Rightarrow> do {
         l \<leftarrow> read_at (leases st) i;
         ls \<leftarrow> write_at (leases st) i (l\<lparr>expires := 0\<rparr>);
         Some (st\<lparr>leases := ls\<rparr>) } }"

section \<open>The task\<close>

text \<open>
  A received message is copied over a structure of zeros; what is behind 552 bytes is ignored.
  Releases fall through to the message for unsupported types, which is only printed.
\<close>

definition handle_msg :: "'n dhcp_env \<Rightarrow> dhcp_msg \<Rightarrow> server_state_t \<Rightarrow> 'n \<Rightarrow> (server_state_t \<times> 'n) option" where
  "handle_msg env msg st n =
     do {
       found \<leftarrow> find_dhcp_option msg DHCP_OPTION_MESSAGE_TYPE 1;
       case found of
         None \<Rightarrow> Some (st, n)
       | Some p \<Rightarrow> do {
           message_type \<leftarrow> read_at (dm_options msg) p;
           if message_type = DHCP_DISCOVER then handle_dhcp_discover env msg st n
           else if message_type = DHCP_REQUEST then handle_dhcp_request env msg st n
           else if message_type = DHCP_RELEASE then do { st1 \<leftarrow> handle_dhcp_release msg st; Some (st1, n) }
           else Some (st, n) } }"

definition dhcp_round :: "'n dhcp_env \<Rightarrow> server_state_t \<Rightarrow> 'n \<Rightarrow> (server_state_t \<times> 'n) option" where
  "dhcp_round env st n =
     (let (err, nb, n1) = dn_recv env n
      in if err \<noteq> 0 then Some (st, n1)
         else do {
           b \<leftarrow> nb;
           let (now, n2) = dn_ticks env n1;
           let st1 = expire_leases now st;
           if netbuf_len b < DHCP_OPTIONS_OFS then Some (st1, dn_delete env n2)
           else let bs = pbuf_copy_partial (pbufs b) DHCP_MSG_SIZE 0;
                    received = bytes_msg (bs @ replicate (DHCP_MSG_SIZE - length bs) 0)
             in handle_msg env received st1 (dn_delete env n2) })"

text \<open>
  Starting makes the state, without a lease; the interface is the one the task looks up when it starts.
  Stopping deletes the task and gives the state back. The globals \<^verbatim>\<open>dhcpserver_task_handle\<close> and \<^verbatim>\<open>state\<close> are an
  optional state: there is one while the task runs.
\<close>

definition dhcpserver_start :: "byte list \<Rightarrow> byte \<Rightarrow> byte list \<Rightarrow> byte list \<Rightarrow> server_state_t" where
  "dhcpserver_start addr n ip netmask =
     \<lparr>max_leases = n, first_client_addr = addr, if_ip_addr = ip, if_netmask = netmask,
      leases = replicate (unat n) \<lparr>hwaddr = replicate NETIF_MAX_HWADDR_LEN 0, expires = 0\<rparr>\<rparr>"

definition dhcpserver_stop :: "server_state_t option \<Rightarrow> server_state_t option" where
  "dhcpserver_stop running = (case running of Some st \<Rightarrow> None | None \<Rightarrow> running)"

end
