(* ===== verification/Dhcp_Leases.thy ===== *)
theory Dhcp_Leases
  imports Dhcp_Server
begin

unbundle bit_operations_syntax

text \<open>
  What the DHCP server promises: its table stays well-formed and no access leaves a buffer; a request
  is granted exactly if the address is free or the client's own; an address that was offered is granted
  when asked for; and a lease does not last once the system is up for an hour.
\<close>

section \<open>Messages and options\<close>

definition wf_msg :: "dhcp_msg \<Rightarrow> bool" where
  "wf_msg m \<longleftrightarrow> length (dm_xid m) = 4 \<and> length (dm_secs m) = 2 \<and> length (dm_flags m) = 2 \<and> length (dm_ciaddr m) = 4 \<and>
     length (dm_yiaddr m) = 4 \<and> length (dm_siaddr m) = 4 \<and> length (dm_giaddr m) = 4 \<and> length (dm_chaddr m) = 16 \<and>
     length (dm_sname m) = 64 \<and> length (dm_file m) = 128 \<and> length (dm_cookie m) = 4 \<and> length (dm_options m) = 312"

lemma wf_bytes_msg: "length bs = DHCP_MSG_SIZE \<Longrightarrow> wf_msg (bytes_msg bs)"
  by (simp add: wf_msg_def bytes_msg_def block_at_def)

lemma bytes_msg_bytes: "wf_msg m \<Longrightarrow> bytes_msg (msg_bytes m) = m"
  by (cases m) (simp add: wf_msg_def bytes_msg_def msg_bytes_def block_at_def numeral_nat)

lemma length_msg_bytes: "wf_msg m \<Longrightarrow> length (msg_bytes m) = DHCP_MSG_SIZE"
  by (simp add: wf_msg_def msg_bytes_def)

text \<open>Options are laid out one behind the other.\<close>

lemma add_option_byte:
  "i = length pre \<Longrightarrow> i + 3 \<le> length z \<Longrightarrow> add_dhcp_option_byte ty v (lay z pre, i) = Some (lay z (pre @ [ty, 1, v]), i + 3)"
  by (simp add: add_dhcp_option_byte_def write_block_lay)

lemma add_option_bytes:
  assumes "i = length pre" "i + 2 + length v \<le> length z" "v \<noteq> []"
  shows "add_dhcp_option_bytes ty v (lay z pre, i) = Some (lay z (pre @ ty # of_nat (length v) # v), i + 2 + length v)"
  using assms write_at_lay [of "pre @ [ty]" z] write_block_lay [of "pre @ [ty, of_nat (length v)]" v z]
  by (simp add: add_dhcp_option_bytes_def write_at_lay)

lemma add_option_end:
  "i = length pre \<Longrightarrow> i < length z \<Longrightarrow> add_dhcp_option_bytes ty [] (lay z pre, i) = Some (lay z (pre @ [ty]), i + 1)"
  by (simp add: add_dhcp_option_bytes_def write_at_lay)

lemma add_first: "add_dhcp_option_byte ty v (replicate DHCP_OPTIONS_LEN 0, 0) = Some (lay (replicate DHCP_OPTIONS_LEN 0) [ty, 1, v], 3)"
  using add_option_byte [of 0 "[]" "replicate DHCP_OPTIONS_LEN 0" ty v] by simp

lemmas option_chain = add_first add_option_bytes add_option_end

definition nak_options :: "byte list \<Rightarrow> byte list" where
  "nak_options ip = lay (replicate DHCP_OPTIONS_LEN 0) ([53, 1, DHCP_NAK, 54, 4] @ ip @ [255])"

definition offer_options :: "byte list \<Rightarrow> byte list \<Rightarrow> byte list" where
  "offer_options ip netmask = lay (replicate DHCP_OPTIONS_LEN 0) ([53, 1, DHCP_OFFER, 54, 4] @ ip @ [1, 4] @ netmask @ [255])"

definition ack_options :: "byte list \<Rightarrow> byte list \<Rightarrow> byte list" where
  "ack_options ip netmask =
     lay (replicate DHCP_OPTIONS_LEN 0) ([53, 1, DHCP_ACK, 51, 4, 0, 0, 14, 16, 54, 4] @ ip @ [1, 4] @ netmask @ [255])"

lemma option_chains:
  assumes "length ip = 4" "length netmask = 4"
  shows "(add_dhcp_option_byte DHCP_OPTION_MESSAGE_TYPE DHCP_NAK (replicate DHCP_OPTIONS_LEN 0, 0)
      \<bind> add_dhcp_option_bytes DHCP_OPTION_SERVER_ID ip
      \<bind> add_dhcp_option_bytes DHCP_OPTION_END []) = Some (nak_options ip, 10)"
    and "(add_dhcp_option_byte DHCP_OPTION_MESSAGE_TYPE DHCP_OFFER (replicate DHCP_OPTIONS_LEN 0, 0)
      \<bind> add_dhcp_option_bytes DHCP_OPTION_SERVER_ID ip
      \<bind> add_dhcp_option_bytes DHCP_OPTION_SUBNET_MASK netmask
      \<bind> add_dhcp_option_bytes DHCP_OPTION_END []) = Some (offer_options ip netmask, 16)"
    and "(add_dhcp_option_byte DHCP_OPTION_MESSAGE_TYPE DHCP_ACK (replicate DHCP_OPTIONS_LEN 0, 0)
      \<bind> add_dhcp_option_bytes DHCP_OPTION_LEASE_TIME [0, 0, 14, 16]
      \<bind> add_dhcp_option_bytes DHCP_OPTION_SERVER_ID ip
      \<bind> add_dhcp_option_bytes DHCP_OPTION_SUBNET_MASK netmask
      \<bind> add_dhcp_option_bytes DHCP_OPTION_END []) = Some (ack_options ip netmask, 22)"
proof -
  have "ip \<noteq> []" "netmask \<noteq> []"
    using assms by auto
  with assms show "(add_dhcp_option_byte DHCP_OPTION_MESSAGE_TYPE DHCP_NAK (replicate DHCP_OPTIONS_LEN 0, 0)
      \<bind> add_dhcp_option_bytes DHCP_OPTION_SERVER_ID ip
      \<bind> add_dhcp_option_bytes DHCP_OPTION_END []) = Some (nak_options ip, 10)"
    "(add_dhcp_option_byte DHCP_OPTION_MESSAGE_TYPE DHCP_OFFER (replicate DHCP_OPTIONS_LEN 0, 0)
      \<bind> add_dhcp_option_bytes DHCP_OPTION_SERVER_ID ip
      \<bind> add_dhcp_option_bytes DHCP_OPTION_SUBNET_MASK netmask
      \<bind> add_dhcp_option_bytes DHCP_OPTION_END []) = Some (offer_options ip netmask, 16)"
    "(add_dhcp_option_byte DHCP_OPTION_MESSAGE_TYPE DHCP_ACK (replicate DHCP_OPTIONS_LEN 0, 0)
      \<bind> add_dhcp_option_bytes DHCP_OPTION_LEASE_TIME [0, 0, 14, 16]
      \<bind> add_dhcp_option_bytes DHCP_OPTION_SERVER_ID ip
      \<bind> add_dhcp_option_bytes DHCP_OPTION_SUBNET_MASK netmask
      \<bind> add_dhcp_option_bytes DHCP_OPTION_END []) = Some (ack_options ip netmask, 22)"
    by (simp_all add: option_chain nak_options_def offer_options_def ack_options_def)
qed

text \<open>A message with one of these option fields, as the search for an option sees it.\<close>

lemma find_option_unfold:
  assumes "length opts = 312"
  shows "find_option_loop opts ty l p =
    (if p < 310 then
       if opts ! p = 255 \<or> 312 \<le> p + 2 + unat (opts ! (p + 1)) then Some None
       else if opts ! p = ty then Some (if opts ! (p + 1) < l then None else Some (p + 2))
       else find_option_loop opts ty l (p + 2 + unat (opts ! (p + 1)))
     else Some None)"
  using assms by (subst find_option_loop.simps) (simp add: read_at_def Let_def)

text \<open>The search returns, and whatever it finds lies inside the options.\<close>

lemma find_option_inside:
  assumes "length opts = 312"
  shows "\<exists>q. find_option_loop opts ty l p = Some q \<and> (case q of None \<Rightarrow> True | Some i \<Rightarrow> i + unat l < 312)"
proof (induction "312 - p" arbitrary: p rule: less_induct)
  case less
  let ?p = "p + 2 + unat (opts ! (p + 1))"
  have "\<exists>q. find_option_loop opts ty l ?p = Some q \<and> (case q of None \<Rightarrow> True | Some i \<Rightarrow> i + unat l < 312)" if "p < 310"
    by (rule less) (use that in simp)
  then show ?case
    by (subst find_option_unfold [OF assms]) (auto simp: not_less word_le_nat_alt)
qed

lemma find_dhcp_option_inside:
  assumes "wf_msg msg"
  obtains (absent) "find_dhcp_option msg ty l = Some None"
  | (found) i where "find_dhcp_option msg ty l = Some (Some i)" and "i + unat l < length (dm_options msg)"
proof -
  have len: "length (dm_options msg) = 312"
    using assms by (simp add: wf_msg_def)
  then obtain q where "find_dhcp_option msg ty l = Some q" "case q of None \<Rightarrow> True | Some i \<Rightarrow> i + unat l < 312"
    using find_option_inside [OF len, of ty l 0] by (auto simp: find_dhcp_option_def)
  with len absent found show thesis
    by (cases q) simp_all
qed

lemma requested_ip_returns:
  assumes "wf_msg msg"
  obtains req where "requested_ip env msg = Some req"
  using find_dhcp_option_inside [OF assms, of DHCP_OPTION_REQUESTED_IP 4 thesis]
  by (auto simp: requested_ip_def mem_bytes_def that)

section \<open>Leases\<close>

definition wf_server :: "server_state_t \<Rightarrow> bool" where
  "wf_server st \<longleftrightarrow> length (leases st) = unat (max_leases st) \<and> (\<forall>l\<in>set (leases st). length (hwaddr l) = 6) \<and>
     length (first_client_addr st) = 4 \<and> length (if_ip_addr st) = 4 \<and> length (if_netmask st) = 4"

text \<open>
  The search as a scan of the table. The slot found belongs to the client, or it is free; a client
  that holds a lease behind a free slot gets its own.
\<close>

fun lease_scan :: "byte list \<Rightarrow> dhcp_lease_t list \<Rightarrow> nat \<Rightarrow> nat option \<Rightarrow> nat option" where
  "lease_scan hw [] i e = e"
| "lease_scan hw (l # ls) i e =
     (if expires l = 0 \<and> e = None then lease_scan hw ls (i + 1) (Some i)
      else if take 6 hw = take 6 (hwaddr l) then Some i
      else lease_scan hw ls (i + 1) e)"

lemma find_lease_loop_scan:
  assumes "\<forall>l\<in>set ls. length (hwaddr l) = 6" and "6 \<le> length hw" and "i + k = length ls"
  shows "find_lease_loop hw ls k i e = Some (lease_scan hw (drop i ls) i e)"
  using assms(3)
proof (induction k arbitrary: i e)
  case (Suc k)
  then have "i < length ls"
    by simp
  then have "read_at ls i = Some (ls ! i)" "drop i ls = ls ! i # drop (i + 1) ls" "length (hwaddr (ls ! i)) = 6"
    using assms(1) by (simp_all add: read_at_def Cons_nth_drop_Suc)
  with Suc.IH [of "i + 1"] Suc.prems assms(2) show ?case
    by (simp add: mem_bytes_def block_at_def)
qed simp

lemma lease_scan_spec:
  assumes "lease_scan hw ls i e = Some j"
  shows "e = Some j \<or> i \<le> j \<and> j < i + length ls \<and> (expires (ls ! (j - i)) = 0 \<or> take 6 hw = take 6 (hwaddr (ls ! (j - i))))"
  using assms
proof (induction hw ls i e rule: lease_scan.induct)
  case (2 hw l ls i e)
  consider (free) "expires l = 0 \<and> e = None" | (own) "\<not> (expires l = 0 \<and> e = None)" "take 6 hw = take 6 (hwaddr l)"
    | (other) "\<not> (expires l = 0 \<and> e = None)" "take 6 hw \<noteq> take 6 (hwaddr l)"
    by blast
  then show ?case
  proof cases
    case free
    then have "Some i = Some j \<or> i + 1 \<le> j \<and> j < i + 1 + length ls \<and> (expires (ls ! (j - (i + 1))) = 0 \<or> take 6 hw = take 6 (hwaddr (ls ! (j - (i + 1)))))"
      using 2 by simp
    then show ?thesis
      using free by (auto simp: nth_Cons')
  next
    case own
    then show ?thesis
      using "2.prems" by (auto split: if_splits)
  next
    case other
    then have "e = Some j \<or> i + 1 \<le> j \<and> j < i + 1 + length ls \<and> (expires (ls ! (j - (i + 1))) = 0 \<or> take 6 hw = take 6 (hwaddr (ls ! (j - (i + 1)))))"
      using 2(2) [OF other] "2.prems" by (auto split: if_splits)
    then show ?thesis
      by (auto simp: nth_Cons')
  qed
qed simp

lemma lease_scan_None:
  "lease_scan hw ls i e = None \<longleftrightarrow> e = None \<and> (\<forall>l\<in>set ls. expires l \<noteq> 0 \<and> take 6 hw \<noteq> take 6 (hwaddr l))"
  by (induction hw ls i e rule: lease_scan.induct) auto

lemma find_lease_slot_scan:
  assumes "wf_server st" and "6 \<le> length hw"
  shows "find_lease_slot hw st = Some (lease_scan hw (leases st) 0 None)"
  using find_lease_loop_scan [of "leases st" hw 0 "unat (max_leases st)" None] assms
  by (simp add: find_lease_slot_def wf_server_def)

lemma find_lease_slot_spec:
  assumes "wf_server st" "lease_scan hw (leases st) 0 None = Some j"
  shows "j < unat (max_leases st) \<and> (expires (leases st ! j) = 0 \<or> take 6 hw = hwaddr (leases st ! j))"
proof -
  have j: "j < length (leases st)" "expires (leases st ! j) = 0 \<or> take 6 hw = take 6 (hwaddr (leases st ! j))"
    using lease_scan_spec [OF assms(2)] by auto
  have "length (hwaddr (leases st ! j)) = 6"
    using assms(1) j(1) by (simp add: wf_server_def)
  with j assms(1) show ?thesis
    by (simp add: wf_server_def)
qed

section \<open>The handlers\<close>

text \<open>What the code relies on from lwIP: buffers can be allocated, and what is sent is sent.\<close>

locale dhcp_net =
  fixes env :: "'n dhcp_env" and sent :: "'n \<Rightarrow> byte list list"
  assumes alloc: "\<exists>n'. dn_alloc env n = (True, n') \<and> sent n' = sent n"
    and sendto: "sent (dn_sendto env bs n) = sent n @ [bs]"
    and net_quiet: "sent (dn_delete env n) = sent n" "sent (snd (dn_ticks env n)) = sent n" "sent (snd (snd (dn_recv env n))) = sent n"
    and recv_buffer: "dn_recv env n = (0, nb, n') \<Longrightarrow> nb \<noteq> None"
begin

lemma broadcast: "\<exists>n'. broadcast_msg env msg n = Some n' \<and> sent n' = sent n @ [msg_bytes msg]"
proof -
  obtain n1 where "dn_alloc env n = (True, n1)" "sent n1 = sent n"
    using alloc by blast
  then show ?thesis
    by (simp add: broadcast_msg_def sendto net_quiet)
qed

lemma nak:
  assumes "wf_server st"
  shows "\<exists>n'. send_dhcp_nak env st msg n = Some n' \<and>
    sent n' = sent n @ [msg_bytes (msg\<lparr>dm_op := DHCP_BOOTREPLY, dm_options := nak_options (if_ip_addr st)\<rparr>)]"
proof -
  have l: "length (if_ip_addr st) = 4" "length (if_netmask st) = 4"
    using assms by (simp_all add: wf_server_def)
  show ?thesis
    using broadcast [of "msg\<lparr>dm_op := DHCP_BOOTREPLY, dm_options := nak_options (if_ip_addr st)\<rparr>" n]
    unfolding send_dhcp_nak_def option_chains(1) [OF l] by simp
qed

end

text \<open>The table as a partial function from slots to the hardware addresses of the clients that hold them.\<close>

definition holder :: "server_state_t \<Rightarrow> nat \<Rightarrow> byte list option" where
  "holder st i = (if i < length (leases st) \<and> expires (leases st ! i) \<noteq> 0 then Some (hwaddr (leases st ! i)) else None)"

text \<open>The slot of an address, if it is in the range of the server.\<close>

definition slot_of :: "server_state_t \<Rightarrow> byte list \<Rightarrow> nat option" where
  "slot_of st ip =
     (let k = int (unat (ip ! 3)) - int (unat (first_client_addr st ! 3))
      in if take 3 ip = take 3 (first_client_addr st) \<and> 0 \<le> k \<and> k < int (unat (max_leases st)) then Some (nat k) else None)"

lemma slot_of_less: "slot_of st ip = Some i \<Longrightarrow> i < unat (max_leases st)"
  by (auto simp: slot_of_def Let_def nat_less_iff split: if_splits)

definition granted :: "server_state_t \<Rightarrow> byte list \<Rightarrow> byte list \<Rightarrow> nat option" where
  "granted st hw ip =
     (case slot_of st ip of None \<Rightarrow> None
      | Some i \<Rightarrow> if holder st i = None \<or> holder st i = Some hw then Some i else None)"

definition nak_msg :: "server_state_t \<Rightarrow> dhcp_msg \<Rightarrow> dhcp_msg" where
  "nak_msg st msg = msg\<lparr>dm_op := DHCP_BOOTREPLY, dm_options := nak_options (if_ip_addr st)\<rparr>"

definition ack_msg :: "server_state_t \<Rightarrow> byte list \<Rightarrow> dhcp_msg \<Rightarrow> dhcp_msg" where
  "ack_msg st ip msg = msg\<lparr>dm_op := DHCP_BOOTREPLY, dm_yiaddr := ip, dm_options := ack_options (if_ip_addr st) (if_netmask st)\<rparr>"

context dhcp_net begin

lemma request:
  assumes "wf_server st" "wf_msg msg" "dm_htype msg = DHCP_HTYPE_ETH" "dm_hlen msg = 6" "requested_ip env msg = Some (Some ip)"
    and "hw = take 6 (dm_chaddr msg)"
  shows "\<exists>st' n'. handle_dhcp_request env msg st n = Some (st', n') \<and>
    (case granted st hw ip of
       None \<Rightarrow> st' = st \<and> sent n' = sent n @ [msg_bytes (nak_msg st msg)]
     | Some i \<Rightarrow> st' = st\<lparr>leases := (leases st)[i := \<lparr>hwaddr = hw, expires = 360000\<rparr>]\<rparr> \<and>
         sent n' = sent n @ [msg_bytes (ack_msg st ip msg)])"
proof -
  obtain n1 where n1: "send_dhcp_nak env st msg n = Some n1" "sent n1 = sent n @ [msg_bytes (nak_msg st msg)]"
    using nak [OF assms(1)] by (auto simp: nak_msg_def)
  show ?thesis
  proof (cases "slot_of st ip")
    case None
    then have "granted st hw ip = None"
      by (simp add: granted_def)
    then show ?thesis
      using None n1 assms(3-5) by (auto simp: handle_dhcp_request_def slot_of_def Let_def split: if_splits)
  next
    case (Some i)
    let ?l = "leases st ! i"
    have s: "take 3 ip = take 3 (first_client_addr st)" "\<not> int (unat (ip ! 3)) - int (unat (first_client_addr st ! 3)) < 0"
      "\<not> int (unat (max_leases st)) \<le> int (unat (ip ! 3)) - int (unat (first_client_addr st ! 3))"
      "nat (int (unat (ip ! 3)) - int (unat (first_client_addr st ! 3))) = i"
      using Some by (auto simp: slot_of_def Let_def split: if_splits)
    have i: "i < length (leases st)"
    proof -
      have "i < unat (max_leases st)"
        using s(2-4) by linarith
      then show ?thesis
        using assms(1) by (simp add: wf_server_def)
    qed
    then have h: "length (hwaddr ?l) = 6" "length hw = 6"
      using assms(1,2,6) by (auto simp: wf_server_def wf_msg_def)
    have g: "granted st hw ip = (if expires ?l \<noteq> 0 \<and> take 6 (hwaddr ?l) \<noteq> take 6 (dm_chaddr msg) then None else Some i)"
      using Some i h assms(6) by (auto simp: granted_def holder_def)
    obtain n2 where n2: "broadcast_msg env (ack_msg st ip msg) n = Some n2" "sent n2 = sent n @ [msg_bytes (ack_msg st ip msg)]"
      using broadcast by blast
    have u: "unat (dm_hlen msg) = 6"
      using assms(4) by simp
    have ix: "lease_index st (int (unat (ip ! 3)) - int (unat (first_client_addr st ! 3))) = Some i" "read_at (leases st) i = Some ?l"
      "write_at (leases st) i l = Some ((leases st)[i := l])" for l
      using i s by (auto simp: lease_index_def read_at_def write_at_def)
    have mb: "mem_bytes (dm_chaddr msg) 0 6 = Some hw" "write_block (hwaddr ?l) 0 hw = Some hw"
      using h assms(2,6) by (simp_all add: mem_bytes_def block_at_def wf_msg_def write_block_def)
    have tk: "lease_taken ?l msg = Some (granted st hw ip = None)"
      unfolding g using h u mb(1) assms(6) by (simp add: lease_taken_def mem_bytes_def block_at_def)
    have l: "?l\<lparr>hwaddr := hw, expires := 360000\<rparr> = \<lparr>hwaddr = hw, expires = 360000\<rparr>"
      by (cases ?l) simp
    have a: "length (if_ip_addr st) = 4" "length (if_netmask st) = 4"
      using assms(1) by (simp_all add: wf_server_def)
    show ?thesis
    proof (cases "granted st hw ip")
      case None
      then show ?thesis
        using assms(3,5) s(1-3) n1 u ix tk by (simp add: handle_dhcp_request_def Let_def)
    next
      case (Some j)
      then have "j = i"
        using g by (simp split: if_splits)
      with Some show ?thesis
        using assms(3,5) s(1-3) n2 u l ix tk mb unfolding handle_dhcp_request_def option_chains(3) [OF a]
        by (simp add: l [symmetric] ack_msg_def Let_def)
    qed
  qed
qed

end

text \<open>What every operation keeps: the configuration, the size of the table and of its entries.\<close>

definition same_server :: "server_state_t \<Rightarrow> server_state_t \<Rightarrow> bool" where
  "same_server st st' \<longleftrightarrow> max_leases st' = max_leases st \<and> first_client_addr st' = first_client_addr st \<and>
     if_ip_addr st' = if_ip_addr st \<and> if_netmask st' = if_netmask st"

lemma wf_update:
  "wf_server st \<Longrightarrow> length (hwaddr l) = 6 \<Longrightarrow> wf_server (st\<lparr>leases := (leases st)[i := l]\<rparr>)"
  by (auto simp: wf_server_def dest!: set_update_subset_insert [THEN subsetD])

lemma wf_hwaddr: "wf_server st \<Longrightarrow> i < unat (max_leases st) \<Longrightarrow> length (hwaddr (leases st ! i)) = 6"
  by (simp add: wf_server_def)

lemma wf_expire: "wf_server st \<Longrightarrow> wf_server (expire_leases now st)"
  by (auto simp: wf_server_def expire_leases_def)

lemma release_keeps:
  assumes "wf_server st" "wf_msg msg"
  shows "\<exists>st'. handle_dhcp_release msg st = Some st' \<and> wf_server st' \<and> same_server st st'"
proof (cases "lease_scan (dm_chaddr msg) (leases st) 0 None")
  case None
  then show ?thesis
    using find_lease_slot_scan [OF assms(1), of "dm_chaddr msg"] assms
    by (simp add: handle_dhcp_release_def wf_msg_def same_server_def)
next
  case (Some i)
  then have "i < unat (max_leases st)"
    using find_lease_slot_spec [OF assms(1)] by blast
  then show ?thesis
    using Some find_lease_slot_scan [OF assms(1), of "dm_chaddr msg"] assms wf_hwaddr [OF assms(1)]
    by (auto simp: handle_dhcp_release_def wf_msg_def same_server_def read_at_def write_at_def wf_server_def [of st]
        intro!: wf_update)
qed

lemma wf_start: "length addr = 4 \<Longrightarrow> length ip = 4 \<Longrightarrow> length netmask = 4 \<Longrightarrow> wf_server (dhcpserver_start addr k ip netmask)"
  by (simp add: wf_server_def dhcpserver_start_def)

context dhcp_net begin

lemma discover:
  assumes "wf_server st" "wf_msg msg"
  shows "\<exists>n'. handle_dhcp_discover env msg st n = Some (st, n') \<and>
    sent n' = sent n @ (if dm_htype msg = DHCP_HTYPE_ETH \<and> unat (dm_hlen msg) \<le> 6 then
      (case lease_scan (dm_chaddr msg) (leases st) 0 None of None \<Rightarrow> []
       | Some i \<Rightarrow> [msg_bytes (msg\<lparr>dm_op := DHCP_BOOTREPLY, dm_yiaddr := (first_client_addr st)[3 := first_client_addr st ! 3 + of_nat i],
           dm_options := offer_options (if_ip_addr st) (if_netmask st)\<rparr>)]) else [])"
proof -
  have l: "length (if_ip_addr st) = 4" "length (if_netmask st) = 4"
    using assms by (simp_all add: wf_server_def)
  have f: "find_lease_slot (dm_chaddr msg) st = Some (lease_scan (dm_chaddr msg) (leases st) 0 None)"
    using find_lease_slot_scan [OF assms(1)] assms(2) by (simp add: wf_msg_def)
  show ?thesis
  proof (cases "lease_scan (dm_chaddr msg) (leases st) 0 None")
    case (Some i)
    obtain n' where "broadcast_msg env (msg\<lparr>dm_op := DHCP_BOOTREPLY, dm_yiaddr := (first_client_addr st)[3 := first_client_addr st ! 3 + of_nat i],
        dm_options := offer_options (if_ip_addr st) (if_netmask st)\<rparr>) n = Some n'"
      "sent n' = sent n @ [msg_bytes (msg\<lparr>dm_op := DHCP_BOOTREPLY, dm_yiaddr := (first_client_addr st)[3 := first_client_addr st ! 3 + of_nat i],
        dm_options := offer_options (if_ip_addr st) (if_netmask st)\<rparr>)]"
      using broadcast by blast
    with Some f show ?thesis
      unfolding handle_dhcp_discover_def option_chains(2) [OF l] by auto
  qed (auto simp: handle_dhcp_discover_def f)
qed

text \<open>A request of any kind, with hardware addresses of up to six bytes.\<close>

lemma request_keeps:
  assumes "wf_server st" "wf_msg msg"
  shows "\<exists>st' n'. handle_dhcp_request env msg st n = Some (st', n') \<and> wf_server st' \<and> same_server st st'"
proof (cases "dm_htype msg = DHCP_HTYPE_ETH \<and> unat (dm_hlen msg) \<le> 6")
  case True
  have a: "length (if_ip_addr st) = 4" "length (if_netmask st) = 4"
    using assms(1) by (simp_all add: wf_server_def)
  obtain n1 where n1: "send_dhcp_nak env st msg n = Some n1"
    using nak [OF assms(1)] by blast
  define f where "f m = the (broadcast_msg env m n)" for m
  have f: "broadcast_msg env m n = Some (f m)" for m
    using broadcast [of m n] by (auto simp: f_def)
  have s: "same_server st st" "same_server st (st\<lparr>leases := ls\<rparr>)" for ls
    by (simp_all add: same_server_def)
  obtain req where req: "requested_ip env msg = Some req"
    using requested_ip_returns [OF assms(2)] .
  have c: "mem_bytes (dm_chaddr msg) 0 (unat (dm_hlen msg)) = Some (take (unat (dm_hlen msg)) (dm_chaddr msg))"
    using assms(2) True by (simp add: mem_bytes_def wf_msg_def block_at_def)
  have step: "\<exists>i lease taken hw. lease_index st k = Some i \<and> read_at (leases st) i = Some lease \<and> lease_taken lease msg = Some taken \<and>
      write_block (hwaddr lease) 0 (take (unat (dm_hlen msg)) (dm_chaddr msg)) = Some hw \<and> length hw = 6 \<and>
      (\<forall>l. write_at (leases st) i l = Some ((leases st)[i := l]))" if "\<not> (k < 0 \<or> k \<ge> int (unat (max_leases st)))" for k
  proof -
    let ?l = "leases st ! nat k"
    have "length (leases st) = unat (max_leases st)"
      using assms(1) by (simp add: wf_server_def)
    with that have k: "nat k < length (leases st)" "0 \<le> k" "k < int (length (leases st))"
      by linarith+
    then have "length (hwaddr ?l) = 6"
      using assms(1) by (simp add: wf_server_def)
    moreover from this True have "mem_bytes (hwaddr ?l) 0 (unat (dm_hlen msg)) = Some (take (unat (dm_hlen msg)) (hwaddr ?l))"
      by (simp add: mem_bytes_def block_at_def)
    then have "\<exists>taken. lease_taken ?l msg = Some taken"
      using c by (auto simp: lease_taken_def)
    moreover have "length (dm_chaddr msg) = 16"
      using assms(2) by (simp add: wf_msg_def)
    ultimately show ?thesis
      using k True by (auto simp: lease_index_def read_at_def write_at_def write_block_def)
  qed
  show ?thesis
  proof (cases req)
    case None
    with True n1 req assms(1) s(1) show ?thesis
      by (simp add: handle_dhcp_request_def)
  next
    case (Some ip)
    define k where "k = int (unat (ip ! 3)) - int (unat (first_client_addr st ! 3))"
    show ?thesis
    proof (cases "take 3 ip \<noteq> take 3 (first_client_addr st) \<or> k < 0 \<or> k \<ge> int (unat (max_leases st))")
      case out: True
      with True n1 req Some assms(1) s(1) show ?thesis
        by (auto simp: handle_dhcp_request_def k_def Let_def)
    next
      case False
      with step [of k] obtain i lease taken hw where i: "lease_index st k = Some i" "read_at (leases st) i = Some lease"
        "lease_taken lease msg = Some taken" "write_block (hwaddr lease) 0 (take (unat (dm_hlen msg)) (dm_chaddr msg)) = Some hw"
        "length hw = 6" "\<And>l. write_at (leases st) i l = Some ((leases st)[i := l])"
        by blast
      have w: "wf_server (st\<lparr>leases := (leases st)[i := lease\<lparr>hwaddr := hw, expires := 360000\<rparr>]\<rparr>)"
        using assms(1) i(5) by (intro wf_update) simp_all
      show ?thesis
        using True False n1 req Some assms(1) s i(1-4,6) w c
        unfolding handle_dhcp_request_def option_chains(3) [OF a]
        by (cases taken) (auto simp: k_def Let_def f)
    qed
  qed
qed (use assms(1) in \<open>auto simp: handle_dhcp_request_def Let_def same_server_def\<close>)

lemma handle_keeps:
  assumes "wf_server st" "wf_msg msg"
  shows "\<exists>st' n'. handle_msg env msg st n = Some (st', n') \<and> wf_server st' \<and> same_server st st'"
proof (cases rule: find_dhcp_option_inside [OF assms(2), of DHCP_OPTION_MESSAGE_TYPE 1, case_names absent found])
  case absent
  then show ?thesis
    using assms(1) by (simp add: handle_msg_def same_server_def)
next
  case (found p)
  then have "read_at (dm_options msg) p = Some (dm_options msg ! p)"
    by (simp add: read_at_def)
  moreover have "same_server st st"
    by (simp add: same_server_def)
  ultimately show ?thesis
    using found(1) discover [OF assms, of n] request_keeps [OF assms, of n] release_keeps [OF assms] assms(1)
    by (auto simp: handle_msg_def)
qed

lemma round_keeps:
  assumes "wf_server st"
  shows "\<exists>st' n'. dhcp_round env st n = Some (st', n') \<and> wf_server st' \<and> same_server st st'"
proof -
  obtain err nb n1 where r: "dn_recv env n = (err, nb, n1)"
    by (metis prod.exhaust)
  show ?thesis
  proof (cases "err = 0")
    case True
    then obtain b where b: "nb = Some b"
      using recv_buffer [of n nb n1] r by auto
    obtain now n2 where t: "dn_ticks env n1 = (now, n2)"
      by fastforce
    let ?bs = "pbuf_copy_partial (pbufs b) DHCP_MSG_SIZE 0"
    have "length (?bs @ replicate (DHCP_MSG_SIZE - length ?bs) 0) = DHCP_MSG_SIZE"
      by (simp add: pbuf_copy_partial_eq block_at_def)
    then have m: "wf_msg (bytes_msg (?bs @ replicate (DHCP_MSG_SIZE - length ?bs) 0))"
      by (rule wf_bytes_msg)
    have s: "same_server st (expire_leases now st)"
      by (simp add: same_server_def expire_leases_def)
    show ?thesis
      using r True b t s wf_expire [OF assms, of now] handle_keeps [OF wf_expire [OF assms] m, of now "dn_delete env n2"]
      by (auto simp: dhcp_round_def Let_def same_server_def)
  qed (use r assms in \<open>simp add: dhcp_round_def same_server_def\<close>)
qed

end

section \<open>A network\<close>

text \<open>The network of the examples: what will be received and when, and what was sent.\<close>

type_synonym sim_lan = "(netbuf \<times> u32) list \<times> u32 \<times> byte list list"

definition sim_dhcp :: "sim_lan dhcp_env" where
  "sim_dhcp =
     \<lparr>dn_recv = (\<lambda>(q, now, s). case q of [] \<Rightarrow> (- 3, None, (q, now, s)) | (nb, t) # q1 \<Rightarrow> (0, Some nb, (q1, t, s))),
      dn_alloc = Pair True, dn_sendto = (\<lambda>bs (q, now, s). (q, now, s @ [bs])), dn_delete = id,
      dn_ticks = (\<lambda>(q, now, s). (now, (q, now, s))), dn_uninit_ip = [1, 2, 3, 4]\<rparr>"

abbreviation sim_sent :: "sim_lan \<Rightarrow> byte list list" where
  "sim_sent n \<equiv> snd (snd n)"

interpretation lan: dhcp_net sim_dhcp sim_sent
  by unfold_locales (auto simp: sim_dhcp_def split: list.splits prod.splits)

definition lan_server :: server_state_t where
  "lan_server = dhcpserver_start [172, 16, 0, 2] 4 [172, 16, 0, 1] [255, 255, 255, 0]"

definition lan_msg :: "byte \<Rightarrow> byte list \<Rightarrow> dhcp_msg" where
  "lan_msg c opts = \<lparr>dm_op = 1, dm_htype = 1, dm_hlen = 6, dm_hops = 0, dm_xid = [1, 2, 3, 4], dm_secs = [0, 0], dm_flags = [0, 0],
     dm_ciaddr = replicate 4 0, dm_yiaddr = replicate 4 0, dm_siaddr = replicate 4 0, dm_giaddr = replicate 4 0,
     dm_chaddr = [2, 0, 0, 0, 0, c] @ replicate 10 0, dm_sname = replicate 64 0, dm_file = replicate 128 0,
     dm_cookie = [0x63, 0x82, 0x53, 0x63], dm_options = lay (replicate 312 0) opts\<rparr>"

lemma lan_msg: "length opts \<le> 312 \<Longrightarrow> wf_msg (lan_msg c opts)"
  by (simp add: wf_msg_def lan_msg_def)

lemma lan_server: "wf_server lan_server"
  unfolding lan_server_def by (rule wf_start) simp_all

lemma lan_requested:
  "requested_ip sim_dhcp (lan_msg c ([53, 1, 3, 50, 4, x1, x2, x3, x4, 255])) = Some (Some [x1, x2, x3, x4])"
proof -
  let ?o = "lay (replicate 312 0) [53, 1, 3, 50, 4, x1, x2, x3, x4, 255 :: byte]"
  have l: "length ?o = 312"
    by (simp add: lay_def)
  have "find_option_loop ?o 50 4 0 = find_option_loop ?o 50 4 3"
    by (subst find_option_unfold [OF l]) (simp add: lay_def nth_append numeral_3_eq_3)
  also have "\<dots> = Some (Some 5)"
    by (subst find_option_unfold [OF l]) (simp add: lay_def nth_append)
  finally show ?thesis
    by (simp add: requested_ip_def find_dhcp_option_def lan_msg_def mem_bytes_def block_at_def lay_def)
qed

section \<open>Properties\<close>

text \<open>The states the server goes through from its start.\<close>

inductive dhcp_reachable :: "'n dhcp_env \<Rightarrow> server_state_t \<Rightarrow> server_state_t \<Rightarrow> 'n \<Rightarrow> bool" for env st0 where
  started: "dhcp_reachable env st0 st0 n"
| served: "dhcp_reachable env st0 st n \<Longrightarrow> dhcp_round env st n = Some (st', n') \<Longrightarrow> dhcp_reachable env st0 st' n'"

text \<open>
  C14: the server is safe against any packets. Whatever is received (packets of any length and
  contents, in any order), every round returns, provided that lwIP can allocate the buffers of the
  replies: no byte outside the options of a message and no byte outside a hardware address is read
  or written, and no slot outside the table is used. The table keeps its size and its entries theirs, and the
  configuration stays as it was at the start.
\<close>

theorem dhcp_server_safe:
  assumes "dhcp_net env sent" "length addr = 4" "length ip = 4" "length netmask = 4"
    and "dhcp_reachable env (dhcpserver_start addr k ip netmask) st n"
  shows "(\<exists>st' n'. dhcp_round env st n = Some (st', n')) \<and> max_leases st = k \<and> length (leases st) = unat k \<and>
    (\<forall>l\<in>set (leases st). length (hwaddr l) = 6) \<and> first_client_addr st = addr \<and> if_ip_addr st = ip \<and> if_netmask st = netmask"
proof -
  have "wf_server st \<and> same_server (dhcpserver_start addr k ip netmask) st"
    using assms(5)
  proof (induction rule: dhcp_reachable.induct)
    case (started n)
    then show ?case
      using wf_start [OF assms(2-4)] by (simp add: same_server_def)
  next
    case (served st n st' n')
    then show ?case
      using dhcp_net.round_keeps [OF assms(1), of st n] by (auto simp: same_server_def)
  qed
  then show ?thesis
    using dhcp_net.round_keeps [OF assms(1), of st n] by (auto simp: wf_server_def same_server_def dhcpserver_start_def)
qed

theorem dhcp_server_safe_witness:
  "(\<exists>st' n'. dhcp_round sim_dhcp lan_server ([], 0, []) = Some (st', n')) \<and> length (leases lan_server) = 4"
  using dhcp_server_safe [OF lan.dhcp_net_axioms _ _ _ dhcp_reachable.started, of "[172, 16, 0, 2]" "[172, 16, 0, 1]" "[255, 255, 255, 0]" 4 "([], 0, [])"]
  by (simp add: lan_server_def)

text \<open>
  C13: requests. The table is a map from the addresses of the range to the clients that hold
  them. A client of the usual kind (Ethernet, six bytes) that asks for an address gets it, with an
  acknowledgement that carries the address, exactly if the address is in the range and nobody else
  holds it; the map then has the client at this address and is the same elsewhere. Otherwise a refusal
  is sent and nothing changes.
\<close>

theorem dhcp_request_refines_map:
  assumes "dhcp_net env sent" "wf_server st" "wf_msg msg" "dm_htype msg = DHCP_HTYPE_ETH" "dm_hlen msg = 6"
    and "requested_ip env msg = Some (Some ip)" "hw = take 6 (dm_chaddr msg)"
  shows "\<exists>st' n' reply. handle_dhcp_request env msg st n = Some (st', n') \<and> sent n' = sent n @ [msg_bytes reply] \<and>
    dm_xid reply = dm_xid msg \<and> dm_chaddr reply = dm_chaddr msg \<and>
    (case slot_of st ip of
       Some i \<Rightarrow>
         if holder st i = None \<or> holder st i = Some hw
         then holder st' = (holder st)(i := Some hw) \<and> dm_yiaddr reply = ip \<and> dm_options reply = ack_options (if_ip_addr st) (if_netmask st)
         else st' = st \<and> dm_options reply = nak_options (if_ip_addr st)
     | None \<Rightarrow> st' = st \<and> dm_options reply = nak_options (if_ip_addr st))"
proof -
  obtain st' n' where r: "handle_dhcp_request env msg st n = Some (st', n')"
    "case granted st hw ip of
       None \<Rightarrow> st' = st \<and> sent n' = sent n @ [msg_bytes (nak_msg st msg)]
     | Some i \<Rightarrow> st' = st\<lparr>leases := (leases st)[i := \<lparr>hwaddr = hw, expires = 360000\<rparr>]\<rparr> \<and>
         sent n' = sent n @ [msg_bytes (ack_msg st ip msg)]"
    using dhcp_net.request [OF assms(1-7), of n] by blast
  show ?thesis
  proof (cases "granted st hw ip")
    case None
    then show ?thesis
      using r by (intro exI [of _ st'] exI [of _ n'] exI [of _ "nak_msg st msg"]) (auto simp: granted_def nak_msg_def split: option.splits if_splits)
  next
    case (Some i)
    then have s: "slot_of st ip = Some i" "holder st i = None \<or> holder st i = Some hw"
      by (auto simp: granted_def split: option.splits if_splits)
    then have "i < length (leases st)"
      using assms(2) slot_of_less [of st ip i] by (simp add: wf_server_def)
    then have "holder (st\<lparr>leases := (leases st)[i := \<lparr>hwaddr = hw, expires = 360000\<rparr>]\<rparr>) = (holder st)(i := Some hw)"
      by (auto simp: holder_def nth_list_update)
    then show ?thesis
      using r s Some by (intro exI [of _ st'] exI [of _ n'] exI [of _ "ack_msg st ip msg"]) (simp add: ack_msg_def)
  qed
qed

theorem dhcp_request_refines_map_witness:
  "\<exists>st' n' reply. handle_dhcp_request sim_dhcp (lan_msg 7 [53, 1, 3, 50, 4, 172, 16, 0, 3, 255]) lan_server ([], 0, []) = Some (st', n') \<and>
     sim_sent n' = [msg_bytes reply] \<and> dm_yiaddr reply = [172, 16, 0, 3] \<and> holder st' = (holder lan_server)(1 := Some [2, 0, 0, 0, 0, 7])"
proof -
  let ?m = "lan_msg 7 [53, 1, 3, 50, 4, 172, 16, 0, 3, 255]"
  have "slot_of lan_server [172, 16, 0, 3] = Some 1" "holder lan_server 1 = None"
    by (simp_all add: slot_of_def lan_server_def dhcpserver_start_def holder_def)
  moreover have "dm_htype ?m = 1" "dm_hlen ?m = 6" "[2, 0, 0, 0, 0, 7] = take 6 (dm_chaddr ?m)"
    by (simp_all add: lan_msg_def)
  ultimately show ?thesis
    using dhcp_request_refines_map [OF lan.dhcp_net_axioms lan_server lan_msg _ _ lan_requested, of 172 16 0 3 7 _ "([], 0, [])"]
    by auto
qed

text \<open>
  C15: an offered address is granted. When the range does not run over the last octet, the offer
  for a discover message names an address of the range, and a later request of the same client for it
  is acknowledged with that address, if no other client was served in between, however much time has
  passed. There is no offer exactly if every address is held by another client.
\<close>

theorem dhcp_offer_granted:
  assumes "dhcp_net env sent" "wf_server st" "unat (first_client_addr st ! 3) + unat (max_leases st) \<le> 256"
    and "wf_msg msg" "dm_htype msg = DHCP_HTYPE_ETH" "dm_hlen msg = 6"
    and "wf_msg msg2" "dm_htype msg2 = DHCP_HTYPE_ETH" "dm_hlen msg2 = 6" "dm_chaddr msg2 = dm_chaddr msg"
  shows "\<exists>n' offer. handle_dhcp_discover env msg st n = Some (st, n') \<and> sent n' = sent n @ map msg_bytes offer \<and>
    (offer = [] \<longleftrightarrow> (\<forall>l\<in>set (leases st). expires l \<noteq> 0 \<and> hwaddr l \<noteq> take 6 (dm_chaddr msg))) \<and>
    (\<forall>m\<in>set offer. \<exists>i < unat (max_leases st). dm_yiaddr m = (first_client_addr st)[3 := first_client_addr st ! 3 + of_nat i]) \<and>
    (\<forall>m\<in>set offer. requested_ip env msg2 = Some (Some (dm_yiaddr m)) \<longrightarrow>
      (\<exists>st2 n2. handle_dhcp_request env msg2 (expire_leases now st) n' = Some (st2, n2) \<and>
        sent n2 = sent n' @ [msg_bytes (ack_msg st (dm_yiaddr m) msg2)] \<and> (\<exists>i. holder st2 i = Some (take 6 (dm_chaddr msg)))))"
proof -
  let ?hw = "take 6 (dm_chaddr msg)" and ?st = "expire_leases now st"
  have h6: "\<forall>l\<in>set (leases st). length (hwaddr l) = 6" and len: "length (leases st) = unat (max_leases st)" "length (first_client_addr st) = 4"
    using assms(2) by (simp_all add: wf_server_def)
  have none: "lease_scan (dm_chaddr msg) (leases st) 0 None = None \<longleftrightarrow> (\<forall>l\<in>set (leases st). expires l \<noteq> 0 \<and> hwaddr l \<noteq> ?hw)"
    using h6 len(1) by (auto simp: lease_scan_None)
  show ?thesis
  proof (cases "lease_scan (dm_chaddr msg) (leases st) 0 None")
    case None
    then show ?thesis
      using dhcp_net.discover [OF assms(1,2,4), of n] none by (auto intro!: exI [of _ "[]"])
  next
    case (Some i)
    let ?ip = "(first_client_addr st)[3 := first_client_addr st ! 3 + of_nat i]"
    let ?o = "msg\<lparr>dm_op := DHCP_BOOTREPLY, dm_yiaddr := ?ip, dm_options := offer_options (if_ip_addr st) (if_netmask st)\<rparr>"
    obtain n' where d: "handle_dhcp_discover env msg st n = Some (st, n')" "sent n' = sent n @ map msg_bytes [?o]"
      using dhcp_net.discover [OF assms(1,2,4), of n] Some assms(5,6) by auto
    have i: "i < unat (max_leases st)" "expires (leases st ! i) = 0 \<or> ?hw = hwaddr (leases st ! i)"
      using find_lease_slot_spec [OF assms(2) Some] by auto
    have fields: "max_leases ?st = max_leases st" "first_client_addr ?st = first_client_addr st" "if_ip_addr ?st = if_ip_addr st"
      "if_netmask ?st = if_netmask st" "length (leases ?st) = length (leases st)"
      by (simp_all add: expire_leases_def)
    have u: "unat (first_client_addr st ! 3 + of_nat i) = unat (first_client_addr st ! 3) + i"
      using i(1) assms(3) by (simp add: unat_word_ariths unat_of_nat)
    have "int i < uint (max_leases st)"
      using i(1) by (metis of_nat_less_iff uint_nat)
    then have slot: "slot_of ?st ?ip = Some i"
      using u len(2) by (simp add: slot_of_def fields Let_def)
    have "holder ?st i = None \<or> holder ?st i = Some ?hw"
      using i len(1) by (auto simp: holder_def expire_leases_def)
    with slot have g: "granted ?st ?hw ?ip = Some i"
      by (auto simp: granted_def)
    have "\<exists>st2 n2. handle_dhcp_request env msg2 ?st n' = Some (st2, n2) \<and>
        sent n2 = sent n' @ [msg_bytes (ack_msg st ?ip msg2)] \<and> (\<exists>i. holder st2 i = Some ?hw)" if "requested_ip env msg2 = Some (Some ?ip)"
      using dhcp_net.request [OF assms(1) wf_expire [OF assms(2)] assms(7-9) that, of ?hw now n'] assms(10) g i(1) len(1) fields
      by (auto simp: ack_msg_def holder_def intro!: exI [of _ i])
    with d Some none i(1) show ?thesis
      by (intro exI [of _ n'] exI [of _ "[?o]"]) auto
  qed
qed

definition lan_small :: server_state_t where
  "lan_small = dhcpserver_start [172, 16, 0, 2] 1 [172, 16, 0, 1] [255, 255, 255, 0]"

theorem dhcp_offer_granted_witness:
  "\<exists>n' m st2 n2. handle_dhcp_discover sim_dhcp (lan_msg 7 [53, 1, 1, 255]) lan_small ([], 0, []) = Some (lan_small, n') \<and>
     msg_bytes m \<in> set (sim_sent n') \<and> dm_yiaddr m = [172, 16, 0, 2] \<and>
     handle_dhcp_request sim_dhcp (lan_msg 7 [53, 1, 3, 50, 4, 172, 16, 0, 2, 255]) (expire_leases 1000 lan_small) n' = Some (st2, n2)"
proof -
  let ?d = "lan_msg 7 [53, 1, 1, 255]" and ?r = "lan_msg 7 [53, 1, 3, 50, 4, 172, 16, 0, 2, 255]"
  have st: "wf_server lan_small" "unat (first_client_addr lan_small ! 3) + unat (max_leases lan_small) \<le> 256"
    "\<not> (\<forall>l\<in>set (leases lan_small). expires l \<noteq> 0 \<and> hwaddr l \<noteq> take 6 (dm_chaddr ?d))"
    "first_client_addr lan_small = [172, 16, 0, 2]" "unat (max_leases lan_small) = 1"
    unfolding lan_small_def by (rule wf_start) (simp_all add: dhcpserver_start_def)
  have m: "wf_msg ?d" "dm_htype ?d = 1" "dm_hlen ?d = 6" "wf_msg ?r" "dm_htype ?r = 1" "dm_hlen ?r = 6" "dm_chaddr ?r = dm_chaddr ?d"
    by (simp_all add: lan_msg_def wf_msg_def)
  obtain n' offer where r: "handle_dhcp_discover sim_dhcp ?d lan_small ([], 0, []) = Some (lan_small, n')" "sim_sent n' = map msg_bytes offer" "offer \<noteq> []"
    and a: "\<forall>m\<in>set offer. \<exists>i < unat (max_leases lan_small). dm_yiaddr m = (first_client_addr lan_small)[3 := first_client_addr lan_small ! 3 + of_nat i]"
    and g: "\<forall>m\<in>set offer. requested_ip sim_dhcp ?r = Some (Some (dm_yiaddr m)) \<longrightarrow>
      (\<exists>st2 n2. handle_dhcp_request sim_dhcp ?r (expire_leases 1000 lan_small) n' = Some (st2, n2))"
    using dhcp_offer_granted [OF lan.dhcp_net_axioms st(1,2) m, of "([], 0, [])" 1000] st(3) by (simp only: snd_conv append_Nil) blast
  obtain m where mm: "m \<in> set offer"
    using r(3) by (meson list.set_sel(1))
  then have y: "dm_yiaddr m = [172, 16, 0, 2]"
    using a by (auto simp: st(4,5))
  then obtain st2 n2 where "handle_dhcp_request sim_dhcp ?r (expire_leases 1000 lan_small) n' = Some (st2, n2)"
    using bspec [OF g mm] lan_requested [of 7 172 16 0 2] by auto
  moreover have "msg_bytes m \<in> set (sim_sent n')"
    using r(2) mm by simp
  ultimately show ?thesis
    using r(1) y by blast
qed

text \<open>
  A lease does not last. The end of a lease is an absolute time, one hour after the start of the
  system, while its acknowledgement promises an hour from now. Once the system runs for more than
  an hour, a lease ends with the next packet that arrives, whatever it is: another client that
  then asks for the same address gets it too.
\<close>

theorem dhcp_address_given_twice:
  assumes "dhcp_net env sent" "wf_server st" "360000 < now" "slot_of st ip = Some i" "holder st i = None"
    and "wf_msg msg" "dm_htype msg = DHCP_HTYPE_ETH" "dm_hlen msg = 6" "requested_ip env msg = Some (Some ip)"
    and "wf_msg msg2" "dm_htype msg2 = DHCP_HTYPE_ETH" "dm_hlen msg2 = 6" "requested_ip env msg2 = Some (Some ip)"
    and "take 6 (dm_chaddr msg2) \<noteq> take 6 (dm_chaddr msg)"
  shows "\<exists>st' n' st'' n''. handle_dhcp_request env msg st n = Some (st', n') \<and> sent n' = sent n @ [msg_bytes (ack_msg st ip msg)] \<and>
    holder st' i = Some (take 6 (dm_chaddr msg)) \<and>
    handle_dhcp_request env msg2 (expire_leases now st') n' = Some (st'', n'') \<and> sent n'' = sent n' @ [msg_bytes (ack_msg st ip msg2)]"
proof -
  have i: "i < length (leases st)"
    using slot_of_less [OF assms(4)] assms(2) by (simp add: wf_server_def)
  let ?st = "st\<lparr>leases := (leases st)[i := \<lparr>hwaddr = take 6 (dm_chaddr msg), expires = 360000\<rparr>]\<rparr>"
  have "granted st (take 6 (dm_chaddr msg)) ip = Some i"
    using assms(4,5) by (simp add: granted_def)
  then obtain n' where r: "handle_dhcp_request env msg st n = Some (?st, n')" "sent n' = sent n @ [msg_bytes (ack_msg st ip msg)]"
    using dhcp_net.request [OF assms(1,2,6-9) refl, of n] by auto
  have wf: "wf_server (expire_leases now ?st)"
    using assms(2,6) by (intro wf_expire wf_update) (simp_all add: wf_msg_def)
  have "slot_of (expire_leases now ?st) ip = Some i" "holder (expire_leases now ?st) i = None"
    using assms(3,4) i by (simp_all add: slot_of_def expire_leases_def holder_def)
  then have "granted (expire_leases now ?st) (take 6 (dm_chaddr msg2)) ip = Some i"
    by (simp add: granted_def)
  then obtain st'' n'' where "handle_dhcp_request env msg2 (expire_leases now ?st) n' = Some (st'', n'')"
    "sent n'' = sent n' @ [msg_bytes (ack_msg (expire_leases now ?st) ip msg2)]"
    using dhcp_net.request [OF assms(1) wf assms(10-13) refl, of n'] by auto
  moreover have "ack_msg (expire_leases now ?st) ip msg2 = ack_msg st ip msg2"
    by (simp add: ack_msg_def expire_leases_def)
  moreover have "holder ?st i = Some (take 6 (dm_chaddr msg))"
    using i by (simp add: holder_def)
  ultimately show ?thesis
    using r by auto
qed

theorem dhcp_address_given_twice_witness:
  "\<exists>st' n' st'' n''. handle_dhcp_request sim_dhcp (lan_msg 7 [53, 1, 3, 50, 4, 172, 16, 0, 3, 255]) lan_server ([], 0, []) = Some (st', n') \<and>
     handle_dhcp_request sim_dhcp (lan_msg 8 [53, 1, 3, 50, 4, 172, 16, 0, 3, 255]) (expire_leases 360001 st') n' = Some (st'', n'') \<and>
     sim_sent n'' = [msg_bytes (ack_msg lan_server [172, 16, 0, 3] (lan_msg 7 [53, 1, 3, 50, 4, 172, 16, 0, 3, 255])),
       msg_bytes (ack_msg lan_server [172, 16, 0, 3] (lan_msg 8 [53, 1, 3, 50, 4, 172, 16, 0, 3, 255]))]"
proof -
  let ?m = "\<lambda>c. lan_msg c [53, 1, 3, 50, 4, 172, 16, 0, 3, 255]"
  have "slot_of lan_server [172, 16, 0, 3] = Some 1" "holder lan_server 1 = None"
    by (simp_all add: slot_of_def lan_server_def dhcpserver_start_def holder_def)
  moreover have "dm_htype (?m c) = 1" "dm_hlen (?m c) = 6" "take 6 (dm_chaddr (?m c)) = [2, 0, 0, 0, 0, c]" "wf_msg (?m c)" for c
    by (simp_all add: lan_msg_def wf_msg_def)
  ultimately have "\<exists>st' n' st'' n''. handle_dhcp_request sim_dhcp (?m 7) lan_server ([], 0, []) = Some (st', n') \<and>
      sim_sent n' = sim_sent ([], 0, []) @ [msg_bytes (ack_msg lan_server [172, 16, 0, 3] (?m 7))] \<and>
      holder st' 1 = Some (take 6 (dm_chaddr (?m 7))) \<and>
      handle_dhcp_request sim_dhcp (?m 8) (expire_leases 360001 st') n' = Some (st'', n'') \<and>
      sim_sent n'' = sim_sent n' @ [msg_bytes (ack_msg lan_server [172, 16, 0, 3] (?m 8))]"
    by (intro dhcp_address_given_twice [OF lan.dhcp_net_axioms lan_server] lan_requested) simp_all
  then show ?thesis
    by (elim exE conjE) (intro exI conjI, assumption+, simp)
qed

end
