(* ===== verification/Spiffs_Flash.thy ===== *)
theory Spiffs_Flash
  imports Spi_Flash
begin

unbundle bit_operations_syntax

text \<open>
  The flash layer under the file system, \<^verbatim>\<open>src/extras/spiffs/esp_spiffs_flash.c\<close>, with the two copying
  routines of \<^verbatim>\<open>src/extras/spiffs/unaligned_memcpy.S\<close> and the functions of
  \<^verbatim>\<open>src/extras/spiffs/esp_spiffs.c\<close> that the file system calls. Other than \<^verbatim>\<open>spi_flash.c\<close> it drives the
  SPI controller itself: an address register that also holds the length of a transfer, sixteen data
  registers and a command register. The chip is busy after each write and erase, and ignores
  commands then; the locale \<open>spi_controller\<close> keeps track of that.
\<close>

section \<open>The controller\<close>

datatype spi_cmd = SPI_CMD_READ | SPI_CMD_PP | SPI_CMD_SE

record 'd spi_port =
  spi_ADDR :: u32
  spi_W :: "byte list"
  spi_device :: 'd

text \<open>
  \<^verbatim>\<open>SPI_cmd\<close> stands for setting the command register and waiting until it is cleared;
  \<^verbatim>\<open>Wait_SPI_Idle\<close> and \<^verbatim>\<open>SPI_wren\<close> (\<^verbatim>\<open>SPI_write_enable\<close>) are functions of the boot ROM; \<^verbatim>\<open>enter_spi\<close>
  and \<^verbatim>\<open>exit_spi\<close> are the calls around an access. \<^verbatim>\<open>ram_after\<close> gives the bytes that follow an object.
\<close>

record 'd spiffs_env =
  spiffs_chip :: sdk_flashchip_t
  Wait_SPI_Idle :: "'d spi_port \<Rightarrow> 'd spi_port"
  SPI_wren :: "'d spi_port \<Rightarrow> 'd spi_port"
  SPI_cmd :: "spi_cmd \<Rightarrow> 'd spi_port \<Rightarrow> 'd spi_port"
  enter_spi :: "'d spi_port \<Rightarrow> 'd spi_port"
  exit_spi :: "'d spi_port \<Rightarrow> 'd spi_port"
  ram_after :: "nat \<Rightarrow> byte"

abbreviation (input) SPI_WRITE_MAX_SIZE :: nat where "SPI_WRITE_MAX_SIZE \<equiv> 64"
abbreviation (input) SPI_READ_MAX_SIZE :: nat where "SPI_READ_MAX_SIZE \<equiv> 60"
abbreviation (input) ESP_SPIFFS_FLASH_OK :: int where "ESP_SPIFFS_FLASH_OK \<equiv> 0"
abbreviation (input) ESP_SPIFFS_FLASH_ERROR :: int where "ESP_SPIFFS_FLASH_ERROR \<equiv> 1"

section \<open>Copying\<close>

text \<open>
  \<^verbatim>\<open>memcpy_unaligned_src\<close> loads whole words around the source and shifts them, so up to three bytes
  behind the data are copied with its last word.
\<close>

definition memcpy_unaligned_src :: "(nat \<Rightarrow> byte) \<Rightarrow> byte list \<Rightarrow> byte list \<Rightarrow> nat \<Rightarrow> byte list" where
  "memcpy_unaligned_src after dst src words = take (4 * words) (src @ map after [0..<3]) @ drop (4 * words) dst"

text \<open>
  \<^verbatim>\<open>memcpy_unaligned_dst\<close> stores whole words if the number of bytes is a multiple of four, whatever the
  address is: at an address that is not a multiple of four, \<^term>\<open>None\<close>, the processor
  raises an exception.
\<close>

definition memcpy_unaligned_dst :: "nat \<Rightarrow> byte list \<Rightarrow> nat \<Rightarrow> byte list option" where
  "memcpy_unaligned_dst dst src bytes =
     (if bytes = 0 then Some []
      else if bytes mod 4 = 0 then (if dst mod 4 = 0 then Some (take bytes src) else None)
      else Some (take bytes src))"

section \<open>Writing\<close>

definition addr_reg :: "nat \<Rightarrow> nat \<Rightarrow> u32" where
  "addr_reg addr n = (of_nat addr AND 0x00FFFFFF) OR push_bit 24 (of_nat n)"

definition spi_write_data :: "'d spiffs_env \<Rightarrow> nat \<Rightarrow> byte list \<Rightarrow> nat \<Rightarrow> 'd spi_port \<Rightarrow> 'd spi_port option" where
  "spi_write_data env addr buf n p =
     (if length buf < n then None
      else let words = (if n mod 4 \<noteq> 0 then n div 4 + 1 else n div 4);
               p1 = Wait_SPI_Idle env p;
               p2 = p1\<lparr>spi_ADDR := addr_reg addr n\<rparr>;
               p3 = p2\<lparr>spi_W := memcpy_unaligned_src (ram_after env) (spi_W p2) buf words\<rparr>;
               p4 = SPI_wren env p3
        in Some (SPI_cmd env SPI_CMD_PP p4))"

function write_page_loop :: "'d spiffs_env \<Rightarrow> nat \<Rightarrow> byte list \<Rightarrow> nat \<Rightarrow> 'd spi_port \<Rightarrow> (int \<times> 'd spi_port) option" where
  "write_page_loop env dest_addr buf n p =
     (if n \<ge> SPI_WRITE_MAX_SIZE then
        do {
          p1 \<leftarrow> spi_write_data env dest_addr buf SPI_WRITE_MAX_SIZE p;
          if n - SPI_WRITE_MAX_SIZE < 1 then Some (ESP_SPIFFS_FLASH_OK, p1)
          else write_page_loop env (add32 dest_addr SPI_WRITE_MAX_SIZE) (drop SPI_WRITE_MAX_SIZE buf) (n - SPI_WRITE_MAX_SIZE) p1
        }
      else
        do {
          p1 \<leftarrow> spi_write_data env dest_addr buf n p;
          Some (ESP_SPIFFS_FLASH_OK, p1)
        })"
  by pat_completeness auto
termination
  by (relation "measure (\<lambda>(env, a, buf, n, p). n)") auto

declare write_page_loop.simps [simp del]

definition spi_write_page :: "'d spiffs_env \<Rightarrow> nat \<Rightarrow> byte list \<Rightarrow> nat \<Rightarrow> 'd spi_port \<Rightarrow> (int \<times> 'd spi_port) option" where
  "spi_write_page env dest_addr buf n p =
     (if page_size (spiffs_chip env) < add32 n (dest_addr mod page_size (spiffs_chip env)) then Some (ESP_SPIFFS_FLASH_ERROR, p)
      else if n < 1 then Some (ESP_SPIFFS_FLASH_OK, p)
      else write_page_loop env dest_addr buf n p)"

text \<open>The loop over the full pages counts them in eight bits.\<close>

partial_function (option) write_pages_loop ::
  "'d spiffs_env \<Rightarrow> nat \<Rightarrow> byte list \<Rightarrow> nat \<Rightarrow> byte \<Rightarrow> nat \<Rightarrow> 'd spi_port \<Rightarrow> (int \<times> nat \<times> 'd spi_port) option" where
  "write_pages_loop env addr dst pages i offset p =
     (if unat i \<noteq> pages then
        do {
          (r, p1) \<leftarrow> spi_write_page env (add32 addr offset) (drop offset dst) (page_size (spiffs_chip env)) p;
          if r \<noteq> 0 then Some (ESP_SPIFFS_FLASH_ERROR, offset, p1)
          else write_pages_loop env addr dst pages (i + 1) (add32 offset (page_size (spiffs_chip env))) p1
        }
      else Some (ESP_SPIFFS_FLASH_OK, offset, p))"

definition spi_write :: "'d spiffs_env \<Rightarrow> nat \<Rightarrow> byte list \<Rightarrow> nat \<Rightarrow> 'd spi_port \<Rightarrow> (int \<times> 'd spi_port) option" where
  "spi_write env addr dst n p =
     (if chip_size (spiffs_chip env) < add32 addr n then Some (ESP_SPIFFS_FLASH_ERROR, p)
      else let write_bytes_to_page = page_size (spiffs_chip env) - addr mod page_size (spiffs_chip env)
        in if n < write_bytes_to_page then spi_write_page env addr dst n p
           else do {
             (r, p1) \<leftarrow> spi_write_page env addr dst write_bytes_to_page p;
             if r \<noteq> 0 then Some (ESP_SPIFFS_FLASH_ERROR, p1)
             else do {
               (r2, offset, p2) \<leftarrow> write_pages_loop env addr dst ((n - write_bytes_to_page) div page_size (spiffs_chip env)) 0 write_bytes_to_page p1;
               if r2 \<noteq> 0 then Some (ESP_SPIFFS_FLASH_ERROR, p2)
               else spi_write_page env (add32 addr offset) (drop offset dst) (sub32 n offset) p2
             }
           })"

definition esp_spiffs_flash_write :: "'d spiffs_env \<Rightarrow> nat \<Rightarrow> byte list option \<Rightarrow> nat \<Rightarrow> 'd spi_port \<Rightarrow> (int \<times> 'd spi_port) option" where
  "esp_spiffs_flash_write env addr buf n p =
     (case buf of
        None \<Rightarrow> Some (ESP_SPIFFS_FLASH_ERROR, p)
      | Some data \<Rightarrow> do {
          (result, p1) \<leftarrow> spi_write env addr data n (enter_spi env p);
          Some (result, exit_spi env (Wait_SPI_Idle env p1))
        })"

section \<open>Reading\<close>

text \<open>
  The buffer is given by its address and its contents; the functions return the contents afterwards.
\<close>

definition read_block ::
  "'d spiffs_env \<Rightarrow> nat \<Rightarrow> nat \<Rightarrow> byte list \<Rightarrow> nat \<Rightarrow> nat \<Rightarrow> 'd spi_port \<Rightarrow> (byte list \<times> 'd spi_port) option" where
  "read_block env addr base buf pos n p =
     do {
       let p1 = SPI_cmd env SPI_CMD_READ (p\<lparr>spi_ADDR := addr_reg addr n\<rparr>);
       bs \<leftarrow> memcpy_unaligned_dst (base + pos) (spi_W p1) n;
       buf' \<leftarrow> write_block buf pos bs;
       Some (buf', p1)
     }"

function read_data_loop ::
  "'d spiffs_env \<Rightarrow> nat \<Rightarrow> nat \<Rightarrow> byte list \<Rightarrow> nat \<Rightarrow> nat \<Rightarrow> 'd spi_port \<Rightarrow> (byte list \<times> 'd spi_port) option" where
  "read_data_loop env addr base dst pos n p =
     (if n \<ge> SPI_READ_MAX_SIZE then
        do {
          (dst1, p1) \<leftarrow> read_block env addr base dst pos SPI_READ_MAX_SIZE p;
          read_data_loop env (add32 addr SPI_READ_MAX_SIZE) base dst1 (pos + SPI_READ_MAX_SIZE) (n - SPI_READ_MAX_SIZE) p1
        }
      else if n > 0 then read_block env addr base dst pos n p
      else Some (dst, p))"
  by pat_completeness auto
termination
  by (relation "measure (\<lambda>(env, a, base, dst, pos, n, p). n)") auto

declare read_data_loop.simps [simp del]

definition read_data ::
  "'d spiffs_env \<Rightarrow> nat \<Rightarrow> nat \<Rightarrow> byte list \<Rightarrow> nat \<Rightarrow> 'd spi_port \<Rightarrow> (int \<times> byte list \<times> 'd spi_port) option" where
  "read_data env addr base dst n p =
     (if n < 1 then Some (ESP_SPIFFS_FLASH_OK, dst, p)
      else if add32 addr n > chip_size (spiffs_chip env) then Some (ESP_SPIFFS_FLASH_ERROR, dst, p)
      else do {
        (dst1, p1) \<leftarrow> read_data_loop env addr base dst 0 n p;
        Some (ESP_SPIFFS_FLASH_OK, dst1, p1)
      })"

definition esp_spiffs_flash_read ::
  "'d spiffs_env \<Rightarrow> nat \<Rightarrow> (nat \<times> byte list) option \<Rightarrow> nat \<Rightarrow> 'd spi_port \<Rightarrow> (int \<times> (nat \<times> byte list) option \<times> 'd spi_port) option" where
  "esp_spiffs_flash_read env dest_addr buf n p =
     (case buf of
        None \<Rightarrow> Some (ESP_SPIFFS_FLASH_ERROR, None, p)
      | Some (base, dst) \<Rightarrow> do {
          (result, dst1, p1) \<leftarrow> read_data env dest_addr base dst n (enter_spi env p);
          Some (result, Some (base, dst1), exit_spi env p1)
        })"

section \<open>Erasing\<close>

definition esp_spiffs_flash_erase_sector :: "'d spiffs_env \<Rightarrow> nat \<Rightarrow> 'd spi_port \<Rightarrow> int \<times> 'd spi_port" where
  "esp_spiffs_flash_erase_sector env addr p =
     (if add32 addr (sector_size (spiffs_chip env)) > chip_size (spiffs_chip env) then (ESP_SPIFFS_FLASH_ERROR, p)
      else if (of_nat addr :: u32) AND 0xFFF \<noteq> 0 then (ESP_SPIFFS_FLASH_ERROR, p)
      else let p1 = SPI_wren env (enter_spi env p);
               p2 = SPI_cmd env SPI_CMD_SE (p1\<lparr>spi_ADDR := of_nat addr AND 0x00FFFFFF\<rparr>)
        in (ESP_SPIFFS_FLASH_OK, exit_spi env (Wait_SPI_Idle env p2)))"

section \<open>The functions the file system calls\<close>

text \<open>The error code \<^verbatim>\<open>SPIFFS_ERR_INTERNAL\<close> belongs to the file system and is a parameter.\<close>

abbreviation (input) SPIFFS_OK :: int where "SPIFFS_OK \<equiv> 0"

definition esp_spiffs_read ::
  "'d spiffs_env \<Rightarrow> int \<Rightarrow> nat \<Rightarrow> nat \<Rightarrow> (nat \<times> byte list) option \<Rightarrow> 'd spi_port \<Rightarrow> (int \<times> (nat \<times> byte list) option \<times> 'd spi_port) option" where
  "esp_spiffs_read env err_internal addr n dst p =
     do {
       (r, dst1, p1) \<leftarrow> esp_spiffs_flash_read env addr dst n p;
       Some (if r = ESP_SPIFFS_FLASH_ERROR then err_internal else SPIFFS_OK, dst1, p1)
     }"

definition esp_spiffs_write :: "'d spiffs_env \<Rightarrow> int \<Rightarrow> nat \<Rightarrow> nat \<Rightarrow> byte list option \<Rightarrow> 'd spi_port \<Rightarrow> (int \<times> 'd spi_port) option" where
  "esp_spiffs_write env err_internal addr n src p =
     do {
       (r, p1) \<leftarrow> esp_spiffs_flash_write env addr src n p;
       Some (if r = ESP_SPIFFS_FLASH_ERROR then err_internal else SPIFFS_OK, p1)
     }"

fun erase_sectors :: "'d spiffs_env \<Rightarrow> int \<Rightarrow> nat \<Rightarrow> nat list \<Rightarrow> 'd spi_port \<Rightarrow> int \<times> 'd spi_port" where
  "erase_sectors env err_internal addr [] p = (SPIFFS_OK, p)"
| "erase_sectors env err_internal addr (i # is) p =
     (let (r, p1) = esp_spiffs_flash_erase_sector env (add32 addr (4096 * i mod 2 ^ 32)) p
      in if r = ESP_SPIFFS_FLASH_ERROR then (err_internal, p1) else erase_sectors env err_internal addr is p1)"

definition esp_spiffs_erase :: "'d spiffs_env \<Rightarrow> int \<Rightarrow> nat \<Rightarrow> nat \<Rightarrow> 'd spi_port \<Rightarrow> int \<times> 'd spi_port" where
  "esp_spiffs_erase env err_internal addr n p = erase_sectors env err_internal addr [0..<n div 4096] p"

section \<open>System calls\<close>

text \<open>
  The calls of the C library that \<^verbatim>\<open>esp_spiffs.c\<close> provides. The file system is a parameter: its functions
  on a state of arbitrary type \<open>'f\<close> and the values of its flags. The console is the list of characters
  sent to the UART, followed by the state of the file system.
\<close>

record 'f spiffs_fs =
  FS_CREAT :: u32
  FS_APPEND :: u32
  FS_TRUNC :: u32
  FS_RDONLY :: u32
  FS_WRONLY :: u32
  FS_EXCL :: u32
  FS_open :: "byte list \<Rightarrow> u32 \<Rightarrow> int \<Rightarrow> 'f \<Rightarrow> int \<times> 'f"
  FS_write :: "int \<Rightarrow> byte list \<Rightarrow> 'f \<Rightarrow> int \<times> 'f"

text \<open>The values of \<^verbatim>\<open>sys/_default_fcntl.h\<close>.\<close>

abbreviation (input) O_RDONLY :: u32 where "O_RDONLY \<equiv> 0"
abbreviation (input) O_WRONLY :: u32 where "O_WRONLY \<equiv> 1"
abbreviation (input) O_RDWR :: u32 where "O_RDWR \<equiv> 2"
abbreviation (input) O_APPEND :: u32 where "O_APPEND \<equiv> 0x8"
abbreviation (input) O_CREAT :: u32 where "O_CREAT \<equiv> 0x200"
abbreviation (input) O_TRUNC :: u32 where "O_TRUNC \<equiv> 0x400"
abbreviation (input) O_EXCL :: u32 where "O_EXCL \<equiv> 0x800"

definition open_r :: "'f spiffs_fs \<Rightarrow> byte list \<Rightarrow> u32 \<Rightarrow> int \<Rightarrow> 'f \<Rightarrow> int \<times> 'f" where
  "open_r fs pathname flags mode f =
     (let f0 = FS_RDONLY fs;
          f1 = (if flags AND O_CREAT \<noteq> 0 then f0 OR FS_CREAT fs else f0);
          f2 = (if flags AND O_APPEND \<noteq> 0 then f1 OR FS_APPEND fs else f1);
          f3 = (if flags AND O_TRUNC \<noteq> 0 then f2 OR FS_TRUNC fs else f2);
          f4 = (if flags AND O_RDONLY \<noteq> 0 then f3 OR FS_RDONLY fs else f3);
          f5 = (if flags AND O_WRONLY \<noteq> 0 then f4 OR FS_WRONLY fs else f4);
          f6 = (if flags AND O_EXCL \<noteq> 0 then f5 OR FS_EXCL fs else f5)
      in FS_open fs pathname f6 mode f)"

fun put_chars :: "byte list \<Rightarrow> byte list \<Rightarrow> byte list" where
  "put_chars uart [] = uart"
| "put_chars uart (c # cs) =
     (if c = 13 then put_chars uart cs
      else if c = 10 then put_chars (uart @ [13, c]) cs
      else put_chars (uart @ [c]) cs)"

definition write_r :: "'f spiffs_fs \<Rightarrow> int \<Rightarrow> int \<Rightarrow> byte list \<Rightarrow> byte list \<times> 'f \<Rightarrow> int \<times> byte list \<times> 'f" where
  "write_r fs stdout_file fd ptr s =
     (if fd \<noteq> stdout_file then (let (r, f) = FS_write fs fd ptr (snd s) in (r, fst s, f))
      else (int (length ptr), put_chars (fst s) ptr, snd s))"

text \<open>
  A file opened for reading and writing is opened for reading only: the access mode is a number, not a
  set of bits, and the value for both is not looked at.
\<close>

lemma open_for_update_is_read_only: "open_r fs path (flags OR O_RDWR) mode f = open_r fs path flags mode f"
  by (simp add: open_r_def bit.conj_disj_distrib2)

text \<open>The console gets every line feed with one carriage return before it, and no other carriage returns.\<close>

lemma put_chars_lines: "put_chars uart cs = uart @ concat (map (\<lambda>c. if c = 10 then [13, 10] else [c]) (filter (\<lambda>c. c \<noteq> 13) cs))"
  by (induction cs arbitrary: uart) auto

end
