(* ===== verification/Spiffs_Store.thy ===== *)
theory Spiffs_Store
  imports Spiffs_Flash
begin

unbundle bit_operations_syntax

text \<open>
  What the file system gets from its flash layer: writes of any alignment program exactly the bytes given,
  what was written is read back, the chip is never left busy, and where this ends: writes that
  span 256 pages or more, and reads to unaligned buffers.
\<close>

section \<open>The address register\<close>

definition reg_addr :: "u32 \<Rightarrow> nat" where
  "reg_addr r = unat (r AND 0x00FFFFFF)"

definition reg_len :: "u32 \<Rightarrow> nat" where
  "reg_len r = unat (drop_bit 24 r)"

lemma mask_24: "(0x00FFFFFF :: u32) = mask 24"
  by (simp add: mask_eq_exp_minus_1)

lemma reg_addr_addr_reg: "addr < 2 ^ 24 \<Longrightarrow> reg_addr (addr_reg addr n) = addr"
proof -
  assume a: "addr < 2 ^ 24"
  have "addr_reg addr n AND 0x00FFFFFF = take_bit 24 (of_nat addr)"
    unfolding addr_reg_def mask_24 by (rule bit_word_eqI) (auto simp: bit_simps)
  moreover have "unat (take_bit 24 (of_nat addr :: u32)) = addr"
    using a by (simp add: unsigned_take_bit_eq take_bit_nat_eq_self unat_of_nat)
  ultimately show ?thesis
    by (simp add: reg_addr_def)
qed

lemma reg_len_addr_reg: "n < 256 \<Longrightarrow> reg_len (addr_reg addr n) = n"
proof -
  assume n: "n < 256"
  have "drop_bit 24 (addr_reg addr n) = take_bit 8 (of_nat n)"
    unfolding addr_reg_def mask_24 by (rule bit_word_eqI) (auto simp: bit_simps)
  moreover have "unat (take_bit 8 (of_nat n :: u32)) = n"
    using n by (simp add: unsigned_take_bit_eq take_bit_nat_eq_self unat_of_nat)
  ultimately show ?thesis
    by (simp add: reg_len_def)
qed

lemma erase_block_adjacent:
  "a + n + k \<le> length m \<Longrightarrow> erase_block (erase_block m a n) (a + n) k = erase_block m a (n + k)"
  by (rule nth_equalityI) (auto simp: nth_erase_block)

lemma programmed_in_erased:
  assumes "s \<le> a" "a + length bs \<le> s + n" "s + n \<le> length m"
  shows "prog_block (erase_block m s n) a bs = take s m @ replicate (a - s) 0xff @ bs @ replicate (s + n - (a + length bs)) 0xff @ drop (s + n) m"
  using assms by (intro nth_equalityI) (auto simp: nth_prog_block nth_erase_block nth_append)

lemma rest_of_page: "256 dvd a + (256 - a mod 256)" for a :: nat
proof -
  have "a mod 256 < 256" "a mod 256 \<le> a"
    by simp_all
  then have "a + (256 - a mod 256) = (a - a mod 256) + 256"
    by linarith
  then show ?thesis
    using dvd_add [OF dvd_minus_mod [of 256 a] dvd_refl] by simp
qed

section \<open>The controller and the chip\<close>

text \<open>
  The promises of controller, chip and boot ROM. Commands are only promised to work while the chip is
  idle, programming and erasing only after \<^verbatim>\<open>SPI_write_enable\<close>; after both the chip is busy, and
  programming has to stay in one page. The ROM functions keep the registers.
\<close>

locale spi_controller =
  fixes env :: "'d spiffs_env" and mem :: "'d \<Rightarrow> byte list" and idle wel :: "'d \<Rightarrow> bool"
  assumes chip_geometry: "chip_size (spiffs_chip env) \<le> 2 ^ 24" "page_size (spiffs_chip env) = 256" "sector_size (spiffs_chip env) = 4096"
    and size_of_mem: "length (mem d) = chip_size (spiffs_chip env)"
    and wait_idle: "idle (spi_device (Wait_SPI_Idle env p))" "mem (spi_device (Wait_SPI_Idle env p)) = mem (spi_device p)"
      "spi_W (Wait_SPI_Idle env p) = spi_W p"
    and enable: "idle (spi_device p) \<Longrightarrow> idle (spi_device (SPI_wren env p)) \<and> wel (spi_device (SPI_wren env p))"
      "mem (spi_device (SPI_wren env p)) = mem (spi_device p)" "spi_W (SPI_wren env p) = spi_W p" "spi_ADDR (SPI_wren env p) = spi_ADDR p"
    and program: "idle (spi_device p) \<Longrightarrow> wel (spi_device p) \<Longrightarrow> a = reg_addr (spi_ADDR p) \<Longrightarrow> n = reg_len (spi_ADDR p) \<Longrightarrow> n \<le> length (spi_W p) \<Longrightarrow>
        a mod 256 + n \<le> 256 \<Longrightarrow> a + n \<le> chip_size (spiffs_chip env) \<Longrightarrow>
        mem (spi_device (SPI_cmd env SPI_CMD_PP p)) = prog_block (mem (spi_device p)) a (take n (spi_W p))"
    and read: "idle (spi_device p) \<Longrightarrow> a = reg_addr (spi_ADDR p) \<Longrightarrow> n = reg_len (spi_ADDR p) \<Longrightarrow> n \<le> 60 \<Longrightarrow> a + n \<le> chip_size (spiffs_chip env) \<Longrightarrow>
        idle (spi_device (SPI_cmd env SPI_CMD_READ p)) \<and> mem (spi_device (SPI_cmd env SPI_CMD_READ p)) = mem (spi_device p) \<and>
        take n (spi_W (SPI_cmd env SPI_CMD_READ p)) = block_at a n (mem (spi_device p))"
    and erase: "idle (spi_device p) \<Longrightarrow> wel (spi_device p) \<Longrightarrow> a = reg_addr (spi_ADDR p) \<Longrightarrow> 4096 dvd a \<Longrightarrow> a + 4096 \<le> chip_size (spiffs_chip env) \<Longrightarrow>
        mem (spi_device (SPI_cmd env SPI_CMD_SE p)) = erase_block (mem (spi_device p)) a 4096"
    and registers: "length (spi_W p) = 64 \<Longrightarrow> length (spi_W (SPI_cmd env c p)) = 64"
    and around: "mem (spi_device (enter_spi env p)) = mem (spi_device p)" "mem (spi_device (exit_spi env p)) = mem (spi_device p)"
      "idle (spi_device p) \<Longrightarrow> idle (spi_device (enter_spi env p))" "idle (spi_device p) \<Longrightarrow> idle (spi_device (exit_spi env p))"
      "spi_W (enter_spi env p) = spi_W p" "spi_W (exit_spi env p) = spi_W p"
begin

abbreviation "port_mem p \<equiv> mem (spi_device p)"
abbreviation "ready p \<equiv> idle (spi_device p) \<and> length (spi_W p) = 64"

lemma copied_words:
  assumes "n \<le> 4 * w" "4 * w \<le> n + 3" "4 * w \<le> 64" "n \<le> length buf" "length W = 64"
  shows "length (memcpy_unaligned_src after W buf w) = 64" "take n (memcpy_unaligned_src after W buf w) = take n buf"
  using assms by (auto simp: memcpy_unaligned_src_def min_def)

lemma write_data:
  assumes "0 < n" "n \<le> 64" "n \<le> length buf" "a mod 256 + n \<le> 256" "a + n \<le> chip_size (spiffs_chip env)" "length (spi_W p) = 64"
  shows "\<exists>p'. spi_write_data env a buf n p = Some p' \<and> port_mem p' = prog_block (port_mem p) a (take n buf) \<and> length (spi_W p') = 64"
proof -
  define w where "w = (if n mod 4 \<noteq> 0 then n div 4 + 1 else n div 4)"
  have w: "n \<le> 4 * w" "4 * w \<le> n + 3" "4 * w \<le> 64"
    using assms(2) unfolding w_def by (simp_all split: if_split) presburger+
  define p3 where "p3 = (Wait_SPI_Idle env p)\<lparr>spi_ADDR := addr_reg a n, spi_W := memcpy_unaligned_src (ram_after env) (spi_W p) buf w\<rparr>"
  let ?p4 = "SPI_wren env p3"
  have c: "length (spi_W p3) = 64" "take n (spi_W p3) = take n buf"
    using copied_words [OF w assms(3,6)] by (simp_all add: p3_def)
  have r: "reg_addr (spi_ADDR ?p4) = a" "reg_len (spi_ADDR ?p4) = n"
    using assms(2,5) chip_geometry(1) \<open>0 < n\<close> by (simp_all add: enable p3_def reg_addr_addr_reg reg_len_addr_reg)
  have "idle (spi_device p3)" "port_mem p3 = port_mem p"
    by (simp_all add: p3_def wait_idle)
  then have "port_mem (SPI_cmd env SPI_CMD_PP ?p4) = prog_block (port_mem p) a (take n buf)"
    using program [of ?p4 a n] r c assms(2,4,5) by (simp add: enable)
  moreover have "spi_write_data env a buf n p = Some (SPI_cmd env SPI_CMD_PP ?p4)"
    using assms(3) by (simp add: spi_write_data_def Let_def p3_def wait_idle w_def)
  ultimately show ?thesis
    using registers [of ?p4] c(1) by (auto simp: enable)
qed

lemma write_page_loop:
  assumes "0 < n" "n \<le> length buf" "a mod 256 + n \<le> 256" "a + n \<le> chip_size (spiffs_chip env)" "length (spi_W p) = 64"
  shows "\<exists>p'. write_page_loop env a buf n p = Some (0, p') \<and> port_mem p' = prog_block (port_mem p) a (take n buf) \<and> length (spi_W p') = 64"
  using assms
proof (induction n arbitrary: a buf p rule: less_induct)
  case (less n)
  note n = less.prems
  show ?case
  proof (cases "64 < n")
    case True
    then obtain p1 where p1: "spi_write_data env a buf 64 p = Some p1" "port_mem p1 = prog_block (port_mem p) a (take 64 buf)" "length (spi_W p1) = 64"
      using write_data [of 64 buf a p] n by auto
    have a: "add32 a 64 = a + 64" "(a + 64) mod 256 = a mod 256 + 64"
      using n(3,4) True chip_geometry(1) by (simp_all add: add32_no_wrap mod_add_eq [symmetric, of a])
    obtain p' where p': "write_page_loop env (a + 64) (drop 64 buf) (n - 64) p1 = Some (0, p')"
      "port_mem p' = prog_block (port_mem p1) (a + 64) (take (n - 64) (drop 64 buf))" "length (spi_W p') = 64"
      using less.IH [of "n - 64" "drop 64 buf" "a + 64" p1] n True p1(3) a(2) by (auto simp: diff_le_mono)
    have "prog_block (port_mem p1) (a + 64) (take (n - 64) (drop 64 buf)) = prog_block (port_mem p) a (take n buf)"
      using prog_block_append [of a "take 64 buf" "take (n - 64) (drop 64 buf)" "port_mem p"] n(2,4) True p1(2) size_of_mem take_add [of 64 "n - 64" buf]
      by (simp add: min_absorb2)
    moreover have "write_page_loop env a buf n p = write_page_loop env (a + 64) (drop 64 buf) (n - 64) p1"
      by (subst write_page_loop.simps) (use True p1(1) a(1) in simp)
    ultimately show ?thesis
      using p' by simp
  next
    case False
    then obtain p1 where "spi_write_data env a buf n p = Some p1" "port_mem p1 = prog_block (port_mem p) a (take n buf)" "length (spi_W p1) = 64"
      using write_data [of n buf a p] n by auto
    with False show ?thesis
      by (subst write_page_loop.simps) auto
  qed
qed

lemma write_page:
  assumes "n \<le> length buf" "a mod 256 + n \<le> 256" "a + n \<le> chip_size (spiffs_chip env)" "length (spi_W p) = 64"
  shows "\<exists>p'. spi_write_page env a buf n p = Some (0, p') \<and> port_mem p' = prog_block (port_mem p) a (take n buf) \<and> length (spi_W p') = 64"
proof (cases "n = 0")
  case True
  then show ?thesis
    using assms chip_geometry(2) by (simp add: spi_write_page_def add32_def)
next
  case False
  then have "spi_write_page env a buf n p = write_page_loop env a buf n p"
    using assms(2) chip_geometry(2) by (simp add: spi_write_page_def add32_no_wrap)
  then show ?thesis
    using write_page_loop [of n buf a p] assms False by simp
qed

text \<open>The loop over the full pages, as long as there are less than 256 of them.\<close>

lemma write_pages:
  assumes "unat i + k = pages" "pages < 256" "256 dvd a + off" "off + 256 * k \<le> length buf" "a + off + 256 * k \<le> chip_size (spiffs_chip env)" "length (spi_W p) = 64"
  shows "\<exists>p'. write_pages_loop env a buf pages i off p = Some (0, off + 256 * k, p') \<and>
    port_mem p' = prog_block (port_mem p) (a + off) (block_at off (256 * k) buf) \<and> length (spi_W p') = 64"
  using assms
proof (induction k arbitrary: i off p)
  case 0
  then show ?case
    by (subst write_pages_loop.simps) (simp add: block_at_def)
next
  case (Suc k)
  note n = Suc.prems
  have w: "add32 a off = a + off" "add32 off 256 = off + 256"
    using n(5) chip_geometry(1) by (simp_all add: add32_no_wrap)
  obtain p1 where p1: "spi_write_page env (a + off) (drop off buf) 256 p = Some (0, p1)"
    "port_mem p1 = prog_block (port_mem p) (a + off) (block_at off 256 buf)" "length (spi_W p1) = 64"
    using write_page [of 256 "drop off buf" "a + off" p] n by (fastforce simp: block_at_def le_diff_conv2)
  have i: "unat (i + 1) + k = pages"
    using n(1,2) by (simp add: unat_word_ariths)
  obtain p' where p': "write_pages_loop env a buf pages (i + 1) (off + 256) p1 = Some (0, off + 256 + 256 * k, p')"
    "port_mem p' = prog_block (port_mem p1) (a + (off + 256)) (block_at (off + 256) (256 * k) buf)" "length (spi_W p') = 64"
    using Suc.IH [OF i n(2), of "off + 256" p1] n p1(3) by (auto simp: add.assoc [symmetric])
  have l: "length (block_at off 256 buf) = 256" "length (block_at (off + 256) (256 * k) buf) = 256 * k"
    using n(4) by (simp_all add: block_at_length)
  have "prog_block (port_mem p1) (a + (off + 256)) (block_at (off + 256) (256 * k) buf) = prog_block (port_mem p) (a + off) (block_at off (256 * Suc k) buf)"
    using prog_block_append [of "a + off" "block_at off 256 buf" "block_at (off + 256) (256 * k) buf" "port_mem p"] l n(5) size_of_mem p1(2)
      block_at_split [of off 256 "256 * k" buf] by (simp add: add.assoc)
  moreover have "write_pages_loop env a buf pages i off p = write_pages_loop env a buf pages (i + 1) (off + 256) p1"
    by (subst write_pages_loop.simps) (use n(1) p1(1) w chip_geometry(2) in simp)
  ultimately show ?case
    using p' by simp
qed

lemma spi_write:
  assumes "n \<le> length buf" "a + n \<le> chip_size (spiffs_chip env)" "a mod 256 + n < 65792" "length (spi_W p) = 64"
  shows "\<exists>p'. spi_write env a buf n p = Some (0, p') \<and> port_mem p' = prog_block (port_mem p) a (take n buf) \<and> length (spi_W p') = 64"
proof -
  define f where "f = 256 - a mod 256"
  have c: "add32 a n = a + n"
    using assms(2) chip_geometry(1) by (simp add: add32_no_wrap)
  have ff: "f \<le> 256" "a mod 256 + f = 256" "256 dvd a + f"
    using rest_of_page [of a] by (simp_all add: f_def)
  show ?thesis
  proof (cases "n < f")
    case True
    then show ?thesis
      using write_page [of n buf a p] assms c chip_geometry(2) by (simp add: spi_write_def Let_def f_def)
  next
    case False
    define k where "k = (n - f) div 256"
    define off where "off = f + 256 * k"
    have "n = off + (n - f) mod 256" "(n - f) mod 256 < 256"
      using False div_mult_mod_eq [of "n - f" 256] unfolding off_def k_def by linarith simp
    moreover have "n - f < 65536"
      using assms(3) False ff(2) by linarith
    ultimately have k: "k < 256" "off \<le> n" "n - off < 256"
      unfolding k_def by linarith+
    have q: "f \<le> length buf" "a + f \<le> chip_size (spiffs_chip env)"
      using False assms(1,2) by linarith+
    obtain p1 where p1: "spi_write_page env a buf f p = Some (0, p1)" "port_mem p1 = prog_block (port_mem p) a (take f buf)" "length (spi_W p1) = 64"
      using write_page [OF q(1) eq_refl [OF ff(2)] q(2) assms(4)] by blast
    obtain p2 where p2: "write_pages_loop env a buf k 0 f p1 = Some (0, off, p2)"
      "port_mem p2 = prog_block (port_mem p1) (a + f) (block_at f (256 * k) buf)" "length (spi_W p2) = 64"
      using write_pages [of 0 k k a f buf p1] k assms ff(3) p1(3) by (auto simp: off_def)
    have "256 dvd a + off"
      using dvd_add [OF ff(3) dvd_triv_left [of 256 k]] by (simp add: off_def add.assoc)
    then have al: "(a + off) mod 256 = 0"
      by (rule dvd_imp_mod_0)
    obtain p3 where p3: "spi_write_page env (a + off) (drop off buf) (n - off) p2 = Some (0, p3)"
      "port_mem p3 = prog_block (port_mem p2) (a + off) (block_at off (n - off) buf)" "length (spi_W p3) = 64"
      using write_page [of "n - off" "drop off buf" "a + off" p2] k assms p2(3) al by (auto simp: block_at_def diff_le_mono)
    have l: "length (take f buf) = f" "length (block_at f (256 * k) buf) = 256 * k" "length (block_at off (n - off) buf) = n - off"
      using k assms(1) False by (simp_all add: block_at_length off_def)
    have "take n buf = take f buf @ block_at f (256 * k) buf @ block_at off (n - off) buf"
      using k take_add [of f "256 * k + (n - off)" buf] take_add [of "256 * k" "n - off" "drop f buf"]
      by (simp add: block_at_def off_def add.commute)
    then have "port_mem p3 = prog_block (port_mem p) a (take n buf)"
      using p1(2) p2(2) p3(2) l prog_block_append [of a "take f buf" "block_at f (256 * k) buf" "port_mem p"]
        prog_block_append [of a "take f buf @ block_at f (256 * k) buf" "block_at off (n - off) buf" "port_mem p"] assms(2) k size_of_mem
      by (simp add: off_def add.assoc)
    moreover have "add32 a off = a + off" "sub32 n off = n - off"
      using k(2) assms(2) chip_geometry(1) by (simp_all add: add32_no_wrap sub32_no_wrap)
    ultimately show ?thesis
      using p1 p2(1) p3 False c chip_geometry(2) assms(2) by (simp add: spi_write_def Let_def k_def f_def)
  qed
qed

lemma flash_write:
  assumes "n \<le> length buf" "a + n \<le> chip_size (spiffs_chip env)" "a mod 256 + n < 65792" "length (spi_W p) = 64"
  shows "\<exists>p'. esp_spiffs_flash_write env a (Some buf) n p = Some (0, p') \<and> port_mem p' = prog_block (port_mem p) a (take n buf) \<and> ready p'"
proof -
  obtain p1 where "spi_write env a buf n (enter_spi env p) = Some (0, p1)" "port_mem p1 = prog_block (port_mem p) a (take n buf)" "length (spi_W p1) = 64"
    using spi_write [OF assms(1-3), of "enter_spi env p"] assms(4) around by auto
  then show ?thesis
    using wait_idle around by (simp add: esp_spiffs_flash_write_def)
qed

text \<open>A block that is copied without an exception: not a multiple of four bytes, or to an aligned address.\<close>

lemma read_block:
  assumes "n \<le> 60" "a + n \<le> chip_size (spiffs_chip env)" "4 dvd n \<longrightarrow> 4 dvd base + pos" "pos + n \<le> length buf" "0 < n" "ready p"
  shows "\<exists>p'. read_block env a base buf pos n p = Some (take pos buf @ block_at a n (port_mem p) @ drop (pos + n) buf, p') \<and> port_mem p' = port_mem p \<and> ready p'"
proof -
  define p1 where "p1 = SPI_cmd env SPI_CMD_READ (p\<lparr>spi_ADDR := addr_reg a n\<rparr>)"
  have "reg_addr (addr_reg a n) = a" "reg_len (addr_reg a n) = n"
    using assms(1,2,5) chip_geometry(1) by (simp_all add: reg_addr_addr_reg reg_len_addr_reg)
  then have p1: "ready p1" "port_mem p1 = port_mem p" "take n (spi_W p1) = block_at a n (port_mem p)"
    using read [of "p\<lparr>spi_ADDR := addr_reg a n\<rparr>" a n] registers [of "p\<lparr>spi_ADDR := addr_reg a n\<rparr>" SPI_CMD_READ] assms(1,2,6) by (simp_all add: p1_def)
  have "memcpy_unaligned_dst (base + pos) (spi_W p1) n = Some (block_at a n (port_mem p))"
    using assms(3,5) p1(3) by (auto simp: memcpy_unaligned_dst_def dvd_eq_mod_eq_0)
  moreover have "write_block buf pos (block_at a n (port_mem p)) = Some (take pos buf @ block_at a n (port_mem p) @ drop (pos + n) buf)"
    using assms(2,4) size_of_mem by (simp add: write_block_def block_at_length)
  ultimately show ?thesis
    using p1 by (simp add: read_block_def p1_def [symmetric])
qed

lemma read_loop:
  assumes "a + n \<le> chip_size (spiffs_chip env)" "4 dvd base + pos \<or> (n < 60 \<and> \<not> 4 dvd n)" "pos + n \<le> length buf" "ready p"
  shows "\<exists>p'. read_data_loop env a base buf pos n p = Some (take pos buf @ block_at a n (port_mem p) @ drop (pos + n) buf, p') \<and> port_mem p' = port_mem p \<and> ready p'"
  using assms
proof (induction n arbitrary: a buf pos p rule: less_induct)
  case (less n)
  note n = less.prems
  show ?case
  proof (cases "60 \<le> n")
    case True
    then have d: "4 dvd base + pos"
      using n(2) by auto
    let ?b = "take pos buf @ block_at a 60 (port_mem p) @ drop (pos + 60) buf"
    obtain p1 where p1: "read_block env a base buf pos 60 p = Some (?b, p1)" "port_mem p1 = port_mem p" "ready p1"
      using read_block [of 60 a base pos buf p] n True d by auto
    have l: "length (block_at a 60 (port_mem p)) = 60" "length ?b = length buf"
      using n(1,3) True size_of_mem by (simp_all add: block_at_length)
    have "4 dvd base + (pos + 60)"
      using d by (simp add: add.assoc [symmetric])
    then obtain p' where p': "read_data_loop env (a + 60) base ?b (pos + 60) (n - 60) p1 =
        Some (take (pos + 60) ?b @ block_at (a + 60) (n - 60) (port_mem p) @ drop (pos + 60 + (n - 60)) ?b, p')" "port_mem p' = port_mem p" "ready p'"
      using less.IH [of "n - 60" "a + 60" "pos + 60" ?b p1] n True l p1 by auto
    have "take (pos + 60) ?b @ block_at (a + 60) (n - 60) (port_mem p) @ drop (pos + 60 + (n - 60)) ?b =
        take pos buf @ block_at a n (port_mem p) @ drop (pos + n) buf"
      using True n(3) l block_at_split [of a 60 "n - 60" "port_mem p"] by (simp add: add.commute)
    moreover have "read_data_loop env a base buf pos n p = read_data_loop env (a + 60) base ?b (pos + 60) (n - 60) p1"
      by (subst read_data_loop.simps) (use True p1(1) n(1) chip_geometry(1) in \<open>simp add: add32_no_wrap\<close>)
    ultimately show ?thesis
      using p' by simp
  next
    case False
    show ?thesis
    proof (cases "n = 0")
      case True
      then show ?thesis
        using n(4) by (subst read_data_loop.simps) (simp add: block_at_def)
    next
      case n0: False
      then show ?thesis
        using read_block [of n a base pos buf p] n False by (subst read_data_loop.simps) auto
    qed
  qed
qed

lemma flash_read:
  assumes "a + n \<le> chip_size (spiffs_chip env)" "4 dvd base \<or> (n < 60 \<and> \<not> 4 dvd n)" "n \<le> length buf" "ready p"
  shows "\<exists>p'. esp_spiffs_flash_read env a (Some (base, buf)) n p = Some (0, Some (base, block_at a n (port_mem p) @ drop n buf), p') \<and> port_mem p' = port_mem p \<and> ready p'"
proof (cases "n = 0")
  case True
  then show ?thesis
    using assms(4) around by (simp add: esp_spiffs_flash_read_def read_data_def block_at_def)
next
  case False
  have "add32 a n = a + n"
    using assms(1) chip_geometry(1) by (simp add: add32_no_wrap)
  then show ?thesis
    using read_loop [of a n base 0 buf "enter_spi env p"] assms around False
    by (auto simp: esp_spiffs_flash_read_def read_data_def)
qed

lemma flash_erase_sector:
  assumes "4096 dvd a" "a + 4096 \<le> chip_size (spiffs_chip env)" "ready p"
  shows "\<exists>p'. esp_spiffs_flash_erase_sector env a p = (0, p') \<and> port_mem p' = erase_block (port_mem p) a 4096 \<and> ready p'"
proof -
  have m: "(0xFFF :: u32) = mask 12"
    by (simp add: mask_eq_exp_minus_1)
  have "take_bit 12 (of_nat a :: u32) = of_nat (take_bit 12 a)"
    by (rule take_bit_of_nat)
  also have "take_bit 12 a = 0"
    using assms(1) by (simp add: take_bit_eq_mod)
  finally have a: "(of_nat a :: u32) AND 0xFFF = 0"
    unfolding m take_bit_eq_mask [symmetric] by simp
  have a': "add32 a 4096 = a + 4096"
    using assms(2) chip_geometry(1) by (simp add: add32_no_wrap)
  define p1 where "p1 = (SPI_wren env (enter_spi env p))\<lparr>spi_ADDR := of_nat a AND 0x00FFFFFF\<rparr>"
  have r: "a = reg_addr (spi_ADDR p1)"
    using reg_addr_addr_reg [of a 0] assms(2) chip_geometry(1) by (simp add: addr_reg_def p1_def)
  have i: "idle (spi_device p1)" "wel (spi_device p1)" "port_mem p1 = port_mem p" "length (spi_W p1) = 64"
    using assms(3) enable [of "enter_spi env p"] around by (simp_all add: p1_def)
  have "port_mem (SPI_cmd env SPI_CMD_SE p1) = erase_block (port_mem p) a 4096"
    using erase [OF i(1,2) r assms(1,2)] i(3) by simp
  then show ?thesis
    using a a' assms(2) wait_idle around registers [OF i(4)] chip_geometry(3)
    by (simp add: esp_spiffs_flash_erase_sector_def Let_def p1_def)
qed

lemma erase_sectors:
  assumes "4096 dvd a" "a + 4096 * k \<le> chip_size (spiffs_chip env)" "j \<le> k" "ready p"
  shows "\<exists>p'. erase_sectors env err a [j..<k] p = (0, p') \<and> port_mem p' = erase_block (port_mem p) (a + 4096 * j) (4096 * (k - j)) \<and> ready p'"
  using assms(3,4)
proof (induction "k - j" arbitrary: j p)
  case 0
  then show ?case
    by (simp add: erase_block_def)
next
  case (Suc l)
  then have u: "[j..<k] = j # [Suc j..<k]" "Suc j \<le> k" "l = k - Suc j" "4096 * (k - j) = 4096 + 4096 * (k - Suc j)"
    by (simp_all add: upt_conv_Cons)
  have "add32 a (4096 * j mod 2 ^ 32) = a + 4096 * j" "4096 dvd a + 4096 * j" "a + 4096 * j + 4096 \<le> chip_size (spiffs_chip env)"
    using assms(1,2) u(2) chip_geometry(1) by (simp_all add: add32_no_wrap)
  then obtain p1 where p1: "esp_spiffs_flash_erase_sector env (add32 a (4096 * j mod 2 ^ 32)) p = (0, p1)"
    "port_mem p1 = erase_block (port_mem p) (a + 4096 * j) 4096" "ready p1"
    using flash_erase_sector [of "a + 4096 * j" p] Suc.prems(2) by auto
  obtain p' where "erase_sectors env err a [Suc j..<k] p1 = (0, p')"
    "port_mem p' = erase_block (port_mem p1) (a + 4096 * Suc j) (4096 * (k - Suc j))" "ready p'"
    using Suc.hyps(1) [OF u(3,2) p1(3)] by blast
  then show ?case
    using p1(1,2) u erase_block_adjacent [of "a + 4096 * j" 4096 "4096 * (k - Suc j)" "port_mem p"] assms(2) size_of_mem
    by (simp add: add.assoc add.commute [of 4096])
qed

end

section \<open>Where it ends\<close>

lemma write_page_loop_Some: "write_page_loop env a buf n p = Some (r, p') \<Longrightarrow> n \<le> length buf \<and> r = 0"
proof (induction env a buf n p rule: write_page_loop.induct)
  case (1 env a buf n p)
  show ?case
  proof (cases "64 < n")
    case True
    then have n: "64 \<le> n" "\<not> n - 64 < 1"
      by simp_all
    obtain p1 where p1: "spi_write_data env a buf 64 p = Some p1" "write_page_loop env (add32 a 64) (drop 64 buf) (n - 64) p1 = Some (r, p')"
      using 1(2) True by (subst (asm) write_page_loop.simps) (auto simp: bind_eq_Some_conv)
    show ?thesis
      using 1(1) [OF n(1) p1(1) n(2) p1(2)] p1(1) n(1) by (auto simp: spi_write_data_def split: if_splits)
  next
    case False
    then show ?thesis
      using 1(2) by (subst (asm) write_page_loop.simps) (auto simp: bind_eq_Some_conv spi_write_data_def split: if_splits)
  qed
qed

lemma many_pages_never_end:
  assumes "page_size (spiffs_chip env) = 256" "256 \<le> pages" "256 dvd a + off" "length buf < 2 ^ 32 - 256"
  shows "write_pages_loop env a buf pages i off p = None"
  using assms(3)
proof (induction "length buf - off" arbitrary: i off p rule: less_induct)
  case less
  let ?w = "spi_write_page env (add32 a off) (drop off buf) 256 p"
  have i: "unat i \<noteq> pages"
    using unat_byte_less [of i] assms(2) by simp
  have "add32 a off mod 256 = 0"
    using less.prems by (simp add: add32_def mod_mod_cancel dvd_eq_mod_eq_0)
  then have w: "?w = write_page_loop env (add32 a off) (drop off buf) 256 p"
    using assms(1) by (simp add: spi_write_page_def add32_def)
  show ?case
  proof (cases ?w)
    case None
    with i assms(1) show ?thesis
      by (subst write_pages_loop.simps) simp
  next
    case (Some rp)
    obtain r p1 where rp: "rp = (r, p1)"
      by (cases rp)
    have r: "r = 0" "256 \<le> length buf - off"
      using write_page_loop_Some Some rp w by fastforce+
    have off: "add32 off 256 = off + 256"
      using r(2) assms(4) by (simp add: add32_no_wrap)
    have "256 dvd a + (off + 256)"
      using less.prems by (simp add: add.assoc [symmetric])
    then have "write_pages_loop env a buf pages (i + 1) (off + 256) p1 = None"
      using less.hyps [of "off + 256"] r(2) by simp
    with i assms(1) Some rp r(1) off show ?thesis
      by (subst write_pages_loop.simps) simp
  qed
qed

lemma long_write:
  assumes "page_size (spiffs_chip env) = 256" "65792 \<le> a mod 256 + n" "length buf < 2 ^ 32 - 256" "add32 a n \<le> chip_size (spiffs_chip env)"
  shows "spi_write env a buf n p = None"
proof -
  let ?f = "256 - a mod 256"
  have f: "256 dvd a + ?f"
    by (rule rest_of_page)
  have m: "a mod 256 < 256"
    by simp
  have n: "\<not> n < ?f" "65536 \<le> n - ?f"
    using assms(2) m by linarith+
  have "256 \<le> (n - ?f) div 256"
    using div_le_mono [OF n(2), of 256] by simp
  from many_pages_never_end [OF assms(1) this f assms(3), of 0] n(1) assms show ?thesis
    by (cases "spi_write_page env a buf ?f p") (auto simp: spi_write_def Let_def spi_write_page_def add32_def dest: write_page_loop_Some split: if_splits)
qed

text \<open>A read to a buffer that is not aligned, with a block of a multiple of four bytes.\<close>

lemma unaligned_read:
  assumes "\<not> 4 dvd base" "0 < n" "60 \<le> n \<or> 4 dvd n" "add32 a n \<le> chip_size (spiffs_chip env)"
  shows "esp_spiffs_flash_read env a (Some (base, buf)) n p = None"
proof -
  have b: "read_block env a base buf 0 m p' = None" if "4 dvd m" "0 < m" for m p'
    using assms(1) that by (simp add: read_block_def memcpy_unaligned_dst_def dvd_eq_mod_eq_0)
  have "read_data_loop env a base buf 0 n p' = None" for p'
    using b [of 60] b [of n] assms(2,3) by (subst read_data_loop.simps) auto
  then show ?thesis
    using assms(2,4) by (simp add: esp_spiffs_flash_read_def read_data_def)
qed

section \<open>A simulated controller\<close>

text \<open>A chip with its contents, whether it is busy and whether writing is enabled.\<close>

type_synonym sim_spi = "byte list \<times> bool \<times> bool"

fun sim_cmd :: "spi_cmd \<Rightarrow> sim_spi spi_port \<Rightarrow> sim_spi spi_port" where
  "sim_cmd c p =
     (let (cells, busy, wel) = spi_device p; m = sim_mem sdk_flashchip cells; a = reg_addr (spi_ADDR p); n = reg_len (spi_ADDR p)
      in if busy then p
         else case c of
             SPI_CMD_READ \<Rightarrow> p\<lparr>spi_W := take 64 (block_at a n m @ replicate 64 0)\<rparr>
           | SPI_CMD_PP \<Rightarrow> if wel then p\<lparr>spi_device := (prog_block m a (take n (spi_W p)), True, False)\<rparr> else p
           | SPI_CMD_SE \<Rightarrow> if wel then p\<lparr>spi_device := (erase_block m a 4096, True, False)\<rparr> else p)"

definition sim_spiffs :: "sim_spi spiffs_env" where
  "sim_spiffs = \<lparr>spiffs_chip = sdk_flashchip,
     Wait_SPI_Idle = (\<lambda>p. case spi_device p of (c, b, w) \<Rightarrow> p\<lparr>spi_device := (c, False, w)\<rparr>),
     SPI_wren = (\<lambda>p. case spi_device p of (c, b, w) \<Rightarrow> if b then p else p\<lparr>spi_device := (c, b, True)\<rparr>),
     SPI_cmd = sim_cmd, enter_spi = id, exit_spi = id, ram_after = (\<lambda>i. 0xee)\<rparr>"

interpretation sim_spi: spi_controller sim_spiffs "\<lambda>d. sim_mem sdk_flashchip (fst d)" "\<lambda>d. \<not> fst (snd d)" "\<lambda>d. snd (snd d)"
proof unfold_locales
  show "length (sim_mem sdk_flashchip (fst d)) = chip_size (spiffs_chip sim_spiffs)" for d :: sim_spi
    by (simp add: sim_mem_def sim_spiffs_def)
next
  fix p :: "sim_spi spi_port" and a n
  assume h: "\<not> fst (snd (spi_device p))" "a = reg_addr (spi_ADDR p)" "n = reg_len (spi_ADDR p)" "n \<le> 60" "a + n \<le> chip_size (spiffs_chip sim_spiffs)"
  then have "length (block_at a n (sim_mem sdk_flashchip (fst (spi_device p)))) = n"
    by (simp add: block_at_length sim_mem_def sim_spiffs_def)
  then show "\<not> fst (snd (spi_device (SPI_cmd sim_spiffs SPI_CMD_READ p))) \<and>
      sim_mem sdk_flashchip (fst (spi_device (SPI_cmd sim_spiffs SPI_CMD_READ p))) = sim_mem sdk_flashchip (fst (spi_device p)) \<and>
      take n (spi_W (SPI_cmd sim_spiffs SPI_CMD_READ p)) = block_at a n (sim_mem sdk_flashchip (fst (spi_device p)))"
    using h by (auto simp: sim_spiffs_def Let_def split: prod.split)
qed (auto simp: sim_spiffs_def sdk_flashchip_def sim_mem_def Let_def split: prod.splits spi_cmd.splits)

section \<open>Properties\<close>

text \<open>
  C16: erasing, writing and reading through the functions the file system calls. On an idle chip,
  erasing sectors, writing data of any alignment and length inside them that touches less than 258
  pages, and reading it back to an aligned buffer succeeds: the buffer holds the data,
  the erased sectors hold it and are erased elsewhere, the rest of the chip is as before, and the chip
  is idle again. Every command is given while the chip is idle, and no block crosses a page.
\<close>

theorem spiffs_store_roundtrip:
  assumes "spi_controller env mem idle wel" "idle (spi_device p)" "length (spi_W p) = 64" "m = mem (spi_device p)"
    and "4096 dvd s" "s + 4096 * k \<le> chip_size (spiffs_chip env)" "s \<le> a" "a + length data \<le> s + 4096 * k"
    and "a mod 256 + length data < 65792" "4 dvd base" "length data \<le> length buf"
  shows "\<exists>p1 p2 p3. esp_spiffs_erase env err s (4096 * k) p = (SPIFFS_OK, p1) \<and>
    esp_spiffs_write env err a (length data) (Some data) p1 = Some (SPIFFS_OK, p2) \<and>
    esp_spiffs_read env err a (length data) (Some (base, buf)) p2 = Some (SPIFFS_OK, Some (base, data @ drop (length data) buf), p3) \<and>
    mem (spi_device p3) = take s m @ replicate (a - s) 0xff @ data @ replicate (s + 4096 * k - (a + length data)) 0xff @ drop (s + 4096 * k) m \<and>
    idle (spi_device p3) \<and> length (spi_W p3) = 64"
proof -
  note c = assms(1)
  have l: "length m = chip_size (spiffs_chip env)"
    using spi_controller.size_of_mem [OF c] assms(4) by simp
  obtain p1 where p1: "esp_spiffs_erase env err s (4096 * k) p = (0, p1)" "mem (spi_device p1) = erase_block m s (4096 * k)"
    "idle (spi_device p1)" "length (spi_W p1) = 64"
    using spi_controller.erase_sectors [OF c assms(5,6), of 0 p err] assms(2,3,4) by (auto simp: esp_spiffs_erase_def)
  obtain p2 where p2: "esp_spiffs_flash_write env a (Some data) (length data) p1 = Some (0, p2)"
    "mem (spi_device p2) = prog_block (mem (spi_device p1)) a data" "idle (spi_device p2)" "length (spi_W p2) = 64"
    using spi_controller.flash_write [OF c, of "length data" data a p1] assms(6,8,9) p1(4) by auto
  have e: "mem (spi_device p2) = take s m @ replicate (a - s) 0xff @ data @ replicate (s + 4096 * k - (a + length data)) 0xff @ drop (s + 4096 * k) m"
    unfolding p2(2) p1(2) by (rule programmed_in_erased) (use assms(6-8) l in simp_all)
  have "block_at a (length data) (mem (spi_device p2)) = data"
    unfolding e using assms(6-8) l by (simp add: block_at_def)
  then obtain p3 where "esp_spiffs_flash_read env a (Some (base, buf)) (length data) p2 = Some (0, Some (base, data @ drop (length data) buf), p3)"
    "mem (spi_device p3) = mem (spi_device p2)" "idle (spi_device p3)" "length (spi_W p3) = 64"
    using spi_controller.flash_read [OF c, of a "length data" base buf p2] assms(6,8,10,11) p2(3,4) by auto
  then show ?thesis
    using p1(1) p2(1) e by (simp add: esp_spiffs_write_def esp_spiffs_read_def)
qed

definition idle_port :: "sim_spi spi_port" where
  "idle_port = \<lparr>spi_ADDR = 0, spi_W = replicate 64 0, spi_device = ([], False, False)\<rparr>"

lemma sim_chip: "spiffs_chip sim_spiffs = sdk_flashchip"
  by (simp add: sim_spiffs_def)

theorem spiffs_store_roundtrip_witness:
  "\<exists>p1 p2 p3. esp_spiffs_erase sim_spiffs (- 10050) 0x1000 4096 idle_port = (SPIFFS_OK, p1) \<and>
    esp_spiffs_write sim_spiffs (- 10050) 0x10fe 5 (Some [1, 2, 3, 4, 5]) p1 = Some (SPIFFS_OK, p2) \<and>
    esp_spiffs_read sim_spiffs (- 10050) 0x10fe 5 (Some (0x3ffe8000, replicate 8 0)) p2 =
      Some (SPIFFS_OK, Some (0x3ffe8000, [1, 2, 3, 4, 5, 0, 0, 0]), p3) \<and> \<not> fst (snd (spi_device p3))"
proof -
  have l: "length [1, 2, 3, 4, 5 :: byte] = 5" and d: "drop 5 (replicate 8 (0 :: byte)) = [0, 0, 0]"
    by (simp_all add: numeral_eq_Suc)
  show ?thesis
    using spiffs_store_roundtrip [OF sim_spi.spi_controller_axioms _ _ refl, of idle_port "0x1000" 1 "0x10fe" "[1, 2, 3, 4, 5]" "0x3ffe8000" "replicate 8 0" "- 10050", unfolded l d]
    by (auto simp: sim_chip sdk_flashchip_def idle_port_def)
qed

text \<open>
  A write that is too long. With 256 full pages or more behind the first one, the counter of eight
  bits of the page loop never reaches the number of pages: whatever the controller does, the function goes on
  writing from behind the buffer and does not return. (The range check accepts such a write if
  the chip is large enough.)
\<close>

theorem spiffs_long_write_never_ends:
  assumes "page_size (spiffs_chip env) = 256" "65792 \<le> a mod 256 + n" "length buf < 2 ^ 32 - 256" "a + n \<le> chip_size (spiffs_chip env)" "a + n < 2 ^ 32"
  shows "esp_spiffs_flash_write env a (Some buf) n p = None"
  using long_write [OF assms(1-3)] assms(4,5) by (simp add: esp_spiffs_flash_write_def add32_no_wrap)

theorem spiffs_long_write_never_ends_witness:
  "esp_spiffs_flash_write sim_spiffs 0x100000 (Some (replicate 65792 0x55)) 65792 idle_port = None"
  by (rule spiffs_long_write_never_ends) (simp_all add: sim_chip sdk_flashchip_def)

text \<open>
  Where a read may be stored. A read of a range on an idle chip fills the buffer with the contents
  of the chip and leaves the chip as it was, except that it ends in an exception if the
  buffer is not aligned to words and some block has a multiple of four bytes, which is the case
  from 60 bytes on and for every shorter size that is a multiple of four.
\<close>

theorem spiffs_read_alignment:
  assumes "spi_controller env mem idle wel" "idle (spi_device p)" "length (spi_W p) = 64" "a + n \<le> chip_size (spiffs_chip env)" "n \<le> length buf" "0 < n"
  shows "if 4 dvd base \<or> (n < 60 \<and> \<not> 4 dvd n)
    then \<exists>p'. esp_spiffs_flash_read env a (Some (base, buf)) n p = Some (ESP_SPIFFS_FLASH_OK, Some (base, block_at a n (mem (spi_device p)) @ drop n buf), p') \<and>
      mem (spi_device p') = mem (spi_device p) \<and> idle (spi_device p')
    else esp_spiffs_flash_read env a (Some (base, buf)) n p = None"
proof -
  have "add32 a n = a + n"
    using assms(4) spi_controller.chip_geometry(1) [OF assms(1)] by (simp add: add32_no_wrap)
  then have "\<not> (4 dvd base \<or> (n < 60 \<and> \<not> 4 dvd n)) \<Longrightarrow> esp_spiffs_flash_read env a (Some (base, buf)) n p = None"
    using unaligned_read [of base n a env buf p] assms(4,6) by auto
  moreover have "4 dvd base \<or> (n < 60 \<and> \<not> 4 dvd n) \<Longrightarrow>
    \<exists>p'. esp_spiffs_flash_read env a (Some (base, buf)) n p = Some (0, Some (base, block_at a n (mem (spi_device p)) @ drop n buf), p') \<and>
      mem (spi_device p') = mem (spi_device p) \<and> idle (spi_device p')"
    using spi_controller.flash_read [OF assms(1,4) _ assms(5), of base p] assms(2,3) by blast
  ultimately show ?thesis
    by presburger
qed

theorem spiffs_read_alignment_witness:
  "esp_spiffs_flash_read sim_spiffs 0x2001 (Some (0x3ffe8001, replicate 8 0)) 8 idle_port = None \<and>
   (\<exists>p'. esp_spiffs_flash_read sim_spiffs 0x2001 (Some (0x3ffe8001, replicate 8 0)) 2 idle_port = Some (ESP_SPIFFS_FLASH_OK, Some (0x3ffe8001, [0xff, 0xff, 0, 0, 0, 0, 0, 0]), p'))"
proof
  show "esp_spiffs_flash_read sim_spiffs 0x2001 (Some (0x3ffe8001, replicate 8 0)) 8 idle_port = None"
    using spiffs_read_alignment [OF sim_spi.spi_controller_axioms, of idle_port "0x2001" 8 "replicate 8 0" "0x3ffe8001"]
    by (simp add: sim_chip sdk_flashchip_def idle_port_def)
  have "block_at 0x2001 2 (sim_mem sdk_flashchip []) = replicate 2 0xff"
    by (simp add: block_at_def sim_mem_def sdk_flashchip_def)
  then have "block_at 0x2001 2 (sim_mem sdk_flashchip []) @ drop 2 (replicate 8 (0 :: byte)) = [0xff, 0xff, 0, 0, 0, 0, 0, 0]"
    by (simp add: numeral_eq_Suc)
  then show "\<exists>p'. esp_spiffs_flash_read sim_spiffs 0x2001 (Some (0x3ffe8001, replicate 8 0)) 2 idle_port = Some (ESP_SPIFFS_FLASH_OK, Some (0x3ffe8001, [0xff, 0xff, 0, 0, 0, 0, 0, 0]), p')"
    using spiffs_read_alignment [OF sim_spi.spi_controller_axioms, of idle_port "0x2001" 2 "replicate 8 0" "0x3ffe8001"]
    by (auto simp: sim_chip sdk_flashchip_def idle_port_def)
qed

end
