(* ===== verification/Spi_Bus.thy ===== *)
theory Spi_Bus
  imports Prelude
begin

unbundle bit_operations_syntax

text \<open>
  The SPI master driver, \<^verbatim>\<open>src/core/esp_spi.c\<close> with the inline functions of \<^verbatim>\<open>src/core/include/esp/spi.h\<close>: the
  settings of a bus, transfers of buffers and repeated words, and the bits for command, address and dummy
  phases. The state has the registers of both controllers, the registers of the pin multiplexer and the
  variables of the driver. Starting a transaction and waiting for its end is a parameter \<^verbatim>\<open>tr\<close>: from the bus, its
  registers and a world of arbitrary type it gives the data registers and the world afterwards. A
  result \<^term>\<open>None\<close> is an access outside a buffer, or a loop that does not end.
\<close>

section \<open>State\<close>

definition BIT :: "nat \<Rightarrow> u32" where
  "BIT n = push_bit n 1"

record SPI_REGS =
  r_ADDR :: u32
  r_CTRL0 :: u32
  r_CLOCK :: u32
  r_USER0 :: u32
  r_USER1 :: u32
  r_USER2 :: u32
  r_PIN :: u32
  r_W :: "u32 list"

record 'w spi_state =
  SPI :: "nat \<Rightarrow> SPI_REGS"
  IOMUX_CONF :: u32
  IOMUX_PIN :: "nat \<Rightarrow> u32"
  minimal :: "nat \<Rightarrow> bool"
  extras_status :: "nat \<Rightarrow> byte"
  spi_world :: 'w

type_synonym 'w transaction = "nat \<Rightarrow> SPI_REGS \<Rightarrow> 'w \<Rightarrow> u32 list \<times> 'w"

datatype spi_endianness_t = SPI_LITTLE_ENDIAN | SPI_BIG_ENDIAN

datatype spi_word_size_t = SPI_8BIT | SPI_16BIT | SPI_32BIT

primrec word_size_bytes :: "spi_word_size_t \<Rightarrow> nat" where
  "word_size_bytes SPI_8BIT = 1"
| "word_size_bytes SPI_16BIT = 2"
| "word_size_bytes SPI_32BIT = 4"

abbreviation (input) SPI_USER0_COMMAND :: u32 where "SPI_USER0_COMMAND \<equiv> BIT 31"
abbreviation (input) SPI_USER0_ADDR :: u32 where "SPI_USER0_ADDR \<equiv> BIT 30"
abbreviation (input) SPI_USER0_DUMMY :: u32 where "SPI_USER0_DUMMY \<equiv> BIT 29"
abbreviation (input) SPI_USER0_MISO :: u32 where "SPI_USER0_MISO \<equiv> BIT 28"
abbreviation (input) SPI_USER0_MOSI :: u32 where "SPI_USER0_MOSI \<equiv> BIT 27"
abbreviation (input) SPI_USER0_WR_BYTE_ORDER :: u32 where "SPI_USER0_WR_BYTE_ORDER \<equiv> BIT 11"
abbreviation (input) SPI_USER0_RD_BYTE_ORDER :: u32 where "SPI_USER0_RD_BYTE_ORDER \<equiv> BIT 10"
abbreviation (input) SPI_USER0_CLOCK_OUT_EDGE :: u32 where "SPI_USER0_CLOCK_OUT_EDGE \<equiv> BIT 7"
abbreviation (input) SPI_USER0_CLOCK_IN_EDGE :: u32 where "SPI_USER0_CLOCK_IN_EDGE \<equiv> BIT 6"
abbreviation (input) SPI_USER0_CS_SETUP :: u32 where "SPI_USER0_CS_SETUP \<equiv> BIT 5"
abbreviation (input) SPI_USER0_CS_HOLD :: u32 where "SPI_USER0_CS_HOLD \<equiv> BIT 4"
abbreviation (input) SPI_USER0_DUPLEX :: u32 where "SPI_USER0_DUPLEX \<equiv> BIT 0"
abbreviation (input) SPI_PIN_IDLE_EDGE :: u32 where "SPI_PIN_IDLE_EDGE \<equiv> BIT 29"
abbreviation (input) SPI_CTRL0_WR_BIT_ORDER :: u32 where "SPI_CTRL0_WR_BIT_ORDER \<equiv> BIT 26"
abbreviation (input) SPI_CTRL0_RD_BIT_ORDER :: u32 where "SPI_CTRL0_RD_BIT_ORDER \<equiv> BIT 25"
abbreviation (input) SPI_CLOCK_EQU_SYS_CLOCK :: u32 where "SPI_CLOCK_EQU_SYS_CLOCK \<equiv> BIT 31"
abbreviation (input) SPI_BUF_SIZE :: nat where "SPI_BUF_SIZE \<equiv> 64"

text \<open>
  The macros for bit fields of \<^verbatim>\<open>common_macros.h\<close>: a field of \<open>n\<close> bits at offset \<open>off\<close> is read, built from a
  value cut to its size (\<^verbatim>\<open>VAL2FIELD_M\<close>), and set to a value that is not cut (\<^verbatim>\<open>SET_FIELD\<close>).
\<close>

definition FIELD2VAL :: "nat \<Rightarrow> nat \<Rightarrow> u32 \<Rightarrow> u32" where
  "FIELD2VAL off n r = drop_bit off r AND mask n"

definition VAL2FIELD_M :: "nat \<Rightarrow> nat \<Rightarrow> u32 \<Rightarrow> u32" where
  "VAL2FIELD_M off n v = push_bit off (v AND mask n)"

definition SET_FIELD :: "nat \<Rightarrow> nat \<Rightarrow> u32 \<Rightarrow> u32 \<Rightarrow> u32" where
  "SET_FIELD off n r v = (r AND NOT (push_bit off (mask n))) OR push_bit off v"

definition upd_regs :: "nat \<Rightarrow> (SPI_REGS \<Rightarrow> SPI_REGS) \<Rightarrow> 'w spi_state \<Rightarrow> 'w spi_state" where
  "upd_regs bus f s = s\<lparr>SPI := (SPI s)(bus := f (SPI s bus))\<rparr>"

definition set_USER0 :: "nat \<Rightarrow> (u32 \<Rightarrow> u32) \<Rightarrow> 'w spi_state \<Rightarrow> 'w spi_state" where
  "set_USER0 bus f = upd_regs bus (\<lambda>r. r\<lparr>r_USER0 := f (r_USER0 r)\<rparr>)"

section \<open>Settings\<close>

definition GPIO_TO_IOMUX :: "nat list" where
  "GPIO_TO_IOMUX = [12, 5, 13, 4, 14, 15, 6, 7, 8, 9, 10, 11, 0, 1, 2, 3]"

definition gpio_set_iomux_function :: "nat \<Rightarrow> u32 \<Rightarrow> 'w spi_state \<Rightarrow> 'w spi_state" where
  "gpio_set_iomux_function gpio_num func s =
     (let iomux_num = GPIO_TO_IOMUX ! gpio_num; prev = IOMUX_PIN s iomux_num AND NOT 0x00000130
      in s\<lparr>IOMUX_PIN := (IOMUX_PIN s)(iomux_num := func OR prev)\<rparr>)"

definition IOMUX_FUNC :: "u32 \<Rightarrow> u32" where
  "IOMUX_FUNC val = push_bit 4 (val AND 3) OR push_bit 6 (val AND 4)"

text \<open>The modes are the numbers 0 to 3, their bits clock phase and polarity.\<close>

definition spi_set_mode :: "nat \<Rightarrow> byte \<Rightarrow> 'w spi_state \<Rightarrow> 'w spi_state" where
  "spi_set_mode bus mode s =
     (let cpol = (mode AND 2 \<noteq> 0);
          cpha = (if cpol then mode AND 1 = 0 else mode AND 1 \<noteq> 0);
          s1 = set_USER0 bus (\<lambda>u. if cpha then u OR SPI_USER0_CLOCK_OUT_EDGE else u AND NOT SPI_USER0_CLOCK_OUT_EDGE) s
      in upd_regs bus (\<lambda>r. r\<lparr>r_PIN := (if cpol then r_PIN r OR SPI_PIN_IDLE_EDGE else r_PIN r AND NOT SPI_PIN_IDLE_EDGE)\<rparr>) s1)"

definition spi_get_mode :: "nat \<Rightarrow> 'w spi_state \<Rightarrow> byte" where
  "spi_get_mode bus s =
     (let cpha = (if r_USER0 (SPI s bus) AND SPI_USER0_CLOCK_OUT_EDGE \<noteq> 0 then 1 else 0);
          cpol = (if r_PIN (SPI s bus) AND SPI_PIN_IDLE_EDGE \<noteq> 0 then 2 else 0)
      in cpol OR (if cpol \<noteq> 0 then 1 - cpha else cpha))"

definition spi_set_msb :: "nat \<Rightarrow> bool \<Rightarrow> 'w spi_state \<Rightarrow> 'w spi_state" where
  "spi_set_msb bus msb =
     upd_regs bus (\<lambda>r. r\<lparr>r_CTRL0 := (if msb then r_CTRL0 r AND NOT (SPI_CTRL0_WR_BIT_ORDER OR SPI_CTRL0_RD_BIT_ORDER)
                                   else r_CTRL0 r OR (SPI_CTRL0_WR_BIT_ORDER OR SPI_CTRL0_RD_BIT_ORDER))\<rparr>)"

definition spi_get_msb :: "nat \<Rightarrow> 'w spi_state \<Rightarrow> bool" where
  "spi_get_msb bus s \<longleftrightarrow> r_CTRL0 (SPI s bus) AND (SPI_CTRL0_WR_BIT_ORDER OR SPI_CTRL0_RD_BIT_ORDER) = 0"

definition spi_set_endianness :: "nat \<Rightarrow> spi_endianness_t \<Rightarrow> 'w spi_state \<Rightarrow> 'w spi_state" where
  "spi_set_endianness bus endianness =
     set_USER0 bus (\<lambda>u. if endianness = SPI_BIG_ENDIAN then u OR (SPI_USER0_WR_BYTE_ORDER OR SPI_USER0_RD_BYTE_ORDER)
                        else u AND NOT (SPI_USER0_WR_BYTE_ORDER OR SPI_USER0_RD_BYTE_ORDER))"

definition regs_endianness :: "SPI_REGS \<Rightarrow> spi_endianness_t" where
  "regs_endianness r =
     (if r_USER0 r AND (SPI_USER0_WR_BYTE_ORDER OR SPI_USER0_RD_BYTE_ORDER) \<noteq> 0 then SPI_BIG_ENDIAN else SPI_LITTLE_ENDIAN)"

definition spi_get_endianness :: "nat \<Rightarrow> 'w spi_state \<Rightarrow> spi_endianness_t" where
  "spi_get_endianness bus s = regs_endianness (SPI s bus)"

definition spi_set_frequency_div :: "nat \<Rightarrow> u32 \<Rightarrow> 'w spi_state \<Rightarrow> 'w spi_state" where
  "spi_set_frequency_div bus divider s =
     (let predivider = (divider AND 0xffff) - 1;
          count = drop_bit 16 divider - 1;
          equ = (if bus = 0 then BIT 8 else BIT 9)
      in if count \<noteq> 0 \<or> predivider \<noteq> 0 then
           upd_regs bus (\<lambda>r. r\<lparr>r_CLOCK := VAL2FIELD_M 18 13 predivider OR VAL2FIELD_M 12 6 count OR
                                       VAL2FIELD_M 6 6 (count div 2) OR VAL2FIELD_M 0 6 count\<rparr>)
             (s\<lparr>IOMUX_CONF := IOMUX_CONF s AND NOT equ\<rparr>)
         else
           upd_regs bus (\<lambda>r. r\<lparr>r_CLOCK := SPI_CLOCK_EQU_SYS_CLOCK\<rparr>) (s\<lparr>IOMUX_CONF := IOMUX_CONF s OR equ\<rparr>))"

definition spi_get_frequency_div :: "nat \<Rightarrow> 'w spi_state \<Rightarrow> u32" where
  "spi_get_frequency_div bus s =
     (FIELD2VAL 18 13 (r_CLOCK (SPI s bus)) + 1) OR (FIELD2VAL 12 6 (r_CLOCK (SPI s bus)) + 1)"

definition spi_get_frequency_hz :: "nat \<Rightarrow> 'w spi_state \<Rightarrow> u32" where
  "spi_get_frequency_hz bus s =
     80000000 div (FIELD2VAL 18 13 (r_CLOCK (SPI s bus)) + 1) div (FIELD2VAL 12 6 (r_CLOCK (SPI s bus)) + 1)"

definition spi_init ::
  "nat \<Rightarrow> byte \<Rightarrow> u32 \<Rightarrow> bool \<Rightarrow> spi_endianness_t \<Rightarrow> bool \<Rightarrow> 'w spi_state \<Rightarrow> bool \<times> 'w spi_state" where
  "spi_init bus mode freq_divider msb endianness minimal_pins s =
     (if bus > 1 then (False, s)
      else let pins = (if bus = 0 then [7, 8, 6] @ (if minimal_pins then [] else [9, 10, 11])
                       else [12, 13, 14] @ (if minimal_pins then [] else [15]));
               s1 = foldl (\<lambda>s pin. gpio_set_iomux_function pin (IOMUX_FUNC (if bus = 0 then 1 else 2)) s) s pins;
               s2 = s1\<lparr>minimal := (minimal s1)(bus := minimal_pins)\<rparr>;
               s3 = set_USER0 bus (\<lambda>u. SPI_USER0_MOSI OR SPI_USER0_CLOCK_IN_EDGE OR SPI_USER0_DUPLEX OR
                      (if minimal_pins then 0 else SPI_USER0_CS_HOLD OR SPI_USER0_CS_SETUP)) s2
        in (True, spi_set_endianness bus endianness (spi_set_msb bus msb (spi_set_mode bus mode (spi_set_frequency_div bus freq_divider s3)))))"

record spi_settings_t =
  st_mode :: byte
  st_freq_divider :: u32
  st_msb :: bool
  st_endianness :: spi_endianness_t
  st_minimal_pins :: bool

definition spi_get_settings :: "nat \<Rightarrow> 'w spi_state \<Rightarrow> spi_settings_t" where
  "spi_get_settings bus s =
     \<lparr>st_mode = spi_get_mode bus s, st_freq_divider = spi_get_frequency_div bus s, st_msb = spi_get_msb bus s,
      st_endianness = spi_get_endianness bus s, st_minimal_pins = minimal s bus\<rparr>"

definition spi_set_settings :: "nat \<Rightarrow> spi_settings_t \<Rightarrow> 'w spi_state \<Rightarrow> bool \<times> 'w spi_state" where
  "spi_set_settings bus st s = spi_init bus (st_mode st) (st_freq_divider st) (st_msb st) (st_endianness st) (st_minimal_pins st) s"

section \<open>Command, address and dummy bits\<close>

definition spi_set_command :: "nat \<Rightarrow> nat \<Rightarrow> u16 \<Rightarrow> 'w spi_state \<Rightarrow> 'w spi_state" where
  "spi_set_command bus bits data s =
     (if bits = 0 then s
      else let command = push_bit (16 - bits) data;
               command' = (drop_bit 8 command AND 0xff) OR (push_bit 8 command AND 0xff00)
        in upd_regs bus (\<lambda>r. r\<lparr>r_USER2 := SET_FIELD 0 16 (SET_FIELD 28 4 (r_USER2 r) (of_nat (bits - 1))) (ucast command')\<rparr>)
             (set_USER0 bus (\<lambda>u. u OR SPI_USER0_COMMAND) s))"

definition spi_set_address :: "nat \<Rightarrow> nat \<Rightarrow> u32 \<Rightarrow> 'w spi_state \<Rightarrow> 'w spi_state" where
  "spi_set_address bus bits data s =
     (if bits = 0 then s
      else upd_regs bus (\<lambda>r. r\<lparr>r_ADDR := push_bit (32 - bits) data, r_USER1 := SET_FIELD 26 6 (r_USER1 r) (of_nat (bits - 1))\<rparr>)
             (set_USER0 bus (\<lambda>u. u OR SPI_USER0_ADDR) s))"

definition spi_set_dummy_bits :: "nat \<Rightarrow> nat \<Rightarrow> bool \<Rightarrow> 'w spi_state \<Rightarrow> 'w spi_state" where
  "spi_set_dummy_bits bus bits pos s =
     (if bits = 0 then s
      else upd_regs bus (\<lambda>r. r\<lparr>r_USER1 := SET_FIELD 0 8 (r_USER1 r) (of_nat (bits - 1))\<rparr>)
             (set_USER0 bus (\<lambda>u. (if pos then u OR SPI_USER0_MISO else u) OR SPI_USER0_DUMMY) s))"

definition spi_clear_address :: "nat \<Rightarrow> 'w spi_state \<Rightarrow> 'w spi_state" where
  "spi_clear_address bus = set_USER0 bus (\<lambda>u. u AND NOT SPI_USER0_ADDR)"

definition spi_clear_command :: "nat \<Rightarrow> 'w spi_state \<Rightarrow> 'w spi_state" where
  "spi_clear_command bus = set_USER0 bus (\<lambda>u. u AND NOT SPI_USER0_COMMAND)"

definition spi_clear_dummy :: "nat \<Rightarrow> 'w spi_state \<Rightarrow> 'w spi_state" where
  "spi_clear_dummy bus = set_USER0 bus (\<lambda>u. u AND NOT (SPI_USER0_DUMMY OR SPI_USER0_MISO))"

definition set_status :: "nat \<Rightarrow> byte \<Rightarrow> 'w spi_state \<Rightarrow> 'w spi_state" where
  "set_status bus v s = s\<lparr>extras_status := (extras_status s)(bus := v)\<rparr>"

definition rearm_extras_bit :: "nat \<Rightarrow> bool \<Rightarrow> 'w spi_state \<Rightarrow> 'w spi_state" where
  "rearm_extras_bit bus arm s =
     (if \<not> minimal s bus then s
      else if arm then
        let st = extras_status s bus;
            s1 = (if st AND 0x01 \<noteq> 0 then set_USER0 bus (\<lambda>u. u OR SPI_USER0_ADDR) s else s);
            s2 = (if st AND 0x02 \<noteq> 0 then set_USER0 bus (\<lambda>u. u OR SPI_USER0_COMMAND) s1 else s1);
            s3 = (if st AND 0x04 \<noteq> 0 then set_USER0 bus (\<lambda>u. u OR (SPI_USER0_DUMMY OR SPI_USER0_MISO)) s2 else s2)
        in set_status bus 0 s3
      else
        let s1 = (if r_USER0 (SPI s bus) AND SPI_USER0_ADDR \<noteq> 0
                  then set_status bus (extras_status s bus OR 0x01) (set_USER0 bus (\<lambda>u. u AND NOT SPI_USER0_ADDR) s) else s);
            s2 = (if r_USER0 (SPI s1 bus) AND SPI_USER0_COMMAND \<noteq> 0
                  then set_status bus (extras_status s1 bus OR 0x02) (set_USER0 bus (\<lambda>u. u AND NOT SPI_USER0_COMMAND) s1) else s1)
        in (if r_USER0 (SPI s2 bus) AND SPI_USER0_DUMMY \<noteq> 0
            then set_status bus (extras_status s2 bus OR 0x04) (set_USER0 bus (\<lambda>u. u AND NOT (SPI_USER0_DUMMY OR SPI_USER0_MISO)) s2) else s2))"

section \<open>Transfers\<close>

text \<open>The data registers as bytes in memory order, and copying bytes to their start.\<close>

definition word_bytes :: "u32 \<Rightarrow> byte list" where
  "word_bytes w = [ucast w, ucast (drop_bit 8 w), ucast (drop_bit 16 w), ucast (drop_bit 24 w)]"

definition bytes_word :: "byte \<Rightarrow> byte \<Rightarrow> byte \<Rightarrow> byte \<Rightarrow> u32" where
  "bytes_word a b c d = ucast a OR push_bit 8 (ucast b) OR push_bit 16 (ucast c) OR push_bit 24 (ucast d)"

fun words_of :: "byte list \<Rightarrow> u32 list" where
  "words_of (a # b # c # d # bs) = bytes_word a b c d # words_of bs"
| "words_of _ = []"

definition reg_bytes :: "u32 list \<Rightarrow> byte list" where
  "reg_bytes W = concat (map word_bytes W)"

definition copy_to_W :: "byte list \<Rightarrow> u32 list \<Rightarrow> u32 list" where
  "copy_to_W bs W = words_of (bs @ drop (length bs) (reg_bytes W))"

definition set_size :: "nat \<Rightarrow> nat \<Rightarrow> 'w spi_state \<Rightarrow> 'w spi_state" where
  "set_size bus bytes =
     (let bits = push_bit 3 (of_nat (bytes mod 256)) - 1
      in upd_regs bus (\<lambda>r. r\<lparr>r_USER1 := SET_FIELD 17 9 (SET_FIELD 8 9 (r_USER1 r) bits) bits\<rparr>))"

definition set_W :: "nat \<Rightarrow> u32 list \<Rightarrow> 'w spi_state \<Rightarrow> 'w spi_state" where
  "set_W bus W = upd_regs bus (\<lambda>r. r\<lparr>r_W := W\<rparr>)"

text \<open>\<^verbatim>\<open>_start\<close> with the \<^verbatim>\<open>_wait\<close> that follows it.\<close>

definition run_transaction :: "'w transaction \<Rightarrow> nat \<Rightarrow> 'w spi_state \<Rightarrow> 'w spi_state" where
  "run_transaction tr bus s =
     (let (W, w) = tr bus (SPI s bus) (spi_world s) in (set_W bus W s)\<lparr>spi_world := w\<rparr>)"

definition swap_bytes :: "u32 \<Rightarrow> u32" where
  "swap_bytes value = push_bit 24 value OR (push_bit 8 value AND 0x00ff0000) OR (drop_bit 8 value AND 0x0000ff00) OR drop_bit 24 value"

definition swap_words :: "u32 \<Rightarrow> u32" where
  "swap_words value = push_bit 16 value OR drop_bit 16 value"

definition spi_buf_prepare :: "nat \<Rightarrow> spi_endianness_t \<Rightarrow> spi_word_size_t \<Rightarrow> u32 list \<Rightarrow> u32 list" where
  "spi_buf_prepare len e word_size data =
     (if e = SPI_LITTLE_ENDIAN \<or> word_size = SPI_32BIT then data
      else let count = (if word_size = SPI_16BIT then (len + 1) div 2 else (len + 3) div 4)
        in map (\<lambda>w. if word_size = SPI_16BIT then swap_words w else swap_bytes w) (take count data) @ drop count data)"

text \<open>
  \<^verbatim>\<open>_spi_buf_transfer\<close> with the offset that \<^verbatim>\<open>spi_transfer\<close> adds to both buffers. The buffer for received
  data is \<^term>\<open>None\<close> for the null pointer.
\<close>

definition spi_buf_transfer ::
  "'w transaction \<Rightarrow> nat \<Rightarrow> byte list \<Rightarrow> byte list option \<Rightarrow> nat \<Rightarrow> nat \<Rightarrow> spi_endianness_t \<Rightarrow> spi_word_size_t \<Rightarrow>
   'w spi_state \<Rightarrow> (byte list option \<times> 'w spi_state) option" where
  "spi_buf_transfer tr bus out_data in_data offset len e word_size s =
     (let bytes = len * word_size_bytes word_size
      in if offset + bytes > length out_data then None
         else let s1 = set_size bus bytes s;
                  W = copy_to_W (block_at offset bytes out_data) (r_W (SPI s1 bus));
                  s2 = run_transaction tr bus (set_W bus (spi_buf_prepare len e word_size W) s1)
           in case in_data of
                None \<Rightarrow> Some (None, s2)
              | Some buf \<Rightarrow>
                  (let W' = spi_buf_prepare len e word_size (r_W (SPI s2 bus))
                   in map_option (\<lambda>buf'. (Some buf', set_W bus W' s2)) (write_block buf offset (take bytes (reg_bytes W')))))"

fun transfer_blocks ::
  "'w transaction \<Rightarrow> nat \<Rightarrow> byte list \<Rightarrow> byte list option \<Rightarrow> nat \<Rightarrow> spi_endianness_t \<Rightarrow> spi_word_size_t \<Rightarrow> nat list \<Rightarrow>
   'w spi_state \<Rightarrow> (byte list option \<times> 'w spi_state) option" where
  "transfer_blocks tr bus out_data in_data buf_size e word_size [] s = Some (in_data, s)"
| "transfer_blocks tr bus out_data in_data buf_size e word_size (i # is) s =
     do {
       (in1, s1) \<leftarrow> spi_buf_transfer tr bus out_data in_data (i * SPI_BUF_SIZE) buf_size e word_size s;
       transfer_blocks tr bus out_data in1 buf_size e word_size is (rearm_extras_bit bus False s1)
     }"

definition spi_transfer ::
  "'w transaction \<Rightarrow> nat \<Rightarrow> byte list option \<Rightarrow> byte list option \<Rightarrow> nat \<Rightarrow> spi_word_size_t \<Rightarrow>
   'w spi_state \<Rightarrow> (nat \<times> byte list option \<times> 'w spi_state) option" where
  "spi_transfer tr bus out_data in_data len word_size s =
     (case out_data of
        None \<Rightarrow> Some (0, in_data, s)
      | Some out \<Rightarrow>
          if len = 0 then Some (0, in_data, s)
          else let e = spi_get_endianness bus s;
                   buf_size = SPI_BUF_SIZE div word_size_bytes word_size;
                   blocks = len div buf_size;
                   tail = len mod buf_size
            in do {
                 (in1, s1) \<leftarrow> transfer_blocks tr bus out in_data buf_size e word_size [0..<blocks] s;
                 (in2, s2) \<leftarrow> (if tail \<noteq> 0 then spi_buf_transfer tr bus out in1 (blocks * SPI_BUF_SIZE) tail e word_size s1
                              else Some (in1, s1));
                 Some (len, in2, if blocks \<noteq> 0 then rearm_extras_bit bus True s2 else s2)
               })"

text \<open>The functions for one word; the word is given and returned as its bytes in memory.\<close>

definition spi_transfer_word ::
  "'w transaction \<Rightarrow> nat \<Rightarrow> spi_word_size_t \<Rightarrow> byte list \<Rightarrow> 'w spi_state \<Rightarrow> (byte list option \<times> 'w spi_state) option" where
  "spi_transfer_word tr bus word_size data s =
     spi_buf_transfer tr bus data (Some (replicate (word_size_bytes word_size) 0)) 0 1 (spi_get_endianness bus s) word_size s"

section \<open>Repeated words\<close>

text \<open>
  The number of bytes is computed in 32 unsigned bits; \<open>i\<close> is the number of registers filled for the block before.
\<close>

partial_function (option) repeat_send_loop ::
  "'w transaction \<Rightarrow> nat \<Rightarrow> u32 \<Rightarrow> int \<Rightarrow> nat \<Rightarrow> nat \<Rightarrow> 'w spi_state \<Rightarrow> 'w spi_state option" where
  "repeat_send_loop tr bus dword repeats wsize i s =
     (if repeats > 0 then
        (let n = (of_int repeats * of_nat wsize :: u32);
             bytes_to_transfer = (if n > 64 then SPI_BUF_SIZE else unat n);
             s1 = (if i \<noteq> 0 then rearm_extras_bit bus False s else s);
             s2 = set_size bus bytes_to_transfer s1;
             words = (bytes_to_transfer + 3) div 4;
             s3 = set_W bus (replicate words dword @ drop words (r_W (SPI s2 bus))) s2
         in repeat_send_loop tr bus dword (repeats - int (bytes_to_transfer div wsize)) wsize words (run_transaction tr bus s3))
      else Some (rearm_extras_bit bus True s))"

definition repeat_send :: "'w transaction \<Rightarrow> nat \<Rightarrow> u32 \<Rightarrow> int \<Rightarrow> nat \<Rightarrow> 'w spi_state \<Rightarrow> 'w spi_state option" where
  "repeat_send tr bus dword repeats wsize s = repeat_send_loop tr bus dword repeats wsize 0 s"

definition spi_repeat_send_8 :: "'w transaction \<Rightarrow> nat \<Rightarrow> byte \<Rightarrow> int \<Rightarrow> 'w spi_state \<Rightarrow> 'w spi_state option" where
  "spi_repeat_send_8 tr bus data repeats =
     repeat_send tr bus (push_bit 24 (ucast data) OR push_bit 16 (ucast data) OR push_bit 8 (ucast data) OR ucast data) repeats 1"

definition spi_repeat_send_16 :: "'w transaction \<Rightarrow> nat \<Rightarrow> u16 \<Rightarrow> int \<Rightarrow> 'w spi_state \<Rightarrow> 'w spi_state option" where
  "spi_repeat_send_16 tr bus data repeats = repeat_send tr bus (push_bit 16 (ucast data) OR ucast data) repeats 2"

definition spi_repeat_send_32 :: "'w transaction \<Rightarrow> nat \<Rightarrow> u32 \<Rightarrow> int \<Rightarrow> 'w spi_state \<Rightarrow> 'w spi_state option" where
  "spi_repeat_send_32 tr bus data repeats = repeat_send tr bus data repeats 4"

end
