(* ===== verification/Spi_Transfer.thy ===== *)
theory Spi_Transfer
  imports Spi_Bus
begin

unbundle bit_operations_syntax

text \<open>
  What the SPI driver promises: a transfer puts the words of a buffer on the wire in the byte order selected and
  returns the answer in the same order, whatever their number and size; repeated words are sent as
  often as asked for; the settings read back are those that were set, except the frequency; and the
  phases switched off during a transfer come back, with one bit too many.
\<close>

section \<open>Bytes and words\<close>

lemma byte_high_bits [simp]: "\<not> bit (w :: byte) (8 + n)" "\<not> bit w (16 + n)" "\<not> bit w (24 + n)"
  using bit_imp_le_length [of w] by fastforce+

lemma word_bytes_bytes_word [simp]: "word_bytes (bytes_word a b c d) = [a, b, c, d]"
proof -
  have "ucast (bytes_word a b c d) = a" "ucast (drop_bit 8 (bytes_word a b c d)) = b"
    "ucast (drop_bit 16 (bytes_word a b c d)) = c" "ucast (drop_bit 24 (bytes_word a b c d)) = d"
    by (auto intro!: bit_word_eqI simp: bytes_word_def bit_simps dest: bit_imp_le_length)
  then show ?thesis
    by (simp add: word_bytes_def)
qed

lemma length_word_bytes [simp]: "length (word_bytes w) = 4"
  by (simp add: word_bytes_def)

lemma length_reg_bytes [simp]: "length (reg_bytes W) = 4 * length W"
  by (induction W) (simp_all add: reg_bytes_def)

lemma reg_bytes_words_of: "4 dvd length bs \<Longrightarrow> reg_bytes (words_of bs) = bs"
proof (induction bs rule: words_of.induct)
  case (1 a b c d bs)
  then have "4 dvd length bs"
    by simp presburger
  with 1 show ?case
    by (simp add: reg_bytes_def)
qed (simp_all add: reg_bytes_def dvd_eq_mod_eq_0)

lemma length_words_of: "length (words_of bs) = length bs div 4"
  by (induction bs rule: words_of.induct) auto

lemma copy_to_W:
  assumes "length W = 16" "length bs \<le> 64"
  shows "length (copy_to_W bs W) = 16" "take (length bs) (reg_bytes (copy_to_W bs W)) = bs"
  using assms by (simp_all add: copy_to_W_def length_words_of reg_bytes_words_of)

lemma byte_masks: "(0x00ff0000 :: u32) = push_bit 16 (mask 8)" "(0x0000ff00 :: u32) = push_bit 8 (mask 8)"
  by (simp_all add: mask_eq_exp_minus_1 push_bit_eq_mult)

lemma swap_bytes_rev: "word_bytes (swap_bytes w) = rev (word_bytes w)"
proof -
  have "ucast (swap_bytes w) = (ucast (drop_bit 24 w) :: byte)" "ucast (drop_bit 8 (swap_bytes w)) = (ucast (drop_bit 16 w) :: byte)"
    "ucast (drop_bit 16 (swap_bytes w)) = (ucast (drop_bit 8 w) :: byte)" "ucast (drop_bit 24 (swap_bytes w)) = (ucast w :: byte)"
    by (auto intro!: bit_word_eqI simp: swap_bytes_def byte_masks bit_simps dest: bit_imp_le_length)
  then show ?thesis
    by (simp add: word_bytes_def)
qed

lemma swap_words_pairs: "word_bytes (swap_words w) = drop 2 (word_bytes w) @ take 2 (word_bytes w)"
proof -
  have "ucast (swap_words w) = (ucast (drop_bit 16 w) :: byte)" "ucast (drop_bit 8 (swap_words w)) = (ucast (drop_bit 24 w) :: byte)"
    "ucast (drop_bit 16 (swap_words w)) = (ucast w :: byte)" "ucast (drop_bit 24 (swap_words w)) = (ucast (drop_bit 8 w) :: byte)"
    by (auto intro!: bit_word_eqI simp: swap_words_def bit_simps dest: bit_imp_le_length)
  then show ?thesis
    by (simp add: word_bytes_def numeral_2_eq_2)
qed

lemma bytes_word_word_bytes: "bytes_word (ucast w) (ucast (drop_bit 8 w)) (ucast (drop_bit 16 w)) (ucast (drop_bit 24 w)) = w"
proof (rule bit_word_eqI)
  fix n
  assume "n < LENGTH(32)"
  then consider "n < 8" | "8 \<le> n" "n < 16" | "16 \<le> n" "n < 24" | "24 \<le> n" "n < 32"
    by fastforce
  then show "bit (bytes_word (ucast w) (ucast (drop_bit 8 w)) (ucast (drop_bit 16 w)) (ucast (drop_bit 24 w))) n = bit w n"
    by cases (auto simp: bytes_word_def bit_simps)
qed

lemma word_bytes_inject: "word_bytes v = word_bytes w \<longleftrightarrow> v = w"
  unfolding word_bytes_def by (metis bytes_word_word_bytes list.inject)

lemma swap_twice [simp]: "swap_bytes (swap_bytes w) = w" "swap_words (swap_words w) = w"
proof -
  show "swap_bytes (swap_bytes w) = w"
    unfolding word_bytes_inject [symmetric, of _ w] by (simp add: swap_bytes_rev)
  show "swap_words (swap_words w) = w"
    unfolding word_bytes_inject [symmetric, of _ w] by (simp add: swap_words_pairs)
qed

section \<open>Byte order\<close>

text \<open>The bytes of words of \<open>k\<close> bytes, each word reversed.\<close>

function rev_words :: "nat \<Rightarrow> byte list \<Rightarrow> byte list" where
  "rev_words k bs = (if k = 0 \<or> bs = [] then [] else rev (take k bs) @ rev_words k (drop k bs))"
  by pat_completeness auto
termination
  by (relation "measure (\<lambda>(k, bs). length bs)") auto

declare rev_words.simps [simp del]

lemma rev_words_Nil [simp]: "rev_words k [] = []"
  by (simp add: rev_words.simps)

lemma rev_words_word: "length w = k \<Longrightarrow> 0 < k \<Longrightarrow> rev_words k (w @ bs) = rev w @ rev_words k bs"
  by (subst rev_words.simps) auto

lemma words_induct [consumes 1, case_names Nil word]:
  assumes "k dvd length bs" "P []" "\<And>w bs. length w = k \<Longrightarrow> 0 < k \<Longrightarrow> k dvd length bs \<Longrightarrow> P bs \<Longrightarrow> P (w @ bs)"
  shows "P (bs :: byte list)"
  using assms(1)
proof (induction bs rule: length_induct)
  case (1 bs)
  show ?case
  proof (cases "bs = [] \<or> k = 0")
    case False
    then have "k \<le> length bs" "0 < k"
      using 1(2) by (simp_all add: dvd_imp_le)
    then have "P (take k bs @ drop k bs)"
      using 1 False by (intro assms(3)) (auto simp: dvd_minus_self)
    then show ?thesis
      by simp
  qed (use 1(2) assms(2) in auto)
qed

lemma length_rev_words [simp]: "k dvd length bs \<Longrightarrow> length (rev_words k bs) = length bs"
  by (induction rule: words_induct) (simp_all add: rev_words_word)

lemma rev_words_append: "k dvd length xs \<Longrightarrow> rev_words k (xs @ ys) = rev_words k xs @ rev_words k ys"
  by (induction rule: words_induct) (simp_all add: rev_words_word)

lemma rev_words_twice: "k dvd length bs \<Longrightarrow> rev_words k (rev_words k bs) = bs"
  by (induction rule: words_induct) (simp_all add: rev_words_word)

lemma take_rev_words: "k dvd n \<Longrightarrow> n \<le> length bs \<Longrightarrow> take n (rev_words k bs) = rev_words k (take n bs)"
  using rev_words_append [of k "take n bs" "drop n bs"] by simp

text \<open>The order on the wire as the settings ask for, and the order the controller shifts its registers out in.\<close>

definition wire_order :: "spi_endianness_t \<Rightarrow> spi_word_size_t \<Rightarrow> byte list \<Rightarrow> byte list" where
  "wire_order e ws bs = (if e = SPI_BIG_ENDIAN then rev_words (word_size_bytes ws) bs else bs)"

definition shift_order :: "spi_endianness_t \<Rightarrow> byte list \<Rightarrow> byte list" where
  "shift_order e bs = (if e = SPI_BIG_ENDIAN then rev_words 4 bs else bs)"

lemma reg_bytes_append: "reg_bytes (V @ W) = reg_bytes V @ reg_bytes W"
  by (simp add: reg_bytes_def)

lemma length_wire_order [simp]: "word_size_bytes ws dvd length bs \<Longrightarrow> length (wire_order e ws bs) = length bs"
  by (simp add: wire_order_def)

lemma wire_order_twice: "word_size_bytes ws dvd length bs \<Longrightarrow> wire_order e ws (wire_order e ws bs) = bs"
  by (simp add: wire_order_def rev_words_twice)

lemma wire_order_append: "word_size_bytes ws dvd length xs \<Longrightarrow> wire_order e ws (xs @ ys) = wire_order e ws xs @ wire_order e ws ys"
  by (simp add: wire_order_def rev_words_append)

definition swap_for :: "spi_word_size_t \<Rightarrow> u32 \<Rightarrow> u32" where
  "swap_for ws = (case ws of SPI_8BIT \<Rightarrow> swap_bytes | SPI_16BIT \<Rightarrow> swap_words | SPI_32BIT \<Rightarrow> id)"

lemma swap_for_order: "rev (word_bytes (swap_for ws w)) = rev_words (word_size_bytes ws) (word_bytes w)"
  by (cases ws; simp add: swap_for_def swap_bytes_rev swap_words_pairs; simp add: word_bytes_def rev_words.simps numeral_eq_Suc)

lemma swapped_order: "rev_words 4 (reg_bytes (map (swap_for ws) W)) = rev_words (word_size_bytes ws) (reg_bytes W)"
proof (induction W)
  case (Cons w W)
  have "word_size_bytes ws dvd length (word_bytes w)"
    by (cases ws) simp_all
  then show ?case
    using Cons by (simp add: reg_bytes_def rev_words_word swap_for_order rev_words_append)
qed (simp add: reg_bytes_def)

text \<open>The number of registers that hold \<open>len\<close> words.\<close>

definition regs_for :: "nat \<Rightarrow> spi_word_size_t \<Rightarrow> nat" where
  "regs_for len ws = (case ws of SPI_8BIT \<Rightarrow> (len + 3) div 4 | SPI_16BIT \<Rightarrow> (len + 1) div 2 | SPI_32BIT \<Rightarrow> len)"

lemma regs_for_bounds: "len * word_size_bytes ws \<le> 64 \<Longrightarrow> len * word_size_bytes ws \<le> 4 * regs_for len ws \<and> regs_for len ws \<le> 16"
  by (cases ws) (simp_all add: regs_for_def, presburger+)

lemma buf_prepare_swaps:
  "len * word_size_bytes ws \<le> 64 \<Longrightarrow> spi_buf_prepare len SPI_BIG_ENDIAN ws W = map (swap_for ws) (take (regs_for len ws) W) @ drop (regs_for len ws) W"
  by (cases ws) (simp_all add: spi_buf_prepare_def swap_for_def regs_for_def Let_def)

lemma buf_prepare_little [simp]: "spi_buf_prepare len SPI_LITTLE_ENDIAN ws W = W"
  by (simp add: spi_buf_prepare_def)

lemma swap_for_twice [simp]: "swap_for ws (swap_for ws w) = w"
  by (cases ws) (simp_all add: swap_for_def)

lemma length_buf_prepare: "length W = 16 \<Longrightarrow> len * word_size_bytes ws \<le> 64 \<Longrightarrow> length (spi_buf_prepare len e ws W) = 16"
  using regs_for_bounds [of len ws] by (cases e) (simp_all add: buf_prepare_swaps)

lemma prepare_twice:
  "length W = 16 \<Longrightarrow> len * word_size_bytes ws \<le> 64 \<Longrightarrow> spi_buf_prepare len e ws (spi_buf_prepare len e ws W) = W"
  using regs_for_bounds [of len ws] by (cases e) (simp_all add: buf_prepare_swaps comp_def)

text \<open>
  After the preparation the controller shifts the words out in the order asked for, and after the preparation
  of what it has shifted in, the words are in memory order.
\<close>

lemma sent_in_order:
  assumes "length W = 16" "n = len * word_size_bytes ws" "n \<le> 64"
  shows "take n (shift_order e (reg_bytes (spi_buf_prepare len e ws W))) = wire_order e ws (take n (reg_bytes W))"
proof (cases e)
  case SPI_LITTLE_ENDIAN
  then show ?thesis
    by (simp add: shift_order_def wire_order_def)
next
  case SPI_BIG_ENDIAN
  let ?c = "regs_for len ws" and ?k = "word_size_bytes ws"
  have c: "n \<le> 4 * ?c" "?c \<le> 16"
    using regs_for_bounds [of len ws] assms(2,3) by simp_all
  have k: "?k dvd n"
    using assms(2) by simp
  have "take n (shift_order e (reg_bytes (spi_buf_prepare len e ws W))) = take n (rev_words 4 (reg_bytes (map (swap_for ws) (take ?c W))))"
    using SPI_BIG_ENDIAN assms c by (simp add: buf_prepare_swaps shift_order_def reg_bytes_append rev_words_append)
  also have "\<dots> = rev_words ?k (take n (reg_bytes (take ?c W)))"
    using c assms(1) k by (simp add: swapped_order take_rev_words)
  also have "take n (reg_bytes (take ?c W)) = take n (reg_bytes W)"
    using c assms(1) append_take_drop_id [of ?c W] reg_bytes_append [of "take ?c W" "drop ?c W"] by simp
  finally show ?thesis
    using SPI_BIG_ENDIAN by (simp add: wire_order_def)
qed

lemma received_in_order:
  assumes "length W = 16" "n = len * word_size_bytes ws" "n \<le> 64"
  shows "take n (reg_bytes (spi_buf_prepare len e ws W)) = wire_order e ws (take n (shift_order e (reg_bytes W)))"
proof -
  let ?W = "spi_buf_prepare len e ws W"
  have "length ?W = 16" "spi_buf_prepare len e ws ?W = W"
    using assms by (simp_all add: length_buf_prepare prepare_twice)
  then have "take n (shift_order e (reg_bytes W)) = wire_order e ws (take n (reg_bytes ?W))"
    using sent_in_order [of ?W n len ws e] assms(2,3) by simp
  then show ?thesis
    using assms \<open>length ?W = 16\<close> by (simp add: wire_order_twice)
qed

section \<open>A device on the bus\<close>

text \<open>Transactions without command, address and dummy phases, in both directions at once.\<close>

definition plain :: "SPI_REGS \<Rightarrow> bool" where
  "plain r \<longleftrightarrow> bit (r_USER0 r) 27 \<and> bit (r_USER0 r) 0 \<and> \<not> bit (r_USER0 r) 31 \<and> \<not> bit (r_USER0 r) 30 \<and> \<not> bit (r_USER0 r) 29 \<and>
     \<not> bit (r_USER0 r) 28 \<and> bit (r_USER0 r) 11 = bit (r_USER0 r) 10"

text \<open>
  What controller and device promise: a transaction of \<open>n\<close> bytes shifts out the first \<open>n\<close> bytes of the data registers,
  starting with the most significant byte of each register in big endian order, and shifts in as many. The device
  answers to a stream of bytes, however it is cut into transactions.
\<close>

locale spi_device =
  fixes tr :: "'w transaction" and bus :: nat and exchange :: "byte list \<Rightarrow> 'w \<Rightarrow> byte list \<times> 'w"
  assumes length_exchange [simp]: "length (fst (exchange bs w)) = length bs"
    and exchange_Nil [simp]: "exchange [] w = ([], w)"
    and stream: "exchange (xs @ ys) w =
      (fst (exchange xs w) @ fst (exchange ys (snd (exchange xs w))), snd (exchange ys (snd (exchange xs w))))"
    and transact: "plain r \<Longrightarrow> length (r_W r) = 16 \<Longrightarrow> 0 < n \<Longrightarrow> n \<le> 64 \<Longrightarrow> FIELD2VAL 17 9 (r_USER1 r) = of_nat (8 * n - 1) \<Longrightarrow>
      FIELD2VAL 8 9 (r_USER1 r) = of_nat (8 * n - 1) \<Longrightarrow>
      length (fst (tr bus r w)) = 16 \<and>
      exchange (take n (shift_order (regs_endianness r) (reg_bytes (r_W r)))) w =
        (take n (shift_order (regs_endianness r) (reg_bytes (fst (tr bus r w)))), snd (tr bus r w))"

lemma SET_FIELD_bf_set: "take_bit n v = v \<Longrightarrow> SET_FIELD off n r v = bf_set off n v r"
  by (simp add: SET_FIELD_def bf_set_def)

lemma FIELD2VAL_bf_get: "FIELD2VAL off n r = bf_get off n r"
  by (simp add: FIELD2VAL_def bf_get_def take_bit_eq_mask)

lemma size_bits:
  assumes "0 < n" "n \<le> 64"
  shows "push_bit 3 (of_nat (n mod 256)) - 1 = (of_nat (8 * n - 1) :: u32)" "take_bit 9 (of_nat (8 * n - 1) :: u32) = of_nat (8 * n - 1)"
proof -
  have "push_bit 3 (of_nat n) = (of_nat (8 * n) :: u32)"
    by (simp add: push_bit_eq_mult)
  then show "push_bit 3 (of_nat (n mod 256)) - 1 = (of_nat (8 * n - 1) :: u32)"
    using assms by (simp add: of_nat_diff)
  have "take_bit 9 (8 * n - 1) = 8 * n - 1"
    using assms by (intro take_bit_nat_eq_self) simp
  then show "take_bit 9 (of_nat (8 * n - 1) :: u32) = of_nat (8 * n - 1)"
    by (simp only: take_bit_of_nat)
qed

lemma set_size_fields:
  assumes "0 < n" "n \<le> 64"
  shows "FIELD2VAL 17 9 (r_USER1 (SPI (set_size bus n s) bus)) = of_nat (8 * n - 1)" "FIELD2VAL 8 9 (r_USER1 (SPI (set_size bus n s) bus)) = of_nat (8 * n - 1)"
  using size_bits [OF assms] by (simp_all add: set_size_def Let_def upd_regs_def FIELD2VAL_bf_get SET_FIELD_bf_set field_simps_bits)

definition bus_ready :: "nat \<Rightarrow> spi_endianness_t \<Rightarrow> 'w spi_state \<Rightarrow> bool" where
  "bus_ready bus e s \<longleftrightarrow> plain (SPI s bus) \<and> length (r_W (SPI s bus)) = 16 \<and> regs_endianness (SPI s bus) = e \<and> extras_status s bus = 0"

lemma and_BIT: "u AND BIT n = 0 \<longleftrightarrow> \<not> bit u n" for u :: u32
  unfolding BIT_def push_bit_of_1 by (rule and_exp_eq_0_iff_not_bit)

lemma bit_BIT: "bit (BIT n) k \<longleftrightarrow> k = n \<and> n < 32"
  by (auto simp: BIT_def bit_simps)

lemma rearm_ready: "bus_ready bus e s \<Longrightarrow> rearm_extras_bit bus arm s = s"
proof -
  assume r: "bus_ready bus e s"
  have "r_USER0 (SPI s bus) AND BIT 30 = 0" "r_USER0 (SPI s bus) AND BIT 31 = 0" "r_USER0 (SPI s bus) AND BIT 29 = 0"
    using r unfolding and_BIT by (simp_all add: bus_ready_def plain_def)
  moreover have "s\<lparr>extras_status := (extras_status s)(bus := 0)\<rparr> = s"
    using r by (simp add: bus_ready_def fun_upd_idem)
  ultimately show ?thesis
    using r by (auto simp: rearm_extras_bit_def bus_ready_def set_status_def Let_def)
qed

lemma word_size_64: "word_size_bytes ws dvd 64"
  by (cases ws) simp_all

lemma take_replicated: "length d = k \<Longrightarrow> q \<le> m \<Longrightarrow> take (q * k) (concat (replicate m d)) = concat (replicate q d)"
proof -
  assume a: "length d = k" "q \<le> m"
  have "length (concat (replicate q d)) = q * k"
    using a(1) by (induction q) simp_all
  moreover have "concat (replicate m d) = concat (replicate q d) @ concat (replicate (m - q) d)"
    using a(2) by (metis concat_append le_add_diff_inverse replicate_add)
  ultimately show ?thesis
    by simp
qed

lemma concat_replicate_twice: "concat (replicate m (concat (replicate q d))) = concat (replicate (m * q) d)"
  by (induction m) (simp_all add: replicate_add)

text \<open>A register filled with copies of a word, as it is shifted out.\<close>

definition copies :: "u32 \<Rightarrow> byte list \<Rightarrow> bool" where
  "copies dword d \<longleftrightarrow> length d \<in> {1, 2, 4} \<and> word_bytes dword = concat (replicate (4 div length d) d)"

lemma shifted_copies:
  assumes "copies dword d" "n = q * length d" "n \<le> 4 * m" "m \<le> length W"
  shows "take n (shift_order e (reg_bytes (replicate m dword @ drop m W))) = concat (replicate q (if e = SPI_BIG_ENDIAN then rev d else d))"
proof -
  let ?k = "length d" and ?d = "if e = SPI_BIG_ENDIAN then rev d else d"
  have k: "4 div ?k * ?k = 4" "0 < ?k"
    using assms(1) by (auto simp: copies_def)
  have one: "shift_order e (word_bytes dword @ bs) = concat (replicate (4 div ?k) ?d) @ shift_order e bs" for bs
  proof -
    have "shift_order e (word_bytes dword @ bs) = (if e = SPI_BIG_ENDIAN then rev (word_bytes dword) else word_bytes dword) @ shift_order e bs"
      by (simp add: shift_order_def rev_words_word)
    then show ?thesis
      using assms(1) by (simp add: copies_def rev_concat)
  qed
  have "shift_order e (reg_bytes (replicate m dword @ V)) = concat (replicate (m * (4 div ?k)) ?d) @ shift_order e (reg_bytes V)" for V
    by (induction m) (simp_all add: reg_bytes_def one replicate_add)
  moreover have "q * ?k \<le> m * (4 div ?k) * ?k"
    using assms(2,3) by (simp only: mult.assoc k(1))
  then have "q \<le> m * (4 div ?k)"
    using k(2) by simp
  moreover have "length (concat (replicate (m * (4 div ?k)) ?d)) = 4 * m"
    using k(1) by (simp add: length_concat sum_list_replicate mult.assoc)
  ultimately show ?thesis
    using assms(2,3) take_replicated [of ?d ?k q "m * (4 div ?k)"] by simp
qed

context spi_device begin

text \<open>
  The state after \<open>n\<close> bytes from offset \<open>off\<close> of the buffers have been exchanged.
\<close>

definition moved ::
  "spi_endianness_t \<Rightarrow> spi_word_size_t \<Rightarrow> byte list \<Rightarrow> nat \<Rightarrow> nat \<Rightarrow> byte list option \<Rightarrow> 'w spi_state \<Rightarrow> byte list option \<Rightarrow> 'w spi_state \<Rightarrow> bool" where
  "moved e ws out off n inb s inb' s' \<longleftrightarrow> bus_ready bus e s' \<and>
     spi_world s' = snd (exchange (wire_order e ws (block_at off n out)) (spi_world s)) \<and>
     inb' = map_option (\<lambda>buf. take off buf @ wire_order e ws (fst (exchange (wire_order e ws (block_at off n out)) (spi_world s))) @ drop (off + n) buf) inb"

lemma moved_append:
  assumes "moved e ws out off n inb s inb1 s1" "moved e ws out (off + n) m inb1 s1 inb2 s2"
    and "word_size_bytes ws dvd n" "word_size_bytes ws dvd m" "off + n + m \<le> length out" "\<forall>buf. inb = Some buf \<longrightarrow> off + n + m \<le> length buf"
  shows "moved e ws out off (n + m) inb s inb2 s2"
proof -
  let ?x = "wire_order e ws (block_at off n out)" and ?y = "wire_order e ws (block_at (off + n) m out)"
  have l: "length (block_at off n out) = n" "length (block_at (off + n) m out) = m"
    using assms(5) by (simp_all add: block_at_length)
  then have b: "wire_order e ws (block_at off (n + m) out) = ?x @ ?y"
    using assms(3) by (simp add: block_at_split wire_order_append)
  have f: "length (fst (exchange ?x (spi_world s))) = n"
    using l assms(3) by simp
  have w: "wire_order e ws (fst (exchange (?x @ ?y) (spi_world s))) =
      wire_order e ws (fst (exchange ?x (spi_world s))) @ wire_order e ws (fst (exchange ?y (spi_world s1)))"
    using assms(1,3) f by (simp add: stream wire_order_append moved_def)
  show ?thesis
  proof (cases inb)
    case None
    then show ?thesis
      using assms(1,2) by (simp add: moved_def b stream)
  next
    case (Some buf)
    have "length (wire_order e ws (fst (exchange ?x (spi_world s)))) = n"
      using f assms(3) by simp
    then show ?thesis
      using Some assms(1,2,6) by (simp add: moved_def b w) (simp add: stream ac_simps)
  qed
qed

lemma buf_transfer:
  assumes "bus_ready bus e s" "n = len * word_size_bytes ws" "0 < n" "n \<le> 64" "off + n \<le> length out" "\<forall>buf. inb = Some buf \<longrightarrow> off + n \<le> length buf"
  shows "\<exists>inb' s'. spi_buf_transfer tr bus out inb off len e ws s = Some (inb', s') \<and> moved e ws out off n inb s inb' s' \<and> minimal s' = minimal s"
proof -
  let ?out = "block_at off n out"
  have lo: "length ?out = n" "word_size_bytes ws dvd n"
    using assms(2,5) by (simp_all add: block_at_length)
  define s1 where "s1 = set_size bus n s"
  define W where "W = copy_to_W ?out (r_W (SPI s1 bus))"
  define s2 where "s2 = set_W bus (spi_buf_prepare len e ws W) s1"
  define s3 where "s3 = run_transaction tr bus s2"
  have s1: "bus_ready bus e s1" "spi_world s1 = spi_world s" "minimal s1 = minimal s"
    using assms(1) by (simp_all add: s1_def set_size_def Let_def upd_regs_def bus_ready_def plain_def regs_endianness_def)
  have W: "length W = 16" "take n (reg_bytes W) = ?out"
    using copy_to_W [of "r_W (SPI s1 bus)" ?out] lo s1(1) assms(4) by (simp_all add: W_def bus_ready_def)
  have s2: "bus_ready bus e s2" "spi_world s2 = spi_world s" "r_W (SPI s2 bus) = spi_buf_prepare len e ws W" "r_USER1 (SPI s2 bus) = r_USER1 (SPI s1 bus)"
    "minimal s2 = minimal s"
    using s1 W(1) assms(2,4) by (simp_all add: s2_def set_W_def upd_regs_def bus_ready_def plain_def regs_endianness_def length_buf_prepare)
  obtain V w where V: "tr bus (SPI s2 bus) (spi_world s) = (V, w)"
    by fastforce
  have "length V = 16 \<and> exchange (take n (shift_order e (reg_bytes (r_W (SPI s2 bus))))) (spi_world s) = (take n (shift_order e (reg_bytes V)), w)"
    using transact [of "SPI s2 bus" n "spi_world s"] s2 V assms(3,4) set_size_fields [OF assms(3,4), of bus s] by (simp add: bus_ready_def s1_def)
  then have x: "length V = 16" "exchange (wire_order e ws ?out) (spi_world s) = (take n (shift_order e (reg_bytes V)), w)"
    using sent_in_order [OF W(1) assms(2,4), of e] W(2) s2(3) by simp_all
  have s3: "s3 = (set_W bus V s2)\<lparr>spi_world := w\<rparr>"
    using V s2(2) by (simp add: s3_def run_transaction_def)
  have u: "take n (reg_bytes (spi_buf_prepare len e ws V)) = wire_order e ws (fst (exchange (wire_order e ws ?out) (spi_world s)))"
    using received_in_order [OF x(1) assms(2,4), of e] x(2) by simp
  have r: "bus_ready bus e (set_W bus U s3)" if "length U = 16" for U
    using s2(1) that by (simp add: s3 set_W_def upd_regs_def bus_ready_def plain_def regs_endianness_def)
  have V3: "r_W (SPI s3 bus) = V"
    by (simp add: s3 set_W_def upd_regs_def)
  have t: "spi_buf_transfer tr bus out inb off len e ws s =
      (case inb of None \<Rightarrow> Some (None, s3)
       | Some buf \<Rightarrow> map_option (\<lambda>buf'. (Some buf', set_W bus (spi_buf_prepare len e ws V) s3)) (write_block buf off (take n (reg_bytes (spi_buf_prepare len e ws V)))))"
    using assms(5) by (cases inb) (simp_all add: spi_buf_transfer_def Let_def assms(2) [symmetric] s1_def [symmetric] W_def [symmetric] s2_def [symmetric] s3_def [symmetric] V3)
  show ?thesis
  proof (cases inb)
    case None
    have "bus_ready bus e s3"
      using r [OF x(1)] by (simp add: s3 set_W_def upd_regs_def bus_ready_def)
    then show ?thesis
      using None t x(2) s2(5) by (simp add: moved_def s3 set_W_def upd_regs_def)
  next
    case (Some buf)
    have "write_block buf off (take n (reg_bytes (spi_buf_prepare len e ws V))) =
        Some (take off buf @ wire_order e ws (fst (exchange (wire_order e ws ?out) (spi_world s))) @ drop (off + n) buf)"
      using Some assms(6) lo unfolding u by (simp add: write_block_def)
    then show ?thesis
      using Some t x s2(5) r [OF length_buf_prepare [OF x(1), of len ws e]] assms(2,4)
      by (simp add: moved_def) (simp add: s3 set_W_def upd_regs_def)
  qed
qed


lemma transfer_blocks:
  assumes "bus_ready bus e s" "64 = buf_size * word_size_bytes ws" "j \<le> b" "64 * b \<le> length out" "\<forall>buf. inb = Some buf \<longrightarrow> 64 * b \<le> length buf"
  shows "\<exists>inb' s'. transfer_blocks tr bus out inb buf_size e ws [j..<b] s = Some (inb', s') \<and> moved e ws out (64 * j) (64 * (b - j)) inb s inb' s' \<and> minimal s' = minimal s"
  using assms(1,3,5)
proof (induction "b - j" arbitrary: j inb s)
  case 0
  then show ?case
    by (cases inb) (simp_all add: moved_def block_at_def wire_order_def)
next
  case (Suc m)
  have u: "[j..<b] = j # [Suc j..<b]" "Suc j \<le> b" "m = b - Suc j" "64 * (b - j) = 64 + 64 * (b - Suc j)"
    using Suc.hyps(2) by (simp_all add: upt_conv_Cons)
  note w = word_size_64 [of ws]
  obtain in1 s1 where t: "spi_buf_transfer tr bus out inb (j * 64) buf_size e ws s = Some (in1, s1)" "moved e ws out (64 * j) 64 inb s in1 s1" "minimal s1 = minimal s"
    using buf_transfer [OF Suc.prems(1) assms(2), of "64 * j" out inb] u(2) assms(4) Suc.prems(3) by (fastforce simp: mult.commute)
  have r: "bus_ready bus e s1"
    using t(2) by (simp add: moved_def)
  have l: "\<forall>buf. in1 = Some buf \<longrightarrow> 64 * b \<le> length buf"
    using t(2) u(2) assms(4) Suc.prems(3) w by (auto simp: moved_def block_at_length)
  obtain in2 s2 where t2: "transfer_blocks tr bus out in1 buf_size e ws [Suc j..<b] s1 = Some (in2, s2)"
    "moved e ws out (64 * Suc j) (64 * (b - Suc j)) in1 s1 in2 s2" "minimal s2 = minimal s1"
    using Suc.hyps(1) [OF u(3) r u(2) l] by blast
  have "moved e ws out (64 * j) (64 + 64 * (b - Suc j)) inb s in2 s2"
    by (rule moved_append [OF t(2)]) (use t2(2) w u(2) assms(4) Suc.prems(3) in \<open>auto simp: add.commute\<close>)
  then show ?case
    using t(1,3) t2(1,3) u(1,4) rearm_ready [OF r] by simp
qed

lemma transfer:
  assumes "bus_ready bus e s" "n = len * word_size_bytes ws" "n \<le> length out" "\<forall>buf. inb = Some buf \<longrightarrow> n \<le> length buf"
  shows "\<exists>inb' s'. spi_transfer tr bus (Some out) inb len ws s = Some (len, inb', s') \<and> moved e ws out 0 n inb s inb' s'"
proof (cases "len = 0")
  case True
  then show ?thesis
    using assms by (cases inb) (simp_all add: spi_transfer_def moved_def block_at_def wire_order_def)
next
  case False
  define bs where "bs = 64 div word_size_bytes ws"
  define b where "b = len div bs"
  define t where "t = len mod bs"
  have bs: "64 = bs * word_size_bytes ws" "0 < bs"
    unfolding bs_def by (cases ws; simp)+
  note w = word_size_64 [of ws]
  have len: "len = b * bs + t" "t < bs"
    using bs(2) by (simp_all add: b_def t_def)
  then have n: "n = 64 * b + t * word_size_bytes ws" "t * word_size_bytes ws \<le> 64"
    using assms(2) bs mult_le_mono1 [of t bs "word_size_bytes ws"] by (simp_all add: add_mult_distrib)
  have e: "spi_get_endianness bus s = e"
    using assms(1) by (simp add: bus_ready_def spi_get_endianness_def)
  obtain in1 s1 where t1: "transfer_blocks tr bus out inb bs e ws [0..<b] s = Some (in1, s1)" "moved e ws out 0 (64 * b) inb s in1 s1" "minimal s1 = minimal s"
    using transfer_blocks [OF assms(1) bs(1), of 0 b out inb] assms(3,4) n(1) by fastforce
  have r1: "bus_ready bus e s1"
    using t1(2) by (simp add: moved_def)
  have l: "\<forall>buf. in1 = Some buf \<longrightarrow> n \<le> length buf"
    using t1(2) assms(3,4) n(1) w by (auto simp: moved_def block_at_length)
  obtain in2 s2 where t2: "(if t \<noteq> 0 then spi_buf_transfer tr bus out in1 (b * 64) t e ws s1 else Some (in1, s1)) = Some (in2, s2)" "moved e ws out 0 n inb s in2 s2"
  proof (cases "t = 0")
    case True
    then show ?thesis
      using t1(2) n(1) that by simp
  next
    case False
    obtain in2 s2 where "spi_buf_transfer tr bus out in1 (64 * b) t e ws s1 = Some (in2, s2)" "moved e ws out (64 * b) (t * word_size_bytes ws) in1 s1 in2 s2"
      using buf_transfer [OF r1 refl _ n(2), of "64 * b" out in1] False assms(3) n(1) l by (cases ws) fastforce+
    moreover from this(2) have "moved e ws out 0 n inb s in2 s2"
      using moved_append [OF t1(2), of "t * word_size_bytes ws" in2 s2] w n(1) assms(3,4) by simp
    ultimately show ?thesis
      using that False by (simp add: mult.commute)
  qed
  have "bus_ready bus e s2"
    using t2(2) by (simp add: moved_def)
  then have "rearm_extras_bit bus True s2 = s2" "rearm_extras_bit bus True s1 = s1"
    using r1 by (simp_all add: rearm_ready)
  then show ?thesis
    using False t1(1) t2 e by (auto simp: spi_transfer_def Let_def bs_def [symmetric] b_def [symmetric] t_def [symmetric] split: if_splits)
qed


lemma repeat_send:
  assumes "bus_ready bus e s" "copies dword d" "repeats < 2 ^ 30"
  shows "\<exists>s'. repeat_send_loop tr bus dword repeats (length d) i s = Some s' \<and> bus_ready bus e s' \<and>
    spi_world s' = snd (exchange (concat (replicate (nat repeats) (if e = SPI_BIG_ENDIAN then rev d else d))) (spi_world s))"
  using assms(1,3)
proof (induction "nat repeats" arbitrary: repeats i s rule: less_induct)
  case less
  let ?d = "if e = SPI_BIG_ENDIAN then rev d else d" and ?k = "length d"
  note ready = less.prems(1)
  show ?case
  proof (cases "repeats > 0")
    case False
    then show ?thesis
      using ready by (subst repeat_send_loop.simps) (simp add: rearm_ready)
  next
    case True
    define N where "N = nat repeats * ?k"
    define n where "n = (if N > 64 then 64 else N)"
    define q where "q = n div ?k"
    define m where "m = (n + 3) div 4"
    have k: "?k \<in> {1, 2, 4}" "?k dvd 64" "0 < ?k"
      using assms(2) by (auto simp: copies_def)
    have "?k dvd n"
      using k(2) by (simp add: n_def N_def)
    then have q: "n = q * ?k"
      by (simp add: q_def)
    have N: "N < 2 ^ 32" "0 < N"
      using True less.prems(2) k(1) by (auto simp: N_def)
    have n: "0 < n" "n \<le> 64" "n \<le> 4 * m" "m \<le> 16"
      using N(2) by (auto simp: n_def m_def)
    have "n \<le> N"
      by (simp add: n_def)
    then have q0: "0 < q" "q \<le> nat repeats"
      using n(1) k(3) unfolding q N_def by simp_all
    have u: "unat (of_int repeats * of_nat ?k :: u32) = N"
    proof -
      have "of_int repeats * of_nat ?k = (of_nat N :: u32)"
        using True by (simp add: N_def)
      then show ?thesis
        using N(1) by (simp add: unat_of_nat take_bit_nat_eq_self)
    qed
    then have nn: "(if (of_int repeats * of_nat ?k :: u32) > 64 then 64 else unat (of_int repeats * of_nat ?k :: u32)) = n"
      by (simp add: word_less_nat_alt n_def)
    define s1 where "s1 = set_size bus n s"
    define s2 where "s2 = set_W bus (replicate m dword @ drop m (r_W (SPI s1 bus))) s1"
    have s1: "bus_ready bus e s1" "spi_world s1 = spi_world s"
      using ready by (simp_all add: s1_def set_size_def Let_def upd_regs_def bus_ready_def plain_def regs_endianness_def)
    have s2: "bus_ready bus e s2" "spi_world s2 = spi_world s" "r_W (SPI s2 bus) = replicate m dword @ drop m (r_W (SPI s1 bus))" "r_USER1 (SPI s2 bus) = r_USER1 (SPI s1 bus)"
      using s1 n(4) by (simp_all add: s2_def set_W_def upd_regs_def bus_ready_def plain_def regs_endianness_def)
    have lW: "length (r_W (SPI s1 bus)) = 16"
      using s1(1) by (simp add: bus_ready_def)
    have o: "take n (shift_order e (reg_bytes (r_W (SPI s2 bus)))) = concat (replicate q ?d)"
      unfolding s2(3) by (rule shifted_copies [OF assms(2) q n(3)]) (use n(4) lW in simp)
    obtain V w where V: "tr bus (SPI s2 bus) (spi_world s) = (V, w)"
      by fastforce
    have x: "length V = 16" "w = snd (exchange (concat (replicate q ?d)) (spi_world s))"
      using transact [of "SPI s2 bus" n "spi_world s"] s2 V n(1,2) o set_size_fields [OF n(1,2), of bus s] by (auto simp: bus_ready_def s1_def)
    define s3 where "s3 = run_transaction tr bus s2"
    have s3: "bus_ready bus e s3" "spi_world s3 = w"
      using V s2 x(1) by (simp_all add: s3_def run_transaction_def set_W_def upd_regs_def bus_ready_def plain_def regs_endianness_def)
    have step: "repeat_send_loop tr bus dword repeats ?k i s = repeat_send_loop tr bus dword (repeats - int q) ?k m s3"
      by (subst repeat_send_loop.simps)
        (use True nn rearm_ready [OF ready] in \<open>simp add: Let_def q_def m_def s3_def s2_def s1_def\<close>)
    have "nat repeats = q + nat (repeats - int q)"
      using q0(2) by simp
    then have "concat (replicate (nat repeats) ?d) = concat (replicate q ?d) @ concat (replicate (nat (repeats - int q)) ?d)"
      by (metis concat_append replicate_add)
    moreover have "nat (repeats - int q) < nat repeats" "repeats - int q < 2 ^ 30"
      using q0(1) True less.prems(2) by simp_all
    ultimately show ?thesis
      using less.hyps [of "repeats - int q" s3 m] s3 x(2) step by (simp add: stream)
  qed
qed

end

end
