(* ===== verification/Spi_Device.thy ===== *)
theory Spi_Device
  imports Spi_Transfer
begin

unbundle bit_operations_syntax

text \<open>
  The settings of an SPI bus, the phases around the data, a simulated device, and the properties of the driver.
\<close>

section \<open>Settings\<close>

lemmas regs_simps = upd_regs_def set_USER0_def

lemma upd_regs_other [simp]:
  "minimal (upd_regs bus f s) = minimal s" "extras_status (upd_regs bus f s) = extras_status s" "SPI (upd_regs bus f s) bus = f (SPI s bus)"
  by (simp_all add: upd_regs_def)

lemma set_USER0_regs [simp]:
  "minimal (set_USER0 bus f s) = minimal s" "extras_status (set_USER0 bus f s) = extras_status s"
  "SPI (set_USER0 bus f s) bus = (SPI s bus)\<lparr>r_USER0 := f (r_USER0 (SPI s bus))\<rparr>"
  by (simp_all add: set_USER0_def)

lemma set_pins [simp]:
  "SPI (foldl (\<lambda>s pin. gpio_set_iomux_function pin func s) s pins) = SPI s"
  "minimal (foldl (\<lambda>s pin. gpio_set_iomux_function pin func s) s pins) = minimal s"
  by (induction pins arbitrary: s) (simp_all add: gpio_set_iomux_function_def Let_def)

lemma set_frequency_regs [simp]:
  "minimal (spi_set_frequency_div bus d s) = minimal s"
  "r_USER0 (SPI (spi_set_frequency_div bus d s) bus) = r_USER0 (SPI s bus)"
  by (simp_all add: spi_set_frequency_div_def Let_def regs_simps)

lemma set_mode_regs [simp]: "minimal (spi_set_mode bus m s) = minimal s" "r_CLOCK (SPI (spi_set_mode bus m s) bus) = r_CLOCK (SPI s bus)"
  by (simp_all add: spi_set_mode_def Let_def)

lemma set_msb_regs [simp]:
  "minimal (spi_set_msb bus b s) = minimal s" "r_CLOCK (SPI (spi_set_msb bus b s) bus) = r_CLOCK (SPI s bus)"
  "r_USER0 (SPI (spi_set_msb bus b s) bus) = r_USER0 (SPI s bus)" "r_PIN (SPI (spi_set_msb bus b s) bus) = r_PIN (SPI s bus)"
  by (simp_all add: spi_set_msb_def)

lemma set_endianness_regs [simp]:
  "minimal (spi_set_endianness bus e s) = minimal s" "r_CLOCK (SPI (spi_set_endianness bus e s) bus) = r_CLOCK (SPI s bus)"
  "r_CTRL0 (SPI (spi_set_endianness bus e s) bus) = r_CTRL0 (SPI s bus)" "r_PIN (SPI (spi_set_endianness bus e s) bus) = r_PIN (SPI s bus)"
  by (simp_all add: spi_set_endianness_def)

lemma and_BITs: "u AND (BIT n OR BIT m) = 0 \<longleftrightarrow> \<not> bit u n \<and> \<not> bit u m" for u :: u32
  unfolding bit.conj_disj_distrib or_eq_0_iff and_BIT by (rule refl)

lemma get_set_endianness: "spi_get_endianness bus (spi_set_endianness bus e s) = e"
  unfolding spi_get_endianness_def regs_endianness_def and_BITs
  by (cases e) (simp_all add: spi_set_endianness_def bit_or_iff bit_and_iff bit_not_iff bit_BIT)

lemma get_set_msb: "spi_get_msb bus (spi_set_msb bus b s) = b"
  unfolding spi_get_msb_def and_BITs
  by (cases b) (simp_all add: spi_set_msb_def bit_or_iff bit_and_iff bit_not_iff bit_BIT)

lemma get_set_mode: "m < 4 \<Longrightarrow> spi_get_mode bus (spi_set_mode bus m s) = m"
proof -
  assume "m < 4"
  then have "unat m < 4"
    by (simp add: word_less_nat_alt)
  then have "unat m \<in> {0, 1, 2, 3}"
    by auto
  moreover have "k \<in> {0, 1, 2, 3} \<Longrightarrow> (of_nat k :: byte) \<in> {0, 1, 2, 3}" for k
    by auto
  ultimately have "of_nat (unat m) \<in> {0, 1, 2, 3 :: byte}"
    by blast
  then have "m \<in> {0, 1, 2, 3}"
    by simp
  then show ?thesis
    unfolding spi_get_mode_def and_BIT
    by (auto simp: spi_set_mode_def Let_def bit_or_iff bit_and_iff bit_not_iff bit_BIT)
qed

lemma get_mode_kept: "spi_get_mode bus (spi_set_endianness bus e s) = spi_get_mode bus s" "spi_get_mode bus (spi_set_msb bus b s) = spi_get_mode bus s"
  unfolding spi_get_mode_def and_BIT
  by (simp_all add: spi_set_endianness_def bit_or_iff bit_and_iff bit_not_iff bit_BIT)

text \<open>
  A divider as \<^verbatim>\<open>SPI_GET_FREQ_DIV\<close> makes it, the fields of the clock register it leads to, and what is read back.
\<close>

definition freq_div :: "nat \<Rightarrow> nat \<Rightarrow> u32" where
  "freq_div divider count = push_bit 16 (of_nat count) OR (of_nat divider AND 0xffff)"

lemma clock_fields:
  "FIELD2VAL 18 13 (VAL2FIELD_M 18 13 p OR VAL2FIELD_M 12 6 c OR VAL2FIELD_M 6 6 h OR VAL2FIELD_M 0 6 l) = take_bit 13 p"
  "FIELD2VAL 12 6 (VAL2FIELD_M 18 13 p OR VAL2FIELD_M 12 6 c OR VAL2FIELD_M 6 6 h OR VAL2FIELD_M 0 6 l) = take_bit 6 c"
  by (auto intro!: bit_word_eqI simp: FIELD2VAL_def VAL2FIELD_M_def bit_simps)

lemma freq_div_parts:
  assumes "0 < divider" "divider \<le> 8192" "0 < count" "count \<le> 64"
  shows "(freq_div divider count AND 0xffff) - 1 = of_nat (divider - 1)" "drop_bit 16 (freq_div divider count) - 1 = of_nat (count - 1)"
proof -
  have m: "(0xffff :: u32) = mask 16"
    by (simp add: mask_eq_exp_minus_1)
  have "freq_div divider count AND 0xffff = take_bit 16 (of_nat divider)"
    unfolding freq_div_def m by (rule bit_word_eqI) (auto simp: bit_simps)
  also have "\<dots> = of_nat (take_bit 16 divider)"
    by (rule take_bit_of_nat)
  finally show "(freq_div divider count AND 0xffff) - 1 = of_nat (divider - 1)"
    using assms by (simp add: take_bit_nat_eq_self of_nat_diff)
  have "drop_bit 16 (freq_div divider count) = take_bit 16 (of_nat count)"
    unfolding freq_div_def m by (rule bit_word_eqI) (auto simp: bit_simps)
  also have "\<dots> = of_nat (take_bit 16 count)"
    by (rule take_bit_of_nat)
  finally show "drop_bit 16 (freq_div divider count) - 1 = of_nat (count - 1)"
    using assms by (simp add: take_bit_nat_eq_self of_nat_diff)
qed

lemma field_of_pred: "0 < n \<Longrightarrow> n \<le> 2 ^ k \<Longrightarrow> take_bit k (of_nat (n - 1) :: u32) + 1 = of_nat n"
proof -
  assume n: "0 < n" "n \<le> 2 ^ k"
  then have "take_bit k (n - 1) = n - 1"
    by (intro take_bit_nat_eq_self) simp
  then have "take_bit k (of_nat (n - 1) :: u32) = of_nat (n - 1)"
    by (simp only: take_bit_of_nat)
  then show ?thesis
    using n(1) by (simp add: of_nat_diff)
qed

lemma set_frequency_fields:
  assumes "0 < divider" "divider \<le> 8192" "0 < count" "count \<le> 64"
  shows "FIELD2VAL 18 13 (r_CLOCK (SPI (spi_set_frequency_div bus (freq_div divider count) s) bus)) + 1 = of_nat divider"
    "FIELD2VAL 12 6 (r_CLOCK (SPI (spi_set_frequency_div bus (freq_div divider count) s) bus)) + 1 = of_nat count"
proof -
  have t: "take_bit 13 (of_nat (divider - 1) :: u32) + 1 = of_nat divider" "take_bit 6 (of_nat (count - 1) :: u32) + 1 = of_nat count"
    using field_of_pred [of divider 13] field_of_pred [of count 6] assms by simp_all
  have z: "FIELD2VAL 18 13 (BIT 31) = 0" "FIELD2VAL 12 6 (BIT 31) = 0"
    by (auto intro!: bit_word_eqI simp: FIELD2VAL_def bit_BIT bit_simps)
  have "of_nat divider = (1 :: u32) \<and> of_nat count = (1 :: u32)" if "of_nat (divider - 1) = (0 :: u32)" "of_nat (count - 1) = (0 :: u32)"
    using that assms by (simp add: of_nat_diff)
  then show "FIELD2VAL 18 13 (r_CLOCK (SPI (spi_set_frequency_div bus (freq_div divider count) s) bus)) + 1 = of_nat divider"
    "FIELD2VAL 12 6 (r_CLOCK (SPI (spi_set_frequency_div bus (freq_div divider count) s) bus)) + 1 = of_nat count"
    using t unfolding spi_set_frequency_div_def Let_def freq_div_parts [OF assms] by (simp_all add: clock_fields z)
qed

lemma init_steps:
  assumes "bus \<le> 1"
  obtains s0 where "spi_init bus mode d msb e mp s = (True, spi_set_endianness bus e (spi_set_msb bus msb (spi_set_mode bus mode (spi_set_frequency_div bus d s0))))"
    "minimal s0 bus = mp"
  using assms by (simp add: spi_init_def Let_def)

lemma spi_init_settings:
  assumes "bus \<le> 1" "mode < 4" "0 < divider" "divider \<le> 8192" "0 < count" "count \<le> 64"
    and "s' = snd (spi_init bus mode (freq_div divider count) msb e mp s)"
  shows "spi_get_settings bus s' = \<lparr>st_mode = mode, st_freq_divider = of_nat divider OR of_nat count, st_msb = msb, st_endianness = e, st_minimal_pins = mp\<rparr>"
    "spi_get_frequency_hz bus s' = 80000000 div of_nat divider div of_nat count"
proof -
  obtain s0 where s0: "s' = spi_set_endianness bus e (spi_set_msb bus msb (spi_set_mode bus mode (spi_set_frequency_div bus (freq_div divider count) s0)))" "minimal s0 bus = mp"
    using assms(7) by (metis init_steps [OF assms(1)] snd_conv)
  have c: "r_CLOCK (SPI s' bus) = r_CLOCK (SPI (spi_set_frequency_div bus (freq_div divider count) s0) bus)"
    by (simp add: s0)
  have "spi_get_mode bus s' = mode"
    using get_set_mode [OF assms(2)] by (simp add: s0(1) get_mode_kept)
  moreover have "spi_get_msb bus s' = msb" "spi_get_endianness bus s' = e" "minimal s' bus = mp"
    using get_set_msb s0(2) by (simp_all add: s0(1) spi_get_msb_def get_set_endianness)
  ultimately show "spi_get_settings bus s' = \<lparr>st_mode = mode, st_freq_divider = of_nat divider OR of_nat count, st_msb = msb, st_endianness = e, st_minimal_pins = mp\<rparr>"
    "spi_get_frequency_hz bus s' = 80000000 div of_nat divider div of_nat count"
    using set_frequency_fields [OF assms(3-6), of bus s0] by (simp_all add: spi_get_settings_def spi_get_frequency_div_def spi_get_frequency_hz_def c)
qed

lemma frequency_without_count:
  assumes "take_bit 13 w = w" "w \<noteq> 0"
  shows "FIELD2VAL 18 13 (r_CLOCK (SPI (spi_set_frequency_div bus w s) bus)) + 1 = w"
    "FIELD2VAL 12 6 (r_CLOCK (SPI (spi_set_frequency_div bus w s) bus)) + 1 = 64"
proof -
  have u: "unat w < 2 ^ 13" "0 < unat w"
    using assms by (metis take_bit_nat_less_exp unsigned_take_bit_eq, simp add: unat_gt_0)
  have "w AND 0xffff = take_bit 16 w"
    by (simp add: take_bit_eq_mask mask_eq_exp_minus_1)
  also have "\<dots> = take_bit 16 (take_bit 13 w)"
    by (simp only: assms(1))
  also have "\<dots> = w"
    unfolding take_bit_take_bit by (simp add: assms(1))
  finally have a: "w AND 0xffff = w" .
  have "drop_bit 16 w = drop_bit 16 (take_bit 13 w)"
    by (simp only: assms(1))
  also have "\<dots> = 0"
    by (rule bit_word_eqI) (simp add: bit_simps)
  finally have d: "drop_bit 16 w = 0" .
  have t: "take_bit 13 (w - 1) + 1 = w"
    using field_of_pred [of "unat w" 13] u by (simp add: of_nat_diff)
  have t6: "take_bit 6 (- 1 :: u32) + 1 = 64"
    unfolding take_bit_minus_one_eq_mask mask_eq_exp_minus_1 by simp
  show "FIELD2VAL 18 13 (r_CLOCK (SPI (spi_set_frequency_div bus w s) bus)) + 1 = w"
    "FIELD2VAL 12 6 (r_CLOCK (SPI (spi_set_frequency_div bus w s) bus)) + 1 = 64"
    unfolding spi_set_frequency_div_def Let_def a d by (simp_all add: clock_fields t t6 del: take_bit_minus_one_eq_mask)
qed

lemma restored_frequency:
  assumes "bus \<le> 1" "0 < divider" "divider < 8192" "0 < count" "count \<le> 64"
  shows "spi_get_frequency_hz bus (snd (spi_init bus mode (of_nat divider OR of_nat count) msb e mp s)) = 80000000 div (of_nat divider OR of_nat count) div 64"
proof -
  define w where "w = (of_nat divider OR of_nat count :: u32)"
  have "take_bit 13 (of_nat divider :: u32) = of_nat divider" "take_bit 13 (of_nat count :: u32) = of_nat count"
    using assms(3,5) by (simp_all only: take_bit_of_nat) (simp_all add: take_bit_nat_eq_self)
  then have w: "take_bit 13 w = w"
    by (simp add: w_def take_bit_or)
  have "of_nat divider \<noteq> (0 :: u32)"
    using assms(2,3) by (simp add: word_of_nat_eq_0_iff nat_dvd_not_less)
  then have "w \<noteq> 0"
    by (simp add: w_def or_eq_0_iff)
  note f = frequency_without_count [OF w this, of bus]
  show ?thesis
    unfolding w_def [symmetric] by (rule init_steps [OF assms(1), of mode w msb e mp s]) (simp add: spi_get_frequency_hz_def f)
qed

section \<open>The phases around the data\<close>

text \<open>
  Command, address and dummy phases are switched off after the first block and on again at the end; a dummy phase
  that was not followed by a phase for input is followed by one afterwards.
\<close>

lemma phases_restored:
  assumes "minimal s bus" "extras_status s bus = 0"
  shows "r_USER0 (SPI (rearm_extras_bit bus True (rearm_extras_bit bus False s)) bus) =
    (if bit (r_USER0 (SPI s bus)) 29 then r_USER0 (SPI s bus) OR BIT 28 else r_USER0 (SPI s bus))"
  unfolding rearm_extras_bit_def and_BIT Let_def
  using assms by (auto intro!: bit_word_eqI simp: set_status_def bit_BIT bit_simps)

section \<open>A simulated device\<close>

text \<open>
  A device that keeps what it receives and answers every byte with its complement, behind a controller that
  shifts the bytes as described.
\<close>

definition sim_exchange :: "byte list \<Rightarrow> byte list \<Rightarrow> byte list \<times> byte list" where
  "sim_exchange bs w = (map (\<lambda>b. NOT b) bs, w @ bs)"

definition sim_transaction :: "byte list transaction" where
  "sim_transaction bus r w =
     (let n = (unat (FIELD2VAL 17 9 (r_USER1 r)) + 1) div 8; e = regs_endianness r; bs = shift_order e (reg_bytes (r_W r));
          (answer, w') = sim_exchange (take n bs) w
      in (words_of (shift_order e (answer @ drop n bs)), w'))"

lemma shift_order_twice: "4 dvd length bs \<Longrightarrow> shift_order e (shift_order e bs) = bs"
  by (simp add: shift_order_def rev_words_twice)

lemma length_shift_order [simp]: "4 dvd length bs \<Longrightarrow> length (shift_order e bs) = length bs"
  by (simp add: shift_order_def)

interpretation sim_device: spi_device sim_transaction bus sim_exchange for bus
proof unfold_locales
  fix r :: SPI_REGS and n and w :: "byte list"
  assume r: "length (r_W r) = 16" "0 < n" "n \<le> 64" "FIELD2VAL 17 9 (r_USER1 r) = of_nat (8 * n - 1)"
  let ?e = "regs_endianness r"
  let ?bs = "shift_order ?e (reg_bytes (r_W r))"
  let ?a = "fst (sim_exchange (take n ?bs) w) @ drop n ?bs"
  have l: "length ?bs = 64" "length ?a = 64"
    using r(1,3) by (simp_all add: sim_exchange_def)
  have "unat (FIELD2VAL 17 9 (r_USER1 r)) = 8 * n - 1"
    using r(2,3) unfolding r(4) unat_of_nat by simp
  then have n: "(unat (FIELD2VAL 17 9 (r_USER1 r)) + 1) div 8 = n"
    using r(2) by simp
  have t: "sim_transaction bus r w = (words_of (shift_order ?e ?a), snd (sim_exchange (take n ?bs) w))"
    unfolding sim_transaction_def n by (simp add: Let_def split: prod.split)
  have "reg_bytes (words_of (shift_order ?e ?a)) = shift_order ?e ?a"
    using l(2) by (intro reg_bytes_words_of) simp
  then have "take n (shift_order ?e (reg_bytes (words_of (shift_order ?e ?a)))) = fst (sim_exchange (take n ?bs) w)"
    using l r(3) by (simp add: shift_order_twice sim_exchange_def)
  moreover have "length (words_of (shift_order ?e ?a)) = 16"
    using l(2) by (simp add: length_words_of)
  ultimately show "length (fst (sim_transaction bus r w)) = 16 \<and>
      sim_exchange (take n ?bs) w = (take n (shift_order ?e (reg_bytes (fst (sim_transaction bus r w)))), snd (sim_transaction bus r w))"
    unfolding t by simp
qed (simp_all add: sim_exchange_def)

section \<open>Properties\<close>

text \<open>
  C17: transfers. On a bus set up for plain transactions, a transfer of any number of words of 8, 16 or 32 bits
  sends exactly these words, each with its bytes in the order selected for the bus, as one stream cut into
  blocks of 64 bytes, and stores the answer in the buffer for received data, in memory order again;
  the rest of that buffer is kept, and the bus is ready for the next transfer.
\<close>

theorem spi_transfer_exchanges:
  assumes "spi_device tr bus exchange" "bus_ready bus e s" "n = len * word_size_bytes ws" "n \<le> length out" "n \<le> length buf"
    and "exchange (wire_order e ws (take n out)) (spi_world s) = (answer, w)"
  shows "\<exists>s'. spi_transfer tr bus (Some out) (Some buf) len ws s = Some (len, Some (wire_order e ws answer @ drop n buf), s') \<and>
    spi_world s' = w \<and> bus_ready bus e s'"
proof -
  obtain inb s' where "spi_transfer tr bus (Some out) (Some buf) len ws s = Some (len, inb, s')" "spi_device.moved bus exchange e ws out 0 n (Some buf) s inb s'"
    using spi_device.transfer [OF assms(1-4), of "Some buf"] assms(5) by auto
  then show ?thesis
    using assms(6) by (simp add: spi_device.moved_def [OF assms(1)] block_at_def)
qed

definition fresh_bus :: "byte list spi_state" where
  "fresh_bus = \<lparr>SPI = (\<lambda>bus. \<lparr>r_ADDR = 0, r_CTRL0 = 0, r_CLOCK = 0, r_USER0 = 0, r_USER1 = 0, r_USER2 = 0, r_PIN = 0, r_W = replicate 16 0\<rparr>),
     IOMUX_CONF = 0, IOMUX_PIN = (\<lambda>i. 0), minimal = (\<lambda>bus. False), extras_status = (\<lambda>bus. 0), spi_world = []\<rparr>"

lemma init_ready:
  assumes "bus \<le> 1" "length (r_W (SPI s bus)) = 16" "extras_status s bus = 0"
  shows "bus_ready bus e (snd (spi_init bus mode d msb e mp s))"
proof -
  let ?s = "snd (spi_init bus mode d msb e mp s)"
  have st: "extras_status (foldl (\<lambda>s pin. gpio_set_iomux_function pin func s) t pins) = extras_status t" for func t pins
    by (induction pins arbitrary: t) (simp_all add: gpio_set_iomux_function_def Let_def)
  have "bus_ready bus (regs_endianness (SPI ?s bus)) ?s"
    using assms unfolding bus_ready_def plain_def
    by (auto simp: spi_init_def Let_def spi_set_endianness_def spi_set_msb_def spi_set_mode_def spi_set_frequency_div_def st bit_BIT bit_simps)
  moreover have "regs_endianness (SPI ?s bus) = e"
    by (rule init_steps [OF assms(1), of mode d msb e mp s]) (use get_set_endianness in \<open>simp add: spi_get_endianness_def\<close>)
  ultimately show ?thesis
    by simp
qed

theorem spi_transfer_exchanges_witness:
  "\<exists>s'. spi_transfer sim_transaction 1 (Some [0xa0, 0xb0, 0xa1, 0xb1]) (Some [0, 0, 0, 0, 7]) 2 SPI_16BIT
       (snd (spi_init 1 1 (freq_div 2 10) True SPI_BIG_ENDIAN True fresh_bus)) = Some (2, Some [0x5f, 0x4f, 0x5e, 0x4e, 7], s') \<and>
     spi_world s' = [0xb0, 0xa0, 0xb1, 0xa1]"
proof -
  let ?s = "snd (spi_init 1 1 (freq_div 2 10) True SPI_BIG_ENDIAN True fresh_bus)"
  have r: "bus_ready 1 SPI_BIG_ENDIAN ?s"
    by (rule init_ready) (simp_all add: fresh_bus_def)
  have w: "spi_world ?s = []"
    by (simp add: spi_init_def Let_def spi_set_endianness_def spi_set_msb_def spi_set_mode_def spi_set_frequency_div_def regs_simps
        gpio_set_iomux_function_def fresh_bus_def)
  have o: "wire_order SPI_BIG_ENDIAN SPI_16BIT (take (2 * 2) [0xa0, 0xb0, 0xa1, 0xb1]) = [0xb0, 0xa0, 0xb1, 0xa1]"
    "wire_order SPI_BIG_ENDIAN SPI_16BIT [0x4f, 0x5f, 0x4e, 0x5e] = [0x5f, 0x4f, 0x5e, 0x4e]"
    by (simp_all add: wire_order_def rev_words.simps numeral_eq_Suc)
  have x: "sim_exchange (wire_order SPI_BIG_ENDIAN SPI_16BIT (take (2 * 2) [0xa0, 0xb0, 0xa1, 0xb1])) (spi_world ?s) =
      ([0x4f, 0x5f, 0x4e, 0x5e], [0xb0, 0xa0, 0xb1, 0xa1])"
    unfolding o w by (simp add: sim_exchange_def)
  show ?thesis
    using spi_transfer_exchanges [OF sim_device.spi_device_axioms r, of "2 * 2" 2 SPI_16BIT "[0xa0, 0xb0, 0xa1, 0xb1]" "[0, 0, 0, 0, 7]", OF _ _ _ x] o(2)
    by (auto simp: numeral_eq_Suc)
qed

text \<open>
  Saved settings. After an initialisation with valid arguments the settings read back have the mode, the bit
  order, the byte order and the pins that were set, and the clock has the frequency asked for; but the divider
  read back combines divider and count without moving the count to its place. Setting these settings
  again, as the interface recommends to restore them, gives a clock of 80 MHz divided by that number and by 64.
\<close>

theorem spi_settings_lose_frequency:
  assumes "bus \<le> 1" "mode < 4" "0 < divider" "divider < 8192" "0 < count" "count \<le> 64"
    and "s' = snd (spi_init bus mode (freq_div divider count) msb e mp s)"
  shows "spi_get_settings bus s' =
      \<lparr>st_mode = mode, st_freq_divider = of_nat divider OR of_nat count, st_msb = msb, st_endianness = e, st_minimal_pins = mp\<rparr> \<and>
    spi_get_frequency_hz bus s' = 80000000 div of_nat divider div of_nat count \<and>
    spi_get_frequency_hz bus (snd (spi_set_settings bus (spi_get_settings bus s') s')) = 80000000 div (of_nat divider OR of_nat count) div 64"
  using spi_init_settings [OF assms(1-3) less_imp_le [OF assms(4)] assms(5-7)] restored_frequency [OF assms(1,3-6)]
  by (simp add: spi_set_settings_def)

theorem spi_settings_lose_frequency_witness:
  "spi_get_frequency_hz 1 (snd (spi_init 1 0 (freq_div 2 10) True SPI_LITTLE_ENDIAN True fresh_bus)) = 4000000 \<and>
   (let s' = snd (spi_init 1 0 (freq_div 2 10) True SPI_LITTLE_ENDIAN True fresh_bus)
    in spi_get_frequency_hz 1 (snd (spi_set_settings 1 (spi_get_settings 1 s') s')) = 125000)"
proof -
  let ?s = "snd (spi_init 1 0 (freq_div 2 10) True SPI_LITTLE_ENDIAN True fresh_bus)"
  have p: "(1 :: nat) \<le> 1" "(0 :: byte) < 4" "0 < (2 :: nat)" "2 < (8192 :: nat)" "0 < (10 :: nat)" "10 \<le> (64 :: nat)"
    by simp_all
  have h: "spi_get_frequency_hz 1 ?s = 80000000 div of_nat 2 div of_nat 10"
    "spi_get_frequency_hz 1 (snd (spi_set_settings 1 (spi_get_settings 1 ?s) ?s)) = 80000000 div (of_nat 2 OR of_nat 10) div 64"
    using spi_settings_lose_frequency [OF p refl, of True SPI_LITTLE_ENDIAN True fresh_bus] by blast+
  then show ?thesis
    unfolding Let_def h by simp
qed

end
