(* ===== verification/Ws2812.thy ===== *)
theory Ws2812
  imports Spi_Device
begin

unbundle bit_operations_syntax

text \<open>
  The LED strip, \<^verbatim>\<open>src/extras/ws2812/ws2812.c\<close>, on the older SPI driver \<^verbatim>\<open>src/core/esp_spi2.c\<close>. A bit of a colour
  is sent as a pulse whose length tells one from zero; the pulse is the output of an SPI transaction. The state
  has the registers of the two controllers and of the pin multiplexer, the variables of the driver, the
  bits that have appeared on the output so far, and whether the timer was started. The order in which a controller
  shifts bits out is the one \<^verbatim>\<open>src/core/include/esp/spi2.h\<close> documents for the two byte orders. Delays and messages are left
  out. A result \<^term>\<open>None\<close> is an access outside the table of patterns or a shift by too many bits.
\<close>

section \<open>State\<close>

datatype io_pin = SD_CLK | SD_CMD | SD_DATA0 | SD_DATA1 | MTDI | MTCK | MTMS | MTDO

record ws2812_driver_t =
  ws_r :: byte
  ws_g :: byte
  ws_b :: byte
  ws_brightness :: byte
  ws_cur_pixel :: u16
  ws_cur_anim :: u16
  ws_state :: u32

text \<open>The period of \<^verbatim>\<open>ws2812_fade_inout_t\<close> is only written.\<close>

record ws2812_fade_inout_t =
  cur_m :: byte
  cur_pattern :: byte
  in_out :: bool

record strip =
  hspi :: "nat \<Rightarrow> SPI_REGS"
  io_mux :: u32
  pin_func :: "io_pin \<Rightarrow> nat"
  mosi_line :: "bool list"
  ws :: ws2812_driver_t
  fade :: ws2812_fade_inout_t
  timer_on :: bool

abbreviation (input) HSPIBUS :: nat where "HSPIBUS \<equiv> 1"
abbreviation (input) HARD_SPINUM :: nat where "HARD_SPINUM \<equiv> 1"
abbreviation (input) WS2812_ANIM_INVALID :: u16 where "WS2812_ANIM_INVALID \<equiv> 0"
abbreviation (input) WS2812_ANIM_FADE_INOUT :: u16 where "WS2812_ANIM_FADE_INOUT \<equiv> 1"
abbreviation (input) WS_STATE_DOIT_LOADED :: u32 where "WS_STATE_DOIT_LOADED \<equiv> 1"
abbreviation (input) WS_STATE_DOIT_STOPPED :: u32 where "WS_STATE_DOIT_STOPPED \<equiv> 2"
abbreviation (input) WS_STATE_DOIT_ACTIVE :: u32 where "WS_STATE_DOIT_ACTIVE \<equiv> 3"

definition set_hspi :: "nat \<Rightarrow> (SPI_REGS \<Rightarrow> SPI_REGS) \<Rightarrow> strip \<Rightarrow> strip" where
  "set_hspi n f s = s\<lparr>hspi := (hspi s)(n := f (hspi s n))\<rparr>"

definition set_USER :: "nat \<Rightarrow> (u32 \<Rightarrow> u32) \<Rightarrow> strip \<Rightarrow> strip" where
  "set_USER n f = set_hspi n (\<lambda>r. r\<lparr>r_USER0 := f (r_USER0 r)\<rparr>)"

definition set_ws :: "(ws2812_driver_t \<Rightarrow> ws2812_driver_t) \<Rightarrow> strip \<Rightarrow> strip" where
  "set_ws f s = s\<lparr>ws := f (ws s)\<rparr>"

section \<open>The SPI driver\<close>

definition spi_init_gpio :: "nat \<Rightarrow> bool \<Rightarrow> strip \<Rightarrow> strip" where
  "spi_init_gpio spi_no sysclk_as_spiclk s =
     (let clock_div_flag = (if sysclk_as_spiclk then 1 else 0)
      in if spi_no = 0 then
           s\<lparr>io_mux := 0x005 OR push_bit 8 clock_div_flag,
             pin_func := (pin_func s)(SD_CLK := 1, SD_CMD := 1, SD_DATA0 := 1, SD_DATA1 := 1)\<rparr>
         else if spi_no = HSPIBUS then
           s\<lparr>io_mux := 0x105 OR push_bit 9 clock_div_flag,
             pin_func := (pin_func s)(MTDI := 2, MTCK := 2, MTMS := 2, MTDO := 2)\<rparr>
         else s)"

definition spi_clock :: "nat \<Rightarrow> u32 \<Rightarrow> u32 \<Rightarrow> strip \<Rightarrow> strip" where
  "spi_clock spi_no prediv cntdiv s =
     (if spi_no > 1 then s
      else set_hspi spi_no (\<lambda>r. r\<lparr>r_CLOCK :=
        (if prediv = 0 \<or> cntdiv = 0 then BIT 31
         else VAL2FIELD_M 18 13 (prediv - 1) OR VAL2FIELD_M 12 6 (cntdiv - 1) OR
              VAL2FIELD_M 6 6 (drop_bit 1 cntdiv) OR VAL2FIELD_M 0 6 (drop_bit 1 cntdiv))\<rparr>) s)"

definition spi_tx_byte_order :: "nat \<Rightarrow> bool \<Rightarrow> strip \<Rightarrow> strip" where
  "spi_tx_byte_order spi_no byte_order s =
     (if spi_no > 1 then s
      else set_USER spi_no (\<lambda>u. if byte_order then u OR BIT 11 else u AND NOT (BIT 11)) s)"

definition spi_rx_byte_order :: "nat \<Rightarrow> bool \<Rightarrow> strip \<Rightarrow> strip" where
  "spi_rx_byte_order spi_no byte_order s =
     (if spi_no > 1 then s
      else set_USER spi_no (\<lambda>u. if byte_order then u OR BIT 10 else u AND NOT (BIT 10)) s)"

definition spi_mode :: "nat \<Rightarrow> bool \<Rightarrow> bool \<Rightarrow> strip \<Rightarrow> strip" where
  "spi_mode spi_no spi_cpha spi_cpol s =
     set_hspi spi_no (\<lambda>r. r\<lparr>r_PIN := (if spi_cpol then r_PIN r OR BIT 29 else r_PIN r AND NOT (BIT 29))\<rparr>)
       (set_USER spi_no (\<lambda>u. if spi_cpha = spi_cpol then u AND NOT (BIT 7) else u OR BIT 7) s)"

text \<open>
  What a transaction puts on the output: as many bits as the length field says, from bit 31 down, or, in the other byte
  order, from the most significant bit of the lowest byte on.
\<close>

definition shift_out :: "SPI_REGS \<Rightarrow> bool list" where
  "shift_out r =
     (if bit (r_USER0 r) 27 then
        take (unat (FIELD2VAL 17 9 (r_USER1 r)) + 1)
          (if bit (r_USER0 r) 11 then map (bit (hd (r_W r))) (rev [0..<32])
           else concat (map (\<lambda>k. map (\<lambda>i. bit (hd (r_W r)) (8 * k + i)) (rev [0..<8])) [0..<4]))
      else [])"

definition set_W0 :: "u32 \<Rightarrow> SPI_REGS \<Rightarrow> SPI_REGS" where
  "set_W0 v r = r\<lparr>r_W := v # tl (r_W r)\<rparr>"

definition spi_transaction :: "nat \<Rightarrow> u32 \<Rightarrow> byte \<Rightarrow> strip \<Rightarrow> strip option" where
  "spi_transaction dout_bits dout_data dummy_bits s =
     (let n = HARD_SPINUM;
          s1 = set_USER n (\<lambda>u. u AND NOT (BIT 27 OR BIT 28 OR BIT 31 OR BIT 30 OR BIT 29)) s;
          s2 = set_hspi n (\<lambda>r. r\<lparr>r_USER1 := VAL2FIELD_M 26 6 (- 1) OR VAL2FIELD_M 17 9 (of_nat dout_bits - 1) OR
                 VAL2FIELD_M 8 9 (- 1) OR VAL2FIELD_M 0 8 (ucast dummy_bits - 1)\<rparr>) s1;
          s3 = (if dummy_bits \<noteq> 0 then set_USER n (\<lambda>u. u OR BIT 29) s2 else s2)
      in if dout_bits = 0 then Some (s3\<lparr>mosi_line := mosi_line s3 @ shift_out (hspi s3 n)\<rparr>)
         else if dout_bits > 32 then None
         else let s4 = set_USER n (\<lambda>u. u OR BIT 27) s3;
                  extra = dout_bits mod 8;
                  s5 = (if r_USER0 (hspi s4 n) AND BIT 11 \<noteq> 0 then
                          Some (set_hspi n (set_W0 (push_bit (32 - dout_bits) dout_data)) s4)
                        else if extra \<noteq> 0 then
                          (if dout_bits - extra = 0 then None
                           else Some (set_hspi n (set_W0 (push_bit (8 - extra) (push_bit (dout_bits - extra) 0xFFFFFFFF AND dout_data) OR
                                  (drop_bit (32 - (dout_bits - extra)) 0xFFFFFFFF AND dout_data))) s4))
                        else Some (set_hspi n (set_W0 dout_data) s4))
           in map_option (\<lambda>s6. s6\<lparr>mosi_line := mosi_line s6 @ shift_out (hspi s6 n)\<rparr>) s5)"

section \<open>Colours on the wire\<close>

fun send_bits :: "nat \<Rightarrow> byte \<Rightarrow> strip \<Rightarrow> strip option" where
  "send_bits 0 b s = Some s"
| "send_bits (Suc n) b s =
     do {
       s1 \<leftarrow> (if b AND 0x80 \<noteq> 0 then spi_transaction 24 0xFFFFc0 0 s else spi_transaction 32 0xFE000000 0 s);
       send_bits n (push_bit 1 b) s1
     }"

definition ws2812_sendByte :: "byte \<Rightarrow> strip \<Rightarrow> strip option" where
  "ws2812_sendByte b s = send_bits 8 b s"

definition ws2812_sendPixel_params :: "byte \<Rightarrow> byte \<Rightarrow> byte \<Rightarrow> strip \<Rightarrow> strip option" where
  "ws2812_sendPixel_params r g b s =
     do {
       s1 \<leftarrow> ws2812_sendByte r s;
       s2 \<leftarrow> ws2812_sendByte g s1;
       ws2812_sendByte b s2
     }"

definition ws2812_sendPixels :: "strip \<Rightarrow> strip option" where
  "ws2812_sendPixels s =
     do {
       s1 \<leftarrow> ws2812_sendByte (ws_r (ws s)) s;
       s2 \<leftarrow> ws2812_sendByte (ws_g (ws s)) s1;
       ws2812_sendByte (ws_b (ws s)) s2
     }"

fun ws2812_showColor :: "nat \<Rightarrow> byte \<Rightarrow> byte \<Rightarrow> byte \<Rightarrow> strip \<Rightarrow> strip option" where
  "ws2812_showColor 0 r g b s = Some s"
| "ws2812_showColor (Suc count) r g b s =
     do {
       s1 \<leftarrow> ws2812_sendPixel_params r g b s;
       ws2812_showColor count r g b s1
     }"

definition ws2812_clear :: "strip \<Rightarrow> strip option" where
  "ws2812_clear s = ws2812_sendPixels (set_ws (\<lambda>w. w\<lparr>ws_r := 0, ws_g := 0, ws_b := 0\<rparr>) s)"

section \<open>Animation\<close>

text \<open>\<^verbatim>\<open>PIXEL_COUNT\<close> is a setting of the build.\<close>

definition ws2812_showit_fade :: "u16 \<Rightarrow> strip \<Rightarrow> strip option" where
  "ws2812_showit_fade pixel_count s =
     (if ws_cur_pixel (ws s) < pixel_count then
        do {
          s1 \<leftarrow> ws2812_sendPixels s;
          Some (set_ws (\<lambda>w. w\<lparr>ws_cur_pixel := ws_cur_pixel w + 1\<rparr>) s1)
        }
      else Some (set_ws (\<lambda>w. w\<lparr>ws_cur_pixel := 0\<rparr>) s))"

definition ws2812_doit :: "u16 \<Rightarrow> strip \<Rightarrow> strip option" where
  "ws2812_doit pixel_count s = (if ws_state (ws s) = WS_STATE_DOIT_ACTIVE then ws2812_showit_fade pixel_count s else Some s)"

text \<open>
  The colours are numbers with 8 binary places, so that their product with a byte is exact in the floating point
  numbers of the code and the conversion back to a byte cuts the places off: the table holds them
  times 256.
\<close>

definition patterns :: "(nat \<times> nat \<times> nat) list" where
  "patterns = [(128, 0, 0), (0, 256, 0), (0, 0, 256), (256, 256, 0), (256, 0, 256), (0, 256, 256), (256, 256, 256), (160, 82, 45), (46, 139, 87)]"

definition scale_colour :: "nat \<Rightarrow> byte \<Rightarrow> byte" where
  "scale_colour p m = of_nat (p * unat m div 256)"

definition ws2812_fade_cb :: "strip \<Rightarrow> strip option" where
  "ws2812_fade_cb s =
     (let f0 = fade s;
          f1 = (if unat (cur_pattern f0) \<ge> length patterns then f0\<lparr>cur_pattern := 0\<rparr> else f0);
          f2 = (if in_out f1 \<and> cur_m f1 \<ge> 255 then f1\<lparr>in_out := False\<rparr> else f1);
          f3 = (if \<not> in_out f2 \<and> cur_m f2 = 0 then f2\<lparr>cur_pattern := cur_pattern f2 + 1, in_out := True\<rparr> else f2)
      in do {
           (r, g, b) \<leftarrow> read_at patterns (unat (cur_pattern f3));
           let s1 = set_ws (\<lambda>w. w\<lparr>ws_cur_pixel := 0, ws_r := scale_colour r (cur_m f3), ws_g := scale_colour g (cur_m f3),
                      ws_b := scale_colour b (cur_m f3)\<rparr>) s;
           Some (s1\<lparr>fade := f3\<lparr>cur_m := (if in_out f3 then cur_m f3 + 1 else cur_m f3 - 1)\<rparr>\<rparr>)
         })"

definition ws2812_anim_init :: "u16 \<Rightarrow> strip \<Rightarrow> strip option" where
  "ws2812_anim_init anim_type s =
     (if anim_type = WS2812_ANIM_FADE_INOUT then
        let s1 = set_ws (\<lambda>w. w\<lparr>ws_cur_anim := WS2812_ANIM_FADE_INOUT, ws_state := WS_STATE_DOIT_LOADED\<rparr>) s;
            s2 = s1\<lparr>fade := \<lparr>cur_m = 0, cur_pattern = 0, in_out = False\<rparr>\<rparr>
        in Some ((set_ws (\<lambda>w. w\<lparr>ws_state := WS_STATE_DOIT_ACTIVE\<rparr>) s2)\<lparr>timer_on := True\<rparr>)
      else ws2812_clear s)"

definition ws2812_set_brightness :: "byte \<Rightarrow> strip \<Rightarrow> strip" where
  "ws2812_set_brightness b = set_ws (\<lambda>w. w\<lparr>ws_brightness := b\<rparr>)"

definition ws2812_anim_stop :: "strip \<Rightarrow> strip option" where
  "ws2812_anim_stop s =
     do {
       s1 \<leftarrow> ws2812_clear s;
       Some (set_ws (\<lambda>w. w\<lparr>ws_state := ucast WS2812_ANIM_INVALID, ws_cur_anim := ucast WS_STATE_DOIT_STOPPED\<rparr>) s1)
     }"

definition ws2812_spi_init :: "strip \<Rightarrow> strip" where
  "ws2812_spi_init s =
     (let s1 = spi_clock HSPIBUS 2 2 (spi_init_gpio HSPIBUS False s);
          s2 = spi_rx_byte_order HSPIBUS True (spi_tx_byte_order HSPIBUS True s1);
          s3 = spi_mode HSPIBUS False False s2
      in set_USER HSPIBUS (\<lambda>u. (u OR (BIT 5 OR BIT 4)) AND NOT (BIT 2)) s3)"

definition ws2812_init :: "strip \<Rightarrow> strip option" where
  "ws2812_init s =
     do {
       s1 \<leftarrow> ws2812_clear (ws2812_spi_init s);
       Some (set_ws (\<lambda>w. w\<lparr>ws_brightness := 128\<rparr>) s1)
     }"

end
