(* ===== verification/Ws2812_Strip.thy ===== *)
theory Ws2812_Strip
  imports Ws2812
begin

unbundle bit_operations_syntax

text \<open>
  What the LED strip sees: the pulses of the colours and their times, frame after frame; and the fade animation, which
  leaves its table after the last pattern.
\<close>

section \<open>Transactions\<close>

definition pulse :: "bool \<Rightarrow> bool list" where
  "pulse b = (if b then replicate 18 True @ replicate 6 False else replicate 7 True @ replicate 25 False)"

definition byte_bits :: "byte \<Rightarrow> bool list" where
  "byte_bits b = map (\<lambda>i. bit b (7 - i)) [0..<8]"

text \<open>The controller is set up: high byte first, and the clock of the strip.\<close>

definition strip_ready :: "strip \<Rightarrow> bool" where
  "strip_ready s \<longleftrightarrow> bit (r_USER0 (hspi s 1)) 11 \<and>
     FIELD2VAL 18 13 (r_CLOCK (hspi s 1)) = 1 \<and> FIELD2VAL 12 6 (r_CLOCK (hspi s 1)) = 1"

lemma first_bits:
  assumes "0 < n" "n \<le> 32"
  shows "take n (map (bit (push_bit (32 - n) d :: u32)) (rev [0..<32])) = map (\<lambda>i. bit d (n - 1 - i)) [0..<n]"
proof (rule nth_equalityI)
  fix i
  assume "i < length (take n (map (bit (push_bit (32 - n) d)) (rev [0..<32])))"
  then have i: "i < n"
    using assms by simp
  have "rev [0..<32] ! i = 31 - i"
    using i assms by (simp add: rev_nth)
  moreover have "bit (push_bit (32 - n) d) (31 - i) = bit d (n - 1 - i)"
    using i assms by (auto simp: bit_simps)
  ultimately show "take n (map (bit (push_bit (32 - n) d)) (rev [0..<32])) ! i = map (\<lambda>i. bit d (n - 1 - i)) [0..<n] ! i"
    using i assms by simp
qed (use assms in simp)

lemma length_field:
  assumes "0 < n" "n \<le> 32"
  shows "unat (FIELD2VAL 17 9 (VAL2FIELD_M 26 6 a OR VAL2FIELD_M 17 9 (of_nat n - 1) OR VAL2FIELD_M 8 9 b OR VAL2FIELD_M 0 8 c)) + 1 = n"
proof -
  have "FIELD2VAL 17 9 (VAL2FIELD_M 26 6 a OR VAL2FIELD_M 17 9 v OR VAL2FIELD_M 8 9 b OR VAL2FIELD_M 0 8 c) = take_bit 9 v" for v
    by (auto intro!: bit_word_eqI simp: FIELD2VAL_def VAL2FIELD_M_def bit_simps)
  moreover have "take_bit 9 (of_nat n - 1 :: u32) = of_nat (n - 1)"
  proof -
    have "take_bit 9 (n - 1) = n - 1"
      using assms by (intro take_bit_nat_eq_self) simp
    then have "take_bit 9 (of_nat (n - 1) :: u32) = of_nat (n - 1)"
      by (simp only: take_bit_of_nat)
    then show ?thesis
      using assms(1) by (simp add: of_nat_diff)
  qed
  moreover have "unat (of_nat (n - 1) :: u32) = n - 1"
    using assms unfolding unat_of_nat by simp
  ultimately show ?thesis
    using assms(1) by (simp del: of_nat_diff)
qed

lemma transaction:
  assumes "strip_ready s" "0 < n" "n \<le> 32"
  shows "\<exists>s'. spi_transaction n d 0 s = Some s' \<and> mosi_line s' = mosi_line s @ map (\<lambda>i. bit d (n - 1 - i)) [0..<n] \<and>
    strip_ready s' \<and> ws s' = ws s \<and> fade s' = fade s"
proof -
  have r: "bit (r_USER0 (hspi s 1)) 11"
    using assms(1) by (simp add: strip_ready_def)
  show ?thesis
    using assms r unfolding spi_transaction_def and_BIT Let_def
    by (simp add: set_USER_def set_hspi_def set_W0_def shift_out_def length_field first_bits strip_ready_def
        bit_or_iff bit_and_iff bit_not_iff bit_BIT del: One_nat_def)
qed

text \<open>A one is eighteen bits high and six low, a zero seven high and twenty-five low.\<close>

lemma pulse_one: "map (\<lambda>i. bit (0xFFFFc0 :: u32) (24 - 1 - i)) [0..<24] = pulse True"
  by (simp add: pulse_def upt_rec numeral_eq_Suc)

lemma pulse_zero: "map (\<lambda>i. bit (0xFE000000 :: u32) (32 - 1 - i)) [0..<32] = pulse False"
  by code_simp

lemma top_bit: "(b :: byte) AND 0x80 \<noteq> 0 \<longleftrightarrow> bit b 7"
proof -
  have "(0x80 :: byte) = 2 ^ 7"
    by simp
  then show ?thesis
    by (simp only: and_exp_eq_0_iff_not_bit) simp
qed

lemma send_bits:
  assumes "strip_ready s" "n \<le> 8"
  shows "\<exists>s'. send_bits n b s = Some s' \<and> mosi_line s' = mosi_line s @ concat (map (\<lambda>i. pulse (bit b (7 - i))) [0..<n]) \<and>
    strip_ready s' \<and> ws s' = ws s \<and> fade s' = fade s"
  using assms
proof (induction n arbitrary: b s)
  case (Suc n)
  let ?t = "if b AND 0x80 \<noteq> 0 then spi_transaction 24 0xFFFFc0 0 s else spi_transaction 32 0xFE000000 0 s"
  obtain s1 where s1: "?t = Some s1" "mosi_line s1 = mosi_line s @ pulse (bit b 7)" "strip_ready s1" "ws s1 = ws s" "fade s1 = fade s"
    using transaction [OF Suc.prems(1), of 24 "0xFFFFc0"] transaction [OF Suc.prems(1), of 32 "0xFE000000"]
    unfolding pulse_one pulse_zero top_bit by (cases "bit b 7") auto
  obtain s' where s': "send_bits n (push_bit 1 b) s1 = Some s'"
    "mosi_line s' = mosi_line s1 @ concat (map (\<lambda>i. pulse (bit (push_bit 1 b) (7 - i))) [0..<n])" "strip_ready s'" "ws s' = ws s1" "fade s' = fade s1"
    using Suc.IH [OF s1(3), of "push_bit 1 b"] Suc.prems(2) by auto
  have "map (\<lambda>i. pulse (bit (push_bit 1 b) (7 - i))) [0..<n] = map (\<lambda>i. pulse (bit b (7 - i))) [Suc 0..<Suc n]"
  proof -
    have "bit (push_bit 1 b) (7 - i) = bit b (7 - Suc i)" if "i < n" for i
      using that Suc.prems(2) unfolding bit_push_bit_iff by (auto simp: bit_simps)
    then show ?thesis
      by (simp only: map_Suc_upt [symmetric] map_map comp_def) simp
  qed
  then have "mosi_line s' = mosi_line s @ concat (map (\<lambda>i. pulse (bit b (7 - i))) [0..<Suc n])"
    using s1(2) s'(2) by (simp add: upt_conv_Cons del: upt_Suc)
  then show ?case
    using s1 s' by simp
qed simp

definition colour_pulses :: "bool list \<Rightarrow> bool list" where
  "colour_pulses bs = concat (map pulse bs)"

lemma colour_pulses_append: "colour_pulses (xs @ ys) = colour_pulses xs @ colour_pulses ys"
  by (simp add: colour_pulses_def)

lemma send_byte:
  assumes "strip_ready s"
  shows "\<exists>s'. ws2812_sendByte b s = Some s' \<and> mosi_line s' = mosi_line s @ colour_pulses (byte_bits b) \<and> strip_ready s' \<and> ws s' = ws s \<and> fade s' = fade s"
  using send_bits [OF assms order_refl, of b] by (simp add: ws2812_sendByte_def byte_bits_def colour_pulses_def comp_def)

definition pixel_bits :: "byte \<Rightarrow> byte \<Rightarrow> byte \<Rightarrow> bool list" where
  "pixel_bits r g b = byte_bits r @ byte_bits g @ byte_bits b"

lemma send_pixel:
  assumes "strip_ready s"
  shows "\<exists>s'. ws2812_sendPixel_params r g b s = Some s' \<and> mosi_line s' = mosi_line s @ colour_pulses (pixel_bits r g b) \<and> strip_ready s' \<and> ws s' = ws s \<and> fade s' = fade s"
proof -
  obtain s1 where s1: "ws2812_sendByte r s = Some s1" "mosi_line s1 = mosi_line s @ colour_pulses (byte_bits r)" "strip_ready s1" "ws s1 = ws s" "fade s1 = fade s"
    using send_byte [OF assms] by blast
  obtain s2 where s2: "ws2812_sendByte g s1 = Some s2" "mosi_line s2 = mosi_line s1 @ colour_pulses (byte_bits g)" "strip_ready s2" "ws s2 = ws s1" "fade s2 = fade s1"
    using send_byte [OF s1(3)] by blast
  obtain s3 where "ws2812_sendByte b s2 = Some s3" "mosi_line s3 = mosi_line s2 @ colour_pulses (byte_bits b)" "strip_ready s3" "ws s3 = ws s2" "fade s3 = fade s2"
    using send_byte [OF s2(3)] by blast
  with s1 s2 show ?thesis
    by (simp add: ws2812_sendPixel_params_def pixel_bits_def colour_pulses_append)
qed

lemma send_pixels:
  assumes "strip_ready s"
  shows "\<exists>s'. ws2812_sendPixels s = Some s' \<and> mosi_line s' = mosi_line s @ colour_pulses (pixel_bits (ws_r (ws s)) (ws_g (ws s)) (ws_b (ws s))) \<and>
    strip_ready s' \<and> ws s' = ws s \<and> fade s' = fade s"
  using send_pixel [OF assms] by (simp add: ws2812_sendPixels_def ws2812_sendPixel_params_def)

lemma show_colour:
  assumes "strip_ready s"
  shows "\<exists>s'. ws2812_showColor n r g b s = Some s' \<and> mosi_line s' = mosi_line s @ colour_pulses (concat (replicate n (pixel_bits r g b))) \<and> strip_ready s'"
  using assms
proof (induction n arbitrary: s)
  case (Suc n)
  obtain s1 where s1: "ws2812_sendPixel_params r g b s = Some s1" "mosi_line s1 = mosi_line s @ colour_pulses (pixel_bits r g b)" "strip_ready s1"
    using send_pixel [OF Suc.prems] by blast
  then show ?case
    using Suc.IH [OF s1(3)] by (auto simp: colour_pulses_append)
qed (simp add: colour_pulses_def)

section \<open>Times on the line\<close>

text \<open>
  The pulses of a line: how long each is high and how long low, in nanoseconds, when a bit of the SPI bus lasts as
  long as the clock register says.
\<close>

definition bit_ns :: "SPI_REGS \<Rightarrow> nat" where
  "bit_ns r = 1000 * unat (FIELD2VAL 18 13 (r_CLOCK r) + 1) * unat (FIELD2VAL 12 6 (r_CLOCK r) + 1) div 80"

function line_times :: "nat \<Rightarrow> bool list \<Rightarrow> (nat \<times> nat) list" where
  "line_times ns l =
     (if l = [] then []
      else let h = takeWhile (\<lambda>b. b) l; rest = dropWhile (\<lambda>b. b) l
        in if h = [] then line_times ns (dropWhile Not l)
           else (ns * length h, ns * length (takeWhile Not rest)) # line_times ns (dropWhile Not rest))"
  by pat_completeness auto
termination
proof (relation "measure (\<lambda>(ns, l). length l)")
  fix l :: "bool list" and h rest
  assume l: "l \<noteq> []" "h = takeWhile (\<lambda>b. b) l" "rest = dropWhile (\<lambda>b. b) l"
  show "((ns, dropWhile Not l), ns, l) \<in> measure (\<lambda>(ns, l). length l)" if "h = []" for ns :: nat
    using that l by (cases l) (auto simp: less_Suc_eq_le length_dropWhile_le split: if_splits)
  show "((ns, dropWhile Not rest), ns, l) \<in> measure (\<lambda>(ns, l). length l)" if "h \<noteq> []" for ns :: nat
    using that l by (cases l) (auto simp: less_Suc_eq_le intro: order_trans [OF length_dropWhile_le] split: if_splits)
qed simp

declare line_times.simps [simp del]

lemma line_times_pulse:
  assumes "0 < h" "0 < k" "ps = [] \<or> hd ps"
  shows "line_times ns (replicate h True @ replicate k False @ ps) = (ns * h, ns * k) # line_times ns ps"
proof -
  let ?l = "replicate h True @ replicate k False @ ps"
  have t: "takeWhile (\<lambda>b. b) ?l = replicate h True" "dropWhile (\<lambda>b. b) ?l = replicate k False @ ps"
    using assms(2) by (induction h) (cases k; simp)+
  have d: "dropWhile Not (replicate k False @ ps) = ps" "takeWhile Not (replicate k False @ ps) = replicate k False"
    using assms(3) by (induction k) (cases ps; simp)+
  have "?l \<noteq> []" "replicate h True \<noteq> []"
    using assms(1) by simp_all
  then show ?thesis
    by (subst line_times.simps) (simp only: t d Let_def if_False length_replicate)
qed

lemma colour_pulses_start: "colour_pulses bs = [] \<or> hd (colour_pulses bs)"
  by (cases bs) (auto simp: colour_pulses_def pulse_def)

text \<open>
  The table of \<^verbatim>\<open>ws2812.c\<close>: the bounds of the high and the low time of a zero and of a one, and those of their sum,
  1250 ns give or take 150.
\<close>

definition high_in_table :: "bool \<Rightarrow> nat \<times> nat \<Rightarrow> bool" where
  "high_in_table b t \<longleftrightarrow> fst t \<in> (if b then {550..5500} else {200..500})"

definition low_in_table :: "bool \<Rightarrow> nat \<times> nat \<Rightarrow> bool" where
  "low_in_table b t \<longleftrightarrow> snd t \<in> (if b then {450..5500} else {650..5000})"

definition period_in_table :: "nat \<times> nat \<Rightarrow> bool" where
  "period_in_table t \<longleftrightarrow> fst t + snd t \<in> {1100..1400}"

definition sent_times :: "bool \<Rightarrow> nat \<times> nat" where
  "sent_times b = (if b then (900, 300) else (350, 1250))"

lemma times_of_colours: "line_times 50 (colour_pulses bs) = map sent_times bs"
proof (induction bs)
  case Nil
  then show ?case
    by (simp add: colour_pulses_def line_times.simps)
next
  case (Cons b bs)
  have "colour_pulses (b # bs) = pulse b @ colour_pulses bs"
    by (simp add: colour_pulses_def)
  also have "line_times 50 \<dots> = sent_times b # line_times 50 (colour_pulses bs)"
    using line_times_pulse [OF _ _ colour_pulses_start, of 18 6 50 bs] line_times_pulse [OF _ _ colour_pulses_start, of 7 25 50 bs]
    by (cases b) (simp_all add: pulse_def sent_times_def)
  finally show ?case
    using Cons by simp
qed

lemma sent_times_table:
  "high_in_table b (sent_times c) = (b = c)" "low_in_table b (sent_times b) = (\<not> b)" "period_in_table (sent_times b) = b"
  by (auto simp: high_in_table_def low_in_table_def period_in_table_def sent_times_def)

lemma strip_ready_bit_ns: "strip_ready s \<Longrightarrow> bit_ns (hspi s 1) = 50"
  by (simp add: strip_ready_def bit_ns_def)

lemma strip_ready_set_ws [simp]: "strip_ready (set_ws f s) = strip_ready s" "ws (set_ws f s) = f (ws s)" "mosi_line (set_ws f s) = mosi_line s"
  by (simp_all add: strip_ready_def set_ws_def)

lemma spi_init_ready: "strip_ready (ws2812_spi_init s)"
proof -
  have "FIELD2VAL 18 13 (VAL2FIELD_M 18 13 1 OR VAL2FIELD_M 12 6 1 OR VAL2FIELD_M 6 6 1 OR VAL2FIELD_M 0 6 1) = 1"
    "FIELD2VAL 12 6 (VAL2FIELD_M 18 13 1 OR VAL2FIELD_M 12 6 1 OR VAL2FIELD_M 6 6 1 OR VAL2FIELD_M 0 6 1) = 1"
    by (simp_all add: clock_fields)
  then show ?thesis
    by (simp add: strip_ready_def ws2812_spi_init_def Let_def spi_init_gpio_def spi_clock_def spi_tx_byte_order_def spi_rx_byte_order_def
        spi_mode_def set_USER_def set_hspi_def bit_or_iff bit_and_iff bit_not_iff bit_BIT)
qed

lemma init_strip:
  "\<exists>s'. ws2812_init s = Some s' \<and> strip_ready s' \<and> mosi_line s' = mosi_line s @ colour_pulses (pixel_bits 0 0 0)"
proof -
  let ?s = "set_ws (\<lambda>w. w\<lparr>ws_r := 0, ws_g := 0, ws_b := 0\<rparr>) (ws2812_spi_init s)"
  have "mosi_line (ws2812_spi_init s) = mosi_line s"
    by (simp add: ws2812_spi_init_def Let_def spi_init_gpio_def spi_clock_def spi_tx_byte_order_def spi_rx_byte_order_def spi_mode_def set_USER_def set_hspi_def)
  then show ?thesis
    using send_pixels [of ?s] spi_init_ready [of s] by (auto simp: ws2812_init_def ws2812_clear_def)
qed

section \<open>Frames\<close>

text \<open>Repeated calls of the interrupt.\<close>

primrec doit_times :: "u16 \<Rightarrow> nat \<Rightarrow> strip \<Rightarrow> strip option" where
  "doit_times count 0 s = Some s"
| "doit_times count (Suc n) s = doit_times count n s \<bind> ws2812_doit count"

lemma concat_replicate_Suc: "concat (replicate (Suc n) x) = concat (replicate n x) @ x"
  by (induction n) simp_all

lemma frame_part:
  assumes "strip_ready s" "ws_state (ws s) = WS_STATE_DOIT_ACTIVE" "ws_cur_pixel (ws s) = 0" "n \<le> unat count"
  shows "\<exists>s'. doit_times count n s = Some s' \<and> ws s' = (ws s)\<lparr>ws_cur_pixel := of_nat n\<rparr> \<and> strip_ready s' \<and>
    mosi_line s' = mosi_line s @ colour_pulses (concat (replicate n (pixel_bits (ws_r (ws s)) (ws_g (ws s)) (ws_b (ws s)))))"
  using assms(4)
proof (induction n)
  case 0
  then show ?case
    using assms(1,3) by (simp add: colour_pulses_def)
next
  case (Suc n)
  then obtain s1 where s1: "doit_times count n s = Some s1" "ws s1 = (ws s)\<lparr>ws_cur_pixel := of_nat n\<rparr>" "strip_ready s1"
    "mosi_line s1 = mosi_line s @ colour_pulses (concat (replicate n (pixel_bits (ws_r (ws s)) (ws_g (ws s)) (ws_b (ws s)))))"
    by auto
  have "unat count < 2 ^ LENGTH(16)"
    by (rule unsigned_less)
  then have "unat (of_nat n :: u16) = n"
    using Suc.prems unfolding unat_of_nat by simp
  then have "(of_nat n :: u16) < count"
    using Suc.prems by (simp add: word_less_nat_alt)
  then show ?case
    using s1 send_pixels [OF s1(3)] assms(2)
    by (auto simp: ws2812_doit_def ws2812_showit_fade_def concat_replicate_Suc colour_pulses_append add.commute simp del: replicate_Suc)
qed

lemma frame:
  assumes "strip_ready s" "ws_state (ws s) = WS_STATE_DOIT_ACTIVE" "ws_cur_pixel (ws s) = 0"
  shows "\<exists>s'. doit_times count (unat count + 1) s = Some s' \<and> ws s' = ws s \<and> strip_ready s' \<and>
    mosi_line s' = mosi_line s @ colour_pulses (concat (replicate (unat count) (pixel_bits (ws_r (ws s)) (ws_g (ws s)) (ws_b (ws s)))))"
  using frame_part [OF assms order_refl, of count] assms
  by (auto simp: ws2812_doit_def ws2812_showit_fade_def)

section \<open>The fade animation\<close>

primrec fade_times :: "nat \<Rightarrow> strip \<Rightarrow> strip option" where
  "fade_times 0 s = Some s"
| "fade_times (Suc n) s = fade_times n s \<bind> ws2812_fade_cb"

text \<open>The brightness of the \<open>k\<close>th step: up to 255 and down again, 510 steps for each pattern.\<close>

definition fade_level :: "nat \<Rightarrow> nat" where
  "fade_level k = (if k mod 510 \<le> 255 then k mod 510 else 510 - k mod 510)"

definition fade_before :: "nat \<Rightarrow> ws2812_fade_inout_t" where
  "fade_before k = \<lparr>cur_m = of_nat (fade_level k), cur_pattern = of_nat (if k mod 510 = 0 then k div 510 else k div 510 + 1),
     in_out = (1 \<le> k mod 510 \<and> k mod 510 \<le> 255)\<rparr>"

lemma fade_step:
  assumes "fade s = fade_before k" "k < 4080"
  shows "\<exists>s'. ws2812_fade_cb s = Some s' \<and> fade s' = fade_before (k + 1) \<and>
    (case patterns ! (k div 510 + 1) of (r, g, b) \<Rightarrow>
       ws_r (ws s') = of_nat (r * fade_level k div 256) \<and> ws_g (ws s') = of_nat (g * fade_level k div 256) \<and> ws_b (ws s') = of_nat (b * fade_level k div 256))"
proof -
  define j where "j = k mod 510"
  define p where "p = k div 510"
  define m where "m = fade_level k"
  have kk: "j < 510" "p < 8" "m = (if j \<le> 255 then j else 510 - j)"
    using assms(2) by (simp_all add: j_def p_def m_def fade_level_def)
  then have "m \<le> 255"
    by auto
  note k = kk this
  have n: "(k + 1) mod 510 = (if j = 509 then 0 else j + 1)" "(k + 1) div 510 = (if j = 509 then p + 1 else p)"
    by (simp_all add: j_def p_def mod_Suc div_Suc)
  have c: "255 \<le> (of_nat m :: byte) \<longleftrightarrow> m = 255" "(of_nat m :: byte) = 0 \<longleftrightarrow> m = 0" "unat (of_nat m :: byte) = m"
    using k(4) by (auto simp: word_le_nat_alt unat_of_nat word_of_nat_eq_0_iff dvd_imp_le)
  have q: "unat (of_nat i :: byte) = i" if "i \<le> 8" for i
    using that by (simp add: unat_of_nat)
  define f3 where "f3 = \<lparr>cur_m = of_nat m, cur_pattern = of_nat (p + 1), in_out = (j < 255)\<rparr>"
  have f: "fade_before k = \<lparr>cur_m = of_nat m, cur_pattern = of_nat (if j = 0 then p else p + 1), in_out = (1 \<le> j \<and> j \<le> 255)\<rparr>"
    by (simp add: fade_before_def j_def p_def m_def)
  have f1: "\<not> length patterns \<le> unat (cur_pattern (fade_before k))"
    using k(2) q [of p] q [of "p + 1"] by (simp add: f patterns_def)
  let ?f2 = "if in_out (fade_before k) \<and> 255 \<le> cur_m (fade_before k) then (fade_before k)\<lparr>in_out := False\<rparr> else fade_before k"
  have "(if \<not> in_out ?f2 \<and> cur_m ?f2 = 0 then ?f2\<lparr>cur_pattern := cur_pattern ?f2 + 1, in_out := True\<rparr> else ?f2) = f3"
    using k(1,3) c by (auto simp: f f3_def)
  moreover have "f3\<lparr>cur_m := (if in_out f3 then cur_m f3 + 1 else cur_m f3 - 1)\<rparr> = fade_before (k + 1)"
    unfolding fade_before_def fade_level_def n using k(1,3) by (auto simp: f3_def of_nat_diff)
  moreover have "read_at patterns (unat (cur_pattern f3)) = Some (patterns ! (p + 1))"
    using k(2) q [of "p + 1"] by (simp add: f3_def read_at_def patterns_def)
  ultimately have "ws2812_fade_cb s = (case patterns ! (p + 1) of (r, g, b) \<Rightarrow>
      Some ((set_ws (\<lambda>w. w\<lparr>ws_cur_pixel := 0, ws_r := scale_colour r (of_nat m), ws_g := scale_colour g (of_nat m), ws_b := scale_colour b (of_nat m)\<rparr>) s)\<lparr>fade := fade_before (k + 1)\<rparr>))"
    using f1 unfolding ws2812_fade_cb_def assms(1) Let_def by (simp only: if_False) (simp add: f3_def split: prod.split)
  then show ?thesis
    by (auto simp: scale_colour_def c(3) p_def [symmetric] m_def [symmetric] set_ws_def split: prod.split)
qed

lemma fade_before_0: "fade_before 0 = \<lparr>cur_m = 0, cur_pattern = 0, in_out = False\<rparr>"
  by (simp add: fade_before_def fade_level_def)

lemma fade_steps:
  assumes "fade s = fade_before 0" "k \<le> 4080"
  shows "\<exists>s'. fade_times k s = Some s' \<and> fade s' = fade_before k"
  using assms(2)
proof (induction k)
  case 0
  then show ?case
    using assms(1) by simp
next
  case (Suc k)
  then obtain t where "fade_times k s = Some t" "fade t = fade_before k"
    by auto
  with fade_step [of t k] Suc.prems show ?case
    by auto
qed

section \<open>Properties\<close>

text \<open>
  C18: what is sent for a colour. After the initialisation, whatever the state was before, showing a colour on \<open>n\<close> pixels, and
  likewise each frame the interrupts of a running animation send (one pixel for each call, and one call without), puts
  one pulse on the line for each bit of red, green and blue of every pixel, most significant bit first: 900 ns high and 300 ns low
  for a one, 350 ns high and 1250 ns low for a zero, at the clock that was set up. The high times are in the row of the
  bit in the table of the source, and in no other, so they tell the bits apart; but the low time of a one is too short for its row (the low
  time of a zero is right), and the two times of a zero together are too long for the period (those of a one are right). The times
  are those of the bits sent: pauses between transactions are not counted.
\<close>

theorem ws2812_pulses_sent:
  "\<exists>s. ws2812_init s0 = Some s \<and>
     (\<forall>n r g b. \<exists>s' out. ws2812_showColor n r g b s = Some s' \<and> mosi_line s' = mosi_line s @ out \<and>
        line_times (bit_ns (hspi s 1)) out = map sent_times (concat (replicate n (byte_bits r @ byte_bits g @ byte_bits b)))) \<and>
     (\<forall>w count. \<exists>s' out. doit_times count (unat count + 1) (s\<lparr>ws := w\<lparr>ws_state := WS_STATE_DOIT_ACTIVE, ws_cur_pixel := 0\<rparr>\<rparr>) = Some s' \<and>
        mosi_line s' = mosi_line s @ out \<and> ws_cur_pixel (ws s') = 0 \<and>
        line_times (bit_ns (hspi s 1)) out =
          map sent_times (concat (replicate (unat count) (byte_bits (ws_r w) @ byte_bits (ws_g w) @ byte_bits (ws_b w))))) \<and>
     (\<forall>b c. high_in_table b (sent_times c) = (b = c)) \<and>
     (\<forall>b. low_in_table b (sent_times b) = (\<not> b) \<and> period_in_table (sent_times b) = b)"
proof -
  obtain s where s: "ws2812_init s0 = Some s" "strip_ready s"
    using init_strip [of s0] by blast
  have "\<exists>s' out. ws2812_showColor n r g b s = Some s' \<and> mosi_line s' = mosi_line s @ out \<and>
      line_times 50 out = map sent_times (concat (replicate n (byte_bits r @ byte_bits g @ byte_bits b)))" for n r g b
    using show_colour [OF s(2), of n r g b] times_of_colours by (auto simp: pixel_bits_def)
  moreover have "\<exists>s' out. doit_times count (unat count + 1) (s\<lparr>ws := w\<lparr>ws_state := WS_STATE_DOIT_ACTIVE, ws_cur_pixel := 0\<rparr>\<rparr>) = Some s' \<and>
      mosi_line s' = mosi_line s @ out \<and> ws_cur_pixel (ws s') = 0 \<and>
      line_times 50 out = map sent_times (concat (replicate (unat count) (byte_bits (ws_r w) @ byte_bits (ws_g w) @ byte_bits (ws_b w))))" for w count
    using frame [of "s\<lparr>ws := w\<lparr>ws_state := WS_STATE_DOIT_ACTIVE, ws_cur_pixel := 0\<rparr>\<rparr>" count] s(2) times_of_colours
    by (auto simp: pixel_bits_def strip_ready_def)
  ultimately show ?thesis
    using s strip_ready_bit_ns sent_times_table by auto
qed

text \<open>
  The fade animation. After its start, each of the first 4080 steps shows the second to the ninth pattern in turn, 510 steps each, with a
  brightness that goes up to 255 and down again; the next step reads a tenth pattern, behind the end of the table.
\<close>

theorem ws2812_fade_leaves_table:
  "\<exists>s1. ws2812_anim_init WS2812_ANIM_FADE_INOUT s = Some s1 \<and>
     (\<forall>k. k < 4080 \<longrightarrow> (\<exists>t. fade_times (k + 1) s1 = Some t \<and>
        (case patterns ! (k div 510 + 1) of (r, g, b) \<Rightarrow>
           ws_r (ws t) = of_nat (r * fade_level k div 256) \<and> ws_g (ws t) = of_nat (g * fade_level k div 256) \<and> ws_b (ws t) = of_nat (b * fade_level k div 256)))) \<and>
     fade_times 4081 s1 = None"
proof -
  obtain s1 where s1: "ws2812_anim_init WS2812_ANIM_FADE_INOUT s = Some s1" "fade s1 = fade_before 0"
    by (simp add: ws2812_anim_init_def Let_def fade_before_0 set_ws_def)
  have steps: "\<exists>t. fade_times (k + 1) s1 = Some t \<and> (case patterns ! (k div 510 + 1) of (r, g, b) \<Rightarrow>
      ws_r (ws t) = of_nat (r * fade_level k div 256) \<and> ws_g (ws t) = of_nat (g * fade_level k div 256) \<and> ws_b (ws t) = of_nat (b * fade_level k div 256))"
    if "k < 4080" for k
    using fade_steps [OF s1(2), of k] fade_step [of _ k] that by (auto split: prod.splits) fastforce
  obtain t where t: "fade_times 4080 s1 = Some t" "fade t = fade_before 4080"
    using fade_steps [OF s1(2), of 4080] by auto
  have "fade_before 4080 = \<lparr>cur_m = 0, cur_pattern = 8, in_out = False\<rparr>"
    by (simp add: fade_before_def fade_level_def)
  then have "ws2812_fade_cb t = None"
    by (simp add: ws2812_fade_cb_def t(2) patterns_def read_at_def)
  moreover have "fade_times (Suc 4080) s1 = ws2812_fade_cb t"
    unfolding fade_times.simps t(1) by simp
  ultimately have "fade_times 4081 s1 = None"
    by simp
  then show ?thesis
    using s1(1) steps by blast
qed

definition dark_strip :: strip where
  "dark_strip = \<lparr>hspi = (\<lambda>n. \<lparr>r_ADDR = 0, r_CTRL0 = 0, r_CLOCK = 0, r_USER0 = 0, r_USER1 = 0, r_USER2 = 0, r_PIN = 0, r_W = replicate 16 0\<rparr>),
     io_mux = 0, pin_func = (\<lambda>p. 0), mosi_line = [],
     ws = \<lparr>ws_r = 0, ws_g = 0, ws_b = 0, ws_brightness = 0, ws_cur_pixel = 0, ws_cur_anim = 0, ws_state = 0\<rparr>,
     fade = \<lparr>cur_m = 0, cur_pattern = 0, in_out = False\<rparr>, timer_on = False\<rparr>"

theorem ws2812_fade_leaves_table_witness:
  "\<exists>s1 t. ws2812_anim_init WS2812_ANIM_FADE_INOUT dark_strip = Some s1 \<and> fade_times 256 s1 = Some t \<and> ws_g (ws t) = 255 \<and>
     fade_times 4081 s1 = None"
proof -
  obtain s1 where s1: "ws2812_anim_init WS2812_ANIM_FADE_INOUT dark_strip = Some s1" "fade_times 4081 s1 = None"
    "\<forall>k. k < 4080 \<longrightarrow> (\<exists>t. fade_times (k + 1) s1 = Some t \<and>
        (case patterns ! (k div 510 + 1) of (r, g, b) \<Rightarrow>
           ws_r (ws t) = of_nat (r * fade_level k div 256) \<and> ws_g (ws t) = of_nat (g * fade_level k div 256) \<and> ws_b (ws t) = of_nat (b * fade_level k div 256)))"
    using ws2812_fade_leaves_table [of dark_strip] by blast
  then obtain t where "fade_times (255 + 1) s1 = Some t" "ws_g (ws t) = 255"
    using s1(3) [rule_format, of 255] by (auto simp: patterns_def fade_level_def)
  then show ?thesis
    using s1(1,2) by auto
qed

end
