(* ===== verification/Lwip_Timers.thy ===== *)
theory Lwip_Timers
  imports Prelude
begin

text \<open>
  The list of timeouts of lwIP (\<^verbatim>\<open>src/lwip/lwip/src/core/timers.c\<close>), on which the network
  thread runs the time-driven parts of the stack and the SNTP client. Each entry holds the time
  from the expiry of the one before it. Shown: the operations are insertion, removal and the
  passing of time on the list of absolute deadlines.
\<close>

section \<open>The list\<close>

text \<open>\<^verbatim>\<open>struct sys_timeo\<close>; the link to the next entry is the position in the list.\<close>

record ('h, 'a) sys_timeo =
  tm_time :: u32
  tm_h :: 'h
  tm_arg :: 'a

text \<open>The loop of \<^verbatim>\<open>sys_timeout\<close> over the entries from \<open>t\<close> on, with the new entry in hand.\<close>

fun timeout_loop :: "('h, 'a) sys_timeo \<Rightarrow> ('h, 'a) sys_timeo list \<Rightarrow> ('h, 'a) sys_timeo list" where
  "timeout_loop timeout [] = []"
| "timeout_loop timeout (t # rest) =
     (let timeout1 = timeout\<lparr>tm_time := tm_time timeout - tm_time t\<rparr>
      in case rest of
           [] \<Rightarrow> [t, timeout1]
         | next # rest1 \<Rightarrow>
             if tm_time next > tm_time timeout1 then t # timeout1 # next\<lparr>tm_time := tm_time next - tm_time timeout1\<rparr> # rest1
             else t # timeout_loop timeout1 rest)"

text \<open>
  \<^verbatim>\<open>sys_timeout\<close>; \<open>got\<close> says whether \<^verbatim>\<open>memp_malloc\<close> found memory for the entry. Without it the
  function returns and nothing will happen.
\<close>

definition sys_timeout :: "bool \<Rightarrow> u32 \<Rightarrow> 'h \<Rightarrow> 'a \<Rightarrow> ('h, 'a) sys_timeo list \<Rightarrow> ('h, 'a) sys_timeo list" where
  "sys_timeout got msecs handler a next_timeout =
     (let timeout = \<lparr>tm_time = msecs, tm_h = handler, tm_arg = a\<rparr>
      in if \<not> got then next_timeout
         else case next_timeout of
           [] \<Rightarrow> [timeout]
         | t # rest \<Rightarrow>
             if tm_time t > msecs then timeout # t\<lparr>tm_time := tm_time t - msecs\<rparr> # rest
             else timeout_loop timeout next_timeout)"

fun sys_untimeout :: "'h \<Rightarrow> 'a \<Rightarrow> ('h, 'a) sys_timeo list \<Rightarrow> ('h, 'a) sys_timeo list" where
  "sys_untimeout handler a [] = []"
| "sys_untimeout handler a (t # rest) =
     (if tm_h t = handler \<and> tm_arg t = a
      then (case rest of [] \<Rightarrow> [] | next # rest1 \<Rightarrow> next\<lparr>tm_time := tm_time next + tm_time t\<rparr> # rest1)
      else t # sys_untimeout handler a rest)"

text \<open>
  \<^verbatim>\<open>sys_timeouts_mbox_fetch\<close>. The state \<open>'s\<close> of the thread holds the list, which \<open>get_timeouts\<close> and
  \<open>put_timeouts\<close> read and write; \<open>mbox_fetch\<close> is \<^verbatim>\<open>sys_arch_mbox_fetch\<close> of the port: it waits for a
  message, at most the given number of milliseconds (0: for ever), and returns the time it waited
  and the message, or \<^term>\<open>None\<close> for \<^verbatim>\<open>SYS_ARCH_TIMEOUT\<close>. \<open>run_handler\<close> calls a handler.
\<close>

record ('h, 'a, 's, 'm) mbox_env =
  get_timeouts :: "'s \<Rightarrow> ('h, 'a) sys_timeo list"
  put_timeouts :: "('h, 'a) sys_timeo list \<Rightarrow> 's \<Rightarrow> 's"
  mbox_fetch :: "u32 \<Rightarrow> 's \<Rightarrow> (u32 \<times> 'm) option \<times> 's"
  run_handler :: "'h \<Rightarrow> 'a \<Rightarrow> 's \<Rightarrow> 's option"

text \<open>What is left of the first entry when a message ends the waiting.\<close>

fun waited :: "u32 \<Rightarrow> ('h, 'a) sys_timeo list \<Rightarrow> ('h, 'a) sys_timeo list" where
  "waited time_needed [] = []"
| "waited time_needed (t # rest) =
     (if time_needed < tm_time t then t\<lparr>tm_time := tm_time t - time_needed\<rparr> else t\<lparr>tm_time := 0\<rparr>) # rest"

text \<open>The first timeout expires: it leaves the list and its handler is called.\<close>

definition expire :: "('h, 'a, 's, 'm) mbox_env \<Rightarrow> 's \<Rightarrow> 's option" where
  "expire env s =
     (case get_timeouts env s of
        [] \<Rightarrow> None
      | tmptimeout # rest \<Rightarrow> run_handler env (tm_h tmptimeout) (tm_arg tmptimeout) (put_timeouts env rest s))"

partial_function (option) sys_timeouts_mbox_fetch :: "('h, 'a, 's, 'm) mbox_env \<Rightarrow> 's \<Rightarrow> ('m option \<times> 's) option" where
  "sys_timeouts_mbox_fetch env s =
     (case get_timeouts env s of
        [] \<Rightarrow> (case mbox_fetch env 0 s of (got, s1) \<Rightarrow> Some (map_option snd got, s1))
      | t # _ \<Rightarrow>
          (case (if tm_time t > 0 then mbox_fetch env (tm_time t) s else (None, s)) of
             (None, s1) \<Rightarrow> (case expire env s1 of None \<Rightarrow> None | Some s2 \<Rightarrow> sys_timeouts_mbox_fetch env s2)
           | (Some (time_needed, msg), s1) \<Rightarrow>
               (case get_timeouts env s1 of
                  [] \<Rightarrow> None
                | _ \<Rightarrow> Some (Some msg, put_timeouts env (waited time_needed (get_timeouts env s1)) s1))))"

section \<open>Deadlines\<close>

text \<open>The list with the times counted from now, \<open>b\<close> being the expiry of what stands before it.\<close>

fun deadlines :: "nat \<Rightarrow> ('h, 'a) sys_timeo list \<Rightarrow> (nat \<times> 'h \<times> 'a) list" where
  "deadlines b [] = []"
| "deadlines b (t # ts) = (b + unat (tm_time t), tm_h t, tm_arg t) # deadlines (b + unat (tm_time t)) ts"

text \<open>
  The operations on deadlines: insert behind everything that is due no later; remove the first
  entry of a handler; let time pass.
\<close>

definition insert_deadline :: "nat \<Rightarrow> 'x \<Rightarrow> (nat \<times> 'x) list \<Rightarrow> (nat \<times> 'x) list" where
  "insert_deadline d x ds = takeWhile (\<lambda>y. fst y \<le> d) ds @ (d, x) # dropWhile (\<lambda>y. fst y \<le> d) ds"

fun remove_first :: "'x \<Rightarrow> (nat \<times> 'x) list \<Rightarrow> (nat \<times> 'x) list" where
  "remove_first x [] = []"
| "remove_first x (y # ys) = (if snd y = x then ys else y # remove_first x ys)"

definition pass :: "nat \<Rightarrow> (nat \<times> 'x) list \<Rightarrow> (nat \<times> 'x) list" where
  "pass n ds = map (\<lambda>y. (fst y - n, snd y)) ds"

text \<open>All deadlines are below \<open>2 ^ 32\<close> milliseconds: times are then added without wrapping.\<close>

definition timeouts_ok :: "('h, 'a) sys_timeo list \<Rightarrow> bool" where
  "timeouts_ok ts \<longleftrightarrow> (\<forall>y \<in> set (deadlines 0 ts). fst y < 2 ^ 32)"

lemma deadlines_shift: "deadlines (b + c) ts = map (\<lambda>y. (b + fst y, snd y)) (deadlines c ts)"
  by (induction ts arbitrary: c) (simp_all add: add.assoc)

lemma deadlines_ge: "y \<in> set (deadlines b ts) \<Longrightarrow> b \<le> fst y"
  by (induction ts arbitrary: b) fastforce+

lemma unat_minus: "b \<le> a \<Longrightarrow> unat (a - b) = unat a - unat b" for a b :: u32
  by (simp add: unat_sub_if_size word_le_nat_alt)

lemma timeout_loop_deadlines:
  assumes "tm_time (hd ts) \<le> tm_time timeout" "ts \<noteq> []"
  shows "deadlines b (timeout_loop timeout ts) =
    insert_deadline (b + unat (tm_time timeout)) (tm_h timeout, tm_arg timeout) (deadlines b ts)"
  using assms
proof (induction timeout ts arbitrary: b rule: timeout_loop.induct)
  case (2 timeout t rest)
  let ?timeout = "timeout\<lparr>tm_time := tm_time timeout - tm_time t\<rparr>"
  have le: "unat (tm_time t) \<le> unat (tm_time timeout)"
    using "2.prems"(1) by (simp add: word_le_nat_alt)
  have d: "unat (tm_time timeout - tm_time t) = unat (tm_time timeout) - unat (tm_time t)"
    using "2.prems"(1) by (simp add: unat_minus)
  show ?case
  proof (cases rest)
    case Nil
    then show ?thesis
      using le by (simp add: insert_deadline_def d)
  next
    case (Cons n rest1)
    show ?thesis
    proof (cases "tm_time n > tm_time ?timeout")
      case True
      then have "unat (tm_time timeout) - unat (tm_time t) < unat (tm_time n)"
        "unat (tm_time n - (tm_time timeout - tm_time t)) = unat (tm_time n) - (unat (tm_time timeout) - unat (tm_time t))"
        by (simp_all add: word_less_nat_alt d unat_minus less_imp_le)
      moreover from this(1) le have "unat (tm_time timeout) < unat (tm_time t) + unat (tm_time n)"
        by simp
      ultimately show ?thesis
        using True le Cons by (simp add: insert_deadline_def d Let_def ac_simps)
    next
      case False
      then have "deadlines (b + unat (tm_time t)) (timeout_loop ?timeout rest) =
        insert_deadline (b + unat (tm_time timeout)) (tm_h timeout, tm_arg timeout) (deadlines (b + unat (tm_time t)) rest)"
        using "2.IH"[OF refl Cons False] Cons le by (simp add: d)
      then show ?thesis
        using False le Cons by (simp add: insert_deadline_def Let_def)
    qed
  qed
qed simp

lemma sys_timeout_deadlines:
  "deadlines 0 (sys_timeout True msecs handler a ts) = insert_deadline (unat msecs) (handler, a) (deadlines 0 ts)"
proof (cases ts)
  case (Cons t rest)
  show ?thesis
  proof (cases "tm_time t > msecs")
    case True
    then have "unat msecs < unat (tm_time t)" "unat (tm_time t - msecs) = unat (tm_time t) - unat msecs"
      by (simp_all add: word_less_nat_alt unat_minus less_imp_le)
    then show ?thesis
      using True Cons by (simp add: sys_timeout_def insert_deadline_def)
  next
    case False
    then show ?thesis
      using Cons timeout_loop_deadlines[of ts "\<lparr>tm_time = msecs, tm_h = handler, tm_arg = a\<rparr>" 0]
      by (simp add: sys_timeout_def)
  qed
qed (simp add: sys_timeout_def insert_deadline_def)

lemma sys_untimeout_deadlines:
  assumes "\<forall>y \<in> set (deadlines b ts). fst y < 2 ^ 32"
  shows "deadlines b (sys_untimeout handler a ts) = remove_first (handler, a) (deadlines b ts)"
  using assms
proof (induction ts arbitrary: b)
  case (Cons t rest)
  show ?case
  proof (cases "tm_h t = handler \<and> tm_arg t = a")
    case True
    show ?thesis
    proof (cases rest)
      case (Cons n rest1)
      have "unat (tm_time n + tm_time t) = unat (tm_time n) + unat (tm_time t)"
        using Cons.prems Cons by (simp add: unat_word_ariths)
      then show ?thesis
        using True Cons by (simp add: ac_simps)
    qed (use True in simp)
  next
    case False
    then show ?thesis
      using Cons.IH[of "b + unat (tm_time t)"] Cons.prems by auto
  qed
qed simp

lemma waited_deadlines:
  "deadlines 0 (waited n ts) = pass (case ts of [] \<Rightarrow> 0 | t # _ \<Rightarrow> min (unat n) (unat (tm_time t))) (deadlines 0 ts)"
proof (cases ts)
  case (Cons t rest)
  have shift: "pass m (deadlines (m + k) rest) = deadlines k rest" for m k
    unfolding deadlines_shift[of m k] by (simp add: pass_def comp_def)
  show ?thesis
  proof (cases "n < tm_time t")
    case True
    then have "unat n < unat (tm_time t)" "unat (tm_time t - n) = unat (tm_time t) - unat n"
      by (simp_all add: word_less_nat_alt unat_minus less_imp_le)
    then show ?thesis
      using True Cons shift[of "unat n" "unat (tm_time t) - unat n"] by (simp add: pass_def)
  next
    case False
    then have "min (unat n) (unat (tm_time t)) = unat (tm_time t)"
      by (simp add: word_le_nat_alt not_less)
    then show ?thesis
      using False Cons shift[of "unat (tm_time t)" 0] by (simp add: pass_def)
  qed
qed (simp add: pass_def)

lemma expired_deadlines: "deadlines 0 rest = pass (unat (tm_time t)) (tl (deadlines 0 (t # rest)))"
  using deadlines_shift[of "unat (tm_time t)" 0 rest] by (simp add: pass_def comp_def)

lemma deadlines_sorted: "sorted (map fst (deadlines b ts))"
  by (induction ts arbitrary: b) (auto dest: deadlines_ge)

lemma set_insert_deadline: "set (insert_deadline d x ds) = insert (d, x) (set ds)"
  unfolding insert_deadline_def by (subst (3) takeWhile_dropWhile_id[symmetric]) (simp del: takeWhile_dropWhile_id)

lemma set_remove_first: "set (remove_first x ds) \<subseteq> set ds"
  by (induction ds) auto

lemma timeouts_ok_timeout: "timeouts_ok ts \<Longrightarrow> timeouts_ok (sys_timeout got msecs handler a ts)"
  using unsigned_less[of msecs, where 'a = nat]
  by (cases got) (auto simp: timeouts_ok_def sys_timeout_deadlines set_insert_deadline sys_timeout_def[of False])

lemma timeouts_ok_untimeout: "timeouts_ok ts \<Longrightarrow> timeouts_ok (sys_untimeout handler a ts)"
  using set_remove_first unfolding timeouts_ok_def by (fastforce simp: sys_untimeout_deadlines)

lemma timeouts_ok_waited: "timeouts_ok ts \<Longrightarrow> timeouts_ok (waited n ts)"
  unfolding timeouts_ok_def waited_deadlines by (fastforce simp: pass_def)

lemma timeouts_ok_tl: "timeouts_ok (t # rest) \<Longrightarrow> timeouts_ok rest"
  unfolding timeouts_ok_def expired_deadlines[of rest t] by (fastforce simp: pass_def)

lemmas timeouts_ok_intros = timeouts_ok_timeout timeouts_ok_untimeout timeouts_ok_waited timeouts_ok_tl

text \<open>What holds before, and is kept by waiting and by every handler, holds when a message arrives.\<close>

lemma mbox_fetch_invariant:
  assumes "\<And>ms s. I s \<Longrightarrow> I (snd (mbox_fetch env ms s))"
    and "\<And>s s'. I s \<Longrightarrow> expire env s = Some s' \<Longrightarrow> I s'"
    and "\<And>n s. I s \<Longrightarrow> I (put_timeouts env (waited n (get_timeouts env s)) s)"
  shows "sys_timeouts_mbox_fetch env s = Some r \<Longrightarrow> I s \<Longrightarrow> I (snd r)"
proof -
  assume run: "sys_timeouts_mbox_fetch env s = Some r" and "I s"
  have "env = env \<longrightarrow> I s \<longrightarrow> I (snd r)"
  proof (rule sys_timeouts_mbox_fetch.raw_induct[where P = "\<lambda>env' s r. env' = env \<longrightarrow> I s \<longrightarrow> I (snd r)", OF _ run], intro impI)
    fix f env' s r
    assume IH: "\<And>env' s r. f env' s = Some r \<Longrightarrow> env' = env \<longrightarrow> I s \<longrightarrow> I (snd r)"
      and step: "(case get_timeouts env' s of
        [] \<Rightarrow> (case mbox_fetch env' 0 s of (got, s1) \<Rightarrow> Some (map_option snd got, s1))
      | t # _ \<Rightarrow>
          (case (if tm_time t > 0 then mbox_fetch env' (tm_time t) s else (None, s)) of
             (None, s1) \<Rightarrow> (case expire env' s1 of None \<Rightarrow> None | Some s2 \<Rightarrow> f env' s2)
           | (Some (time_needed, msg), s1) \<Rightarrow>
               (case get_timeouts env' s1 of
                  [] \<Rightarrow> None
                | _ \<Rightarrow> Some (Some msg, put_timeouts env' (waited time_needed (get_timeouts env' s1)) s1)))) = Some r"
      and [simp]: "env' = env" and "I s"
    have fetched: "I (snd (if b then mbox_fetch env ms s else (None, s)))" for b ms
      using assms(1) \<open>I s\<close> by simp
    show "I (snd r)"
    proof (cases "get_timeouts env s")
      case Nil
      then show ?thesis
        using step assms(1)[OF \<open>I s\<close>, of 0] by (cases "mbox_fetch env 0 s") auto
    next
      case (Cons t ts)
      obtain got s1 where got: "(if tm_time t > 0 then mbox_fetch env (tm_time t) s else (None, s)) = (got, s1)"
        by (cases "if tm_time t > 0 then mbox_fetch env (tm_time t) s else (None, s)")
      then have "I s1"
        using fetched[of "tm_time t > 0" "tm_time t"] by simp
      then show ?thesis
        using step IH assms(2) assms(3)[OF \<open>I s1\<close>] unfolding \<open>env' = env\<close> Cons list.case got
        by (cases got) (auto simp del: waited.simps split: option.splits list.splits)
    qed
  qed
  then show ?thesis
    using \<open>I s\<close> by simp
qed

text \<open>
  C21: The list of relative times implements a queue of deadlines ordered by time. Setting a timeout inserts its
  deadline behind all that are due no later, cancelling removes the first entry of the handler and leaves every
  other deadline as it is, a message received after waiting moves all deadlines nearer by the time waited (at most to
  the first one), and when the first timeout expires the others move nearer by its time; the list stays
  ordered and its times never wrap.
\<close>

theorem timeouts_refine_deadlines:
  assumes "timeouts_ok (t # rest)"
  shows "deadlines 0 (sys_timeout True msecs handler a (t # rest)) =
        insert_deadline (unat msecs) (handler, a) (deadlines 0 (t # rest)) \<and>
      deadlines 0 (sys_untimeout handler a (t # rest)) = remove_first (handler, a) (deadlines 0 (t # rest)) \<and>
      deadlines 0 (waited n (t # rest)) = pass (min (unat n) (unat (tm_time t))) (deadlines 0 (t # rest)) \<and>
      deadlines 0 rest = pass (unat (tm_time t)) (tl (deadlines 0 (t # rest))) \<and>
      sorted (map fst (deadlines 0 (t # rest))) \<and>
      timeouts_ok (sys_timeout True msecs handler a (t # rest)) \<and> timeouts_ok (sys_untimeout handler a (t # rest)) \<and>
      timeouts_ok (waited n (t # rest)) \<and> timeouts_ok rest"
  using assms sys_untimeout_deadlines[of 0 "t # rest" handler a] waited_deadlines[of n "t # rest"]
    timeouts_ok_timeout[OF assms, of True msecs handler a] timeouts_ok_untimeout[OF assms, of handler a]
    timeouts_ok_waited[OF assms, of n] timeouts_ok_tl[OF assms]
  unfolding timeouts_ok_def[of "t # rest"]
  by (intro conjI sys_timeout_deadlines expired_deadlines deadlines_sorted) simp_all

theorem timeouts_refine_deadlines_witness:
  "let ts = [\<lparr>tm_time = 100, tm_h = 1 :: nat, tm_arg = ()\<rparr>, \<lparr>tm_time = 50, tm_h = 2, tm_arg = ()\<rparr>]
   in timeouts_ok ts \<and> deadlines 0 (sys_timeout True 120 3 () ts) = [(100, 1, ()), (120, 3, ()), (150, 2, ())] \<and>
     map (unat \<circ> tm_time) (sys_timeout True 120 3 () ts) = [100, 20, 30] \<and>
     deadlines 0 (sys_untimeout 1 () ts) = [(150, 2, ())] \<and> deadlines 0 (waited 30 ts) = [(70, 1, ()), (120, 2, ())]"
proof -
  have ok: "timeouts_ok [\<lparr>tm_time = 100, tm_h = 1 :: nat, tm_arg = ()\<rparr>, \<lparr>tm_time = 50, tm_h = 2, tm_arg = ()\<rparr>]"
    by (simp add: timeouts_ok_def)
  show ?thesis
    using timeouts_refine_deadlines[OF ok, of 120 3 "()" 30] timeouts_refine_deadlines[OF ok, of 0 1 "()" 0] ok
    by (simp add: insert_deadline_def pass_def sys_timeout_def)
qed

end
