(* ===== verification/Sntp.thy ===== *)
theory Sntp
  imports Lwip_Timers Netbuf
begin

unbundle bit_operations_syntax

text \<open>
  The time client: \<^verbatim>\<open>src/extras/sntp/sntp.c\<close> asks time servers over UDP, driven by the timeouts of
  the network thread, and \<^verbatim>\<open>src/extras/sntp/sntp_fun.c\<close> keeps the time as an offset of the real time counter. As
  built: names instead of addresses (\<^verbatim>\<open>SNTP_SERVER_DNS\<close>), four servers, microseconds, no
  check of where a response comes from (\<^verbatim>\<open>SNTP_CHECK_RESPONSE\<close> 0).
\<close>

section \<open>State\<close>

type_synonym u64 = "64 word"

record timezone =
  tz_minuteswest :: int
  tz_dsttime :: int

text \<open>The scratch registers of the real time clock as \<^verbatim>\<open>sntp_fun.c\<close> names them, and the time zone.\<close>

record sntp_clock =
  sntp_base :: u64
  tim_ref :: u32
  cal :: u32
  stz :: timezone

text \<open>
  The handlers in the list of timeouts, those of the rest of the stack included. The argument of
  a handler is a pointer, 0 being \<^verbatim>\<open>NULL\<close>.
\<close>

datatype sntp_handler = Sntp_request | Sntp_try_next_server | Other_handler nat

type_synonym sntp_timeouts = "(sntp_handler, nat) sys_timeo list"

record 'w sntp_state =
  next_timeout :: sntp_timeouts
  sntp_pcb :: bool
  sntp_server_addresses :: "byte list option list"
  sntp_num_servers :: byte
  sntp_current_server :: byte
  sntp_update_delay :: u32
  sntp_retry_timeout :: u32
  sntp_rtc :: sntp_clock
  sntp_world :: 'w

text \<open>
  What the client calls, on a world \<open>'w\<close>: memory for timeouts and packets, the resolver (error code and
  address), UDP, the heap (the number of bytes usable in the block), the real time counter and its
  calibration. \<open>dns_waiting\<close> is the number of answers the resolver owes, \<open>udp_sent\<close> the number of packets sent.
\<close>

record 'w sntp_env =
  timeo_alloc :: "'w \<Rightarrow> bool \<times> 'w"
  packet_alloc :: "'w \<Rightarrow> bool \<times> 'w"
  packet_free :: "'w \<Rightarrow> 'w"
  gethostbyname :: "byte list option \<Rightarrow> 'w \<Rightarrow> int \<times> nat \<times> 'w"
  dns_waiting :: "'w \<Rightarrow> nat"
  udp_new :: "'w \<Rightarrow> bool \<times> 'w"
  udp_sendto :: "byte list \<Rightarrow> nat \<Rightarrow> nat \<Rightarrow> 'w \<Rightarrow> 'w"
  udp_sent :: "'w \<Rightarrow> nat"
  heap_alloc :: "nat \<Rightarrow> 'w \<Rightarrow> nat option \<times> 'w"
  heap_free :: "byte list option \<Rightarrow> 'w \<Rightarrow> 'w"
  timer_count :: "'w \<Rightarrow> u32 \<times> 'w"
  clock_cali_proc :: "'w \<Rightarrow> u32 \<times> 'w"

abbreviation (input) ERR_OK :: int where "ERR_OK \<equiv> 0"
abbreviation (input) ERR_INPROGRESS :: int where "ERR_INPROGRESS \<equiv> - 5"
abbreviation (input) ERR_ARG :: int where "ERR_ARG \<equiv> - 14"
abbreviation (input) SNTP_ERR_KOD :: int where "SNTP_ERR_KOD \<equiv> 1"
abbreviation (input) EINVAL :: int where "EINVAL \<equiv> 22"

section \<open>The clock\<close>

definition set_rtc :: "(sntp_clock \<Rightarrow> sntp_clock) \<Rightarrow> 'w sntp_state \<Rightarrow> 'w sntp_state" where
  "set_rtc f s = s\<lparr>sntp_rtc := f (sntp_rtc s)\<rparr>"

text \<open>A volatile read of the counter.\<close>

definition read_counter :: "'w sntp_env \<Rightarrow> 'w sntp_state \<Rightarrow> u32 \<times> 'w sntp_state" where
  "read_counter env s = (case timer_count env (sntp_world s) of (c, w) \<Rightarrow> (c, s\<lparr>sntp_world := w\<rparr>))"

definition sntp_set_timezone :: "timezone option \<Rightarrow> 'w sntp_state \<Rightarrow> 'w sntp_state" where
  "sntp_set_timezone tz s =
     set_rtc (\<lambda>r. r\<lparr>stz := (case tz of Some z \<Rightarrow> z | None \<Rightarrow> \<lparr>tz_minuteswest = 0, tz_dsttime = 0\<rparr>)\<rparr>) s"

definition sntp_check_timer_wrap :: "u32 \<Rightarrow> 'w sntp_state \<Rightarrow> 'w sntp_state" where
  "sntp_check_timer_wrap current_value s =
     (if current_value < tim_ref (sntp_rtc s) then set_rtc (\<lambda>r. r\<lparr>sntp_base := sntp_base r - 2 ^ 32\<rparr>) s else s)"

text \<open>Conversion of a 64-bit value to the 32-bit signed types \<^verbatim>\<open>time_t\<close> and \<^verbatim>\<open>int32_t\<close>.\<close>

definition to_s32 :: "u64 \<Rightarrow> int" where
  "to_s32 x = signed_take_bit 31 (uint x)"

text \<open>\<^verbatim>\<open>sntp_get_rtc_time\<close>: the seconds and what it stores at \<^verbatim>\<open>us\<close>.\<close>

definition sntp_get_rtc_time :: "'w sntp_env \<Rightarrow> 'w sntp_state \<Rightarrow> (int \<times> int) \<times> 'w sntp_state" where
  "sntp_get_rtc_time env s =
     (case read_counter env s of (tim, s1) \<Rightarrow>
        let s2 = sntp_check_timer_wrap tim s1;
            base = sntp_base (sntp_rtc s2) + ucast tim - ucast (tim_ref (sntp_rtc s2));
            ticks = base * ucast (cal (sntp_rtc s2))
        in ((to_s32 (ticks div 4096000000), to_s32 (ticks mod 4096000000)), s2))"

record timeval =
  tv_sec :: int
  tv_usec :: int

definition gettimeofday_r ::
  "'w sntp_env \<Rightarrow> timeval option \<Rightarrow> bool \<Rightarrow> 'w sntp_state \<Rightarrow> int \<times> timeval option \<times> 'w sntp_state" where
  "gettimeofday_r env tp tzp s =
     (if tzp \<or> tp = None then (EINVAL, tp, s)
      else case sntp_get_rtc_time env s of ((sec, us), s1) \<Rightarrow> (0, Some \<lparr>tv_sec = sec, tv_usec = us\<rparr>, s1))"

text \<open>The time in ticks of the counter, \<^term>\<open>cal\<close> being 4096 times the microseconds of one tick.\<close>

definition rtc_ticks :: "int \<Rightarrow> u32 \<Rightarrow> u32 \<Rightarrow> u64 option" where
  "rtc_ticks t us c =
     (if c = 0 then None else Some (push_bit 12 (ucast us + word_of_int t * 1000000) div ucast c))"

definition sntp_update_rtc :: "'w sntp_env \<Rightarrow> int \<Rightarrow> u32 \<Rightarrow> 'w sntp_state \<Rightarrow> 'w sntp_state option" where
  "sntp_update_rtc env t us s =
     do {
       dst \<leftarrow> c_int (tz_dsttime (stz (sntp_rtc s)) * 60);
       mins \<leftarrow> c_int (tz_minuteswest (stz (sntp_rtc s)) + dst);
       secs \<leftarrow> c_int (mins * 60);
       t1 \<leftarrow> c_int (t + secs);
       let (_, s1) = read_counter env s;
       _ \<leftarrow> rtc_ticks t1 us (cal (sntp_rtc s1));
       let (ref, s2) = read_counter env s1;
       let (c, w) = clock_cali_proc env (sntp_world s2);
       base \<leftarrow> rtc_ticks t1 us c;
       Some (set_rtc (\<lambda>r. r\<lparr>tim_ref := ref, cal := c, sntp_base := base\<rparr>) (s2\<lparr>sntp_world := w\<rparr>))
     }"

section \<open>Requests\<close>

text \<open>\<^verbatim>\<open>sys_timeout\<close> and \<^verbatim>\<open>sys_untimeout\<close> as the client calls them, with the argument \<^verbatim>\<open>NULL\<close>.\<close>

definition add_timeout :: "'w sntp_env \<Rightarrow> u32 \<Rightarrow> sntp_handler \<Rightarrow> 'w sntp_state \<Rightarrow> 'w sntp_state" where
  "add_timeout env msecs handler s =
     (case timeo_alloc env (sntp_world s) of
        (got, w) \<Rightarrow> s\<lparr>next_timeout := sys_timeout got msecs handler 0 (next_timeout s), sntp_world := w\<rparr>)"

definition del_timeout :: "sntp_handler \<Rightarrow> 'w sntp_state \<Rightarrow> 'w sntp_state" where
  "del_timeout handler s = s\<lparr>next_timeout := sys_untimeout handler 0 (next_timeout s)\<rparr>"

definition sntp_retry :: "'w sntp_env \<Rightarrow> 'w sntp_state \<Rightarrow> 'w sntp_state" where
  "sntp_retry env s =
     (let s1 = add_timeout env (sntp_retry_timeout s) Sntp_request s;
          new_retry_timeout = push_bit 1 (sntp_retry_timeout s1)
      in if new_retry_timeout \<le> 30000 \<and> new_retry_timeout > sntp_retry_timeout s1
         then s1\<lparr>sntp_retry_timeout := new_retry_timeout\<rparr> else s1)"

definition sntp_initialize_request :: "byte list" where
  "sntp_initialize_request = (replicate 48 0)[0 := 0x00 OR 0x20 OR 0x03]"

definition sntp_send_request :: "'w sntp_env \<Rightarrow> nat \<Rightarrow> 'w sntp_state \<Rightarrow> 'w sntp_state" where
  "sntp_send_request env server_addr s =
     (case packet_alloc env (sntp_world s) of
        (True, w) \<Rightarrow>
          add_timeout env 3000 Sntp_try_next_server
            (s\<lparr>sntp_world := packet_free env (udp_sendto env sntp_initialize_request server_addr 123 w)\<rparr>)
      | (False, w) \<Rightarrow> add_timeout env 3000 Sntp_request (s\<lparr>sntp_world := w\<rparr>))"

definition sntp_request :: "'w sntp_env \<Rightarrow> 'w sntp_state \<Rightarrow> 'w sntp_state option" where
  "sntp_request env s =
     do {
       name \<leftarrow> read_at (sntp_server_addresses s) (unat (sntp_current_server s));
       let (err, addr, w) = gethostbyname env name (sntp_world s);
       let s1 = s\<lparr>sntp_world := w\<rparr>;
       Some (if err = ERR_INPROGRESS then s1
             else if err = ERR_OK then sntp_send_request env addr s1
             else add_timeout env 3000 Sntp_try_next_server s1)
     }"

definition sntp_try_next_server :: "'w sntp_env \<Rightarrow> 'w sntp_state \<Rightarrow> 'w sntp_state option" where
  "sntp_try_next_server env s =
     (if sntp_num_servers s > 1 then
        let s1 = s\<lparr>sntp_retry_timeout := 3000, sntp_current_server := sntp_current_server s + 1\<rparr>;
            s2 = (if sntp_current_server s1 \<ge> sntp_num_servers s1 then s1\<lparr>sntp_current_server := 0\<rparr> else s1)
        in sntp_request env s2
      else Some (sntp_retry env s))"

definition sntp_dns_found :: "'w sntp_env \<Rightarrow> nat option \<Rightarrow> 'w sntp_state \<Rightarrow> 'w sntp_state option" where
  "sntp_dns_found env ipaddr s =
     (case ipaddr of Some a \<Rightarrow> Some (sntp_send_request env a s) | None \<Rightarrow> sntp_try_next_server env s)"

section \<open>Responses\<close>

text \<open>The value of four bytes in network order.\<close>

definition ntohl :: "byte list \<Rightarrow> u32" where
  "ntohl bs = of_nat (foldl (\<lambda>n b. 256 * n + unat b) 0 bs)"

text \<open>The subtraction is unsigned, the result is stored in the signed type \<^verbatim>\<open>time_t\<close>.\<close>

definition unix_time :: "u32 \<Rightarrow> int" where
  "unix_time ntp = sint (ntp - 2208988800)"

definition sntp_process :: "'w sntp_env \<Rightarrow> byte list \<Rightarrow> 'w sntp_state \<Rightarrow> 'w sntp_state option" where
  "sntp_process env receive_timestamp s =
     sntp_update_rtc env (unix_time (ntohl (take 4 receive_timestamp))) (ntohl (drop 4 receive_timestamp) div 4295) s"

definition tot_len :: "pbuf list \<Rightarrow> nat" where
  "tot_len p = sum_list (map (length \<circ> pb_data) p)"

text \<open>The examination of a packet: the error code and the timestamp that is copied if there is no error.\<close>

definition check_response :: "pbuf list \<Rightarrow> int \<times> byte list" where
  "check_response p =
     (if tot_len p = 48 then
        let mode = hd (pbuf_copy_partial p 1 0) AND 0x07
        in if mode = 4 \<or> mode = 5 then
             let stratum = hd (pbuf_copy_partial p 1 1)
             in if stratum = 0 then (SNTP_ERR_KOD, [])
                else (ERR_OK, pbuf_copy_partial p 8 32)
           else (ERR_ARG, [])
      else (ERR_ARG, []))"

definition sntp_recv :: "'w sntp_env \<Rightarrow> pbuf list \<Rightarrow> 'w sntp_state \<Rightarrow> 'w sntp_state option" where
  "sntp_recv env p s =
     (let s1 = del_timeout Sntp_request (del_timeout Sntp_try_next_server s);
          (err, receive_timestamp) = check_response p;
          s2 = s1\<lparr>sntp_world := packet_free env (sntp_world s1)\<rparr>
      in if err = ERR_OK then
           do {
             s3 \<leftarrow> sntp_process env receive_timestamp (s2\<lparr>sntp_retry_timeout := 3000\<rparr>);
             Some (add_timeout env (sntp_update_delay s3) Sntp_request s3)
           }
         else if err = SNTP_ERR_KOD then sntp_try_next_server env s2
         else Some (sntp_retry env s2))"

section \<open>Interface\<close>

text \<open>Freeing the addresses of the servers from the last one down; \<^term>\<open>n\<close> is \<^verbatim>\<open>i + 1\<close>.\<close>

fun free_servers :: "'w sntp_env \<Rightarrow> nat \<Rightarrow> 'w sntp_state \<Rightarrow> 'w sntp_state option" where
  "free_servers env 0 s = Some s"
| "free_servers env (Suc n) s =
     do {
       a \<leftarrow> read_at (sntp_server_addresses s) n;
       free_servers env n (s\<lparr>sntp_server_addresses := (sntp_server_addresses s)[n := None],
                             sntp_world := heap_free env a (sntp_world s)\<rparr>)
     }"

text \<open>
  Copying the names from number \<open>i\<close> on. The block is asked for with the length of the name;
  \<^verbatim>\<open>strcpy\<close> writes one byte more.
\<close>

fun copy_servers :: "'w sntp_env \<Rightarrow> nat \<Rightarrow> byte list list \<Rightarrow> 'w sntp_state \<Rightarrow> (bool \<times> 'w sntp_state) option" where
  "copy_servers env i [] s = Some (True, s)"
| "copy_servers env i (url # urls) s =
     (case heap_alloc env (length url) (sntp_world s) of
        (Some usable, w) \<Rightarrow>
          if length url + 1 \<le> usable \<and> i < length (sntp_server_addresses s)
          then copy_servers env (Suc i) urls
            (s\<lparr>sntp_server_addresses := (sntp_server_addresses s)[i := Some url], sntp_world := w\<rparr>)
          else None
      | (None, w) \<Rightarrow>
          if i < length (sntp_server_addresses s)
          then Some (False, s\<lparr>sntp_server_addresses := (sntp_server_addresses s)[i := None], sntp_num_servers := of_nat i,
                              sntp_world := w\<rparr>)
          else None)"

text \<open>\<^verbatim>\<open>sntp_set_servers\<close>; the array \<open>server_url\<close> has at least \<open>num_servers\<close> entries.\<close>

definition sntp_set_servers ::
  "'w sntp_env \<Rightarrow> byte list list \<Rightarrow> int \<Rightarrow> 'w sntp_state \<Rightarrow> (int \<times> 'w sntp_state) option" where
  "sntp_set_servers env server_url num_servers s =
     (if 4 < num_servers then Some (-1, s)
      else if int (length server_url) < num_servers then None
      else do {
        s1 \<leftarrow> free_servers env (unat (sntp_num_servers s)) s;
        (ok, s2) \<leftarrow> copy_servers env 0 (take (nat num_servers) server_url) s1;
        Some (if ok then (0, s2\<lparr>sntp_num_servers := of_int num_servers\<rparr>) else (-2, s2))
      })"

definition sntp_set_update_delay :: "u32 \<Rightarrow> 'w sntp_state \<Rightarrow> 'w sntp_state" where
  "sntp_set_update_delay ms s = s\<lparr>sntp_update_delay := (if ms > 15000 then ms else 15000)\<rparr>"

text \<open>The name \<^verbatim>\<open>pool.ntp.org\<close>.\<close>

definition SNTP_SERVER_ADDRESS :: "byte list" where
  "SNTP_SERVER_ADDRESS = map (of_nat \<circ> of_char) ''pool.ntp.org''"

definition sntp_init :: "'w sntp_env \<Rightarrow> 'w sntp_state \<Rightarrow> 'w sntp_state option" where
  "sntp_init env s =
     do {
       (_, s1) \<leftarrow> sntp_set_servers env [SNTP_SERVER_ADDRESS] 1 (s\<lparr>sntp_num_servers := 0\<rparr>);
       let (got, w) = udp_new env (sntp_world s1);
       let s2 = s1\<lparr>sntp_retry_timeout := 3000, sntp_pcb := got, sntp_world := w\<rparr>;
       (if got then sntp_request env s2 else Some s2)
     }"

definition sntp_initialize :: "'w sntp_env \<Rightarrow> timezone option \<Rightarrow> 'w sntp_state \<Rightarrow> 'w sntp_state option" where
  "sntp_initialize env tz s =
     (let s1 = set_rtc (\<lambda>r. r\<lparr>sntp_base := 0, cal := 1\<rparr>) (sntp_set_timezone tz s);
          (ref, s2) = read_counter env s1
      in sntp_init env (set_rtc (\<lambda>r. r\<lparr>tim_ref := ref\<rparr>) s2))"

text \<open>A handler of the list is called; those of the rest of the stack do not touch the client.\<close>

definition sntp_run_handler :: "'w sntp_env \<Rightarrow> sntp_handler \<Rightarrow> 'w sntp_state \<Rightarrow> 'w sntp_state option" where
  "sntp_run_handler env handler s =
     (case handler of
        Sntp_request \<Rightarrow> sntp_request env s
      | Sntp_try_next_server \<Rightarrow> sntp_try_next_server env s
      | Other_handler _ \<Rightarrow> Some s)"

end
