(* ===== verification/Sntp_Client.thy ===== *)
theory Sntp_Client
  imports Sntp
begin

text \<open>
  The time client under every sequence of timeouts, packets, answers of the resolver and calls of the
  application: it never stops asking, but may ask nobody.
\<close>

section \<open>The network thread\<close>

text \<open>The list of timeouts in the state of the client; \<open>fetch\<close> waits for a message.\<close>

definition sntp_mbox ::
  "'w sntp_env \<Rightarrow> (u32 \<Rightarrow> 'w sntp_state \<Rightarrow> (u32 \<times> 'm) option \<times> 'w sntp_state) \<Rightarrow>
     (sntp_handler, nat, 'w sntp_state, 'm) mbox_env" where
  "sntp_mbox env fetch =
     \<lparr>get_timeouts = next_timeout, put_timeouts = \<lambda>ts s. s\<lparr>next_timeout := ts\<rparr>, mbox_fetch = fetch,
      run_handler = \<lambda>handler a s. sntp_run_handler env handler s\<rparr>"

text \<open>A world that differs in nothing the resolver owes and no packet of the client.\<close>

definition same_traffic :: "'w sntp_env \<Rightarrow> 'w \<Rightarrow> 'w \<Rightarrow> bool" where
  "same_traffic env w w' \<longleftrightarrow> dns_waiting env w' = dns_waiting env w \<and> udp_sent env w' = udp_sent env w"

text \<open>
  What can happen to the client: the first timeout expires, a message is waited for, a packet
  arrives at its port (from anywhere), the resolver answers, other users of the list set timeouts, and the
  application reads the clock or changes its settings. Changing the servers is kept apart.
\<close>

inductive sntp_step :: "'w sntp_env \<Rightarrow> 'w sntp_state \<Rightarrow> 'w sntp_state \<Rightarrow> bool" for env where
  expires: "next_timeout s = t # rest \<Longrightarrow> sntp_run_handler env (tm_h t) (s\<lparr>next_timeout := rest\<rparr>) = Some s' \<Longrightarrow>
     sntp_step env s s'"
| waits: "sntp_step env s (s\<lparr>next_timeout := waited n (next_timeout s)\<rparr>)"
| packet: "sntp_recv env p s = Some s' \<Longrightarrow> sntp_step env s s'"
| answer: "dns_waiting env (sntp_world s) = Suc (dns_waiting env w) \<Longrightarrow> udp_sent env w = udp_sent env (sntp_world s) \<Longrightarrow>
     sntp_dns_found env ipaddr (s\<lparr>sntp_world := w\<rparr>) = Some s' \<Longrightarrow> sntp_step env s s'"
| elsewhere: "same_traffic env (sntp_world s) w \<Longrightarrow> sntp_step env s (s\<lparr>sntp_world := w\<rparr>)"
| other_timeout: "sntp_step env s (add_timeout env msecs (Other_handler k) s)"
| reads_clock: "sntp_step env s (snd (sntp_get_rtc_time env s))"
| sets_zone: "sntp_step env s (sntp_set_timezone tz s)"
| sets_delay: "sntp_step env s (sntp_set_update_delay ms s)"

inductive sntp_reach :: "'w sntp_env \<Rightarrow> 'w sntp_state \<Rightarrow> 'w sntp_state \<Rightarrow> bool" for env where
  start: "sntp_reach env s s"
| step: "sntp_reach env s s' \<Longrightarrow> sntp_step env s' s'' \<Longrightarrow> sntp_reach env s s''"
| servers: "sntp_reach env s s' \<Longrightarrow> sntp_set_servers env urls (int (length urls)) s' = Some (r, s'') \<Longrightarrow> sntp_reach env s s''"

section \<open>What the client relies on\<close>

text \<open>
  There is memory for timeouts; a block of the heap, when there is one, has at least the bytes that were asked for;
  the calibration of the counter is not zero. The resolver refuses a null pointer, and owes an answer
  exactly when it says that one is under way; a packet that is sent is counted. Nothing else changes these counts.
\<close>

locale sntp_net =
  fixes env :: "'w sntp_env"
  assumes timeo_alloc: "timeo_alloc env w = (got, w') \<Longrightarrow> got \<and> same_traffic env w w'"
    and packet_alloc: "packet_alloc env w = (ok, w') \<Longrightarrow> same_traffic env w w'"
    and packet_free: "same_traffic env w (packet_free env w)"
    and null_name: "gethostbyname env None w = (err, a, w') \<Longrightarrow> err = ERR_ARG"
    and gethostbyname: "gethostbyname env name w = (err, a, w') \<Longrightarrow> udp_sent env w' = udp_sent env w \<and>
          dns_waiting env w' = dns_waiting env w + (if err = ERR_INPROGRESS then 1 else 0)"
    and udp_new: "udp_new env w = (ok, w') \<Longrightarrow> same_traffic env w w'"
    and udp_sendto: "udp_sent env (udp_sendto env bs a port w) = Suc (udp_sent env w) \<and>
          dns_waiting env (udp_sendto env bs a port w) = dns_waiting env w"
    and heap_alloc: "heap_alloc env n w = (b, w') \<Longrightarrow> same_traffic env w w' \<and> (\<forall>m. b = Some m \<longrightarrow> n \<le> m)"
    and heap_free: "same_traffic env w (heap_free env x w)"
    and timer_count: "timer_count env w = (c, w') \<Longrightarrow> same_traffic env w w'"
    and clock_cali_proc: "clock_cali_proc env w = (k, w') \<Longrightarrow> k \<noteq> 0 \<and> same_traffic env w w'"

section \<open>The invariant\<close>

text \<open>Something will make the client act again: a timeout of its own or an answer of the resolver.\<close>

definition has_timeout :: "sntp_timeouts \<Rightarrow> bool" where
  "has_timeout ts \<longleftrightarrow> (Sntp_request, 0) \<in> snd ` set (deadlines 0 ts) \<or> (Sntp_try_next_server, 0) \<in> snd ` set (deadlines 0 ts)"

definition sntp_pending :: "'w sntp_env \<Rightarrow> 'w sntp_state \<Rightarrow> bool" where
  "sntp_pending env s \<longleftrightarrow> has_timeout (next_timeout s) \<or> 0 < dns_waiting env (sntp_world s)"

definition sntp_sane :: "'w sntp_state \<Rightarrow> bool" where
  "sntp_sane s \<longleftrightarrow> timeouts_ok (next_timeout s) \<and> length (sntp_server_addresses s) = 4 \<and>
     unat (sntp_num_servers s) \<le> 4 \<and> unat (sntp_current_server s) < 4 \<and>
     sntp_retry_timeout s \<in> {3000, 6000, 12000, 24000} \<and> cal (sntp_rtc s) \<noteq> 0 \<and> 15000 \<le> sntp_update_delay s"

lemma has_timeout_add:
  "has_timeout (sys_timeout True msecs handler 0 ts) \<longleftrightarrow>
     handler = Sntp_request \<or> handler = Sntp_try_next_server \<or> has_timeout ts"
  by (auto simp: has_timeout_def sys_timeout_deadlines set_insert_deadline)

lemma deadlines_handlers: "snd ` set (deadlines b ts) = (\<lambda>t. (tm_h t, tm_arg t)) ` set ts"
  by (induction ts arbitrary: b) auto

lemma has_timeout_handlers:
  "has_timeout ts \<longleftrightarrow> (\<exists>t \<in> set ts. tm_arg t = 0 \<and> (tm_h t = Sntp_request \<or> tm_h t = Sntp_try_next_server))"
  unfolding has_timeout_def deadlines_handlers by force

lemma has_timeout_waited: "has_timeout (waited n ts) = has_timeout ts"
  unfolding has_timeout_handlers by (cases ts) auto

lemma has_timeout_tl: "has_timeout (t # ts) \<Longrightarrow> tm_h t = Other_handler k \<Longrightarrow> has_timeout ts"
  unfolding has_timeout_handlers by auto

context sntp_net
begin

text \<open>Every timeout that is set is in the list.\<close>

lemma add_timeout_eq:
  "\<exists>w. add_timeout env msecs handler s =
       s\<lparr>next_timeout := sys_timeout True msecs handler 0 (next_timeout s), sntp_world := w\<rparr> \<and>
     same_traffic env (sntp_world s) w"
  using timeo_alloc[of "sntp_world s"] by (auto simp: add_timeout_def split: prod.splits)

lemma add_timeout_sane: "sntp_sane s \<Longrightarrow> sntp_sane (add_timeout env msecs handler s)"
  using add_timeout_eq[of msecs handler s] by (auto simp: sntp_sane_def timeouts_ok_timeout)

lemma add_timeout_pending:
  "sntp_pending env (add_timeout env msecs handler s) \<longleftrightarrow>
     handler = Sntp_request \<or> handler = Sntp_try_next_server \<or> sntp_pending env s"
  using add_timeout_eq[of msecs handler s] by (auto simp: sntp_pending_def has_timeout_add same_traffic_def)

lemma sane_world: "sntp_sane (s\<lparr>sntp_world := w\<rparr>) = sntp_sane s"
  by (simp add: sntp_sane_def)

lemma retry:
  assumes "sntp_sane s"
  shows "sntp_sane (sntp_retry env s) \<and> sntp_pending env (sntp_retry env s)"
proof -
  let ?s = "add_timeout env (sntp_retry_timeout s) Sntp_request s"
  have "sntp_sane ?s" "sntp_pending env ?s"
    using assms by (simp_all add: add_timeout_sane add_timeout_pending)
  moreover from this(1) have "sntp_retry_timeout ?s \<in> {3000, 6000, 12000, 24000}"
    by (simp add: sntp_sane_def)
  ultimately show ?thesis
    unfolding sntp_retry_def Let_def by (auto simp: sntp_sane_def sntp_pending_def)
qed

lemma send_request:
  assumes "sntp_sane s"
  shows "sntp_sane (sntp_send_request env a s) \<and> sntp_pending env (sntp_send_request env a s)"
  using assms unfolding sntp_send_request_def
  by (auto simp: add_timeout_sane add_timeout_pending sane_world split: prod.splits bool.splits)

lemma asks:
  assumes "sntp_sane s"
  shows "\<exists>s'. sntp_request env s = Some s' \<and> sntp_sane s' \<and> sntp_pending env s'"
proof -
  obtain name where name: "read_at (sntp_server_addresses s) (unat (sntp_current_server s)) = Some name"
    using assms by (auto simp: sntp_sane_def read_at_def)
  obtain err a w where err: "gethostbyname env name (sntp_world s) = (err, a, w)"
    by (cases "gethostbyname env name (sntp_world s)")
  then have "dns_waiting env w = dns_waiting env (sntp_world s) + (if err = ERR_INPROGRESS then 1 else 0)"
    using gethostbyname by blast
  then show ?thesis
    using assms send_request[of "s\<lparr>sntp_world := w\<rparr>" a]
    by (auto simp: sntp_request_def name err Let_def sane_world add_timeout_sane add_timeout_pending)
      (auto simp: sntp_pending_def)
qed

lemma try_next_server:
  assumes "sntp_sane s"
  shows "\<exists>s'. sntp_try_next_server env s = Some s' \<and> sntp_sane s' \<and> sntp_pending env s'"
proof (cases "sntp_num_servers s > 1")
  case True
  have "unat (sntp_current_server s + 1) < 4" if "\<not> sntp_current_server s + 1 \<ge> sntp_num_servers s"
    using that assms by (simp add: sntp_sane_def word_le_nat_alt)
  then show ?thesis
    using True assms unfolding sntp_try_next_server_def Let_def if_P[OF True]
    by (intro asks) (simp add: sntp_sane_def)
next
  case False
  then show ?thesis
    using retry[OF assms] by (simp add: sntp_try_next_server_def)
qed

lemma update_rtc:
  assumes "sntp_update_rtc env t us s = Some s'"
  shows "s' = s\<lparr>sntp_world := sntp_world s', sntp_rtc := sntp_rtc s'\<rparr> \<and> cal (sntp_rtc s') \<noteq> 0 \<and>
    stz (sntp_rtc s') = stz (sntp_rtc s) \<and> same_traffic env (sntp_world s) (sntp_world s')"
proof -
  obtain c1 w1 where 1: "timer_count env (sntp_world s) = (c1, w1)"
    by (cases "timer_count env (sntp_world s)")
  obtain c2 w2 where 2: "timer_count env w1 = (c2, w2)"
    by (cases "timer_count env w1")
  obtain k w3 where 3: "clock_cali_proc env w2 = (k, w3)"
    by (cases "clock_cali_proc env w2")
  have "same_traffic env (sntp_world s) w3" "k \<noteq> 0"
    using timer_count[OF 1] timer_count[OF 2] clock_cali_proc[OF 3] by (simp_all add: same_traffic_def)
  with assms 1 2 3 show ?thesis
    by (auto simp: sntp_update_rtc_def read_counter_def set_rtc_def bind_eq_Some_conv Let_def)
qed

lemma recv:
  assumes "sntp_sane s" "sntp_recv env p s = Some s'"
  shows "sntp_sane s' \<and> sntp_pending env s'"
proof -
  define s1 where "s1 = del_timeout Sntp_request (del_timeout Sntp_try_next_server s)"
  define s2 where "s2 = s1\<lparr>sntp_world := packet_free env (sntp_world s1)\<rparr>"
  have sane: "sntp_sane s2"
    using assms(1) by (simp add: s2_def s1_def sntp_sane_def del_timeout_def timeouts_ok_untimeout)
  obtain err ts where err: "check_response p = (err, ts)"
    by (cases "check_response p")
  have run: "(if err = ERR_OK then sntp_process env ts (s2\<lparr>sntp_retry_timeout := 3000\<rparr>) \<bind>
      (\<lambda>s3. Some (add_timeout env (sntp_update_delay s3) Sntp_request s3))
    else if err = SNTP_ERR_KOD then sntp_try_next_server env s2 else Some (sntp_retry env s2)) = Some s'"
    using assms(2) unfolding sntp_recv_def Let_def err prod.case s1_def[symmetric] s2_def[symmetric] .
  show ?thesis
  proof (cases "err = ERR_OK")
    case True
    then obtain s3 where s3: "sntp_process env ts (s2\<lparr>sntp_retry_timeout := 3000\<rparr>) = Some s3"
      and s': "s' = add_timeout env (sntp_update_delay s3) Sntp_request s3"
      using run by (auto simp: bind_eq_Some_conv)
    note clock = update_rtc[OF s3[unfolded sntp_process_def]]
    have "sntp_sane ((s2\<lparr>sntp_retry_timeout := 3000\<rparr>)\<lparr>sntp_world := sntp_world s3, sntp_rtc := sntp_rtc s3\<rparr>)"
      using sane conjunct1[OF conjunct2[OF clock]] by (simp add: sntp_sane_def)
    then have "sntp_sane s3"
      by (simp only: conjunct1[OF clock, symmetric])
    then show ?thesis
      by (simp add: s' add_timeout_sane add_timeout_pending)
  next
    case False
    then show ?thesis
      using run retry[OF sane] try_next_server[OF sane] by (auto split: if_splits)
  qed
qed

lemma clock_read:
  "\<exists>w b. snd (sntp_get_rtc_time env s) = s\<lparr>sntp_world := w, sntp_rtc := (sntp_rtc s)\<lparr>sntp_base := b\<rparr>\<rparr> \<and>
     same_traffic env (sntp_world s) w"
proof -
  obtain c w where c: "timer_count env (sntp_world s) = (c, w)"
    by (cases "timer_count env (sntp_world s)")
  have "\<exists>b. snd (sntp_get_rtc_time env s) = s\<lparr>sntp_world := w, sntp_rtc := (sntp_rtc s)\<lparr>sntp_base := b\<rparr>\<rparr>"
    by (cases "c < tim_ref (sntp_rtc s)")
      (auto simp: sntp_get_rtc_time_def read_counter_def c sntp_check_timer_wrap_def set_rtc_def Let_def
        intro: exI[of _ "sntp_base (sntp_rtc s)"])
  then show ?thesis
    using timer_count[OF c] by blast
qed

lemma step_keeps:
  assumes "sntp_step env s s'" "sntp_sane s" "sntp_pending env s"
  shows "sntp_sane s' \<and> sntp_pending env s'"
  using assms
proof cases
  case (expires t rest)
  have sane: "sntp_sane (s\<lparr>next_timeout := rest\<rparr>)"
    using assms(2) expires(1) by (auto simp: sntp_sane_def intro: timeouts_ok_tl)
  show ?thesis
  proof (cases "tm_h t")
    case (Other_handler k)
    then show ?thesis
      using expires sane assms(3) has_timeout_tl[of t rest k] by (auto simp: sntp_run_handler_def sntp_pending_def)
  qed (use expires(2) asks[OF sane] try_next_server[OF sane] in \<open>auto simp: sntp_run_handler_def\<close>)
next
  case (waits n)
  then show ?thesis
    using assms(2,3) by (simp add: sntp_sane_def sntp_pending_def has_timeout_waited timeouts_ok_waited)
next
  case (packet p)
  then show ?thesis
    using recv assms(2) by simp
next
  case (answer w ipaddr)
  have "sntp_sane (s\<lparr>sntp_world := w\<rparr>)"
    using assms(2) by (simp add: sane_world)
  then show ?thesis
    using answer(3) send_request try_next_server by (fastforce simp: sntp_dns_found_def split: option.splits)
next
  case (elsewhere w)
  then show ?thesis
    using assms(2,3) by (simp add: sane_world sntp_pending_def same_traffic_def)
next
  case (other_timeout msecs k)
  then show ?thesis
    using assms(2,3) by (simp add: add_timeout_sane add_timeout_pending)
next
  case reads_clock
  then show ?thesis
    using assms(2,3) clock_read[of s] by (auto simp: sntp_sane_def sntp_pending_def same_traffic_def)
next
  case (sets_zone tz)
  then show ?thesis
    using assms(2,3) by (simp add: sntp_set_timezone_def set_rtc_def sntp_sane_def sntp_pending_def)
next
  case (sets_delay ms)
  then show ?thesis
    using assms(2,3) by (simp add: sntp_set_update_delay_def sntp_sane_def sntp_pending_def word_le_nat_alt word_less_nat_alt)
qed

section \<open>Changing the servers\<close>

text \<open>What setting the servers may change: the addresses, their number and the world.\<close>

definition servers_changed :: "'w sntp_state \<Rightarrow> 'w sntp_state \<Rightarrow> bool" where
  "servers_changed s s' \<longleftrightarrow> next_timeout s' = next_timeout s \<and> sntp_pcb s' = sntp_pcb s \<and>
     sntp_current_server s' = sntp_current_server s \<and> sntp_update_delay s' = sntp_update_delay s \<and>
     sntp_retry_timeout s' = sntp_retry_timeout s \<and> sntp_rtc s' = sntp_rtc s \<and>
     length (sntp_server_addresses s') = length (sntp_server_addresses s) \<and> same_traffic env (sntp_world s) (sntp_world s')"

lemma servers_changed_trans: "servers_changed s s1 \<Longrightarrow> servers_changed s1 s2 \<Longrightarrow> servers_changed s s2"
  unfolding servers_changed_def same_traffic_def by auto

lemma free_servers:
  assumes "n \<le> length (sntp_server_addresses s)"
  shows "\<exists>s'. free_servers env n s = Some s' \<and> servers_changed s s' \<and> sntp_num_servers s' = sntp_num_servers s \<and>
    sntp_server_addresses s' = replicate n None @ drop n (sntp_server_addresses s)"
  using assms
proof (induction n arbitrary: s)
  case 0
  then show ?case
    by (simp add: servers_changed_def same_traffic_def)
next
  case (Suc n)
  define s1 where "s1 = s\<lparr>sntp_server_addresses := (sntp_server_addresses s)[n := None],
    sntp_world := heap_free env (sntp_server_addresses s ! n) (sntp_world s)\<rparr>"
  have "servers_changed s s1"
    using heap_free by (simp add: servers_changed_def s1_def)
  moreover obtain s' where "free_servers env n s1 = Some s'" "servers_changed s1 s'" "sntp_num_servers s' = sntp_num_servers s1"
    "sntp_server_addresses s' = replicate n None @ drop n (sntp_server_addresses s1)"
    using Suc.IH[of s1] Suc.prems by (auto simp: s1_def)
  moreover have "drop n ((sntp_server_addresses s)[n := None]) = None # drop (Suc n) (sntp_server_addresses s)"
    using Suc.prems by (simp add: drop_update_swap Cons_nth_drop_Suc[symmetric])
  ultimately have "free_servers env n s1 = Some s'" "servers_changed s s'" "sntp_num_servers s' = sntp_num_servers s"
    "sntp_server_addresses s' = replicate (Suc n) None @ drop (Suc n) (sntp_server_addresses s)"
    using servers_changed_trans[of s s1 s'] by (simp_all add: s1_def replicate_append_same[symmetric])
  then show ?case
    using Suc.prems by (auto simp: read_at_def s1_def)
qed

lemma copy_servers:
  assumes "copy_servers env i urls s = Some (ok, s')"
  shows "servers_changed s s' \<and>
    (if ok then sntp_server_addresses s' = take i (sntp_server_addresses s) @ map Some urls @ drop (i + length urls) (sntp_server_addresses s)
     else unat (sntp_num_servers s') \<le> i + length urls)"
  using assms
proof (induction urls arbitrary: i s)
  case Nil
  then show ?case
    by (auto simp: servers_changed_def same_traffic_def)
next
  case (Cons url urls)
  obtain b w where b: "heap_alloc env (length url) (sntp_world s) = (b, w)"
    by (cases "heap_alloc env (length url) (sntp_world s)")
  note law = heap_alloc[OF b]
  have i: "i < length (sntp_server_addresses s)"
    using Cons.prems b by (auto split: option.splits if_splits)
  show ?case
  proof (cases b)
    case None
    define s1 where "s1 = s\<lparr>sntp_server_addresses := (sntp_server_addresses s)[i := None], sntp_num_servers := of_nat i, sntp_world := w\<rparr>"
    have "s' = s1" "\<not> ok"
      using Cons.prems b None i by (auto simp: s1_def)
    moreover have "servers_changed s s1"
      using law by (simp add: servers_changed_def s1_def)
    moreover have "unat (sntp_num_servers s1) \<le> i"
      by (simp add: s1_def unat_of_nat)
    ultimately show ?thesis
      by simp
  next
    case (Some m)
    define s1 where "s1 = s\<lparr>sntp_server_addresses := (sntp_server_addresses s)[i := Some url], sntp_world := w\<rparr>"
    have s1: "servers_changed s s1"
      using law by (simp add: servers_changed_def s1_def)
    have "copy_servers env (Suc i) urls s1 = Some (ok, s')"
      using Cons.prems b Some by (simp add: s1_def split: if_splits)
    note ih = Cons.IH[OF this]
    have "take (Suc i) ((sntp_server_addresses s)[i := Some url]) = take i (sntp_server_addresses s) @ [Some url]"
      using i by (simp add: take_Suc_conv_app_nth)
    then show ?thesis
      using ih servers_changed_trans[OF s1, of s'] by (auto simp: s1_def split: if_splits)
  qed
qed

lemma set_servers:
  assumes "length (sntp_server_addresses s) = 4" "unat (sntp_num_servers s) \<le> 4"
    and "sntp_set_servers env urls (int (length urls)) s = Some (r, s')"
  shows "servers_changed s s' \<and> unat (sntp_num_servers s') \<le> 4"
proof (cases "length urls \<le> 4")
  case True
  obtain s1 where s1: "free_servers env (unat (sntp_num_servers s)) s = Some s1" "servers_changed s s1"
    using assms(1,2) free_servers[of "unat (sntp_num_servers s)" s] by auto
  obtain ok s2 where s2: "copy_servers env 0 urls s1 = Some (ok, s2)"
    using assms(3) True s1(1) by (auto simp: sntp_set_servers_def bind_eq_Some_conv)
  then have s': "s' = (if ok then s2\<lparr>sntp_num_servers := of_nat (length urls)\<rparr> else s2)"
    using assms(3) True s1(1) by (auto simp: sntp_set_servers_def)
  note copied = copy_servers[OF s2]
  have "servers_changed s s'"
    using servers_changed_trans[OF s1(2) conjunct1[OF copied]] by (simp add: s' servers_changed_def)
  moreover have "unat (sntp_num_servers s') \<le> 4"
    using copied True by (auto simp: s' unat_of_nat)
  ultimately show ?thesis
    by blast
next
  case False
  then show ?thesis
    using assms by (auto simp: sntp_set_servers_def servers_changed_def same_traffic_def)
qed

text \<open>The block for the name of a single server has to be longer than the name.\<close>

definition no_terminator :: "byte list \<Rightarrow> 'w \<Rightarrow> bool" where
  "no_terminator url w \<longleftrightarrow> fst (heap_alloc env (length url) w) = Some (length url)"

lemma set_first_server:
  assumes "length (sntp_server_addresses s) = 4" "sntp_num_servers s = 0"
  shows "sntp_set_servers env [url] 1 s = None \<longleftrightarrow> no_terminator url (sntp_world s)"
proof -
  obtain b w where b: "heap_alloc env (length url) (sntp_world s) = (b, w)"
    by (cases "heap_alloc env (length url) (sntp_world s)")
  show ?thesis
    using assms b conjunct2[OF heap_alloc[OF b]] by (cases b) (auto simp: sntp_set_servers_def no_terminator_def)
qed

lemma servers_changed_keeps:
  assumes "servers_changed s s'" "unat (sntp_num_servers s') \<le> 4" "sntp_sane s" "sntp_pending env s"
  shows "sntp_sane s' \<and> sntp_pending env s'"
  using assms by (auto simp: servers_changed_def sntp_sane_def sntp_pending_def same_traffic_def)

lemma reach_keeps: "sntp_reach env s s' \<Longrightarrow> sntp_sane s \<Longrightarrow> sntp_pending env s \<Longrightarrow> sntp_sane s' \<and> sntp_pending env s'"
proof (induction rule: sntp_reach.induct)
  case (servers s s' urls r s'')
  then have "sntp_sane s'" "sntp_pending env s'"
    by blast+
  then show ?case
    using set_servers[of s' urls r s''] servers(2) servers_changed_keeps[of s' s''] by (simp add: sntp_sane_def)
qed (use step_keeps in blast)+

text \<open>The thread that waits for messages makes steps of this kind.\<close>

lemma fetch_reach:
  assumes "\<And>ms s. sntp_reach env s (snd (fetch ms s))"
    and "sys_timeouts_mbox_fetch (sntp_mbox env fetch) s = Some r"
  shows "sntp_reach env s (snd r)"
proof (rule mbox_fetch_invariant[where I = "sntp_reach env s", OF _ _ _ assms(2) sntp_reach.start])
  have trans: "sntp_reach env s2 s3 \<Longrightarrow> sntp_reach env s s2 \<Longrightarrow> sntp_reach env s s3" for s2 s3
    by (induction rule: sntp_reach.induct) (auto intro: sntp_reach.intros)
  show "sntp_reach env s (snd (mbox_fetch (sntp_mbox env fetch) ms s'))" if "sntp_reach env s s'" for ms s'
    using trans[OF assms(1) that] by (simp add: sntp_mbox_def)
  show "sntp_reach env s s2" if "sntp_reach env s s1" "expire (sntp_mbox env fetch) s1 = Some s2" for s1 s2
    using that by (auto simp: expire_def sntp_mbox_def split: list.splits intro: sntp_reach.step sntp_step.expires)
  show "sntp_reach env s (put_timeouts (sntp_mbox env fetch) (waited n (get_timeouts (sntp_mbox env fetch) s1)) s1)"
    if "sntp_reach env s s1" for n s1
    using that sntp_step.waits by (auto simp: sntp_mbox_def intro: sntp_reach.step)
qed

lemma initialize:
  assumes "timeouts_ok (next_timeout s)" "length (sntp_server_addresses s) = 4" "unat (sntp_current_server s) < 4"
    "15000 \<le> sntp_update_delay s"
  shows "sntp_initialize env tz s = None \<longleftrightarrow> no_terminator SNTP_SERVER_ADDRESS (snd (timer_count env (sntp_world s)))"
    and "sntp_initialize env tz s = Some s' \<Longrightarrow> sntp_pcb s' \<Longrightarrow> sntp_sane s' \<and> sntp_pending env s'"
proof -
  obtain ref w where ref: "timer_count env (sntp_world s) = (ref, w)"
    by (cases "timer_count env (sntp_world s)")
  define s1 where "s1 = (set_rtc (\<lambda>r. r\<lparr>tim_ref := ref\<rparr>)
    ((set_rtc (\<lambda>r. r\<lparr>sntp_base := 0, cal := 1\<rparr>) (sntp_set_timezone tz s))\<lparr>sntp_world := w\<rparr>))\<lparr>sntp_num_servers := 0\<rparr>"
  have len: "length (sntp_server_addresses s1) = 4" "unat (sntp_num_servers s1) \<le> 4" "sntp_num_servers s1 = 0" "sntp_world s1 = w"
    using assms(2) by (simp_all add: s1_def set_rtc_def sntp_set_timezone_def)
  define after where "after s2 = (case udp_new env (sntp_world s2) of (got, w') \<Rightarrow>
      let s3 = s2\<lparr>sntp_retry_timeout := 3000, sntp_pcb := got, sntp_world := w'\<rparr> in if got then sntp_request env s3 else Some s3)" for s2
  have init: "sntp_initialize env tz s = sntp_set_servers env [SNTP_SERVER_ADDRESS] 1 s1 \<bind> (\<lambda>(r, s2). after s2)"
    using ref by (simp add: sntp_initialize_def sntp_init_def read_counter_def s1_def after_def set_rtc_def sntp_set_timezone_def Let_def)
  have run: "\<exists>s'. after s2 = Some s' \<and> (sntp_pcb s' \<longrightarrow> sntp_sane s' \<and> sntp_pending env s')"
    if set: "sntp_set_servers env [SNTP_SERVER_ADDRESS] 1 s1 = Some (r, s2)" for r s2
  proof -
    have s2: "servers_changed s1 s2" "unat (sntp_num_servers s2) \<le> 4"
      using set_servers[OF len(1,2), of "[SNTP_SERVER_ADDRESS]" r s2] set by simp_all
    obtain got w' where got: "udp_new env (sntp_world s2) = (got, w')"
      by (cases "udp_new env (sntp_world s2)")
    have "sntp_sane (s2\<lparr>sntp_retry_timeout := 3000, sntp_pcb := got, sntp_world := w'\<rparr>)"
      using assms s2 by (simp add: sntp_sane_def servers_changed_def s1_def set_rtc_def sntp_set_timezone_def)
    then show ?thesis
      using asks[of "s2\<lparr>sntp_retry_timeout := 3000, sntp_pcb := got, sntp_world := w'\<rparr>"] got by (cases got) (auto simp: after_def)
  qed
  show "sntp_initialize env tz s = None \<longleftrightarrow> no_terminator SNTP_SERVER_ADDRESS (snd (timer_count env (sntp_world s)))"
    using set_first_server[OF len(1,3), of SNTP_SERVER_ADDRESS] run len(4) ref
    by (cases "sntp_set_servers env [SNTP_SERVER_ADDRESS] 1 s1") (fastforce simp: init)+
  show "sntp_initialize env tz s = Some s' \<Longrightarrow> sntp_pcb s' \<Longrightarrow> sntp_sane s' \<and> sntp_pending env s'"
    using run by (fastforce simp: init bind_eq_Some_conv)
qed

section \<open>A server that is lost\<close>

text \<open>There is one server, but the current one is another that is gone, and nothing is under way.\<close>

definition lost :: "nat \<Rightarrow> 'w sntp_state \<Rightarrow> bool" where
  "lost k s \<longleftrightarrow> sntp_num_servers s = 1 \<and> read_at (sntp_server_addresses s) (unat (sntp_current_server s)) = Some None \<and>
     dns_waiting env (sntp_world s) = 0 \<and> udp_sent env (sntp_world s) = k"

lemma lost_same: "lost k s \<Longrightarrow> same_traffic env (sntp_world s) w \<Longrightarrow> lost k (s\<lparr>sntp_world := w\<rparr>)"
  by (simp add: lost_def same_traffic_def)

lemma lost_add_timeout: "lost k s \<Longrightarrow> lost k (add_timeout env msecs handler s)"
  using add_timeout_eq[of msecs handler s] by (auto simp: lost_def same_traffic_def)

lemma lost_retry: "lost k s \<Longrightarrow> lost k (sntp_retry env s)"
  using lost_add_timeout[of k s "sntp_retry_timeout s" Sntp_request]
  by (simp add: sntp_retry_def Let_def) (simp add: lost_def)

lemma lost_request:
  assumes "lost k s"
  shows "\<exists>s'. sntp_request env s = Some s' \<and> lost k s'"
proof -
  obtain err a w where err: "gethostbyname env None (sntp_world s) = (err, a, w)"
    by (cases "gethostbyname env None (sntp_world s)")
  then have "err = ERR_ARG" "same_traffic env (sntp_world s) w"
    using null_name[OF err] gethostbyname[OF err] by (simp_all add: same_traffic_def)
  then show ?thesis
    using assms err lost_add_timeout[OF lost_same, of k s w 3000 Sntp_try_next_server] by (simp add: sntp_request_def lost_def)
qed

lemma lost_try_next_server: "lost k s \<Longrightarrow> sntp_try_next_server env s = Some (sntp_retry env s)"
  by (simp add: sntp_try_next_server_def lost_def)

lemma lost_recv:
  assumes "lost k s" "sntp_recv env p s = Some s'"
  shows "lost k s'"
proof -
  define s1 where "s1 = del_timeout Sntp_request (del_timeout Sntp_try_next_server s)"
  define s2 where "s2 = s1\<lparr>sntp_world := packet_free env (sntp_world s1)\<rparr>"
  have s2: "lost k s2"
    using assms(1) packet_free lost_same[of k s1] by (simp add: s2_def s1_def lost_def del_timeout_def)
  obtain err ts where err: "check_response p = (err, ts)"
    by (cases "check_response p")
  have run: "(if err = ERR_OK then sntp_process env ts (s2\<lparr>sntp_retry_timeout := 3000\<rparr>) \<bind>
      (\<lambda>s3. Some (add_timeout env (sntp_update_delay s3) Sntp_request s3))
    else if err = SNTP_ERR_KOD then sntp_try_next_server env s2 else Some (sntp_retry env s2)) = Some s'"
    using assms(2) unfolding sntp_recv_def Let_def err prod.case s1_def[symmetric] s2_def[symmetric] .
  show ?thesis
  proof (cases "err = ERR_OK")
    case True
    then obtain s3 where s3: "sntp_process env ts (s2\<lparr>sntp_retry_timeout := 3000\<rparr>) = Some s3"
      and s': "s' = add_timeout env (sntp_update_delay s3) Sntp_request s3"
      using run by (auto simp: bind_eq_Some_conv)
    note clock = update_rtc[OF s3[unfolded sntp_process_def]]
    have "lost k ((s2\<lparr>sntp_retry_timeout := 3000\<rparr>)\<lparr>sntp_world := sntp_world s3, sntp_rtc := sntp_rtc s3\<rparr>)"
      using s2 conjunct2[OF conjunct2[OF conjunct2[OF clock]]] by (simp add: lost_def same_traffic_def)
    then have "lost k s3"
      by (simp only: conjunct1[OF clock, symmetric])
    then show ?thesis
      by (simp add: s' lost_add_timeout)
  next
    case False
    then show ?thesis
      using run s2 lost_retry lost_try_next_server by (auto split: if_splits)
  qed
qed

lemma lost_step:
  assumes "sntp_step env s s'" "lost k s"
  shows "lost k s'"
  using assms
proof cases
  case (expires t rest)
  have "lost k (s\<lparr>next_timeout := rest\<rparr>)"
    using assms(2) by (simp add: lost_def)
  then show ?thesis
    using expires(2) lost_request[of k "s\<lparr>next_timeout := rest\<rparr>"] lost_retry
    by (cases "tm_h t") (auto simp: sntp_run_handler_def lost_try_next_server)
next
  case reads_clock
  then show ?thesis
    using assms(2) clock_read[of s] by (auto simp: lost_def same_traffic_def)
next
  case (answer w ipaddr)
  then show ?thesis
    using assms(2) by (simp add: lost_def)
qed (use assms(2) in \<open>simp_all add: lost_recv lost_same lost_add_timeout\<close>,
  simp_all add: lost_def sntp_set_timezone_def set_rtc_def sntp_set_update_delay_def)

lemma lost_steps: "(sntp_step env)\<^sup>*\<^sup>* s s' \<Longrightarrow> lost k s \<Longrightarrow> lost k s'"
  by (induction rule: rtranclp_induct) (auto intro: lost_step)

lemma becomes_lost:
  assumes "sntp_sane s" "dns_waiting env (sntp_world s) = 0" "0 < sntp_current_server s" "sntp_current_server s < sntp_num_servers s"
    and "sntp_set_servers env [url] 1 s = Some (0, s1)"
  shows "lost (udp_sent env (sntp_world s)) s1"
proof -
  let ?n = "unat (sntp_num_servers s)" and ?c = "unat (sntp_current_server s)"
  have n: "?n \<le> 4" "length (sntp_server_addresses s) = 4" and c: "0 < ?c" "?c < ?n"
    using assms(1,3,4) by (simp_all add: sntp_sane_def word_less_nat_alt)
  obtain s2 where s2: "free_servers env ?n s = Some s2" "servers_changed s s2"
    "sntp_server_addresses s2 = replicate ?n None @ drop ?n (sntp_server_addresses s)"
    using free_servers[of ?n s] n by auto
  obtain ok s3 where copied: "copy_servers env 0 [url] s2 = Some (ok, s3)"
    using assms(5) s2(1) by (auto simp: sntp_set_servers_def bind_eq_Some_conv simp del: copy_servers.simps)
  then have s3: "copy_servers env 0 [url] s2 = Some (ok, s3)" "servers_changed s2 s3"
    "ok \<Longrightarrow> sntp_server_addresses s3 = Some url # drop 1 (sntp_server_addresses s2)"
    using copy_servers[OF copied] by simp_all
  have s1: "ok" "s1 = s3\<lparr>sntp_num_servers := 1\<rparr>"
    using assms(5) s2(1) s3(1) by (cases ok; simp add: sntp_set_servers_def del: copy_servers.simps)+
  have ch: "servers_changed s s3"
    using servers_changed_trans[OF s2(2) s3(2)] .
  have "sntp_server_addresses s3 ! ?c = None"
    using c n s2(3) s3(3)[OF s1(1)] by (cases ?c) (auto simp: nth_append nth_Cons)
  then show ?thesis
    using ch c n assms(2) by (simp add: s1(2) lost_def read_at_def servers_changed_def same_traffic_def)
qed

end

section \<open>An instance\<close>

text \<open>
  A network with enough memory and a resolver that always answers later; the world counts packets and
  answers and holds the counter, whose tick takes 6 microseconds.
\<close>

record sim_net =
  sim_sent :: nat
  sim_dns :: nat
  sim_count :: u32

definition sim_sntp :: "sim_net sntp_env" where
  "sim_sntp = \<lparr>timeo_alloc = \<lambda>w. (True, w), packet_alloc = \<lambda>w. (True, w), packet_free = \<lambda>w. w,
     gethostbyname = \<lambda>name w. (case name of None \<Rightarrow> (ERR_ARG, 0, w) | Some _ \<Rightarrow> (ERR_INPROGRESS, 0, w\<lparr>sim_dns := sim_dns w + 1\<rparr>)),
     dns_waiting = sim_dns, udp_new = \<lambda>w. (True, w), udp_sendto = \<lambda>bs a port w. w\<lparr>sim_sent := Suc (sim_sent w)\<rparr>, udp_sent = sim_sent,
     heap_alloc = \<lambda>n w. (Some (n + 1), w), heap_free = \<lambda>x w. w, timer_count = \<lambda>w. (sim_count w, w),
     clock_cali_proc = \<lambda>w. (24576, w)\<rparr>"

interpretation sim_sntp: sntp_net sim_sntp
  by unfold_locales (auto simp: sim_sntp_def same_traffic_def split: option.splits)

text \<open>The client as the program starts it.\<close>

definition sntp_fresh :: "'w \<Rightarrow> 'w sntp_state" where
  "sntp_fresh w = \<lparr>next_timeout = [], sntp_pcb = False, sntp_server_addresses = replicate 4 None, sntp_num_servers = 0,
     sntp_current_server = 0, sntp_update_delay = 3600000, sntp_retry_timeout = 0,
     sntp_rtc = \<lparr>sntp_base = 0, tim_ref = 0, cal = 0, stz = \<lparr>tz_minuteswest = 0, tz_dsttime = 0\<rparr>\<rparr>, sntp_world = w\<rparr>"

section \<open>Properties\<close>

text \<open>
  C19: The time client never stops. Its initialisation is defined exactly if the heap does not give a block of just the bytes that are
  asked for, for then the end of the name of the first server is written behind the block (a heap with no block at all is an error
  that is handled). Started so, and with memory for its timeouts and a UDP port, it has a timeout of its own
  in the list or an answer of the resolver to wait for after any sequence of timeouts, packets from anywhere (of any
  contents), answers, clock readings and changes of zone, interval and servers (as long as the blocks for their names have room);
  its handlers are then defined, the
  retry interval is 3, 6, 12 or 24 seconds and the interval between updates at least 15. This also holds when the network
  thread returns from waiting for a message in which only such things happened.
\<close>

theorem sntp_never_idle:
  assumes "sntp_net env" "\<And>ms s. sntp_reach env s (snd (fetch ms s))"
  shows "(sntp_initialize env tz (sntp_fresh w) = None \<longleftrightarrow>
      fst (heap_alloc env (length SNTP_SERVER_ADDRESS) (snd (timer_count env w))) = Some (length SNTP_SERVER_ADDRESS)) \<and>
    (\<forall>s1 s. sntp_initialize env tz (sntp_fresh w) = Some s1 \<and> sntp_pcb s1 \<and> sntp_reach env s1 s \<longrightarrow>
      sntp_sane s \<and> sntp_pending env s \<and> (\<forall>handler. \<exists>s'. sntp_run_handler env handler s = Some s') \<and>
      (\<forall>m s'. sys_timeouts_mbox_fetch (sntp_mbox env fetch) s = Some (m, s') \<longrightarrow> sntp_sane s' \<and> sntp_pending env s'))"
proof (intro conjI allI impI; (elim conjE)?)
  have fresh: "timeouts_ok (next_timeout (sntp_fresh w))" "length (sntp_server_addresses (sntp_fresh w)) = 4"
    "unat (sntp_current_server (sntp_fresh w)) < 4" "15000 \<le> sntp_update_delay (sntp_fresh w)" "sntp_world (sntp_fresh w) = w"
    by (simp_all add: sntp_fresh_def timeouts_ok_def)
  show "sntp_initialize env tz (sntp_fresh w) = None \<longleftrightarrow>
      fst (heap_alloc env (length SNTP_SERVER_ADDRESS) (snd (timer_count env w))) = Some (length SNTP_SERVER_ADDRESS)"
    using sntp_net.initialize(1)[OF assms(1) fresh(1-4), of tz] by (simp add: sntp_net.no_terminator_def[OF assms(1)] fresh(5))
  fix s1 s
  assume s1: "sntp_initialize env tz (sntp_fresh w) = Some s1" "sntp_pcb s1" "sntp_reach env s1 s"
  have s: "sntp_sane s \<and> sntp_pending env s"
    using sntp_net.reach_keeps[OF assms(1) s1(3)] sntp_net.initialize(2)[OF assms(1) fresh(1-4) s1(1,2)] by simp
  then show "sntp_sane s" "sntp_pending env s"
    by simp_all
  show "\<exists>s'. sntp_run_handler env handler s = Some s'" for handler
    using sntp_net.asks[OF assms(1)] sntp_net.try_next_server[OF assms(1)] s
    by (cases handler) (auto simp: sntp_run_handler_def)
  show "sntp_sane s'" "sntp_pending env s'" if "sys_timeouts_mbox_fetch (sntp_mbox env fetch) s = Some (m, s')" for m s'
    using sntp_net.reach_keeps[OF assms(1) sntp_net.fetch_reach[OF assms that]] s by simp_all
qed

theorem sntp_never_idle_witness:
  "\<exists>s1 s. sntp_initialize sim_sntp None (sntp_fresh \<lparr>sim_sent = 0, sim_dns = 0, sim_count = 5\<rparr>) = Some s1 \<and>
    sntp_recv sim_sntp [] s1 = Some s \<and> sntp_pending sim_sntp s \<and> sntp_sane s"
proof -
  let ?w = "\<lparr>sim_sent = 0, sim_dns = 0, sim_count = 5\<rparr>"
  obtain s1 where s1: "sntp_initialize sim_sntp None (sntp_fresh ?w) = Some s1"
    using sntp_never_idle[OF sim_sntp.sntp_net_axioms, of "\<lambda>ms s. (None :: (u32 \<times> nat) option, s)" None ?w]
    by (auto simp: sim_sntp_def sntp_reach.start)
  then have pcb: "sntp_pcb s1"
    by (auto simp: sntp_initialize_def sntp_init_def sntp_set_servers_def sntp_fresh_def set_rtc_def sntp_set_timezone_def
        read_counter_def sim_sntp_def sntp_request_def read_at_def SNTP_SERVER_ADDRESS_def Let_def)
  obtain s where s: "sntp_recv sim_sntp [] s1 = Some s"
    by (simp add: sntp_recv_def check_response_def tot_len_def Let_def)
  then have reach: "sntp_reach sim_sntp s1 s"
    by (auto intro: sntp_reach.intros sntp_step.packet)
  have "sntp_sane s \<and> sntp_pending sim_sntp s"
    using sntp_never_idle[OF sim_sntp.sntp_net_axioms, of "\<lambda>ms s. (None :: (u32 \<times> nat) option, s)" None ?w] s1 pcb reach
    by (simp add: sntp_reach.start)
  with s1 s show ?thesis
    by blast
qed

text \<open>
  C23: A server may be lost for ever. When the client has moved on to another than the first server, no answer of the resolver is
  outstanding (one that still came would make the client send a request to it) and the application
  then sets a single server, for whose name there is room, the index of the current server is not reset: it points at no name, the
  resolver refuses it, and with one server the client retries instead of going to the next. Whatever
  happens from then on, short of setting the servers again, no request is sent.
\<close>

theorem sntp_single_server_never_asked:
  assumes "sntp_net env" "sntp_sane s" "dns_waiting env (sntp_world s) = 0"
    and "0 < sntp_current_server s" "sntp_current_server s < sntp_num_servers s"
    and "sntp_set_servers env [url] 1 s = Some (0, s1)" "(sntp_step env)\<^sup>*\<^sup>* s1 s2"
  shows "udp_sent env (sntp_world s2) = udp_sent env (sntp_world s)"
  using sntp_net.lost_steps[OF assms(1,7) sntp_net.becomes_lost[OF assms(1-6)]]
  by (simp add: sntp_net.lost_def[OF assms(1)])

definition lost_start :: "sim_net sntp_state" where
  "lost_start = (sntp_fresh \<lparr>sim_sent = 1, sim_dns = 0, sim_count = 5\<rparr>)\<lparr>next_timeout := [\<lparr>tm_time = 100, tm_h = Sntp_request, tm_arg = 0\<rparr>],
     sntp_server_addresses := [Some [1], Some [2], None, None],
     sntp_num_servers := 2, sntp_current_server := 1, sntp_retry_timeout := 3000,
     sntp_rtc := \<lparr>sntp_base = 0, tim_ref = 0, cal = 1, stz = \<lparr>tz_minuteswest = 0, tz_dsttime = 0\<rparr>\<rparr>\<rparr>"

theorem sntp_single_server_never_asked_witness:
  "\<exists>s1 s2. sntp_set_servers sim_sntp [[3]] 1 lost_start = Some (0, s1) \<and> sntp_step sim_sntp s1 s2 \<and>
     map tm_h (next_timeout s2) = [Sntp_try_next_server] \<and> sntp_server_addresses s2 = [Some [3], None, None, None] \<and>
     sim_sent (sntp_world s2) = 1"
proof -
  define s1 where "s1 = lost_start\<lparr>sntp_server_addresses := [Some [3], None, None, None], sntp_num_servers := 1\<rparr>"
  define s2 where "s2 = s1\<lparr>next_timeout := [\<lparr>tm_time = 3000, tm_h = Sntp_try_next_server, tm_arg = 0\<rparr>]\<rparr>"
  have s1: "sntp_set_servers sim_sntp [[3]] 1 lost_start = Some (0, s1)"
  proof -
    have n: "unat (sntp_num_servers lost_start) = Suc (Suc 0)"
      by (simp add: lost_start_def)
    have "free_servers sim_sntp (Suc (Suc 0)) lost_start = Some (lost_start\<lparr>sntp_server_addresses := [None, None, None, None]\<rparr>)"
      by (simp add: lost_start_def sntp_fresh_def sim_sntp_def read_at_def)
    then show ?thesis
      by (simp add: sntp_set_servers_def n del: free_servers.simps) (simp add: s1_def sim_sntp_def lost_start_def sntp_fresh_def)
  qed
  have "sntp_run_handler sim_sntp Sntp_request (s1\<lparr>next_timeout := []\<rparr>) = Some s2"
    by (simp add: s2_def s1_def lost_start_def sntp_run_handler_def sntp_request_def sim_sntp_def read_at_def sntp_fresh_def
        add_timeout_def sys_timeout_def)
  then have step: "sntp_step sim_sntp s1 s2"
    by (intro sntp_step.expires[of s1 "\<lparr>tm_time = 100, tm_h = Sntp_request, tm_arg = 0\<rparr>" "[]"])
      (simp_all add: s1_def lost_start_def)
  have "sntp_sane lost_start" "dns_waiting sim_sntp (sntp_world lost_start) = 0" "0 < sntp_current_server lost_start"
    "sntp_current_server lost_start < sntp_num_servers lost_start"
    by (simp_all add: lost_start_def sntp_fresh_def sntp_sane_def timeouts_ok_def sim_sntp_def)
  from sntp_single_server_never_asked[OF sim_sntp.sntp_net_axioms this s1 r_into_rtranclp[of "sntp_step sim_sntp", OF step]]
  have "sim_sent (sntp_world s2) = 1"
    by (simp add: sim_sntp_def lost_start_def sntp_fresh_def)
  then show ?thesis
    using s1 step by (auto simp: s2_def s1_def)
qed

end
