(* ===== verification/Sntp_Time.thy ===== *)
theory Sntp_Time
  imports Sntp_Client
begin

text \<open>
  The clock of the time client: how exactly a response sets it, what it shows after the counter has wrapped, and
  what storing the names of the servers needs of the heap.
\<close>

section \<open>Ticks\<close>

text \<open>A time in units of 1/4096 microseconds, the unit in which \<^term>\<open>cal\<close> gives the length of a tick.\<close>

definition fine_time :: "int \<Rightarrow> int \<Rightarrow> int" where
  "fine_time t us = (t * 1000000 + us) * 4096"

lemma uint_widen: "uint (ucast w :: u64) = uint w" for w :: u32
  using unsigned_less[of w, where 'a = int] by (simp add: unsigned_ucast_eq take_bit_int_eq_self)

lemma uint_push_12: "uint x < 2 ^ 52 \<Longrightarrow> uint (push_bit 12 x) = uint x * 4096" for x :: u64
  by (simp add: push_bit_eq_mult uint_word_ariths)

lemma rtc_ticks_value:
  assumes "0 \<le> t" "t < 2 ^ 31" "rtc_ticks t us k = Some b"
  shows "uint b = fine_time t (uint us) div uint k \<and> 0 < uint k"
proof -
  have us: "0 \<le> uint us" "uint us < 2 ^ 32"
    using unsigned_less[of us, where 'a = int] by simp_all
  have "uint (ucast us + word_of_int t * 1000000 :: u64) = uint us + t * 1000000"
    using assms(1,2) us by (simp add: uint_word_ariths uint_word_of_int uint_widen)
  then have "uint (push_bit 12 (ucast us + word_of_int t * 1000000 :: u64)) = fine_time t (uint us)"
    using assms(1,2) us by (subst uint_push_12) (simp_all add: fine_time_def)
  moreover have "k \<noteq> 0" "uint k \<noteq> 0"
    using assms(3) by (auto simp: rtc_ticks_def unsigned_eq_0_iff)
  ultimately show ?thesis
    using assms(3) unsigned_greater_eq[of k, where 'a = int]
    by (auto simp: rtc_ticks_def uint_div_distrib uint_widen order_less_le)
qed

text \<open>What a reading makes of the counter, the base in ticks and the length of a tick, as long as nothing wraps.\<close>

lemma reading:
  assumes "timer_count env (sntp_world s) = (n, w)"
    and "b = (if n < tim_ref (sntp_rtc s) then sntp_base (sntp_rtc s) - 2 ^ 32 else sntp_base (sntp_rtc s))"
    and "ticks = (uint b + uint n - uint (tim_ref (sntp_rtc s))) * uint (cal (sntp_rtc s))"
    and "uint (tim_ref (sntp_rtc s)) \<le> uint b + uint n" "ticks < 2 ^ 31 * 4096000000" "0 < cal (sntp_rtc s)"
  shows "sntp_get_rtc_time env s =
    ((ticks div 4096000000, signed_take_bit 31 (ticks mod 4096000000)),
     s\<lparr>sntp_world := w, sntp_rtc := (sntp_rtc s)\<lparr>sntp_base := b\<rparr>\<rparr>)"
proof -
  let ?r = "tim_ref (sntp_rtc s)" and ?k = "cal (sntp_rtc s)"
  have k: "1 \<le> uint ?k" 
    using assms(6) by (simp add: word_less_iff_unsigned[where 'a = int])
  have "0 \<le> uint b + uint n - uint ?r"
    using assms(4) by simp
  moreover from this k have "(uint b + uint n - uint ?r) * 1 \<le> ticks"
    unfolding assms(3) by (intro mult_left_mono) simp_all
  ultimately have le: "0 \<le> uint b + uint n - uint ?r" "uint b + uint n - uint ?r < 2 ^ 31 * 4096000000" "0 \<le> ticks"
    using assms(5) by simp_all
  have "uint (b + ucast n - ucast ?r) = uint b + uint n - uint ?r"
  proof -
    have "uint (b + ucast n - ucast ?r) = (uint b + uint n - uint ?r) mod 2 ^ 64"
      by (simp add: uint_word_ariths uint_widen mod_simps)
    then show ?thesis
      using le by simp
  qed
  then have t: "uint ((b + ucast n - ucast ?r) * ucast ?k) = ticks"
    using le assms(5) by (simp add: uint_word_ariths uint_widen assms(3))
  then have "uint ((b + ucast n - ucast ?r) * ucast ?k div 4096000000) = ticks div 4096000000"
    "uint ((b + ucast n - ucast ?r) * ucast ?k mod 4096000000) = ticks mod 4096000000"
    by (simp_all add: uint_div_distrib uint_mod_distrib)
  moreover have "signed_take_bit 31 (ticks div 4096000000) = ticks div 4096000000"
    using le assms(5) by (intro signed_take_bit_int_eq_self) (simp_all add: div_le_mono)
  moreover have "sntp_check_timer_wrap n (s\<lparr>sntp_world := w\<rparr>) = s\<lparr>sntp_world := w, sntp_rtc := (sntp_rtc s)\<lparr>sntp_base := b\<rparr>\<rparr>"
    using assms(2) by (simp add: sntp_check_timer_wrap_def set_rtc_def)
  ultimately show ?thesis
    using assms(1) by (simp add: sntp_get_rtc_time_def read_counter_def to_s32_def Let_def)
qed

section \<open>Setting and reading\<close>

definition zone_seconds :: "timezone \<Rightarrow> int" where
  "zone_seconds z = (tz_minuteswest z + tz_dsttime z * 60) * 60"

text \<open>A day at most either way.\<close>

definition zone_ok :: "timezone \<Rightarrow> bool" where
  "zone_ok z \<longleftrightarrow> \<bar>tz_minuteswest z\<bar> \<le> 1440 \<and> \<bar>tz_dsttime z\<bar> \<le> 1"

lemma update_rtc_Some:
  assumes "zone_ok (stz (sntp_rtc s))" "0 \<le> t + zone_seconds (stz (sntp_rtc s))" "t + zone_seconds (stz (sntp_rtc s)) < 2 ^ 31"
    and "cal (sntp_rtc s) \<noteq> 0" "\<And>w. fst (clock_cali_proc env w) \<noteq> 0"
  shows "\<exists>s'. sntp_update_rtc env t us s = Some s' \<and>
    rtc_ticks (t + zone_seconds (stz (sntp_rtc s))) us (cal (sntp_rtc s')) = Some (sntp_base (sntp_rtc s'))"
proof -
  have z: "c_int (tz_dsttime (stz (sntp_rtc s)) * 60) = Some (tz_dsttime (stz (sntp_rtc s)) * 60)"
    "c_int (tz_minuteswest (stz (sntp_rtc s)) + tz_dsttime (stz (sntp_rtc s)) * 60) =
       Some (tz_minuteswest (stz (sntp_rtc s)) + tz_dsttime (stz (sntp_rtc s)) * 60)"
    "c_int (zone_seconds (stz (sntp_rtc s))) = Some (zone_seconds (stz (sntp_rtc s)))"
    "c_int (t + zone_seconds (stz (sntp_rtc s))) = Some (t + zone_seconds (stz (sntp_rtc s)))"
    using assms(1-3) by (auto simp: c_int_def zone_ok_def zone_seconds_def)
  obtain c1 w1 where 1: "timer_count env (sntp_world s) = (c1, w1)"
    by (cases "timer_count env (sntp_world s)")
  obtain c2 w2 where 2: "timer_count env w1 = (c2, w2)"
    by (cases "timer_count env w1")
  obtain k w3 where 3: "clock_cali_proc env w2 = (k, w3)"
    by (cases "clock_cali_proc env w2")
  have "k \<noteq> 0"
    using assms(5)[of w2] 3 by simp
  then obtain b b' where "rtc_ticks (t + zone_seconds (stz (sntp_rtc s))) us k = Some b"
    "rtc_ticks (t + zone_seconds (stz (sntp_rtc s))) us (cal (sntp_rtc s)) = Some b'"
    using assms(4) by (simp add: rtc_ticks_def)
  with 1 2 3 show ?thesis
    unfolding sntp_update_rtc_def z(1,2) Option.bind.bind_lunit zone_seconds_def[symmetric] z(3,4)
    by (simp add: read_counter_def set_rtc_def)
qed

lemma tot_len_packet: "tot_len p = length (packet_bytes p)"
  by (simp add: tot_len_def packet_bytes_def length_concat comp_def)

lemma check_response_good:
  assumes "tot_len p = 48" "packet_bytes p ! 0 AND 7 \<in> {4, 5}" "packet_bytes p ! 1 \<noteq> 0"
  shows "check_response p = (ERR_OK, block_at 32 8 (packet_bytes p))"
proof -
  have "hd (block_at i 1 (packet_bytes p)) = packet_bytes p ! i" if "i < 48" for i
    using that assms(1) by (simp add: tot_len_packet block_at_def hd_drop_conv_nth)
  then show ?thesis
    using assms by (auto simp: check_response_def pbuf_copy_partial_eq Let_def)
qed

text \<open>Reading a clock that was set to \<open>t\<close> seconds and \<open>us\<close> microseconds when the counter was at \<^term>\<open>tim_ref\<close>.\<close>

lemma set_then_read:
  assumes set: "rtc_ticks t us (cal (sntp_rtc s)) = Some (sntp_base (sntp_rtc s))" "0 \<le> t" "t < 2 ^ 31"
    and n: "timer_count env (sntp_world s) = (n, w)" "tim_ref (sntp_rtc s) \<le> n"
    and V: "V = fine_time t (uint us) + (uint n - uint (tim_ref (sntp_rtc s))) * uint (cal (sntp_rtc s))" "V < 2 ^ 31 * 4096000000"
  shows "\<exists>ticks. fst (sntp_get_rtc_time env s) = (ticks div 4096000000, signed_take_bit 31 (ticks mod 4096000000)) \<and>
    ticks \<le> V \<and> V < ticks + uint (cal (sntp_rtc s))"
proof -
  let ?k = "uint (cal (sntp_rtc s))" and ?b = "uint (sntp_base (sntp_rtc s))"
  define d where "d = uint n - uint (tim_ref (sntp_rtc s))"
  have b: "?b = fine_time t (uint us) div ?k" "0 < ?k"
    using rtc_ticks_value[OF set(2,3,1)] by simp_all
  have d: "0 \<le> d"
    using n(2) by (simp add: d_def word_le_def)
  define ticks where "ticks = (?b + d) * ?k"
  have "fine_time t (uint us) = ?b * ?k + fine_time t (uint us) mod ?k" "0 \<le> fine_time t (uint us) mod ?k"
    "fine_time t (uint us) mod ?k < ?k"
    using b by simp_all
  then have le: "ticks \<le> V" "V < ticks + ?k"
    by (simp_all add: V(1) ticks_def distrib_right flip: d_def)
  have "0 < cal (sntp_rtc s)"
    using b(2) by (simp add: word_less_iff_unsigned[where 'a = int])
  moreover have "ticks = (?b + uint n - uint (tim_ref (sntp_rtc s))) * ?k"
    by (simp add: ticks_def d_def algebra_simps)
  moreover have "uint (tim_ref (sntp_rtc s)) \<le> ?b + uint n"
    using d unsigned_greater_eq[of "sntp_base (sntp_rtc s)", where 'a = int] unfolding d_def by linarith
  ultimately have "fst (sntp_get_rtc_time env s) = (ticks div 4096000000, signed_take_bit 31 (ticks mod 4096000000))"
    using le(1) V(2) d n by (subst reading[OF n(1), of "sntp_base (sntp_rtc s)" ticks]) (auto simp: d_def not_less)
  with le show ?thesis
    by blast
qed

section \<open>Properties\<close>

text \<open>
  C20: A response sets the clock. A packet of 48 bytes in server or broadcast mode that is no kiss-of-death (whoever
  sends it) sets the time to the timestamp it carries, converted from the era of 1900 and shifted by the zone, and
  schedules the next request after the update interval; the retry interval is reset. Every later
  reading before the counter wraps returns the seconds of a time that is not ahead of, and less than one tick of
  the counter behind, the time set plus the ticks that have passed; what it returns as microseconds is the rest in units of
  1/4096 microsecond, cut to 32 bits with sign.
\<close>

theorem sntp_response_sets_clock:
  assumes "sntp_net env" "sntp_sane s" "zone_ok (stz (sntp_rtc s))"
    and p: "tot_len p = 48" "packet_bytes p ! 0 AND 7 \<in> {4, 5}" "packet_bytes p ! 1 \<noteq> 0"
    and t: "t = unix_time (ntohl (block_at 32 4 (packet_bytes p))) + zone_seconds (stz (sntp_rtc s))" "0 \<le> t" "t < 2 ^ 31"
    and us: "us = uint (ntohl (block_at 36 4 (packet_bytes p)) div 4295)"
  shows "\<exists>s'. sntp_recv env p s = Some s' \<and> sntp_retry_timeout s' = 3000 \<and>
    (unat (sntp_update_delay s), (Sntp_request, 0)) \<in> set (deadlines 0 (next_timeout s')) \<and>
    (\<forall>s2 n w. sntp_rtc s2 = sntp_rtc s' \<and> timer_count env (sntp_world s2) = (n, w) \<and> tim_ref (sntp_rtc s') \<le> n \<and>
       fine_time t us + (uint n - uint (tim_ref (sntp_rtc s'))) * uint (cal (sntp_rtc s')) < 2 ^ 31 * 4096000000 \<longrightarrow>
       (\<exists>ticks. fst (sntp_get_rtc_time env s2) = (ticks div 4096000000, signed_take_bit 31 (ticks mod 4096000000)) \<and>
          ticks \<le> fine_time t us + (uint n - uint (tim_ref (sntp_rtc s'))) * uint (cal (sntp_rtc s')) \<and>
          fine_time t us + (uint n - uint (tim_ref (sntp_rtc s'))) * uint (cal (sntp_rtc s')) < ticks + uint (cal (sntp_rtc s'))))"
proof -
  let ?us = "ntohl (block_at 36 4 (packet_bytes p)) div 4295"
  define s1 where "s1 = del_timeout Sntp_request (del_timeout Sntp_try_next_server s)"
  define s2 where "s2 = s1\<lparr>sntp_world := packet_free env (sntp_world s1)\<rparr>"
  have same: "stz (sntp_rtc (s2\<lparr>sntp_retry_timeout := 3000\<rparr>)) = stz (sntp_rtc s)" "cal (sntp_rtc (s2\<lparr>sntp_retry_timeout := 3000\<rparr>)) \<noteq> 0"
    "sntp_update_delay s2 = sntp_update_delay s"
    using assms(2) by (simp_all add: s2_def s1_def del_timeout_def sntp_sane_def)
  have cali: "fst (clock_cali_proc env w) \<noteq> 0" for w
    using sntp_net.clock_cali_proc[OF assms(1), of w] by (cases "clock_cali_proc env w") simp
  have ts: "take 4 (block_at 32 8 (packet_bytes p)) = block_at 32 4 (packet_bytes p)"
    "drop 4 (block_at 32 8 (packet_bytes p)) = block_at 36 4 (packet_bytes p)"
    by (simp_all add: block_at_def take_drop)
  obtain s3 where s3: "sntp_process env (block_at 32 8 (packet_bytes p)) (s2\<lparr>sntp_retry_timeout := 3000\<rparr>) = Some s3"
    and ticks: "rtc_ticks t ?us (cal (sntp_rtc s3)) = Some (sntp_base (sntp_rtc s3))"
    using update_rtc_Some[of "s2\<lparr>sntp_retry_timeout := 3000\<rparr>", unfolded same(1), OF assms(3) _ _ same(2) cali] t
    unfolding sntp_process_def ts by fastforce
  have keep: "s3 = (s2\<lparr>sntp_retry_timeout := 3000\<rparr>)\<lparr>sntp_world := sntp_world s3, sntp_rtc := sntp_rtc s3\<rparr>"
    using sntp_net.update_rtc[OF assms(1) s3[unfolded sntp_process_def]] by blast
  define s' where "s' = add_timeout env (sntp_update_delay s3) Sntp_request s3"
  have "sntp_recv env p s = Some s'"
    unfolding sntp_recv_def Let_def check_response_good[OF p] prod.case s1_def[symmetric] s2_def[symmetric]
    using s3 by (simp add: s'_def)
  moreover obtain w where s': "s' = s3\<lparr>next_timeout := sys_timeout True (sntp_update_delay s3) Sntp_request 0 (next_timeout s3), sntp_world := w\<rparr>"
    using sntp_net.add_timeout_eq[OF assms(1), of "sntp_update_delay s3" Sntp_request s3] by (auto simp: s'_def)
  moreover have "sntp_update_delay s3 = sntp_update_delay s" "sntp_retry_timeout s3 = 3000"
    using same(3) by (subst keep, simp)+
  moreover have "sntp_rtc s' = sntp_rtc s3"
    by (simp add: s')
  moreover have "\<exists>ticks. fst (sntp_get_rtc_time env q) = (ticks div 4096000000, signed_take_bit 31 (ticks mod 4096000000)) \<and>
      ticks \<le> V \<and> V < ticks + uint (cal (sntp_rtc s3))"
    if "sntp_rtc q = sntp_rtc s3" "timer_count env (sntp_world q) = (n, w)" "tim_ref (sntp_rtc s3) \<le> n"
      "V = fine_time t us + (uint n - uint (tim_ref (sntp_rtc s3))) * uint (cal (sntp_rtc s3))" "V < 2 ^ 31 * 4096000000" for q n w V
    using set_then_read[of t ?us q env n w V] that ticks t(2,3) us by simp
  ultimately show ?thesis
    by (intro exI[of _ s'] conjI allI impI) (auto simp: sys_timeout_deadlines set_insert_deadline)
qed

text \<open>A response with the time 1000 seconds after the start of 1970, in two segments.\<close>

definition sample_response :: "pbuf list" where
  "sample_response = [\<lparr>pb_payload = 0, pb_data = 0x24 # 1 # replicate 30 0 @ [0x83]\<rparr>,
     \<lparr>pb_payload = 0, pb_data = 0xAA # 0x82 # 0x68 # replicate 12 0\<rparr>]"

theorem sntp_response_sets_clock_witness:
  "\<exists>s' ticks. sntp_recv sim_sntp sample_response lost_start = Some s' \<and> tim_ref (sntp_rtc s') = 5 \<and> cal (sntp_rtc s') = 24576 \<and>
     fst (sntp_get_rtc_time sim_sntp s') = (ticks div 4096000000, signed_take_bit 31 (ticks mod 4096000000)) \<and>
     ticks \<le> 1000 * 4096000000 \<and> 1000 * 4096000000 < ticks + 24576"
proof -
  have bytes: "packet_bytes sample_response = 0x24 # 1 # replicate 30 0 @ 0x83 # 0xAA # 0x82 # 0x68 # replicate 12 0"
    by (simp add: sample_response_def packet_bytes_def)
  have p: "tot_len sample_response = 48" "packet_bytes sample_response ! 0 AND 7 \<in> {4, 5}" "packet_bytes sample_response ! 1 \<noteq> 0"
    by (simp_all add: tot_len_packet bytes)
  have ts: "block_at 32 4 (packet_bytes sample_response) = [0x83, 0xAA, 0x82, 0x68]" "block_at 36 4 (packet_bytes sample_response) = [0, 0, 0, 0]"
    by (simp_all add: bytes block_at_def numeral_eq_Suc)
  have ts8: "take 4 (block_at 32 8 (packet_bytes sample_response)) = [0x83, 0xAA, 0x82, 0x68]"
    "drop 4 (block_at 32 8 (packet_bytes sample_response)) = [0, 0, 0, 0]"
    by (simp_all add: bytes block_at_def numeral_eq_Suc)
  have z: "zone_ok (stz (sntp_rtc lost_start))" "zone_seconds (stz (sntp_rtc lost_start)) = 0"
    by (simp_all add: lost_start_def zone_ok_def zone_seconds_def)
  have sane: "sntp_sane lost_start"
    by (simp add: lost_start_def sntp_fresh_def sntp_sane_def timeouts_ok_def)
  have t: "unix_time (ntohl [0x83, 0xAA, 0x82, 0x68]) = 1000" "ntohl [0, 0, 0, 0] = 0"
    by (simp_all add: ntohl_def unix_time_def)
  obtain s' where s': "sntp_recv sim_sntp sample_response lost_start = Some s'"
    and read: "\<And>q n w. sntp_rtc q = sntp_rtc s' \<and> timer_count sim_sntp (sntp_world q) = (n, w) \<and> tim_ref (sntp_rtc s') \<le> n \<and>
       fine_time 1000 0 + (uint n - uint (tim_ref (sntp_rtc s'))) * uint (cal (sntp_rtc s')) < 2 ^ 31 * 4096000000 \<Longrightarrow>
       \<exists>ticks. fst (sntp_get_rtc_time sim_sntp q) = (ticks div 4096000000, signed_take_bit 31 (ticks mod 4096000000)) \<and>
          ticks \<le> fine_time 1000 0 + (uint n - uint (tim_ref (sntp_rtc s'))) * uint (cal (sntp_rtc s')) \<and>
          fine_time 1000 0 + (uint n - uint (tim_ref (sntp_rtc s'))) * uint (cal (sntp_rtc s')) < ticks + uint (cal (sntp_rtc s'))"
    using sntp_response_sets_clock[OF sim_sntp.sntp_net_axioms sane z(1) p refl _ _ refl, unfolded z(2) ts t] by auto
  have "sntp_rtc s' = \<lparr>sntp_base = 166666666, tim_ref = 5, cal = 24576, stz = \<lparr>tz_minuteswest = 0, tz_dsttime = 0\<rparr>\<rparr>"
    "sntp_world s' = \<lparr>sim_sent = 1, sim_dns = 0, sim_count = 5\<rparr>"
    using s' t unfolding sntp_recv_def check_response_good[OF p] sntp_process_def ts8 Let_def prod.case
    by (auto simp: sntp_update_rtc_def c_int_def read_counter_def rtc_ticks_def set_rtc_def sim_sntp_def add_timeout_def del_timeout_def
        lost_start_def sntp_fresh_def)
  then show ?thesis
    using s' read[of s' 5 "sntp_world s'"] by (simp add: sim_sntp_def fine_time_def)
qed

text \<open>
  C22: The clock runs backwards. Once the counter has wrapped and stands below its value at the last update, every reading
  takes \<open>2 ^ 32\<close> ticks off the base, where one addition would be right: the first reading is \<open>2 ^ 33\<close> ticks late, the next, although later,
  shows no later time, and each further one takes off as much again.
\<close>

theorem sntp_clock_runs_back:
  assumes "timer_count env (sntp_world s) = (n1, w1)" "timer_count env w1 = (n2, w2)"
    and "n1 \<le> n2" "n2 < tim_ref (sntp_rtc s)" "0 < cal (sntp_rtc s)"
    and B: "B = uint (sntp_base (sntp_rtc s))" "2 * 2 ^ 32 + uint (tim_ref (sntp_rtc s)) \<le> B"
    and k: "k = uint (cal (sntp_rtc s))" "B * k < 2 ^ 31 * 4096000000"
    and "sntp_get_rtc_time env s = ((sec1, us1), s1)" "sntp_get_rtc_time env s1 = ((sec2, us2), s2)"
  shows "sec1 = (B - 2 ^ 32 + uint n1 - uint (tim_ref (sntp_rtc s))) * k div 4096000000 \<and>
    sec2 = (B - 2 * 2 ^ 32 + uint n2 - uint (tim_ref (sntp_rtc s))) * k div 4096000000 \<and> sec2 \<le> sec1 \<and>
    uint (sntp_base (sntp_rtc s2)) = B - 2 * 2 ^ 32"
proof -
  let ?ref = "uint (tim_ref (sntp_rtc s))"
  have n: "0 \<le> uint n1" "0 \<le> ?ref" "uint n1 \<le> uint n2" "uint n2 < ?ref" "?ref < 2 ^ 32" "0 < k"
    using assms(3-5) unsigned_less[of "tim_ref (sntp_rtc s)", where 'a = int]
    by (simp_all add: word_le_def word_less_def k(1))
  have sub: "uint (x - 2 ^ 32) = uint x - 2 ^ 32" if "2 ^ 32 \<le> uint x" for x :: u64
    using that by (simp add: uint_sub_if_size)
  have two: "(2 :: int) ^ 32 = 4294967296"
    by simp
  have b1: "uint (sntp_base (sntp_rtc s) - 2 ^ 32) = B - 2 ^ 32"
    using B n(2) two by (subst sub) linarith+
  have b2: "uint (sntp_base (sntp_rtc s) - 2 ^ 32 - 2 ^ 32) = B - 2 * 2 ^ 32"
    using B n(2) b1 two by (subst sub) linarith+
  have lt: "x * k < 2 ^ 31 * 4096000000" if "x \<le> B" for x
    using order.strict_trans1[OF mult_right_mono[OF that] k(2)] n(6) by simp
  have ge: "?ref \<le> B - 2 ^ 32 + uint n1" "?ref \<le> B - 2 * 2 ^ 32 + uint n2"
    using n B(2) two by linarith+
  have 1: "sntp_get_rtc_time env s = (((B - 2 ^ 32 + uint n1 - ?ref) * k div 4096000000,
      signed_take_bit 31 ((B - 2 ^ 32 + uint n1 - ?ref) * k mod 4096000000)),
    s\<lparr>sntp_world := w1, sntp_rtc := (sntp_rtc s)\<lparr>sntp_base := sntp_base (sntp_rtc s) - 2 ^ 32\<rparr>\<rparr>)"
    using n ge b1 assms(1,3-5) lt[of "B - 2 ^ 32 + uint n1 - ?ref"]
    by (intro reading[of env s n1 w1]) (simp_all add: k(1)[symmetric])
  moreover have "sntp_get_rtc_time env (s\<lparr>sntp_world := w1, sntp_rtc := (sntp_rtc s)\<lparr>sntp_base := sntp_base (sntp_rtc s) - 2 ^ 32\<rparr>\<rparr>) =
      (((B - 2 * 2 ^ 32 + uint n2 - ?ref) * k div 4096000000,
        signed_take_bit 31 ((B - 2 * 2 ^ 32 + uint n2 - ?ref) * k mod 4096000000)),
      s\<lparr>sntp_world := w2, sntp_rtc := (sntp_rtc s)\<lparr>sntp_base := sntp_base (sntp_rtc s) - 2 ^ 32 - 2 ^ 32\<rparr>\<rparr>)"
    using n ge b2 assms(2,4,5) lt[of "B - 2 * 2 ^ 32 + uint n2 - ?ref"]
    by (subst reading[of env _ n2 w2 "sntp_base (sntp_rtc s) - 2 ^ 32 - 2 ^ 32" "(B - 2 * 2 ^ 32 + uint n2 - ?ref) * k"])
      (simp_all add: k(1)[symmetric])
  moreover have "(B - 2 * 2 ^ 32 + uint n2 - ?ref) * k div 4096000000 \<le> (B - 2 ^ 32 + uint n1 - ?ref) * k div 4096000000"
  proof -
    have "B - 2 * 2 ^ 32 + uint n2 - ?ref \<le> B - 2 ^ 32 + uint n1 - ?ref"
      using n two by linarith
    then show ?thesis
      using n(6) by (intro zdiv_mono1 mult_right_mono) simp_all
  qed
  ultimately show ?thesis
    using assms(10,11) b2 by auto
qed

text \<open>The clock at 10 000 000 000 ticks of 6 microseconds, last updated when the counter stood at 1000; it has wrapped since.\<close>

definition wrapped_start :: "sim_net sntp_state" where
  "wrapped_start = (sntp_fresh \<lparr>sim_sent = 0, sim_dns = 0, sim_count = 5\<rparr>)\<lparr>sntp_rtc :=
     \<lparr>sntp_base = 10000000000, tim_ref = 1000, cal = 24576, stz = \<lparr>tz_minuteswest = 0, tz_dsttime = 0\<rparr>\<rparr>\<rparr>"

theorem sntp_clock_runs_back_witness:
  "case sntp_get_rtc_time sim_sntp wrapped_start of ((sec1, us1), s1) \<Rightarrow>
     (case sntp_get_rtc_time sim_sntp s1 of ((sec2, us2), s2) \<Rightarrow> sec1 = 34230 \<and> sec2 = 8460)"
proof -
  obtain sec1 us1 s1 where 1: "sntp_get_rtc_time sim_sntp wrapped_start = ((sec1, us1), s1)"
    by (metis prod.exhaust)
  obtain sec2 us2 s2 where 2: "sntp_get_rtc_time sim_sntp s1 = ((sec2, us2), s2)"
    by (metis prod.exhaust)
  have "timer_count sim_sntp (sntp_world wrapped_start) = (5, sntp_world wrapped_start)" "(5 :: u32) \<le> 5"
    "5 < tim_ref (sntp_rtc wrapped_start)" "0 < cal (sntp_rtc wrapped_start)"
    "2 * 2 ^ 32 + uint (tim_ref (sntp_rtc wrapped_start)) \<le> 10000000000" "10000000000 = uint (sntp_base (sntp_rtc wrapped_start))"
    "24576 = uint (cal (sntp_rtc wrapped_start))" "10000000000 * 24576 < (2 :: int) ^ 31 * 4096000000"
    by (simp_all add: sim_sntp_def wrapped_start_def sntp_fresh_def)
  from sntp_clock_runs_back[OF this(1,1-4,6,5,7,8) 1 2]
  have "sec1 = 34230 \<and> sec2 = 8460"
    by (simp add: wrapped_start_def)
  then show ?thesis
    by (simp add: 1 2)
qed

text \<open>
  A heap that gives exactly the bytes asked for is not enough: the end of the first name is written behind its
  block.
\<close>

lemma sntp_set_servers_overruns:
  assumes "\<And>n w. fst (heap_alloc env n w) = Some n" "urls \<noteq> []" "length urls \<le> 4"
  shows "sntp_set_servers env urls (int (length urls)) s = None"
proof -
  have "copy_servers env 0 urls s1 = None" for s1
    using assms(1)[of "length (hd urls)" "sntp_world s1"] assms(2) by (cases urls) (auto split: prod.splits)
  then show ?thesis
    using assms(3) by (cases "free_servers env (unat (sntp_num_servers s)) s") (simp_all add: sntp_set_servers_def)
qed

end
