(* ===== verification/Esp_Board.thy ===== *)
theory Esp_Board
  imports Prelude
begin

unbundle bit_operations_syntax

text \<open>
  The peripheral registers the timer driven components work on, and the functions of
  core/esp_gpio.c, core/include/esp/gpio.h, core/esp_timer.c and core/include/esp/timer.h
  that access them: pins, the hardware timers FRC1 and FRC2 and the interrupt they raise.

  A register whose bits belong to one pin each is a function from pin numbers to truth
  values: every access of these functions changes the bit of one pin. The control register
  of a timer is kept as a 32-bit word. Pin 16 belongs to the real time clock and has its
  own registers.
\<close>

section \<open>Registers\<close>

datatype timer_frc_t = FRC1 | FRC2

datatype gpio_direction_t = GPIO_INPUT | GPIO_OUTPUT | GPIO_OUT_OPEN_DRAIN

text \<open>The routines the components attach to the interrupt of FRC1.\<close>

datatype isr = Isr_hw_timer | Isr_pwm

record board =
  gpio_enabled :: "nat \<Rightarrow> bool"
  gpio_open_drain :: "nat \<Rightarrow> bool"
  gpio_out :: "nat \<Rightarrow> bool"
  iomux_output :: "nat \<Rightarrow> bool"
  iomux_output_sleep :: "nat \<Rightarrow> bool"
  iomux_gpio :: "nat \<Rightarrow> bool"
  iomux_pullup :: "nat \<Rightarrow> bool"
  iomux_pullup_sleep :: "nat \<Rightarrow> bool"
  iomux_pulldown :: "nat \<Rightarrow> bool"
  iomux_pulldown_sleep :: "nat \<Rightarrow> bool"
  rtc_GPIO_OUT :: u32
  rtc_GPIO_ENABLE :: u32
  rtc_GPIO_CONF :: u32
  rtc_GPIO_CFG3 :: u32
  timer_LOAD :: "timer_frc_t \<Rightarrow> u32"
  timer_COUNT :: "timer_frc_t \<Rightarrow> u32"
  timer_CTRL :: "timer_frc_t \<Rightarrow> u32"
  timer_ALARM :: "timer_frc_t \<Rightarrow> u32"
  timer_int_enabled :: "timer_frc_t \<Rightarrow> bool"
  frc1_isr :: "isr option"


section \<open>Pins\<close>

definition iomux_set_gpio_function :: "nat \<Rightarrow> bool \<Rightarrow> 'a board_scheme \<Rightarrow> 'a board_scheme" where
  "iomux_set_gpio_function pin output_enable s =
     s\<lparr>iomux_gpio := (iomux_gpio s)(pin := True),
       iomux_output := (iomux_output s)(pin := output_enable),
       iomux_output_sleep := (iomux_output_sleep s)(pin := False)\<rparr>"

text \<open>
  Pin 16. Its enable register is computed from the output register, as in the source.
\<close>

definition rtc_gpio_enable :: "bool \<Rightarrow> 'a board_scheme \<Rightarrow> 'a board_scheme" where
  "rtc_gpio_enable output s =
     s\<lparr>rtc_GPIO_CFG3 := (rtc_GPIO_CFG3 s AND 0xffffffbc) OR 1,
       rtc_GPIO_CONF := rtc_GPIO_CONF s AND 0xfffffffe,
       rtc_GPIO_ENABLE := (rtc_GPIO_OUT s AND 0xfffffffe) OR of_bool output\<rparr>"

text \<open>
  The functions for pins 0 to 16. There are no others: for a greater number \<^verbatim>\<open>gpio_enable\<close> accesses
  \<^verbatim>\<open>GPIO.CONF\<close> outside its 16 registers, and its callers are modelled so that they do not get
  here; \<^verbatim>\<open>gpio_write\<close> masks the bit away. \<^verbatim>\<open>gpio_disable\<close> and \<^verbatim>\<open>gpio_set_pullup\<close> are for pins 0 to
  15 only, those of the i/o multiplexer.
\<close>

fun gpio_enable :: "nat \<Rightarrow> gpio_direction_t \<Rightarrow> 'a board_scheme \<Rightarrow> 'a board_scheme" where
  "gpio_enable pin GPIO_INPUT s =
     (if pin = 16 then rtc_gpio_enable False s
      else iomux_set_gpio_function pin False (s\<lparr>gpio_enabled := (gpio_enabled s)(pin := False)\<rparr>))"
| "gpio_enable pin GPIO_OUTPUT s =
     (if pin = 16 then rtc_gpio_enable True s
      else iomux_set_gpio_function pin True
        (s\<lparr>gpio_open_drain := (gpio_open_drain s)(pin := False),
           gpio_enabled := (gpio_enabled s)(pin := True)\<rparr>))"
| "gpio_enable pin GPIO_OUT_OPEN_DRAIN s =
     (if pin = 16 then rtc_gpio_enable True s
      else iomux_set_gpio_function pin True
        (s\<lparr>gpio_open_drain := (gpio_open_drain s)(pin := True),
           gpio_enabled := (gpio_enabled s)(pin := True)\<rparr>))"

definition gpio_disable :: "nat \<Rightarrow> 'a board_scheme \<Rightarrow> 'a board_scheme" where
  "gpio_disable pin s =
     s\<lparr>gpio_enabled := (gpio_enabled s)(pin := False), iomux_output := (iomux_output s)(pin := False)\<rparr>"

definition gpio_set_pullup :: "nat \<Rightarrow> bool \<Rightarrow> bool \<Rightarrow> 'a board_scheme \<Rightarrow> 'a board_scheme" where
  "gpio_set_pullup pin enabled enabled_during_sleep s =
     s\<lparr>iomux_pullup := (iomux_pullup s)(pin := enabled),
       iomux_pullup_sleep := (iomux_pullup_sleep s)(pin := enabled_during_sleep),
       iomux_pulldown := (iomux_pulldown s)(pin := False),
       iomux_pulldown_sleep := (iomux_pulldown_sleep s)(pin := False)\<rparr>"

definition gpio_write :: "nat \<Rightarrow> bool \<Rightarrow> 'a board_scheme \<Rightarrow> 'a board_scheme" where
  "gpio_write pin level s =
     (if pin = 16 then s\<lparr>rtc_GPIO_OUT := (rtc_GPIO_OUT s AND 0xfffffffe) OR of_bool level\<rparr>
      else if pin < 16 then s\<lparr>gpio_out := (gpio_out s)(pin := level)\<rparr>
      else s)"

text \<open>
  The chip pulls a line down when the output is on and holds a zero; in open drain mode, which
  pin 16 does not have, a one lets the line float, in push-pull mode it drives the line high.
\<close>

definition pulls_low :: "nat \<Rightarrow> 'a board_scheme \<Rightarrow> bool" where
  "pulls_low pin s \<longleftrightarrow>
     (if pin = 16 then bit (rtc_GPIO_ENABLE s) 0 \<and> \<not> bit (rtc_GPIO_OUT s) 0
      else gpio_enabled s pin \<and> iomux_output s pin \<and> \<not> gpio_out s pin)"

definition drives_high :: "nat \<Rightarrow> 'a board_scheme \<Rightarrow> bool" where
  "drives_high pin s \<longleftrightarrow>
     (if pin = 16 then bit (rtc_GPIO_ENABLE s) 0 \<and> bit (rtc_GPIO_OUT s) 0
      else gpio_enabled s pin \<and> iomux_output s pin \<and> gpio_out s pin \<and> \<not> gpio_open_drain s pin)"

text \<open>The numbers of the pins of the i/o multiplexer, as four bits.\<close>

lemma unat_pin [simp]: "unat (p :: 4 word) < 16" "unat p \<noteq> 16" "16 \<noteq> unat p"
proof -
  have "unat p < 2 ^ 4"
    using unsigned_less [of p, where ?'a = nat] by simp
  then show "unat p < 16" "unat p \<noteq> 16" "16 \<noteq> unat p"
    by simp_all
qed


section \<open>Timer registers\<close>

abbreviation (input) TIMER_CTRL_RELOAD :: u32 where "TIMER_CTRL_RELOAD \<equiv> 0x40"
abbreviation (input) TIMER_CTRL_RUN :: u32 where "TIMER_CTRL_RUN \<equiv> 0x80"
abbreviation (input) TIMER_CTRL_CLKDIV_MASK :: u32 where "TIMER_CTRL_CLKDIV_MASK \<equiv> 0xC"

abbreviation (input) TIMER_CLKDIV_1 :: nat where "TIMER_CLKDIV_1 \<equiv> 0"
abbreviation (input) TIMER_CLKDIV_16 :: nat where "TIMER_CLKDIV_16 \<equiv> 1"
abbreviation (input) TIMER_CLKDIV_256 :: nat where "TIMER_CLKDIV_256 \<equiv> 2"

definition set_CTRL :: "timer_frc_t \<Rightarrow> (u32 \<Rightarrow> u32) \<Rightarrow> 'a board_scheme \<Rightarrow> 'a board_scheme" where
  "set_CTRL frc f s = s\<lparr>timer_CTRL := (timer_CTRL s)(frc := f (timer_CTRL s frc))\<rparr>"

definition timer_get_load :: "timer_frc_t \<Rightarrow> 'a board_scheme \<Rightarrow> u32" where
  "timer_get_load frc s = timer_LOAD s frc"

definition timer_set_load :: "timer_frc_t \<Rightarrow> u32 \<Rightarrow> 'a board_scheme \<Rightarrow> 'a board_scheme" where
  "timer_set_load frc load s = s\<lparr>timer_LOAD := (timer_LOAD s)(frc := load)\<rparr>"

definition timer_max_load :: "timer_frc_t \<Rightarrow> u32" where
  "timer_max_load frc = (if frc = FRC1 then 0x7fffff else 0xffffffff)"

definition timer_set_divider :: "timer_frc_t \<Rightarrow> nat \<Rightarrow> 'a board_scheme \<Rightarrow> 'a board_scheme" where
  "timer_set_divider frc d s =
     (if d > TIMER_CLKDIV_256 then s
      else set_CTRL frc (\<lambda>c. (c AND NOT TIMER_CTRL_CLKDIV_MASK) OR push_bit 2 (of_nat d)) s)"

definition timer_set_interrupts :: "timer_frc_t \<Rightarrow> bool \<Rightarrow> 'a board_scheme \<Rightarrow> 'a board_scheme" where
  "timer_set_interrupts frc enable s = s\<lparr>timer_int_enabled := (timer_int_enabled s)(frc := enable)\<rparr>"

definition timer_set_run :: "timer_frc_t \<Rightarrow> bool \<Rightarrow> 'a board_scheme \<Rightarrow> 'a board_scheme" where
  "timer_set_run frc run s =
     (if run then set_CTRL frc (\<lambda>c. c OR TIMER_CTRL_RUN) s else set_CTRL frc (\<lambda>c. c AND NOT TIMER_CTRL_RUN) s)"

definition timer_get_run :: "timer_frc_t \<Rightarrow> 'a board_scheme \<Rightarrow> bool" where
  "timer_get_run frc s \<longleftrightarrow> timer_CTRL s frc AND TIMER_CTRL_RUN \<noteq> 0"

definition timer_set_reload :: "timer_frc_t \<Rightarrow> bool \<Rightarrow> 'a board_scheme \<Rightarrow> 'a board_scheme" where
  "timer_set_reload frc reload s =
     (if reload then set_CTRL frc (\<lambda>c. c OR TIMER_CTRL_RELOAD) s else set_CTRL frc (\<lambda>c. c AND NOT TIMER_CTRL_RELOAD) s)"

definition timer_get_reload :: "timer_frc_t \<Rightarrow> 'a board_scheme \<Rightarrow> bool" where
  "timer_get_reload frc s \<longleftrightarrow> timer_CTRL s frc AND TIMER_CTRL_RELOAD \<noteq> 0"

text \<open>The divider the control register holds.\<close>

definition timer_divider :: "timer_frc_t \<Rightarrow> 'a board_scheme \<Rightarrow> nat" where
  "timer_divider frc s = of_bool (bit (timer_CTRL s frc) 2) + 2 * of_bool (bit (timer_CTRL s frc) 3)"

text \<open>\<^verbatim>\<open>_xt_isr_attach\<close> for the interrupt of FRC1.\<close>

definition xt_isr_attach :: "isr \<Rightarrow> 'a board_scheme \<Rightarrow> 'a board_scheme" where
  "xt_isr_attach r s = s\<lparr>frc1_isr := Some r\<rparr>"

text \<open>The interrupt of FRC1 reaches the processor.\<close>

definition frc1_fires :: "'a board_scheme \<Rightarrow> bool" where
  "frc1_fires s \<longleftrightarrow> timer_int_enabled s FRC1 \<and> timer_get_run FRC1 s"


section \<open>Frequencies and times\<close>

text \<open>
  A zero frequency divides by zero. The counts are computed in 32 bits; the constants are
  the frequencies of the counter for the three dividers.
\<close>

definition TIMER_FREQS :: "nat \<Rightarrow> u32" where
  "TIMER_FREQS d = [80000000, 5000000, 312500] ! d"

definition timer_freq_to_count :: "timer_frc_t \<Rightarrow> u32 \<Rightarrow> nat \<Rightarrow> u32 option" where
  "timer_freq_to_count frc freq d =
     (if d > TIMER_CLKDIV_256 then Some 0
      else if freq > TIMER_FREQS d then Some 0
      else if freq = 0 then None
      else Some (TIMER_FREQS d div freq))"

definition timer_time_to_count :: "timer_frc_t \<Rightarrow> u32 \<Rightarrow> nat \<Rightarrow> u32" where
  "timer_time_to_count frc us d =
     (if d > TIMER_CLKDIV_256 then 0
      else let TIMER_MAX = timer_max_load frc in
        if d \<noteq> TIMER_CLKDIV_256
        then let counts_per_us = (if d = TIMER_CLKDIV_1 then 80000000 else 5000000) div 1000 div 1000 in
             if us > TIMER_MAX div counts_per_us then 0 else us * counts_per_us
        else let scalar = 312500 div 500 in
             if us > 1 + 0xffffffff div scalar then 0
             else let counts = (us * scalar) div 2000 in
                  if counts > TIMER_MAX then 0 else counts)"

definition timer_freq_to_div :: "u32 \<Rightarrow> nat" where
  "timer_freq_to_div freq =
     (if freq > 100 * 1000 then TIMER_CLKDIV_1 else if freq > 100 then TIMER_CLKDIV_16 else TIMER_CLKDIV_256)"

definition timer_time_to_div :: "u32 \<Rightarrow> nat" where
  "timer_time_to_div us =
     (if us < 1000 then TIMER_CLKDIV_1 else if us < 10 * 1000 then TIMER_CLKDIV_16 else TIMER_CLKDIV_256)"

abbreviation (input) EINVAL :: int where "EINVAL \<equiv> 22"

definition timer_set_frequency :: "timer_frc_t \<Rightarrow> u32 \<Rightarrow> 'a board_scheme \<Rightarrow> (int \<times> 'a board_scheme) option" where
  "timer_set_frequency frc freq s =
     do { let d = timer_freq_to_div freq;
          counts \<leftarrow> timer_freq_to_count frc freq d;
          Some (if counts = 0 then (- EINVAL, s)
                else let s = timer_set_divider frc d s in
                  if frc = FRC1 then (0, timer_set_reload frc True (timer_set_load frc counts s))
                  else (0, s\<lparr>timer_ALARM := (timer_ALARM s)(FRC2 := counts + timer_COUNT s FRC2)\<rparr>)) }"

definition timer_set_timeout :: "timer_frc_t \<Rightarrow> u32 \<Rightarrow> 'a board_scheme \<Rightarrow> int \<times> 'a board_scheme" where
  "timer_set_timeout frc us s =
     (let d = timer_time_to_div us;
          counts = timer_time_to_count frc us d
      in if counts = 0 then (- EINVAL, s)
         else let s = timer_set_divider frc d s in
           if frc = FRC1 then (0, timer_set_load frc counts s)
           else (0, s\<lparr>timer_ALARM := (timer_ALARM s)(FRC2 := counts + timer_COUNT s FRC2)\<rparr>))"


section \<open>Run, reload and divider are independent\<close>

lemma set_CTRL_simps [simp]:
  "timer_CTRL (set_CTRL frc f s) frc' = (if frc' = frc then f (timer_CTRL s frc) else timer_CTRL s frc')"
  "timer_LOAD (set_CTRL frc f s) = timer_LOAD s" "timer_int_enabled (set_CTRL frc f s) = timer_int_enabled s"
  "timer_ALARM (set_CTRL frc f s) = timer_ALARM s" "timer_COUNT (set_CTRL frc f s) = timer_COUNT s"
  "board.more (set_CTRL frc f s) = board.more s"
  by (simp_all add: set_CTRL_def)

lemma and_twopow_word: "(w AND 2 ^ n \<noteq> 0) \<longleftrightarrow> bit w n" for w :: u32
  by (metis and_exp_eq_0_iff_not_bit)

lemma timer_get_run_bit: "timer_get_run frc s \<longleftrightarrow> bit (timer_CTRL s frc) 7"
  using and_twopow_word [of "timer_CTRL s frc" 7] by (simp add: timer_get_run_def)

lemma timer_get_reload_bit: "timer_get_reload frc s \<longleftrightarrow> bit (timer_CTRL s frc) 6"
  using and_twopow_word [of "timer_CTRL s frc" 6] by (simp add: timer_get_reload_def)

lemma bit_ctrl_masks:
  "bit (0x80 :: u32) n \<longleftrightarrow> n = 7" "bit (0x40 :: u32) n \<longleftrightarrow> n = 6" "bit (0xC :: u32) n \<longleftrightarrow> n = 2 \<or> n = 3"
proof -
  have "bit (2 ^ 7 :: u32) n \<longleftrightarrow> n = 7" "bit (2 ^ 6 :: u32) n \<longleftrightarrow> n = 6"
    unfolding bit_exp_iff by (auto simp: possible_bit_def)
  moreover have "(0xC :: u32) = 2 ^ 2 OR 2 ^ 3"
    by simp
  moreover have "bit (2 ^ 2 OR 2 ^ 3 :: u32) n \<longleftrightarrow> n = 2 \<or> n = 3"
    unfolding bit_or_iff bit_exp_iff by (auto simp: possible_bit_def)
  ultimately show "bit (0x80 :: u32) n \<longleftrightarrow> n = 7" "bit (0x40 :: u32) n \<longleftrightarrow> n = 6" "bit (0xC :: u32) n \<longleftrightarrow> n = 2 \<or> n = 3"
    by simp_all
qed

lemma timer_get_run_simps [simp]:
  "timer_get_run frc (timer_set_run frc' b s) = (if frc' = frc then b else timer_get_run frc s)"
  "timer_get_run frc (timer_set_reload frc' b s) = timer_get_run frc s"
  "timer_get_run frc (timer_set_load frc' l s) = timer_get_run frc s"
  "timer_get_run frc (timer_set_interrupts frc' b s) = timer_get_run frc s"
  by (auto simp: timer_get_run_bit timer_set_run_def timer_set_reload_def timer_set_load_def timer_set_interrupts_def
      bit_ctrl_masks bit_simps simp del: bit_numeral_rec(1,2))

lemma bit_push_divider: "d \<le> 2 \<Longrightarrow> bit (push_bit 2 (of_nat d) :: u32) n \<longleftrightarrow> (n = 2 \<and> d = 1) \<or> (n = 3 \<and> d = 2)"
proof -
  assume "d \<le> 2"
  then consider "d = 0" | "d = 1" | "d = 2"
    by linarith
  then show ?thesis
  proof cases
    case 2
    have "bit (2 ^ 2 :: u32) n \<longleftrightarrow> n = 2"
      unfolding bit_exp_iff by (auto simp: possible_bit_def)
    with 2 show ?thesis
      by simp
  next
    case 3
    have "bit (2 ^ 3 :: u32) n \<longleftrightarrow> n = 3"
      unfolding bit_exp_iff by (auto simp: possible_bit_def)
    with 3 show ?thesis
      by (simp add: push_bit_eq_mult)
  qed simp
qed

lemma timer_get_run_divider [simp]: "timer_get_run frc (timer_set_divider frc' d s) = timer_get_run frc s"
  by (auto simp: timer_get_run_bit timer_set_divider_def bit_or_iff bit_and_iff bit_not_iff bit_ctrl_masks(3)
      bit_push_divider possible_bit_def)

lemma timer_get_reload_simps [simp]:
  "timer_get_reload frc (timer_set_reload frc' b s) = (if frc' = frc then b else timer_get_reload frc s)"
  "timer_get_reload frc (timer_set_run frc' b s) = timer_get_reload frc s"
  "timer_get_reload frc (timer_set_load frc' l s) = timer_get_reload frc s"
  "timer_get_reload frc (timer_set_interrupts frc' b s) = timer_get_reload frc s"
  "timer_get_reload frc (timer_set_divider frc' d s) = timer_get_reload frc s"
  by (auto simp: timer_get_reload_bit timer_set_run_def timer_set_reload_def timer_set_load_def timer_set_interrupts_def
      timer_set_divider_def bit_or_iff bit_and_iff bit_not_iff bit_ctrl_masks bit_push_divider possible_bit_def
      simp del: bit_numeral_rec(1,2))

lemma timer_LOAD_simps [simp]:
  "timer_LOAD (timer_set_load frc l s) = (timer_LOAD s)(frc := l)"
  "timer_LOAD (timer_set_run frc b s) = timer_LOAD s" "timer_LOAD (timer_set_reload frc b s) = timer_LOAD s"
  "timer_LOAD (timer_set_interrupts frc b s) = timer_LOAD s" "timer_LOAD (timer_set_divider frc d s) = timer_LOAD s"
  by (simp_all add: timer_set_load_def timer_set_run_def timer_set_reload_def timer_set_interrupts_def timer_set_divider_def)

lemma timer_int_simps [simp]:
  "timer_int_enabled (timer_set_interrupts frc b s) = (timer_int_enabled s)(frc := b)"
  "timer_int_enabled (timer_set_load frc l s) = timer_int_enabled s"
  "timer_int_enabled (timer_set_run frc b s) = timer_int_enabled s"
  "timer_int_enabled (timer_set_reload frc b s) = timer_int_enabled s"
  "timer_int_enabled (timer_set_divider frc d s) = timer_int_enabled s"
  by (simp_all add: timer_set_load_def timer_set_run_def timer_set_reload_def timer_set_interrupts_def timer_set_divider_def)

lemma timer_divider_simps [simp]:
  "timer_divider frc (timer_set_run frc' b s) = timer_divider frc s"
  "timer_divider frc (timer_set_reload frc' b s) = timer_divider frc s"
  "timer_divider frc (timer_set_load frc' l s) = timer_divider frc s"
  "timer_divider frc (timer_set_interrupts frc' b s) = timer_divider frc s"
  by (simp_all add: timer_divider_def timer_set_run_def timer_set_reload_def timer_set_load_def timer_set_interrupts_def
      bit_or_iff bit_and_iff bit_not_iff bit_ctrl_masks possible_bit_def del: bit_numeral_rec(1,2))

lemma timer_divider_set: "d \<le> 2 \<Longrightarrow> timer_divider frc (timer_set_divider frc d s) = d"
  by (auto simp: timer_divider_def timer_set_divider_def bit_or_iff bit_and_iff bit_not_iff bit_ctrl_masks(3)
      bit_push_divider possible_bit_def simp del: bit_numeral_rec(1,2))


section \<open>Counts\<close>

lemma unat_u32_less: "unat (w :: u32) < 2 ^ 32"
  using unsigned_less [of w] by simp

lemma unat_mult_u32: "unat a * unat b < 2 ^ 32 \<Longrightarrow> unat (a * b) = unat a * unat b" for a b :: u32
  by (simp add: unat_word_ariths)

lemma counts_MHz:
  fixes us m k :: u32
  assumes "0 < k"
  shows "unat (if us > m div k then 0 else us * k) = (if unat us * unat k \<le> unat m then unat us * unat k else 0)"
proof (cases "unat us * unat k \<le> unat m")
  case True
  then have "unat us \<le> unat m div unat k"
    using assms by (simp add: less_eq_div_iff_mult_less_eq unat_gt_0)
  then have "\<not> us > m div k"
    by (simp add: word_less_nat_alt unat_div)
  moreover have "unat us * unat k < 2 ^ 32"
    using True unat_u32_less [of m] by linarith
  ultimately show ?thesis
    using True by (simp add: unat_mult_u32)
next
  case False
  then have "\<not> unat us \<le> unat m div unat k"
    using assms by (simp add: less_eq_div_iff_mult_less_eq unat_gt_0)
  then show ?thesis
    using False by (simp add: word_less_nat_alt unat_div)
qed

text \<open>The frequency in Hz of the counter for a divider.\<close>

definition counter_Hz :: "nat \<Rightarrow> nat" where
  "counter_Hz d = 80000000 div 16 ^ d"

lemma counter_Hz_simps [simp]: "counter_Hz 0 = 80000000" "counter_Hz (Suc 0) = 5000000" "counter_Hz 2 = 312500"
  by (simp_all add: counter_Hz_def)

lemma counts_256:
  fixes us m :: u32
  shows "unat (if us > 1 + 0xffffffff div 625 then 0
               else let counts = (us * 625) div 2000 in if counts > m then 0 else counts) =
    (let n = unat us * 312500 div 1000000 in if n \<le> unat m \<and> unat us * 625 < 2 ^ 32 then n else 0)"
proof -
  have lim: "us > 1 + 0xffffffff div 625 \<longleftrightarrow> 6871948 < unat us"
    by (simp add: word_less_nat_alt)
  have n: "unat us * 312500 div 1000000 = unat us * 625 div 2000"
    using div_mult_mult2 [of 500 "unat us * 625" 2000] by simp
  consider "6871948 < unat us" | "unat us = 6871948" | "unat us < 6871948"
    by linarith
  then show ?thesis
  proof cases
    case 2
    then have "us = 6871948"
      by (simp add: word_unat_eq_iff)
    then show ?thesis
      by simp
  next
    case 3
    then have "unat (us * 625) = unat us * 625"
      by (subst unat_mult_u32) simp_all
    then have "unat ((us * 625) div 2000) = unat us * 625 div 2000"
      by (simp add: unat_div)
    with 3 lim show ?thesis
      unfolding n by (simp add: Let_def word_less_nat_alt not_less)
  qed (use lim in simp)
qed

text \<open>
  The number of counts for a time is the exact one, rounded down, whenever it fits the
  timer and, with the divider 256, the intermediate product fits 32 bits; otherwise it is 0.
  No time gives a wrong count: the product that wraps, which the guard lets through, gives 0.
\<close>

theorem timer_time_to_count_exact:
  "unat (timer_time_to_count frc us d) =
     (let n = unat us * counter_Hz d div 1000000
      in if d \<le> 2 \<and> n \<le> unat (timer_max_load frc) \<and> \<not> (d = 2 \<and> 2 ^ 32 \<le> unat us * 625) then n else 0)"
proof -
  consider "d > 2" | "d = 0" | "d = 1" | "d = 2"
    by linarith
  then show ?thesis
  proof cases
    case 2
    then show ?thesis
      using counts_MHz [of 80 "timer_max_load frc" us] by (simp add: timer_time_to_count_def Let_def mult.commute)
  next
    case 3
    then show ?thesis
      using counts_MHz [of 5 "timer_max_load frc" us] by (simp add: timer_time_to_count_def Let_def mult.commute)
  next
    case 4
    then show ?thesis
      using counts_256 [of us "timer_max_load frc"] by (simp add: timer_time_to_count_def Let_def not_less)
  qed (simp add: timer_time_to_count_def)
qed

text \<open>Setting a frequency: the count is the quotient, at least 1 and far below the limit of the timer.\<close>

lemma freq_count:
  fixes F freq :: u32
  assumes "0 < unat freq" "unat freq \<le> unat F" "unat F \<le> 312500 * unat freq"
  shows "unat (F div freq) = unat F div unat freq" "0 < F div freq" "unat (F div freq) \<le> 312500"
proof -
  show u: "unat (F div freq) = unat F div unat freq"
    by (simp add: unat_div)
  have "1 \<le> unat F div unat freq"
    using assms(1,2) by (simp add: less_eq_div_iff_mult_less_eq)
  then show "0 < F div freq"
    using u by (simp add: word_less_nat_alt)
  show "unat (F div freq) \<le> 312500"
    unfolding u using div_le_mono [OF assms(3), of "unat freq"] assms(1) by simp
qed

lemma TIMER_FREQS_simps [simp]: "TIMER_FREQS 0 = 80000000" "TIMER_FREQS (Suc 0) = 5000000" "TIMER_FREQS 2 = 312500"
  by (simp_all add: TIMER_FREQS_def)

lemma timer_freq_to_count_div:
  assumes "0 < freq" "freq \<le> 80000000"
  defines "d \<equiv> timer_freq_to_div freq"
  shows "timer_freq_to_count frc freq d = Some (TIMER_FREQS d div freq)"
    and "unat (TIMER_FREQS d div freq) = counter_Hz d div unat freq"
    and "0 < TIMER_FREQS d div freq" "unat (TIMER_FREQS d div freq) \<le> 312500" "d \<le> 2"
proof -
  have f: "0 < unat freq" "unat freq \<le> 80000000"
    using assms(1,2) by (simp_all add: word_less_nat_alt word_le_nat_alt)
  have d: "d = (if unat freq > 100000 then 0 else if unat freq > 100 then 1 else 2)"
    by (simp add: d_def timer_freq_to_div_def word_less_nat_alt)
  have F: "unat freq \<le> unat (TIMER_FREQS d)" "unat (TIMER_FREQS d) \<le> 312500 * unat freq" "unat (TIMER_FREQS d) = counter_Hz d"
    using f by (simp_all add: d)
  show "d \<le> 2"
    by (simp add: d)
  show "unat (TIMER_FREQS d div freq) = counter_Hz d div unat freq"
    and "0 < TIMER_FREQS d div freq" "unat (TIMER_FREQS d div freq) \<le> 312500"
    using freq_count [OF f(1) F(1,2)] F(3) by simp_all
  show "timer_freq_to_count frc freq d = Some (TIMER_FREQS d div freq)"
    using F(1) f(1) by (auto simp: timer_freq_to_count_def word_less_nat_alt d)
qed

lemma timer_set_frequency_ok:
  assumes "0 < freq" "freq \<le> 80000000"
  shows "timer_set_frequency FRC1 freq s =
    Some (0, timer_set_reload FRC1 True (timer_set_load FRC1 (of_nat (counter_Hz (timer_freq_to_div freq) div unat freq))
      (timer_set_divider FRC1 (timer_freq_to_div freq) s)))"
proof -
  note c = timer_freq_to_count_div [OF assms]
  have "of_nat (counter_Hz (timer_freq_to_div freq) div unat freq) = TIMER_FREQS (timer_freq_to_div freq) div freq"
    by (metis c(2) of_nat_unat ucast_id)
  with c show ?thesis
    by (auto simp: timer_set_frequency_def Let_def)
qed

text \<open>
  For every frequency from 1 Hz to 80 MHz timer_set_frequency succeeds on FRC1: it stores
  a divider and a count that fits the timer, the quotient of the frequency of the counter
  and the one asked for, and turns automatic reloading on. Above 80 MHz it is refused without
  an effect, a frequency of 0 divides by zero.
\<close>

theorem timer_set_frequency_FRC1:
  "let d = timer_freq_to_div freq; c = counter_Hz d div unat freq
   in timer_set_frequency FRC1 freq s =
        (if freq = 0 then None
         else if freq > 80000000 then Some (- EINVAL, s)
         else Some (0, timer_set_reload FRC1 True (timer_set_load FRC1 (of_nat c) (timer_set_divider FRC1 d s)))) \<and>
      c \<le> unat (timer_max_load FRC1)"
proof -
  let ?d = "timer_freq_to_div freq"
  consider "freq = 0" | "freq > 80000000" | "0 < freq" "freq \<le> 80000000"
    using word_gt_0 [of freq] by fastforce
  then show ?thesis
  proof cases
    case 2
    then have "?d = 0" "unat freq > 80000000"
      by (simp_all add: timer_freq_to_div_def word_less_nat_alt)
    with 2 show ?thesis
      by (auto simp: timer_set_frequency_def timer_freq_to_count_def)
  next
    case 3
    then show ?thesis
      using timer_freq_to_count_div [OF 3] timer_set_frequency_ok [OF 3]
      by (auto simp: timer_max_load_def Let_def)
  qed (simp add: timer_set_frequency_def timer_freq_to_count_def timer_freq_to_div_def)
qed

end
