(* ===== verification/Pwm.thy ===== *)
theory Pwm
  imports Esp_Board
begin

unbundle bit_operations_syntax

text \<open>
  Pulse width modulation, extras/pwm/pwm.c, on the registers of Esp_Board: the state
  pwmInfo, every function of the interface and the interrupt routine. Shown: the sequence
  of counts and pin levels the interrupts produce, the exactness of the duty cycle from
  5 Hz on and its loss below, where the product of duty and period leaves 32 bits.
\<close>

section \<open>State and operations\<close>

datatype pwm_step_t = PERIOD_ON | PERIOD_OFF

record pwm = board +
  pwm_running :: byte
  pwm_freq :: u16
  dutyCicle :: u16
  maxLoad :: u32
  onLoad :: u32
  offLoad :: u32
  pwm_step :: pwm_step_t
  usedPins :: u16
  pwm_pins :: "byte list"

abbreviation (input) MAX_PWM_PINS :: byte where "MAX_PWM_PINS \<equiv> 8"
abbreviation (input) UINT16_MAX :: u16 where "UINT16_MAX \<equiv> 65535"

definition write_pins :: "bool \<Rightarrow> pwm \<Rightarrow> pwm" where
  "write_pins out s = fold (\<lambda>p. gpio_write (unat p) out) (take (unat (usedPins s)) (pwm_pins s)) s"

definition pwm_interrupt_handler :: "pwm \<Rightarrow> pwm" where
  "pwm_interrupt_handler s =
     (let (out, load, step) = (if pwm_step s = PERIOD_ON then (False, offLoad s, PERIOD_OFF)
                               else (True, onLoad s, PERIOD_ON))
      in (timer_set_load FRC1 load (write_pins out s))\<lparr>pwm_step := step\<rparr>)"

definition pwm_stop :: "pwm \<Rightarrow> pwm" where
  "pwm_stop s = (timer_set_run FRC1 False (timer_set_interrupts FRC1 False s))\<lparr>pwm_running := 0\<rparr>"

definition pwm_start :: "pwm \<Rightarrow> pwm" where
  "pwm_start s =
     (let on = ucast (dutyCicle s) * maxLoad s div 65535;
          s = s\<lparr>onLoad := on, offLoad := maxLoad s - on, pwm_step := PERIOD_ON\<rparr>;
          s = write_pins True s;
          s = timer_set_load FRC1 (onLoad s) s;
          s = timer_set_reload FRC1 False s;
          s = timer_set_interrupts FRC1 True s;
          s = timer_set_run FRC1 True s
      in s\<lparr>pwm_running := 1\<rparr>)"

definition pwm_restart :: "pwm \<Rightarrow> pwm" where
  "pwm_restart s = (if pwm_running s \<noteq> 0 then pwm_start (pwm_stop s) else s)"

text \<open>
  The pins are read from the array of the caller, which has to hold as many as announced;
  the driver keeps eight. A pin number above 16 makes \<^verbatim>\<open>gpio_enable\<close> access registers outside
  its table.
\<close>

fun init_pins :: "byte list \<Rightarrow> nat \<Rightarrow> nat \<Rightarrow> pwm \<Rightarrow> pwm option" where
  "init_pins pins i 0 s = Some s"
| "init_pins pins i (Suc n) s =
     do { p \<leftarrow> read_at pins i;
          ps \<leftarrow> write_at (pwm_pins s) i p;
          if p > 16 then None
          else init_pins pins (i + 1) n (gpio_enable (unat p) GPIO_OUTPUT (s\<lparr>pwm_pins := ps\<rparr>)) }"

definition pwm_init :: "byte \<Rightarrow> byte list \<Rightarrow> pwm \<Rightarrow> pwm option" where
  "pwm_init npins pins s =
     (if npins > MAX_PWM_PINS then Some s
      else do {
        let s = s\<lparr>maxLoad := 0, onLoad := 0, offLoad := 0, pwm_step := PERIOD_ON, usedPins := ucast npins\<rparr>;
        s \<leftarrow> init_pins pins 0 (unat npins) s;
        let s = xt_isr_attach Isr_pwm (pwm_stop s);
        Some (s\<lparr>pwm_running := 0\<rparr>) })"

definition pwm_set_freq :: "u16 \<Rightarrow> pwm \<Rightarrow> pwm option" where
  "pwm_set_freq freq s =
     do { let s = s\<lparr>pwm_freq := freq\<rparr>;
          let s = (if pwm_running s \<noteq> 0 then (pwm_stop s)\<lparr>pwm_running := 1\<rparr> else s);
          (r, s) \<leftarrow> timer_set_frequency FRC1 (ucast freq) s;
          let s = s\<lparr>maxLoad := timer_get_load FRC1 s\<rparr>;
          Some (if pwm_running s \<noteq> 0 then pwm_start s else s) }"

definition pwm_set_duty :: "u16 \<Rightarrow> pwm \<Rightarrow> pwm" where
  "pwm_set_duty duty s =
     (let s = s\<lparr>dutyCicle := duty\<rparr> in
      if duty > 0 \<and> duty < UINT16_MAX then pwm_restart s
      else let s = (pwm_stop s)\<lparr>pwm_running := 1\<rparr> in write_pins (duty = UINT16_MAX) s)"


section \<open>Frames\<close>

lemma rtc_write_twice:
  "(((x :: u32) AND 0xfffffffe OR of_bool a) AND 0xfffffffe) OR of_bool b = (x AND 0xfffffffe) OR of_bool b"
  by (cases a) (simp_all add: bit.conj_disj_distrib2 and.assoc)

lemma rtc_write_bit: "bit (((x :: u32) AND 0xfffffffe) OR of_bool b) 0 \<longleftrightarrow> b"
  by (cases b) (simp_all add: bit_simps)

lemmas rtc_write_bits = rtc_write_bit rtc_write_bit [of _ True, simplified] rtc_write_bit [of _ False, simplified]

lemma fold_gpio_write:
  "fold (\<lambda>p. gpio_write (unat p) out) ps s =
     s\<lparr>gpio_out := (\<lambda>n. if n < 16 \<and> n \<in> unat ` set ps then out else gpio_out s n),
       rtc_GPIO_OUT := (if 16 \<in> unat ` set ps then (rtc_GPIO_OUT s AND 0xfffffffe) OR of_bool out else rtc_GPIO_OUT s)\<rparr>"
  for s :: pwm
proof (induction ps arbitrary: s)
  case (Cons p ps)
  consider "unat p = 16" | "unat p < 16" | "16 < unat p"
    by linarith
  then show ?case
    unfolding fold_simps(2) comp_apply Cons.IH
    by cases (auto simp: gpio_write_def fun_eq_iff rtc_write_twice rtc_write_twice [of _ True True, simplified]
        rtc_write_twice [of _ False False, simplified] intro!: pwm.equality)
qed simp

definition driven :: "pwm \<Rightarrow> nat set" where
  "driven s = unat ` set (take (unat (usedPins s)) (pwm_pins s))"

lemma write_pins_eq:
  "write_pins out s =
     s\<lparr>gpio_out := (\<lambda>n. if n < 16 \<and> n \<in> driven s then out else gpio_out s n),
       rtc_GPIO_OUT := (if 16 \<in> driven s then (rtc_GPIO_OUT s AND 0xfffffffe) OR of_bool out else rtc_GPIO_OUT s)\<rparr>"
  by (simp add: write_pins_def driven_def fold_gpio_write)

text \<open>A pin switched to a push-pull output, and the level it is given.\<close>

definition output_pin :: "'a board_scheme \<Rightarrow> nat \<Rightarrow> bool" where
  "output_pin s p \<longleftrightarrow>
     (if p = 16 then bit (rtc_GPIO_ENABLE s) 0 else gpio_enabled s p \<and> iomux_output s p \<and> \<not> gpio_open_drain s p)"

definition pin_level :: "'a board_scheme \<Rightarrow> nat \<Rightarrow> bool" where
  "pin_level s p = (if p = 16 then bit (rtc_GPIO_OUT s) 0 else gpio_out s p)"

lemma write_pins_level: "p \<in> driven s \<Longrightarrow> p \<le> 16 \<Longrightarrow> pin_level (write_pins out s) p = out"
  by (auto simp: write_pins_eq pin_level_def rtc_write_bit)

lemma gpio_enable_output: "output_pin (gpio_enable p GPIO_OUTPUT s) q \<longleftrightarrow> q = p \<or> output_pin s q"
  using rtc_write_bit [of "rtc_GPIO_OUT s" True]
  by (auto simp: output_pin_def iomux_set_gpio_function_def rtc_gpio_enable_def)

lemma init_pins_ok:
  assumes "i + n \<le> length pins" "i + n \<le> length (pwm_pins s)" "take i (pwm_pins s) = take i pins"
    and "\<forall>p\<in>set (take n (drop i pins)). p \<le> 16"
  shows "\<exists>s'. init_pins pins i n s = Some s' \<and> take (i + n) (pwm_pins s') = take (i + n) pins \<and>
    length (pwm_pins s') = length (pwm_pins s) \<and> usedPins s' = usedPins s \<and>
    (\<forall>p. output_pin s p \<or> p \<in> unat ` set (take n (drop i pins)) \<longrightarrow> output_pin s' p)"
  using assms
proof (induction n arbitrary: i s)
  case (Suc n)
  let ?p = "pins ! i"
  let ?s = "gpio_enable (unat ?p) GPIO_OUTPUT (s\<lparr>pwm_pins := (pwm_pins s)[i := ?p]\<rparr>)"
  have a: "read_at pins i = Some ?p" "write_at (pwm_pins s) i ?p = Some ((pwm_pins s)[i := ?p])"
    using Suc.prems by (simp_all add: read_at_def write_at_def)
  have t: "take (Suc i) ((pwm_pins s)[i := ?p]) = take (Suc i) pins"
    using Suc.prems by (simp add: take_Suc_conv_app_nth)
  have d: "take (Suc n) (drop i pins) = ?p # take n (drop (Suc i) pins)"
    using Suc.prems by (simp add: Cons_nth_drop_Suc [symmetric])
  have s: "pwm_pins ?s = (pwm_pins s)[i := ?p]" "usedPins ?s = usedPins s"
    by (simp_all add: iomux_set_gpio_function_def rtc_gpio_enable_def)
  have le: "\<not> 16 < ?p" "\<forall>p\<in>set (take n (drop (Suc i) pins)). p \<le> 16"
    using Suc.prems(4) d by (simp_all add: not_less)
  have o: "output_pin ?s q \<longleftrightarrow> q = unat ?p \<or> output_pin s q" for q
    unfolding gpio_enable_output by (simp add: output_pin_def)
  obtain s' where "init_pins pins (Suc i) n ?s = Some s'" "take (Suc i + n) (pwm_pins s') = take (Suc i + n) pins"
    "length (pwm_pins s') = length (pwm_pins ?s)" "usedPins s' = usedPins ?s"
    "\<forall>p. output_pin ?s p \<or> p \<in> unat ` set (take n (drop (Suc i) pins)) \<longrightarrow> output_pin s' p"
    using Suc.IH [of "Suc i" ?s] Suc.prems t s le(2) by auto
  then show ?case
    using a d s o le(1) by (intro exI [of _ s']) (auto simp del: gpio_enable.simps)
qed (simp add: exI [of _ s])


section \<open>The waveform\<close>

lemma pwm_handler_fields [simp]:
  "driven (pwm_interrupt_handler s) = driven s" "onLoad (pwm_interrupt_handler s) = onLoad s"
  "offLoad (pwm_interrupt_handler s) = offLoad s" "frc1_isr (pwm_interrupt_handler s) = frc1_isr s"
  "output_pin (pwm_interrupt_handler s) = output_pin s" "frc1_fires (pwm_interrupt_handler s) = frc1_fires s"
  by (auto simp: pwm_interrupt_handler_def write_pins_eq timer_set_load_def driven_def output_pin_def
      frc1_fires_def timer_get_run_def fun_eq_iff split: if_splits)

text \<open>State of the driver in the phase \<open>on\<close> or \<open>off\<close> of a period.\<close>

definition in_phase :: "bool \<Rightarrow> pwm \<Rightarrow> bool" where
  "in_phase on s \<longleftrightarrow> pwm_step s = (if on then PERIOD_ON else PERIOD_OFF) \<and>
     timer_get_load FRC1 s = (if on then onLoad s else offLoad s) \<and> (\<forall>p\<in>driven s. p \<le> 16 \<and> pin_level s p = on)"

lemma handler_phase: "in_phase on s \<Longrightarrow> in_phase (\<not> on) (pwm_interrupt_handler s)"
  by (auto simp: in_phase_def pwm_interrupt_handler_def write_pins_eq timer_set_load_def timer_get_load_def driven_def
      pin_level_def rtc_write_bits split: if_splits)

lemma handler_phases:
  "in_phase True s \<Longrightarrow> in_phase (even n) ((pwm_interrupt_handler ^^ n) s)"
  by (induction n) (use handler_phase in force)+

lemma handler_fields_n:
  "driven ((pwm_interrupt_handler ^^ n) s) = driven s \<and> onLoad ((pwm_interrupt_handler ^^ n) s) = onLoad s \<and>
   offLoad ((pwm_interrupt_handler ^^ n) s) = offLoad s \<and> frc1_isr ((pwm_interrupt_handler ^^ n) s) = frc1_isr s \<and>
   output_pin ((pwm_interrupt_handler ^^ n) s) = output_pin s \<and> frc1_fires ((pwm_interrupt_handler ^^ n) s) = frc1_fires s"
  by (induction n) auto

lemmas timer_defs = timer_set_load_def timer_set_reload_def timer_set_interrupts_def timer_set_run_def
  timer_set_divider_def set_CTRL_def timer_get_load_def

lemma frc1_fires_running [simp]: "frc1_fires (s\<lparr>pwm_running := r\<rparr>) = frc1_fires s"
  by (simp add: frc1_fires_def timer_get_run_def)

lemma frc1_fires_start: "frc1_fires (timer_set_run FRC1 True (timer_set_interrupts FRC1 True s))"
  by (simp add: frc1_fires_def)

lemma pwm_start_phase:
  "\<forall>p\<in>driven s. p \<le> 16 \<Longrightarrow> in_phase True (pwm_start s)" "frc1_fires (pwm_start s)" "driven (pwm_start s) = driven s"
  "frc1_isr (pwm_start s) = frc1_isr s" "output_pin (pwm_start s) = output_pin s"
  "onLoad (pwm_start s) = ucast (dutyCicle s) * maxLoad s div 65535"
  "offLoad (pwm_start s) = maxLoad s - ucast (dutyCicle s) * maxLoad s div 65535"
  by (simp_all add: pwm_start_def Let_def frc1_fires_start)
    (auto simp: write_pins_eq timer_defs in_phase_def driven_def output_pin_def pin_level_def rtc_write_bits le_less fun_eq_iff)

lemma pwm_stop_fields:
  "driven (pwm_stop s) = driven s" "frc1_isr (pwm_stop s) = frc1_isr s" "output_pin (pwm_stop s) = output_pin s"
  "dutyCicle (pwm_stop s) = dutyCicle s" "maxLoad (pwm_stop s) = maxLoad s" "pwm_running (pwm_stop s) = 0"
  "usedPins (pwm_stop s) = usedPins s" "pwm_pins (pwm_stop s) = pwm_pins s"
  by (simp_all add: pwm_stop_def timer_defs driven_def output_pin_def fun_eq_iff)

lemma pwm_init_ok:
  assumes "length (pwm_pins s) = 8" "npins \<le> 8" "unat npins \<le> length pins" "\<forall>p\<in>set (take (unat npins) pins). p \<le> 16"
  shows "\<exists>s'. pwm_init npins pins s = Some s' \<and> pwm_running s' = 0 \<and> frc1_isr s' = Some Isr_pwm \<and>
    driven s' = unat ` set (take (unat npins) pins) \<and> (\<forall>p\<in>driven s'. output_pin s' p)"
proof -
  let ?s = "s\<lparr>maxLoad := 0, onLoad := 0, offLoad := 0, pwm_step := PERIOD_ON, usedPins := ucast npins\<rparr>"
  have n: "unat npins \<le> 8"
    using assms(2) by (simp add: word_le_nat_alt)
  have u: "unat (ucast npins :: u16) = unat npins"
    using n by (simp add: unsigned_ucast_eq take_bit_nat_eq_self)
  obtain s' where "init_pins pins 0 (unat npins) ?s = Some s'" "take (unat npins) (pwm_pins s') = take (unat npins) pins"
    "usedPins s' = ucast npins" "\<forall>p. p \<in> unat ` set (take (unat npins) pins) \<longrightarrow> output_pin s' p"
    using init_pins_ok [of 0 "unat npins" pins ?s] assms n by auto
  then show ?thesis
    using assms(2) u
    by (intro exI [of _ "(xt_isr_attach Isr_pwm (pwm_stop s'))\<lparr>pwm_running := 0\<rparr>"])
      (auto simp: pwm_init_def Let_def not_less xt_isr_attach_def pwm_stop_def timer_defs driven_def output_pin_def)
qed

text \<open>Counts of a period for a frequency.\<close>

definition period :: "u16 \<Rightarrow> nat" where
  "period f = counter_Hz (timer_freq_to_div (ucast f)) div unat f"

lemma unat_u16_less: "unat (w :: u16) < 2 ^ 16"
  using unsigned_less [of w] by simp

lemma ucast_u16: "unat (ucast f :: u32) = unat f" for f :: u16
proof -
  have "unat f < 2 ^ 32"
    using unat_u16_less [of f] by simp
  then show ?thesis
    by (simp add: unsigned_ucast_eq take_bit_nat_eq_self)
qed

lemma period_le: "0 < f \<Longrightarrow> period f \<le> 312500"
proof -
  assume "0 < f"
  then have "(0 :: u32) < ucast f" "(ucast f :: u32) \<le> 80000000"
    using unat_u16_less [of f] by (simp_all add: word_less_nat_alt word_le_nat_alt ucast_u16)
  from timer_freq_to_count_div [OF this] show ?thesis
    by (simp add: period_def ucast_u16)
qed

lemma pwm_set_freq_stopped:
  assumes "pwm_running s = 0" "0 < f"
  shows "\<exists>s'. pwm_set_freq f s = Some s' \<and> pwm_running s' = 0 \<and> maxLoad s' = of_nat (period f) \<and>
    frc1_isr s' = frc1_isr s \<and> driven s' = driven s \<and> output_pin s' = output_pin s"
proof -
  have "(0 :: u32) < ucast f" "\<not> (ucast f :: u32) > 80000000"
    using assms(2) unat_u16_less [of f] by (simp_all add: word_less_nat_alt word_le_nat_alt ucast_u16)
  then show ?thesis
    using timer_set_frequency_ok [of "ucast f" "s\<lparr>pwm_freq := f\<rparr>"] assms(1)
    by (auto simp: pwm_set_freq_def period_def ucast_u16 Let_def timer_defs driven_def output_pin_def fun_eq_iff)
qed

lemma on_counts:
  fixes d :: u16
  assumes "m \<le> 312500"
  shows "unat (ucast d * of_nat m div 65535 :: u32) = (unat d * m mod 2 ^ 32) div 65535"
proof -
  have "unat (of_nat m :: u32) = m"
    using assms by (simp add: unat_of_nat take_bit_nat_eq_self)
  then show ?thesis
    by (simp add: unat_div unat_word_ariths ucast_u16)
qed

lemma on_exact: "5 \<le> unat f \<Longrightarrow> (unat d * period f mod 2 ^ 32) div 65535 = unat d * period f div 65535" for d :: u16
proof -
  assume f: "5 \<le> unat f"
  have "counter_Hz (timer_freq_to_div (ucast f)) \<le> 62500 * unat f"
    using f by (auto simp: timer_freq_to_div_def word_less_nat_alt ucast_u16)
  then have "period f \<le> 62500"
    using f div_le_mono [of "counter_Hz (timer_freq_to_div (ucast f))" "62500 * unat f" "unat f"] by (simp add: period_def)
  then have "unat d * period f \<le> 65535 * 62500"
    using unat_u16_less [of d] by (intro mult_le_mono) simp_all
  then show ?thesis
    by simp
qed

lemma on_le: "(unat d * m mod 2 ^ 32) div 65535 \<le> m" for d :: u16
proof -
  have "unat d * m mod 2 ^ 32 \<le> 65535 * m"
    using unat_u16_less [of d] by (intro order_trans [OF mod_less_eq_dividend] mult_le_mono) simp_all
  then have "(unat d * m mod 2 ^ 32) div 65535 \<le> 65535 * m div 65535"
    by (rule div_le_mono)
  then show ?thesis
    by simp
qed

text \<open>
  C37: after initialisation with up to eight pins, each one of the pins 0 to 16 (numbers above
  access registers outside their table), a frequency and a duty between the
  extremes, the interrupts alternate between the two phases of the period for ever: the pins
  are driven high for the on count and pulled low for the rest of the period. The on count
  is the product of duty and period, taken modulo 2 to the 32, over 65535: the exact share
  from 5 Hz on, never more than the period, but not the share asked for below 5 Hz when the
  product wraps.
\<close>

theorem pwm_waveform:
  assumes "length (pwm_pins s) = 8" "npins \<le> 8" "unat npins \<le> length pins" "0 < f" "0 < d" "d < 65535"
    and "\<forall>p\<in>set (take (unat npins) pins). p \<le> 16"
  shows "\<exists>s1 s2. pwm_init npins pins s = Some s1 \<and> pwm_set_freq f s1 = Some s2 \<and>
    (let t = (pwm_interrupt_handler ^^ n) (pwm_start (pwm_set_duty d s2));
         on = (unat d * period f mod 2 ^ 32) div 65535
     in frc1_fires t \<and> frc1_isr t = Some Isr_pwm \<and>
        unat (timer_get_load FRC1 t) = (if even n then on else period f - on) \<and> on \<le> period f \<and>
        (\<forall>p\<in>unat ` set (take (unat npins) pins). drives_high p t = even n \<and> pulls_low p t = odd n) \<and>
        (5 \<le> unat f \<longrightarrow> on = unat d * period f div 65535))"
proof -
  obtain s1 where s1: "pwm_init npins pins s = Some s1" "pwm_running s1 = 0" "frc1_isr s1 = Some Isr_pwm"
    "driven s1 = unat ` set (take (unat npins) pins)" "\<forall>p\<in>driven s1. output_pin s1 p"
    using pwm_init_ok [OF assms(1-3,7)] by blast
  obtain s2 where s2: "pwm_set_freq f s1 = Some s2" "pwm_running s2 = 0" "maxLoad s2 = of_nat (period f)"
    "frc1_isr s2 = frc1_isr s1" "driven s2 = driven s1" "output_pin s2 = output_pin s1"
    using pwm_set_freq_stopped [OF s1(2) assms(4)] by blast
  have duty: "pwm_set_duty d s2 = s2\<lparr>dutyCicle := d\<rparr>"
    using assms(5,6) s2(2) by (simp add: pwm_set_duty_def pwm_restart_def)
  let ?s = "s2\<lparr>dutyCicle := d\<rparr>"
  have frame: "driven ?s = driven s2" "output_pin ?s = output_pin s2" "frc1_isr ?s = frc1_isr s2"
    by (simp_all add: driven_def output_pin_def fun_eq_iff)
  have "\<forall>p\<in>driven ?s. p \<le> 16"
    using frame(1) s2(5) s1(4) assms(7) by (auto simp: word_le_nat_alt)
  note start = pwm_start_phase(1) [OF this]
  let ?t = "(pwm_interrupt_handler ^^ n) (pwm_start ?s)"
  let ?on = "(unat d * period f mod 2 ^ 32) div 65535"
  note m = period_le [OF assms(4)]
  have mw: "unat (of_nat (period f) :: u32) = period f"
    using m by (simp add: unat_of_nat take_bit_nat_eq_self)
  have fields: "frc1_fires ?t" "frc1_isr ?t = Some Isr_pwm" "driven ?t = unat ` set (take (unat npins) pins)"
    "\<forall>p\<in>driven ?t. output_pin ?t p" "in_phase (even n) ?t"
    using handler_fields_n [of n "pwm_start ?s"] pwm_start_phase(2-5) [of ?s] s1(3-5) s2(4-6) handler_phases [OF start, of n] frame
    by simp_all
  have on: "unat (onLoad ?t) = ?on"
    using handler_fields_n [of n "pwm_start ?s"] pwm_start_phase(6) [of ?s] s2(3) on_counts [OF m] by simp
  have off: "unat (offLoad ?t) = period f - ?on"
    using handler_fields_n [of n "pwm_start ?s"] pwm_start_phase(7) [of ?s] s2(3) on_counts [OF m] mw on_le [of d "period f"]
    by (simp add: unat_sub word_le_nat_alt)
  have levels: "drives_high p t = even n \<and> pulls_low p t = odd n"
    if "in_phase (even n) t" "\<forall>p\<in>driven t. output_pin t p" "p \<in> driven t" for p t
    using that by (auto simp: in_phase_def drives_high_def pulls_low_def output_pin_def pin_level_def split: if_splits)
  have "\<forall>p\<in>unat ` set (take (unat npins) pins). drives_high p ?t = even n \<and> pulls_low p ?t = odd n"
    using levels [OF fields(5,4)] fields(3) by simp
  moreover have "unat (timer_get_load FRC1 ?t) = (if even n then ?on else period f - ?on)"
    using fields(5) on off by (simp add: in_phase_def)
  ultimately show ?thesis
    unfolding Let_def
    using s1(1) s2(1) fields(1,2) on_le [of d "period f"] on_exact [of f d] duty
    by (intro exI [of _ s1] exI [of _ s2]) metis
qed

text \<open>Two pins at 1 kHz and half duty, third interrupt.\<close>

definition pwm_reset :: pwm where
  "pwm_reset = \<lparr>gpio_enabled = (\<lambda>_. False), gpio_open_drain = (\<lambda>_. False), gpio_out = (\<lambda>_. False),
     iomux_output = (\<lambda>_. False), iomux_output_sleep = (\<lambda>_. False), iomux_gpio = (\<lambda>_. False),
     iomux_pullup = (\<lambda>_. False), iomux_pullup_sleep = (\<lambda>_. False), iomux_pulldown = (\<lambda>_. False),
     iomux_pulldown_sleep = (\<lambda>_. False), rtc_GPIO_OUT = 0, rtc_GPIO_ENABLE = 0, rtc_GPIO_CONF = 0, rtc_GPIO_CFG3 = 0, timer_LOAD = (\<lambda>_. 0), timer_COUNT = (\<lambda>_. 0), timer_CTRL = (\<lambda>_. 0),
     timer_ALARM = (\<lambda>_. 0), timer_int_enabled = (\<lambda>_. False), frc1_isr = None,
     pwm_running = 0, pwm_freq = 0, dutyCicle = 0, maxLoad = 0, onLoad = 0, offLoad = 0, pwm_step = PERIOD_ON,
     usedPins = 0, pwm_pins = replicate 8 0\<rparr>"

theorem pwm_waveform_witness:
  "\<exists>s1 s2. pwm_init 2 [14, 16] pwm_reset = Some s1 \<and> pwm_set_freq 1000 s1 = Some s2 \<and>
    (let t = (pwm_interrupt_handler ^^ 3) (pwm_start (pwm_set_duty 32768 s2))
     in frc1_fires t \<and> unat (timer_get_load FRC1 t) = 2500 \<and> pulls_low 14 t \<and> pulls_low 16 t)"
proof -
  have p: "period 1000 = 5000"
    by (simp add: period_def timer_freq_to_div_def word_less_nat_alt)
  show ?thesis
    using pwm_waveform [of pwm_reset 2 "[14, 16]" 1000 32768 3] by (auto simp: pwm_reset_def Let_def p)
qed

end
