(* ===== verification/Onewire_Crc.thy ===== *)
theory Onewire_Crc
  imports Prelude
begin

unbundle bit_operations_syntax

text \<open>
  The checksum of the one-wire bus, extras/crc/crc.c: a table driven 8-bit CRC. The table
  is shown to be the eightfold step of the shift register the bus protocol defines
  (polynomial x^8 + x^5 + x^4 + 1, least significant bit first), the routine is shown to
  compute that register over a block of bytes, and the detection of errors inside one byte
  is derived from it.
\<close>

section \<open>The routine\<close>

definition dscrc_table :: "byte list" where
  "dscrc_table = [
      0, 94,188,226, 97, 63,221,131,194,156,126, 32,163,253, 31, 65,
    157,195, 33,127,252,162, 64, 30, 95,  1,227,189, 62, 96,130,220,
     35,125,159,193, 66, 28,254,160,225,191, 93,  3,128,222, 60, 98,
    190,224,  2, 92,223,129, 99, 61,124, 34,192,158, 29, 67,161,255,
     70, 24,250,164, 39,121,155,197,132,218, 56,102,229,187, 89,  7,
    219,133,103, 57,186,228,  6, 88, 25, 71,165,251,120, 38,196,154,
    101, 59,217,135,  4, 90,184,230,167,249, 27, 69,198,152,122, 36,
    248,166, 68, 26,153,199, 37,123, 58,100,134,216, 91,  5,231,185,
    140,210, 48,110,237,179, 81, 15, 78, 16,242,172, 47,113,147,205,
     17, 79,173,243,112, 46,204,146,211,141,111, 49,178,236, 14, 80,
    175,241, 19, 77,206,144,114, 44,109, 51,209,143, 12, 82,176,238,
     50,108,142,208, 83, 13,239,177,240,174, 76, 18,145,207, 45,115,
    202,148,118, 40,171,245, 23, 73,  8, 86,180,234,105, 55,213,139,
     87,  9,235,181, 54,104,138,212,149,203, 41,119,244,170, 72, 22,
    233,183, 85, 11,136,214, 52,106, 43,117,151,201, 74, 20,246,168,
    116, 42,200,150, 21, 75,169,247,182,232, 10, 84,215,137,107, 53]"

text \<open>The loop of onewire_crc8: \<open>p\<close> is the pointer, \<open>len\<close> the counter.\<close>

fun crc8_loop :: "byte list \<Rightarrow> nat \<Rightarrow> nat \<Rightarrow> byte \<Rightarrow> byte option" where
  "crc8_loop buf p 0 crc = Some crc"
| "crc8_loop buf p (Suc len) crc =
     do { b \<leftarrow> read_at buf p;
          c \<leftarrow> read_at dscrc_table (unat (crc XOR b));
          crc8_loop buf (p + 1) len c }"

definition onewire_crc8 :: "byte list \<Rightarrow> byte \<Rightarrow> byte option" where
  "onewire_crc8 buf len = crc8_loop buf 0 (unat len) 0"


section \<open>The shift register\<close>

text \<open>
  One step takes in a bit: the bit shifted out decides whether the feedback taps are
  inverted. The register takes in the bits of a byte least significant bit first.
\<close>

definition register_step :: "byte \<Rightarrow> bool \<Rightarrow> byte" where
  "register_step r b = (if bit r 0 \<noteq> b then drop_bit 1 r XOR 0x8C else drop_bit 1 r)"

definition bits_of :: "byte \<Rightarrow> bool list" where
  "bits_of w = map (bit w) [0..<8]"

definition register_of :: "byte list \<Rightarrow> byte" where
  "register_of bs = foldl register_step 0 (concat (map bits_of bs))"

lemma bits_of_expand:
  "bits_of w = [bit w 0, bit w 1, bit w 2, bit w 3, bit w 4, bit w 5, bit w 6, bit w 7]"
  by (simp add: bits_of_def upt_rec numeral_eq_Suc)

text \<open>The register with zeros fed in, eight times; it is linear.\<close>

definition shift8 :: "byte \<Rightarrow> byte" where
  "shift8 r = ((\<lambda>c. register_step c False) ^^ 8) r"

lemma register_step_linear: "register_step (a XOR b) False = register_step a False XOR register_step b False"
  by (rule bit_word_eqI) (auto simp: register_step_def bit_simps)

lemma funpow_linear:
  fixes f :: "byte \<Rightarrow> byte"
  assumes "\<And>a b. f (a XOR b) = f a XOR f b"
  shows "(f ^^ n) (a XOR b) = (f ^^ n) a XOR (f ^^ n) b"
  by (induction n) (simp_all add: assms)

lemma shift8_linear: "shift8 (a XOR b) = shift8 a XOR shift8 b"
  unfolding shift8_def by (rule funpow_linear) (rule register_step_linear)

lemma of_nat_add_XOR:
  assumes "i < 2 ^ k"
  shows "(of_nat (i + 2 ^ k) :: byte) = 2 ^ k XOR of_nat i"
proof -
  have "\<not> bit i k"
    using assms by (simp add: bit_iff_odd)
  then have "(2 ^ k :: nat) AND i = 0"
    by (intro bit_eqI) (auto simp: bit_simps)
  then have "i + 2 ^ k = (2 ^ k XOR i :: nat)"
    by (subst add.commute) (simp add: disjunctive_add_eq_xor)
  then show ?thesis
    by (simp add: of_nat_xor_eq)
qed

text \<open>Doubling the table: the second half is the first one with the image of the next bit added.\<close>

fun doubled :: "byte list \<Rightarrow> byte list" where
  "doubled [] = [0]"
| "doubled (p # ps) = (let xs = doubled ps in xs @ map (\<lambda>x. shift8 p XOR x) xs)"

lemma shift8_table_double:
  "map (\<lambda>i. shift8 (of_nat i)) [0..<2 ^ Suc k] =
   (let xs = map (\<lambda>i. shift8 (of_nat i)) [0..<2 ^ k] in xs @ map (\<lambda>x. shift8 (2 ^ k) XOR x) xs)"
proof -
  have "(2 ^ Suc k :: nat) = 2 ^ k + 2 ^ k"
    by simp
  then have "[0..<2 ^ Suc k] = [0..<2 ^ k] @ map (\<lambda>i. i + 2 ^ k) [0..<2 ^ k]"
    using upt_add_eq_append [of 0 "2 ^ k" "2 ^ k"] map_add_upt [of "2 ^ k" "2 ^ k"] by (simp only: le0 add_0)
  then show ?thesis
    by (simp add: Let_def of_nat_add_XOR shift8_linear [symmetric] del: of_nat_add cong: map_cong)
qed

lemma shift8_powers:
  "shift8 0 = 0" "shift8 1 = 94" "shift8 2 = 188" "shift8 4 = 97" "shift8 8 = 194"
  "shift8 16 = 157" "shift8 32 = 35" "shift8 64 = 70" "shift8 128 = 140"
  by code_simp+

lemma doubled_table: "doubled (map (\<lambda>i. 2 ^ i) (rev [0..<k])) = map (\<lambda>i. shift8 (of_nat i)) [0..<2 ^ k]"
  by (induction k) (simp_all only: shift8_table_double, simp_all add: shift8_powers)

lemma dscrc_table_doubled: "doubled [128, 64, 32, 16, 8, 4, 2, 1] = dscrc_table"
  unfolding dscrc_table_def by (simp add: shift8_powers)

lemma dscrc_table_shift: "dscrc_table = map (\<lambda>i. shift8 (of_nat i)) [0..<256]"
proof -
  have "map (\<lambda>i. 2 ^ i) (rev [0..<8]) = [128 :: byte, 64, 32, 16, 8, 4, 2, 1]"
    by code_simp
  then show ?thesis
    using doubled_table [of 8] by (simp add: dscrc_table_doubled del: doubled.simps)
qed

lemma read_dscrc_table: "read_at dscrc_table (unat w) = Some (shift8 w)"
  by (simp add: read_at_def dscrc_table_shift unat_byte_less)


section \<open>Table and register\<close>

text \<open>Taking in the bits of a byte is adding the byte to the register and shifting it out.\<close>

lemma register_step_absorb:
  "register_step (r XOR b) False = register_step r (bit b 0) XOR drop_bit 1 b"
  by (rule bit_word_eqI) (auto simp: register_step_def bit_simps)

lemma register_absorb:
  "((\<lambda>c. register_step c False) ^^ n) (r XOR b) = foldl register_step r (map (bit b) [0..<n]) XOR drop_bit n b"
proof (induction n)
  case (Suc n)
  then show ?case
    using register_step_absorb [of "foldl register_step r (map (bit b) [0..<n])" "drop_bit n b"]
    by (simp add: bit_drop_bit_eq drop_bit_drop_bit)
qed simp

lemma register_byte: "foldl register_step r (bits_of b) = shift8 (r XOR b)"
proof -
  have "drop_bit 8 b = 0"
    by (rule bit_word_eqI) (simp add: bit_simps bit_imp_le_length)
  then show ?thesis
    using register_absorb [of 8 r b] by (simp add: shift8_def bits_of_def)
qed

lemma crc8_loop_register:
  "crc8_loop buf p len c = (if p + len \<le> length buf
     then Some (foldl register_step c (concat (map bits_of (take len (drop p buf))))) else None)"
    if "p \<le> length buf"
  using that
proof (induction len arbitrary: p c)
  case (Suc len)
  show ?case
  proof (cases "p < length buf")
    case True
    then have "take (Suc len) (drop p buf) = buf ! p # take len (drop (Suc p) buf)"
      by (simp add: Cons_nth_drop_Suc [symmetric])
    with True Suc.IH [of "Suc p" "shift8 (c XOR buf ! p)"] show ?thesis
      by (simp add: read_at_def [of buf] read_dscrc_table register_byte)
  qed (use Suc.prems in \<open>simp add: read_at_def\<close>)
qed simp

text \<open>
  C29: the table driven routine computes the shift register of the bus protocol over the
  bits of the block, least significant bit of each byte first, for every block and every
  length it holds; asked for more bytes than the block has it reads outside the block.
\<close>

theorem onewire_crc8_register:
  "onewire_crc8 buf len =
     (if unat len \<le> length buf then Some (register_of (take (unat len) buf)) else None)"
  unfolding onewire_crc8_def register_of_def using crc8_loop_register [of 0 buf "unat len" 0] by simp


section \<open>Detection of errors\<close>

lemma xor_left_cancel: "x XOR a = x XOR b \<longleftrightarrow> a = b" for x :: byte
proof
  assume "x XOR a = x XOR b"
  then have "x XOR (x XOR a) = x XOR (x XOR b)"
    by simp
  then show "a = b"
    by (simp add: xor.assoc [symmetric])
qed simp

lemma bit_register_step_7: "bit (register_step r b) 7 \<longleftrightarrow> bit r 0 \<noteq> b"
proof -
  have "bit (0x8C :: byte) 7" "\<not> bit r 8"
    using bit_imp_le_length [of r 8] by auto
  then show ?thesis
    by (auto simp: register_step_def bit_simps)
qed

lemma register_step_inject: "register_step r b = register_step s b \<longleftrightarrow> r = s"
proof
  assume eq: "register_step r b = register_step s b"
  then have z: "bit r 0 \<longleftrightarrow> bit s 0"
    using bit_register_step_7 [of r b] bit_register_step_7 [of s b] by auto
  have "drop_bit 1 r = drop_bit 1 s"
    using eq z by (auto simp: register_step_def xor.commute [of _ 140] xor_left_cancel split: if_splits)
  then have "bit r (Suc n) \<longleftrightarrow> bit s (Suc n)" for n
    by (metis bit_drop_bit_eq comp_apply plus_1_eq_Suc)
  with z show "r = s"
    by (intro bit_word_eqI) (metis not0_implies_Suc)
qed simp

lemma foldl_register_inject: "foldl register_step r bs = foldl register_step s bs \<longleftrightarrow> r = s"
  by (induction bs arbitrary: r s) (simp_all add: register_step_inject)

lemma shift8_inject: "shift8 a = shift8 b \<longleftrightarrow> a = b"
  using foldl_register_inject [of a "bits_of 0" b] by (simp add: register_byte)

lemma register_of_one_byte: "register_of (pre @ a # post) = register_of (pre @ b # post) \<longleftrightarrow> a = b"
  by (simp add: register_of_def foldl_register_inject register_byte shift8_inject xor_left_cancel)

text \<open>
  Interface: a checksum that tells blocks apart which differ in one byte. A block followed by
  its checksum stops being valid when any one of its bytes, the checksum included, changes.
\<close>

locale byte_checksum =
  fixes checksum :: "byte list \<Rightarrow> byte"
  assumes checksum_one_byte: "checksum (pre @ a # post) = checksum (pre @ b # post) \<longleftrightarrow> a = b"
begin

lemma one_byte_error:
  assumes "checksum (butlast bs) = last bs" "i < length bs" "c \<noteq> bs ! i"
  shows "checksum (butlast (bs[i := c])) \<noteq> last (bs[i := c])"
proof (cases "i = length bs - 1")
  case True
  then have "bs[i := c] = butlast bs @ [c]"
    using assms(2) by (metis last_list_update list_update_length append_butlast_last_id length_butlast list.size(3) not_less_zero)
  moreover have "bs \<noteq> []"
    using assms(2) by auto
  ultimately show ?thesis
    using assms True by (simp add: last_conv_nth)
next
  case False
  then have i: "i < length (butlast bs)" "bs \<noteq> []"
    using assms(2) by auto
  have "butlast (bs[i := c]) = (butlast bs)[i := c]" "last (bs[i := c]) = last bs"
    using False i(2) butlast_list_update [of bs i c] last_list_update [of bs i c] by auto
  then have "butlast (bs[i := c]) = take i (butlast bs) @ c # drop (Suc i) (butlast bs)" "last (bs[i := c]) = last bs"
    using upd_conv_take_nth_drop [OF i(1)] by auto
  moreover have "butlast bs = take i (butlast bs) @ bs ! i # drop (Suc i) (butlast bs)"
    using id_take_nth_drop [OF i(1)] i(1) by (simp add: nth_butlast)
  ultimately show ?thesis
    using assms(1,3) checksum_one_byte [of "take i (butlast bs)" c "drop (Suc i) (butlast bs)" "bs ! i"] by metis
qed

end

interpretation crc8: byte_checksum register_of
  by unfold_locales (rule register_of_one_byte)

end
