(* ===== verification/Onewire.thy ===== *)
theory Onewire
  imports Onewire_Crc Esp_Board
begin

unbundle bit_operations_syntax

text \<open>
  The one-wire temperature sensor driver: extras/onewire/onewire.c with the sequences of
  extras/onewire/maxim28.h, and the 10 microsecond interrupt it runs in,
  extras/hw_timer/hw_timer.c. Three parties share the driver state: the interrupt, which
  runs the reset, read and write state machines; the task that starts the sequences; the
  application, which asks for a reading. \<open>ow_step\<close> interleaves them.

  The history of the bus records what the chip does to the line: the time between two
  interrupts, busy waiting inside one, and every sample taken, each with the level involved.
  What the pin reads when the chip does not pull the line low is a function of that
  history, a parameter of the model. Messages on the console are left out.
\<close>

section \<open>State\<close>

datatype bus_event =
    Tick bool           \<comment> \<open>one timer period; whether the chip pulls the line low\<close>
  | Delay_us nat bool   \<comment> \<open>busy waiting inside the interrupt\<close>
  | Sample bool         \<comment> \<open>the pin is read, with this result\<close>

record ow_env =
  TEMP_SENSOR_PIN :: "4 word"
  pin_in :: "bus_event list \<Rightarrow> bool"
  ow_malloc_ok :: "bus_event list \<Rightarrow> bool"

text \<open>The pin is a build setting, one of the pins 0 to 15 of the i/o multiplexer.\<close>

abbreviation ow_pin :: "ow_env \<Rightarrow> nat" where
  "ow_pin env \<equiv> unat (TEMP_SENSOR_PIN env)"

datatype HW_TIMER_STATE_T = HW_TIMER_DISABLED | HW_TIMER_INIT | HW_TIMER_READY | HW_TIMER_ACTIVE | HW_TIMER_STOPPED

record hw_timer = board +
  hw_timer_state :: HW_TIMER_STATE_T
  ow_hw_running :: byte
  ow_hw_maxLoad :: u32
  ow_hw_onLoad :: u32
  ow_hw_offLoad :: u32
  ow_hw_step :: int
  hw_loadval :: u32

text \<open>The functions that are stored in the field callback.\<close>

datatype OW_cb_t = Read_uuid_done_cb | Conv_t_done_cb | Read_temp_done_cb

record Temperature =
  temp_sign :: byte
  temp_val :: u16
  temp_fract :: u16
  temp_available :: byte

text \<open>
  The task is at the head of its loop or in one of the two waits that are followed by the
  start of a sequence.
\<close>

datatype task_pc = Task_loop | Task_wait byte

record onewire = hw_timer +
  seq_arr :: "byte list option"
  arg_arr :: "byte list option"
  seq_len :: byte
  seq_state :: byte
  seq_pos :: byte
  ow_error :: byte
  op_type :: byte
  cur_op :: byte
  delay_count :: byte
  spad_buf :: "byte list"
  UUID :: "byte list"
  have_uuid :: byte
  ow_state :: byte
  ow_callback :: "OW_cb_t option"
  ow_task_arg :: byte
  latest_temp :: Temperature
  prev_temp :: Temperature
  pub_queue :: bool
  queue_sends :: "byte list list"
  rd_bitMask :: byte
  rd_sample :: bool
  rd_readsLeft :: byte
  rd_readCount :: byte
  rd_data :: byte
  wr_bitMask :: byte
  wr_data :: byte
  task_at :: task_pc
  hist :: "bus_event list"

abbreviation (input) OW_SEQ_STATE_INVALID :: byte where "OW_SEQ_STATE_INVALID \<equiv> 0"
abbreviation (input) OW_SEQ_STATE_INIT :: byte where "OW_SEQ_STATE_INIT \<equiv> 2"
abbreviation (input) OW_SEQ_STATE_STARTED :: byte where "OW_SEQ_STATE_STARTED \<equiv> 3"
abbreviation (input) OW_SEQ_STATE_TRANSITION :: byte where "OW_SEQ_STATE_TRANSITION \<equiv> 4"
abbreviation (input) OW_SEQ_STATE_DONE :: byte where "OW_SEQ_STATE_DONE \<equiv> 5"

abbreviation (input) OW_OP_RESET :: byte where "OW_OP_RESET \<equiv> 1"
abbreviation (input) OW_OP_READ :: byte where "OW_OP_READ \<equiv> 2"
abbreviation (input) OW_OP_WRITE :: byte where "OW_OP_WRITE \<equiv> 3"
abbreviation (input) OW_OP_END :: byte where "OW_OP_END \<equiv> 4"
abbreviation (input) OW_OP_MAX :: byte where "OW_OP_MAX \<equiv> 5"

abbreviation (input) OW_READ_OP_INIT :: byte where "OW_READ_OP_INIT \<equiv> 1"
abbreviation (input) OW_READ_OP_LINE_LOW :: byte where "OW_READ_OP_LINE_LOW \<equiv> 2"
abbreviation (input) OW_READ_OP_SAMPLE :: byte where "OW_READ_OP_SAMPLE \<equiv> 3"
abbreviation (input) OW_READ_OP_WAIT_50 :: byte where "OW_READ_OP_WAIT_50 \<equiv> 4"
abbreviation (input) OW_READ_OP_DONE :: byte where "OW_READ_OP_DONE \<equiv> 5"

abbreviation (input) OW_WRITE_OP_INIT :: byte where "OW_WRITE_OP_INIT \<equiv> 1"
abbreviation (input) OW_WRITE_OP_LINE_LOW :: byte where "OW_WRITE_OP_LINE_LOW \<equiv> 2"
abbreviation (input) OW_WRITE_OP_WRITE_FIRST :: byte where "OW_WRITE_OP_WRITE_FIRST \<equiv> 3"
abbreviation (input) OW_WRITE_OP_WAIT_FIRST :: byte where "OW_WRITE_OP_WAIT_FIRST \<equiv> 4"
abbreviation (input) OW_WRITE_OP_FINALLY :: byte where "OW_WRITE_OP_FINALLY \<equiv> 5"
abbreviation (input) OW_WRITE_OP_DONE :: byte where "OW_WRITE_OP_DONE \<equiv> 6"

abbreviation (input) OW_RESET_OP_INIT :: byte where "OW_RESET_OP_INIT \<equiv> 1"
abbreviation (input) OW_RESET_OP_WAIT_480_LOW :: byte where "OW_RESET_OP_WAIT_480_LOW \<equiv> 2"
abbreviation (input) OW_RESET_OP_WAIT_60_RESP :: byte where "OW_RESET_OP_WAIT_60_RESP \<equiv> 3"
abbreviation (input) OW_RESET_OP_WAIT_480 :: byte where "OW_RESET_OP_WAIT_480 \<equiv> 4"
abbreviation (input) OW_RESET_OP_DONE :: byte where "OW_RESET_OP_DONE \<equiv> 5"

abbreviation (input) OW_ERROR_NONE :: byte where "OW_ERROR_NONE \<equiv> 0"
abbreviation (input) OW_ERROR_INVALID_OP :: byte where "OW_ERROR_INVALID_OP \<equiv> 2"
abbreviation (input) OW_ERROR_RESET_RESP_TIMEOUT :: byte where "OW_ERROR_RESET_RESP_TIMEOUT \<equiv> 3"

abbreviation (input) OW_STATE_READY :: byte where "OW_STATE_READY \<equiv> 3"

abbreviation (input) DS_SEQ_INVALID :: byte where "DS_SEQ_INVALID \<equiv> 0"
abbreviation (input) DS_SEQ_UUID_T :: byte where "DS_SEQ_UUID_T \<equiv> 1"
abbreviation (input) DS_SEQ_CONV_T :: byte where "DS_SEQ_CONV_T \<equiv> 2"
abbreviation (input) DS_SEQ_READ_T :: byte where "DS_SEQ_READ_T \<equiv> 3"
abbreviation (input) DS_SEQ_NEXT_READ_T :: byte where "DS_SEQ_NEXT_READ_T \<equiv> 4"

abbreviation (input) DS_FAMILY_CODE :: byte where "DS_FAMILY_CODE \<equiv> 0x28"

text \<open>The sequences of maxim28.h with their arguments and lengths, by sequence number.\<close>

definition ds_seqs :: "byte list option list" where
  "ds_seqs = [None,
     Some [OW_OP_RESET, OW_OP_WRITE, OW_OP_WRITE, OW_OP_READ, OW_OP_END],
     Some [OW_OP_RESET, OW_OP_WRITE, OW_OP_WRITE, OW_OP_END],
     Some [OW_OP_RESET, OW_OP_WRITE, OW_OP_WRITE, OW_OP_READ, OW_OP_END]]"

definition ds_seq_args :: "byte list option list" where
  "ds_seq_args = [None, Some [0, 0x33, 0xBE, 9, 0], Some [0, 0xCC, 0x44, 0], Some [0, 0xCC, 0xBE, 9, 0]]"

definition ds_seq_lens :: "byte list" where
  "ds_seq_lens = [0, 5, 4, 5]"


section \<open>Hardware timer\<close>

definition hw_timer_init :: "'a hw_timer_scheme \<Rightarrow> 'a hw_timer_scheme" where
  "hw_timer_init s =
     (xt_isr_attach Isr_hw_timer
        (s\<lparr>ow_hw_maxLoad := 0, ow_hw_onLoad := 0, ow_hw_offLoad := 0, ow_hw_step := - 1\<rparr>))
       \<lparr>ow_hw_running := 0, hw_timer_state := HW_TIMER_READY\<rparr>"

definition hw_timer_start :: "'a hw_timer_scheme \<Rightarrow> 'a hw_timer_scheme" where
  "hw_timer_start s =
     (if hw_timer_state s = HW_TIMER_ACTIVE then s
      else let s = timer_set_divider FRC1 TIMER_CLKDIV_16 (s\<lparr>hw_loadval := 44\<rparr>);
               s = timer_set_reload FRC1 False s;
               s = timer_set_interrupts FRC1 True s;
               s = timer_set_load FRC1 (hw_loadval s) s;
               s = timer_set_run FRC1 True s
           in s\<lparr>hw_timer_state := HW_TIMER_ACTIVE\<rparr>)"

definition hw_timer_stop :: "'a hw_timer_scheme \<Rightarrow> 'a hw_timer_scheme" where
  "hw_timer_stop s =
     (timer_set_run FRC1 False (timer_set_interrupts FRC1 False s))\<lparr>ow_hw_running := 4\<rparr>"

definition hw_timer_restart :: "'a hw_timer_scheme \<Rightarrow> 'a hw_timer_scheme" where
  "hw_timer_restart s = (if ow_hw_running s \<noteq> 0 then hw_timer_start (hw_timer_stop s) else s)"


section \<open>The line\<close>

definition line_read :: "ow_env \<Rightarrow> onewire \<Rightarrow> bool \<times> onewire" where
  "line_read env s =
     (let b = (\<not> pulls_low (ow_pin env) s \<and> pin_in env (hist s)) in (b, s\<lparr>hist := Sample b # hist s\<rparr>))"

definition sdk_os_delay_us :: "ow_env \<Rightarrow> nat \<Rightarrow> onewire \<Rightarrow> onewire" where
  "sdk_os_delay_us env us s = s\<lparr>hist := Delay_us us (pulls_low (ow_pin env) s) # hist s\<rparr>"

definition elapse :: "ow_env \<Rightarrow> onewire \<Rightarrow> onewire" where
  "elapse env s = s\<lparr>hist := Tick (pulls_low (ow_pin env) s) # hist s\<rparr>"


section \<open>State machines\<close>

definition OW_doit_reset :: "ow_env \<Rightarrow> onewire \<Rightarrow> onewire" where
  "OW_doit_reset env s =
     (if cur_op s = OW_RESET_OP_INIT then
        gpio_write (ow_pin env) False (gpio_enable (ow_pin env) GPIO_OUT_OPEN_DRAIN
          (s\<lparr>delay_count := 48, cur_op := OW_RESET_OP_WAIT_480_LOW\<rparr>))
      else if cur_op s = OW_RESET_OP_WAIT_480_LOW then
        let s = s\<lparr>delay_count := delay_count s - 1\<rparr> in
        if delay_count s = 0
        then (gpio_disable (ow_pin env) s)\<lparr>cur_op := OW_RESET_OP_WAIT_60_RESP, delay_count := 6\<rparr> else s
      else if cur_op s = OW_RESET_OP_WAIT_60_RESP then
        let s = s\<lparr>delay_count := delay_count s - 1\<rparr>; (b, s) = line_read env s in
        if \<not> b then s\<lparr>delay_count := 47, cur_op := OW_RESET_OP_WAIT_480\<rparr>
        else if delay_count s = 0
        then (gpio_disable (ow_pin env) s)\<lparr>ow_error := OW_ERROR_RESET_RESP_TIMEOUT, seq_state := OW_SEQ_STATE_DONE\<rparr>
        else s
      else if cur_op s = OW_RESET_OP_WAIT_480 then
        let s = s\<lparr>delay_count := delay_count s - 1\<rparr> in
        if delay_count s = 0 then s\<lparr>cur_op := OW_RESET_OP_DONE\<rparr> else s
      else if cur_op s = OW_RESET_OP_DONE then
        s\<lparr>seq_pos := seq_pos s + 1, seq_state := OW_SEQ_STATE_TRANSITION\<rparr>
      else s\<lparr>ow_error := OW_ERROR_INVALID_OP\<rparr>)"

text \<open>The argument of the current operation.\<close>

definition cur_arg :: "onewire \<Rightarrow> byte option" where
  "cur_arg s = arg_arr s \<bind> (\<lambda>a. read_at a (unat (seq_pos s)))"

text \<open>The block behind the label again of OW_doit_read; jumps back are recursive calls.\<close>

function OW_read_again :: "ow_env \<Rightarrow> onewire \<Rightarrow> onewire option" where
  "OW_read_again env s =
     (if cur_op s = OW_READ_OP_INIT then
        do { n \<leftarrow> cur_arg s;
             OW_read_again env (s\<lparr>rd_bitMask := 1, rd_sample := False, rd_readCount := 0, rd_data := 0,
               rd_readsLeft := n, cur_op := OW_READ_OP_LINE_LOW\<rparr>) }
      else if cur_op s = OW_READ_OP_LINE_LOW then
        Some ((gpio_disable (ow_pin env) (sdk_os_delay_us env 2
          (gpio_write (ow_pin env) False (gpio_enable (ow_pin env) GPIO_OUT_OPEN_DRAIN s))))
            \<lparr>cur_op := OW_READ_OP_SAMPLE\<rparr>)
      else if cur_op s = OW_READ_OP_SAMPLE then
        let (b, s) = line_read env s in
        Some (s\<lparr>rd_sample := b, rd_data := (if b then rd_data s OR rd_bitMask s else rd_data s),
                rd_bitMask := push_bit 1 (rd_bitMask s), delay_count := 4, cur_op := OW_READ_OP_WAIT_50\<rparr>)
      else if cur_op s = OW_READ_OP_WAIT_50 then
        if delay_count s - 1 \<noteq> 0 then Some (s\<lparr>delay_count := delay_count s - 1\<rparr>)
        else if rd_bitMask s = 0 then
          do { buf \<leftarrow> write_at (spad_buf s) (unat (rd_readCount s)) (rd_data s);
               let s = s\<lparr>delay_count := 0, spad_buf := buf, rd_readCount := rd_readCount s + 1, rd_data := 0,
                         rd_bitMask := 1, rd_readsLeft := rd_readsLeft s - 1\<rparr>;
               if rd_readsLeft s = 0 then Some (s\<lparr>cur_op := OW_READ_OP_DONE\<rparr>)
               else OW_read_again env (s\<lparr>cur_op := OW_READ_OP_LINE_LOW\<rparr>) }
        else OW_read_again env (s\<lparr>delay_count := 0, cur_op := OW_READ_OP_LINE_LOW\<rparr>)
      else Some s)"
  by auto
termination
  by (relation "measure (\<lambda>(env, s). if cur_op s = OW_READ_OP_LINE_LOW then 0 else 1)") auto

declare OW_read_again.simps [simp del]

definition end_op :: "byte \<Rightarrow> onewire \<Rightarrow> onewire" where
  "end_op last_op s =
     (if cur_op s = last_op then s\<lparr>seq_state := OW_SEQ_STATE_TRANSITION, seq_pos := seq_pos s + 1\<rparr> else s)"

definition OW_doit_read :: "ow_env \<Rightarrow> onewire \<Rightarrow> onewire option" where
  "OW_doit_read env s = map_option (end_op OW_READ_OP_DONE) (OW_read_again env s)"

definition write_line_low :: "ow_env \<Rightarrow> onewire \<Rightarrow> onewire" where
  "write_line_low env s =
     gpio_enable (ow_pin env) GPIO_OUT_OPEN_DRAIN (gpio_write (ow_pin env) False
       (s\<lparr>cur_op := (if wr_bitMask s AND wr_data s \<noteq> 0 then OW_WRITE_OP_WRITE_FIRST else OW_WRITE_OP_WAIT_FIRST),
          delay_count := 6\<rparr>))"

text \<open>
  Likewise for OW_doit_write. The sensor is not powered over the line (\<^verbatim>\<open>USE_P_PWR\<close> is 0), so
  the pin keeps its setting behind the last bit.
\<close>

function OW_write_again :: "ow_env \<Rightarrow> onewire \<Rightarrow> onewire option" where
  "OW_write_again env s =
     (if cur_op s = OW_WRITE_OP_INIT then
        do { d \<leftarrow> cur_arg s; Some (s\<lparr>wr_data := d, wr_bitMask := 1, cur_op := OW_WRITE_OP_LINE_LOW\<rparr>) }
      else if cur_op s = OW_WRITE_OP_LINE_LOW then Some (write_line_low env s)
      else if cur_op s = OW_WRITE_OP_WRITE_FIRST then
        let s = (if delay_count s = 6 then gpio_write (ow_pin env) True s else s);
            s = s\<lparr>delay_count := delay_count s - 1\<rparr>
        in Some (if delay_count s = 0 then s\<lparr>cur_op := OW_WRITE_OP_FINALLY\<rparr> else s)
      else if cur_op s = OW_WRITE_OP_WAIT_FIRST then
        let s = s\<lparr>delay_count := delay_count s - 1\<rparr>
        in Some (if delay_count s = 0 then (gpio_write (ow_pin env) True s)\<lparr>cur_op := OW_WRITE_OP_FINALLY\<rparr> else s)
      else if cur_op s = OW_WRITE_OP_FINALLY then
        if push_bit 1 (wr_bitMask s) = 0 then Some (s\<lparr>wr_bitMask := 0, cur_op := OW_WRITE_OP_DONE\<rparr>)
        else OW_write_again env (s\<lparr>wr_bitMask := push_bit 1 (wr_bitMask s), cur_op := OW_WRITE_OP_LINE_LOW\<rparr>)
      else Some s)"
  by auto
termination
  by (relation "measure (\<lambda>(env, s). if cur_op s = OW_WRITE_OP_LINE_LOW then 0 else 1)") auto

declare OW_write_again.simps [simp del]

definition OW_doit_write :: "ow_env \<Rightarrow> onewire \<Rightarrow> onewire option" where
  "OW_doit_write env s = map_option (end_op OW_WRITE_OP_DONE) (OW_write_again env s)"


section \<open>Ends of the sequences\<close>

definition OW_handle_error :: "onewire \<Rightarrow> onewire" where
  "OW_handle_error s = (hw_timer_stop s)\<lparr>ow_error := OW_ERROR_NONE, ow_state := OW_STATE_READY\<rparr>"

text \<open>
  The text of a temperature, \<^verbatim>\<open>%c%d.%02d\<close>. Six bytes of it, with the terminating zero where it
  is among them, are copied into an allocated block of seven, whose last byte is 0; the
  result of the send to the queue is not looked at.
\<close>

definition temp_text :: "Temperature \<Rightarrow> byte list" where
  "temp_text t = temp_sign t # show_nat (unat (temp_val t)) @ [46] @
     (if temp_fract t < 10 then 48 # show_nat (unat (temp_fract t)) else show_nat (unat (temp_fract t)))"

definition OW_queue_temperature :: "ow_env \<Rightarrow> onewire \<Rightarrow> onewire option" where
  "OW_queue_temperature env s =
     (if temp_available (latest_temp s) = 0 \<or> prev_temp s = latest_temp s then Some s
      else if ow_malloc_ok env (hist s) \<and> pub_queue s
      then Some (s\<lparr>prev_temp := latest_temp s,
                   queue_sends := queue_sends s @ [take 6 (temp_text (latest_temp s) @ [0]) @ [0]]\<rparr>)
      else None)"

definition read_uuid_done_cb :: "onewire \<Rightarrow> onewire option" where
  "read_uuid_done_cb s =
     (if ow_error s \<noteq> 0 then Some (OW_handle_error s)
      else do {
        let s = (hw_timer_stop s)\<lparr>ow_task_arg := DS_SEQ_CONV_T\<rparr>;
        u \<leftarrow> write_at (UUID s) 0 DS_FAMILY_CODE;
        u \<leftarrow> (if length (spad_buf s) < 7 then None else write_block u 1 (take 7 (spad_buf s)));
        let j = length (filter (\<lambda>b. b = 0 \<or> b = 0xff) (take 7 (drop 1 u)));
        Some (s\<lparr>UUID := u, have_uuid := (if j = 7 then 0 else 1), seq_state := OW_SEQ_STATE_INIT\<rparr>) })"

definition conv_t_done_cb :: "onewire \<Rightarrow> onewire" where
  "conv_t_done_cb s =
     (if ow_error s \<noteq> 0 then OW_handle_error s
      else (hw_timer_stop s)\<lparr>ow_task_arg := DS_SEQ_READ_T, seq_state := OW_SEQ_STATE_INIT\<rparr>)"

text \<open>The conversion of a reading in two's complement with four fractional bits.\<close>

definition temp_of_reading :: "u16 \<Rightarrow> Temperature" where
  "temp_of_reading reading =
     (let (reading, sign) = (if reading AND 0x8000 \<noteq> 0 then ((reading XOR 0xffff) + 1, 45) else (reading, 43))
      in \<lparr>temp_sign = sign, temp_val = drop_bit 4 reading,
          temp_fract = of_int ((uint (reading AND 0xf) * 100) sdiv 16), temp_available = 1\<rparr>)"

definition read_temp_done_cb :: "ow_env \<Rightarrow> onewire \<Rightarrow> onewire option" where
  "read_temp_done_cb env s =
     (if ow_error s \<noteq> 0 then Some (OW_handle_error s)
      else do {
        let s = hw_timer_stop s;
        crc \<leftarrow> onewire_crc8 (spad_buf s) 8;
        c \<leftarrow> read_at (spad_buf s) 8;
        s \<leftarrow> (if crc = c then do {
                 hi \<leftarrow> read_at (spad_buf s) 1;
                 lo \<leftarrow> read_at (spad_buf s) 0;
                 OW_queue_temperature env
                   (s\<lparr>latest_temp := temp_of_reading (push_bit 8 (ucast hi) OR ucast lo)\<rparr>) }
               else Some s);
        Some (s\<lparr>spad_buf := replicate 9 0, ow_task_arg := DS_SEQ_NEXT_READ_T\<rparr>) })"

fun run_callback :: "ow_env \<Rightarrow> OW_cb_t option \<Rightarrow> onewire \<Rightarrow> onewire option" where
  "run_callback env None s = Some s"
| "run_callback env (Some Read_uuid_done_cb) s = read_uuid_done_cb s"
| "run_callback env (Some Conv_t_done_cb) s = Some (conv_t_done_cb s)"
| "run_callback env (Some Read_temp_done_cb) s = read_temp_done_cb env s"


section \<open>The interrupt\<close>

definition begin_op :: "byte \<Rightarrow> onewire \<Rightarrow> onewire" where
  "begin_op first_op s =
     (if seq_state s = OW_SEQ_STATE_TRANSITION
      then s\<lparr>seq_state := OW_SEQ_STATE_STARTED, cur_op := first_op\<rparr> else s)"

definition doit_op :: "ow_env \<Rightarrow> onewire \<Rightarrow> onewire option" where
  "doit_op env s =
     (if op_type s = OW_OP_READ then OW_doit_read env (begin_op OW_READ_OP_INIT s)
      else if op_type s = OW_OP_WRITE then OW_doit_write env (begin_op OW_WRITE_OP_INIT s)
      else if op_type s = OW_OP_RESET then Some (OW_doit_reset env (begin_op OW_RESET_OP_INIT s))
      else Some (s\<lparr>seq_state := OW_SEQ_STATE_DONE\<rparr>))"

definition doit_seq :: "ow_env \<Rightarrow> onewire \<Rightarrow> onewire option" where
  "doit_seq env s =
     (if seq_state s = OW_SEQ_STATE_INIT then Some (s\<lparr>seq_state := OW_SEQ_STATE_STARTED\<rparr>)
      else if seq_state s = OW_SEQ_STATE_TRANSITION then
        if seq_pos s \<ge> seq_len s then Some (s\<lparr>op_type := OW_OP_END, seq_state := OW_SEQ_STATE_DONE\<rparr>)
        else do { a \<leftarrow> seq_arr s; t \<leftarrow> read_at a (unat (seq_pos s)); Some (s\<lparr>op_type := t, cur_op := 0\<rparr>) }
      else if seq_state s = OW_SEQ_STATE_DONE then run_callback env (ow_callback s) s
      else Some s)"

definition OW_doit :: "ow_env \<Rightarrow> onewire \<Rightarrow> onewire option" where
  "OW_doit env s = doit_op env s \<bind> doit_seq env"

definition hw_timer_interrupt_handler :: "ow_env \<Rightarrow> onewire \<Rightarrow> onewire option" where
  "hw_timer_interrupt_handler env s = map_option (timer_set_load FRC1 44) (OW_doit env s)"


section \<open>Task and application\<close>

definition load_seq :: "byte \<Rightarrow> onewire \<Rightarrow> onewire option" where
  "load_seq sq s =
     do { a \<leftarrow> read_at ds_seqs (unat sq); b \<leftarrow> read_at ds_seq_args (unat sq); n \<leftarrow> read_at ds_seq_lens (unat sq);
          Some (s\<lparr>seq_arr := a, arg_arr := b, seq_len := n\<rparr>) }"

definition OW_init_seq :: "byte \<Rightarrow> onewire \<Rightarrow> onewire option" where
  "OW_init_seq sq s =
     do { s \<leftarrow> load_seq sq s;
          let s = s\<lparr>seq_state := OW_SEQ_STATE_TRANSITION, ow_error := OW_ERROR_NONE, ow_task_arg := sq\<rparr>;
          Some (if sq = DS_SEQ_UUID_T then hw_timer_start (hw_timer_init (s\<lparr>ow_callback := Some Read_uuid_done_cb\<rparr>))
                else if sq = DS_SEQ_CONV_T then hw_timer_start (hw_timer_init (s\<lparr>ow_callback := Some Conv_t_done_cb\<rparr>))
                else if sq = DS_SEQ_READ_T then hw_timer_start (hw_timer_init (s\<lparr>ow_callback := Some Read_temp_done_cb\<rparr>))
                else s\<lparr>ow_task_arg := 0, ow_callback := None\<rparr>) }"

text \<open>
  The task up to its next delay: the head of the loop, or the start of a sequence behind
  the delay of 15 or 750 milliseconds.
\<close>

fun OW_init_seq_task :: "task_pc \<Rightarrow> onewire \<Rightarrow> onewire option" where
  "OW_init_seq_task (Task_wait sq) s = OW_init_seq sq (s\<lparr>task_at := Task_loop\<rparr>)"
| "OW_init_seq_task Task_loop s =
     (if seq_state s = OW_SEQ_STATE_INIT then
        do { a \<leftarrow> seq_arr s; t \<leftarrow> read_at a 0;
             let s = s\<lparr>op_type := t, cur_op := 0, seq_pos := 0\<rparr>;
             if ow_task_arg s = DS_SEQ_UUID_T then OW_init_seq DS_SEQ_UUID_T s
             else if ow_task_arg s = DS_SEQ_CONV_T then Some (s\<lparr>task_at := Task_wait DS_SEQ_CONV_T\<rparr>)
             else if ow_task_arg s = DS_SEQ_READ_T then Some (s\<lparr>task_at := Task_wait DS_SEQ_READ_T\<rparr>)
             else if ow_task_arg s = DS_SEQ_NEXT_READ_T then OW_init_seq DS_SEQ_CONV_T s
             else Some (s\<lparr>seq_state := 0\<rparr>) }
      else Some s)"

definition OW_request_new_temp :: "ow_env \<Rightarrow> onewire \<Rightarrow> (bool \<times> onewire) option" where
  "OW_request_new_temp env s =
     do { buf \<leftarrow> write_block (spad_buf s) 0 (replicate 4 0);
          let s = s\<lparr>spad_buf := buf\<rparr>;
          if ow_state s \<noteq> OW_STATE_READY then Some (False, s)
          else do {
            let s = gpio_set_pullup (ow_pin env) True False (gpio_enable (ow_pin env) GPIO_OUT_OPEN_DRAIN s);
            s \<leftarrow> (if have_uuid s \<noteq> 0
                  then map_option (\<lambda>s. s\<lparr>ow_task_arg := DS_SEQ_CONV_T, ow_callback := Some Conv_t_done_cb\<rparr>) (load_seq DS_SEQ_CONV_T s)
                  else map_option (\<lambda>s. s\<lparr>ow_task_arg := DS_SEQ_UUID_T, ow_callback := Some Read_uuid_done_cb\<rparr>) (load_seq DS_SEQ_UUID_T s));
            Some (True, s\<lparr>ow_error := OW_ERROR_NONE, seq_state := OW_SEQ_STATE_INIT\<rparr>) } }"

text \<open>\<open>queue\<close>: a queue for the readings is passed in. The task starts at the head of its loop.\<close>

definition OW_init :: "ow_env \<Rightarrow> bool \<Rightarrow> onewire \<Rightarrow> onewire" where
  "OW_init env queue s =
     (let s = (if queue then s\<lparr>pub_queue := True\<rparr> else s);
          s = s\<lparr>seq_arr := None, arg_arr := None, seq_len := 0, seq_state := 0, seq_pos := 0, ow_error := 0,
                op_type := 0, cur_op := 0, delay_count := 0, spad_buf := replicate 9 0, UUID := replicate 8 0,
                have_uuid := 0, ow_state := 0, ow_callback := None,
                latest_temp := \<lparr>temp_sign = 0, temp_val = 0, temp_fract = 0, temp_available = 0\<rparr>\<rparr>;
          s = gpio_set_pullup (ow_pin env) True False (gpio_enable (ow_pin env) GPIO_OUT_OPEN_DRAIN s);
          s = hw_timer_init s
      in s\<lparr>task_at := Task_loop, ow_state := OW_STATE_READY\<rparr>)"


section \<open>Interleaving\<close>

text \<open>
  The driver is at rest when the timer is off and the task has no sequence to start. One step of
  the system: the interrupt, when the timer lets it through; the task, up to its next delay; a
  request of the application, made while the driver is at rest. Nothing in the code makes the
  application wait for that (the state it tests never says that a sequence is running), but then
  the assignments of a request race with the interrupt and the task. With requests at rest the
  steps can be taken as a whole: while a request or the task changes anything the timer is off,
  and while a request is under way the task finds nothing to do (shown in
  \<^verbatim>\<open>Onewire_Safe\<close>).
\<close>

definition at_rest :: "onewire \<Rightarrow> bool" where
  "at_rest s \<longleftrightarrow> \<not> frc1_fires s \<and> seq_state s \<noteq> OW_SEQ_STATE_INIT \<and> task_at s = Task_loop"

inductive ow_step :: "ow_env \<Rightarrow> onewire \<Rightarrow> onewire \<Rightarrow> bool" for env where
  Interrupt: "frc1_fires s \<Longrightarrow> frc1_isr s = Some Isr_hw_timer \<Longrightarrow>
    hw_timer_interrupt_handler env (elapse env s) = Some s' \<Longrightarrow> ow_step env s s'"
| Task: "OW_init_seq_task (task_at s) s = Some s' \<Longrightarrow> ow_step env s s'"
| Request: "at_rest s \<Longrightarrow> OW_request_new_temp env s = Some (r, s') \<Longrightarrow> ow_step env s s'"

inductive ow_reachable :: "ow_env \<Rightarrow> onewire \<Rightarrow> bool" for env where
  Start: "\<not> frc1_fires s \<Longrightarrow> ow_reachable env (OW_init env True s)"
| Step: "ow_reachable env s \<Longrightarrow> ow_step env s s' \<Longrightarrow> ow_reachable env s'"

inductive_cases ow_stepE: "ow_step env s s'"

end
