(* ===== verification/Onewire_Bus.thy ===== *)
theory Onewire_Bus
  imports Onewire
begin

unbundle bit_operations_syntax

text \<open>
  What the state machines of the one-wire driver do on the line, interrupt by interrupt.
\<close>

section \<open>Interrupts\<close>

definition tick :: "ow_env \<Rightarrow> onewire \<Rightarrow> onewire option" where
  "tick env s = hw_timer_interrupt_handler env (elapse env s)"

fun ticks :: "ow_env \<Rightarrow> nat \<Rightarrow> onewire \<Rightarrow> onewire option" where
  "ticks env 0 s = Some s"
| "ticks env (Suc n) s = tick env s \<bind> ticks env n"

lemma ticks_add: "ticks env (m + n) s = ticks env m s \<bind> ticks env n"
  by (induction m arbitrary: s) (auto simp: bind_assoc split: bind_splits)

lemma ticks_addI: "ticks env m s = Some s' \<Longrightarrow> ticks env n s' = r \<Longrightarrow> ticks env (m + n) s = r"
  by (simp add: ticks_add)

text \<open>The timer is loaded with the count every interrupt leaves behind.\<close>

definition armed :: "onewire \<Rightarrow> bool" where
  "armed s \<longleftrightarrow> timer_LOAD s FRC1 = 44"

lemma reload_armed: "timer_LOAD s FRC1 = 44 \<Longrightarrow> timer_set_load FRC1 44 s = s" for s :: onewire
proof -
  assume "timer_LOAD s FRC1 = 44"
  then have "(timer_LOAD s)(FRC1 := 44) = timer_LOAD s"
    by (auto simp: fun_eq_iff)
  then show ?thesis
    by (simp add: timer_set_load_def)
qed

lemma cur_arg_simps [simp]:
  "cur_arg (s\<lparr>hist := h\<rparr>) = cur_arg s" "cur_arg (s\<lparr>seq_state := x\<rparr>) = cur_arg s" "cur_arg (s\<lparr>cur_op := x\<rparr>) = cur_arg s"
  by (simp_all add: cur_arg_def)

text \<open>The line does not depend on the driver state.\<close>

lemma pulls_low_simps [simp]:
  "pulls_low p (s\<lparr>hist := x0\<rparr>) = pulls_low p s"
  "pulls_low p (s\<lparr>delay_count := x1\<rparr>) = pulls_low p s"
  "pulls_low p (s\<lparr>cur_op := x2\<rparr>) = pulls_low p s"
  "pulls_low p (s\<lparr>seq_state := x3\<rparr>) = pulls_low p s"
  "pulls_low p (s\<lparr>seq_pos := x4\<rparr>) = pulls_low p s"
  "pulls_low p (s\<lparr>op_type := x5\<rparr>) = pulls_low p s"
  "pulls_low p (s\<lparr>wr_data := x6\<rparr>) = pulls_low p s"
  "pulls_low p (s\<lparr>wr_bitMask := x7\<rparr>) = pulls_low p s"
  "pulls_low p (s\<lparr>rd_sample := x8\<rparr>) = pulls_low p s"
  "pulls_low p (s\<lparr>rd_data := x9\<rparr>) = pulls_low p s"
  "pulls_low p (s\<lparr>rd_bitMask := x10\<rparr>) = pulls_low p s"
  "pulls_low p (s\<lparr>rd_readCount := x11\<rparr>) = pulls_low p s"
  "pulls_low p (s\<lparr>rd_readsLeft := x12\<rparr>) = pulls_low p s"
  "pulls_low p (s\<lparr>spad_buf := x13\<rparr>) = pulls_low p s"
  for s :: onewire
  by (simp_all add: pulls_low_def)

lemmas pin_defs = gpio_write_def gpio_disable_def iomux_set_gpio_function_def

lemmas tick_defs = tick_def hw_timer_interrupt_handler_def OW_doit_def doit_op_def doit_seq_def elapse_def begin_op_def
  end_op_def reload_armed armed_def pin_defs


text \<open>What an operation leaves alone, and what holds behind it.\<close>

definition frame where
  "frame s = (seq_arr s, arg_arr s, seq_len s, ow_callback s, ow_error s, UUID s, have_uuid s, ow_state s, ow_task_arg s,
     latest_temp s, prev_temp s, pub_queue s, queue_sends s, task_at s, frc1_isr s, timer_int_enabled s, timer_CTRL s,
     hw_timer_state s)" for s :: onewire

definition op_done :: "ow_env \<Rightarrow> onewire \<Rightarrow> onewire \<Rightarrow> bool" where
  "op_done env s s' \<longleftrightarrow> armed s' \<and> frame s' = frame s \<and> seq_pos s' = seq_pos s + 1 \<and> seq_state s' = 4 \<and>
     op_type s' = the (seq_arr s) ! unat (seq_pos s + 1) \<and> \<not> pulls_low (ow_pin env) s'"


section \<open>Writing\<close>

definition next_op :: "onewire \<Rightarrow> onewire" where
  "next_op s = s\<lparr>seq_state := 4, seq_pos := seq_pos s + 1, op_type := the (seq_arr s) ! unat (seq_pos s + 1), cur_op := 0\<rparr>"

definition has_next :: "onewire \<Rightarrow> bool" where
  "has_next s \<longleftrightarrow> seq_pos s + 1 < seq_len s \<and> seq_arr s \<noteq> None \<and> unat (seq_pos s + 1) < length (the (seq_arr s))"

lemma tick_write:
  fixes env s
  defines "h \<equiv> Tick (pulls_low (ow_pin env) s) # hist s"
  assumes "armed s" "op_type s = 3"
  shows "seq_state s = 4 \<Longrightarrow> cur_arg s = Some d \<Longrightarrow>
      tick env s = Some (s\<lparr>hist := h, seq_state := 3, cur_op := 2, wr_data := d, wr_bitMask := 1\<rparr>)"
    and "seq_state s = 3 \<Longrightarrow> cur_op s = 2 \<Longrightarrow> tick env s = Some (write_line_low env (s\<lparr>hist := h\<rparr>))"
    and "seq_state s = 3 \<Longrightarrow> cur_op s = 3 \<Longrightarrow> delay_count s = 6 \<Longrightarrow>
      tick env s = Some (gpio_write (ow_pin env) True (s\<lparr>hist := h, delay_count := 5\<rparr>))"
    and "seq_state s = 3 \<Longrightarrow> cur_op s = 3 \<Longrightarrow> delay_count s \<noteq> 6 \<Longrightarrow>
      tick env s = Some (s\<lparr>hist := h, delay_count := delay_count s - 1, cur_op := (if delay_count s = 1 then 5 else 3)\<rparr>)"
    and "seq_state s = 3 \<Longrightarrow> cur_op s = 4 \<Longrightarrow> delay_count s \<noteq> 1 \<Longrightarrow>
      tick env s = Some (s\<lparr>hist := h, delay_count := delay_count s - 1\<rparr>)"
    and "seq_state s = 3 \<Longrightarrow> cur_op s = 4 \<Longrightarrow> delay_count s = 1 \<Longrightarrow>
      tick env s = Some (gpio_write (ow_pin env) True (s\<lparr>hist := h, delay_count := 0, cur_op := 5\<rparr>))"
    and "seq_state s = 3 \<Longrightarrow> cur_op s = 5 \<Longrightarrow> push_bit 1 (wr_bitMask s) \<noteq> 0 \<Longrightarrow>
      tick env s = Some (write_line_low env (s\<lparr>hist := h, wr_bitMask := push_bit 1 (wr_bitMask s), cur_op := 2\<rparr>))"
    and "seq_state s = 3 \<Longrightarrow> cur_op s = 5 \<Longrightarrow> push_bit 1 (wr_bitMask s) = 0 \<Longrightarrow> has_next s \<Longrightarrow>
      tick env s = Some (next_op (s\<lparr>hist := h, wr_bitMask := 0\<rparr>))"
  using assms
  by (auto simp: tick_defs OW_doit_write_def OW_write_again.simps write_line_low_def next_op_def has_next_def read_at_def)

text \<open>The time slot of a bit: low for one period and released for six, or the other way round.\<close>

definition slot :: "bool \<Rightarrow> bus_event list" where
  "slot b = (if b then [Tick True, Tick False, Tick False, Tick False, Tick False, Tick False, Tick False]
     else [Tick True, Tick True, Tick True, Tick True, Tick True, Tick True, Tick False])"

text \<open>The state behind the interrupt that pulls the line low for a bit, and behind the six that follow.\<close>

definition in_slot :: "ow_env \<Rightarrow> onewire \<Rightarrow> bool" where
  "in_slot env s \<longleftrightarrow> armed s \<and> op_type s = 3 \<and> seq_state s = 3 \<and> cur_op s = (if wr_bitMask s AND wr_data s \<noteq> 0 then 3 else 4) \<and>
     delay_count s = 6 \<and> gpio_enabled s (ow_pin env) \<and> iomux_output s (ow_pin env) \<and> \<not> gpio_out s (ow_pin env)"

lemma ticks_slot:
  assumes "in_slot env s"
  shows "ticks env 6 s = Some (gpio_write (ow_pin env) True (s\<lparr>
     hist := tl (rev (slot (wr_bitMask s AND wr_data s \<noteq> 0))) @ hist s, delay_count := 0, cur_op := 5\<rparr>))"
proof -
  have six: "(6 :: nat) = Suc (Suc (Suc (Suc (Suc (Suc 0)))))"
    by simp
  show ?thesis
    unfolding six using assms
    by (cases "wr_bitMask s AND wr_data s \<noteq> 0")
      (simp_all add: in_slot_def slot_def tick_write armed_def pin_defs pulls_low_def)
qed

lemma byte_and_exp: "(2 ^ k AND d \<noteq> 0) \<longleftrightarrow> bit d k" for d :: byte
  by (metis and.commute and_exp_eq_0_iff_not_bit)

lemma ticks_write_bits:
  assumes "in_slot env s" "wr_bitMask s = 2 ^ k" "k + n = 8" "0 < n" "has_next s"
  shows "\<exists>s'. ticks env (7 * n) s = Some s' \<and> op_done env s s' \<and> spad_buf s' = spad_buf s \<and>
    hist s' = rev (concat (map (\<lambda>i. slot (bit (wr_data s) i)) [k..<8])) @ hist s"
  using assms
proof (induction n arbitrary: k s)
  case (Suc n)
  let ?b = "bit (wr_data s) k"
  let ?s = "gpio_write (ow_pin env) True (s\<lparr>hist := tl (rev (slot ?b)) @ hist s, delay_count := 0, cur_op := 5\<rparr>)"
  let ?h = "rev (slot ?b) @ hist s"
  have six: "ticks env 6 s = Some ?s"
    using ticks_slot [OF Suc.prems(1)] Suc.prems(2) by (simp add: byte_and_exp)
  have s: "armed ?s" "op_type ?s = 3" "seq_state ?s = 3" "cur_op ?s = 5" "wr_bitMask ?s = 2 ^ k" "wr_data ?s = wr_data s"
    "has_next ?s" "frame ?s = frame s" "seq_pos ?s = seq_pos s" "spad_buf ?s = spad_buf s" "\<not> pulls_low (ow_pin env) ?s"
    "Tick False # hist ?s = ?h"
    using Suc.prems(1,2,5)
    by (simp_all add: in_slot_def armed_def pin_defs has_next_def frame_def pulls_low_def slot_def)
  have k: "[k..<8] = k # [Suc k..<8]"
    using Suc.prems(3) by (simp add: upt_conv_Cons)
  have "7 * Suc n = 6 + Suc (7 * n)"
    by simp
  then have seven: "ticks env (7 * Suc n) s = tick env ?s \<bind> ticks env (7 * n)"
    unfolding \<open>7 * Suc n = 6 + Suc (7 * n)\<close> ticks_add six by simp
  show ?case
  proof (cases n)
    case 0
    then have "k = 7"
      using Suc.prems(3) by simp
    then have "push_bit 1 (wr_bitMask ?s) = 0"
      unfolding s(5) by simp
    then have "tick env ?s = Some (next_op (?s\<lparr>hist := ?h, wr_bitMask := 0\<rparr>))"
      using tick_write(8) [OF s(1-4)] s(7,11,12) by simp
    moreover have "op_done env s (next_op (?s\<lparr>hist := ?h, wr_bitMask := 0\<rparr>))"
      using s by (simp add: op_done_def next_op_def armed_def frame_def pulls_low_def)
    moreover have "spad_buf (next_op (?s\<lparr>hist := ?h, wr_bitMask := 0\<rparr>)) = spad_buf s" "hist (next_op (?s\<lparr>hist := ?h, wr_bitMask := 0\<rparr>)) = ?h"
      using s(10) by (simp_all add: next_op_def)
    ultimately show ?thesis
      unfolding seven using k \<open>k = 7\<close> 0
      by (intro exI [of _ "next_op (?s\<lparr>hist := ?h, wr_bitMask := 0\<rparr>)"]) simp
  next
    case (Suc m)
    let ?s1 = "write_line_low env (?s\<lparr>hist := ?h, wr_bitMask := 2 ^ Suc k, cur_op := 2\<rparr>)"
    have p: "push_bit 1 (wr_bitMask ?s) = 2 ^ Suc k" "(2 ^ Suc k :: byte) \<noteq> 0"
      unfolding s(5) using Suc Suc.prems(3) by (simp, simp del: power_Suc)
    then have t: "tick env ?s = Some ?s1"
      using tick_write(7) [OF s(1-4)] s(11,12) by simp
    have "in_slot env ?s1" "wr_bitMask ?s1 = 2 ^ Suc k" "Suc k + n = 8" "0 < n" "has_next ?s1"
      using s Suc Suc.prems(3) by (simp_all add: in_slot_def write_line_low_def armed_def pin_defs has_next_def)
    from Suc.IH [OF this] obtain s' where s': "ticks env (7 * n) ?s1 = Some s'" "op_done env ?s1 s'"
      "spad_buf s' = spad_buf ?s1" "hist s' = rev (concat (map (\<lambda>i. slot (bit (wr_data ?s1) i)) [Suc k..<8])) @ hist ?s1"
      by blast
    have f: "frame ?s1 = frame s" "seq_pos ?s1 = seq_pos s" "seq_arr ?s1 = seq_arr s" "wr_data ?s1 = wr_data s" "hist ?s1 = ?h"
      "spad_buf ?s1 = spad_buf s"
      by (simp_all add: write_line_low_def pin_defs frame_def)
    have "ticks env (7 * Suc n) s = Some s'"
      unfolding seven using t s'(1) by simp
    moreover have "op_done env s s'"
      using s'(2) f by (simp add: op_done_def)
    ultimately show ?thesis
      using s'(3,4) f k by auto
  qed
qed simp

text \<open>The line during the transmission of a byte, the two interrupts before the first bit left out.\<close>

definition write_wave :: "byte \<Rightarrow> bus_event list" where
  "write_wave d = concat (map slot (bits_of d))"

lemma ticks_write:
  assumes "armed s" "op_type s = 3" "seq_state s = 4" "cur_arg s = Some d" "has_next s" "\<not> pulls_low (ow_pin env) s"
  shows "\<exists>s'. ticks env 58 s = Some s' \<and> op_done env s s' \<and> spad_buf s' = spad_buf s \<and>
    hist s' = rev (Tick False # Tick False # write_wave d) @ hist s"
proof -
  let ?s1 = "s\<lparr>hist := Tick False # hist s, seq_state := 3, cur_op := 2, wr_data := d, wr_bitMask := 1\<rparr>"
  let ?s2 = "write_line_low env (?s1\<lparr>hist := Tick False # hist ?s1\<rparr>)"
  have t1: "tick env s = Some ?s1"
    using tick_write(1) [OF assms(1-4)] assms(6) by simp
  have np: "\<not> pulls_low (ow_pin env) ?s1"
    using assms(6) by (simp add: pulls_low_def)
  have t2: "tick env ?s1 = Some ?s2"
    using tick_write(2) [of ?s1 env] assms np by (simp add: armed_def)
  have "in_slot env ?s2" "wr_bitMask ?s2 = 2 ^ 0" "has_next ?s2"
    using assms by (simp_all add: in_slot_def write_line_low_def armed_def pin_defs has_next_def)
  from ticks_write_bits [OF this(1,2), of 8] this(3) obtain s' where
    s': "ticks env 56 ?s2 = Some s'" "op_done env ?s2 s'" "spad_buf s' = spad_buf ?s2"
      "hist s' = rev (concat (map (\<lambda>i. slot (bit (wr_data ?s2) i)) [0..<8])) @ hist ?s2"
    by auto
  have f: "frame ?s2 = frame s" "seq_pos ?s2 = seq_pos s" "seq_arr ?s2 = seq_arr s" "wr_data ?s2 = d"
    "hist ?s2 = Tick False # Tick False # hist s" "spad_buf ?s2 = spad_buf s"
    by (simp_all add: write_line_low_def pin_defs frame_def)
  have "ticks env (Suc (Suc 56)) s = Some s'"
    by (simp only: ticks.simps t1 t2 s'(1) bind.bind_lunit)
  then show ?thesis
    using s'(2-4) f by (intro exI [of _ s']) (simp add: op_done_def write_wave_def bits_of_def comp_def)
qed

text \<open>
  A device on the line counts from a falling edge and takes the bit in the third period, 20
  to 30 microseconds behind the edge (the protocol asks for 15 to 60).
\<close>

fun device_step :: "bool \<times> nat \<times> bool list \<Rightarrow> bus_event \<Rightarrow> bool \<times> nat \<times> bool list" where
  "device_step (low, c, bs) (Tick l) =
     (if \<not> low \<and> l \<and> c = 0 then (l, 2, bs) else if c = 1 then (l, 0, bs @ [\<not> l]) else (l, c - 1, bs))"
| "device_step st _ = st"

definition device_bits :: "bus_event list \<Rightarrow> bool list" where
  "device_bits evs = snd (snd (foldl device_step (False, 0, []) evs))"

lemma device_slot: "foldl device_step (False, 0, bs) (slot b) = (False, 0, bs @ [b])"
  by (simp add: slot_def)

lemma device_wave: "foldl device_step (False, 0, bs) (concat (map slot cs)) = (False, 0, bs @ cs)"
  by (induction cs arbitrary: bs) (simp_all add: device_slot)

text \<open>
  C28: an operation that writes a byte takes 58 interrupts, ends with the line released and
  the next operation of the sequence selected, and a device that samples the line reads
  exactly the bits of the byte, least significant bit first.
\<close>

theorem ow_write_byte:
  assumes "armed s" "op_type s = OW_OP_WRITE" "seq_state s = OW_SEQ_STATE_TRANSITION" "cur_arg s = Some d"
    and "has_next s" "\<not> pulls_low (ow_pin env) s"
  shows "\<exists>s' w. ticks env 58 s = Some s' \<and> op_done env s s' \<and> spad_buf s' = spad_buf s \<and>
    hist s' = rev w @ hist s \<and> device_bits w = bits_of d"
proof -
  obtain s' where s': "ticks env 58 s = Some s'" "op_done env s s'" "spad_buf s' = spad_buf s"
    "hist s' = rev (Tick False # Tick False # write_wave d) @ hist s"
    using ticks_write [OF assms] by blast
  moreover have "device_bits (Tick False # Tick False # write_wave d) = bits_of d"
    by (simp add: device_bits_def write_wave_def device_wave)
  ultimately show ?thesis
    by blast
qed


text \<open>The memory of the driver after power-up, and lines that read the same all the time.\<close>

definition ow_blank :: onewire where
  "ow_blank = \<lparr>gpio_enabled = (\<lambda>_. False), gpio_open_drain = (\<lambda>_. False), gpio_out = (\<lambda>_. False),
     iomux_output = (\<lambda>_. False), iomux_output_sleep = (\<lambda>_. False), iomux_gpio = (\<lambda>_. False),
     iomux_pullup = (\<lambda>_. False), iomux_pullup_sleep = (\<lambda>_. False), iomux_pulldown = (\<lambda>_. False),
     iomux_pulldown_sleep = (\<lambda>_. False), rtc_GPIO_OUT = 0, rtc_GPIO_ENABLE = 0, rtc_GPIO_CONF = 0, rtc_GPIO_CFG3 = 0, timer_LOAD = (\<lambda>_. 0), timer_COUNT = (\<lambda>_. 0), timer_CTRL = (\<lambda>_. 0),
     timer_ALARM = (\<lambda>_. 0), timer_int_enabled = (\<lambda>_. False), frc1_isr = None,
     hw_timer_state = HW_TIMER_DISABLED, ow_hw_running = 0, ow_hw_maxLoad = 0, ow_hw_onLoad = 0, ow_hw_offLoad = 0,
     ow_hw_step = 0, hw_loadval = 0,
     seq_arr = None, arg_arr = None, seq_len = 0, seq_state = 0, seq_pos = 0, ow_error = 0, op_type = 0, cur_op = 0,
     delay_count = 0, spad_buf = replicate 9 0, UUID = replicate 8 0, have_uuid = 0, ow_state = 0, ow_callback = None,
     ow_task_arg = 0, latest_temp = \<lparr>temp_sign = 0, temp_val = 0, temp_fract = 0, temp_available = 0\<rparr>,
     prev_temp = \<lparr>temp_sign = 0, temp_val = 0, temp_fract = 0, temp_available = 0\<rparr>, pub_queue = False, queue_sends = [],
     rd_bitMask = 1, rd_sample = False, rd_readsLeft = 0, rd_readCount = 0, rd_data = 0, wr_bitMask = 1, wr_data = 0,
     task_at = Task_loop, hist = []\<rparr>"

definition steady_line :: "bool \<Rightarrow> ow_env" where
  "steady_line b = \<lparr>TEMP_SENSOR_PIN = 5, pin_in = (\<lambda>_. b), ow_malloc_ok = (\<lambda>_. True)\<rparr>"

text \<open>The first command of a conversion.\<close>

definition before_write :: onewire where
  "before_write = ow_blank\<lparr>timer_LOAD := (\<lambda>_. 44), seq_arr := Some [1, 3, 3, 4], arg_arr := Some [0, 0xCC, 0x44, 0], seq_len := 4,
     seq_pos := 1, seq_state := 4, op_type := 3\<rparr>"

theorem ow_write_byte_witness:
  "\<exists>s' w. ticks (steady_line True) 58 before_write = Some s' \<and> op_done (steady_line True) before_write s' \<and>
    hist s' = rev w \<and> device_bits w = bits_of 0xCC"
  using ow_write_byte [of before_write "0xCC" "steady_line True"]
  by (auto simp: before_write_def ow_blank_def steady_line_def armed_def cur_arg_def read_at_def has_next_def pulls_low_def)


section \<open>Reading\<close>

definition read_pulse :: "ow_env \<Rightarrow> onewire \<Rightarrow> onewire" where
  "read_pulse env s =
     (gpio_disable (ow_pin env) (sdk_os_delay_us env 2
       (gpio_write (ow_pin env) False (gpio_enable (ow_pin env) GPIO_OUT_OPEN_DRAIN s))))\<lparr>cur_op := 3\<rparr>"

lemma read_pulse_eq:
  "read_pulse env s = s\<lparr>gpio_open_drain := (gpio_open_drain s)(ow_pin env := True),
     gpio_enabled := (gpio_enabled s)(ow_pin env := False), iomux_gpio := (iomux_gpio s)(ow_pin env := True),
     iomux_output := (iomux_output s)(ow_pin env := False), iomux_output_sleep := (iomux_output_sleep s)(ow_pin env := False),
     gpio_out := (gpio_out s)(ow_pin env := False), hist := Delay_us 2 True # hist s, cur_op := 3\<rparr>"
  by (simp add: read_pulse_def pin_defs sdk_os_delay_us_def pulls_low_def)

lemma tick_read:
  fixes env s
  defines "h \<equiv> Tick (pulls_low (ow_pin env) s) # hist s"
  assumes "armed s" "op_type s = 2"
  shows "seq_state s = 4 \<Longrightarrow> cur_arg s = Some n \<Longrightarrow>
      tick env s = Some (read_pulse env (s\<lparr>hist := h, seq_state := 3, rd_bitMask := 1, rd_sample := False,
        rd_readCount := 0, rd_data := 0, rd_readsLeft := n\<rparr>))"
    and "seq_state s = 3 \<Longrightarrow> cur_op s = 3 \<Longrightarrow> \<not> pulls_low (ow_pin env) s \<Longrightarrow> pin_in env h = b \<Longrightarrow>
      tick env s = Some (s\<lparr>hist := Sample b # h, rd_sample := b, rd_data := (if b then rd_data s OR rd_bitMask s else rd_data s),
        rd_bitMask := push_bit 1 (rd_bitMask s), delay_count := 4, cur_op := 4\<rparr>)"
    and "seq_state s = 3 \<Longrightarrow> cur_op s = 4 \<Longrightarrow> delay_count s \<noteq> 1 \<Longrightarrow>
      tick env s = Some (s\<lparr>hist := h, delay_count := delay_count s - 1\<rparr>)"
    and "seq_state s = 3 \<Longrightarrow> cur_op s = 4 \<Longrightarrow> delay_count s = 1 \<Longrightarrow> rd_bitMask s \<noteq> 0 \<Longrightarrow>
      tick env s = Some (read_pulse env (s\<lparr>hist := h, delay_count := 0\<rparr>))"
    and "seq_state s = 3 \<Longrightarrow> cur_op s = 4 \<Longrightarrow> delay_count s = 1 \<Longrightarrow> rd_bitMask s = 0 \<Longrightarrow>
      unat (rd_readCount s) < length (spad_buf s) \<Longrightarrow> rd_readsLeft s \<noteq> 1 \<Longrightarrow>
      tick env s = Some (read_pulse env (s\<lparr>hist := h, delay_count := 0, spad_buf := (spad_buf s)[unat (rd_readCount s) := rd_data s],
        rd_readCount := rd_readCount s + 1, rd_data := 0, rd_bitMask := 1, rd_readsLeft := rd_readsLeft s - 1\<rparr>))"
    and "seq_state s = 3 \<Longrightarrow> cur_op s = 4 \<Longrightarrow> delay_count s = 1 \<Longrightarrow> rd_bitMask s = 0 \<Longrightarrow>
      unat (rd_readCount s) < length (spad_buf s) \<Longrightarrow> rd_readsLeft s = 1 \<Longrightarrow> has_next s \<Longrightarrow>
      tick env s = Some (next_op (s\<lparr>hist := h, delay_count := 0, spad_buf := (spad_buf s)[unat (rd_readCount s) := rd_data s],
        rd_readCount := rd_readCount s + 1, rd_data := 0, rd_bitMask := 1, rd_readsLeft := 0\<rparr>))"
  using assms
  by (auto simp: tick_defs OW_doit_read_def OW_read_again.simps read_pulse_eq sdk_os_delay_us_def line_read_def pulls_low_def
      next_op_def has_next_def read_at_def write_at_def)

text \<open>
  The time slot of a bit that is read: the pulse of two microseconds, the sample at the next
  interrupt, four more interrupts. The bits are what the pin gives at the samples.
\<close>

definition read_slot :: "bool \<Rightarrow> bus_event list" where
  "read_slot b = [Delay_us 2 True, Tick False, Sample b, Tick False, Tick False, Tick False, Tick False]"

fun read_bits :: "ow_env \<Rightarrow> nat \<Rightarrow> bus_event list \<Rightarrow> bool list" where
  "read_bits env 0 h = []"
| "read_bits env (Suc n) h =
     (let b = pin_in env (Tick False # Delay_us 2 True # h) in b # read_bits env n (rev (read_slot b) @ h))"

lemma length_read_bits [simp]: "length (read_bits env n h) = n"
  by (induction n arbitrary: h) (simp_all add: Let_def)

lemma read_bits_add:
  "read_bits env (m + n) h =
     (let bs = read_bits env m h in bs @ read_bits env n (rev (concat (map read_slot bs)) @ h))"
  by (induction m arbitrary: h) (simp_all add: Let_def)

definition byte_of :: "bool list \<Rightarrow> byte" where
  "byte_of bs = horner_sum of_bool 2 bs"

lemma bit_byte_of: "bit (byte_of bs) i \<longleftrightarrow> i < 8 \<and> i < length bs \<and> bs ! i"
  by (simp add: byte_of_def bit_horner_sum_bit_iff possible_bit_def)

lemma byte_of_bits_of: "byte_of (bits_of w) = w"
  by (rule bit_word_eqI) (simp add: bit_byte_of bits_of_def)

lemma byte_of_snoc: "length bs < 8 \<Longrightarrow> byte_of (bs @ [b]) = (if b then byte_of bs OR 2 ^ length bs else byte_of bs)"
  by (rule bit_word_eqI) (auto simp: bit_byte_of bit_or_iff bit_exp_iff nth_append possible_bit_def less_Suc_eq)

text \<open>Behind a pulse, with \<open>k\<close> bits of the current byte read.\<close>

definition in_read :: "ow_env \<Rightarrow> bool list \<Rightarrow> onewire \<Rightarrow> bool" where
  "in_read env bs s \<longleftrightarrow> armed s \<and> op_type s = 2 \<and> seq_state s = 3 \<and> cur_op s = 3 \<and> \<not> pulls_low (ow_pin env) s \<and>
     rd_data s = byte_of bs \<and> rd_bitMask s = 2 ^ length bs \<and> length bs < 8"

lemma ticks_sample:
  assumes "in_read env bs s" "hist s = Delay_us 2 True # h" "b = pin_in env (Tick False # hist s)"
  shows "ticks env 4 s = Some (s\<lparr>hist := tl (rev (read_slot b)) @ h, rd_sample := b,
    rd_data := byte_of (bs @ [b]), rd_bitMask := 2 ^ length (bs @ [b]), delay_count := 1, cur_op := 4\<rparr>)"
proof -
  have four: "(4 :: nat) = Suc (Suc (Suc (Suc 0)))"
    by simp
  have d: "(if b then rd_data s OR rd_bitMask s else rd_data s) = byte_of (bs @ [b])"
    using assms(1) by (simp add: in_read_def byte_of_snoc)
  show ?thesis
    unfolding four using assms d
    by (simp add: in_read_def tick_read armed_def read_slot_def mult.commute)
qed

definition rd_frame where
  "rd_frame s = (frame s, seq_pos s, spad_buf s, rd_readCount s, rd_readsLeft s)"

lemma frameD:
  assumes "frame s' = frame s"
  shows "seq_arr s' = seq_arr s" "arg_arr s' = arg_arr s" "seq_len s' = seq_len s"
  using assms by (simp_all add: frame_def)

lemma rd_frameD:
  assumes "rd_frame s' = rd_frame s"
  shows "spad_buf s' = spad_buf s" "rd_readCount s' = rd_readCount s" "rd_readsLeft s' = rd_readsLeft s"
    "frame s' = frame s" "seq_pos s' = seq_pos s" "has_next s' = has_next s"
  using assms frameD [of s' s] by (auto simp: rd_frame_def has_next_def)

text \<open>All bits of a byte are read, the last wait ends with the next interrupt.\<close>

definition byte_full :: "ow_env \<Rightarrow> onewire \<Rightarrow> bool" where
  "byte_full env s \<longleftrightarrow> armed s \<and> op_type s = 2 \<and> seq_state s = 3 \<and> cur_op s = 4 \<and> delay_count s = 1 \<and>
     rd_bitMask s = 0 \<and> \<not> pulls_low (ow_pin env) s"

lemma ticks_byte:
  assumes "in_read env bs s" "hist s = Delay_us 2 True # h" "length bs + Suc n = 8"
  shows "\<exists>s'. ticks env (5 * n + 4) s = Some s' \<and> byte_full env s' \<and> rd_frame s' = rd_frame s \<and>
    rd_data s' = byte_of (bs @ read_bits env (Suc n) h) \<and>
    Tick False # hist s' = rev (concat (map read_slot (read_bits env (Suc n) h))) @ h"
  using assms
proof (induction n arbitrary: bs s h)
  case 0
  let ?b = "pin_in env (Tick False # hist s)"
  have l: "length bs = 7"
    using 0 by simp
  have "(2 ^ 8 :: byte) = 0"
    by simp
  then show ?case
    using ticks_sample [OF 0(1,2) refl] 0 l
    by (auto simp: byte_full_def in_read_def armed_def rd_frame_def frame_def read_slot_def)
next
  case (Suc n)
  let ?b = "pin_in env (Tick False # hist s)"
  let ?s1 = "s\<lparr>hist := tl (rev (read_slot ?b)) @ h, rd_sample := ?b,
    rd_data := byte_of (bs @ [?b]), rd_bitMask := 2 ^ length (bs @ [?b]), delay_count := 1, cur_op := 4\<rparr>"
  let ?h = "rev (read_slot ?b) @ h"
  let ?s2 = "read_pulse env (?s1\<lparr>hist := ?h, delay_count := 0\<rparr>)"
  have s1: "ticks env 4 s = Some ?s1"
    using ticks_sample [OF Suc.prems(1,2) refl] .
  have m: "(2 ^ length (bs @ [?b]) :: byte) \<noteq> 0"
    using Suc.prems(3) by (simp del: power_Suc)
  have s2: "tick env ?s1 = Some ?s2"
    using tick_read(4) [of ?s1 env] Suc.prems(1) m by (simp add: in_read_def armed_def read_slot_def del: power_Suc)
  have "in_read env (bs @ [?b]) ?s2" "hist ?s2 = Delay_us 2 True # ?h" "length (bs @ [?b]) + Suc n = 8"
    using Suc.prems by (simp_all add: in_read_def read_pulse_eq armed_def pulls_low_def)
  from Suc.IH [OF this] obtain s' where s': "ticks env (5 * n + 4) ?s2 = Some s'" "byte_full env s'" "rd_frame s' = rd_frame ?s2"
    "rd_data s' = byte_of ((bs @ [?b]) @ read_bits env (Suc n) ?h)"
    "Tick False # hist s' = rev (concat (map read_slot (read_bits env (Suc n) ?h))) @ ?h"
    by blast
  have "5 * Suc n + 4 = 4 + Suc (5 * n + 4)"
    by simp
  moreover have "ticks env (4 + Suc (5 * n + 4)) s = Some s'"
    by (rule ticks_addI [OF s1]) (simp only: ticks.simps s2 s'(1) bind.bind_lunit)
  ultimately have "ticks env (5 * Suc n + 4) s = Some s'"
    by (simp only:)
  moreover have "rd_frame ?s2 = rd_frame s"
    by (simp add: rd_frame_def frame_def read_pulse_eq)
  moreover have "read_bits env (Suc (Suc n)) h = ?b # read_bits env (Suc n) ?h"
    using Suc.prems(2) by (simp add: Let_def)
  ultimately show ?case
    using s'(2-5) by (intro exI [of _ s']) (simp del: read_bits.simps)
qed

fun read_bytes :: "ow_env \<Rightarrow> nat \<Rightarrow> bus_event list \<Rightarrow> byte list" where
  "read_bytes env 0 h = []"
| "read_bytes env (Suc m) h =
     (let bs = read_bits env 8 h in byte_of bs # read_bytes env m (rev (concat (map read_slot bs)) @ h))"

lemma length_read_bytes [simp]: "length (read_bytes env m h) = m"
  by (induction m arbitrary: h) (simp_all add: Let_def)

lemma write_list_update:
  assumes "length xs = i" "i < length ys"
  shows "(xs @ drop i ys)[i := y] = xs @ y # drop (Suc i) ys"
  using assms by (simp add: list_update_append Cons_nth_drop_Suc [symmetric])

lemma ticks_read_bytes:
  assumes "in_read env [] s" "hist s = Delay_us 2 True # h" "unat (rd_readsLeft s) = Suc m"
    and "spad_buf s = xs @ drop (length xs) buf" "length xs = unat (rd_readCount s)" "length xs + Suc m \<le> length buf" "length buf < 256"
    and "has_next s"
  shows "\<exists>s'. ticks env (40 * Suc m) s = Some s' \<and> op_done env s s' \<and>
    spad_buf s' = xs @ read_bytes env (Suc m) h @ drop (length xs + Suc m) buf"
  using assms
proof (induction m arbitrary: s h xs)
  case (0 s h xs)
  obtain s1 where s1: "ticks env 39 s = Some s1" "byte_full env s1" "rd_frame s1 = rd_frame s"
    "rd_data s1 = byte_of (read_bits env 8 h)"
    using ticks_byte [OF 0(1,2), of 7] by (auto simp del: read_bits.simps)
  note f = rd_frameD [OF s1(3)]
  have left: "rd_readsLeft s = 1"
    using 0(3) by (simp add: word_unat_eq_iff)
  let ?s' = "next_op (s1\<lparr>hist := Tick False # hist s1, delay_count := 0, spad_buf := (spad_buf s1)[unat (rd_readCount s1) := rd_data s1],
        rd_readCount := rd_readCount s1 + 1, rd_data := 0, rd_bitMask := 1, rd_readsLeft := 0\<rparr>)"
  have "tick env s1 = Some ?s'"
    using tick_read(6) [of s1 env] s1(2) f 0 left by (simp add: byte_full_def)
  then have "ticks env (39 + Suc 0) s = Some ?s'"
    by (intro ticks_addI [OF s1(1)]) simp
  moreover have "op_done env s ?s'"
    using s1(2) f frameD [OF f(4)] by (simp add: op_done_def next_op_def byte_full_def armed_def frame_def)
  moreover have "spad_buf ?s' = xs @ read_bytes env (Suc 0) h @ drop (length xs + Suc 0) buf"
    using f s1(4) 0 by (simp add: next_op_def write_list_update Let_def)
  ultimately show ?case
    by auto
next
  case (Suc m s h xs)
  let ?bs = "read_bits env 8 h"
  let ?h = "rev (concat (map read_slot ?bs)) @ h"
  obtain s1 where s1: "ticks env 39 s = Some s1" "byte_full env s1" "rd_frame s1 = rd_frame s" "rd_data s1 = byte_of ?bs"
    "Tick False # hist s1 = ?h"
    using ticks_byte [OF Suc.prems(1,2), of 7] by (auto simp del: read_bits.simps)
  note f = rd_frameD [OF s1(3)]
  have left: "rd_readsLeft s \<noteq> 1" "unat (rd_readsLeft s - 1) = Suc m"
    using Suc.prems(3) by (auto simp: unat_sub word_le_nat_alt)
  have count: "unat (rd_readCount s + 1) = length xs + 1"
    using Suc.prems(5-7) by (simp add: unat_word_ariths)
  let ?s2 = "read_pulse env (s1\<lparr>hist := ?h, delay_count := 0, spad_buf := (spad_buf s1)[unat (rd_readCount s1) := rd_data s1],
        rd_readCount := rd_readCount s1 + 1, rd_data := 0, rd_bitMask := 1, rd_readsLeft := rd_readsLeft s1 - 1\<rparr>)"
  have s2: "tick env s1 = Some ?s2"
    using tick_read(5) [of s1 env] s1(2,5) f Suc.prems(4-6) left by (simp add: byte_full_def)
  have buf: "spad_buf ?s2 = (xs @ [byte_of ?bs]) @ drop (length (xs @ [byte_of ?bs])) buf"
    using f s1(4) Suc.prems(4-6) by (simp add: read_pulse_eq write_list_update)
  have "in_read env [] ?s2"
    using s1(2) by (simp add: in_read_def byte_full_def armed_def read_pulse_eq pulls_low_def byte_of_def)
  moreover have "hist ?s2 = Delay_us 2 True # ?h" "unat (rd_readsLeft ?s2) = Suc m"
    "length (xs @ [byte_of ?bs]) = unat (rd_readCount ?s2)" "length (xs @ [byte_of ?bs]) + Suc m \<le> length buf" "has_next ?s2"
    using left count f Suc.prems(6,8) by (simp_all add: read_pulse_eq has_next_def)
  ultimately obtain s' where s': "ticks env (40 * Suc m) ?s2 = Some s'" "op_done env ?s2 s'"
    "spad_buf s' = (xs @ [byte_of ?bs]) @ read_bytes env (Suc m) ?h @ drop (length (xs @ [byte_of ?bs]) + Suc m) buf"
    using Suc.IH [of ?s2 ?h "xs @ [byte_of ?bs]"] buf Suc.prems(7) by blast
  have "40 * Suc (Suc m) = 39 + Suc (40 * Suc m)"
    by simp
  moreover have "ticks env (39 + Suc (40 * Suc m)) s = Some s'"
    by (rule ticks_addI [OF s1(1)]) (simp only: ticks.simps s2 s'(1) bind.bind_lunit)
  ultimately have "ticks env (40 * Suc (Suc m)) s = Some s'"
    by (simp only:)
  moreover have "frame ?s2 = frame s" "seq_pos ?s2 = seq_pos s" "seq_arr ?s2 = seq_arr s"
    using f frameD [OF f(4)] by (simp_all add: read_pulse_eq frame_def)
  then have "op_done env s s'"
    using s'(2) by (simp add: op_done_def)
  ultimately show ?case
    using s'(3) by (intro exI [of _ s']) (simp add: Let_def)
qed

lemma ticks_read:
  assumes "armed s" "op_type s = 2" "seq_state s = 4" "cur_arg s = Some n" "0 < n" "unat n \<le> length (spad_buf s)"
    and "length (spad_buf s) < 256" "has_next s" "\<not> pulls_low (ow_pin env) s"
  shows "\<exists>s'. ticks env (Suc (40 * unat n)) s = Some s' \<and> op_done env s s' \<and>
    spad_buf s' = read_bytes env (unat n) (Tick False # hist s) @ drop (unat n) (spad_buf s)"
proof -
  let ?s1 = "read_pulse env (s\<lparr>hist := Tick False # hist s, seq_state := 3, rd_bitMask := 1, rd_sample := False,
        rd_readCount := 0, rd_data := 0, rd_readsLeft := n\<rparr>)"
  have t1: "tick env s = Some ?s1"
    using tick_read(1) [OF assms(1-4)] assms(9) by simp
  obtain m where m: "unat n = Suc m"
    using assms(5) by (metis gr0_implies_Suc unat_0 unat_gt_0 word_gt_0)
  have "in_read env [] ?s1" "hist ?s1 = Delay_us 2 True # Tick False # hist s" "unat (rd_readsLeft ?s1) = Suc m"
    "spad_buf ?s1 = [] @ drop (length []) (spad_buf s)" "length [] = unat (rd_readCount ?s1)"
    "length [] + Suc m \<le> length (spad_buf s)" "has_next ?s1"
    using assms m by (simp_all add: in_read_def armed_def read_pulse_eq pulls_low_def byte_of_def has_next_def)
  from ticks_read_bytes [OF this(1-6) assms(7) this(7)] obtain s' where
    s': "ticks env (40 * Suc m) ?s1 = Some s'" "op_done env ?s1 s'"
      "spad_buf s' = read_bytes env (Suc m) (Tick False # hist s) @ drop (Suc m) (spad_buf s)"
    by auto
  have "ticks env (Suc (40 * unat n)) s = Some s'"
    unfolding m by (simp only: ticks.simps t1 s'(1) bind.bind_lunit)
  moreover have "op_done env s s'"
    using s'(2) by (simp add: op_done_def read_pulse_eq frame_def)
  ultimately show ?thesis
    using s'(3) m by auto
qed

text \<open>The device on the other side sends the bytes, each least significant bit first.\<close>

definition sends :: "ow_env \<Rightarrow> bus_event list \<Rightarrow> byte list \<Rightarrow> bool" where
  "sends env h bs \<longleftrightarrow> read_bits env (8 * length bs) h = concat (map bits_of bs)"

lemma length_bits_of [simp]: "length (bits_of b) = 8"
  by (simp add: bits_of_def)

lemma sends_read_bytes: "sends env h bs \<Longrightarrow> read_bytes env (length bs) h = bs"
proof (induction bs arbitrary: h)
  case (Cons b bs)
  let ?xs = "read_bits env 8 h"
  have "read_bits env (8 + 8 * length bs) h = bits_of b @ concat (map bits_of bs)"
    using Cons.prems by (simp add: sends_def)
  then have "?xs = bits_of b" "read_bits env (8 * length bs) (rev (concat (map read_slot ?xs)) @ h) = concat (map bits_of bs)"
    unfolding read_bits_add Let_def by auto
  then show ?case
    using Cons.IH [of "rev (concat (map read_slot ?xs)) @ h"] by (simp add: Let_def byte_of_bits_of sends_def)
qed simp


section \<open>Reset\<close>

lemma run_callback_error: "ow_error s \<noteq> 0 \<Longrightarrow> run_callback env (Some c) s = Some (OW_handle_error s)"
  by (cases c) (simp_all add: read_uuid_done_cb_def conv_t_done_cb_def read_temp_done_cb_def)

lemma handle_error_LOAD: "timer_LOAD (OW_handle_error s) = timer_LOAD s"
  by (simp add: OW_handle_error_def hw_timer_stop_def)

lemma tick_reset:
  fixes env s
  defines "h \<equiv> Tick (pulls_low (ow_pin env) s) # hist s"
  assumes "armed s" "op_type s = 1"
  shows "seq_state s = 4 \<Longrightarrow>
      tick env s = Some (gpio_write (ow_pin env) False (gpio_enable (ow_pin env) GPIO_OUT_OPEN_DRAIN
        (s\<lparr>hist := h, seq_state := 3, delay_count := 48, cur_op := 2\<rparr>)))"
    and "seq_state s = 3 \<Longrightarrow> cur_op s = 2 \<Longrightarrow> delay_count s \<noteq> 1 \<Longrightarrow>
      tick env s = Some (s\<lparr>hist := h, delay_count := delay_count s - 1\<rparr>)"
    and "seq_state s = 3 \<Longrightarrow> cur_op s = 2 \<Longrightarrow> delay_count s = 1 \<Longrightarrow>
      tick env s = Some (gpio_disable (ow_pin env) (s\<lparr>hist := h, delay_count := 6, cur_op := 3\<rparr>))"
    and "seq_state s = 3 \<Longrightarrow> cur_op s = 3 \<Longrightarrow> \<not> pulls_low (ow_pin env) s \<Longrightarrow> \<not> pin_in env h \<Longrightarrow>
      tick env s = Some (s\<lparr>hist := Sample False # h, delay_count := 47, cur_op := 4\<rparr>)"
    and "seq_state s = 3 \<Longrightarrow> cur_op s = 3 \<Longrightarrow> \<not> pulls_low (ow_pin env) s \<Longrightarrow> pin_in env h \<Longrightarrow> delay_count s \<noteq> 1 \<Longrightarrow>
      tick env s = Some (s\<lparr>hist := Sample True # h, delay_count := delay_count s - 1\<rparr>)"
    and "seq_state s = 3 \<Longrightarrow> cur_op s = 4 \<Longrightarrow> delay_count s \<noteq> 1 \<Longrightarrow>
      tick env s = Some (s\<lparr>hist := h, delay_count := delay_count s - 1\<rparr>)"
    and "seq_state s = 3 \<Longrightarrow> cur_op s = 4 \<Longrightarrow> delay_count s = 1 \<Longrightarrow>
      tick env s = Some (s\<lparr>hist := h, delay_count := 0, cur_op := 5\<rparr>)"
    and "seq_state s = 3 \<Longrightarrow> cur_op s = 5 \<Longrightarrow> has_next s \<Longrightarrow> tick env s = Some (next_op (s\<lparr>hist := h\<rparr>))"
    and "seq_state s = 3 \<Longrightarrow> cur_op s = 3 \<Longrightarrow> \<not> pulls_low (ow_pin env) s \<Longrightarrow> pin_in env h \<Longrightarrow> delay_count s = 1 \<Longrightarrow>
      ow_callback s \<noteq> None \<Longrightarrow>
      tick env s = Some (OW_handle_error ((gpio_disable (ow_pin env)
        (s\<lparr>delay_count := 0, hist := Sample True # h\<rparr>))\<lparr>ow_error := 3, seq_state := 5\<rparr>))"
  using assms
  by (auto simp: tick_defs OW_doit_reset_def line_read_def next_op_def has_next_def read_at_def run_callback_error
      handle_error_LOAD simp del: run_callback.simps)

lemma ticks_countdown:
  assumes "armed s" "op_type s = 1" "seq_state s = 3" "cur_op s = 2 \<or> cur_op s = 4" "delay_count s = of_nat (Suc n)" "n < 255"
  shows "ticks env n s = Some (s\<lparr>hist := replicate n (Tick (pulls_low (ow_pin env) s)) @ hist s, delay_count := 1\<rparr>)"
  using assms
proof (induction n arbitrary: s)
  case (Suc n)
  let ?s = "s\<lparr>hist := Tick (pulls_low (ow_pin env) s) # hist s, delay_count := of_nat (Suc n)\<rparr>"
  have "unat (delay_count s) = Suc (Suc n)"
    using Suc.prems(5,6) by (simp add: unat_of_nat take_bit_nat_eq_self del: of_nat_Suc)
  then have "delay_count s \<noteq> 1"
    by auto
  moreover have "delay_count s - 1 = of_nat (Suc n)"
    using Suc.prems(5) by simp
  ultimately have "tick env s = Some ?s"
    using tick_reset(2) [OF Suc.prems(1-3)] tick_reset(6) [OF Suc.prems(1-3)] Suc.prems(4) by auto
  with Suc.IH [of ?s] Suc.prems show ?case
    by (simp add: armed_def replicate_app_Cons_same)
qed simp

text \<open>
  The history behind \<open>i\<close> samples without an answer, and a device that answers the reset
  with its presence pulse at sample \<open>j\<close>, counted from 0.
\<close>

fun no_answer :: "nat \<Rightarrow> bus_event list \<Rightarrow> bus_event list" where
  "no_answer 0 h = h"
| "no_answer (Suc i) h = no_answer i (Sample True # Tick False # h)"

definition answers :: "ow_env \<Rightarrow> bus_event list \<Rightarrow> nat \<Rightarrow> bool" where
  "answers env h j \<longleftrightarrow> (\<forall>i<j. pin_in env (Tick False # no_answer i h)) \<and> \<not> pin_in env (Tick False # no_answer j h)"

lemma ticks_no_answer:
  assumes "armed s" "op_type s = 1" "seq_state s = 3" "cur_op s = 3" "\<not> pulls_low (ow_pin env) s"
    and "delay_count s = of_nat (j + Suc m)" "j + m < 255" "\<forall>i<j. pin_in env (Tick False # no_answer i (hist s))"
  shows "ticks env j s = Some (s\<lparr>hist := no_answer j (hist s), delay_count := of_nat (Suc m)\<rparr>)"
  using assms
proof (induction j arbitrary: s)
  case (Suc j)
  let ?s = "s\<lparr>hist := Sample True # Tick False # hist s, delay_count := of_nat (j + Suc m)\<rparr>"
  have "unat (delay_count s) = Suc j + Suc m"
    using Suc.prems(6,7) by (simp add: unat_of_nat take_bit_nat_eq_self del: of_nat_Suc of_nat_add)
  then have "delay_count s \<noteq> 1"
    by auto
  moreover have "delay_count s - 1 = of_nat (j + Suc m)"
    using Suc.prems(6) by simp
  moreover have "pin_in env (Tick False # hist s)"
    using Suc.prems(8) by fastforce
  ultimately have "tick env s = Some ?s"
    using tick_reset(5) [OF Suc.prems(1-5)] Suc.prems(5) by simp
  moreover have "\<forall>i<j. pin_in env (Tick False # no_answer i (hist ?s))"
  proof (intro allI impI)
    fix i
    assume "i < j"
    then show "pin_in env (Tick False # no_answer i (hist ?s))"
      using Suc.prems(8) [rule_format, of "Suc i"] by simp
  qed
  ultimately show ?case
    using Suc.IH [of ?s] Suc.prems(1-7) by (simp add: armed_def)
qed simp

text \<open>
  The history behind the low phase of a reset. The line may already be held low when the reset
  begins: enabling the output lets out what the latch holds.
\<close>

definition reset_low :: "bool \<Rightarrow> bus_event list \<Rightarrow> bus_event list" where
  "reset_low l h = replicate 48 (Tick True) @ Tick l # h"

lemma ticks_reset_low:
  assumes "armed s" "op_type s = 1" "seq_state s = 4"
  shows "\<exists>s'. ticks env 49 s = Some s' \<and> armed s' \<and> op_type s' = 1 \<and> seq_state s' = 3 \<and> cur_op s' = 3 \<and>
    delay_count s' = 6 \<and> \<not> pulls_low (ow_pin env) s' \<and> hist s' = reset_low (pulls_low (ow_pin env) s) (hist s) \<and> frame s' = frame s \<and>
    seq_pos s' = seq_pos s \<and> spad_buf s' = spad_buf s"
proof -
  let ?s1 = "gpio_write (ow_pin env) False (gpio_enable (ow_pin env) GPIO_OUT_OPEN_DRAIN
        (s\<lparr>hist := Tick (pulls_low (ow_pin env) s) # hist s, seq_state := 3, delay_count := 48, cur_op := 2\<rparr>))"
  let ?s2 = "?s1\<lparr>hist := replicate 47 (Tick True) @ hist ?s1, delay_count := 1\<rparr>"
  let ?s3 = "gpio_disable (ow_pin env) (?s2\<lparr>hist := Tick True # hist ?s2, delay_count := 6, cur_op := 3\<rparr>)"
  have t1: "tick env s = Some ?s1"
    by (rule tick_reset(1) [OF assms])
  have low: "pulls_low (ow_pin env) ?s1"
    by (simp add: pin_defs pulls_low_def)
  have t2: "ticks env 47 ?s1 = Some ?s2"
    using ticks_countdown [of ?s1 47 env] low assms by (simp add: armed_def pin_defs)
  have t3: "tick env ?s2 = Some ?s3"
    using tick_reset(3) [of ?s2 env] low assms by (simp add: armed_def pin_defs pulls_low_def)
  have "ticks env (Suc (47 + Suc 0)) s = Some ?s3"
    by (simp only: ticks.simps ticks_add t1 t2 t3 bind.bind_lunit)
  moreover have "Tick True # replicate 47 (Tick True) = replicate 48 (Tick True)"
    using replicate_Suc [of 47 "Tick True"] by simp
  ultimately show ?thesis
    using assms(1,2)
    by (intro exI [of _ ?s3]) (simp add: armed_def pin_defs pulls_low_def frame_def reset_low_def)
qed

lemma ticks_reset:
  assumes "armed s" "op_type s = 1" "seq_state s = 4" "has_next s"
    and "j < 6" "answers env (reset_low (pulls_low (ow_pin env) s) (hist s)) j"
  shows "\<exists>s'. ticks env (98 + j) s = Some s' \<and> op_done env s s' \<and> spad_buf s' = spad_buf s \<and>
    hist s' = replicate 48 (Tick False) @ [Sample False, Tick False] @ no_answer j (reset_low (pulls_low (ow_pin env) s) (hist s))"
proof -
  obtain s1 where s1: "ticks env 49 s = Some s1" "armed s1" "op_type s1 = 1" "seq_state s1 = 3" "cur_op s1 = 3"
    "delay_count s1 = 6" "\<not> pulls_low (ow_pin env) s1" "hist s1 = reset_low (pulls_low (ow_pin env) s) (hist s)" "frame s1 = frame s"
    "seq_pos s1 = seq_pos s" "spad_buf s1 = spad_buf s"
    using ticks_reset_low [OF assms(1-3)] by blast
  let ?h = "no_answer j (reset_low (pulls_low (ow_pin env) s) (hist s))"
  let ?s2 = "s1\<lparr>hist := ?h, delay_count := of_nat (Suc (5 - j))\<rparr>"
  have "of_nat (j + Suc (5 - j)) = (6 :: byte)"
    using assms(5) by (simp del: of_nat_Suc of_nat_add)
  then have t2: "ticks env j s1 = Some ?s2"
    using ticks_no_answer [of s1 env j "5 - j"] s1 assms(5,6) by (simp add: answers_def del: of_nat_Suc of_nat_add)
  let ?s3 = "s1\<lparr>hist := Sample False # Tick False # ?h, delay_count := 47, cur_op := 4\<rparr>"
  have t3: "tick env ?s2 = Some ?s3"
    using tick_reset(4) [of ?s2 env] s1 assms(6) by (simp add: armed_def answers_def)
  let ?s4 = "?s3\<lparr>hist := replicate 46 (Tick False) @ hist ?s3, delay_count := 1\<rparr>"
  have t4: "ticks env 46 ?s3 = Some ?s4"
    using ticks_countdown [of ?s3 46 env] s1 by (simp add: armed_def)
  let ?s5 = "?s4\<lparr>hist := Tick False # hist ?s4, delay_count := 0, cur_op := 5\<rparr>"
  have t5: "tick env ?s4 = Some ?s5"
    using tick_reset(7) [of ?s4 env] s1 by (simp add: armed_def)
  have n: "has_next ?s5"
    using assms(4) s1(10) frameD [OF s1(9)] by (simp add: has_next_def)
  let ?s6 = "next_op (?s5\<lparr>hist := Tick False # hist ?s5\<rparr>)"
  have t6: "tick env ?s5 = Some ?s6"
    using tick_reset(8) [of ?s5 env] n s1 by (simp add: armed_def)
  have "ticks env (49 + (j + Suc (46 + Suc (Suc 0)))) s = Some ?s6"
    by (simp only: ticks.simps ticks_add s1(1) t2 t3 t4 t5 t6 bind.bind_lunit)
  moreover have "49 + (j + Suc (46 + Suc (Suc 0))) = 98 + j"
    by simp
  moreover have "op_done env s ?s6"
    using s1 frameD [OF s1(9)] by (simp add: op_done_def next_op_def armed_def frame_def)
  moreover have "Tick False # Tick False # replicate 46 (Tick False) = replicate 48 (Tick False)"
    using replicate_Suc [of 47 "Tick False"] replicate_Suc [of 46 "Tick False"] by simp
  ultimately show ?thesis
    using s1(11) by (intro exI [of _ ?s6]) (simp add: next_op_def)
qed

text \<open>Without an answer the error path ends the sequence, the timer is stopped and the driver ready again.\<close>

lemma ticks_reset_timeout:
  assumes "armed s" "op_type s = 1" "seq_state s = 4" "ow_callback s \<noteq> None"
    and "\<forall>i<6. pin_in env (Tick False # no_answer i (reset_low (pulls_low (ow_pin env) s) (hist s)))"
  shows "\<exists>s'. ticks env 55 s = Some s' \<and> seq_state s' = 5 \<and> ow_error s' = 0 \<and> ow_state s' = 3 \<and> \<not> frc1_fires s' \<and>
    queue_sends s' = queue_sends s \<and> spad_buf s' = spad_buf s \<and> \<not> pulls_low (ow_pin env) s'"
proof -
  obtain s1 where s1: "ticks env 49 s = Some s1" "armed s1" "op_type s1 = 1" "seq_state s1 = 3" "cur_op s1 = 3"
    "delay_count s1 = 6" "\<not> pulls_low (ow_pin env) s1" "hist s1 = reset_low (pulls_low (ow_pin env) s) (hist s)" "frame s1 = frame s"
    "seq_pos s1 = seq_pos s" "spad_buf s1 = spad_buf s"
    using ticks_reset_low [OF assms(1-3)] by blast
  let ?s2 = "s1\<lparr>hist := no_answer 5 (reset_low (pulls_low (ow_pin env) s) (hist s)), delay_count := 1\<rparr>"
  have "\<forall>i<5. pin_in env (Tick False # no_answer i (hist s1))"
    using assms(5) s1(8) by simp
  then have t2: "ticks env 5 s1 = Some ?s2"
    using ticks_no_answer [of s1 env 5 0] s1 by simp
  let ?s3 = "OW_handle_error ((gpio_disable (ow_pin env) (?s2\<lparr>delay_count := 0, hist := Sample True # Tick False # hist ?s2\<rparr>))
      \<lparr>ow_error := 3, seq_state := 5\<rparr>)"
  have c: "ow_callback ?s2 \<noteq> None"
    using assms(4) s1(9) by (simp add: frame_def)
  have t3: "tick env ?s2 = Some ?s3"
    using tick_reset(9) [of ?s2 env] s1 assms(5) c by (simp add: armed_def)
  have "ticks env (49 + (5 + Suc 0)) s = Some ?s3"
    by (simp only: ticks.simps ticks_add s1(1) t2 t3 bind.bind_lunit)
  moreover have "\<not> frc1_fires ?s3"
    by (simp add: OW_handle_error_def hw_timer_stop_def frc1_fires_def)
  moreover have "queue_sends ?s3 = queue_sends s" "spad_buf ?s3 = spad_buf s" "\<not> pulls_low (ow_pin env) ?s3"
    using s1(9,11) by (simp_all add: OW_handle_error_def hw_timer_stop_def frame_def pulls_low_def pin_defs timer_set_run_def
        timer_set_interrupts_def set_CTRL_def)
  ultimately show ?thesis
    by (intro exI [of _ ?s3]) (simp add: OW_handle_error_def hw_timer_stop_def timer_set_run_def timer_set_interrupts_def set_CTRL_def)
qed

end
