(* ===== verification/Onewire_Seq.thy ===== *)
theory Onewire_Seq
  imports Onewire_Bus
begin

unbundle bit_operations_syntax

text \<open>
  Whole sequences of the one-wire driver: reset, two commands, the transfer of the scratchpad
  and the evaluation of the reading.
\<close>

section \<open>Commands\<close>

definition loaded :: "byte \<Rightarrow> onewire \<Rightarrow> bool" where
  "loaded sq s \<longleftrightarrow> seq_arr s = ds_seqs ! unat sq \<and> arg_arr s = ds_seq_args ! unat sq \<and> seq_len s = ds_seq_lens ! unat sq"

text \<open>A sequence is started: the first interrupt will begin its reset.\<close>

definition seq_ready :: "byte \<Rightarrow> onewire \<Rightarrow> bool" where
  "seq_ready sq s \<longleftrightarrow> loaded sq s \<and> armed s \<and> op_type s = OW_OP_RESET \<and> seq_state s = OW_SEQ_STATE_TRANSITION \<and>
     seq_pos s = 0"

lemma loaded_frame: "frame s' = frame s \<Longrightarrow> loaded sq s' = loaded sq s"
  using frameD [of s' s] by (simp add: loaded_def)

lemmas ds_tables = ds_seqs_def ds_seq_args_def ds_seq_lens_def

lemma sq_cases: "sq \<in> {1, 2, 3} \<Longrightarrow> (sq = 1 \<Longrightarrow> P) \<Longrightarrow> (sq = 2 \<Longrightarrow> P) \<Longrightarrow> (sq = 3 \<Longrightarrow> P) \<Longrightarrow> P"
  by auto

text \<open>The history behind a reset answered at sample \<open>j\<close> and behind two commands.\<close>

definition reset_hist :: "bool \<Rightarrow> nat \<Rightarrow> bus_event list \<Rightarrow> bus_event list" where
  "reset_hist l j h = replicate 48 (Tick False) @ [Sample False, Tick False] @ no_answer j (reset_low l h)"

definition command :: "byte \<Rightarrow> bus_event list" where
  "command d = Tick False # Tick False # write_wave d"

definition commands_hist :: "byte list \<Rightarrow> bool \<Rightarrow> nat \<Rightarrow> bus_event list \<Rightarrow> bus_event list" where
  "commands_hist ds l j h = fold (\<lambda>d h. rev (command d) @ h) ds (reset_hist l j h)"

definition seq_commands :: "byte \<Rightarrow> byte list" where
  "seq_commands sq = take 2 (tl (the (ds_seq_args ! unat sq)))"

lemma seq_prefix:
  assumes "sq \<in> {1, 2, 3}" "seq_ready sq s" "j < 6" "answers env (reset_low (pulls_low (ow_pin env) s) (hist s)) j"
  shows "\<exists>s'. ticks env (98 + j + 116) s = Some s' \<and> armed s' \<and> frame s' = frame s \<and> seq_pos s' = 3 \<and> seq_state s' = 4 \<and>
    op_type s' = the (ds_seqs ! unat sq) ! 3 \<and> \<not> pulls_low (ow_pin env) s' \<and> spad_buf s' = spad_buf s \<and>
    hist s' = commands_hist (seq_commands sq) (pulls_low (ow_pin env) s) j (hist s)"
proof -
  have l: "loaded sq s" and r: "armed s" "op_type s = 1" "seq_state s = 4" "seq_pos s = 0"
    using assms(2) by (simp_all add: seq_ready_def)
  have next0: "has_next s" "the (seq_arr s) ! 1 = 3" "the (seq_arr s) ! 2 = 3"
    using assms(1) l r(4) by (auto simp: has_next_def loaded_def ds_tables)
  obtain s1 where s1: "ticks env (98 + j) s = Some s1" "op_done env s s1" "spad_buf s1 = spad_buf s" "hist s1 = reset_hist (pulls_low (ow_pin env) s) j (hist s)"
    using ticks_reset [OF r(1-3) next0(1) assms(3,4)] by (auto simp: reset_hist_def)
  have l1: "loaded sq s1" "seq_pos s1 = 1" "op_type s1 = 3" "seq_state s1 = 4" "armed s1" "\<not> pulls_low (ow_pin env) s1"
    using s1(2) l r(4) next0(2) loaded_frame [of s1 s] by (auto simp: op_done_def)
  have next1: "has_next s1" "cur_arg s1 = Some (seq_commands sq ! 0)"
    using assms(1) l1(1,2) by (auto simp: has_next_def loaded_def ds_tables cur_arg_def read_at_def seq_commands_def)
  obtain s2 where s2: "ticks env 58 s1 = Some s2" "op_done env s1 s2" "spad_buf s2 = spad_buf s1"
    "hist s2 = rev (command (seq_commands sq ! 0)) @ hist s1"
    using ticks_write [OF l1(5,3,4) next1(2,1) l1(6)] by (auto simp: command_def)
  have l2: "loaded sq s2" "seq_pos s2 = 2" "op_type s2 = 3" "seq_state s2 = 4" "armed s2" "\<not> pulls_low (ow_pin env) s2"
    using s2(2) l1 next0(3) loaded_frame [of s2 s1] s1(2) frameD [of s1 s] by (auto simp: op_done_def)
  have next2: "has_next s2" "cur_arg s2 = Some (seq_commands sq ! 1)"
    using assms(1) l2(1,2) by (auto simp: has_next_def loaded_def ds_tables cur_arg_def read_at_def seq_commands_def)
  obtain s3 where s3: "ticks env 58 s2 = Some s3" "op_done env s2 s3" "spad_buf s3 = spad_buf s2"
    "hist s3 = rev (command (seq_commands sq ! 1)) @ hist s2"
    using ticks_write [OF l2(5,3,4) next2(2,1) l2(6)] by (auto simp: command_def)
  have c: "seq_commands sq = [seq_commands sq ! 0, seq_commands sq ! 1]"
    using assms(1) by (auto simp: seq_commands_def ds_tables)
  have "ticks env (98 + j + (58 + 58)) s = Some s3"
    by (rule ticks_addI [OF s1(1) ticks_addI [OF s2(1) s3(1)]])
  moreover have "hist s3 = commands_hist (seq_commands sq) (pulls_low (ow_pin env) s) j (hist s)"
    unfolding commands_hist_def by (subst c) (simp add: s3(4) s2(4) s1(4))
  moreover have "op_type s3 = the (ds_seqs ! unat sq) ! 3"
    using s3(2) l2(1,2) by (simp add: op_done_def loaded_def)
  ultimately show ?thesis
    using s1(2,3) s2(2,3) s3(2,3) l2(2) by (intro exI [of _ s3]) (simp add: op_done_def)
qed


section \<open>The reading\<close>

text \<open>The last interrupt of a sequence calls the function registered for its end.\<close>

lemma tick_end:
  assumes "armed s" "op_type s = 4"
  shows "tick env s = map_option (timer_set_load FRC1 44)
    (run_callback env (ow_callback s) (s\<lparr>hist := Tick (pulls_low (ow_pin env) s) # hist s, seq_state := 5\<rparr>))"
  using assms by (simp add: tick_defs)

definition reading_of :: "byte list \<Rightarrow> u16" where
  "reading_of bs = push_bit 8 (ucast (bs ! 1)) OR ucast (bs ! 0)"

lemma stop_fields:
  "spad_buf (hw_timer_stop s) = spad_buf s" "latest_temp (hw_timer_stop s) = latest_temp s"
  "prev_temp (hw_timer_stop s) = prev_temp s" "queue_sends (hw_timer_stop s) = queue_sends s"
  "pub_queue (hw_timer_stop s) = pub_queue s" "hist (hw_timer_stop s) = hist s" "ow_error (hw_timer_stop s) = ow_error s"
  "seq_state (hw_timer_stop s) = seq_state s" "timer_LOAD (hw_timer_stop s) = timer_LOAD s" "UUID (hw_timer_stop s) = UUID s"
  "\<not> frc1_fires (hw_timer_stop s)"
  for s :: onewire
  by (simp_all add: hw_timer_stop_def timer_set_run_def timer_set_interrupts_def set_CTRL_def frc1_fires_def)

lemma frc1_fires_simps [simp]:
  "frc1_fires (s\<lparr>spad_buf := x1\<rparr>) = frc1_fires s" "frc1_fires (s\<lparr>ow_task_arg := x2\<rparr>) = frc1_fires s"
  "frc1_fires (s\<lparr>latest_temp := x3\<rparr>) = frc1_fires s" "frc1_fires (s\<lparr>prev_temp := x4\<rparr>) = frc1_fires s"
  "frc1_fires (s\<lparr>queue_sends := x5\<rparr>) = frc1_fires s" "frc1_fires (timer_set_load FRC1 l s) = frc1_fires s"
  "frc1_fires (s\<lparr>seq_state := x6\<rparr>) = frc1_fires s" "frc1_fires (s\<lparr>hist := x7\<rparr>) = frc1_fires s"
  for s :: onewire
  by (simp_all add: frc1_fires_def timer_get_run_def timer_set_load_def)

text \<open>What the driver makes of nine bytes: the reading if the checksum is right, nothing otherwise.\<close>

definition accepted :: "byte list \<Rightarrow> bool" where
  "accepted bs \<longleftrightarrow> register_of (take 8 bs) = bs ! 8"

definition published :: "byte list \<Rightarrow> onewire \<Rightarrow> byte list list" where
  "published bs s =
     (if accepted bs \<and> temp_of_reading (reading_of bs) \<noteq> prev_temp s
      then [take 6 (temp_text (temp_of_reading (reading_of bs)) @ [0]) @ [0]] else [])"

lemma scratchpad_reads:
  assumes "length bs = 9"
  shows "onewire_crc8 bs 8 = Some (register_of (take 8 bs))" "read_at bs 8 = Some (bs ! 8)" "read_at bs 1 = Some (bs ! 1)"
    "read_at bs 0 = Some (bs ! 0)"
  unfolding onewire_crc8_def register_of_def using crc8_loop_register [of 0 bs 8 0] assms by (simp_all add: read_at_def)

lemma read_temp_done:
  assumes "ow_error s = 0" "length (spad_buf s) = 9" "pub_queue s" "ow_malloc_ok env (hist s)"
  shows "\<exists>s'. read_temp_done_cb env s = Some s' \<and>
    latest_temp s' = (if accepted (spad_buf s) then temp_of_reading (reading_of (spad_buf s)) else latest_temp s) \<and>
    queue_sends s' = queue_sends s @ published (spad_buf s) s \<and> spad_buf s' = replicate 9 0 \<and>
    ow_task_arg s' = 4 \<and> seq_state s' = seq_state s \<and> \<not> frc1_fires s'"
proof -
  have av: "temp_available (temp_of_reading r) = 1" for r
    by (simp add: temp_of_reading_def Let_def)
  show ?thesis
    unfolding read_temp_done_cb_def
    using assms(1,3,4) scratchpad_reads [OF assms(2)] av
    by (auto simp: Let_def stop_fields OW_queue_temperature_def accepted_def published_def reading_of_def)
qed


section \<open>Whole sequences\<close>

lemma frame_more:
  assumes "frame s' = frame s"
  shows "ow_callback s' = ow_callback s" "ow_error s' = ow_error s" "UUID s' = UUID s" "have_uuid s' = have_uuid s"
    "ow_state s' = ow_state s" "ow_task_arg s' = ow_task_arg s" "latest_temp s' = latest_temp s" "prev_temp s' = prev_temp s"
    "pub_queue s' = pub_queue s" "queue_sends s' = queue_sends s" "task_at s' = task_at s" "frc1_isr s' = frc1_isr s"
    "frc1_fires s' = frc1_fires s"
  using assms by (simp_all add: frame_def frc1_fires_def timer_get_run_def)

text \<open>What starting a sequence and ending a conversion leave alone.\<close>

definition keeps where
  "keeps s = (spad_buf s, UUID s, have_uuid s, ow_state s, latest_temp s, prev_temp s, pub_queue s, queue_sends s)" for s :: onewire

lemma keepsD:
  assumes "keeps s' = keeps s"
  shows "spad_buf s' = spad_buf s" "UUID s' = UUID s" "have_uuid s' = have_uuid s" "ow_state s' = ow_state s"
    "latest_temp s' = latest_temp s" "prev_temp s' = prev_temp s" "pub_queue s' = pub_queue s" "queue_sends s' = queue_sends s"
  using assms by (simp_all add: keeps_def)

text \<open>Conversion.\<close>

lemma conv_sequence:
  assumes "seq_ready 2 s" "ow_callback s = Some Conv_t_done_cb" "ow_error s = 0" "j < 6"
    and "answers env (reset_low (pulls_low (ow_pin env) s) (hist s)) j"
  shows "\<exists>s'. ticks env (215 + j) s = Some s' \<and> seq_state s' = 2 \<and> ow_task_arg s' = 3 \<and> \<not> frc1_fires s' \<and>
    seq_arr s' = seq_arr s \<and> task_at s' = task_at s \<and> keeps s' = keeps s \<and> \<not> pulls_low (ow_pin env) s' \<and>
    hist s' = Tick False # commands_hist [0xCC, 0x44] (pulls_low (ow_pin env) s) j (hist s)"
proof -
  have sc: "seq_commands 2 = [0xCC, 0x44]" "the (ds_seqs ! unat (2 :: byte)) ! 3 = 4"
    by (simp_all add: seq_commands_def ds_tables)
  obtain s1 where s1: "ticks env (98 + j + 116) s = Some s1" "armed s1" "frame s1 = frame s" "op_type s1 = 4"
    "\<not> pulls_low (ow_pin env) s1" "spad_buf s1 = spad_buf s"
    "hist s1 = commands_hist [0xCC, 0x44] (pulls_low (ow_pin env) s) j (hist s)"
    using seq_prefix [OF _ assms(1,4,5)] unfolding sc by blast
  note f = frameD [OF s1(3)] frame_more [OF s1(3)]
  let ?s2 = "timer_set_load FRC1 44 (conv_t_done_cb (s1\<lparr>hist := Tick False # hist s1, seq_state := 5\<rparr>))"
  have "tick env s1 = Some ?s2"
    using tick_end [OF s1(2,4)] s1(5) f assms(2) by simp
  then have "ticks env (98 + j + 116 + Suc 0) s = Some ?s2"
    by (intro ticks_addI [OF s1(1)]) simp
  then have "ticks env (215 + j) s = Some ?s2"
    by (simp add: add.commute)
  then show ?thesis
    using f assms(3) s1(5-7)
    by (intro exI [of _ ?s2])
      (simp add: conv_t_done_cb_def stop_fields keeps_def timer_set_load_def hw_timer_stop_def timer_set_run_def
        timer_set_interrupts_def set_CTRL_def pulls_low_def frc1_fires_def timer_get_run_def)
qed

text \<open>Reading the scratchpad.\<close>

lemma read_sequence:
  assumes "seq_ready 3 s" "ow_callback s = Some Read_temp_done_cb" "ow_error s = 0" "j < 6"
    and "answers env (reset_low (pulls_low (ow_pin env) s) (hist s)) j"
    and "length (spad_buf s) = 9" "pub_queue s" "\<And>h. ow_malloc_ok env h" "length bs = 9"
    and "sends env (Tick False # commands_hist [0xCC, 0xBE] (pulls_low (ow_pin env) s) j (hist s)) bs"
  shows "\<exists>s'. ticks env (576 + j) s = Some s' \<and>
    latest_temp s' = (if accepted bs then temp_of_reading (reading_of bs) else latest_temp s) \<and>
    queue_sends s' = queue_sends s @ published bs s \<and> spad_buf s' = replicate 9 0 \<and>
    ow_task_arg s' = 4 \<and> seq_state s' = 5 \<and> \<not> frc1_fires s'"
proof -
  have sc: "seq_commands 3 = [0xCC, 0xBE]" "the (ds_seqs ! unat (3 :: byte)) ! 3 = 2"
    by (simp_all add: seq_commands_def ds_tables)
  obtain s1 where s1: "ticks env (98 + j + 116) s = Some s1" "armed s1" "frame s1 = frame s" "seq_pos s1 = 3" "seq_state s1 = 4"
    "op_type s1 = 2" "\<not> pulls_low (ow_pin env) s1" "spad_buf s1 = spad_buf s"
    "hist s1 = commands_hist [0xCC, 0xBE] (pulls_low (ow_pin env) s) j (hist s)"
    using seq_prefix [OF _ assms(1,4,5)] unfolding sc by blast
  note f1 = frameD [OF s1(3)] frame_more [OF s1(3)]
  have l: "loaded 3 s1"
    using assms(1) loaded_frame [OF s1(3)] by (simp add: seq_ready_def)
  have a: "has_next s1" "cur_arg s1 = Some 9" "the (seq_arr s1) ! 4 = 4"
    using l s1(4) by (simp_all add: has_next_def loaded_def ds_tables cur_arg_def read_at_def)
  obtain s2 where s2: "ticks env 361 s1 = Some s2" "op_done env s1 s2" "spad_buf s2 = bs"
    using ticks_read [OF s1(2,6,5) a(2) _ _ _ a(1) s1(7)] sends_read_bytes [OF assms(10)] s1(8,9) assms(6,9) by auto
  have d: "frame s2 = frame s1" "op_type s2 = 4" "armed s2" "\<not> pulls_low (ow_pin env) s2"
    using s2(2) s1(4) a(3) by (simp_all add: op_done_def)
  note f2 = frame_more [OF d(1)]
  let ?s2 = "s2\<lparr>hist := Tick False # hist s2, seq_state := 5\<rparr>"
  have pub: "published bs ?s2 = published bs s"
    using f1 f2 by (simp add: published_def)
  obtain s3 where s3: "read_temp_done_cb env ?s2 = Some s3"
    "latest_temp s3 = (if accepted bs then temp_of_reading (reading_of bs) else latest_temp s2)"
    "queue_sends s3 = queue_sends s2 @ published bs ?s2" "spad_buf s3 = replicate 9 0"
    "ow_task_arg s3 = 4" "seq_state s3 = 5" "\<not> frc1_fires s3"
    using read_temp_done [of ?s2 env] s2(3) f1 f2 assms(3,7,8,9) by auto
  let ?s4 = "timer_set_load FRC1 44 s3"
  have "tick env s2 = Some ?s4"
    using tick_end [OF d(3,2)] d(4) f1 f2 assms(2) s3(1) by simp
  then have "ticks env (98 + j + 116 + (361 + Suc 0)) s = Some ?s4"
    by (intro ticks_addI [OF s1(1)] ticks_addI [OF s2(1)]) simp
  then have "ticks env (576 + j) s = Some ?s4"
    by (simp add: add.commute)
  then show ?thesis
    using s3 f1 f2 pub by (intro exI [of _ ?s4]) (simp add: timer_set_load_def frc1_fires_def timer_get_run_def)
qed


section \<open>From a request to the reading\<close>

definition cb_of :: "byte \<Rightarrow> OW_cb_t" where
  "cb_of sq = (if sq = 1 then Read_uuid_done_cb else if sq = 2 then Conv_t_done_cb else Read_temp_done_cb)"

lemmas timer_start_defs = hw_timer_init_def hw_timer_start_def xt_isr_attach_def timer_set_divider_def timer_set_reload_def
  timer_set_interrupts_def timer_set_load_def timer_set_run_def set_CTRL_def

lemma hw_timer_started: "frc1_fires (hw_timer_start (hw_timer_init s))" for s :: onewire
proof -
  have "timer_get_run FRC1 (t\<lparr>hw_timer_state := x\<rparr>) = timer_get_run FRC1 t" for t :: onewire and x
    by (simp add: timer_get_run_def)
  moreover have "hw_timer_state (hw_timer_init s) \<noteq> HW_TIMER_ACTIVE"
    by (simp add: hw_timer_init_def xt_isr_attach_def)
  ultimately show ?thesis
    by (simp add: hw_timer_start_def Let_def frc1_fires_def)
qed

lemma init_seq_ready:
  assumes "sq \<in> {1, 2, 3}" "op_type s = 1" "seq_pos s = 0"
  shows "\<exists>s'. OW_init_seq sq s = Some s' \<and> seq_ready sq s' \<and> ow_callback s' = Some (cb_of sq) \<and> ow_error s' = 0 \<and>
    frc1_fires s' \<and> frc1_isr s' = Some Isr_hw_timer \<and> task_at s' = task_at s \<and> keeps s' = keeps s \<and> hist s' = hist s \<and>
    pulls_low p s' = pulls_low p s \<and> cur_op s' = cur_op s"
proof -
  let ?s = "s\<lparr>seq_arr := ds_seqs ! unat sq, arg_arr := ds_seq_args ! unat sq, seq_len := ds_seq_lens ! unat sq,
    seq_state := 4, ow_error := 0, ow_task_arg := sq, ow_callback := Some (cb_of sq)\<rparr>"
  let ?t = "hw_timer_start (hw_timer_init ?s)"
  have "OW_init_seq sq s = Some ?t"
    using assms(1) by (auto simp: OW_init_seq_def load_seq_def read_at_def ds_tables cb_of_def Let_def)
  moreover have "seq_ready sq ?t" "ow_callback ?t = Some (cb_of sq)" "ow_error ?t = 0" "frc1_isr ?t = Some Isr_hw_timer"
    "task_at ?t = task_at s" "keeps ?t = keeps s" "hist ?t = hist s" "pulls_low p ?t = pulls_low p s" "cur_op ?t = cur_op s"
    using assms(2,3) by (simp_all add: timer_start_defs Let_def seq_ready_def loaded_def armed_def keeps_def pulls_low_def)
  ultimately show ?thesis
    using hw_timer_started [of ?s] by blast
qed

definition run_task :: "onewire \<Rightarrow> onewire option" where
  "run_task s = OW_init_seq_task (task_at s) s"

text \<open>The two activations of the task that start a sequence it was asked for.\<close>

lemma task_starts:
  assumes "task_at s = Task_loop" "seq_state s = 2" "ow_task_arg s = sq" "sq \<in> {2, 3}" "seq_arr s = Some (1 # xs)"
  shows "\<exists>s'. run_task s \<bind> run_task = Some s' \<and> seq_ready sq s' \<and> ow_callback s' = Some (cb_of sq) \<and> ow_error s' = 0 \<and>
    frc1_fires s' \<and> frc1_isr s' = Some Isr_hw_timer \<and> task_at s' = Task_loop \<and> keeps s' = keeps s \<and> hist s' = hist s \<and>
    pulls_low p s' = pulls_low p s"
proof -
  let ?s1 = "s\<lparr>op_type := 1, cur_op := 0, seq_pos := 0, task_at := Task_wait sq\<rparr>"
  have "run_task s = Some ?s1"
    using assms by (auto simp: run_task_def read_at_def)
  moreover have "run_task ?s1 = OW_init_seq sq (?s1\<lparr>task_at := Task_loop\<rparr>)"
    by (simp add: run_task_def)
  moreover have "sq \<in> {1, 2, 3}" "op_type (?s1\<lparr>task_at := Task_loop\<rparr>) = 1" "seq_pos (?s1\<lparr>task_at := Task_loop\<rparr>) = 0"
    using assms(4) by auto
  note init_seq_ready [OF this, of p]
  ultimately show ?thesis
    by (auto simp: keeps_def pulls_low_def)
qed

lemma request_conv:
  assumes "ow_state s = 3" "have_uuid s \<noteq> 0" "length (spad_buf s) = 9" "task_at s = Task_loop"
  shows "\<exists>s'. OW_request_new_temp env s = Some (True, s') \<and> task_at s' = Task_loop \<and> seq_state s' = 2 \<and> ow_task_arg s' = 2 \<and>
    seq_arr s' = Some [1, 3, 3, 4] \<and> length (spad_buf s') = 9 \<and> hist s' = hist s \<and>
    pulls_low (ow_pin env) s' = (\<not> gpio_out s (ow_pin env)) \<and> prev_temp s' = prev_temp s \<and> latest_temp s' = latest_temp s \<and>
    pub_queue s' = pub_queue s \<and> queue_sends s' = queue_sends s"
  using assms
  by (auto simp: OW_request_new_temp_def write_block_def load_seq_def read_at_def ds_tables Let_def gpio_set_pullup_def
      iomux_set_gpio_function_def pulls_low_def)

text \<open>
  The history behind the conversion that a request leads to. Enabling the output lets out
  the latch, so the line is low from the request on if the latch holds a zero.
\<close>

definition conv_hist :: "ow_env \<Rightarrow> nat \<Rightarrow> onewire \<Rightarrow> bus_event list" where
  "conv_hist env j s = Tick False # commands_hist [0xCC, 0x44] (\<not> gpio_out s (ow_pin env)) j (hist s)"

text \<open>
  C27: a measurement. The driver is ready and already has the UUID of the sensor (the first request
  reads that before and is not covered), its task is at the head of its loop, a queue is set up and
  memory can be allocated. Then a request for a temperature, followed by the activations of the task and the
  interrupts it leads to, ends with the reading of the sensor: if the sensor answers both
  resets and sends nine bytes, a conversion is started and read, the timer is stopped, and
  exactly if the checksum of the nine bytes is right the temperature becomes the value in
  the first two of them. Its text is put into the queue once if the checksum is right and the
  temperature differs from the one queued last; otherwise nothing is queued.
\<close>

theorem measurement:
  assumes "ow_state s = OW_STATE_READY" "have_uuid s \<noteq> 0" "length (spad_buf s) = 9" "task_at s = Task_loop" "pub_queue s"
    and "\<forall>h. ow_malloc_ok env h"
    and "j1 < 6" "answers env (reset_low (\<not> gpio_out s (ow_pin env)) (hist s)) j1"
    and "j2 < 6" "answers env (reset_low False (conv_hist env j1 s)) j2"
    and "length bs = 9" "sends env (Tick False # commands_hist [0xCC, 0xBE] False j2 (conv_hist env j1 s)) bs"
  shows "\<exists>s1 s2 s3 s4 s'. OW_request_new_temp env s = Some (True, s1) \<and> run_task s1 \<bind> run_task = Some s2 \<and>
    ticks env (215 + j1) s2 = Some s3 \<and> run_task s3 \<bind> run_task = Some s4 \<and> ticks env (576 + j2) s4 = Some s' \<and>
    \<not> frc1_fires s' \<and> latest_temp s' = (if accepted bs then temp_of_reading (reading_of bs) else latest_temp s) \<and>
    queue_sends s' = queue_sends s @ published bs s"
proof -
  obtain s1 where s1: "OW_request_new_temp env s = Some (True, s1)" "task_at s1 = Task_loop" "seq_state s1 = 2" "ow_task_arg s1 = 2"
    "seq_arr s1 = Some [1, 3, 3, 4]" "length (spad_buf s1) = 9" "hist s1 = hist s" "pulls_low (ow_pin env) s1 = (\<not> gpio_out s (ow_pin env))"
    "prev_temp s1 = prev_temp s" "latest_temp s1 = latest_temp s" "pub_queue s1 = pub_queue s" "queue_sends s1 = queue_sends s"
    using request_conv [OF assms(1-4)] by blast
  obtain s2 where s2: "run_task s1 \<bind> run_task = Some s2" "seq_ready 2 s2" "ow_callback s2 = Some (cb_of 2)" "ow_error s2 = 0"
    "task_at s2 = Task_loop" "keeps s2 = keeps s1" "hist s2 = hist s1" "pulls_low (ow_pin env) s2 = pulls_low (ow_pin env) s1"
    using task_starts [OF s1(2-4) _ s1(5), of "ow_pin env"] by auto
  have a1: "answers env (reset_low (pulls_low (ow_pin env) s2) (hist s2)) j1"
    using assms(8) s1(7,8) s2(7,8) by simp
  obtain s3 where s3: "ticks env (215 + j1) s2 = Some s3" "seq_state s3 = 2" "ow_task_arg s3 = 3" "seq_arr s3 = seq_arr s2"
    "task_at s3 = task_at s2" "keeps s3 = keeps s2" "\<not> pulls_low (ow_pin env) s3" "hist s3 = conv_hist env j1 s"
    using conv_sequence [OF s2(2) _ s2(4) assms(7) a1] s2(3,7,8) s1(7,8) unfolding conv_hist_def by (auto simp: cb_of_def)
  have arr: "seq_arr s3 = Some (1 # [3, 3, 4])"
    using s2(2) s3(4) by (simp add: seq_ready_def loaded_def ds_tables)
  obtain s4 where s4: "run_task s3 \<bind> run_task = Some s4" "seq_ready 3 s4" "ow_callback s4 = Some (cb_of 3)" "ow_error s4 = 0"
    "keeps s4 = keeps s3" "hist s4 = hist s3" "pulls_low (ow_pin env) s4 = pulls_low (ow_pin env) s3"
    using task_starts [OF _ s3(2,3) _ arr, of "ow_pin env"] s3(5) s2(5) by auto
  have k: "keeps s4 = keeps s1"
    using s4(5) s3(6) s2(6) by simp
  note k = keepsD [OF k]
  have a2: "answers env (reset_low (pulls_low (ow_pin env) s4) (hist s4)) j2"
    "sends env (Tick False # commands_hist [0xCC, 0xBE] (pulls_low (ow_pin env) s4) j2 (hist s4)) bs"
    using assms(10,12) s4(6,7) s3(7,8) by simp_all
  obtain s' where "ticks env (576 + j2) s4 = Some s'"
    "latest_temp s' = (if accepted bs then temp_of_reading (reading_of bs) else latest_temp s4)"
    "queue_sends s' = queue_sends s4 @ published bs s4" "\<not> frc1_fires s'"
    using read_sequence [OF s4(2) _ s4(4) assms(9) a2(1) _ _ _ assms(11) a2(2)] s4(3) k s1(6,11) assms(5,6)
    by (auto simp: cb_of_def)
  moreover have "published bs s4 = published bs s"
    using k s1(9) by (simp add: published_def)
  ultimately show ?thesis
    using s1 s2(1) s3(1) s4(1) k by auto
qed

lemma register_of_zeros: "register_of (replicate n 0) = 0"
proof -
  have "foldl register_step 0 (concat (map bits_of (replicate n 0))) = 0"
    by (induction n) (simp_all add: register_byte shift8_powers)
  then show ?thesis
    by (simp add: register_of_def)
qed

text \<open>
  When no device answers the reset, every sequence ends after 55 interrupts: the timer is
  stopped, the line released, nothing is queued, and the driver accepts the next request.
\<close>

theorem no_device:
  assumes "sq \<in> {1, 2, 3}" "seq_ready sq s" "ow_callback s = Some (cb_of sq)"
    and "\<forall>i<6. pin_in env (Tick False # no_answer i (reset_low (pulls_low (ow_pin env) s) (hist s)))"
  shows "\<exists>s'. ticks env 55 s = Some s' \<and> seq_state s' = OW_SEQ_STATE_DONE \<and> ow_error s' = OW_ERROR_NONE \<and>
    ow_state s' = OW_STATE_READY \<and> \<not> frc1_fires s' \<and> \<not> pulls_low (ow_pin env) s' \<and> queue_sends s' = queue_sends s"
  using ticks_reset_timeout [of s env] assms by (auto simp: seq_ready_def)


theorem no_device_witness:
  "\<exists>s'. ticks (steady_line True) 55 (before_write\<lparr>seq_pos := 0, op_type := 1, ow_callback := Some (cb_of 2)\<rparr>) = Some s' \<and>
    seq_state s' = OW_SEQ_STATE_DONE \<and> \<not> frc1_fires s' \<and> queue_sends s' = []"
  using no_device [of 2 "before_write\<lparr>seq_pos := 0, op_type := 1, ow_callback := Some (cb_of 2)\<rparr>" "steady_line True"]
  by (auto simp: before_write_def ow_blank_def steady_line_def armed_def seq_ready_def loaded_def ds_tables)


section \<open>The value\<close>

text \<open>
  A scratchpad in which one of the nine bytes was changed on the way is never accepted.
\<close>

theorem corrupted_scratchpad_rejected:
  assumes "length bs = 9" "accepted bs" "i < 9" "c \<noteq> bs ! i"
  shows "\<not> accepted (bs[i := c])"
proof -
  have a: "accepted xs \<longleftrightarrow> register_of (butlast xs) = last xs" if "length xs = 9" for xs
    using that by (simp add: accepted_def butlast_conv_take last_conv_nth length_greater_0_conv [symmetric] del: length_greater_0_conv)
  show ?thesis
    using crc8.one_byte_error [of bs i c] assms by (simp add: a)
qed

theorem corrupted_scratchpad_rejected_witness: "\<not> accepted ((replicate 9 0)[3 := 7])"
proof -
  have "accepted (replicate 9 0)"
    using register_of_zeros [of 8] by (simp add: accepted_def)
  then show ?thesis
    by (rule corrupted_scratchpad_rejected [rotated 1]) simp_all
qed

lemma uint_u16_less: "uint (r :: u16) < 2 ^ 16"
  using unsigned_less [of r, where 'a = int] by simp

lemma sint_u16: "sint r = int (unat r) - (if bit r 15 then 2 ^ 16 else 0)" for r :: u16
proof -
  have "sint r = take_bit (Suc 15) (uint r) - 2 ^ Suc 15 * of_bool (bit (uint r) 15)"
    unfolding sint_uint by (simp add: signed_take_bit_eq_take_bit_minus)
  moreover have "take_bit (Suc 15) (uint r) = uint r" "bit (uint r) 15 = bit r 15"
    using uint_u16_less [of r] by (simp_all add: take_bit_int_eq_self bit_uint_iff)
  ultimately show ?thesis
    by simp
qed

text \<open>The magnitude of a reading.\<close>

lemma uint_minus_u16: "r \<noteq> 0 \<Longrightarrow> uint (- r) = 2 ^ 16 - uint r" for r :: u16
proof -
  assume "r \<noteq> 0"
  then have "uint r mod 2 ^ 16 \<noteq> 0"
    using uint_u16_less [of r] by (simp add: mod_pos_pos_trivial unsigned_eq_0_iff)
  moreover have "uint r mod 2 ^ 16 = uint r"
    using uint_u16_less [of r] by (simp add: mod_pos_pos_trivial)
  ultimately show ?thesis
    by (simp add: uint_word_ariths zmod_zminus1_eq_if)
qed

definition magnitude :: "u16 \<Rightarrow> u16" where
  "magnitude r = (if bit r 15 then - r else r)"

lemma unat_magnitude: "int (unat (magnitude r)) = \<bar>sint r\<bar>"
proof (cases "bit r 15")
  case True
  then have "r \<noteq> 0"
    by auto
  then show ?thesis
    using True uint_u16_less [of r] uint_minus_u16 [of r] by (simp add: magnitude_def sint_u16)
next
  case False
  then show ?thesis
    by (simp add: magnitude_def sint_u16)
qed

lemma reading_sign: "(r AND 0x8000 \<noteq> 0) \<longleftrightarrow> bit r 15" for r :: u16
  using and_exp_eq_0_iff_not_bit [of r 15] by simp

lemma complement_plus_1: "(r XOR 0xffff) + 1 = - r" for r :: u16
proof -
  have e: "(0xffff :: u16) = - 1"
    by simp
  have "r XOR 0xffff = NOT r"
    unfolding e by (rule bit.xor_one_right)
  then show ?thesis
    by (simp add: minus_eq_not_plus_1)
qed

lemma temp_of_reading_eq:
  "temp_of_reading r = \<lparr>temp_sign = (if bit r 15 then 45 else 43), temp_val = drop_bit 4 (magnitude r),
     temp_fract = of_int ((uint (magnitude r AND 0xf) * 100) sdiv 16), temp_available = 1\<rparr>"
  by (simp add: temp_of_reading_def reading_sign complement_plus_1 magnitude_def)

lemma fraction_parts: "100 * (m div 16) + (m mod 16) * 100 div 16 = m * 100 div (16 :: nat)"
proof -
  have "m * 100 = (m mod 16 + 16 * (m div 16)) * 100"
    by (simp only: mod_mult_div_eq)
  also have "\<dots> = (m mod 16) * 100 + 16 * (100 * (m div 16))"
    by (simp only: distrib_right)
  finally have "m * 100 div 16 = ((m mod 16) * 100 + 16 * (100 * (m div 16))) div 16"
    by (simp only:)
  also have "\<dots> = 100 * (m div 16) + (m mod 16) * 100 div 16"
    using div_mult_self2 [of 16 "(m mod 16) * 100" "100 * (m div 16)"] by simp
  finally show ?thesis
    by simp
qed

lemma uint_low_nibble: "uint (w AND 0xf) = int (unat w mod 16)" for w :: u16
proof -
  have "w AND 0xf = take_bit 4 w"
    by (simp add: take_bit_eq_mask mask_eq_exp_minus_1)
  then have "unat (w AND 0xf) = unat w mod 16"
    by (simp add: take_bit_eq_mod unat_mod)
  then show ?thesis
    by (metis of_nat_unat uint_nat)
qed

lemma unat_fraction: "unat (temp_fract (temp_of_reading r)) = (unat (magnitude r) mod 16) * 100 div 16"
proof -
  let ?f = "(unat (magnitude r) mod 16) * 100 div 16"
  have "(int (unat (magnitude r) mod 16) * 100) sdiv 16 = int ?f"
    by (simp add: cint_simps zdiv_int)
  moreover have "?f < 2 ^ 16"
  proof -
    have "unat (magnitude r) mod 16 < 16"
      by simp
    then show ?thesis
      by (simp add: div_less_iff_less_mult)
  qed
  ultimately show ?thesis
    unfolding temp_of_reading_eq by (simp only: uint_low_nibble Temperature.simps of_int_of_nat_eq unat_of_nat) (simp add: take_bit_nat_eq_self)
qed

lemma unat_whole: "unat (temp_val (temp_of_reading r)) = unat (magnitude r) div 16"
proof -
  have "drop_bit 4 (magnitude r) = magnitude r div 16"
    by (simp add: drop_bit_eq_div)
  then show ?thesis
    by (simp add: temp_of_reading_eq unat_div)
qed

lemma length_show_nat: "n < 10 \<Longrightarrow> length (show_nat n) = 1" "10 \<le> n \<Longrightarrow> n < 100 \<Longrightarrow> length (show_nat n) = 2"
proof -
  have one: "length (show_nat k) = 1" if "k < 10" for k
    using that by (subst show_nat.simps) simp
  have two: "length (show_nat k) = Suc (length (show_nat (k div 10)))" if "10 \<le> k" for k
    using that by (subst show_nat.simps) simp
  show "n < 10 \<Longrightarrow> length (show_nat n) = 1"
    by (rule one)
  show "10 \<le> n \<Longrightarrow> n < 100 \<Longrightarrow> length (show_nat n) = 2"
    using two [of n] one [of "n div 10"] by (simp add: div_less_iff_less_mult)
qed

text \<open>The queued block, as a string, is the first six characters of the text.\<close>

lemma queued_text:
  assumes "0 \<notin> set xs" "5 \<le> length xs"
  shows "takeWhile (\<lambda>c. c \<noteq> 0) (take 6 (xs @ [0]) @ [0 :: byte]) = take 6 xs"
proof (cases "length xs = 5")
  case True
  then have "take 6 (xs @ [0]) @ [0] = xs @ [0, 0]" "take 6 xs = xs"
    by simp_all
  moreover have "takeWhile (\<lambda>c. c \<noteq> 0) (xs @ [0, 0]) = xs"
    using assms(1) by (subst takeWhile_append2) auto
  ultimately show ?thesis
    by (simp only:)
next
  case False
  with assms(2) have "take 6 (xs @ [0]) = take 6 xs"
    by simp
  moreover have "takeWhile (\<lambda>c. c \<noteq> 0) (take 6 xs @ [0]) = take 6 xs"
    using assms(1) by (subst takeWhile_append2) (auto dest: in_set_takeD)
  ultimately show ?thesis
    by simp
qed

lemma temp_text_shape:
  fixes t :: Temperature
  assumes "temp_sign t \<noteq> 0" "temp_fract t < 100"
  shows "0 \<notin> set (temp_text t)" "5 \<le> length (temp_text t)" "unat (temp_val t) < 100 \<Longrightarrow> length (temp_text t) \<le> 6"
proof -
  have f: "unat (temp_fract t) < 100"
    using assms(2) by (simp add: word_less_nat_alt)
  let ?f = "if temp_fract t < 10 then 48 # show_nat (unat (temp_fract t)) else show_nat (unat (temp_fract t))"
  have lf: "length ?f = 2"
    using f by (auto simp: word_less_nat_alt length_show_nat not_less)
  show "0 \<notin> set (temp_text t)"
    using assms(1) show_nat_nonzero by (auto simp: temp_text_def split: if_splits)
  have "1 \<le> length (show_nat (unat (temp_val t)))"
    by (subst show_nat.simps) simp
  then show "5 \<le> length (temp_text t)"
    using lf by (simp add: temp_text_def split: if_splits)
  show "unat (temp_val t) < 100 \<Longrightarrow> length (temp_text t) \<le> 6"
    using lf length_show_nat(1,2) [of "unat (temp_val t)"] by (cases "unat (temp_val t) < 10") (simp_all add: temp_text_def split: if_splits)
qed

text \<open>
  The sign, the whole part and the hundredths of a temperature are those of the reading
  in sixteenths of a degree, rounded towards zero, for all 65536 readings; the hundredths
  stay below 100. The string that is queued is the text of the temperature, cut off behind
  six characters: the complete text below 100 degrees.
\<close>

theorem temperature_value:
  "let t = temp_of_reading r; item = takeWhile (\<lambda>c. c \<noteq> 0) (take 6 (temp_text t @ [0]) @ [0])
   in temp_sign t = (if sint r < 0 then 45 else 43) \<and>
      int (100 * unat (temp_val t) + unat (temp_fract t)) = \<bar>sint r\<bar> * 100 div 16 \<and> unat (temp_fract t) < 100 \<and>
      item = take 6 (temp_text t) \<and> (100 \<le> unat (temp_val t) \<or> item = temp_text t)"
proof -
  let ?t = "temp_of_reading r"
  have sign: "temp_sign ?t = (if sint r < 0 then 45 else 43)" "temp_sign ?t \<noteq> 0"
    using uint_u16_less [of r] by (simp_all add: temp_of_reading_eq sint_u16)
  have "unat (magnitude r) mod 16 < 16"
    by simp
  then have fract: "unat (temp_fract ?t) < 100"
    by (simp add: unat_fraction div_less_iff_less_mult)
  have "100 * unat (temp_val ?t) + unat (temp_fract ?t) = unat (magnitude r) * 100 div 16"
    by (simp only: unat_whole unat_fraction fraction_parts)
  then have amount: "int (100 * unat (temp_val ?t) + unat (temp_fract ?t)) = \<bar>sint r\<bar> * 100 div 16"
    unfolding unat_magnitude [symmetric] by (simp only: of_nat_mult zdiv_int of_nat_numeral)
  have fw: "temp_fract ?t < 100"
    using fract by (simp add: word_less_nat_alt)
  note shape = temp_text_shape [OF sign(2) fw]
  show ?thesis
    unfolding Let_def queued_text [OF shape(1,2)] using sign(1) amount fract shape(3)
    by (cases "unat (temp_val ?t) < 100") simp_all
qed

end
