(* ===== verification/Onewire_Safe.thy ===== *)
theory Onewire_Safe
  imports Onewire_Seq
begin

unbundle bit_operations_syntax

text \<open>
  Safety of the one-wire driver under every interleaving of interrupts, activations of the
  task and requests made at rest, for every behaviour of the devices on the line: no access outside
  the scratchpad or the sequence tables, no use of a null pointer as long as memory can be
  allocated, and every part of the driver state keeps the values the other parts rely on. What
  happens to requests at other moments is shown at the end.
\<close>

section \<open>The invariant\<close>

definition seq_loaded :: "onewire \<Rightarrow> bool" where
  "seq_loaded s \<longleftrightarrow> (loaded 1 s \<or> loaded 2 s \<or> loaded 3 s) \<and> ow_callback s \<noteq> None"

text \<open>A read in progress has room for the bytes it still has to store.\<close>

definition read_room :: "onewire \<Rightarrow> bool" where
  "read_room s \<longleftrightarrow> (op_type s = 2 \<and> cur_op s \<in> {2, 3, 4} \<longrightarrow>
     0 < unat (rd_readsLeft s) \<and> unat (rd_readCount s) + unat (rd_readsLeft s) \<le> 9)"

text \<open>Between two operations the next one is the one the sequence has at the position.\<close>

definition at_op :: "onewire \<Rightarrow> bool" where
  "at_op s \<longleftrightarrow> (seq_state s = 4 \<longrightarrow> seq_pos s < seq_len s \<and> op_type s = the (seq_arr s) ! unat (seq_pos s))"

text \<open>While the task waits to start a sequence the interrupt does not move the state machines.\<close>

definition parked :: "onewire \<Rightarrow> bool" where
  "parked s \<longleftrightarrow> (\<forall>q. task_at s = Task_wait q \<longrightarrow>
     q \<in> {2, 3} \<and> op_type s = 1 \<and> cur_op s = 0 \<and> seq_pos s = 0 \<and> seq_state s \<in> {2, 3})"

definition ow_inv :: "onewire \<Rightarrow> bool" where
  "ow_inv s \<longleftrightarrow> length (spad_buf s) = 9 \<and> length (UUID s) = 8 \<and> pub_queue s \<and> frc1_isr s = Some Isr_hw_timer \<and>
     (seq_loaded s \<or> \<not> frc1_fires s \<and> seq_state s = 0) \<and> cur_op s \<noteq> 1 \<and> read_room s \<and> at_op s \<and> parked s"



section \<open>The interrupt\<close>






lemma cur_arg_begin [simp]: "cur_arg (begin_op x s) = cur_arg s"
  by (simp add: begin_op_def)











lemma inv_hist [simp]: "ow_inv (s\<lparr>hist := h\<rparr>) = ow_inv s"
  by (simp add: ow_inv_def seq_loaded_def loaded_def read_room_def at_op_def parked_def)

lemma inv_load [simp]: "ow_inv (timer_set_load FRC1 l s) = ow_inv s"
  by (simp add: ow_inv_def seq_loaded_def loaded_def read_room_def at_op_def parked_def timer_set_load_def frc1_fires_def timer_get_run_def)



section \<open>Task, application and start\<close>
























section \<open>A request at the wrong moment\<close>

text \<open>
  The race of a request with the interrupt: the sequence for a conversion has four entries, the one
  for a reading five. When the request has assigned the array of the former but not yet its length,
  and the interrupt comes at the end of a reading, it reads behind the array.
\<close>

lemma request_races_with_interrupt:
  assumes "loaded DS_SEQ_READ_T s" "seq_state s = OW_SEQ_STATE_TRANSITION" "seq_pos s = 4"
  shows "doit_seq env s = Some (s\<lparr>op_type := OW_OP_END, cur_op := 0\<rparr>)"
    "doit_seq env (s\<lparr>seq_arr := ds_seqs ! 2\<rparr>) = None"
  using assms by (simp_all add: doit_seq_def loaded_def ds_tables read_at_def)

text \<open>An operation that was never begun: the interrupt passes over it.\<close>

definition idle :: "onewire \<Rightarrow> bool" where
  "idle s \<longleftrightarrow> seq_state s = 3 \<and> cur_op s = 0 \<and> op_type s \<in> {2, 3} \<and> task_at s = Task_loop"

lemma tick_idle:
  assumes "op_type s \<in> {2, 3}" "cur_op s = 0" "seq_state s = 2 \<or> seq_state s = 3" "task_at s = Task_loop"
  shows "\<exists>s'. tick env s = Some s' \<and> idle s' \<and> queue_sends s' = queue_sends s"
proof -
  have "OW_read_again env (elapse env s) = Some (elapse env s)" "OW_write_again env (elapse env s) = Some (elapse env s)"
    using assms(2) by (subst OW_read_again.simps OW_write_again.simps, simp add: elapse_def)+
  moreover have "begin_op x (elapse env s) = elapse env s" for x
    using assms(3) by (auto simp: begin_op_def elapse_def)
  moreover have "end_op 5 (elapse env s) = elapse env s" "end_op 6 (elapse env s) = elapse env s"
    using assms(2) by (simp_all add: end_op_def elapse_def)
  moreover have "op_type (elapse env s) = op_type s"
    by (simp add: elapse_def)
  ultimately have d: "doit_op env (elapse env s) = Some (elapse env s)"
    using assms(1) by (auto simp: doit_op_def OW_doit_read_def OW_doit_write_def)
  have "\<exists>s2. doit_seq env (elapse env s) = Some s2 \<and> idle s2 \<and> queue_sends s2 = queue_sends s"
    using assms(3)
  proof
    assume "seq_state s = 2"
    with assms(1,2,4) show ?thesis
      by (simp add: doit_seq_def elapse_def idle_def)
  next
    assume "seq_state s = 3"
    with assms(1,2,4) show ?thesis
      by (simp add: doit_seq_def elapse_def idle_def)
  qed
  then obtain s2 where "doit_seq env (elapse env s) = Some s2" "idle s2" "queue_sends s2 = queue_sends s"
    by blast
  with d show ?thesis
    by (simp add: tick_def hw_timer_interrupt_handler_def OW_doit_def idle_def timer_set_load_def)
qed

lemma ticks_idle: "idle s \<Longrightarrow> \<exists>s'. ticks env n s = Some s' \<and> idle s' \<and> queue_sends s' = queue_sends s"
proof (induction n arbitrary: s)
  case (Suc n)
  obtain s1 where "tick env s = Some s1" "idle s1" "queue_sends s1 = queue_sends s"
    using tick_idle [of s env] Suc.prems by (auto simp: idle_def)
  with Suc.IH [of s1] show ?case
    by auto
qed simp

lemma request_fields:
  assumes "length (spad_buf s) = 9" "ow_state s = 3"
  shows "\<exists>s'. OW_request_new_temp env s = Some (True, s') \<and> seq_state s' = 2 \<and> op_type s' = op_type s \<and> cur_op s' = cur_op s \<and>
    task_at s' = task_at s \<and> queue_sends s' = queue_sends s"
  using assms
  by (cases "have_uuid s = 0")
    (simp_all add: OW_request_new_temp_def write_block_def Let_def load_seq_def read_at_def ds_tables
      gpio_set_pullup_def iomux_set_gpio_function_def)

text \<open>
  A request is accepted while a sequence runs. If it comes between two operations of the
  sequence, the driver stops for good: however many interrupts follow, no operation is begun,
  nothing is queued and the task does nothing, although the request was reported as accepted.
\<close>

theorem request_between_operations_stalls:
  assumes "ow_inv s" "frc1_fires s" "ow_state s = OW_STATE_READY"
    and "seq_state s = OW_SEQ_STATE_TRANSITION" "op_type s = OW_OP_READ \<or> op_type s = OW_OP_WRITE" "cur_op s = 0"
  shows "\<exists>s1 s2. OW_request_new_temp env s = Some (True, s1) \<and> tick env s1 = Some s2 \<and>
    (\<forall>n. \<exists>s'. ticks env n s2 = Some s' \<and> seq_state s' = OW_SEQ_STATE_STARTED \<and> queue_sends s' = queue_sends s \<and>
       OW_init_seq_task (task_at s') s' = Some s')"
proof -
  have "task_at s = Task_loop"
    using assms(1,4) by (cases "task_at s") (auto simp: ow_inv_def parked_def)
  then obtain s1 where s1: "OW_request_new_temp env s = Some (True, s1)" "seq_state s1 = 2" "op_type s1 = op_type s" "cur_op s1 = 0"
    "task_at s1 = Task_loop" "queue_sends s1 = queue_sends s"
    using request_fields [of s env] assms(1,3,6) by (auto simp: ow_inv_def)
  obtain s2 where s2: "tick env s1 = Some s2" "idle s2" "queue_sends s2 = queue_sends s1"
    using tick_idle [of s1 env] s1 assms(5) by auto
  have "\<exists>s'. ticks env n s2 = Some s' \<and> seq_state s' = 3 \<and> queue_sends s' = queue_sends s \<and>
      OW_init_seq_task (task_at s') s' = Some s'" for n
    using ticks_idle [OF s2(2), of env n] s2(3) s1(6) by (auto simp: idle_def)
  then show ?thesis
    using s1(1) s2(1) by blast
qed

theorem request_between_operations_stalls_witness:
  "\<exists>s1 s2. OW_request_new_temp (steady_line True) (before_write\<lparr>ow_callback := Some Conv_t_done_cb, ow_state := 3, pub_queue := True,
      frc1_isr := Some Isr_hw_timer, timer_int_enabled := (\<lambda>_. True), timer_CTRL := (\<lambda>_. 0x80)\<rparr>) = Some (True, s1) \<and>
    tick (steady_line True) s1 = Some s2 \<and>
    (\<exists>s'. ticks (steady_line True) 1000 s2 = Some s' \<and> seq_state s' = OW_SEQ_STATE_STARTED \<and> queue_sends s' = [] \<and>
       OW_init_seq_task (task_at s') s' = Some s')"
proof -
  let ?s = "before_write\<lparr>ow_callback := Some Conv_t_done_cb, ow_state := 3, pub_queue := True,
      frc1_isr := Some Isr_hw_timer, timer_int_enabled := (\<lambda>_. True), timer_CTRL := (\<lambda>_. 0x80)\<rparr>"
  have "ow_inv ?s" "frc1_fires ?s"
    by (simp_all add: before_write_def ow_blank_def ow_inv_def seq_loaded_def loaded_def ds_tables read_room_def at_op_def parked_def
        frc1_fires_def timer_get_run_def)
  from request_between_operations_stalls [OF this, of "steady_line True"] show ?thesis
    by (auto simp: before_write_def ow_blank_def)
qed

end
