(* ===== verification/Onewire_Sensor.thy ===== *)
theory Onewire_Sensor
  imports Onewire_Safe
begin

unbundle bit_operations_syntax

text \<open>
  The interface between the driver and a sensor on the line: what a sensor promises, what
  follows for every request, and a simulated sensor that keeps the promise.
\<close>

section \<open>The interface\<close>

text \<open>
  A sensor answers every reset at the same sample and, behind the two commands that ask for
  it, sends its scratchpad. Allocation succeeds.
\<close>

locale sensor =
  fixes env :: ow_env and scratchpad :: "byte list" and j :: nat
  assumes j_less: "j < 6"
    and presence: "answers env (reset_low l h) j"
    and transfer: "sends env (Tick False # commands_hist [0xCC, 0xBE] l j h) scratchpad"
    and length_scratchpad: "length scratchpad = 9"
    and allocation: "ow_malloc_ok env h"
begin

lemma read_reports:
  assumes "seq_ready 3 s" "ow_callback s = Some Read_temp_done_cb" "ow_error s = 0" "length (spad_buf s) = 9" "pub_queue s"
  shows "\<exists>s'. ticks env (576 + j) s = Some s' \<and> \<not> frc1_fires s' \<and> spad_buf s' = replicate 9 0 \<and>
    latest_temp s' = (if accepted scratchpad then temp_of_reading (reading_of scratchpad) else latest_temp s) \<and>
    queue_sends s' = queue_sends s @ published scratchpad s"
  using read_sequence [OF assms(1-3) j_less presence assms(4,5) allocation length_scratchpad transfer] by blast

lemma conversion_ends:
  assumes "seq_ready 2 s" "ow_callback s = Some Conv_t_done_cb" "ow_error s = 0"
  shows "\<exists>s'. ticks env (215 + j) s = Some s' \<and> \<not> frc1_fires s' \<and> seq_state s' = OW_SEQ_STATE_INIT \<and>
    ow_task_arg s' = DS_SEQ_READ_T \<and> keeps s' = keeps s"
  using conv_sequence [OF assms j_less presence] by auto

end


section \<open>A simulated sensor\<close>

text \<open>
  The sensor pulls the line low behind a long low phase; in a read slot it sends the bit
  whose number is the number of slots since the chip last held the line low over an interrupt.
\<close>

definition slots_since :: "bus_event list \<Rightarrow> nat" where
  "slots_since h = length (filter (\<lambda>e. e = Delay_us 2 True) (takeWhile (\<lambda>e. e \<noteq> Tick True) h))"

fun sensor_pin :: "byte list \<Rightarrow> bus_event list \<Rightarrow> bool" where
  "sensor_pin bs (Tick False # Delay_us us True # h) = bit (bs ! (slots_since h div 8)) (slots_since h mod 8)"
| "sensor_pin bs (Tick False # Tick True # h) = False"
| "sensor_pin bs h = True"

definition sensor_line :: "byte list \<Rightarrow> ow_env" where
  "sensor_line bs = \<lparr>TEMP_SENSOR_PIN = 5, pin_in = sensor_pin bs, ow_malloc_ok = (\<lambda>_. True)\<rparr>"

lemma slots_since_slot: "slots_since (rev (read_slot b) @ h) = Suc (slots_since h)"
  by (simp add: slots_since_def read_slot_def)

lemma sensor_read_bits:
  "read_bits (sensor_line bs) n h = map (\<lambda>k. bit (bs ! (k div 8)) (k mod 8)) [slots_since h..<slots_since h + n]"
proof (induction n arbitrary: h)
  case (Suc n)
  have "[slots_since h..<slots_since h + Suc n] = slots_since h # [Suc (slots_since h)..<Suc (slots_since h) + n]"
    by (subst upt_rec) simp
  then show ?case
    by (simp only: read_bits.simps Let_def Suc.IH slots_since_slot) (simp add: sensor_line_def)
qed simp

lemma bits_of_bytes: "concat (map bits_of bs) = map (\<lambda>k. bit (bs ! (k div 8)) (k mod 8)) [0..<8 * length bs]"
proof (induction bs rule: rev_induct)
  case (snoc b bs)
  have "[0..<8 * length (bs @ [b])] = [0..<8 * length bs] @ map (\<lambda>i. i + 8 * length bs) [0..<8]"
    using map_add_upt [of "8 * length bs" 8] upt_add_eq_append [of 0 "8 * length bs" 8] by (simp add: add.commute)
  moreover have "map (\<lambda>k. bit ((bs @ [b]) ! (k div 8)) (k mod 8)) [0..<8 * length bs] = concat (map bits_of bs)"
    unfolding snoc.IH by (rule map_cong) (auto simp: nth_append div_less_iff_less_mult mult.commute)
  moreover have "map (\<lambda>k. bit ((bs @ [b]) ! (k div 8)) (k mod 8)) (map (\<lambda>i. i + 8 * length bs) [0..<8]) = bits_of b"
    unfolding bits_of_def map_map by (rule map_cong) (auto simp: nth_append)
  ultimately show ?case
    by simp
qed simp

lemma slots_since_command: "slots_since (Tick False # rev (command d) @ h) = 0"
  by (simp add: slots_since_def command_def write_wave_def bits_of_expand slot_def)

lemma sensor_sends: "sends (sensor_line bs) (Tick False # commands_hist [c, d] l j h) bs"
  by (simp add: sends_def sensor_read_bits bits_of_bytes commands_hist_def slots_since_command)

lemma sensor_answers: "answers (sensor_line bs) (reset_low l h) 0"
  using replicate_Suc [of 47 "Tick True"] by (simp add: answers_def sensor_line_def reset_low_def)

text \<open>The scratchpad of a sensor at 22.375 degrees.\<close>

definition warm :: "byte list" where
  "warm = [0x66, 0x01, 0x4B, 0x46, 0x7F, 0xFF, 0x0A, 0x10, 0x2D]"

interpretation warm_sensor: sensor "sensor_line warm" warm 0
  by unfold_locales (simp_all only: sensor_answers sensor_sends, simp_all add: warm_def sensor_line_def)

lemma warm_accepted: "accepted warm" "reading_of warm = 0x166"
proof -
  have "register_of (take 8 warm) = warm ! 8"
    by code_simp
  then show "accepted warm"
    by (simp add: accepted_def)
  show "reading_of warm = 0x166"
    by code_simp
qed

definition after_uuid :: onewire where
  "after_uuid = ow_blank\<lparr>ow_state := 3, have_uuid := 1, pub_queue := True\<rparr>"

lemma warm_published: "published warm after_uuid = [[43, 50, 50, 46, 51, 55, 0]]"
  by code_simp

theorem measurement_witness:
  "\<exists>s1 s2 s3 s4 s'. OW_request_new_temp (sensor_line warm) after_uuid = Some (True, s1) \<and> run_task s1 \<bind> run_task = Some s2 \<and>
    ticks (sensor_line warm) 215 s2 = Some s3 \<and> run_task s3 \<bind> run_task = Some s4 \<and> ticks (sensor_line warm) 576 s4 = Some s' \<and>
    latest_temp s' = temp_of_reading 0x166 \<and> queue_sends s' = [[43, 50, 50, 46, 51, 55, 0]]"
proof -
  have "ow_state after_uuid = 3" "have_uuid after_uuid \<noteq> 0" "length (spad_buf after_uuid) = 9" "task_at after_uuid = Task_loop"
    "pub_queue after_uuid" "queue_sends after_uuid = []" "\<forall>h. ow_malloc_ok (sensor_line warm) h"
    by (simp_all add: after_uuid_def ow_blank_def sensor_line_def)
  then show ?thesis
    using measurement [of after_uuid "sensor_line warm" 0 0 warm] warm_sensor.presence warm_sensor.transfer
      warm_sensor.length_scratchpad warm_accepted warm_published by (simp; blast)
qed

end
