(* ===== verification/Spec2Isabelle.thy ===== *)
theory Spec2Isabelle
  imports Mqtt_Client Sysparam_Area Tftp_Boot Dhcp_Leases Spiffs_Store Ws2812_Strip Sntp_Time Pwm Onewire_Safe Onewire_Sensor
begin

text \<open>
  A verification development for esp-rtos-tests: the libraries of an open SDK for the ESP8266, with a
  boot loader, FreeRTOS and lwIP underneath and drivers, network servers and an MQTT client on top.

  \<^bold>\<open>The program and its parts.\<close> The boot ROM starts the boot loader (\<^verbatim>\<open>bootloader/rboot\<close>), which
  chooses one of several images in flash and jumps to it. The application uses the flash through
  \<^verbatim>\<open>open_esplibs/libmain/spi_flash.c\<close>; on it stand the persistent parameters (\<^verbatim>\<open>core/sysparam.c\<close>) and
  the interface for new images (\<^verbatim>\<open>extras/rboot-ota/rboot-api.c\<close>), which the TFTP server and client
  (\<^verbatim>\<open>extras/rboot-ota/ota-tftp.c\<close>) use to receive an image, store it, select it for the next boot and
  restart. Other services on the network are the DHCP server (\<^verbatim>\<open>extras/dhcpserver\<close>), the MQTT
  client (\<^verbatim>\<open>extras/paho_mqtt_c\<close>) and the time client (\<^verbatim>\<open>extras/sntp\<close>), which runs on the timeouts of the
  network thread (\<^verbatim>\<open>lwip/lwip/src/core/timers.c\<close>). Drivers that run in the interrupts of the hardware timers
  (\<^verbatim>\<open>core/esp_timer.c\<close>, \<^verbatim>\<open>core/esp_gpio.c\<close>) are pulse width modulation (\<^verbatim>\<open>extras/pwm\<close>) and the
  one-wire temperature sensor (\<^verbatim>\<open>extras/onewire\<close> on \<^verbatim>\<open>extras/hw_timer\<close> and \<^verbatim>\<open>extras/crc\<close>). The SPI
  controllers are driven by \<^verbatim>\<open>core/esp_spi.c\<close> for devices on the bus, by the older
  \<^verbatim>\<open>core/esp_spi2.c\<close> for the LED strip (\<^verbatim>\<open>extras/ws2812\<close>), and directly by the flash layer
  under the SPIFFS file system (\<^verbatim>\<open>extras/spiffs\<close>).

  \<^bold>\<open>Conventions.\<close> Definitions carry the names of the functions they translate and are executable.
  A buffer is the list of its bytes, a pointer into it an index; a structure that the code casts
  from bytes (boot configuration, RTC data, image headers) stays a byte buffer read and written at
  the offsets of its fields, any other is a record. Machine integers are words where they wrap or are
  taken apart bitwise; addresses and sizes are natural numbers with the reduction modulo 2 to
  the 32 written out. A result \<^term>\<open>None\<close> is undefined behaviour of C (an access outside a buffer,
  signed overflow, a null pointer, an uninitialised value used) or a loop that does not return, so a
  property that states \<^term>\<open>Some\<close> states both safety and termination. Error codes are
  the integers of the code. Messages on the console are left out everywhere.

  \<^bold>\<open>Theories.\<close>
  \<^descr> \<^verbatim>\<open>Prelude\<close>: C types, buffers (\<open>block_at\<close>, \<open>put_at\<close>, bounds-checked access), bit fields, and the
    lemmas on them all theories share.
  \<^descr> \<^verbatim>\<open>Mqtt_Packet\<close>, \<^verbatim>\<open>Mqtt_Publish\<close>, \<^verbatim>\<open>Mqtt_Control\<close>: \<^verbatim>\<open>MQTTPacket.c\<close>, \<^verbatim>\<open>MQTTSerializePublish.c\<close>,
    \<^verbatim>\<open>MQTTDeserializePublish.c\<close>, \<^verbatim>\<open>MQTTConnectClient.c\<close>, \<^verbatim>\<open>MQTTSubscribeClient.c\<close> and
    \<^verbatim>\<open>MQTTUnsubscribeClient.c\<close>, one function per function. Shown: round trips, the exact bytes written,
    that nothing is written outside the buffer, and the connect packet for which that fails.
    The locale \<open>emitter\<close> composes writers (interpreted for characters, integers and lengths),
    \<open>byte_source\<close> the byte-wise readers.
  \<^descr> \<^verbatim>\<open>Mqtt_Topic\<close>: \<^verbatim>\<open>is_topic_matched\<close> of \<^verbatim>\<open>MQTTClient.c\<close> equals matching level by level.
  \<^descr> \<^verbatim>\<open>Mqtt_Esp8266\<close>: timers and sockets, \<^verbatim>\<open>MQTTESP8266.c\<close>, with the wrap-around of the tick counter.
  \<^descr> \<^verbatim>\<open>Mqtt_Client\<close>: \<^verbatim>\<open>MQTTClient.c\<close>: sending and receiving under a timer, the receive cycle, keep-alive
    and all calls of the interface; an invariant over every sequence of calls, delivery of a publish
    packet to exactly the matching handlers, and its acknowledgement, over a connection that delivers the
    bytes of the stream in order, any number at a time.
  \<^descr> \<^verbatim>\<open>Spi_Flash\<close>: \<^verbatim>\<open>spi_flash.c\<close>: writes split at pages, reads, erases. The locale \<open>nor_rom\<close> is
    what the ROM functions promise on NOR flash (programming clears bits, erasing sets them); it is
    interpreted for a chip of 4 MB and for a small one, and every theory above it goes through it.
  \<^descr> \<^verbatim>\<open>Sysparam\<close>, \<^verbatim>\<open>Sysparam_Store\<close>, \<^verbatim>\<open>Sysparam_Area\<close>: \<^verbatim>\<open>sysparam.c\<close>: the operations; the log as a list of
    entries and the map from keys to values it stands for; numbers as text, creating and opening
    an area. Setting, reading and deleting refine update, lookup and removal on the map, the map survives
    a restart, every search ends on any flash contents. The locale \<open>sysparam_hw\<close> extends \<open>nor_rom\<close>.
  \<^descr> \<^verbatim>\<open>Rboot\<close>, \<^verbatim>\<open>Rboot_Image\<close>, \<^verbatim>\<open>Rboot_Boot\<close>: \<^verbatim>\<open>rboot.c\<close>, \<^verbatim>\<open>rboot-stage2a.c\<close>, \<^verbatim>\<open>rboot-bigflash.c\<close>: the image
    format, what is accepted and loaded, and which rom is booted with which effect on configuration and
    RTC memory. The locale \<open>boot_flash\<close> states the ROM functions the boot loader calls.
  \<^descr> \<^verbatim>\<open>Rboot_Api\<close>, \<^verbatim>\<open>Rboot_Update\<close>: \<^verbatim>\<open>rboot-api.c\<close> and the RTC functions of \<^verbatim>\<open>user_interface.c\<close>: images
    written in chunks, selected and verified, and what the boot loader makes of the result. The locale
    \<open>api\<close> extends \<open>nor_rom\<close> by geometry, allocator and scheduler.
  \<^descr> \<^verbatim>\<open>Netbuf\<close>: received packets as chains of segments (\<^verbatim>\<open>pbuf.c\<close>, \<^verbatim>\<open>netbuf_helpers.h\<close>).
  \<^descr> \<^verbatim>\<open>Tftp\<close>, \<^verbatim>\<open>Tftp_Flash\<close>, \<^verbatim>\<open>Tftp_Update\<close>, \<^verbatim>\<open>Tftp_Transfer\<close>, \<^verbatim>\<open>Tftp_Boot\<close>: \<^verbatim>\<open>ota-tftp.c\<close>: whatever the network
    delivers, as long as first segments hold the header (with a shorter one the length wraps and memory behind
    the segment is written), only the slot is written; a transfer (an inductive predicate over events, with repetitions and
    timeouts) is received completely; request, transfer, selection and restart lead to the boot of the
    new image. Locales \<open>tftp_board\<close> (extends \<open>api\<close>), \<open>tftp_net\<close> (lwIP) and \<open>tftp_system\<close> (both).
  \<^descr> \<^verbatim>\<open>Dhcp_Server\<close>, \<^verbatim>\<open>Dhcp_Leases\<close>: \<^verbatim>\<open>dhcpserver.c\<close>: no packet makes it leave a buffer or the table of leases; requests refine
    updates of a map from addresses to clients; offers are granted; leases end too early. Locale \<open>dhcp_net\<close>.
  \<^descr> \<^verbatim>\<open>Spiffs_Flash\<close>, \<^verbatim>\<open>Spiffs_Store\<close>: \<^verbatim>\<open>esp_spiffs_flash.c\<close>, \<^verbatim>\<open>unaligned_memcpy.S\<close> and, of
    \<^verbatim>\<open>esp_spiffs.c\<close>, the functions SPIFFS and the C library call: registers and data window of the flash
    controller, writes split into pages and pieces of the window, reads of unaligned addresses. What is
    written reads back; a length that wraps never returns. Locale \<open>spi_controller\<close>: what a command does
    once started, and that the busy flag falls.
  \<^descr> \<^verbatim>\<open>Spi_Bus\<close>, \<^verbatim>\<open>Spi_Transfer\<close>, \<^verbatim>\<open>Spi_Device\<close>: \<^verbatim>\<open>esp_spi.c\<close> and \<^verbatim>\<open>spi.h\<close>: register fields, modes and
    clock, command, address and dummy phases, transfers in pieces of 64 bytes with word size and byte order.
    Each element sent and received is the one the device exchanges, in order. Locale \<open>spi_device\<close>: the
    controller shifts the data window against an arbitrary device.
  \<^descr> \<^verbatim>\<open>Ws2812\<close>, \<^verbatim>\<open>Ws2812_Strip\<close>: \<^verbatim>\<open>esp_spi2.c\<close> and \<^verbatim>\<open>ws2812.c\<close>: the pulses sent for
    every bit of a colour and their times, against the table in the source, and the fade animation (the index that leaves its
    table).
  \<^descr> \<^verbatim>\<open>Lwip_Timers\<close>, \<^verbatim>\<open>Sntp\<close>, \<^verbatim>\<open>Sntp_Client\<close>, \<^verbatim>\<open>Sntp_Time\<close>: the list of timeouts of \<^verbatim>\<open>timers.c\<close>, whose time differences
    refine a list of deadlines; \<^verbatim>\<open>sntp.c\<close> and \<^verbatim>\<open>sntp_fun.c\<close>: requests, responses, servers and the clock. The client always has
    something to wait for under every sequence of events (an inductive step relation); a response sets the clock to within a
    tick; when the counter wraps the clock runs back, and a single server may never be asked. Locale \<open>sntp_net\<close>.
  \<^descr> \<^verbatim>\<open>Esp_Board\<close>, \<^verbatim>\<open>Pwm\<close>: \<^verbatim>\<open>esp_gpio.c\<close>, \<^verbatim>\<open>gpio.h\<close>, \<^verbatim>\<open>esp_timer.c\<close>, \<^verbatim>\<open>timer.h\<close> and \<^verbatim>\<open>pwm.c\<close>: the
    sequence of counts and levels the interrupts produce, for the pins of the port and for pin 16, which the
    registers of the real time clock drive.
  \<^descr> \<^verbatim>\<open>Onewire_Crc\<close>, \<^verbatim>\<open>Onewire\<close>, \<^verbatim>\<open>Onewire_Bus\<close>, \<^verbatim>\<open>Onewire_Seq\<close>, \<^verbatim>\<open>Onewire_Safe\<close>, \<^verbatim>\<open>Onewire_Sensor\<close>: \<^verbatim>\<open>crc.c\<close>,
    \<^verbatim>\<open>onewire.c\<close>, \<^verbatim>\<open>maxim28.h\<close>, \<^verbatim>\<open>hw_timer.c\<close>: the checksum is the shift register of the bus protocol; the
    waveforms of reset, bits and bytes; a measurement from the request to the queued temperature; safety
    under every interleaving of interrupts, runs of the task and requests made while the driver is at rest (a request at
    another moment races with the interrupt, which is shown apart). Locales \<open>byte_checksum\<close> and \<open>sensor\<close>.

  \<^bold>\<open>Parameters.\<close> Code that is not in the repository, and hardware, are arguments of the definitions that
  use them, each acting on a state of arbitrary type: the flash functions of the boot ROM, the
  allocator and the scheduler, the tick counter, lwIP's sockets and connections, the resolver, message
  handlers, the digest function, the SPI controller with the chip or device behind it, SPIFFS
  itself, the level of the one-wire line as a function of the history of the bus,
  the contents of memory behind a received segment, UDP, the real time counter and its calibration,
  and the values of uninitialised variables. What is assumed of them is stated in the locales above; every
  locale is interpreted on a concrete instance, and the witnesses of the properties run on these.

  \<^bold>\<open>Bounds and termination.\<close> No definition uses fuel. Loops end by a measure (\<^verbatim>\<open>function\<close>) or, where
  the code may run for ever (waiting under a timer, scanning flash, the boot loop, the server
  loops), are partial functions into the option type; that they return is then part of the
  properties. The transfers of \<^verbatim>\<open>Tftp_Transfer\<close> allow ten timeouts before each block but the first, as many
  as the code repeats its acknowledgement; the one-wire theories count interrupts of the nominal 10
  microseconds. Properties with hypotheses are followed by a witness at a concrete input.

  \<^bold>\<open>Not modelled.\<close> FreeRTOS and lwIP (vendored; lwIP enters as parameters, apart from the buffer functions
  of \<^verbatim>\<open>Netbuf\<close> and the timeouts of \<^verbatim>\<open>Lwip_Timers\<close>, where the handlers of other protocols are left out), start-up code, exception
  entry, clocks, the radio and the shells of SDK libraries in
  \<^verbatim>\<open>open_esplibs\<close> (register accesses whose effect the sources do not tell, assembler), the UART driver, mounting
  SPIFFS and the size of its buffers (the file system itself is a submodule), the examples and tests, and the tools for the host.
  In modelled parts: pin interrupts, two register functions of \<^verbatim>\<open>spi_flash.c\<close>, the assembler
  stubs of the boot loader that jump to the image, the task of the LED strip that only sleeps and its delays.
\<close>

end
